(* ===== verification/HPrelude.thy ===== *)
theory HPrelude
  imports Main "HOL-Library.Word"
begin

text \<open>
  Shared vocabulary of the development: how a kernel routine can fail to return
  (\<open>stop\<close>), sequencing of such routines (\<open>bnd\<close>), the loop that
  follows \<open>next\<close> pointers through a static table (\<open>for_chain\<close>), the
  scan for a free table slot (\<open>scan_slots\<close>), the relational abstraction of an
  in-table linked list (\<open>chain\<close>) and the machine words of the i386 target.
  The locale \<open>slot_table\<close> is the interface every table of the hardening code
  offers to its client: a node can be updated in place, and a node has a link field.
\<close>

unbundle bit_operations_syntax

named_theorems kdefs \<open>one-line kernel definitions that proofs unfold\<close>
named_theorems kframe \<open>what an operation leaves unchanged\<close>

type_synonym u8 = "8 word"
type_synonym u16 = "16 word"
type_synonym u32 = "32 word"
type_synonym u64 = "64 word"

section \<open>Routines that may not return\<close>

text \<open>
  A kernel routine either returns or stops the machine: \<open>panic()\<close>, a failed
  \<open>assert()\<close>, a null dereference, an access outside an array, or a loop over a cyclic list.
\<close>

datatype stop = Panic string | AssertFail string | NullDeref | OutOfBounds | Diverges

type_synonym ('s, 'a) kres = "stop + ('a \<times> 's)"

definition bnd :: "'e + 'a \<Rightarrow> ('a \<Rightarrow> 'e + 'b) \<Rightarrow> 'e + 'b" where
  "bnd m f = (case m of Inl e \<Rightarrow> Inl e | Inr x \<Rightarrow> f x)"

lemma bnd_Inl [simp]: "bnd (Inl e) f = Inl e"
  and bnd_Inr [simp]: "bnd (Inr x) f = f x"
  by (simp_all add: bnd_def)

lemma bnd_eq_Inr: "bnd m f = Inr y \<longleftrightarrow> (\<exists>x. m = Inr x \<and> f x = Inr y)"
  by (cases m) auto

lemma bnd_eq_Inl: "bnd m f = Inl e \<longleftrightarrow> m = Inl e \<or> (\<exists>x. m = Inr x \<and> f x = Inl e)"
  by (cases m) auto

lemma bnd_cong [fundef_cong]:
  "m = m' \<Longrightarrow> (\<And>x. m' = Inr x \<Longrightarrow> f x = f' x) \<Longrightarrow> bnd m f = bnd m' f'"
  by (cases m') auto

lemma bnd_split:
  "P (bnd m f) \<longleftrightarrow> (\<forall>e. m = Inl e \<longrightarrow> P (Inl e)) \<and> (\<forall>x. m = Inr x \<longrightarrow> P (f x))"
  by (cases m) auto

text \<open>\<open>assert(b)\<close> of the C sources; the string names the asserted condition.\<close>

definition kassert :: "bool \<Rightarrow> string \<Rightarrow> 's \<Rightarrow> stop + 's" where
  "kassert b msg s = (if b then Inr s else Inl (AssertFail msg))"

lemma kassert_True [simp]: "kassert True msg s = Inr s"
  by (simp add: kassert_def)

lemma kassert_eq_Inr: "kassert b msg s = Inr t \<longleftrightarrow> b \<and> t = s"
  by (auto simp: kassert_def)

lemma kassert_eq_Inl: "kassert b msg s = Inl e \<longleftrightarrow> \<not> b \<and> e = AssertFail msg"
  by (auto simp: kassert_def)

lemmas kres_simps = bnd_eq_Inr bnd_eq_Inl kassert_eq_Inr kassert_eq_Inl

section \<open>Linked lists inside static tables\<close>

text \<open>
  A list threaded through a table: \<open>chain nx p as\<close> says that following the link
  function \<open>nx\<close> from the pointer \<open>p\<close> visits exactly the slots \<open>as\<close> and
  ends in a null pointer.
\<close>

fun chain :: "('k \<Rightarrow> 'k option) \<Rightarrow> 'k option \<Rightarrow> 'k list \<Rightarrow> bool" where
  "chain nx p [] \<longleftrightarrow> p = None"
| "chain nx p (a # as) \<longleftrightarrow> p = Some a \<and> chain nx (nx a) as"

lemma chain_None [simp]: "chain nx None as \<longleftrightarrow> as = []"
  by (cases as) auto

lemma chain_Some: "chain nx (Some a) as \<longleftrightarrow> (\<exists>bs. as = a # bs \<and> chain nx (nx a) bs)"
  by (cases as) auto

lemma chain_cong_set:
  "(\<And>a. a \<in> set as \<Longrightarrow> nx a = ny a) \<Longrightarrow> chain nx p as = chain ny p as"
  by (induction as arbitrary: p) auto

lemma chain_upd_notin [simp]: "a \<notin> set as \<Longrightarrow> chain (nx(a := q)) p as = chain nx p as"
  by (rule chain_cong_set) auto

lemma chain_unique: "chain nx p as \<Longrightarrow> chain nx p bs \<Longrightarrow> as = bs"
proof (induction as arbitrary: p bs)
  case Nil
  then show ?case by simp
next
  case (Cons a as)
  then show ?case by (cases bs) auto
qed

lemma chain_drop: "chain nx p (as @ b # bs) \<Longrightarrow> chain nx (Some b) (b # bs)"
  by (induction as arbitrary: p) auto

lemma chain_distinct: "chain nx p as \<Longrightarrow> distinct as"
proof (induction as arbitrary: p)
  case Nil
  then show ?case by simp
next
  case (Cons a as)
  then have tl: "chain nx (nx a) as" by simp
  have "a \<notin> set as"
  proof
    assume "a \<in> set as"
    then obtain xs ys where as: "as = xs @ a # ys" by (meson split_list)
    with tl have "chain nx (Some a) (a # ys)" by (auto dest: chain_drop)
    then have "chain nx (nx a) ys" by simp
    with tl as have "as = ys" by (blast intro: chain_unique)
    with as show False by auto
  qed
  with Cons.IH [OF tl] show ?case by simp
qed

lemma chain_last: "chain nx p as \<Longrightarrow> as \<noteq> [] \<Longrightarrow> nx (last as) = None"
  by (induction as arbitrary: p) auto

lemma chain_head: "chain nx p as \<Longrightarrow> p = (case as of [] \<Rightarrow> None | a # _ \<Rightarrow> Some a)"
  by (cases as) auto

text \<open>Appending a slot at the tail and unlinking one, as functions of the links.\<close>

lemma chain_append_tail:
  assumes "chain nx p as" "as \<noteq> []" "n \<notin> set as"
  shows "chain (nx(last as := Some n, n := None)) p (as @ [n])"
  using assms
proof (induction as arbitrary: p)
  case Nil
  then show ?case by simp
next
  case (Cons a as)
  show ?case
  proof (cases "as = []")
    case True
    with Cons.prems show ?thesis by auto
  next
    case False
    have "chain nx (nx a) as" using Cons.prems by simp
    then have "distinct (a # as)" using Cons.prems(1) chain_distinct by blast
    then have "a \<noteq> last as" using False by auto
    moreover have "a \<noteq> n" using Cons.prems by auto
    moreover have "chain (nx(last as := Some n, n := None)) (nx a) (as @ [n])"
      using Cons.IH [of "nx a"] Cons.prems False by (simp del: fun_upd_apply)
    ultimately show ?thesis using Cons.prems(1) False by (simp del: fun_upd_apply add: fun_upd_other)
  qed
qed

lemma chain_unlink_mid:
  assumes "chain nx p (as @ b # c # cs)"
  shows "chain (nx(b := nx c)) p (as @ b # cs)"
proof -
  have d: "distinct (as @ b # c # cs)" using assms by (rule chain_distinct)
  have "chain (nx(b := nx c)) q (as @ b # cs)" if "chain nx q (as @ b # c # cs)" for q
    using that d by (induction as arbitrary: q) auto
  with assms show ?thesis by blast
qed

lemma chain_unlink_head: "chain nx p (a # as) \<Longrightarrow> chain nx (nx a) as"
  by simp

section \<open>The pointer-following loop\<close>

text \<open>
  \<open>while(q)\<lbrace> body; q = q->next; \<rbrace>\<close>: the link is read after the body ran. The body
  may leave the function early with a result (\<open>Some r\<close>) or stop the machine. A list
  that never reaches null gives \<open>None\<close>, reported as \<open>Diverges\<close>.
\<close>

partial_function (option) walk ::
  "('s \<Rightarrow> 'k \<Rightarrow> 'k option) \<Rightarrow> ('k \<Rightarrow> 's \<Rightarrow> stop + ('r option \<times> 's)) \<Rightarrow>
   'k option \<Rightarrow> 's \<Rightarrow> (stop + ('r option \<times> 's)) option" where
  "walk nx body q s =
     (case q of
        None \<Rightarrow> Some (Inr (None, s))
      | Some a \<Rightarrow>
          (case body a s of
             Inl e \<Rightarrow> Some (Inl e)
           | Inr (r, s') \<Rightarrow>
               (case r of
                  Some v \<Rightarrow> Some (Inr (Some v, s'))
                | None \<Rightarrow> walk nx body (nx s' a) s')))"

definition for_chain ::
  "('s \<Rightarrow> 'k \<Rightarrow> 'k option) \<Rightarrow> ('k \<Rightarrow> 's \<Rightarrow> stop + ('r option \<times> 's)) \<Rightarrow>
   'k option \<Rightarrow> 's \<Rightarrow> stop + ('r option \<times> 's)" where
  "for_chain nx body q s = (case walk nx body q s of None \<Rightarrow> Inl Diverges | Some r \<Rightarrow> r)"

lemma for_chain_None [simp]: "for_chain nx body None s = Inr (None, s)"
  by (simp add: for_chain_def walk.simps)

lemma for_chain_Some:
  "for_chain nx body (Some a) s =
     bnd (body a s) (\<lambda>(r, s'). case r of Some v \<Rightarrow> Inr (Some v, s')
        | None \<Rightarrow> for_chain nx body (nx s' a) s')"
  by (subst for_chain_def, subst walk.simps)
     (auto simp: for_chain_def bnd_def split: sum.splits option.splits)

text \<open>
  Total correctness of the loop: an invariant over the slots already visited and the
  slots still ahead, whose step keeps the walk on the list.
\<close>

lemma for_chain_inv:
  assumes "q = (case as of [] \<Rightarrow> None | a # _ \<Rightarrow> Some a)"
    and "I [] as s"
    and step: "\<And>ds a rs s. I ds (a # rs) s \<Longrightarrow> as = ds @ a # rs \<Longrightarrow>
      \<exists>s'. body a s = Inr (None, s') \<and> I (ds @ [a]) rs s' \<and>
           nx s' a = (case rs of [] \<Rightarrow> None | b # _ \<Rightarrow> Some b)"
  shows "\<exists>s'. for_chain nx body q s = Inr (None, s') \<and> I as [] s'"
proof -
  have gen: "\<exists>s'. for_chain nx body (case rs of [] \<Rightarrow> None | b # _ \<Rightarrow> Some b) s = Inr (None, s')
      \<and> I (ds @ rs) [] s'" if "I ds rs s" "as = ds @ rs" for ds rs s
    using that
  proof (induction rs arbitrary: ds s)
    case Nil
    then show ?case by simp
  next
    case (Cons a rs)
    from step [OF Cons.prems] obtain s1 where
      b: "body a s = Inr (None, s1)" and i: "I (ds @ [a]) rs s1"
      and n: "nx s1 a = (case rs of [] \<Rightarrow> None | b # _ \<Rightarrow> Some b)" by blast
    from Cons.IH [OF i] Cons.prems(2) obtain s2 where
      "for_chain nx body (case rs of [] \<Rightarrow> None | b # _ \<Rightarrow> Some b) s1 = Inr (None, s2)"
      and "I (ds @ a # rs) [] s2" by auto
    with b n show ?case by (simp add: for_chain_Some)
  qed
  from gen [of "[]" as s] assms(1,2) show ?thesis by simp
qed

text \<open>A body that never leaves early and never touches the links is a fold.\<close>

lemma for_chain_fold:
  assumes "chain (nx s) q as"
    and "\<And>a t. a \<in> set as \<Longrightarrow> P t \<Longrightarrow> body a t = Inr (None, f a t) \<and> nx (f a t) = nx t \<and> P (f a t)"
    and "P s"
  shows "for_chain nx body q s = Inr (None, fold f as s)"
  using assms
proof (induction as arbitrary: q s)
  case Nil
  then show ?case by simp
next
  case (Cons a as)
  then have b: "body a s = Inr (None, f a s)" "nx (f a s) = nx s" "P (f a s)" by auto
  have "for_chain nx body (nx s a) (f a s) = Inr (None, fold f as (f a s))"
  proof (rule Cons.IH)
    show "chain (nx (f a s)) (nx s a) as" using Cons.prems(1) b(2) by simp
  qed (use Cons.prems(2) b in auto)
  with b Cons.prems(1) show ?case by (simp add: for_chain_Some)
qed

text \<open>
  A search \<open>while(q)\<lbrace> if(P q) return q; q = q->next; \<rbrace>\<close> finds the first slot of
  the list that satisfies the test.
\<close>

definition find_chain ::
  "('s \<Rightarrow> 'k \<Rightarrow> 'k option) \<Rightarrow> ('s \<Rightarrow> 'k \<Rightarrow> bool) \<Rightarrow> 'k option \<Rightarrow> 's \<Rightarrow> stop + 'k option" where
  "find_chain nx P q s =
     bnd (for_chain nx (\<lambda>a s. Inr (if P s a then Some a else None, s)) q s) (\<lambda>(r, _). Inr r)"

lemma find_chain_find:
  assumes "chain (nx s) q as"
  shows "find_chain nx P q s = Inr (find (P s) as)"
  using assms
proof (induction as arbitrary: q)
  case Nil
  then show ?case by (simp add: find_chain_def)
next
  case (Cons a as)
  from Cons.prems have q: "q = Some a" and tl: "chain (nx s) (nx s a) as" by auto
  from Cons.IH [OF tl] q show ?case
    by (simp add: find_chain_def for_chain_Some split: option.splits)
qed

text \<open>
  \<open>while(q->next) q = q->next;\<close>: the tail of a list. The start is not null.
\<close>

partial_function (option) last_link :: "('k \<Rightarrow> 'k option) \<Rightarrow> 'k \<Rightarrow> 'k option" where
  "last_link nx a = (case nx a of None \<Rightarrow> Some a | Some b \<Rightarrow> last_link nx b)"

lemma last_link_chain: "chain nx (Some a) as \<Longrightarrow> last_link nx a = Some (last as)"
proof (induction as arbitrary: a)
  case Nil
  then show ?case by simp
next
  case (Cons b as)
  then show ?case by (cases as) (auto simp: last_link.simps)
qed

definition tail_of :: "('k \<Rightarrow> 'k option) \<Rightarrow> 'k option \<Rightarrow> stop + 'k" where
  "tail_of nx q =
     (case q of None \<Rightarrow> Inl NullDeref
      | Some a \<Rightarrow> (case last_link nx a of None \<Rightarrow> Inl Diverges | Some b \<Rightarrow> Inr b))"

lemma tail_of_chain: "chain nx q as \<Longrightarrow> as \<noteq> [] \<Longrightarrow> tail_of nx q = Inr (last as)"
  using last_link_chain [of nx "hd as" as] by (cases as) (auto simp: tail_of_def)

text \<open>
  The search that remembers the predecessor, \<open>prev = q; q = q->next;\<close>, used by every
  routine that unlinks a node: it yields the predecessor and the node found.
\<close>

definition search_prev ::
  "('k \<Rightarrow> 'k option) \<Rightarrow> ('k \<Rightarrow> bool) \<Rightarrow> 'k option \<Rightarrow> stop + ('k option \<times> 'k) option" where
  "search_prev nx P q =
     bnd (for_chain (\<lambda>_. nx)
            (\<lambda>a prev. Inr (if P a then (Some (prev, a), prev) else (None, Some a))) q None)
       (\<lambda>(r, _). Inr r)"

fun prev_in :: "('k \<Rightarrow> bool) \<Rightarrow> 'k option \<Rightarrow> 'k list \<Rightarrow> ('k option \<times> 'k) option" where
  "prev_in P prev [] = None"
| "prev_in P prev (a # as) = (if P a then Some (prev, a) else prev_in P (Some a) as)"

lemma search_prev_chain:
  assumes "chain nx q as"
  shows "search_prev nx P q = Inr (prev_in P None as)"
proof -
  have "bnd (for_chain (\<lambda>_. nx)
          (\<lambda>a prev. Inr (if P a then (Some (prev, a), prev) else (None, Some a))) q prev)
          (\<lambda>(r, _). Inr r) = (Inr (prev_in P prev as) :: stop + _)" for prev
    using assms by (induction as arbitrary: q prev) (auto simp: for_chain_Some)
  then show ?thesis by (simp add: search_prev_def)
qed

lemma prev_in_split:
  assumes "\<forall>x \<in> set as. \<not> P x" "P b"
  shows "prev_in P pr (as @ b # bs) = Some (if as = [] then pr else Some (last as), b)"
  using assms by (induction as arbitrary: pr) auto

lemma prev_in_None: "prev_in P pr as = None \<longleftrightarrow> (\<forall>x \<in> set as. \<not> P x)"
  by (induction as arbitrary: pr) auto

text \<open>The slots a pointer reaches, computed: the executable form of \<open>chain\<close>.\<close>

definition slots_of :: "('k \<Rightarrow> 'k option) \<Rightarrow> 'k option \<Rightarrow> 'k list" where
  "slots_of nx q =
     (case for_chain (\<lambda>_. nx) (\<lambda>a acc. Inr (None :: unit option, a # acc)) q [] of
        Inl _ \<Rightarrow> [] | Inr (_, acc) \<Rightarrow> rev acc)"

lemma slots_of_chain:
  assumes "chain nx q as" shows "slots_of nx q = as"
proof -
  have "for_chain (\<lambda>_. nx) (\<lambda>a acc. Inr (None :: unit option, a # acc)) q acc
      = Inr (None, rev as @ acc)" for acc
    using assms by (induction as arbitrary: q acc) (auto simp: for_chain_Some)
  then show ?thesis by (simp add: slots_of_def)
qed

section \<open>Counted loops\<close>

text \<open>\<open>for(i = 0; i < n; i++) body\<close> over the list of counter values.\<close>

fun for_each :: "('i \<Rightarrow> 's \<Rightarrow> stop + 's) \<Rightarrow> 'i list \<Rightarrow> 's \<Rightarrow> stop + 's" where
  "for_each body [] s = Inr s"
| "for_each body (i # is) s = bnd (body i s) (for_each body is)"

lemma for_each_inv:
  assumes "I s" "\<And>i s. i \<in> set is \<Longrightarrow> I s \<Longrightarrow> \<exists>s'. body i s = Inr s' \<and> I s'"
  shows "\<exists>s'. for_each body is s = Inr s' \<and> I s'"
  using assms
proof (induction "is" arbitrary: s)
  case Nil
  then show ?case by simp
next
  case (Cons i "is")
  then obtain s1 where "body i s = Inr s1" "I s1" by (meson list.set_intros(1))
  with Cons show ?case by simp
qed

section \<open>The scan for a free slot\<close>

text \<open>
  \<open>do \<lbrace> q++; \<rbrace> while(!(q->flags & FREE) && q < END);\<close> starting at slot \<open>i\<close>,
  with \<open>END\<close> the address of slot \<open>e\<close>.
\<close>

function scan_slots :: "(nat \<Rightarrow> bool) \<Rightarrow> nat \<Rightarrow> nat \<Rightarrow> nat" where
  "scan_slots free e i =
     (if \<not> free (Suc i) \<and> Suc i < e then scan_slots free e (Suc i) else Suc i)"
  by pat_completeness auto
termination
  by (relation "measure (\<lambda>(free, e, i). e - i)") auto

declare scan_slots.simps [simp del]

lemma scan_slots_spec:
  "i < e \<Longrightarrow> i < scan_slots free e i \<and> scan_slots free e i \<le> e
    \<and> (\<forall>j. i < j \<and> j < scan_slots free e i \<longrightarrow> \<not> free j)
    \<and> (scan_slots free e i < e \<longrightarrow> free (scan_slots free e i))"
proof (induction free e i rule: scan_slots.induct)
  case (1 free e i)
  show ?case
  proof (cases "\<not> free (Suc i) \<and> Suc i < e")
    case True
    with "1.IH" have *: "Suc i < scan_slots free e (Suc i) \<and> scan_slots free e (Suc i) \<le> e
      \<and> (\<forall>j. Suc i < j \<and> j < scan_slots free e (Suc i) \<longrightarrow> \<not> free j)
      \<and> (scan_slots free e (Suc i) < e \<longrightarrow> free (scan_slots free e (Suc i)))" by blast
    have eq: "scan_slots free e i = scan_slots free e (Suc i)"
      using True by (simp add: scan_slots.simps [of free e i])
    show ?thesis
      unfolding eq using * True by (metis Suc_lessD less_antisym not_less_eq)
  next
    case False
    then have "scan_slots free e i = Suc i" by (subst scan_slots.simps) auto
    with False "1.prems" show ?thesis by auto
  qed
qed

lemma scan_slots_full:
  assumes "i < e" "\<forall>j. i < j \<and> j < e \<longrightarrow> \<not> free j"
  shows "scan_slots free e i = e"
  using scan_slots_spec [OF assms(1), of free] assms(2)
  by (metis le_neq_implies_less)

text \<open>
  The allocator all four tables use: the first slot is tried on its own, then the scan
  runs; the offset it stopped at is compared with the table size \<open>n\<close>, and reaching it
  means a full table (\<open>None\<close>).
\<close>

definition first_free :: "(nat \<Rightarrow> bool) \<Rightarrow> nat \<Rightarrow> nat option" where
  "first_free free n =
     (if free 0 then Some 0
      else let i = scan_slots free (n - 1) 0 in if i \<ge> n then None else Some i)"

lemma first_free_room:
  assumes "k < n - 1" "free k"
  shows "\<exists>i. first_free free n = Some i \<and> i < n - 1 \<and> free i \<and> (\<forall>j < i. \<not> free j)"
proof (cases "free 0")
  case True
  with assms show ?thesis by (auto simp: first_free_def)
next
  case False
  let ?i = "scan_slots free (n - 1) 0"
  have sp: "0 < ?i \<and> ?i \<le> n - 1 \<and> (\<forall>j. 0 < j \<and> j < ?i \<longrightarrow> \<not> free j) \<and> (?i < n - 1 \<longrightarrow> free ?i)"
    by (rule scan_slots_spec) (use assms in simp)
  have "0 < k" using False assms(2) by (cases k) auto
  then have "?i \<le> k" using sp assms(2) by (meson not_le)
  then have lt: "?i < n - 1" using assms(1) by linarith
  moreover have "\<not> free j" if "j < ?i" for j
    using that sp False by (cases j) auto
  ultimately show ?thesis using sp False by (auto simp: first_free_def Let_def)
qed

lemma first_free_full:
  assumes "1 < n" "\<forall>k < n - 1. \<not> free k"
  shows "first_free free n = Some (n - 1)"
proof -
  have "scan_slots free (n - 1) 0 = n - 1" using assms by (intro scan_slots_full) auto
  with assms show ?thesis by (auto simp: first_free_def Let_def)
qed

lemma first_free_total:
  assumes "1 < n" shows "\<exists>i < n. first_free free n = Some i"
proof (cases "\<exists>k < n - 1. free k")
  case True
  then obtain i where "first_free free n = Some i" "i < n - 1" using first_free_room by meson
  then show ?thesis by auto
next
  case False
  with assms have "first_free free n = Some (n - 1)" by (intro first_free_full) auto
  with assms show ?thesis by auto
qed

section \<open>The interface of a table with links\<close>

text \<open>
  What the clients of a table rely on: a slot is updated in place and no other slot
  changes, and writing the link field of a node only changes its link.
\<close>

locale slot_table =
  fixes node :: "'s \<Rightarrow> 'k \<Rightarrow> 'n"
    and upd :: "'k \<Rightarrow> ('n \<Rightarrow> 'n) \<Rightarrow> 's \<Rightarrow> 's"
    and nxt :: "'n \<Rightarrow> 'k option"
    and set_nxt :: "'k option \<Rightarrow> 'n \<Rightarrow> 'n"
  assumes node_upd: "node (upd a f s) b = (if b = a then f (node s a) else node s b)"
    and nxt_set: "nxt (set_nxt q n) = q"
begin

lemma nxt_upd_link:
  "(\<lambda>b. nxt (node (upd a (set_nxt q) s) b)) = (\<lambda>b. nxt (node s b))(a := q)"
  by (rule ext) (simp add: node_upd nxt_set)

lemma nxt_upd_other:
  "(\<And>n. nxt (f n) = nxt n) \<Longrightarrow> (\<lambda>b. nxt (node (upd a f s) b)) = (\<lambda>b. nxt (node s b))"
  by (rule ext) (simp add: node_upd)

text \<open>\<open>tail->next = n; n->next = NULL;\<close> appends the slot \<open>n\<close> to the list.\<close>

lemma link_tail:
  assumes "chain (\<lambda>b. nxt (node s b)) p as" "as \<noteq> []" "n \<notin> set as"
  shows "chain (\<lambda>b. nxt (node (upd n (set_nxt None) (upd (last as) (set_nxt (Some n)) s)) b)) p (as @ [n])"
  using chain_append_tail [OF assms] by (simp add: nxt_upd_link)

text \<open>\<open>prev->next = q->next;\<close> drops the slot after \<open>prev\<close> from the list.\<close>

lemma unlink_after:
  assumes "chain (\<lambda>b. nxt (node s b)) p (as @ b # c # cs)"
  shows "chain (\<lambda>x. nxt (node (upd b (set_nxt (nxt (node s c))) s) x)) p (as @ b # cs)"
  using chain_unlink_mid [OF assms] by (simp add: nxt_upd_link)

end

section \<open>Flag words\<close>

lemma and_not_disjoint:
  fixes x :: "'a::len word"
  assumes "x AND m = 0" shows "x AND NOT m = x"
proof -
  have "x = (x AND m) OR (x AND NOT m)"
    by (simp flip: bit.conj_disj_distrib)
  with assms show ?thesis by simp
qed

lemma divmod_less: "(b div k < a div k \<or> a div k = b div k \<and> b mod k < a mod k) \<longleftrightarrow> b < (a::nat)"
proof (cases "a div k" "b div k" rule: linorder_cases)
  case less
  then have "a < b" by (metis div_le_mono leI leD)
  with less show ?thesis by auto
next
  case equal
  then show ?thesis by (metis div_mult_mod_eq nat_add_left_cancel_less less_irrefl)
next
  case greater
  then have "b < a" by (metis div_le_mono leI leD)
  with greater show ?thesis by auto
qed

text \<open>\<open>x & m\<close> as a condition, \<open>x |= m\<close> and \<open>x &= ~m\<close>.\<close>

definition has :: "'a::len word \<Rightarrow> 'a word \<Rightarrow> bool" where
  "has x m \<longleftrightarrow> x AND m \<noteq> 0"

definition setf :: "'a::len word \<Rightarrow> 'a word \<Rightarrow> 'a word" where
  "setf x m = x OR m"

definition clrf :: "'a::len word \<Rightarrow> 'a word \<Rightarrow> 'a word" where
  "clrf x m = x AND NOT m"

lemma has_setf_same: "m \<noteq> 0 \<Longrightarrow> has (setf x m) m"
  by (simp add: has_def setf_def bit.conj_disj_distrib2)

lemma has_clrf_same [simp]: "\<not> has (clrf x m) m"
  by (simp add: has_def clrf_def and.assoc)

lemma or_eq_zero [simp]: "(x :: 'a::len word) OR y = 0 \<longleftrightarrow> x = 0 \<and> y = 0"
  by (metis or.left_idem or.right_neutral or.commute)

lemma has_setf_other: "k AND m = 0 \<Longrightarrow> has (setf x k) m = has x m"
  by (simp add: has_def setf_def bit.conj_disj_distrib2)

lemma has_clrf_other:
  assumes "k AND m = 0" shows "has (clrf x k) m = has x m"
proof -
  have "(x AND NOT k) AND m = x AND m"
    using assms by (metis (no_types, lifting) and.assoc and.commute bit.conj_cancel_right
      bit.conj_disj_distrib bit.conj_one_right bit.disj_cancel_right bit.disj_zero_right)
  then show ?thesis by (simp add: has_def clrf_def)
qed

lemma has_zero [simp]: "\<not> has 0 m"
  by (simp add: has_def)

section \<open>Sequences of operations\<close>

text \<open>Operations that cannot stop from a state of an invariant, in any order.\<close>

fun run_steps :: "('o \<Rightarrow> 's \<Rightarrow> stop + 's) \<Rightarrow> 'o list \<Rightarrow> 's \<Rightarrow> stop + 's" where
  "run_steps step [] s = Inr s"
| "run_steps step (a # as) s = bnd (step a s) (run_steps step as)"

locale safe_steps =
  fixes inv :: "'s \<Rightarrow> bool" and ok :: "'o \<Rightarrow> bool" and step :: "'o \<Rightarrow> 's \<Rightarrow> stop + 's"
  assumes step_safe: "inv s \<Longrightarrow> ok a \<Longrightarrow> \<exists>t. step a s = Inr t \<and> inv t"
begin

lemma run_safe: "inv s \<Longrightarrow> \<forall>a \<in> set as. ok a \<Longrightarrow> \<exists>t. run_steps step as s = Inr t \<and> inv t"
proof (induction as arbitrary: s)
  case Nil
  then show ?case by simp
next
  case (Cons a as)
  then obtain t where "step a s = Inr t" "inv t" using step_safe by (metis list.set_intros(1))
  then show ?case using Cons by simp
qed

end

end
