(* ===== verification/HTypes.thy ===== *)
theory HTypes
  imports HPrelude
begin

text \<open>
  The data model: the constants of \<open>kernel/arch/i386/htype.h\<close> and of the headers it
  rests on, the four table records of the hardening code, the part of
  \<open>struct proc\<close> it reads and writes, the saved register contexts and the kernel's
  global variables (\<open>kernel/glo.h\<close>) as one record \<open>kstate\<close>. Pointers into a
  static table are slot numbers (\<open>None\<close> is the null pointer); a pointer to a
  \<open>struct proc\<close> is its index in the process table.
\<close>

section \<open>Constants\<close>

abbreviation OK :: int where "OK \<equiv> 0"
abbreviation EFAULT :: int where "EFAULT \<equiv> - 14"
abbreviation EINVAL :: int where "EINVAL \<equiv> - 22"
abbreviation EFAULT_SRC :: int where "EFAULT_SRC \<equiv> - 995"
abbreviation EFAULT_DST :: int where "EFAULT_DST \<equiv> - 994"

abbreviation MAP_NONE :: u32 where "MAP_NONE \<equiv> 0xFFFFFFFE"
abbreviation WORKING_SET_SIZE :: nat where "WORKING_SET_SIZE \<equiv> 32768"
abbreviation HARDENING_MEM_EVENTS :: nat where "HARDENING_MEM_EVENTS \<equiv> 10000"
abbreviation HARDENING_SHARED_REGIONS :: nat where "HARDENING_SHARED_REGIONS \<equiv> 50"
abbreviation HARDENING_SHARED_PROCS :: nat where "HARDENING_SHARED_PROCS \<equiv> 100"

abbreviation PRAM_SLOT_FREE :: u32 where "PRAM_SLOT_FREE \<equiv> 1"
abbreviation HME_SLOT_FREE :: u32 where "HME_SLOT_FREE \<equiv> 1"
abbreviation HSR_SLOT_FREE :: u32 where "HSR_SLOT_FREE \<equiv> 1"
abbreviation HSP_SLOT_FREE :: u32 where "HSP_SLOT_FREE \<equiv> 1"
abbreviation PRAM_LAST_PF :: u32 where "PRAM_LAST_PF \<equiv> 2"
abbreviation HGET_PF :: u32 where "HGET_PF \<equiv> 0x2000"
abbreviation IWS_PF_FIRST :: u32 where "IWS_PF_FIRST \<equiv> 0x4000"
abbreviation IWS_PF_SECOND :: u32 where "IWS_PF_SECOND \<equiv> 0x8000"
abbreviation IWS_MOD_KERNEL :: u32 where "IWS_MOD_KERNEL \<equiv> 0x10000"
abbreviation FWS :: u32 where "FWS \<equiv> 0x20000"
abbreviation WS_SHARED :: u32 where "WS_SHARED \<equiv> 0x40000"
abbreviation H_HAS_NULL_PRAM :: u32 where "H_HAS_NULL_PRAM \<equiv> 0x80000"
abbreviation H_TO_UPDATE :: u32 where "H_TO_UPDATE \<equiv> 0x100000"
abbreviation H_FORK :: u32 where "H_FORK \<equiv> 0x200000"
abbreviation H_EXEC :: u32 where "H_EXEC \<equiv> 0x400000"

abbreviation PROC_TO_HARD :: u32 where "PROC_TO_HARD \<equiv> 2"
abbreviation PROC_SHARING_MEM :: u32 where "PROC_SHARING_MEM \<equiv> 4"

abbreviation H_DISABLE :: int where "H_DISABLE \<equiv> 0"
abbreviation H_ENABLE :: int where "H_ENABLE \<equiv> 1"
abbreviation H_YES :: int where "H_YES \<equiv> 1"
abbreviation H_NO :: int where "H_NO \<equiv> 0"
abbreviation NO_HARD_RUN :: int where "NO_HARD_RUN \<equiv> 0"
abbreviation FIRST_RUN :: int where "FIRST_RUN \<equiv> 1"
abbreviation SECOND_RUN :: int where "SECOND_RUN \<equiv> 2"
abbreviation VM_RUN :: int where "VM_RUN \<equiv> 3"
abbreviation FIRST_STEPPING :: int where "FIRST_STEPPING \<equiv> 4"
abbreviation RESTORE_FOR_SECOND_RUN :: int where "RESTORE_FOR_SECOND_RUN \<equiv> 1"
abbreviation RESTORE_FOR_FISRT_RUN :: int where "RESTORE_FOR_FISRT_RUN \<equiv> 2"
abbreviation H_STABLE :: int where "H_STABLE \<equiv> 0"
abbreviation H_STEPPING :: int where "H_STEPPING \<equiv> 4"
abbreviation CPY_RAM_FIRST :: int where "CPY_RAM_FIRST \<equiv> 0"
abbreviation CPY_RAM_PRAM :: int where "CPY_RAM_PRAM \<equiv> 2"
abbreviation CMP_FAILED :: int where "CMP_FAILED \<equiv> 3"
abbreviation CPY_RAM_FIRST_STEPPING :: int where "CPY_RAM_FIRST_STEPPING \<equiv> 8"
abbreviation ABORT_PE :: int where "ABORT_PE \<equiv> 0x10"
abbreviation FROM_EXEC :: int where "FROM_EXEC \<equiv> 0x10"
abbreviation PE_END_IN_NMI :: int where "PE_END_IN_NMI \<equiv> 7"
abbreviation NORMAL_PF :: int where "NORMAL_PF \<equiv> 1"
abbreviation K_HANDLE_PF :: int where "K_HANDLE_PF \<equiv> 6"
abbreviation RO_PAGE_FIRST_RUN :: int where "RO_PAGE_FIRST_RUN \<equiv> 1"
abbreviation RO_PAGE_SECOND_RUN :: int where "RO_PAGE_SECOND_RUN \<equiv> 2"
abbreviation VM_HANDLED_PF_ABS_WS :: int where "VM_HANDLED_PF_ABS_WS \<equiv> - 2"
abbreviation VM_HANDLED_NO_ACESS :: int where "VM_HANDLED_NO_ACESS \<equiv> - 3"
abbreviation VM_HANDLED_NO_PRESENT :: int where "VM_HANDLED_NO_PRESENT \<equiv> - 4"
abbreviation VM_VADDR_NOT_FOUND :: int where "VM_VADDR_NOT_FOUND \<equiv> - 6"
abbreviation PROC_NOT_SHARING :: int where "PROC_NOT_SHARING \<equiv> - 7"
abbreviation VM_HANDLED_GLOBAL :: int where "VM_HANDLED_GLOBAL \<equiv> - 8"
abbreviation VM_HANDLED_BIG :: int where "VM_HANDLED_BIG \<equiv> - 9"
abbreviation REG_SIZE :: nat where "REG_SIZE \<equiv> 32"

abbreviation VM_PROC_NR :: int where "VM_PROC_NR \<equiv> 8"
abbreviation RTS_SLOT_FREE :: u32 where "RTS_SLOT_FREE \<equiv> 0x01"
abbreviation RTS_PAGEFAULT :: u32 where "RTS_PAGEFAULT \<equiv> 0x400"
abbreviation RTS_UNSTABLE_STATE :: u32 where "RTS_UNSTABLE_STATE \<equiv> 0x20000"
abbreviation MF_STEP :: u32 where "MF_STEP \<equiv> 0x40000"
abbreviation TRACEBIT :: u32 where "TRACEBIT \<equiv> 0x100"

section \<open>Table records\<close>

record pram_mem_block =
  pmb_id :: int
  pmb_flags :: u32
  pmb_iflags :: u32
  pmb_vaddr :: u32
  us0 :: u32
  us1 :: u32
  us2 :: u32
  next_pmb :: "nat option"

record hardening_mem_event =
  hme_id :: int
  hme_flags :: u32
  addr_base :: u32
  hme_nbytes :: u32
  npages :: int
  next_hme :: "nat option"

record hardening_shared_proc =
  hsp_endpoint :: int
  hsp_flags :: u32
  hsp_id :: int
  next_hsp :: "nat option"

record hardening_shared_region =
  hsr_id :: int
  hsr_flags :: u32
  r_id :: int
  hsr_vaddr :: u32
  hsr_length :: u32
  next_hsr :: "nat option"
  r_hsp :: "nat option"
  n_hsp :: int

section \<open>Processor and process records\<close>

record stackframe_s =
  r_gs :: u16
  r_fs :: u16
  r_es :: u16
  r_ds :: u16
  r_di :: u32
  r_si :: u32
  r_fp :: u32
  r_st :: u32
  r_bx :: u32
  r_dx :: u32
  r_cx :: u32
  r_retreg :: u32
  r_retadr :: u32
  r_pc :: u32
  r_cs :: u32
  r_psw :: u32
  r_sp :: u32
  r_ss :: u32

text \<open>The registers the trap entry code of \<open>mpx.S\<close> leaves in \<open>eax_s\<close> \<dots> \<open>ebp_s\<close>.\<close>

record entry_regs =
  eax_s :: u32
  ebx_s :: u32
  ecx_s :: u32
  edx_s :: u32
  esi_s :: u32
  edi_s :: u32
  esp_s :: u32
  ebp_s :: u32

text \<open>
  The variables \<open>gs_1, \<dots>, cr4_1\<close> (state at the end of the first run) and their
  \<open>_2\<close> twins: one record each.
\<close>

record run_copy =
  c_reg :: stackframe_s
  c_kern_trap_style :: int
  c_origin :: int
  c_entry :: entry_regs
  c_cr0 :: u32
  c_cr2 :: u32
  c_cr3 :: u32
  c_cr4 :: u32

text \<open>The variables \<open>gs, \<dots>, cr4\<close>: the state before the first run.\<close>

record start_copy =
  z_reg :: stackframe_s
  z_kern_trap_style :: int
  z_rts_flags :: u32
  z_cpu_time_left :: u64
  z_cr0 :: u32
  z_cr2 :: u32
  z_cr3 :: u32
  z_cr4 :: u32

record proc_stats =
  p_nb_nmi :: int
  p_nb_pe :: int
  p_nb_abort :: int
  p_nb_ss :: int
  p_nb_dwc_d_f :: int
  p_nb_inj_fault :: int
  p_nb_exception_d_f :: int
  p_nb_interrupt :: int
  p_ticks :: int
  p_last_inject_pe :: int

text \<open>A cycle accumulator and the milliseconds it was folded into.\<close>

record tsc_acc =
  acc_tsc :: u64
  acc_t :: u32

text \<open>
  A message: the source and type, and the fields of the variants the modelled code uses
  (the variant \<open>m10\<close> of the hardening calls, the notification, the page fault and the
  scheduling accounts).
\<close>

record message =
  m_source :: int
  m_type :: int
  m10_i1 :: int
  m10_i2 :: int
  m10_i3 :: int
  m10_i4 :: int
  m10_l1 :: u32
  m10_l2 :: u32
  m10_l3 :: u32
  NOTIFY_ARG :: u32
  NOTIFY_TIMESTAMP :: u32
  VPF_ADDR :: u32
  VPF_FLAGS :: u32
  m9_l1 :: u32
  m9_l2 :: u32
  m9_l3 :: u32
  m9_l4 :: u32
  m9_l5 :: u32
  m9_s1 :: u16
  m9_s2 :: u16
  m9_s4 :: u16
  m1_i1 :: int
  m1_i2 :: int
  m1_i3 :: int
  m1_p1 :: u32
  m2_i1 :: int
  m2_i2 :: int
  m2_i3 :: int
  m2_s1 :: int
  m2_l1 :: u32
  m2_l2 :: u32
  m2_p1 :: u32
  m5_i1 :: int
  m5_i2 :: int
  m5_l1 :: u32
  m5_l2 :: u32
  m5_l3 :: u32

text \<open>The fields of \<open>struct proc\<close> for scheduling, its accounting included, and for messages.\<close>

record proc_sched =
  p_priority :: int
  p_nextready :: "int option"
  p_scheduler :: "int option"
  enter_queue :: u64
  time_in_queue :: u64
  dequeues :: u32
  ipc_sync :: u32
  ipc_async :: u32
  preempted :: u32

record proc_msgs =
  p_caller_q :: "int option"
  p_q_link :: "int option"
  p_sendmsg :: message
  p_delivermsg :: message
  p_delivermsg_vir :: u32
  p_defer :: "u32 \<times> u32 \<times> u32"

text \<open>The request to VM a process is suspended on, with the kernel call to redo (\<open>p_vmrequest\<close>).\<close>

record vm_request =
  nextrequestor :: "int option"
  vmr_type :: int
  reqmsg :: message
  req_type :: int
  vmr_target :: int
  check_start :: u32
  check_length :: u32
  check_writeflag :: int
  vmresult :: int

record proc =
  p_nr :: int
  p_endpoint :: int
  p_magic :: u32
  p_getfrom_e :: int
  p_sendto_e :: int
  p_reg :: stackframe_s
  p_cr3 :: u32
  p_kern_trap_style :: int
  p_rts_flags :: u32
  p_misc_flags :: u32
  p_cpu_time_left :: u64
  p_quantum_size_ms :: u32
  p_sig_delay :: int
  p_hflags :: u32
  p_setcow :: int
  p_lus1_us2 :: "nat option"
  p_lus1_us2_size :: int
  p_workingset_size :: int
  p_remaining_ins :: u64
  p_ins_first :: u32
  p_ins_secnd :: u32
  p_ins_last :: u64
  p_start_count_ins :: int
  p_hardening_mem_events :: "nat option"
  p_nb_hardening_mem_events :: int
  p_hardening_shared_regions :: "nat option"
  p_nb_hardening_shared_regions :: int
  p_stats :: proc_stats
  p_check_vaddr_2_acc :: tsc_acc
  p_reset_pram_acc :: tsc_acc
  p_set_ro_acc :: tsc_acc
  p_cmp_acc :: tsc_acc
  p_priv :: nat
  p_pending :: u32
  p_sched :: proc_sched
  p_msgs :: proc_msgs
  p_vmrequest :: vm_request

text \<open>The privilege structure (\<open>kernel/priv.h\<close>); a bit map over privilege ids is a predicate.\<close>

record priv =
  s_proc_nr :: int
  s_id :: nat
  s_flags :: u32
  s_asyntab :: u32
  s_asynsize :: u32
  s_trap_mask :: u32
  s_ipc_to :: "nat \<Rightarrow> bool"
  s_sig_mgr :: int
  s_bak_sig_mgr :: int
  s_notify_pending :: "nat \<Rightarrow> bool"
  s_asyn_pending :: "nat \<Rightarrow> bool"
  s_int_pending :: u32
  s_sig_pending :: u32
  s_stack_guard :: u32
  s_k_call_mask :: "nat \<Rightarrow> bool"
  s_grant_table :: u32
  s_grant_entries :: int

section \<open>Kernel state\<close>

text \<open>The control variables of the hardening (\<open>kernel/glo.h\<close>).\<close>

record hglob =
  h_enable :: int
  h_step :: int
  h_proc_nr :: int
  h_step_back :: int
  h_do_sys_call :: int
  h_do_nmi :: int
  vm_should_run :: int
  pe_should_run :: int
  h_restore :: int
  h_wait_vm_reply :: int
  h_unstable_state :: int
  origin_syscall :: int
  h_normal_pf :: int
  h_pf_handle_by_k :: int
  h_rw :: int
  h_stop_pe :: int
  h_exception :: int
  h_ss_mode :: int
  h_inject_fault :: int
  could_inject :: int
  h_can_start_hardening :: int
  pagefault_addr_1 :: u32
  pagefault_addr_2 :: u32
  first_run_ins :: u32
  secnd_run_ins :: u32

text \<open>The counters and the saved contexts.\<close>

record hsave = hglob +
  hprocs_in_use :: int
  hcount :: nat
  id_current_pe :: int
  nbpe :: int
  nbpe_f :: int
  nb_injected_faults :: int
  nb_nmi :: int
  hc_proc_nr :: "nat \<Rightarrow> int"
  entry :: entry_regs
  copy_0 :: start_copy
  copy_1 :: run_copy
  copy_2 :: run_copy
  gpr_bit_id :: nat
  cr_bit_id :: nat
  all_hsr_s :: "nat option"
  all_hsp_s :: "nat option"
  n_hsrs :: int
  n_hsps :: int

text \<open>
  The machine and the tables. \<open>mem\<close> is physical memory by byte; \<open>rd_fault\<close> and
  \<open>wr_fault\<close> say at which addresses the kernel's copy routine reports a fault.
  \<open>tsc\<close> is the sequence of values successive reads of the time-stamp counter give
  and \<open>tsc_n\<close> counts the reads made. \<open>msr\<close> holds the high and low half of each
  model-specific register. \<open>run_q_head\<close> and \<open>run_q_tail\<close> are the ready lists by
  priority, \<open>ppriv_addr\<close> the privilege structures by id, \<open>uptime\<close> the clock, \<open>ptproc\<close> the process
  whose page table is loaded, \<open>freepdes\<close> the directory entries of the kernel's two windows,
  \<open>vmrequest\<close> the queue of processes suspended until VM answers.
\<close>

record kstate = hsave +
  mem :: "u32 \<Rightarrow> u8"
  rd_fault :: "u32 \<Rightarrow> bool"
  wr_fault :: "u32 \<Rightarrow> bool"
  cr0 :: u32
  cr2 :: u32
  cr3 :: u32
  cr4 :: u32
  msr :: "u32 \<Rightarrow> u32 \<times> u32"
  lapic_lvtpcr :: u32
  tsc :: "nat \<Rightarrow> u64"
  tsc_n :: nat
  tsc_per_ms :: u32
  ins_ctr_switch :: u64
  proc_ptr :: int
  procs :: "int \<Rightarrow> proc"
  working_set :: "nat \<Rightarrow> pram_mem_block"
  hardening_mem_events :: "nat \<Rightarrow> hardening_mem_event"
  hardening_shared_regions :: "nat \<Rightarrow> hardening_shared_region"
  hardening_shared_procs :: "nat \<Rightarrow> hardening_shared_proc"
  ppriv_addr :: "nat \<Rightarrow> priv"
  run_q_head :: "int \<Rightarrow> int option"
  run_q_tail :: "int \<Rightarrow> int option"
  bill_ptr :: "int option"
  uptime :: u32
  ptproc :: int
  freepdes :: "nat \<Rightarrow> u32"
  vmrequest :: "int option"
  kbill_kcall :: "int option"

section \<open>Writing through pointers\<close>

definition upd_proc :: "int \<Rightarrow> (proc \<Rightarrow> proc) \<Rightarrow> kstate \<Rightarrow> kstate" where
  "upd_proc p f s = s\<lparr>procs := (procs s)(p := f (procs s p))\<rparr>"

definition upd_pmb :: "nat \<Rightarrow> (pram_mem_block \<Rightarrow> pram_mem_block) \<Rightarrow> kstate \<Rightarrow> kstate" where
  "upd_pmb a f s = s\<lparr>working_set := (working_set s)(a := f (working_set s a))\<rparr>"

definition upd_hme :: "nat \<Rightarrow> (hardening_mem_event \<Rightarrow> hardening_mem_event) \<Rightarrow> kstate \<Rightarrow> kstate" where
  "upd_hme a f s = s\<lparr>hardening_mem_events := (hardening_mem_events s)(a := f (hardening_mem_events s a))\<rparr>"

definition upd_hsr :: "nat \<Rightarrow> (hardening_shared_region \<Rightarrow> hardening_shared_region) \<Rightarrow> kstate \<Rightarrow> kstate" where
  "upd_hsr a f s = s\<lparr>hardening_shared_regions := (hardening_shared_regions s)(a := f (hardening_shared_regions s a))\<rparr>"

definition upd_hsp :: "nat \<Rightarrow> (hardening_shared_proc \<Rightarrow> hardening_shared_proc) \<Rightarrow> kstate \<Rightarrow> kstate" where
  "upd_hsp a f s = s\<lparr>hardening_shared_procs := (hardening_shared_procs s)(a := f (hardening_shared_procs s a))\<rparr>"

lemmas upd_defs [kdefs] = upd_proc_def upd_pmb_def upd_hme_def upd_hsr_def upd_hsp_def

lemma upd_sel [simp]:
  "procs (upd_pmb a f s) = procs s" "procs (upd_hme b g s) = procs s"
  "procs (upd_hsr c h s) = procs s" "procs (upd_hsp d k s) = procs s"
  "working_set (upd_proc p F s) = working_set s"
  "working_set (upd_hme b g s) = working_set s" "working_set (upd_hsr c h s) = working_set s"
  "working_set (upd_hsp d k s) = working_set s"
  "hardening_mem_events (upd_proc p F s) = hardening_mem_events s"
  "hardening_mem_events (upd_pmb a f s) = hardening_mem_events s"
  "hardening_mem_events (upd_hsr c h s) = hardening_mem_events s"
  "hardening_mem_events (upd_hsp d k s) = hardening_mem_events s"
  "hardening_shared_regions (upd_proc p F s) = hardening_shared_regions s"
  "hardening_shared_regions (upd_pmb a f s) = hardening_shared_regions s"
  "hardening_shared_regions (upd_hme b g s) = hardening_shared_regions s"
  "hardening_shared_regions (upd_hsp d k s) = hardening_shared_regions s"
  "hardening_shared_procs (upd_proc p F s) = hardening_shared_procs s"
  "hardening_shared_procs (upd_pmb a f s) = hardening_shared_procs s"
  "hardening_shared_procs (upd_hme b g s) = hardening_shared_procs s"
  "hardening_shared_procs (upd_hsr c h s) = hardening_shared_procs s"
  by (simp_all add: upd_defs)

lemma upd_same [simp]:
  "procs (upd_proc p F s) q = (if q = p then F (procs s p) else procs s q)"
  "working_set (upd_pmb a f s) b = (if b = a then f (working_set s a) else working_set s b)"
  "hardening_mem_events (upd_hme c g s) d = (if d = c then g (hardening_mem_events s c) else hardening_mem_events s d)"
  "hardening_shared_regions (upd_hsr e h s) i = (if i = e then h (hardening_shared_regions s e) else hardening_shared_regions s i)"
  "hardening_shared_procs (upd_hsp j k s) l = (if l = j then k (hardening_shared_procs s j) else hardening_shared_procs s l)"
  by (simp_all add: upd_defs)

text \<open>Writes to the tables leave the machine and the control variables alone.\<close>

lemma upd_machine [simp]:
  "mem (upd_proc p F s) = mem s" "mem (upd_pmb a f s) = mem s" "mem (upd_hme b g s) = mem s"
  "rd_fault (upd_proc p F s) = rd_fault s" "rd_fault (upd_pmb a f s) = rd_fault s"
  "rd_fault (upd_hme b g s) = rd_fault s"
  "wr_fault (upd_proc p F s) = wr_fault s" "wr_fault (upd_pmb a f s) = wr_fault s"
  "wr_fault (upd_hme b g s) = wr_fault s"
  "h_step (upd_proc p F s) = h_step s" "h_step (upd_pmb a f s) = h_step s"
  "h_step (upd_hme b g s) = h_step s"
  by (simp_all add: upd_defs)

text \<open>The four tables of the hardening code offer the interface of a linked slot table.\<close>

interpretation pmbs: slot_table working_set upd_pmb next_pmb "\<lambda>q n. n\<lparr>next_pmb := q\<rparr>"
  by unfold_locales (simp_all add: upd_pmb_def)

interpretation hmes: slot_table hardening_mem_events upd_hme next_hme "\<lambda>q n. n\<lparr>next_hme := q\<rparr>"
  by unfold_locales (simp_all add: upd_hme_def)

interpretation hsrs: slot_table hardening_shared_regions upd_hsr next_hsr "\<lambda>q n. n\<lparr>next_hsr := q\<rparr>"
  by unfold_locales (simp_all add: upd_hsr_def)

interpretation hsps: slot_table hardening_shared_procs upd_hsp next_hsp "\<lambda>q n. n\<lparr>next_hsp := q\<rparr>"
  by unfold_locales (simp_all add: upd_hsp_def)

section \<open>The state at kernel start\<close>

text \<open>
  All variables of the kernel are in zeroed memory before the initialisation runs. The
  concrete inputs at which properties are evaluated are built from this state.
\<close>

definition zero_frame :: stackframe_s where
  "zero_frame =
    \<lparr>r_gs = 0, r_fs = 0, r_es = 0, r_ds = 0, r_di = 0, r_si = 0, r_fp = 0, r_st = 0,
     r_bx = 0, r_dx = 0, r_cx = 0, r_retreg = 0, r_retadr = 0, r_pc = 0, r_cs = 0, r_psw = 0,
     r_sp = 0, r_ss = 0\<rparr>"

definition zero_entry :: entry_regs where
  "zero_entry =
    \<lparr>eax_s = 0, ebx_s = 0, ecx_s = 0, edx_s = 0, esi_s = 0, edi_s = 0, esp_s = 0,
     ebp_s = 0\<rparr>"

definition zero_stats :: proc_stats where
  "zero_stats =
    \<lparr>p_nb_nmi = 0, p_nb_pe = 0, p_nb_abort = 0, p_nb_ss = 0, p_nb_dwc_d_f = 0,
     p_nb_inj_fault = 0, p_nb_exception_d_f = 0, p_nb_interrupt = 0, p_ticks = 0,
     p_last_inject_pe = 0\<rparr>"

definition zero_run_copy :: run_copy where
  "zero_run_copy =
    \<lparr>c_reg = zero_frame, c_kern_trap_style = 0, c_origin = 0, c_entry = zero_entry,
     c_cr0 = 0, c_cr2 = 0, c_cr3 = 0, c_cr4 = 0\<rparr>"

definition zero_start_copy :: start_copy where
  "zero_start_copy =
    \<lparr>z_reg = zero_frame, z_kern_trap_style = 0, z_rts_flags = 0, z_cpu_time_left = 0,
     z_cr0 = 0, z_cr2 = 0, z_cr3 = 0, z_cr4 = 0\<rparr>"

definition zero_pmb :: pram_mem_block where
  "zero_pmb =
    \<lparr>pmb_id = 0, pmb_flags = 0, pmb_iflags = 0, pmb_vaddr = 0, us0 = 0, us1 = 0, us2 = 0,
     next_pmb = None\<rparr>"

definition zero_hme :: hardening_mem_event where
  "zero_hme =
    \<lparr>hme_id = 0, hme_flags = 0, addr_base = 0, hme_nbytes = 0, npages = 0,
     next_hme = None\<rparr>"

definition zero_hsr :: hardening_shared_region where
  "zero_hsr =
    \<lparr>hsr_id = 0, hsr_flags = 0, r_id = 0, hsr_vaddr = 0, hsr_length = 0, next_hsr = None,
     r_hsp = None, n_hsp = 0\<rparr>"

definition zero_hsp :: hardening_shared_proc where
  "zero_hsp =
    \<lparr>hsp_endpoint = 0, hsp_flags = 0, hsp_id = 0, next_hsp = None\<rparr>"

definition zero_msg :: message where
  "zero_msg =
    \<lparr>m_source = 0, m_type = 0, m10_i1 = 0, m10_i2 = 0, m10_i3 = 0, m10_i4 = 0, m10_l1 = 0, m10_l2 = 0,
     m10_l3 = 0, NOTIFY_ARG = 0, NOTIFY_TIMESTAMP = 0, VPF_ADDR = 0, VPF_FLAGS = 0, m9_l1 = 0, m9_l2 = 0,
     m9_l3 = 0, m9_l4 = 0, m9_l5 = 0, m9_s1 = 0, m9_s2 = 0, m9_s4 = 0, m1_i1 = 0, m1_i2 = 0, m1_i3 = 0, m1_p1 = 0,
     m2_i1 = 0, m2_i2 = 0, m2_i3 = 0, m2_s1 = 0, m2_l1 = 0, m2_l2 = 0, m2_p1 = 0, m5_i1 = 0, m5_i2 = 0,
     m5_l1 = 0, m5_l2 = 0, m5_l3 = 0\<rparr>"

definition zero_sched :: proc_sched where
  "zero_sched =
    \<lparr>p_priority = 0, p_nextready = None, p_scheduler = None, enter_queue = 0, time_in_queue = 0,
     dequeues = 0, ipc_sync = 0, ipc_async = 0, preempted = 0\<rparr>"

definition zero_msgs :: proc_msgs where
  "zero_msgs =
    \<lparr>p_caller_q = None, p_q_link = None, p_sendmsg = zero_msg, p_delivermsg = zero_msg,
     p_delivermsg_vir = 0, p_defer = (0, 0, 0)\<rparr>"

definition zero_vm_request :: vm_request where
  "zero_vm_request =
    \<lparr>nextrequestor = None, vmr_type = 0, reqmsg = zero_msg, req_type = 0, vmr_target = 0, check_start = 0,
     check_length = 0, check_writeflag = 0, vmresult = 0\<rparr>"

definition zero_priv :: priv where
  "zero_priv =
    \<lparr>s_proc_nr = 0, s_id = 0, s_flags = 0, s_asyntab = 0, s_asynsize = 0, s_trap_mask = 0,
     s_ipc_to = (\<lambda>_. False), s_sig_mgr = 0, s_bak_sig_mgr = 0, s_notify_pending = (\<lambda>_. False),
     s_asyn_pending = (\<lambda>_. False), s_int_pending = 0, s_sig_pending = 0, s_stack_guard = 0,
     s_k_call_mask = (\<lambda>_. False), s_grant_table = 0, s_grant_entries = 0\<rparr>"

definition zero_proc :: proc where
  "zero_proc =
    \<lparr>p_nr = 0, p_endpoint = 0, p_magic = 0, p_getfrom_e = 0, p_sendto_e = 0,
     p_reg = zero_frame, p_cr3 = 0, p_kern_trap_style = 0, p_rts_flags = 0, p_misc_flags = 0,
     p_cpu_time_left = 0, p_quantum_size_ms = 0, p_sig_delay = 0, p_hflags = 0, p_setcow = 0,
     p_lus1_us2 = None, p_lus1_us2_size = 0, p_workingset_size = 0, p_remaining_ins = 0,
     p_ins_first = 0, p_ins_secnd = 0, p_ins_last = 0, p_start_count_ins = 0,
     p_hardening_mem_events = None, p_nb_hardening_mem_events = 0,
     p_hardening_shared_regions = None, p_nb_hardening_shared_regions = 0, p_stats = zero_stats,
     p_check_vaddr_2_acc = \<lparr>acc_tsc = 0, acc_t = 0\<rparr>,
     p_reset_pram_acc = \<lparr>acc_tsc = 0, acc_t = 0\<rparr>,
     p_set_ro_acc = \<lparr>acc_tsc = 0, acc_t = 0\<rparr>,
     p_cmp_acc = \<lparr>acc_tsc = 0, acc_t = 0\<rparr>,
     p_priv = 0, p_pending = 0, p_sched = zero_sched, p_msgs = zero_msgs,
     p_vmrequest = zero_vm_request\<rparr>"

definition bss_state :: kstate where
  "bss_state =
    \<lparr>h_enable = 0, h_step = 0, h_proc_nr = 0, h_step_back = 0, h_do_sys_call = 0,
     h_do_nmi = 0, vm_should_run = 0, pe_should_run = 0, h_restore = 0, h_wait_vm_reply = 0,
     h_unstable_state = 0, origin_syscall = 0, h_normal_pf = 0, h_pf_handle_by_k = 0, h_rw = 0,
     h_stop_pe = 0, h_exception = 0, h_ss_mode = 0, h_inject_fault = 0, could_inject = 0,
     h_can_start_hardening = 0, pagefault_addr_1 = 0, pagefault_addr_2 = 0, first_run_ins = 0,
     secnd_run_ins = 0, hprocs_in_use = 0, hcount = 0, id_current_pe = 0, nbpe = 0, nbpe_f = 0,
     nb_injected_faults = 0, nb_nmi = 0, hc_proc_nr = (\<lambda>_. 0), entry = zero_entry,
     copy_0 = zero_start_copy, copy_1 = zero_run_copy, copy_2 = zero_run_copy, gpr_bit_id = 0,
     cr_bit_id = 0, all_hsr_s = None, all_hsp_s = None, n_hsrs = 0, n_hsps = 0,
     mem = (\<lambda>_. 0), rd_fault = (\<lambda>_. False), wr_fault = (\<lambda>_. False),
     cr0 = 0, cr2 = 0, cr3 = 0, cr4 = 0, msr = (\<lambda>_. (0, 0)), lapic_lvtpcr = 0,
     tsc = (\<lambda>_. 0), tsc_n = 0, tsc_per_ms = 0, ins_ctr_switch = 0, proc_ptr = 0,
     procs = (\<lambda>n. zero_proc\<lparr>p_nr := n\<rparr>),
     working_set = (\<lambda>_. zero_pmb), hardening_mem_events = (\<lambda>_. zero_hme),
     hardening_shared_regions = (\<lambda>_. zero_hsr),
     hardening_shared_procs = (\<lambda>_. zero_hsp),
     ppriv_addr = (\<lambda>_. zero_priv), run_q_head = (\<lambda>_. None), run_q_tail = (\<lambda>_. None),
     bill_ptr = None, uptime = 0, ptproc = 0, freepdes = (\<lambda>_. 0), vmrequest = None, kbill_kcall = None\<rparr>"

lemmas bss_defs = zero_frame_def zero_entry_def zero_stats_def zero_msg_def zero_sched_def zero_msgs_def zero_vm_request_def zero_priv_def zero_run_copy_def zero_start_copy_def
  zero_pmb_def zero_hme_def zero_hsr_def zero_hsp_def zero_proc_def bss_state_def

end
