(* ===== verification/Machine.thy ===== *)
theory Machine
  imports HTypes
begin

text \<open>
  The machine layer: the paging macros of \<open>machine/vm.h\<close>, the physical memory
  routines at the end of \<open>kernel/arch/i386/memory.c\<close>
  (\<open>phys_get32\<close>, \<open>phys_set32\<close>, \<open>cpy_frames\<close>, \<open>cmp_frames\<close>), and the
  cycle accounting that brackets the expensive hardening routines. The lemmas give the
  read-over-write laws every later proof about page tables and frames uses.
\<close>

section \<open>Paging macros\<close>

abbreviation I386_PAGE_SIZE :: u32 where "I386_PAGE_SIZE \<equiv> 4096"
abbreviation I386_VM_PRESENT :: u32 where "I386_VM_PRESENT \<equiv> 0x001"
abbreviation I386_VM_WRITE :: u32 where "I386_VM_WRITE \<equiv> 0x002"
abbreviation I386_VM_USER :: u32 where "I386_VM_USER \<equiv> 0x004"
abbreviation I386_VM_DIRTY :: u32 where "I386_VM_DIRTY \<equiv> 0x040"
abbreviation I386_VM_BIGPAGE :: u32 where "I386_VM_BIGPAGE \<equiv> 0x080"
abbreviation I386_VM_GLOBAL :: u32 where "I386_VM_GLOBAL \<equiv> 0x100"
abbreviation I386_VM_ADDR_MASK :: u32 where "I386_VM_ADDR_MASK \<equiv> 0xFFFFF000"
abbreviation I386_VM_ADDR_MASK_INV :: u32 where "I386_VM_ADDR_MASK_INV \<equiv> 0x00000FFF"

definition I386_VM_PDE :: "u32 \<Rightarrow> u32" where
  "I386_VM_PDE v = drop_bit 22 v"

definition I386_VM_PTE :: "u32 \<Rightarrow> u32" where
  "I386_VM_PTE v = drop_bit 12 v AND 0x3FF"

definition I386_VM_PFA :: "u32 \<Rightarrow> u32" where
  "I386_VM_PFA e = e AND I386_VM_ADDR_MASK"

text \<open>\<open>(u32_t) (table + i)\<close> for a \<open>u32_t *table\<close>.\<close>

definition entry_addr :: "u32 \<Rightarrow> u32 \<Rightarrow> u32" where
  "entry_addr table i = table + 4 * i"

text \<open>
  \<open>pde * I386_VM_PT_ENTRIES * I386_PAGE_SIZE + pte * I386_PAGE_SIZE\<close>: the base of the
  page that contains an address.
\<close>

definition page_base_of :: "u32 \<Rightarrow> u32" where
  "page_base_of v = I386_VM_PDE v * 1024 * 4096 + I386_VM_PTE v * 4096"

text \<open>\<open>(size + (offset - page_base) - 1)/(4*1024) + 1\<close>, an unsigned computation stored in an int.\<close>

definition n_pages_covered :: "u32 \<Rightarrow> u32 \<Rightarrow> int" where
  "n_pages_covered offset sz = sint ((sz + (offset - page_base_of offset) - 1) div 4096 + 1)"

definition page_aligned :: "u32 \<Rightarrow> bool" where
  "page_aligned f \<longleftrightarrow> f AND I386_VM_ADDR_MASK_INV = 0"

section \<open>Physical memory\<close>

definition mem_get32 :: "(u32 \<Rightarrow> u8) \<Rightarrow> u32 \<Rightarrow> u32" where
  "mem_get32 m a = ucast (m a) OR push_bit 8 (ucast (m (a + 1)))
     OR push_bit 16 (ucast (m (a + 2))) OR push_bit 24 (ucast (m (a + 3)))"

definition mem_set32 :: "(u32 \<Rightarrow> u8) \<Rightarrow> u32 \<Rightarrow> u32 \<Rightarrow> (u32 \<Rightarrow> u8)" where
  "mem_set32 m a v = m(a := ucast v, a + 1 := ucast (drop_bit 8 v),
     a + 2 := ucast (drop_bit 16 v), a + 3 := ucast (drop_bit 24 v))"

text \<open>
  \<open>lin_lin_copy\<close> between physical addresses, \<open>n\<close> bytes; a caught fault leaves
  memory as it was and is reported as a negative result.
\<close>

definition mem_copy :: "(u32 \<Rightarrow> u8) \<Rightarrow> u32 \<Rightarrow> u32 \<Rightarrow> u32 \<Rightarrow> (u32 \<Rightarrow> u8)" where
  "mem_copy m src dst n = (\<lambda>a. if a - dst < n then m (src + (a - dst)) else m a)"

definition lin_lin_copy :: "u32 \<Rightarrow> u32 \<Rightarrow> u32 \<Rightarrow> kstate \<Rightarrow> int \<times> kstate" where
  "lin_lin_copy src dst n s =
     (if rd_fault s src then (EFAULT_SRC, s)
      else if wr_fault s dst then (EFAULT_DST, s)
      else (OK, s\<lparr>mem := mem_copy (mem s) src dst n\<rparr>))"

definition lin_lin_cmp :: "u32 \<Rightarrow> u32 \<Rightarrow> nat \<Rightarrow> kstate \<Rightarrow> int" where
  "lin_lin_cmp f1 f2 n s =
     (if \<forall>i<n. mem s (f1 + of_nat i) = mem s (f2 + of_nat i) then OK else EFAULT)"

definition phys_get32 :: "u32 \<Rightarrow> kstate \<Rightarrow> stop + u32" where
  "phys_get32 addr s =
     (if rd_fault s addr then Inl (Panic ''lin_lin_copy for phys_get32 failed'')
      else Inr (mem_get32 (mem s) addr))"

definition phys_set32 :: "u32 \<Rightarrow> u32 \<Rightarrow> kstate \<Rightarrow> int \<times> kstate" where
  "phys_set32 addr v s =
     (if wr_fault s addr then (EFAULT_DST, s)
      else (OK, s\<lparr>mem := mem_set32 (mem s) addr v\<rparr>))"

definition cmp_frames :: "u32 \<Rightarrow> u32 \<Rightarrow> kstate \<Rightarrow> int" where
  "cmp_frames frame1 frame2 s = (if lin_lin_cmp frame1 frame2 4096 s \<noteq> OK then EFAULT else OK)"

definition cpy_frames :: "u32 \<Rightarrow> u32 \<Rightarrow> kstate \<Rightarrow> int \<times> kstate" where
  "cpy_frames src dst s =
     (case lin_lin_copy src dst I386_PAGE_SIZE s of
        (r, s') \<Rightarrow> if r \<noteq> OK then (EFAULT, s') else (OK, s'))"

text \<open>\<open>if(cpy_frames(src, dst) != OK) panic(msg);\<close>\<close>

definition cpy_or_panic :: "u32 \<Rightarrow> u32 \<Rightarrow> string \<Rightarrow> kstate \<Rightarrow> stop + kstate" where
  "cpy_or_panic src dst msg s =
     (case cpy_frames src dst s of (r, s') \<Rightarrow> if r \<noteq> OK then Inl (Panic msg) else Inr s')"

text \<open>\<open>if(phys_set32(addr, &v) != OK) panic(msg);\<close>\<close>

definition set32_or_panic :: "u32 \<Rightarrow> u32 \<Rightarrow> string \<Rightarrow> kstate \<Rightarrow> stop + kstate" where
  "set32_or_panic addr v msg s =
     (case phys_set32 addr v s of (r, s') \<Rightarrow> if r \<noteq> OK then Inl (Panic msg) else Inr s')"

section \<open>Cycle accounting\<close>

text \<open>\<open>cmp_64\<close> compares by halves, high word first.\<close>

definition ex64hi :: "u64 \<Rightarrow> u32" where
  "ex64hi x = ucast (drop_bit 32 x)"

definition ex64lo :: "u64 \<Rightarrow> u32" where
  "ex64lo x = ucast x"

definition make64 :: "u32 \<Rightarrow> u32 \<Rightarrow> u64" where
  "make64 lo hi = ucast lo OR push_bit 32 (ucast hi)"

definition cmp_64 :: "u64 \<Rightarrow> u64 \<Rightarrow> bool" where
  "cmp_64 a b \<longleftrightarrow> ex64hi a > ex64hi b \<or> (ex64hi a = ex64hi b \<and> ex64lo a > ex64lo b)"

definition ms_2_cpu_time :: "u32 \<Rightarrow> kstate \<Rightarrow> u64" where
  "ms_2_cpu_time ms s = ucast (tsc_per_ms s) * ucast ms"

definition cpu_time_2_ms :: "u64 \<Rightarrow> kstate \<Rightarrow> u32" where
  "cpu_time_2_ms t s = ucast (t div ucast (tsc_per_ms s))"

definition read_tsc_64 :: "kstate \<Rightarrow> u64 \<times> kstate" where
  "read_tsc_64 s = (tsc s (tsc_n s), s\<lparr>tsc_n := Suc (tsc_n s)\<rparr>)"

text \<open>
  The block that ends every timed routine: fold the accumulator into milliseconds once it
  passed two of them, then add the cycles of this call.
\<close>

definition acc_add :: "u64 \<Rightarrow> u64 \<Rightarrow> kstate \<Rightarrow> tsc_acc \<Rightarrow> tsc_acc" where
  "acc_add start end_tsc s acc =
     (let acc1 = (if cmp_64 (acc_tsc acc) (ms_2_cpu_time 2 s)
                  then \<lparr>acc_tsc = 0, acc_t = acc_t acc + cpu_time_2_ms (acc_tsc acc) s\<rparr>
                  else acc)
      in acc1\<lparr>acc_tsc := acc_tsc acc1 + (end_tsc - start)\<rparr>)"

section \<open>Laws of the paging macros\<close>

lemma take12: "(f::u32) AND 0xFFF = take_bit 12 f"
  by (simp add: take_bit_eq_mask mask_eq_exp_minus_1)

lemma aligned_iff: "page_aligned f \<longleftrightarrow> unat f mod 4096 = 0"
proof -
  have "unat (take_bit 12 f) = take_bit 12 (unat f)"
    by (rule unsigned_take_bit_eq)
  also have "\<dots> = unat f mod 4096" by (simp add: take_bit_eq_mod)
  finally show ?thesis
    unfolding page_aligned_def take12 by (metis unat_eq_zero)
qed

lemma pfa_aligned [simp]: "page_aligned (I386_VM_PFA e)"
  by (simp add: page_aligned_def I386_VM_PFA_def and.assoc)

lemma pte_frame:
  assumes "page_aligned f"
  shows "I386_VM_PFA ((e AND 0xFFF) OR f) = f" 
proof -
  have m: "(0xFFFFF000::u32) = NOT 0xFFF" by simp
  have "f AND NOT 0xFFF = f" using assms unfolding page_aligned_def
    by (rule and_not_disjoint)
  then show ?thesis unfolding I386_VM_PFA_def m
    by (simp only: bit.conj_disj_distrib2 and.assoc bit.conj_cancel_right) simp
qed

lemma addr_mask: "(0xFFFFF000::u32) = push_bit 12 (mask 20)" by (simp add: mask_eq_exp_minus_1)

lemma PFA_bit: "bit (I386_VM_PFA e) n \<longleftrightarrow> 12 \<le> n \<and> bit e n"
  unfolding I386_VM_PFA_def addr_mask by (auto simp: bit_simps dest: bit_imp_le_length)

lemma mask10: "(0x3FF::u32) = mask 10" by (simp add: mask_eq_exp_minus_1)

lemma PDE_bit: "bit (I386_VM_PDE v) n \<longleftrightarrow> bit v (22 + n)"
  by (simp add: I386_VM_PDE_def bit_drop_bit_eq)

lemma PTE_bit: "bit (I386_VM_PTE v) n \<longleftrightarrow> n < 10 \<and> bit v (12 + n)"
  unfolding I386_VM_PTE_def mask10 by (auto simp: bit_simps)

lemma page_base_pfa: "page_base_of v = I386_VM_PFA v"
proof -
  have a: "I386_VM_PDE v * 1024 * 4096 = push_bit 22 (I386_VM_PDE v)" 
    by (simp add: push_bit_eq_mult)
  have b: "I386_VM_PTE v * 4096 = push_bit 12 (I386_VM_PTE v)"
    by (simp add: push_bit_eq_mult)
  have "push_bit 22 (I386_VM_PDE v) AND push_bit 12 (I386_VM_PTE v) = 0"
    by (rule bit_word_eqI) (auto simp: bit_simps PDE_bit PTE_bit)
  then have "page_base_of v = push_bit 22 (I386_VM_PDE v) OR push_bit 12 (I386_VM_PTE v)"
    unfolding page_base_of_def a b by (rule disjunctive_add_eq_or)
  also have "\<dots> = I386_VM_PFA v"
  proof (rule bit_word_eqI)
    fix n assume "n < LENGTH(32)"
    consider "n < 12" | "12 \<le> n" "n < 22" | "22 \<le> n" by linarith
    then show "bit (push_bit 22 (I386_VM_PDE v) OR push_bit 12 (I386_VM_PTE v)) n = bit (I386_VM_PFA v) n"
      by cases (use \<open>n < LENGTH(32)\<close> in \<open>auto simp: bit_simps PDE_bit PTE_bit PFA_bit\<close>)
  qed
  finally show ?thesis .
qed

lemma PDE_base: "I386_VM_PDE (page_base_of v) = I386_VM_PDE v"
  unfolding page_base_pfa by (rule bit_word_eqI) (auto simp: PDE_bit bit_simps PFA_bit dest: bit_imp_le_length)

lemma PTE_base: "I386_VM_PTE (page_base_of v) = I386_VM_PTE v"
  unfolding page_base_pfa by (rule bit_word_eqI) (auto simp: PTE_bit bit_simps PFA_bit)

lemma page_eq_iff: "I386_VM_PDE v = I386_VM_PDE w \<and> I386_VM_PTE v = I386_VM_PTE w \<longleftrightarrow> page_base_of v = page_base_of w"
  by (metis PDE_base PTE_base page_base_of_def)

lemma PTE_less: "I386_VM_PTE v < 1024"
proof -
  have "I386_VM_PTE v = take_bit 10 (drop_bit 12 v)"
    unfolding I386_VM_PTE_def mask10 by (simp add: take_bit_eq_mask)
  then have "unat (I386_VM_PTE v) = take_bit 10 (unat (drop_bit 12 v))"
    by (simp only: unsigned_take_bit_eq)
  also have "\<dots> < 1024" by (simp add: take_bit_eq_mod)
  finally show ?thesis by (simp add: word_less_nat_alt)
qed

lemma PDE_less: "I386_VM_PDE v < 1024"
proof -
  have "unat (I386_VM_PDE v) = unat v div 2 ^ 22"
    by (simp add: I386_VM_PDE_def drop_bit_eq_div unat_div)
  moreover have "unat v < 2 ^ 32" using unsigned_less [of v, where ?'a = nat] by simp
  ultimately show ?thesis by (simp add: word_less_nat_alt)
qed

lemma aligned_no_carry:
  assumes "page_aligned f" "i < 4096"
  shows "unat (f + i) = unat f + unat i"
proof -
  obtain k where k: "unat f = 4096 * k" using assms(1) unfolding aligned_iff by auto
  have "unat f < 2 ^ 32" using unsigned_less [of f, where ?'a = nat] by simp
  moreover have "unat i < 4096" using assms(2) by (simp add: word_less_nat_alt)
  ultimately have "unat f + unat i < 2 ^ 32" using k by simp
  then show ?thesis by (simp add: unat_word_ariths)
qed

lemma page_index_unique:
  fixes a b i j :: nat
  assumes "a mod 4096 = 0" "b mod 4096 = 0" "i < 4096" "j < 4096" "a + i = b + j"
  shows "a = b"
proof -
  have "a = (a + i) div 4096 * 4096" "b = (b + j) div 4096 * 4096"
    using assms(1-4) by auto
  with assms(5) show ?thesis by metis
qed

lemma other_page:
  assumes "page_aligned f" "page_aligned d" "f \<noteq> d" "i < 4096"
  shows "\<not> (f + i - d < 4096)"
proof
  assume lt: "f + i - d < 4096"
  have "f + i = d + (f + i - d)" by simp
  then have eq: "unat f + unat i = unat d + unat (f + i - d)"
    using aligned_no_carry [OF assms(1,4)] aligned_no_carry [OF assms(2) lt] by simp
  have lts: "unat i < 4096" "unat (f + i - d) < 4096"
    using assms(4) lt by (simp_all add: word_less_nat_alt)
  have "unat f = unat d"
    using page_index_unique [OF _ _ lts eq] assms(1,2) unfolding aligned_iff by blast
  with assms(3) show False by (metis unsigned_word_eqI)
qed

section \<open>Read over write\<close>

lemma get32_set32_same [simp]: "mem_get32 (mem_set32 m a v) a = v"
proof (rule bit_word_eqI)
  fix n :: nat
  assume n: "n < LENGTH(32)"
  consider "n < 8" | "8 \<le> n" "n < 16" | "16 \<le> n" "n < 24" | "24 \<le> n" "n < 32"
    using n by fastforce
  then show "bit (mem_get32 (mem_set32 m a v) a) n = bit v n"
    by cases (auto simp: mem_get32_def mem_set32_def bit_simps)
qed

lemma slot_in_page:
  assumes "j < (1024 :: u32)" "c < 4"
  shows "4 * j + c < 4096" "unat (4 * j + c) = 4 * unat j + unat c"
  using assms by (auto simp: word_less_nat_alt unat_word_ariths)

lemma slot_inj:
  assumes "j < (1024 :: u32)" "k < 1024" "c < 4" "d < 4" "4 * j + c = 4 * k + d"
  shows "j = k \<and> c = d"
proof -
  have "4 * unat j + unat c = 4 * unat k + unat d"
    using slot_in_page(2) [OF assms(1,3)] slot_in_page(2) [OF assms(2,4)] assms(5) by simp
  moreover have "unat c < 4" "unat d < 4" using assms by (simp_all add: word_less_nat_alt)
  ultimately have "unat j = unat k \<and> unat c = unat d" by presburger
  then show ?thesis by (metis unsigned_word_eqI)
qed

lemma mem_copy_same: "i < n \<Longrightarrow> mem_copy m src dst n (dst + i) = m (src + i)"
  by (simp add: mem_copy_def)

lemma mem_copy_other:
  "page_aligned f \<Longrightarrow> page_aligned d \<Longrightarrow> f \<noteq> d \<Longrightarrow> i < 4096 \<Longrightarrow> mem_copy m src d 4096 (f + i) = m (f + i)"
  by (simp add: mem_copy_def other_page)

lemma set32_slots: "mem_set32 m (g + 4 * j) v = m(g + 4 * j := ucast v, g + (4 * j + 1) := ucast (drop_bit 8 v),
     g + (4 * j + 2) := ucast (drop_bit 16 v), g + (4 * j + 3) := ucast (drop_bit 24 v))"
  by (simp add: mem_set32_def add.assoc)

lemma get32_slots: "mem_get32 m (g + 4 * j) = ucast (m (g + 4 * j)) OR push_bit 8 (ucast (m (g + (4 * j + 1))))
     OR push_bit 16 (ucast (m (g + (4 * j + 2)))) OR push_bit 24 (ucast (m (g + (4 * j + 3))))"
  by (simp add: mem_get32_def add.assoc)

lemma set32_other_page:
  assumes "page_aligned f" "page_aligned g" "f \<noteq> g" "i < 4096" "j < 1024"
  shows "mem_set32 m (g + 4 * j) v (f + i) = m (f + i)"
proof -
  have "f + i \<noteq> g + (4 * j + c)" if "c < 4" for c
    using other_page [OF assms(1-4)] slot_in_page(1) [OF assms(5) that] by (metis add_diff_cancel_left')
  from this [of 0] this [of 1] this [of 2] this [of 3] show ?thesis
    unfolding set32_slots by simp
qed

lemma get32_page_cong:
  assumes "\<And>i. i < 4096 \<Longrightarrow> m (g + i) = m' (g + i)" "j < 1024"
  shows "mem_get32 m (g + 4 * j) = mem_get32 m' (g + 4 * j)"
proof -
  have "m (g + (4 * j + c)) = m' (g + (4 * j + c))" if "c < 4" for c
    using assms(1) slot_in_page(1) [OF assms(2) that] by blast
  from this [of 0] this [of 1] this [of 2] this [of 3] show ?thesis
    unfolding get32_slots by simp
qed

lemma get32_set32_other_slot:
  assumes "j < 1024" "k < 1024" "j \<noteq> k"
  shows "mem_get32 (mem_set32 m (g + 4 * j) v) (g + 4 * k) = mem_get32 m (g + 4 * k)"
proof -
  have ne: "g + (4 * k + c) \<noteq> g + (4 * j + d)" if "c < 4" "d < 4" for c d
    using slot_inj [OF assms(2,1) that] assms(3) by auto
  have "mem_set32 m (g + 4 * j) v (g + (4 * k + c)) = m (g + (4 * k + c))" if "c < 4" for c
    using ne [OF that, of 0] ne [OF that, of 1] ne [OF that, of 2] ne [OF that, of 3]
    unfolding set32_slots by simp
  from this [of 0] this [of 1] this [of 2] this [of 3] show ?thesis
    unfolding get32_slots by simp
qed

lemma get32_set32_other_page:
  assumes "page_aligned f" "page_aligned g" "f \<noteq> g" "j < 1024" "k < 1024"
  shows "mem_get32 (mem_set32 m (g + 4 * j) v) (f + 4 * k) = mem_get32 m (f + 4 * k)"
  by (rule get32_page_cong) (use assms set32_other_page in auto)

section \<open>Time comparison\<close>

lemma cmp_64_iff: "cmp_64 a b \<longleftrightarrow> b < a"
proof -
  have hi: "unat (ex64hi x) = unat x div 2 ^ 32" for x
  proof -
    have "unat x < 2 ^ 32 * 2 ^ 32" using unsigned_less [of x, where ?'a = nat] by simp
    then have "unat x div 2 ^ 32 < 2 ^ 32" by (simp add: less_mult_imp_div_less)
    then show ?thesis by (simp add: ex64hi_def unsigned_ucast_eq unat_div drop_bit_eq_div take_bit_eq_mod)
  qed
  have lo: "unat (ex64lo x) = unat x mod 2 ^ 32" for x
    by (simp add: ex64lo_def unsigned_ucast_eq take_bit_eq_mod)
  have eq: "ex64hi a = ex64hi b \<longleftrightarrow> unat a div 2 ^ 32 = unat b div 2 ^ 32"
    by (metis hi unsigned_word_eqI)
  show ?thesis
    unfolding cmp_64_def word_less_nat_alt eq hi lo by (rule divmod_less)
qed

section \<open>Frames\<close>

text \<open>Two frames hold the same bytes, possibly in different memories.\<close>

definition same_frame :: "(u32 \<Rightarrow> u8) \<Rightarrow> u32 \<Rightarrow> (u32 \<Rightarrow> u8) \<Rightarrow> u32 \<Rightarrow> bool" where
  "same_frame m f m' g \<longleftrightarrow> (\<forall>i < 4096. m (f + i) = m' (g + i))"

lemma same_frame_refl [simp]: "same_frame m f m f"
  by (simp add: same_frame_def)

lemma same_frame_sym: "same_frame m f m' g \<Longrightarrow> same_frame m' g m f"
  by (simp add: same_frame_def)

lemma same_frame_trans: "same_frame m f m' g \<Longrightarrow> same_frame m' g m'' h \<Longrightarrow> same_frame m f m'' h"
  by (simp add: same_frame_def)

lemma all_offsets: "(\<forall>i < (4096::nat). P (of_nat i :: u32)) \<longleftrightarrow> (\<forall>i < (4096::u32). P i)"
proof
  assume l: "\<forall>i < (4096::nat). P (of_nat i :: u32)"
  show "\<forall>i < (4096::u32). P i"
  proof (intro allI impI)
    fix i :: u32 assume "i < 4096"
    then have "unat i < 4096" by (simp add: word_less_nat_alt)
    with l have "P (of_nat (unat i))" by blast
    then show "P i" by simp
  qed
next
  assume r: "\<forall>i < (4096::u32). P i"
  show "\<forall>i < (4096::nat). P (of_nat i :: u32)"
  proof (intro allI impI)
    fix i :: nat assume i: "i < 4096"
    then have "unat (of_nat i :: u32) = i" by (simp add: unsigned_of_nat take_bit_nat_eq_self)
    with i have "(of_nat i :: u32) < 4096" by (simp add: word_less_nat_alt)
    with r show "P (of_nat i)" by blast
  qed
qed

lemma cmp_frames_iff: "cmp_frames f g s = OK \<longleftrightarrow> same_frame (mem s) f (mem s) g"
  using all_offsets [of "\<lambda>i. mem s (f + i) = mem s (g + i)"]
  by (simp add: cmp_frames_def lin_lin_cmp_def same_frame_def)

text \<open>What a write of one frame, or of one page table entry, does to the frames.\<close>

lemma copy_same:
  assumes "page_aligned src" "page_aligned dst"
  shows "same_frame (mem_copy m src dst 4096) dst m src"
  using assms by (simp add: same_frame_def mem_copy_same)

lemma copy_other:
  assumes "page_aligned f" "page_aligned dst" "f \<noteq> dst"
  shows "same_frame (mem_copy m src dst 4096) f m f"
  using assms by (simp add: same_frame_def mem_copy_other)

lemma set32_frame:
  assumes "page_aligned f" "page_aligned g" "f \<noteq> g" "j < 1024"
  shows "same_frame (mem_set32 m (entry_addr g j) v) f m f"
  using assms set32_other_page by (simp add: same_frame_def entry_addr_def)

lemma get32_frame_cong:
  assumes "same_frame m g m' g" "j < 1024"
  shows "mem_get32 m (entry_addr g j) = mem_get32 m' (entry_addr g j)"
  unfolding entry_addr_def using assms by (intro get32_page_cong) (auto simp: same_frame_def)

lemma get32_set32_entry:
  assumes "page_aligned f" "page_aligned g" "j < 1024" "k < 1024"
  shows "mem_get32 (mem_set32 m (entry_addr g j) v) (entry_addr f k) =
    (if f = g \<and> j = k then v else mem_get32 m (entry_addr f k))"
proof (cases "f = g")
  case True
  then show ?thesis using assms get32_set32_other_slot [of j k] by (auto simp: entry_addr_def)
next
  case False
  then show ?thesis using assms get32_set32_other_page [of f g j k] by (auto simp: entry_addr_def)
qed

lemma cpy_or_panic_ok:
  "cpy_or_panic src dst msg s = (if rd_fault s src \<or> wr_fault s dst then Inl (Panic msg)
     else Inr (s\<lparr>mem := mem_copy (mem s) src dst 4096\<rparr>))"
  by (simp add: cpy_or_panic_def cpy_frames_def lin_lin_copy_def)

lemma set32_or_panic_ok:
  "set32_or_panic a v msg s = (if wr_fault s a then Inl (Panic msg) else Inr (s\<lparr>mem := mem_set32 (mem s) a v\<rparr>))"
  by (simp add: set32_or_panic_def phys_set32_def)

section \<open>Properties\<close>

text \<open>A 32-bit word written to physical memory is read back, and writing it changes
  nothing but memory.\<close>

theorem phys_set32_get32:
  assumes "phys_set32 a v s = (OK, t)" "\<not> rd_fault s a"
  shows "phys_get32 a t = Inr v \<and> t\<lparr>mem := mem s\<rparr> = s"
  using assms by (auto simp: phys_set32_def phys_get32_def split: if_splits)

theorem phys_set32_get32_witness:
  "phys_get32 0x3000 (snd (phys_set32 0x3000 7 bss_state)) = Inr 7"
  using phys_set32_get32 [of "0x3000" 7 bss_state "snd (phys_set32 0x3000 7 bss_state)"]
  by (simp add: phys_set32_def bss_state_def)

text \<open>After a successful frame copy the two frames compare equal and every other page
  aligned frame is unchanged.\<close>

theorem cpy_frames_cmp:
  assumes "cpy_frames src dst s = (OK, t)" "page_aligned src" "page_aligned dst"
  shows "cmp_frames src dst t = OK \<and> (\<forall>f. page_aligned f \<longrightarrow> f \<noteq> dst \<longrightarrow> same_frame (mem t) f (mem s) f)"
proof -
  have t: "t = s\<lparr>mem := mem_copy (mem s) src dst 4096\<rparr>"
    using assms(1) by (auto simp: cpy_frames_def lin_lin_copy_def split: if_splits)
  have "same_frame (mem t) src (mem t) dst"
  proof (cases "src = dst")
    case False
    have "same_frame (mem t) src (mem s) src" using copy_other [OF assms(2,3) False] by (simp add: t)
    moreover have "same_frame (mem t) dst (mem s) src" using copy_same [OF assms(2,3)] by (simp add: t)
    ultimately show ?thesis by (meson same_frame_sym same_frame_trans)
  qed simp
  moreover have "same_frame (mem t) f (mem s) f" if "page_aligned f" "f \<noteq> dst" for f
    using copy_other [OF that(1) assms(3) that(2)] by (simp add: t)
  ultimately show ?thesis by (simp add: cmp_frames_iff)
qed

theorem cpy_frames_cmp_witness:
  "cmp_frames 0x5000 0x6000 (snd (cpy_frames 0x5000 0x6000 bss_state)) = OK"
  using cpy_frames_cmp [of "0x5000" "0x6000" bss_state "snd (cpy_frames 0x5000 0x6000 bss_state)"]
  by (simp add: cpy_frames_def lin_lin_copy_def bss_state_def page_aligned_def)

text \<open>The comparison of 64-bit values by halves is the comparison of the values.\<close>

theorem cmp_64_less: "cmp_64 a b = (b < a)"
  by (simp add: cmp_64_iff)

end
