(* ===== verification/Ws_List.thy ===== *)
theory Ws_List
  imports Machine
begin

text \<open>
  The working-set list of a hardened process (\<open>kernel/arch/i386/pram.c\<close>): the static
  table \<open>working_set\<close> of \<open>struct pram_mem_block\<close>, the allocation of a block
  (\<open>get_pmb\<close>), the list operations on \<open>p_lus1_us2\<close> and the fork/exec labels. The
  lemmas show that the operations keep the list well formed and implement insertion,
  lookup and removal by page, and that lists of different processes do not interfere.
\<close>

section \<open>Definitions\<close>

definition pmb_nx :: "kstate \<Rightarrow> nat \<Rightarrow> nat option" where
  "pmb_nx s a = next_pmb (working_set s a)"

definition pmb_free :: "kstate \<Rightarrow> nat \<Rightarrow> bool" where
  "pmb_free s a \<longleftrightarrow> has (pmb_flags (working_set s a)) PRAM_SLOT_FREE"

text \<open>\<open>pmb\<close> describes the page with directory index \<open>pde\<close> and table index \<open>pte\<close>.\<close>

definition pmb_at :: "u32 \<Rightarrow> u32 \<Rightarrow> kstate \<Rightarrow> nat \<Rightarrow> bool" where
  "pmb_at pde pte s a \<longleftrightarrow>
     I386_VM_PTE (pmb_vaddr (working_set s a)) = pte \<and>
     I386_VM_PDE (pmb_vaddr (working_set s a)) = pde"

definition look_up_pte :: "int \<Rightarrow> u32 \<Rightarrow> u32 \<Rightarrow> kstate \<Rightarrow> stop + nat option" where
  "look_up_pte p pde pte s =
     (if p_lus1_us2_size (procs s p) > 0
      then find_chain pmb_nx (pmb_at pde pte) (p_lus1_us2 (procs s p)) s
      else Inr None)"

text \<open>
  \<open>look_up_unique_pte\<close> counts the blocks of a page. On an empty list its counter is
  never initialised: that result is \<open>None\<close>.
\<close>

definition look_up_unique_pte :: "int \<Rightarrow> u32 \<Rightarrow> u32 \<Rightarrow> kstate \<Rightarrow> stop + int option" where
  "look_up_unique_pte p pde pte s =
     (if p_lus1_us2_size (procs s p) > 0
      then bnd (for_chain (\<lambda>_. pmb_nx s)
                  (\<lambda>a n. Inr (None :: unit option, if pmb_at pde pte s a then n + 1 else n))
                  (p_lus1_us2 (procs s p)) 0)
             (\<lambda>(_, n). Inr (Some n))
      else Inr None)"

definition look_up_lastpf_pte :: "int \<Rightarrow> kstate \<Rightarrow> stop + (nat option \<times> kstate)" where
  "look_up_lastpf_pte p s =
     (if p_lus1_us2_size (procs s p) > 0
      then for_chain pmb_nx
             (\<lambda>a s. if has (pmb_flags (working_set s a)) PRAM_LAST_PF
                    then Inr (Some a, upd_pmb a (\<lambda>b. b\<lparr>pmb_flags := clrf (pmb_flags b) PRAM_LAST_PF\<rparr>) s)
                    else Inr (None, s))
             (p_lus1_us2 (procs s p)) s
      else Inr (None, s))"

text \<open>The reset every block gets when it is handed out.\<close>

definition reset_pmb :: "pram_mem_block \<Rightarrow> pram_mem_block" where
  "reset_pmb b = b\<lparr>pmb_flags := clrf (pmb_flags b) PRAM_SLOT_FREE, us1 := MAP_NONE, us2 := MAP_NONE,
     us0 := MAP_NONE, pmb_vaddr := MAP_NONE, next_pmb := None\<rparr>"

definition get_pmb :: "kstate \<Rightarrow> stop + (nat \<times> kstate)" where
  "get_pmb s =
     (case first_free (pmb_free s) WORKING_SET_SIZE of
        None \<Rightarrow> Inl (Panic ''ALERT BLOCK LIST IS FULL STOP STOP'')
      | Some i \<Rightarrow> Inr (i, upd_pmb i reset_pmb s))"

text \<open>
  The tail of \<open>add_pmb\<close> and \<open>add_pmb_vaddr\<close>: link the block at the end of the
  process's list, give it the old length as its id and count it.
\<close>

definition link_pmb :: "int \<Rightarrow> nat \<Rightarrow> kstate \<Rightarrow> stop + kstate" where
  "link_pmb p n s =
     bnd (if p_lus1_us2_size (procs s p) = 0
          then Inr (upd_proc p (\<lambda>r. r\<lparr>p_lus1_us2 := Some n\<rparr>) s)
          else bnd (tail_of (pmb_nx s) (p_lus1_us2 (procs s p)))
                 (\<lambda>t. Inr (upd_pmb n (\<lambda>b. b\<lparr>next_pmb := None\<rparr>)
                            (upd_pmb t (\<lambda>b. b\<lparr>next_pmb := Some n\<rparr>) s))))
       (\<lambda>s. Inr (upd_proc p (\<lambda>r. r\<lparr>p_lus1_us2_size := p_lus1_us2_size r + 1\<rparr>)
                  (upd_pmb n (\<lambda>b. b\<lparr>pmb_id := p_lus1_us2_size (procs s p)\<rparr>) s)))"

definition add_pmb :: "int \<Rightarrow> u32 \<Rightarrow> u32 \<Rightarrow> u32 \<Rightarrow> kstate \<Rightarrow> stop + (nat \<times> kstate)" where
  "add_pmb p pfa v pte s =
     bnd (get_pmb s) (\<lambda>(n, s).
       bnd (link_pmb p n
              (upd_pmb n (\<lambda>b. b\<lparr>us0 := pfa, pmb_vaddr := v + pte * I386_PAGE_SIZE,
                 pmb_flags := (if pfa = 0 then setf (pmb_flags b) H_HAS_NULL_PRAM else pmb_flags b)\<rparr>) s))
         (\<lambda>s. Inr (n, s)))"

definition add_pmb_vaddr :: "int \<Rightarrow> u32 \<Rightarrow> u32 \<Rightarrow> u32 \<Rightarrow> u32 \<Rightarrow> kstate \<Rightarrow> stop + (nat \<times> kstate)" where
  "add_pmb_vaddr p pfa vaddr f1 f2 s =
     bnd (get_pmb s) (\<lambda>(n, s).
       bnd (link_pmb p n
              (upd_pmb n (\<lambda>b. b\<lparr>us0 := pfa, pmb_vaddr := vaddr, us1 := f1, us2 := f2\<rparr>) s))
         (\<lambda>s. Inr (n, s)))"

text \<open>What freeing writes into a block; its link stays as it was.\<close>

definition clear_pmb :: "pram_mem_block \<Rightarrow> pram_mem_block" where
  "clear_pmb b = b\<lparr>pmb_flags := PRAM_SLOT_FREE, pmb_vaddr := MAP_NONE, pmb_id := 0,
     us0 := MAP_NONE, us1 := MAP_NONE, us2 := MAP_NONE\<rparr>"

text \<open>The removal itself, once the block \<open>a\<close> and its predecessor are known.\<close>

definition unlink_pmb :: "int \<Rightarrow> nat option \<Rightarrow> nat \<Rightarrow> kstate \<Rightarrow> kstate" where
  "unlink_pmb p prev a s =
     (let s = upd_proc p (\<lambda>r. r\<lparr>p_lus1_us2_size := p_lus1_us2_size r - 1\<rparr>) (upd_pmb a clear_pmb s)
      in case prev of
           Some b \<Rightarrow> upd_pmb b (\<lambda>c. c\<lparr>next_pmb := pmb_nx s a\<rparr>) s
         | None \<Rightarrow> upd_proc p (\<lambda>r. r\<lparr>p_lus1_us2 := pmb_nx s a\<rparr>) s)"

definition free_pram_mem_block :: "int \<Rightarrow> u32 \<Rightarrow> u32 \<Rightarrow> kstate \<Rightarrow> stop + kstate" where
  "free_pram_mem_block p vaddr root s =
     (if p_lus1_us2_size (procs s p) \<le> 0 then Inr s
      else bnd (search_prev (pmb_nx s) (pmb_at (I386_VM_PDE vaddr) (I386_VM_PTE vaddr) s)
                  (p_lus1_us2 (procs s p)))
        (\<lambda>found. case found of
           None \<Rightarrow> Inr s
         | Some (prev, a) \<Rightarrow>
             bnd (phys_get32 (entry_addr root (I386_VM_PDE vaddr)) s)
               (\<lambda>pde_v. Inr (unlink_pmb p prev a s))))"

definition free_pram_mem_blocks :: "int \<Rightarrow> int \<Rightarrow> kstate \<Rightarrow> stop + kstate" where
  "free_pram_mem_blocks p no_msg_to_vm s =
     (if p_lus1_us2_size (procs s p) \<le> 0 then Inr s
      else bnd (for_chain pmb_nx
                  (\<lambda>a s. if has (pmb_flags (working_set s a)) H_TO_UPDATE \<and> no_msg_to_vm = FROM_EXEC
                         then Inr (None :: unit option, s)
                         else bnd (free_pram_mem_block p (pmb_vaddr (working_set s a)) (p_cr3 (procs s p)) s)
                                (\<lambda>s. Inr (None, s)))
                  (p_lus1_us2 (procs s p)) s)
        (\<lambda>(_, s). if no_msg_to_vm \<noteq> FROM_EXEC
           then bnd (kassert (p_lus1_us2_size (procs s p) = 0) ''p_lus1_us2_size == 0'' s)
                  (kassert (p_lus1_us2 (procs s p) = None) ''p_lus1_us2 == NULL'')
           else Inr s))"

definition free_pram_mem_block_vaddr :: "int \<Rightarrow> u32 \<Rightarrow> u32 \<Rightarrow> kstate \<Rightarrow> stop + kstate" where
  "free_pram_mem_block_vaddr p raddr len s =
     (if p_lus1_us2_size (procs s p) \<le> 0 then Inr s
      else for_each
        (\<lambda>i s. let vaddr = page_base_of raddr + of_nat i * 4 * 1024
               in bnd (look_up_pte p (I386_VM_PDE vaddr) (I386_VM_PTE vaddr) s)
                    (\<lambda>r. case r of None \<Rightarrow> Inr s
                       | Some a \<Rightarrow> free_pram_mem_block p (pmb_vaddr (working_set s a)) (p_cr3 (procs s p)) s))
        [0 ..< nat (n_pages_covered raddr len)] s)"

text \<open>\<open>set_fork_label\<close> and \<open>set_exec_label\<close> replace the flags by a label and keep the old ones.\<close>

definition label_pmb :: "u32 \<Rightarrow> pram_mem_block \<Rightarrow> pram_mem_block" where
  "label_pmb l b = b\<lparr>pmb_iflags := pmb_flags b, pmb_flags := l\<rparr>"

definition set_fork_label :: "int \<Rightarrow> kstate \<Rightarrow> stop + kstate" where
  "set_fork_label p s =
     (if p_lus1_us2_size (procs s p) \<le> 0 then Inr s
      else bnd (for_chain pmb_nx (\<lambda>a s. Inr (None :: unit option, upd_pmb a (label_pmb H_FORK) s))
                  (p_lus1_us2 (procs s p)) s)
             (\<lambda>(_, s). Inr s))"

definition set_exec_label :: "int \<Rightarrow> kstate \<Rightarrow> stop + kstate" where
  "set_exec_label p s =
     (if p_lus1_us2_size (procs s p) \<le> 0 then Inr s
      else bnd (for_chain pmb_nx (\<lambda>a s. Inr (None :: unit option, upd_pmb a (label_pmb H_EXEC) s))
                  (p_lus1_us2 (procs s p)) s)
             (\<lambda>(_, s). Inr s))"

section \<open>The well-formed list\<close>

text \<open>
  The relational abstraction: \<open>as\<close> are the slots of the list of process \<open>p\<close>, the
  stored length is theirs, each is a slot in use and no page has two blocks.
\<close>

definition pmb_page :: "kstate \<Rightarrow> nat \<Rightarrow> u32" where
  "pmb_page s a = page_base_of (pmb_vaddr (working_set s a))"

definition ws_list :: "int \<Rightarrow> kstate \<Rightarrow> nat list \<Rightarrow> bool" where
  "ws_list p s as \<longleftrightarrow>
     chain (pmb_nx s) (p_lus1_us2 (procs s p)) as \<and>
     p_lus1_us2_size (procs s p) = int (length as) \<and>
     (\<forall>a \<in> set as. a < WORKING_SET_SIZE \<and> \<not> pmb_free s a) \<and>
     distinct (map (pmb_page s) as)"

text \<open>The pages of a working set: the view a client has of it.\<close>

definition ws_pages :: "int \<Rightarrow> kstate \<Rightarrow> u32 list" where
  "ws_pages p s =
     map (pmb_page s) (slots_of (pmb_nx s) (p_lus1_us2 (procs s p)))"

section \<open>Frame and list lemmas\<close>

lemma pmb_nx_upd: "pmb_nx (upd_pmb a f s) = (pmb_nx s)(a := next_pmb (f (working_set s a)))"
  by (rule ext) (simp add: pmb_nx_def)

lemma pmb_nx_upd_proc [simp]: "pmb_nx (upd_proc p f s) = pmb_nx s"
  by (rule ext) (simp add: pmb_nx_def)

lemma pmb_free_upd: "pmb_free (upd_pmb a f s) b = (if b = a then has (pmb_flags (f (working_set s a))) PRAM_SLOT_FREE else pmb_free s b)"
  by (simp add: pmb_free_def)

lemma pmb_free_upd_proc [simp]: "pmb_free (upd_proc p f s) = pmb_free s"
  by (rule ext) (simp add: pmb_free_def)

lemma pmb_page_upd: "pmb_page (upd_pmb a f s) b = (if b = a then page_base_of (pmb_vaddr (f (working_set s a))) else pmb_page s b)"
  by (simp add: pmb_page_def)

lemma pmb_page_upd_proc [simp]: "pmb_page (upd_proc p f s) = pmb_page s"
  by (rule ext) (simp add: pmb_page_def)

lemmas ws_upd = pmb_nx_upd pmb_free_upd pmb_page_upd

lemma ws_list_distinct: "ws_list p s as \<Longrightarrow> distinct as"
  by (auto simp: ws_list_def chain_distinct)

lemma ws_list_empty: "ws_list p s as \<Longrightarrow> p_lus1_us2_size (procs s p) \<le> 0 \<longleftrightarrow> as = []"
  by (auto simp: ws_list_def)

lemma pmb_at_page:
  "pmb_at (I386_VM_PDE v) (I386_VM_PTE v) s = (\<lambda>a. pmb_page s a = page_base_of v)"
  using page_eq_iff [of _ v] by (auto simp: pmb_at_def pmb_page_def fun_eq_iff)

lemma look_up_pte_find:
  assumes "ws_list p s as"
  shows "look_up_pte p (I386_VM_PDE v) (I386_VM_PTE v) s = Inr (find (\<lambda>a. pmb_page s a = page_base_of v) as)"
proof -
  have "chain (pmb_nx s) (p_lus1_us2 (procs s p)) as" using assms by (simp add: ws_list_def)
  from find_chain_find [of pmb_nx s, OF this] assms show ?thesis
    by (cases as) (auto simp: look_up_pte_def ws_list_def pmb_at_page)
qed

text \<open>The part of the state an operation on the list of \<open>p\<close> may write.\<close>

definition only_ws :: "int \<Rightarrow> nat set \<Rightarrow> kstate \<Rightarrow> kstate \<Rightarrow> bool" where
  "only_ws p A s t \<longleftrightarrow>
     t\<lparr>working_set := working_set s, procs := procs s\<rparr> = s \<and>
     (\<forall>a. a \<notin> A \<longrightarrow> working_set t a = working_set s a) \<and>
     (\<forall>q. q \<noteq> p \<longrightarrow> procs t q = procs s q) \<and>
     (procs t p)\<lparr>p_lus1_us2 := p_lus1_us2 (procs s p), p_lus1_us2_size := p_lus1_us2_size (procs s p)\<rparr> = procs s p"

lemma only_ws_refl [simp]: "only_ws p A s s"
  by (simp add: only_ws_def)

lemma only_ws_trans:
  assumes "only_ws p A s t" "only_ws p B t u" shows "only_ws p (A \<union> B) s u"
proof -
  have "u\<lparr>working_set := working_set s, procs := procs s\<rparr> =
      (u\<lparr>working_set := working_set t, procs := procs t\<rparr>)\<lparr>working_set := working_set s, procs := procs s\<rparr>"
    by simp
  moreover have "(procs u p)\<lparr>p_lus1_us2 := x, p_lus1_us2_size := y\<rparr> =
      ((procs u p)\<lparr>p_lus1_us2 := x', p_lus1_us2_size := y'\<rparr>)\<lparr>p_lus1_us2 := x, p_lus1_us2_size := y\<rparr>" for x y x' y'
    by simp
  ultimately show ?thesis using assms unfolding only_ws_def by (metis UnCI)
qed

lemma only_ws_upd_pmb: "a \<in> A \<Longrightarrow> only_ws p A s (upd_pmb a f s)"
  by (simp add: only_ws_def upd_pmb_def)

lemma only_ws_upd_proc: "only_ws p A s (upd_proc p (\<lambda>r. r\<lparr>p_lus1_us2 := F r, p_lus1_us2_size := G r\<rparr>) s)"
  by (simp add: only_ws_def upd_proc_def)

lemma ws_list_frame:
  assumes "only_ws p A s t" "q \<noteq> p" "set as \<inter> A = {}" "ws_list q s as"
  shows "ws_list q t as"
proof -
  have w: "working_set t a = working_set s a" if "a \<in> set as" for a
    using assms(1,3) that by (auto simp: only_ws_def)
  have "chain (pmb_nx t) (p_lus1_us2 (procs s q)) as = chain (pmb_nx s) (p_lus1_us2 (procs s q)) as"
    by (rule chain_cong_set) (simp add: pmb_nx_def w)
  moreover have "procs t q = procs s q" using assms(1,2) by (simp add: only_ws_def)
  moreover have "map (pmb_page t) as = map (pmb_page s) as"
    by (rule map_cong) (simp_all add: pmb_page_def w)
  moreover have "pmb_free t a = pmb_free s a" if "a \<in> set as" for a
    using w [OF that] by (simp add: pmb_free_def)
  ultimately show ?thesis using assms(4) unfolding ws_list_def by metis
qed

definition pmb_room :: "kstate \<Rightarrow> bool" where
  "pmb_room s \<longleftrightarrow> (\<exists>i < WORKING_SET_SIZE - 1. pmb_free s i)"

lemma get_pmb_room:
  assumes "pmb_room s"
  shows "\<exists>n. get_pmb s = Inr (n, upd_pmb n reset_pmb s) \<and> n < WORKING_SET_SIZE - 1 \<and> pmb_free s n \<and>
             (\<forall>j < n. \<not> pmb_free s j)"
proof -
  obtain k where "k < WORKING_SET_SIZE - 1" "pmb_free s k" using assms by (auto simp: pmb_room_def)
  from first_free_room [of k WORKING_SET_SIZE "pmb_free s", OF this] show ?thesis
    by (auto simp: get_pmb_def)
qed

lemma link_pmb_ws:
  assumes ws: "ws_list p s as" and n: "n \<notin> set as" "n < WORKING_SET_SIZE" "\<not> pmb_free s n"
    and nx: "pmb_nx s n = None" and pg: "pmb_page s n \<notin> pmb_page s ` set as"
  shows "\<exists>t. link_pmb p n s = Inr t \<and> ws_list p t (as @ [n]) \<and> only_ws p (insert n (set as)) s t \<and>
    (\<forall>a. (working_set t a)\<lparr>next_pmb := next_pmb (working_set s a), pmb_id := pmb_id (working_set s a)\<rparr> = working_set s a)"
proof (cases "as = []")
  case True
  let ?t = "upd_proc p (\<lambda>r. r\<lparr>p_lus1_us2_size := p_lus1_us2_size r + 1\<rparr>)
      (upd_pmb n (\<lambda>b. b\<lparr>pmb_id := 0\<rparr>) (upd_proc p (\<lambda>r. r\<lparr>p_lus1_us2 := Some n\<rparr>) s))"
  have "link_pmb p n s = Inr ?t" using ws True by (simp add: link_pmb_def ws_list_def)
  moreover have "ws_list p ?t (as @ [n])" using True ws n nx by (simp add: ws_list_def ws_upd pmb_nx_def pmb_free_def)
  moreover have "only_ws p (insert n (set as)) s ?t"
    by (simp add: only_ws_def upd_defs)
  ultimately show ?thesis by simp
next
  case False
  have c: "chain (pmb_nx s) (p_lus1_us2 (procs s p)) as" using ws by (simp add: ws_list_def)
  let ?u = "upd_pmb n (\<lambda>b. b\<lparr>next_pmb := None\<rparr>) (upd_pmb (last as) (\<lambda>b. b\<lparr>next_pmb := Some n\<rparr>) s)"
  let ?t = "upd_proc p (\<lambda>r. r\<lparr>p_lus1_us2_size := p_lus1_us2_size r + 1\<rparr>)
      (upd_pmb n (\<lambda>b. b\<lparr>pmb_id := int (length as)\<rparr>) ?u)"
  have t: "tail_of (pmb_nx s) (p_lus1_us2 (procs s p)) = Inr (last as)"
    using c False by (rule tail_of_chain)
  then have lk: "link_pmb p n s = Inr ?t" using ws False by (simp add: link_pmb_def ws_list_def)
  have "chain (pmb_nx ?t) (p_lus1_us2 (procs s p)) (as @ [n])"
    using pmbs.link_tail [of s, folded pmb_nx_def, OF c False n(1)] False
    by (simp add: ws_upd fun_upd_def pmb_nx_def cong: if_cong)
  moreover have pgs: "pmb_page ?t = pmb_page s" and frs: "pmb_free ?t = pmb_free s"
    by (rule ext, simp add: pmb_page_def pmb_free_def)+
  ultimately have "ws_list p ?t (as @ [n])"
    using ws n pg False unfolding ws_list_def pgs frs by auto
  moreover have "only_ws p (insert n (set as)) s ?t"
    using False by (simp add: only_ws_def upd_defs)
  ultimately show ?thesis using lk n(1) False nx by (intro exI [of _ ?t]) (auto simp: pmb_nx_def)
qed

definition ws_world :: "(int \<Rightarrow> nat list) \<Rightarrow> kstate \<Rightarrow> bool" where
  "ws_world L s \<longleftrightarrow> (\<forall>p. ws_list p s (L p)) \<and> (\<forall>p q. p \<noteq> q \<longrightarrow> set (L p) \<inter> set (L q) = {})"

lemma ws_world_step:
  assumes "ws_world L s" "only_ws p A s t" "ws_list p t as"
    and "\<And>q. q \<noteq> p \<Longrightarrow> set (L q) \<inter> (A \<union> set as) = {}"
  shows "ws_world (L(p := as)) t"
  unfolding ws_world_def
proof (intro conjI allI impI)
  fix q
  show "ws_list q t ((L(p := as)) q)"
  proof (cases "q = p")
    case False
    then have "set (L q) \<inter> A = {}" using assms(4) [of q] by auto
    then show ?thesis
      using ws_list_frame [OF assms(2) False] assms(1) False by (simp add: ws_world_def)
  qed (simp add: assms(3))
next
  fix q r :: int
  assume "q \<noteq> r"
  then show "set ((L(p := as)) q) \<inter> set ((L(p := as)) r) = {}"
    using assms(1) assms(4) [of q] assms(4) [of r] by (auto simp: ws_world_def)
qed

text \<open>A freshly handed-out block is on no list.\<close>

lemma fresh_ws:
  assumes "ws_list q s bs" "pmb_free s n" shows "n \<notin> set bs"
  using assms by (auto simp: ws_list_def)

lemma reset_frame:
  assumes "pmb_free s n" "ws_list q s bs"
  shows "ws_list q (upd_pmb n f s) bs"
proof -
  have n: "n \<notin> set bs" using fresh_ws assms by blast
  have e: "map (pmb_page (upd_pmb n f s)) bs = map (pmb_page s) bs"
    using n by (intro map_cong) (auto simp: ws_upd)
  show ?thesis using assms n unfolding ws_list_def e by (auto simp: pmb_nx_upd pmb_free_upd)
qed

lemma add_prepared:
  assumes w: "ws_world L s" and room: "pmb_room s"
    and g: "\<And>b. pmb_vaddr (g b) = v \<and> next_pmb (g b) = next_pmb b \<and>
              (has (pmb_flags (g b)) PRAM_SLOT_FREE \<longrightarrow> has (pmb_flags b) PRAM_SLOT_FREE)"
    and pg: "page_base_of v \<notin> pmb_page s ` set (L p)"
  shows "\<exists>n t. bnd (get_pmb s) (\<lambda>(n, s). bnd (link_pmb p n (upd_pmb n g s)) (\<lambda>s. Inr (n, s))) = Inr (n, t) \<and>
     ws_world (L(p := L p @ [n])) t \<and> pmb_free s n \<and>
     (working_set t n)\<lparr>next_pmb := None, pmb_id := 0\<rparr> = (g (reset_pmb (working_set s n)))\<lparr>next_pmb := None, pmb_id := 0\<rparr> \<and>
     only_ws p (insert n (set (L p))) s t \<and>
     (\<forall>a. a \<noteq> n \<longrightarrow> (working_set t a)\<lparr>next_pmb := next_pmb (working_set s a), pmb_id := pmb_id (working_set s a)\<rparr> = working_set s a)"
proof -
  obtain n where n: "get_pmb s = Inr (n, upd_pmb n reset_pmb s)" "n < WORKING_SET_SIZE - 1" "pmb_free s n"
    using get_pmb_room [OF room] by blast
  let ?u = "upd_pmb n g (upd_pmb n reset_pmb s)"
  have u: "?u = upd_pmb n (\<lambda>b. g (reset_pmb b)) s" by (simp add: upd_pmb_def)
  have wl: "ws_list q s (L q)" for q using w by (simp add: ws_world_def)
  have nin: "n \<notin> set (L q)" for q using fresh_ws [OF wl n(3)] .
  have ul: "ws_list q ?u (L q)" for q unfolding u using reset_frame [OF n(3) wl] by blast
  have "\<exists>t. link_pmb p n ?u = Inr t \<and> ws_list p t (L p @ [n]) \<and> only_ws p (insert n (set (L p))) ?u t \<and>
    (\<forall>a. (working_set t a)\<lparr>next_pmb := next_pmb (working_set ?u a), pmb_id := pmb_id (working_set ?u a)\<rparr> = working_set ?u a)"
  proof (rule link_pmb_ws [OF ul nin])
    show "n < WORKING_SET_SIZE" using n(2) by simp
    show "\<not> pmb_free ?u n" using g [of "reset_pmb (working_set s n)"]
      by (auto simp: pmb_free_def reset_pmb_def)
    show "pmb_nx ?u n = None" using g by (simp add: pmb_nx_def reset_pmb_def)
    have "pmb_page ?u a = pmb_page s a" if "a \<in> set (L p)" for a
      using that nin [of p] by (auto simp: ws_upd)
    moreover have "pmb_page ?u n = page_base_of v" using g by (simp add: ws_upd)
    ultimately show "pmb_page ?u n \<notin> pmb_page ?u ` set (L p)" using pg by auto
  qed
  then obtain t where t: "link_pmb p n ?u = Inr t" "ws_list p t (L p @ [n])"
    "only_ws p (insert n (set (L p))) ?u t"
    "\<And>a. (working_set t a)\<lparr>next_pmb := next_pmb (working_set ?u a), pmb_id := pmb_id (working_set ?u a)\<rparr> = working_set ?u a"
    by blast
  have su: "only_ws p (insert n (set (L p))) s ?u" unfolding u by (rule only_ws_upd_pmb) simp
  have st: "only_ws p (insert n (set (L p))) s t" using only_ws_trans [OF su t(3)] by simp
  have "ws_world (L(p := L p @ [n])) t"
  proof (rule ws_world_step [OF w st t(2)])
    show "set (L q) \<inter> (insert n (set (L p)) \<union> set (L p @ [n])) = {}" if "q \<noteq> p" for q
      using that w nin by (auto simp: ws_world_def)
  qed
  moreover have "(working_set t n)\<lparr>next_pmb := None, pmb_id := 0\<rparr> =
      (g (reset_pmb (working_set s n)))\<lparr>next_pmb := None, pmb_id := 0\<rparr>"
    using arg_cong [OF t(4) [of n], of "\<lambda>b. b\<lparr>next_pmb := None, pmb_id := 0\<rparr>"] by simp
  moreover have "(working_set t a)\<lparr>next_pmb := next_pmb (working_set s a), pmb_id := pmb_id (working_set s a)\<rparr> = working_set s a"
    if "a \<noteq> n" for a using t(4) [of a] that by simp
  ultimately show ?thesis using n t(1) st by (intro exI [of _ n] exI [of _ t]) simp
qed

text \<open>Removing a block: the search stops at the block of the page, which is unique.\<close>

lemma search_page:
  assumes "ws_list p s (as @ b # bs)" "pmb_page s b = page_base_of v"
  shows "search_prev (pmb_nx s) (pmb_at (I386_VM_PDE v) (I386_VM_PTE v) s) (p_lus1_us2 (procs s p)) =
    Inr (Some (if as = [] then None else Some (last as), b))"
proof -
  have "chain (pmb_nx s) (p_lus1_us2 (procs s p)) (as @ b # bs)"
    and ne: "\<forall>x \<in> set as. \<not> pmb_page s x = page_base_of v"
    using assms by (auto simp: ws_list_def image_iff)
  from search_prev_chain [OF this(1)] show ?thesis
    by (simp add: pmb_at_page prev_in_split [OF ne assms(2)])
qed

lemma unlink_pmb_ws:
  assumes ws: "ws_list p s (as @ b # bs)"
  defines "prev \<equiv> if as = [] then None else Some (last as)"
  shows "ws_list p (unlink_pmb p prev b s) (as @ bs)"
    and "only_ws p (set (as @ b # bs)) s (unlink_pmb p prev b s)"
    and "working_set (unlink_pmb p prev b s) b = clear_pmb (working_set s b)"
    and "a \<noteq> b \<Longrightarrow> (working_set (unlink_pmb p prev b s) a)\<lparr>next_pmb := next_pmb (working_set s a)\<rparr> = working_set s a"
proof -
  let ?t = "unlink_pmb p prev b s"
  let ?u = "upd_proc p (\<lambda>r. r\<lparr>p_lus1_us2_size := p_lus1_us2_size r - 1\<rparr>) (upd_pmb b clear_pmb s)"
  have c: "chain (pmb_nx s) (p_lus1_us2 (procs s p)) (as @ b # bs)" using ws by (simp add: ws_list_def)
  have d: "distinct (as @ b # bs)" using ws by (rule ws_list_distinct)
  have nu: "pmb_nx ?u = pmb_nx s" by (rule ext) (simp add: pmb_nx_def clear_pmb_def)
  have chain: "chain (pmb_nx ?t) (p_lus1_us2 (procs ?t p)) (as @ bs)"
  proof (cases as rule: rev_cases)
    case Nil
    with c nu show ?thesis by (simp add: unlink_pmb_def prev_def pmb_nx_upd)
  next
    case (snoc xs x)
    then have "chain (pmb_nx s) (p_lus1_us2 (procs s p)) (xs @ x # b # bs)" using c by simp
    then have "chain ((pmb_nx s)(x := pmb_nx s b)) (p_lus1_us2 (procs s p)) (xs @ x # bs)"
      by (rule chain_unlink_mid)
    moreover have "pmb_nx ?t = (pmb_nx s)(x := pmb_nx s b)"
      using snoc nu by (simp add: unlink_pmb_def prev_def pmb_nx_upd [of x])
    ultimately show ?thesis using snoc by (simp add: unlink_pmb_def prev_def)
  qed
  have wt: "working_set ?t a = (if a = b then clear_pmb (working_set s b) else
      if as \<noteq> [] \<and> a = last as then (working_set s a)\<lparr>next_pmb := pmb_nx s b\<rparr> else working_set s a)" for a
    using d nu by (auto simp: unlink_pmb_def prev_def)
  have keep: "pmb_free ?t a = pmb_free s a \<and> pmb_page ?t a = pmb_page s a" if "a \<noteq> b" for a
    using that by (simp add: pmb_free_def pmb_page_def wt)
  have nb: "a \<noteq> b" if "a \<in> set (as @ bs)" for a using that d by auto
  have "map (pmb_page ?t) (as @ bs) = map (pmb_page s) (as @ bs)"
    using keep nb by (intro map_cong) auto
  moreover have "distinct (map (pmb_page s) (as @ bs))"
    using ws by (auto simp: ws_list_def)
  ultimately have "distinct (map (pmb_page ?t) (as @ bs))" by presburger
  moreover have "\<forall>a \<in> set (as @ bs). a < WORKING_SET_SIZE \<and> \<not> pmb_free ?t a"
    using keep nb ws by (auto simp: ws_list_def)
  moreover have "p_lus1_us2_size (procs ?t p) = int (length (as @ bs))"
    using ws by (auto simp: unlink_pmb_def prev_def Let_def ws_list_def)
  ultimately show "ws_list p ?t (as @ bs)"
    using chain unfolding ws_list_def by blast
  show "working_set ?t b = clear_pmb (working_set s b)" by (simp add: wt)
  show "(working_set ?t a)\<lparr>next_pmb := next_pmb (working_set s a)\<rparr> = working_set s a" if "a \<noteq> b"
    using that by (simp add: wt)
  show "only_ws p (set (as @ b # bs)) s ?t"
    unfolding only_ws_def
  proof (intro conjI allI impI)
    show "working_set ?t a = working_set s a" if "a \<notin> set (as @ b # bs)" for a
      using that by (auto simp: wt)
  qed (auto simp: unlink_pmb_def prev_def upd_defs Let_def)
qed

lemma free_pram_mem_block_hit:
  assumes w: "ws_world L s" and L: "L p = as @ b # bs" and b: "pmb_page s b = page_base_of v"
    and rd: "\<not> rd_fault s (entry_addr root (I386_VM_PDE v))"
  shows "\<exists>t. free_pram_mem_block p v root s = Inr t \<and> ws_world (L(p := as @ bs)) t \<and>
    only_ws p (set (L p)) s t \<and> working_set t b = clear_pmb (working_set s b) \<and>
    (\<forall>a. a \<noteq> b \<longrightarrow> (working_set t a)\<lparr>next_pmb := next_pmb (working_set s a)\<rparr> = working_set s a)"
proof -
  have ws: "ws_list p s (as @ b # bs)" using w L by (metis ws_world_def)
  let ?t = "unlink_pmb p (if as = [] then None else Some (last as)) b s"
  have "free_pram_mem_block p v root s = Inr ?t"
    using search_page [OF ws b] ws rd ws_list_empty [OF ws]
    by (simp add: free_pram_mem_block_def phys_get32_def)
  moreover have "ws_world (L(p := as @ bs)) ?t"
  proof (rule ws_world_step [OF w unlink_pmb_ws(2) [OF ws] unlink_pmb_ws(1) [OF ws]])
    show "set (L q) \<inter> (set (as @ b # bs) \<union> set (as @ bs)) = {}" if "q \<noteq> p" for q
    proof -
      have "set (L q) \<inter> set (L p) = {}" using that w by (auto simp: ws_world_def)
      then show ?thesis using L by auto
    qed
  qed
  ultimately show ?thesis
    using unlink_pmb_ws(2-4) [OF ws] L by (intro exI [of _ ?t]) simp
qed

lemma free_pram_mem_block_miss:
  assumes "ws_list p s as" "page_base_of v \<notin> pmb_page s ` set as"
  shows "free_pram_mem_block p v root s = Inr s"
proof -
  have "chain (pmb_nx s) (p_lus1_us2 (procs s p)) as" using assms(1) by (simp add: ws_list_def)
  from search_prev_chain [OF this] have
    "search_prev (pmb_nx s) (pmb_at (I386_VM_PDE v) (I386_VM_PTE v) s) (p_lus1_us2 (procs s p)) = Inr None"
    using assms(2) by (auto simp: pmb_at_page prev_in_None image_iff)
  then show ?thesis by (simp add: free_pram_mem_block_def)
qed

text \<open>The kernel can read every entry of the page directory \<open>root\<close>.\<close>

definition pd_readable :: "u32 \<Rightarrow> kstate \<Rightarrow> bool" where
  "pd_readable root s \<longleftrightarrow> (\<forall>v. \<not> rd_fault s (entry_addr root (I386_VM_PDE v)))"

definition kept_by :: "int \<Rightarrow> kstate \<Rightarrow> nat \<Rightarrow> bool" where
  "kept_by no_msg_to_vm s a \<longleftrightarrow>
     has (pmb_flags (working_set s a)) H_TO_UPDATE \<and> no_msg_to_vm = FROM_EXEC"

lemma ws_world_list: "ws_world L s \<Longrightarrow> ws_list p s (L p)"
  by (simp add: ws_world_def)

lemma only_ws_sel:
  assumes "only_ws p A s t"
  shows "rd_fault t = rd_fault s" "wr_fault t = wr_fault s" "mem t = mem s" "h_step t = h_step s"
    "p_cr3 (procs t q) = p_cr3 (procs s q)"
proof -
  have e: "t\<lparr>working_set := working_set s, procs := procs s\<rparr> = s" using assms by (simp add: only_ws_def)
  show "rd_fault t = rd_fault s" using arg_cong [OF e, of rd_fault] by simp
  show "wr_fault t = wr_fault s" using arg_cong [OF e, of wr_fault] by simp
  show "mem t = mem s" using arg_cong [OF e, of mem] by simp
  show "h_step t = h_step s" using arg_cong [OF e, of h_step] by simp
  have f: "(procs t p)\<lparr>p_lus1_us2 := p_lus1_us2 (procs s p), p_lus1_us2_size := p_lus1_us2_size (procs s p)\<rparr> = procs s p"
    using assms by (simp add: only_ws_def)
  show "p_cr3 (procs t q) = p_cr3 (procs s q)"
    using arg_cong [OF f, of p_cr3] assms by (cases "q = p") (auto simp: only_ws_def)
qed

lemma ws_list_next:
  assumes "ws_list p s (as @ a # rs)"
  shows "pmb_nx s a = (case rs of [] \<Rightarrow> None | b # _ \<Rightarrow> Some b)"
proof -
  have "chain (pmb_nx s) (Some a) (a # rs)" using assms chain_drop by (force simp: ws_list_def)
  then show ?thesis using chain_head by fastforce
qed

lemma free_all_loop:
  fixes no_msg_to_vm :: int and s :: kstate and L :: "int \<Rightarrow> nat list" and p :: int
  assumes w: "ws_world L s" and rd: "pd_readable (p_cr3 (procs s p)) s"
  defines "K \<equiv> kept_by no_msg_to_vm s"
  shows "\<exists>t. for_chain pmb_nx
      (\<lambda>a s. if has (pmb_flags (working_set s a)) H_TO_UPDATE \<and> no_msg_to_vm = FROM_EXEC
             then Inr (None :: unit option, s)
             else bnd (free_pram_mem_block p (pmb_vaddr (working_set s a)) (p_cr3 (procs s p)) s)
                    (\<lambda>s. Inr (None, s)))
      (p_lus1_us2 (procs s p)) s = Inr (None, t) \<and>
    ws_world (L(p := filter K (L p))) t \<and> only_ws p (set (L p)) s t \<and>
    (\<forall>a \<in> set (L p). \<not> K a \<longrightarrow> pmb_free t a) \<and>
    (\<forall>a. K a \<or> a \<notin> set (L p) \<longrightarrow> (working_set t a)\<lparr>next_pmb := next_pmb (working_set s a)\<rparr> = working_set s a)"
  (is "\<exists>t. for_chain _ ?body _ _ = _ \<and> _")
proof -
  let ?nl = "\<lambda>t a. (working_set t a)\<lparr>next_pmb := next_pmb (working_set s a)\<rparr> = working_set s a"
  let ?I = "\<lambda>ds rs t. ws_world (L(p := filter K ds @ rs)) t \<and> only_ws p (set (L p)) s t \<and>
     (\<forall>a \<in> set ds. \<not> K a \<longrightarrow> pmb_free t a) \<and> (\<forall>a. K a \<or> a \<notin> set ds \<longrightarrow> ?nl t a)"
  have "\<exists>t. for_chain pmb_nx ?body (p_lus1_us2 (procs s p)) s = Inr (None, t) \<and> ?I (L p) [] t"
  proof (rule for_chain_inv [where I = ?I and as = "L p"])
    show "p_lus1_us2 (procs s p) = (case L p of [] \<Rightarrow> None | a # _ \<Rightarrow> Some a)"
      using chain_head ws_world_list [OF w] by (metis ws_list_def)
    show "?I [] (L p) s" using w by simp
    fix ds a rs t
    assume I: "?I ds (a # rs) t" and Lp: "L p = ds @ a # rs"
    have dist: "distinct (ds @ a # rs)" using ws_world_list [OF w] Lp ws_list_distinct by metis
    have wt: "ws_list p t (filter K ds @ a # rs)" using I ws_world_list [of _ t p] by force
    have nl: "?nl t a" using I dist by simp
    have fl: "pmb_flags (working_set t a) = pmb_flags (working_set s a)"
      using arg_cong [OF nl, of pmb_flags] by simp
    have Kt: "has (pmb_flags (working_set t a)) H_TO_UPDATE \<and> no_msg_to_vm = FROM_EXEC \<longleftrightarrow> K a"
      by (simp add: fl K_def kept_by_def)
    show "\<exists>t'. ?body a t = Inr (None, t') \<and> ?I (ds @ [a]) rs t' \<and>
        pmb_nx t' a = (case rs of [] \<Rightarrow> None | b # _ \<Rightarrow> Some b)"
    proof (cases "K a")
      case True
      have "?I (ds @ [a]) rs t" using True I by auto
      with True Kt ws_list_next [OF wt] show ?thesis by (intro exI [of _ t]) simp
    next
      case False
      let ?v = "pmb_vaddr (working_set t a)"
      have nf: "\<not> rd_fault t (entry_addr (p_cr3 (procs t p)) (I386_VM_PDE ?v))"
        using rd I only_ws_sel [of p "set (L p)" s t] by (auto simp: pd_readable_def)
      obtain u where u: "free_pram_mem_block p ?v (p_cr3 (procs t p)) t = Inr u"
        "ws_world (L(p := filter K ds @ rs)) u"
        "only_ws p (set (filter K ds @ a # rs)) t u" "working_set u a = clear_pmb (working_set t a)"
        "\<And>c. c \<noteq> a \<Longrightarrow> (working_set u c)\<lparr>next_pmb := next_pmb (working_set t c)\<rparr> = working_set t c"
        using free_pram_mem_block_hit [of "L(p := filter K ds @ a # rs)" t p "filter K ds" a rs ?v, OF _ _ _ nf]
          I by (auto simp: pmb_page_def)
      have "only_ws p (set (L p) \<union> set (filter K ds @ a # rs)) s u" using I only_ws_trans u(3) by blast
      moreover have "set (L p) \<union> set (filter K ds @ a # rs) = set (L p)" using Lp by auto
      ultimately have o: "only_ws p (set (L p)) s u" by simp
      have nl': "?nl u c" if "K c \<or> c \<notin> set (ds @ [a])" for c
      proof -
        have "c \<noteq> a" using that False by auto
        then have "(working_set u c)\<lparr>next_pmb := next_pmb (working_set t c)\<rparr> = working_set t c" using u(5) by blast
        from arg_cong [OF this, of "\<lambda>b. b\<lparr>next_pmb := next_pmb (working_set s c)\<rparr>"] show ?thesis
          using I that by auto
      qed
      have "pmb_free u c" if "c \<in> set (ds @ [a])" "\<not> K c" for c
      proof (cases "c = a")
        case True
        then show ?thesis using u(4) by (simp add: pmb_free_def clear_pmb_def has_def)
      next
        case False
        then have "pmb_free t c" using that I by auto
        moreover have "pmb_flags (working_set u c) = pmb_flags (working_set t c)"
          using arg_cong [OF u(5) [OF False], of pmb_flags] by simp
        ultimately show ?thesis by (simp add: pmb_free_def)
      qed
      then have "?I (ds @ [a]) rs u" using u(2) o nl' False by simp
      moreover have "pmb_nx u a = (case rs of [] \<Rightarrow> None | b # _ \<Rightarrow> Some b)"
        using ws_list_next [OF wt] u(4) by (simp add: pmb_nx_def clear_pmb_def)
      moreover have "?body a t = Inr (None, u)" using Kt False u(1) by auto
      ultimately show ?thesis by (intro exI [of _ u]) simp
    qed
  qed
  then show ?thesis by simp
qed

lemma free_pram_mem_blocks_ok:
  fixes no_msg_to_vm :: int and s :: kstate and L :: "int \<Rightarrow> nat list" and p :: int
  assumes w: "ws_world L s" and rd: "pd_readable (p_cr3 (procs s p)) s"
  defines "K \<equiv> kept_by no_msg_to_vm s"
  shows "\<exists>t. free_pram_mem_blocks p no_msg_to_vm s = Inr t \<and>
    ws_world (L(p := filter K (L p))) t \<and> only_ws p (set (L p)) s t \<and>
    (\<forall>a \<in> set (L p). \<not> K a \<longrightarrow> pmb_free t a) \<and>
    (\<forall>a. K a \<or> a \<notin> set (L p) \<longrightarrow> (working_set t a)\<lparr>next_pmb := next_pmb (working_set s a)\<rparr> = working_set s a)"
proof (cases "L p = []")
  case True
  then have "free_pram_mem_blocks p no_msg_to_vm s = Inr s"
    using ws_list_empty [OF ws_world_list [OF w, of p]] by (simp add: free_pram_mem_blocks_def)
  moreover have "L(p := []) = L" using True by auto
  ultimately show ?thesis using w True by (intro exI [of _ s]) simp
next
  case False
  obtain t where t: "for_chain pmb_nx
      (\<lambda>a s. if has (pmb_flags (working_set s a)) H_TO_UPDATE \<and> no_msg_to_vm = FROM_EXEC
             then Inr (None :: unit option, s)
             else bnd (free_pram_mem_block p (pmb_vaddr (working_set s a)) (p_cr3 (procs s p)) s)
                    (\<lambda>s. Inr (None, s)))
      (p_lus1_us2 (procs s p)) s = Inr (None, t)"
    and r: "ws_world (L(p := filter K (L p))) t" "only_ws p (set (L p)) s t"
    "\<forall>a \<in> set (L p). \<not> K a \<longrightarrow> pmb_free t a"
    "\<forall>a. K a \<or> a \<notin> set (L p) \<longrightarrow> (working_set t a)\<lparr>next_pmb := next_pmb (working_set s a)\<rparr> = working_set s a"
    using free_all_loop [OF w rd, of no_msg_to_vm] unfolding K_def by blast
  have "filter K (L p) = []" if "no_msg_to_vm \<noteq> FROM_EXEC"
    using that by (simp add: K_def kept_by_def)
  then have "p_lus1_us2_size (procs t p) = 0 \<and> p_lus1_us2 (procs t p) = None" if "no_msg_to_vm \<noteq> FROM_EXEC"
    using that ws_world_list [OF r(1), of p] by (simp add: ws_list_def)
  then have "free_pram_mem_blocks p no_msg_to_vm s = Inr t"
    using t ws_list_empty [OF ws_world_list [OF w, of p]] False
    by (auto simp: free_pram_mem_blocks_def)
  with r show ?thesis by blast
qed

text \<open>Labelling touches only the two flag words of the blocks on the list.\<close>

lemma label_loop:
  assumes "ws_list p s as" "distinct as"
  shows "for_chain pmb_nx (\<lambda>a s. Inr (None :: unit option, upd_pmb a (label_pmb l) s)) (p_lus1_us2 (procs s p)) s
    = Inr (None, fold (\<lambda>a. upd_pmb a (label_pmb l)) as s)"
proof (rule for_chain_fold [where P = "\<lambda>_. True"])
  show "chain (pmb_nx s) (p_lus1_us2 (procs s p)) as" using assms by (simp add: ws_list_def)
  show "Inr (None :: unit option, upd_pmb a (label_pmb l) t) = Inr (None, upd_pmb a (label_pmb l) t) \<and>
      pmb_nx (upd_pmb a (label_pmb l) t) = pmb_nx t \<and> True" for a t
    by (auto simp: fun_eq_iff pmb_nx_def label_pmb_def)
qed simp

lemma fold_upd_pmb:
  assumes "distinct as"
  shows "fold (\<lambda>a. upd_pmb a f) as s =
    s\<lparr>working_set := (\<lambda>a. if a \<in> set as then f (working_set s a) else working_set s a)\<rparr>"
  using assms
proof (induction as arbitrary: s)
  case Nil
  then show ?case by simp
next
  case (Cons b bs)
  have st: "(upd_pmb b f s)\<lparr>working_set := w\<rparr> = s\<lparr>working_set := w\<rparr>" for w by (simp add: upd_pmb_def)
  have eq: "(\<lambda>a. if a \<in> set bs then f (working_set (upd_pmb b f s) a) else working_set (upd_pmb b f s) a) =
      (\<lambda>a. if a \<in> set (b # bs) then f (working_set s a) else working_set s a)"
    using Cons.prems by (intro ext) auto
  have "fold (\<lambda>a. upd_pmb a f) (b # bs) s = fold (\<lambda>a. upd_pmb a f) bs (upd_pmb b f s)" by simp
  also have "\<dots> = s\<lparr>working_set := (\<lambda>a. if a \<in> set (b # bs) then f (working_set s a) else working_set s a)\<rparr>"
    using Cons.IH [of "upd_pmb b f s"] Cons.prems unfolding eq st by simp
  finally show ?case .
qed

lemma look_up_pte_None:
  assumes "ws_list p s as"
  shows "look_up_pte p (I386_VM_PDE v) (I386_VM_PTE v) s = Inr None \<longleftrightarrow> page_base_of v \<notin> pmb_page s ` set as"
  using look_up_pte_find [OF assms] by (auto simp: find_None_iff image_iff)

lemma look_up_pte_Some:
  assumes "ws_list p s as"
  shows "look_up_pte p (I386_VM_PDE v) (I386_VM_PTE v) s = Inr (Some a) \<longleftrightarrow> a \<in> set as \<and> pmb_page s a = page_base_of v"
proof
  assume "look_up_pte p (I386_VM_PDE v) (I386_VM_PTE v) s = Inr (Some a)"
  then show "a \<in> set as \<and> pmb_page s a = page_base_of v"
    using look_up_pte_find [OF assms, of v] by (auto simp: find_Some_iff)
next
  assume a: "a \<in> set as \<and> pmb_page s a = page_base_of v"
  then obtain b where b: "find (\<lambda>a. pmb_page s a = page_base_of v) as = Some b"
    by (metis (mono_tags, lifting) find_None_iff option.exhaust)
  then have "b \<in> set as" "pmb_page s b = page_base_of v" by (auto simp: find_Some_iff)
  moreover have "inj_on (pmb_page s) (set as)" using assms by (simp add: ws_list_def distinct_map)
  ultimately have "b = a" using a by (auto simp: inj_on_def)
  with b show "look_up_pte p (I386_VM_PDE v) (I386_VM_PTE v) s = Inr (Some a)"
    using look_up_pte_find [OF assms] by simp
qed

section \<open>Properties\<close>

text \<open>A table of free blocks, and a process with one page, for the witnesses.\<close>

definition free_table :: kstate where
  "free_table = bss_state\<lparr>working_set := (\<lambda>_. zero_pmb\<lparr>pmb_flags := PRAM_SLOT_FREE\<rparr>)\<rparr>"

lemma free_table_world: "ws_world (\<lambda>_. []) free_table"
  by (simp add: ws_world_def ws_list_def free_table_def bss_state_def zero_proc_def)

lemma free_table_room: "pmb_room free_table"
  by (auto simp: pmb_room_def pmb_free_def free_table_def has_def intro!: exI [of _ 0])

lemma find_snoc: "\<not> P y \<Longrightarrow> find P (xs @ [y]) = find P xs"
  by (induction xs) auto

text \<open>Insertion: as long as a block is free, \<open>add_pmb_vaddr\<close> appends a block for a page
  that is not yet in the working set; the lists of all processes stay well formed, the
  block has the given frames, a lookup of the page finds it, and every other lookup of
  the process answers as before.\<close>

theorem add_pmb_vaddr_inserts:
  assumes "ws_world L s" "pmb_room s" "page_base_of v \<notin> pmb_page s ` set (L p)"
  shows "\<exists>n t. add_pmb_vaddr p f0 v f1 f2 s = Inr (n, t) \<and> ws_world (L(p := L p @ [n])) t \<and>
     us0 (working_set t n) = f0 \<and> us1 (working_set t n) = f1 \<and> us2 (working_set t n) = f2 \<and>
     look_up_pte p (I386_VM_PDE v) (I386_VM_PTE v) t = Inr (Some n) \<and>
     (\<forall>w. page_base_of w \<noteq> page_base_of v \<longrightarrow>
        look_up_pte p (I386_VM_PDE w) (I386_VM_PTE w) t = look_up_pte p (I386_VM_PDE w) (I386_VM_PTE w) s)"
proof -
  let ?g = "\<lambda>b. b\<lparr>us0 := f0, pmb_vaddr := v, us1 := f1, us2 := f2\<rparr>"
  obtain n t where t: "add_pmb_vaddr p f0 v f1 f2 s = Inr (n, t)" "ws_world (L(p := L p @ [n])) t" "pmb_free s n"
    "(working_set t n)\<lparr>next_pmb := None, pmb_id := 0\<rparr> = (?g (reset_pmb (working_set s n)))\<lparr>next_pmb := None, pmb_id := 0\<rparr>"
    "\<forall>a. a \<noteq> n \<longrightarrow> (working_set t a)\<lparr>next_pmb := next_pmb (working_set s a), pmb_id := pmb_id (working_set s a)\<rparr> = working_set s a"
    using add_prepared [OF assms(1,2) _ assms(3), of ?g] by (auto simp: add_pmb_vaddr_def)
  have n: "us0 (working_set t n) = f0" "us1 (working_set t n) = f1" "us2 (working_set t n) = f2" "pmb_vaddr (working_set t n) = v"
    using arg_cong [OF t(4), of us0] arg_cong [OF t(4), of us1] arg_cong [OF t(4), of us2] arg_cong [OF t(4), of pmb_vaddr]
    by simp_all
  have w: "ws_list p t (L p @ [n])" using ws_world_list [OF t(2), of p] by simp
  have s: "ws_list p s (L p)" using assms(1) by (rule ws_world_list)
  have pg: "pmb_page t a = pmb_page s a" if "a \<in> set (L p)" for a
  proof -
    have "a \<noteq> n" using fresh_ws [OF s t(3)] that by blast
    then show ?thesis using arg_cong [OF t(5) [rule_format, of a], of pmb_vaddr] by (simp add: pmb_page_def)
  qed
  have pn: "pmb_page t n = page_base_of v" using n(4) by (simp add: pmb_page_def)
  have "look_up_pte p (I386_VM_PDE w) (I386_VM_PTE w) t = look_up_pte p (I386_VM_PDE w) (I386_VM_PTE w) s"
    if "page_base_of w \<noteq> page_base_of v" for w
  proof -
    have "find (\<lambda>a. pmb_page t a = page_base_of w) (L p @ [n]) = find (\<lambda>a. pmb_page s a = page_base_of w) (L p)"
      using that pn pg find_cong [of "L p" "L p" "\<lambda>a. pmb_page t a = page_base_of w"] by (auto simp: find_snoc)
    then show ?thesis using look_up_pte_find [OF w, of w] look_up_pte_find [OF s, of w] by simp
  qed
  then show ?thesis using t(1,2) n(1-3) look_up_pte_Some [OF w, of v n] pn by auto
qed

theorem add_pmb_vaddr_inserts_witness:
  "\<exists>n t. add_pmb_vaddr 1 0x5000 0x3000 0x6000 0x7000 free_table = Inr (n, t) \<and>
     look_up_pte 1 (I386_VM_PDE 0x3000) (I386_VM_PTE 0x3000) t = Inr (Some n)"
  using add_pmb_vaddr_inserts [OF free_table_world free_table_room, of "0x3000" 1 "0x5000" "0x6000" "0x7000"] by auto

text \<open>Removal: \<open>free_pram_mem_block\<close> takes exactly the block of the page off the list of the
  process and returns its slot to the table; the other blocks keep their page, flags and
  frames, the lists of all processes stay well formed, memory is not touched, and the
  page is no longer found.\<close>

theorem free_pram_mem_block_removes:
  assumes "ws_world L s" "L p = as @ b # bs" "pmb_page s b = page_base_of v"
    "\<not> rd_fault s (entry_addr root (I386_VM_PDE v))"
  shows "\<exists>t. free_pram_mem_block p v root s = Inr t \<and> ws_world (L(p := as @ bs)) t \<and> pmb_free t b \<and> mem t = mem s \<and>
     (\<forall>a. a \<noteq> b \<longrightarrow> (working_set t a)\<lparr>next_pmb := next_pmb (working_set s a)\<rparr> = working_set s a) \<and>
     look_up_pte p (I386_VM_PDE v) (I386_VM_PTE v) t = Inr None"
proof -
  obtain t where t: "free_pram_mem_block p v root s = Inr t" "ws_world (L(p := as @ bs)) t"
    "only_ws p (set (L p)) s t" "working_set t b = clear_pmb (working_set s b)"
    "\<forall>a. a \<noteq> b \<longrightarrow> (working_set t a)\<lparr>next_pmb := next_pmb (working_set s a)\<rparr> = working_set s a"
    using free_pram_mem_block_hit [OF assms] by blast
  have d: "ws_list p s (as @ b # bs)" using ws_world_list [OF assms(1), of p] assms(2) by simp
  then have "pmb_page s b \<notin> pmb_page s ` set (as @ bs)" by (simp add: ws_list_def image_Un)
  then have nb: "b \<notin> set (as @ bs)" "\<forall>a \<in> set (as @ bs). pmb_page s a \<noteq> pmb_page s b"
    by (metis image_eqI)+
  have "pmb_page t a = pmb_page s a" if "a \<in> set (as @ bs)" for a
  proof -
    have "a \<noteq> b" using that nb(1) by blast
    then show ?thesis using arg_cong [OF t(5) [rule_format, of a], of pmb_vaddr] by (simp add: pmb_page_def)
  qed
  then have "page_base_of v \<notin> pmb_page t ` set (as @ bs)" using nb(2) assms(3) by force
  then have "look_up_pte p (I386_VM_PDE v) (I386_VM_PTE v) t = Inr None"
    using look_up_pte_None [of p t "as @ bs" v] ws_world_list [OF t(2), of p] by simp
  moreover have "pmb_free t b" using t(4) by (simp add: pmb_free_def clear_pmb_def has_def)
  ultimately show ?thesis using t only_ws_sel(3) [OF t(3)] by blast
qed

definition one_block :: kstate where
  "one_block = free_table\<lparr>working_set := (working_set free_table)(0 := zero_pmb\<lparr>pmb_vaddr := 0x3000, us0 := 0x5000\<rparr>),
     procs := (procs free_table)(1 := (procs free_table 1)\<lparr>p_lus1_us2 := Some 0, p_lus1_us2_size := 1\<rparr>)\<rparr>"

lemma one_block_world: "ws_world ((\<lambda>_. [])(1 := [0])) one_block"
  by (auto simp: ws_world_def ws_list_def one_block_def free_table_def bss_state_def zero_proc_def zero_pmb_def
        pmb_nx_def pmb_free_def has_def pmb_page_def)

theorem free_pram_mem_block_removes_witness:
  "\<exists>t. free_pram_mem_block 1 0x3000 0x1000 one_block = Inr t \<and> pmb_free t 0"
  using free_pram_mem_block_removes [OF one_block_world, of 1 "[]" 0 "[]" "0x3000" "0x1000"]
  by (auto simp: pmb_page_def one_block_def free_table_def bss_state_def)

text \<open>Exit: \<open>free_pram_mem_blocks\<close>, called when a process ends, returns; it gives every
  block of the process back to the table, leaves the process with an empty list, and the
  blocks and lists of all other processes as they were.\<close>

theorem free_pram_mem_blocks_empties:
  assumes "ws_world L s" "pd_readable (p_cr3 (procs s p)) s" "msg \<noteq> FROM_EXEC"
  shows "\<exists>t. free_pram_mem_blocks p msg s = Inr t \<and> ws_world (L(p := [])) t \<and>
     p_lus1_us2 (procs t p) = None \<and> p_lus1_us2_size (procs t p) = 0 \<and> (\<forall>a \<in> set (L p). pmb_free t a) \<and>
     (\<forall>a. a \<notin> set (L p) \<longrightarrow> working_set t a = working_set s a) \<and> (\<forall>q. q \<noteq> p \<longrightarrow> procs t q = procs s q) \<and> mem t = mem s"
proof -
  have k: "kept_by msg s = (\<lambda>_. False)" using assms(3) by (simp add: kept_by_def fun_eq_iff)
  obtain t where t: "free_pram_mem_blocks p msg s = Inr t" "ws_world (L(p := [])) t"
    "only_ws p (set (L p)) s t" "\<forall>a \<in> set (L p). pmb_free t a"
    using free_pram_mem_blocks_ok [OF assms(1,2), of msg] unfolding k by auto
  moreover have "ws_list p t []" using ws_world_list [OF t(2), of p] by simp
  ultimately show ?thesis using only_ws_sel(3) [OF t(3)] by (auto simp: ws_list_def only_ws_def)
qed

theorem free_pram_mem_blocks_empties_witness:
  "\<exists>t. free_pram_mem_blocks 1 1 one_block = Inr t \<and> p_lus1_us2 (procs t 1) = None \<and> pmb_free t 0"
  using free_pram_mem_blocks_empties [OF one_block_world, of 1 1]
  by (auto simp: pd_readable_def one_block_def free_table_def bss_state_def)

text \<open>The table has no overflow check: with no free slot \<open>get_pmb\<close> does not panic but hands out
  the last slot of the table, which may be in use by any process, and wipes it.\<close>

theorem get_pmb_full_steals:
  assumes "\<And>i. i < WORKING_SET_SIZE \<Longrightarrow> \<not> pmb_free s i"
  shows "get_pmb s = Inr (WORKING_SET_SIZE - 1, upd_pmb (WORKING_SET_SIZE - 1) reset_pmb s)"
  using first_free_full [of WORKING_SET_SIZE "pmb_free s"] assms by (simp add: get_pmb_def)

theorem get_pmb_full_steals_witness:
  "get_pmb bss_state = Inr (WORKING_SET_SIZE - 1, upd_pmb (WORKING_SET_SIZE - 1) reset_pmb bss_state)"
  using get_pmb_full_steals [of bss_state] by (simp add: pmb_free_def bss_state_def zero_pmb_def has_def)

end
