(* ===== verification/Mem_Events.thy ===== *)
theory Mem_Events
  imports Us0_Update
begin

text \<open>
  \<open>kernel/arch/i386/sch.c\<close>: the list of memory events of a process. An event
  records a range of the process's memory the kernel wrote between two processing
  elements; before the next first run every event is replayed into \<open>us1\<close> and
  \<open>us2\<close> and the list is emptied.
\<close>

section \<open>Definitions\<close>

definition hme_nx :: "kstate \<Rightarrow> nat \<Rightarrow> nat option" where
  "hme_nx s a = next_hme (hardening_mem_events s a)"

definition hme_free :: "kstate \<Rightarrow> nat \<Rightarrow> bool" where
  "hme_free s a \<longleftrightarrow> has (hme_flags (hardening_mem_events s a)) HME_SLOT_FREE"

definition reset_hme :: "hardening_mem_event \<Rightarrow> hardening_mem_event" where
  "reset_hme e = e\<lparr>hme_flags := clrf (hme_flags e) HME_SLOT_FREE, next_hme := None,
     addr_base := MAP_NONE, hme_nbytes := 0\<rparr>"

definition get_hme :: "kstate \<Rightarrow> stop + (nat \<times> kstate)" where
  "get_hme s =
     (case first_free (hme_free s) HARDENING_MEM_EVENTS of
        None \<Rightarrow> Inl (Panic ''ALERT BLOCK LIST EVENTS IS FULL STOP STOP'')
      | Some i \<Rightarrow> Inr (i, upd_hme i reset_hme s))"

definition hme_at :: "u32 \<Rightarrow> kstate \<Rightarrow> nat \<Rightarrow> bool" where
  "hme_at offset s a \<longleftrightarrow>
     I386_VM_PTE (addr_base (hardening_mem_events s a)) = I386_VM_PTE offset \<and>
     I386_VM_PDE (addr_base (hardening_mem_events s a)) = I386_VM_PDE offset"

definition look_up_hme :: "int \<Rightarrow> u32 \<Rightarrow> kstate \<Rightarrow> stop + nat option" where
  "look_up_hme rp offset s =
     (if p_nb_hardening_mem_events (procs s rp) \<le> 0 then Inr None
      else find_chain hme_nx (hme_at offset) (p_hardening_mem_events (procs s rp)) s)"

definition set_range :: "u32 \<Rightarrow> u32 \<Rightarrow> int \<Rightarrow> hardening_mem_event \<Rightarrow> hardening_mem_event" where
  "set_range offset sz n e = e\<lparr>addr_base := offset, hme_nbytes := sz, npages := n\<rparr>"

text \<open>Insert the event at the end of the process's list, number it and count it.\<close>

definition link_hme :: "int \<Rightarrow> nat \<Rightarrow> kstate \<Rightarrow> stop + kstate" where
  "link_hme rp n s =
     bnd (if p_nb_hardening_mem_events (procs s rp) = 0
          then Inr (upd_proc rp (\<lambda>r. r\<lparr>p_hardening_mem_events := Some n\<rparr>) s)
          else bnd (tail_of (hme_nx s) (p_hardening_mem_events (procs s rp)))
                 (\<lambda>t. Inr (upd_hme n (\<lambda>e. e\<lparr>next_hme := None\<rparr>)
                            (upd_hme t (\<lambda>e. e\<lparr>next_hme := Some n\<rparr>) s))))
       (\<lambda>s. Inr (upd_proc rp (\<lambda>r. r\<lparr>p_nb_hardening_mem_events := p_nb_hardening_mem_events r + 1\<rparr>)
                  (upd_hme n (\<lambda>e. e\<lparr>hme_id := p_nb_hardening_mem_events (procs s rp)\<rparr>) s)))"

definition add_hme_event :: "int \<Rightarrow> u32 \<Rightarrow> u32 \<Rightarrow> kstate \<Rightarrow> stop + (int \<times> kstate)" where
  "add_hme_event rp offset sz s =
     (let n = n_pages_covered offset sz
      in bnd (look_up_hme rp offset s) (\<lambda>found.
           case found of
             None \<Rightarrow>
               bnd (get_hme s) (\<lambda>(a, s).
                 bnd (link_hme rp a (upd_hme a (set_range offset sz n) s))
                   (\<lambda>s. Inr (p_nb_hardening_mem_events (procs s rp), s)))
           | Some a \<Rightarrow>
               let s = (if npages (hardening_mem_events s a) < n then upd_hme a (set_range offset sz n) s else s)
               in Inr (p_nb_hardening_mem_events (procs s rp), s)))"

definition handle_hme_events :: "int \<Rightarrow> kstate \<Rightarrow> stop + (int \<times> kstate)" where
  "handle_hme_events rp s =
     (if p_nb_hardening_mem_events (procs s rp) \<le> 0 then Inr (OK, s)
      else bnd (for_chain hme_nx
                  (\<lambda>a s. bnd (update_range_ws_us1_us2_data rp (addr_base (hardening_mem_events s a))
                                (npages (hardening_mem_events s a)) s)
                           (\<lambda>(r, s). Inr (if r \<noteq> OK then Some EFAULT else None, s)))
                  (p_hardening_mem_events (procs s rp)) s)
        (\<lambda>(r, s). Inr (case r of Some e \<Rightarrow> e | None \<Rightarrow> OK, s)))"

definition clear_hme :: "hardening_mem_event \<Rightarrow> hardening_mem_event" where
  "clear_hme e = e\<lparr>hme_flags := HME_SLOT_FREE, hme_id := 0, addr_base := 0, hme_nbytes := 0, npages := 0\<rparr>"

definition unlink_hme :: "int \<Rightarrow> nat option \<Rightarrow> nat \<Rightarrow> kstate \<Rightarrow> kstate" where
  "unlink_hme rp prev a s =
     (let s = upd_proc rp (\<lambda>r. r\<lparr>p_nb_hardening_mem_events := p_nb_hardening_mem_events r - 1\<rparr>)
                (upd_hme a clear_hme s)
      in case prev of
           Some b \<Rightarrow> upd_hme b (\<lambda>c. c\<lparr>next_hme := hme_nx s a\<rparr>) s
         | None \<Rightarrow> upd_proc rp (\<lambda>r. r\<lparr>p_hardening_mem_events := hme_nx s a\<rparr>) s)"

definition free_hardening_mem_event :: "int \<Rightarrow> int \<Rightarrow> kstate \<Rightarrow> stop + (int \<times> kstate)" where
  "free_hardening_mem_event rp i s =
     (if p_nb_hardening_mem_events (procs s rp) \<le> 0 then Inr (0, s)
      else bnd (search_prev (hme_nx s) (\<lambda>a. hme_id (hardening_mem_events s a) = i)
                  (p_hardening_mem_events (procs s rp)))
        (\<lambda>found. let s = (case found of None \<Rightarrow> s | Some (prev, a) \<Rightarrow> unlink_hme rp prev a s)
                 in Inr (p_nb_hardening_mem_events (procs s rp), s)))"

text \<open>The comparison of the remaining count with \<open>lsize\<close> only decides a message.\<close>

definition free_hardening_mem_events :: "int \<Rightarrow> kstate \<Rightarrow> stop + kstate" where
  "free_hardening_mem_events rp s =
     (if p_nb_hardening_mem_events (procs s rp) \<le> 0 then Inr s
      else bnd (for_chain hme_nx
                  (\<lambda>a s. bnd (free_hardening_mem_event rp (hme_id (hardening_mem_events s a)) s)
                           (\<lambda>(_, s). Inr (None :: unit option, s)))
                  (p_hardening_mem_events (procs s rp)) s)
        (\<lambda>(_, s). bnd (kassert (p_nb_hardening_mem_events (procs s rp) = 0) ''p_nb_hardening_mem_events == 0'' s)
                    (kassert (p_hardening_mem_events (procs s rp) = None) ''p_hardening_mem_events == NULL'')))"

end
