(* ===== verification/Shared_Mem.thy ===== *)
theory Shared_Mem
  imports Mem_Events
begin

text \<open>
  \<open>kernel/arch/i386/smh.c\<close>: shared memory regions of hardened processes. Every
  process has a list of regions, every region a list of the processes that share it, and
  two global lists \<open>all_hsr_s\<close> and \<open>all_hsp_s\<close> hold all of them. Both kinds of
  list go through the same link field of the table entry, as in the source.
\<close>

section \<open>Table access\<close>

definition hsr_nx :: "kstate \<Rightarrow> nat \<Rightarrow> nat option" where
  "hsr_nx s a = next_hsr (hardening_shared_regions s a)"

definition hsp_nx :: "kstate \<Rightarrow> nat \<Rightarrow> nat option" where
  "hsp_nx s a = next_hsp (hardening_shared_procs s a)"

definition hsr_free :: "kstate \<Rightarrow> nat \<Rightarrow> bool" where
  "hsr_free s a \<longleftrightarrow> has (hsr_flags (hardening_shared_regions s a)) HSR_SLOT_FREE"

definition hsp_free :: "kstate \<Rightarrow> nat \<Rightarrow> bool" where
  "hsp_free s a \<longleftrightarrow> has (hsp_flags (hardening_shared_procs s a)) HSP_SLOT_FREE"

definition reset_hsr :: "hardening_shared_region \<Rightarrow> hardening_shared_region" where
  "reset_hsr r = r\<lparr>hsr_flags := clrf (hsr_flags r) HSR_SLOT_FREE, next_hsr := None,
     hsr_vaddr := 0, hsr_length := 0, r_hsp := None\<rparr>"

definition get_hsr :: "kstate \<Rightarrow> stop + (nat \<times> kstate)" where
  "get_hsr s =
     (case first_free (hsr_free s) HARDENING_SHARED_REGIONS of
        None \<Rightarrow> Inl (Panic ''ALERT HARDENING_SHARED_REGIONS IS FULL STOP STOP'')
      | Some i \<Rightarrow> Inr (i, upd_hsr i reset_hsr s))"

definition reset_hsp :: "hardening_shared_proc \<Rightarrow> hardening_shared_proc" where
  "reset_hsp h = h\<lparr>hsp_flags := clrf (hsp_flags h) HSP_SLOT_FREE, next_hsp := None, hsp_endpoint := 0\<rparr>"

definition get_hsp :: "kstate \<Rightarrow> stop + (nat \<times> kstate)" where
  "get_hsp s =
     (case first_free (hsp_free s) HARDENING_SHARED_PROCS of
        None \<Rightarrow> Inl (Panic ''ALERT HARDENING_SHARED_REGIONS IS FULL STOP STOP'')
      | Some i \<Rightarrow> Inr (i, upd_hsp i reset_hsp s))"

section \<open>Searches\<close>

definition look_up_hsr :: "int \<Rightarrow> u32 \<Rightarrow> u32 \<Rightarrow> int \<Rightarrow> kstate \<Rightarrow> stop + nat option" where
  "look_up_hsr rp offset len rid s =
     (if p_nb_hardening_shared_regions (procs s rp) \<le> 0 then Inr None
      else find_chain hsr_nx
        (\<lambda>s a. let h = hardening_shared_regions s a
               in hsr_vaddr h = offset \<and> hsr_length h = len \<and> r_id h = rid)
        (p_hardening_shared_regions (procs s rp)) s)"

definition look_up_hsp :: "int \<Rightarrow> nat \<Rightarrow> kstate \<Rightarrow> stop + nat option" where
  "look_up_hsp rp hsr s =
     (if n_hsp (hardening_shared_regions s hsr) \<le> 0 then Inr None
      else find_chain hsp_nx
        (\<lambda>s a. hsp_endpoint (hardening_shared_procs s a) = p_endpoint (procs s rp))
        (r_hsp (hardening_shared_regions s hsr)) s)"

definition look_up_unique_hsp :: "int \<Rightarrow> kstate \<Rightarrow> stop + nat option" where
  "look_up_unique_hsp rp s =
     (if n_hsps s \<le> 0 then Inr None
      else find_chain hsp_nx
        (\<lambda>s a. hsp_endpoint (hardening_shared_procs s a) = p_endpoint (procs s rp)) (all_hsp_s s) s)"

definition look_up_unique_hsr :: "int \<Rightarrow> kstate \<Rightarrow> stop + nat option" where
  "look_up_unique_hsr rid s =
     (if n_hsrs s \<le> 0 then Inr None
      else find_chain hsr_nx (\<lambda>s a. r_id (hardening_shared_regions s a) = rid) (all_hsr_s s) s)"

definition look_up_page_in_hsr :: "int \<Rightarrow> u32 \<Rightarrow> kstate \<Rightarrow> stop + int" where
  "look_up_page_in_hsr rp vaddr s =
     (if p_nb_hardening_shared_regions (procs s rp) \<le> 0 then Inr VM_VADDR_NOT_FOUND
      else if \<not> has (p_hflags (procs s rp)) PROC_SHARING_MEM then Inr PROC_NOT_SHARING
      else bnd (find_chain hsr_nx
                  (\<lambda>s a. let h = hardening_shared_regions s a
                         in hsr_vaddr h \<le> vaddr \<and> vaddr \<le> hsr_vaddr h + hsr_length h)
                  (p_hardening_shared_regions (procs s rp)) s)
             (\<lambda>r. Inr (case r of None \<Rightarrow> VM_VADDR_NOT_FOUND | Some _ \<Rightarrow> OK)))"

definition look_up_hsr_vaddr :: "int \<Rightarrow> u32 \<Rightarrow> u32 \<Rightarrow> kstate \<Rightarrow> stop + nat option" where
  "look_up_hsr_vaddr rp vaddr sz s =
     (if p_nb_hardening_shared_regions (procs s rp) \<le> 0 then Inr None
      else find_chain hsr_nx
        (\<lambda>s a. let h = hardening_shared_regions s a
               in hsr_vaddr h \<le> vaddr + sz \<and> vaddr + sz \<le> hsr_vaddr h + hsr_length h)
        (p_hardening_shared_regions (procs s rp)) s)"

section \<open>Insertion\<close>

definition add_all_hsr_s :: "nat \<Rightarrow> kstate \<Rightarrow> stop + kstate" where
  "add_all_hsr_s hsr s =
     (if all_hsr_s s = None then Inr (s\<lparr>all_hsr_s := Some hsr, n_hsrs := n_hsrs s + 1\<rparr>)
      else bnd (tail_of (hsr_nx s) (all_hsr_s s)) (\<lambda>t.
             let s = upd_hsr hsr (\<lambda>r. r\<lparr>next_hsr := None\<rparr>) (upd_hsr t (\<lambda>r. r\<lparr>next_hsr := Some hsr\<rparr>) s)
             in Inr (s\<lparr>n_hsrs := n_hsrs s + 1\<rparr>)))"

definition add_all_hsp_s :: "nat \<Rightarrow> kstate \<Rightarrow> stop + kstate" where
  "add_all_hsp_s hsp s =
     (if all_hsp_s s = None then Inr (s\<lparr>all_hsp_s := Some hsp, n_hsps := n_hsps s + 1\<rparr>)
      else bnd (tail_of (hsp_nx s) (all_hsp_s s)) (\<lambda>t.
             let s = upd_hsp hsp (\<lambda>r. r\<lparr>next_hsp := None\<rparr>) (upd_hsp t (\<lambda>r. r\<lparr>next_hsp := Some hsp\<rparr>) s)
             in Inr (s\<lparr>n_hsps := n_hsps s + 1\<rparr>)))"

text \<open>The process entry \<open>add_hsp\<close> works on: the one already known, or a new one.\<close>

definition find_or_new_hsp :: "int \<Rightarrow> nat \<Rightarrow> kstate \<Rightarrow> stop + (nat \<times> kstate)" where
  "find_or_new_hsp rp hsr s =
     bnd (look_up_unique_hsp rp s) (\<lambda>found. case found of
         Some a \<Rightarrow> Inr (a, s)
       | None \<Rightarrow>
           bnd (get_hsp s) (\<lambda>(a, s).
             bnd (add_all_hsp_s a
                    (upd_hsp a (\<lambda>h. h\<lparr>hsp_endpoint := p_endpoint (procs s rp),
                                       hsp_id := n_hsp (hardening_shared_regions s hsr)\<rparr>) s))
               (\<lambda>s. Inr (a, s))))"

definition add_hsp :: "int \<Rightarrow> nat \<Rightarrow> kstate \<Rightarrow> stop + (int \<times> kstate)" where
  "add_hsp rp hsr s =
     bnd (look_up_hsp rp hsr s) (\<lambda>found. case found of
         Some _ \<Rightarrow> Inr (n_hsp (hardening_shared_regions s hsr), s)
       | None \<Rightarrow>
           bnd (find_or_new_hsp rp hsr s) (\<lambda>(a, s).
             bnd (if n_hsp (hardening_shared_regions s hsr) = 0
                  then Inr (upd_hsr hsr (\<lambda>r. r\<lparr>r_hsp := Some a\<rparr>) s)
                  else bnd (tail_of (hsp_nx s) (r_hsp (hardening_shared_regions s hsr))) (\<lambda>t.
                         Inr (upd_hsp a (\<lambda>h. h\<lparr>next_hsp := None\<rparr>)
                               (upd_hsp t (\<lambda>h. h\<lparr>next_hsp := Some a\<rparr>) s))))
               (\<lambda>s. let s = upd_hsr hsr (\<lambda>r. r\<lparr>n_hsp := n_hsp r + 1\<rparr>) s
                    in Inr (n_hsp (hardening_shared_regions s hsr), s))))"

text \<open>The region entry \<open>add_hsr\<close> works on.\<close>

definition find_or_new_hsr :: "int \<Rightarrow> u32 \<Rightarrow> u32 \<Rightarrow> int \<Rightarrow> kstate \<Rightarrow> stop + (nat \<times> kstate)" where
  "find_or_new_hsr rp offset sz rid s =
     bnd (look_up_unique_hsr rid s) (\<lambda>found. case found of
         Some a \<Rightarrow> Inr (a, s)
       | None \<Rightarrow>
           bnd (get_hsr s) (\<lambda>(a, s).
             bnd (add_all_hsr_s a
                    (upd_hsr a (\<lambda>h. h\<lparr>hsr_vaddr := offset, hsr_length := sz, r_id := rid,
                        hsr_id := p_nb_hardening_shared_regions (procs s rp)\<rparr>) s))
               (\<lambda>s. Inr (a, s))))"

definition add_hsr :: "int \<Rightarrow> u32 \<Rightarrow> u32 \<Rightarrow> int \<Rightarrow> kstate \<Rightarrow> stop + (int \<times> kstate)" where
  "add_hsr rp offset sz rid s =
     bnd (look_up_hsr rp offset sz rid s) (\<lambda>found. case found of
         Some _ \<Rightarrow> Inr (p_nb_hardening_shared_regions (procs s rp), s)
       | None \<Rightarrow>
           bnd (find_or_new_hsr rp offset sz rid s) (\<lambda>(a, s).
             bnd (if p_nb_hardening_shared_regions (procs s rp) = 0
                  then Inr (upd_proc rp (\<lambda>r. r\<lparr>p_hardening_shared_regions := Some a\<rparr>) s)
                  else bnd (tail_of (hsr_nx s) (p_hardening_shared_regions (procs s rp))) (\<lambda>t.
                         Inr (upd_hsr a (\<lambda>r. r\<lparr>next_hsr := None\<rparr>)
                               (upd_hsr t (\<lambda>r. r\<lparr>next_hsr := Some a\<rparr>) s))))
               (\<lambda>s. bnd (add_hsp rp a s) (\<lambda>(_, s).
                  let s = upd_proc rp (\<lambda>r. r\<lparr>p_nb_hardening_shared_regions := p_nb_hardening_shared_regions r + 1\<rparr>) s
                  in Inr (p_nb_hardening_shared_regions (procs s rp), s)))))"

section \<open>Removal\<close>

definition free_hsp_from_hsr :: "int \<Rightarrow> nat \<Rightarrow> kstate \<Rightarrow> stop + kstate" where
  "free_hsp_from_hsr rp hsr s =
     bnd (search_prev (hsp_nx s)
            (\<lambda>a. hsp_endpoint (hardening_shared_procs s a) = p_endpoint (procs s rp))
            (r_hsp (hardening_shared_regions s hsr)))
       (\<lambda>found. Inr (case found of
            None \<Rightarrow> s
          | Some (prev, a) \<Rightarrow>
              let s = upd_hsr hsr (\<lambda>r. r\<lparr>n_hsp := n_hsp r - 1\<rparr>) s
              in (case prev of
                    Some b \<Rightarrow> upd_hsp b (\<lambda>h. h\<lparr>next_hsp := hsp_nx s a\<rparr>) s
                  | None \<Rightarrow> upd_hsr hsr (\<lambda>r. r\<lparr>r_hsp := hsp_nx s a\<rparr>) s)))"

definition free_hsr_from_all_hsr_s :: "nat \<Rightarrow> kstate \<Rightarrow> stop + kstate" where
  "free_hsr_from_all_hsr_s phsr s =
     bnd (search_prev (hsr_nx s)
            (\<lambda>a. r_id (hardening_shared_regions s a) = r_id (hardening_shared_regions s phsr)) (all_hsr_s s))
       (\<lambda>found. Inr (case found of
            None \<Rightarrow> s
          | Some (prev, a) \<Rightarrow>
              let s = s\<lparr>n_hsrs := n_hsrs s - 1\<rparr>
              in (case prev of
                    Some b \<Rightarrow> upd_hsr b (\<lambda>h. h\<lparr>next_hsr := hsr_nx s a\<rparr>) s
                  | None \<Rightarrow> s\<lparr>all_hsr_s := hsr_nx s a\<rparr>)))"

definition free_hsp_from_all_hsp_s :: "int \<Rightarrow> kstate \<Rightarrow> stop + kstate" where
  "free_hsp_from_all_hsp_s rp s =
     bnd (search_prev (hsp_nx s)
            (\<lambda>a. hsp_endpoint (hardening_shared_procs s a) = p_endpoint (procs s rp)) (all_hsp_s s))
       (\<lambda>found. Inr (case found of
            None \<Rightarrow> s
          | Some (prev, a) \<Rightarrow>
              let s = upd_hsp a (\<lambda>h. h\<lparr>hsp_endpoint := 0, hsp_flags := HSP_SLOT_FREE, hsp_id := 0\<rparr>)
                        (s\<lparr>n_hsps := n_hsps s - 1\<rparr>)
              in (case prev of
                    Some b \<Rightarrow> upd_hsp b (\<lambda>h. h\<lparr>next_hsp := hsp_nx s a\<rparr>) s
                  | None \<Rightarrow> s\<lparr>all_hsp_s := hsp_nx s a\<rparr>)))"

definition free_hsr :: "int \<Rightarrow> int \<Rightarrow> kstate \<Rightarrow> stop + (int \<times> kstate)" where
  "free_hsr rp i s =
     bnd (search_prev (hsr_nx s) (\<lambda>a. hsr_id (hardening_shared_regions s a) = i)
            (p_hardening_shared_regions (procs s rp)))
       (\<lambda>found. case found of
            None \<Rightarrow> Inr (p_nb_hardening_shared_regions (procs s rp), s)
          | Some (prev, a) \<Rightarrow>
              bnd (free_hsp_from_hsr rp a s) (\<lambda>s.
              bnd (if r_hsp (hardening_shared_regions s a) = None
                   then free_hsr_from_all_hsr_s a
                          (upd_hsr a (\<lambda>r. r\<lparr>hsr_flags := HSR_SLOT_FREE, hsr_id := 0, hsr_vaddr := 0, hsr_length := 0\<rparr>) s)
                   else Inr s) (\<lambda>s.
                let s = upd_proc rp (\<lambda>r. r\<lparr>p_nb_hardening_shared_regions := p_nb_hardening_shared_regions r - 1\<rparr>) s;
                    s = (case prev of
                           Some b \<Rightarrow> upd_hsr b (\<lambda>h. h\<lparr>next_hsr := hsr_nx s a\<rparr>) s
                         | None \<Rightarrow> upd_proc rp (\<lambda>r. r\<lparr>p_hardening_shared_regions := hsr_nx s a\<rparr>) s)
                in Inr (p_nb_hardening_shared_regions (procs s rp), s))))"

definition free_hsrs :: "int \<Rightarrow> kstate \<Rightarrow> stop + kstate" where
  "free_hsrs rp s =
     (if p_nb_hardening_shared_regions (procs s rp) \<le> 0 then Inr s
      else bnd (for_chain hsr_nx
                  (\<lambda>a s. bnd (free_hsr rp (hsr_id (hardening_shared_regions s a)) s)
                           (\<lambda>(_, s). Inr (None :: unit option, s)))
                  (p_hardening_shared_regions (procs s rp)) s)
        (\<lambda>(_, s). bnd (kassert (p_nb_hardening_shared_regions (procs s rp) = 0) ''p_nb_hardening_shared_regions == 0'' s) (\<lambda>s.
           bnd (kassert (p_hardening_shared_regions (procs s rp) = None) ''p_hardening_shared_regions == NULL'' s)
             (free_hsp_from_all_hsp_s rp))))"

section \<open>Propagation of a committed shared page\<close>

text \<open>
  For every process of the region the page belongs to an event is added; the event goes
  to \<open>rp\<close> itself each time. The region is used without a test for null.
\<close>

definition enable_hme_event_in_procs :: "int \<Rightarrow> u32 \<Rightarrow> u32 \<Rightarrow> kstate \<Rightarrow> stop + kstate" where
  "enable_hme_event_in_procs rp vaddr sz s =
     (if p_nb_hardening_shared_regions (procs s rp) \<le> 0 then Inr s
      else bnd (look_up_hsr_vaddr rp vaddr sz s) (\<lambda>found. case found of
          None \<Rightarrow> Inl NullDeref
        | Some h \<Rightarrow>
            bnd (for_chain hsp_nx
                   (\<lambda>a s. bnd (add_hme_event rp vaddr sz s) (\<lambda>(_, s). Inr (None :: unit option, s)))
                   (r_hsp (hardening_shared_regions s h)) s)
              (\<lambda>(_, s). Inr s)))"

end
