(* ===== verification/Pram_Cow.thy ===== *)
theory Pram_Cow
  imports Shared_Mem
begin

text \<open>
  The copy-on-write layer of \<open>kernel/arch/i386/pram.c\<close>: every page of a hardened
  process has three frames, \<open>us0\<close> (the committed state), \<open>us1\<close> (first run) and
  \<open>us2\<close> (second run). \<open>set_pe_mem_to_ro\<close> maps the run's frame before a run,
  \<open>check_vaddr_2\<close> handles the write fault on such a page, and \<open>vm_reset_pram\<close>
  ends a run: it records the pages of the first run, commits the second run to
  \<open>us0\<close>, or rolls both copies back to \<open>us0\<close>. The lemmas state what each of these
  does to the frames, the page table and the block.
\<close>

section \<open>Page table entries\<close>

definition check_pt_entry :: "u32 \<Rightarrow> int" where
  "check_pt_entry pte_v =
     (if \<not> has pte_v I386_VM_PRESENT then VM_HANDLED_NO_PRESENT
      else if \<not> has pte_v I386_VM_USER then VM_HANDLED_NO_ACESS
      else if has pte_v I386_VM_GLOBAL then VM_HANDLED_GLOBAL
      else if has pte_v I386_VM_BIGPAGE then VM_HANDLED_BIG
      else if \<not> has pte_v I386_VM_WRITE then VM_HANDLED_NO_ACESS
      else OK)"

text \<open>\<open>(pte_v & I386_VM_ADDR_MASK_INV) | frame\<close> and the same with the write bit.\<close>

definition map_frame :: "u32 \<Rightarrow> u32 \<Rightarrow> u32" where
  "map_frame pte_v f = (pte_v AND I386_VM_ADDR_MASK_INV) OR f"

definition map_frame_w :: "u32 \<Rightarrow> u32 \<Rightarrow> u32" where
  "map_frame_w pte_v f = (pte_v AND I386_VM_ADDR_MASK_INV) OR I386_VM_WRITE OR f"

text \<open>The walk \<open>root + pde\<close>, \<open>pte_a + pte\<close>: the address of the page table entry and its value.\<close>

definition read_pte :: "u32 \<Rightarrow> u32 \<Rightarrow> kstate \<Rightarrow> stop + (u32 \<times> u32)" where
  "read_pte root vaddr s =
     bnd (phys_get32 (entry_addr root (I386_VM_PDE vaddr)) s) (\<lambda>pde_v.
       let pa = entry_addr (I386_VM_PFA pde_v) (I386_VM_PTE vaddr)
       in bnd (phys_get32 pa s) (\<lambda>pte_v. Inr (pa, pte_v)))"

text \<open>\<open>pmb->flags |= m\<close> and \<open>pmb->flags &= ~m\<close>.\<close>

definition pmb_set :: "nat \<Rightarrow> u32 \<Rightarrow> kstate \<Rightarrow> kstate" where
  "pmb_set a m = upd_pmb a (\<lambda>b. b\<lparr>pmb_flags := setf (pmb_flags b) m\<rparr>)"

definition pmb_clr :: "nat \<Rightarrow> u32 \<Rightarrow> kstate \<Rightarrow> kstate" where
  "pmb_clr a m = upd_pmb a (\<lambda>b. b\<lparr>pmb_flags := clrf (pmb_flags b) m\<rparr>)"

definition pmb_is :: "nat \<Rightarrow> u32 \<Rightarrow> kstate \<Rightarrow> bool" where
  "pmb_is a m s \<longleftrightarrow> has (pmb_flags (working_set s a)) m"

section \<open>The page fault check\<close>

text \<open>Every return of \<open>check_vaddr_2\<close> reads the counter and accounts the cycles.\<close>

definition cv2_return :: "int \<Rightarrow> u64 \<Rightarrow> int \<Rightarrow> int \<Rightarrow> kstate \<Rightarrow> stop + ((int \<times> int) \<times> kstate)" where
  "cv2_return p start r rw s =
     (case read_tsc_64 s of (e, s) \<Rightarrow>
        Inr ((r, rw), upd_proc p (\<lambda>q. q\<lparr>p_check_vaddr_2_acc := acc_add start e s (p_check_vaddr_2_acc q)\<rparr>) s))"

text \<open>
  Both copies exist: in a run the page is mapped writable to the run's copy and the
  block remembers the fault; a page labelled by fork is left to VM. The result of
  \<open>phys_set32\<close> is not tested.
\<close>

definition cv2_kernel :: "int \<Rightarrow> u64 \<Rightarrow> nat \<Rightarrow> u32 \<Rightarrow> u32 \<Rightarrow> int \<Rightarrow> kstate \<Rightarrow> stop + ((int \<times> int) \<times> kstate)" where
  "cv2_kernel p start a pa pte_v rw s =
     (let b = working_set s a
      in if (h_step s = FIRST_RUN \<or> h_step s = SECOND_RUN) \<and> pmb_is a H_FORK s
         then cv2_return p start VM_HANDLED_PF_ABS_WS rw s
         else
           let (pte_v, s) =
                 (if h_step s = FIRST_RUN then (map_frame_w pte_v (us1 b), pmb_set a IWS_PF_FIRST s)
                  else if h_step s = SECOND_RUN then (map_frame_w pte_v (us2 b), pmb_set a IWS_PF_SECOND s)
                  else (pte_v, s));
               s = snd (phys_set32 pa pte_v s);
               s = pmb_set a HGET_PF s
           in cv2_return p start OK K_HANDLE_PF s)"

text \<open>A copy is missing: VM is asked for the frame. The page must be in the list once.\<close>

definition cv2_vm :: "int \<Rightarrow> u64 \<Rightarrow> nat \<Rightarrow> u32 \<Rightarrow> int \<Rightarrow> kstate \<Rightarrow> stop + ((int \<times> int) \<times> kstate)" where
  "cv2_vm p start a vaddr rw s =
     (let (rw, s) =
            (if h_step s = FIRST_RUN then (RO_PAGE_FIRST_RUN, pmb_set a IWS_PF_FIRST s)
             else if h_step s = SECOND_RUN then (RO_PAGE_SECOND_RUN, pmb_set a IWS_PF_SECOND s)
             else (rw, s));
          s = pmb_set a HGET_PF (pmb_set a PRAM_LAST_PF s)
      in bnd (look_up_unique_pte p (I386_VM_PDE vaddr) (I386_VM_PTE vaddr) s) (\<lambda>n.
         bnd (kassert (case n of Some k \<Rightarrow> k \<le> 1 | None \<Rightarrow> False) ''nblocks <= 1'' s)
             (cv2_return p start OK rw)))"

definition cv2_page :: "int \<Rightarrow> u64 \<Rightarrow> u32 \<Rightarrow> u32 \<Rightarrow> int \<Rightarrow> kstate \<Rightarrow> stop + ((int \<times> int) \<times> kstate)" where
  "cv2_page p start pde_v vaddr rw s =
     (let pa = entry_addr (I386_VM_PFA pde_v) (I386_VM_PTE vaddr)
      in bnd (phys_get32 pa s) (\<lambda>pte_v.
         if \<not> has pte_v I386_VM_PRESENT then cv2_return p start VM_HANDLED_NO_PRESENT rw s
         else bnd (look_up_pte p (I386_VM_PDE vaddr) (I386_VM_PTE vaddr) s) (\<lambda>found.
           case found of
             None \<Rightarrow> cv2_return p start VM_HANDLED_PF_ABS_WS rw s
           | Some a \<Rightarrow>
               if us1 (working_set s a) \<noteq> MAP_NONE \<and> us2 (working_set s a) \<noteq> MAP_NONE
               then cv2_kernel p start a pa pte_v rw s
               else cv2_vm p start a vaddr rw s)))"

definition check_vaddr_2 :: "int \<Rightarrow> u32 \<Rightarrow> u32 \<Rightarrow> int \<Rightarrow> kstate \<Rightarrow> stop + ((int \<times> int) \<times> kstate)" where
  "check_vaddr_2 p root vaddr rw s =
     (case read_tsc_64 s of (start, s) \<Rightarrow>
        bnd (kassert (h_step s = FIRST_RUN \<or> h_step s = SECOND_RUN \<or> h_step s = FIRST_STEPPING)
               ''h_step == FIRST_RUN || SECOND_RUN || FIRST_STEPPING'' s) (\<lambda>s.
          let s = (if h_step s = FIRST_RUN then s\<lparr>pagefault_addr_1 := vaddr\<rparr> else s);
              s = (if h_step s = SECOND_RUN then s\<lparr>pagefault_addr_2 := vaddr\<rparr> else s)
          in bnd (phys_get32 (entry_addr root (I386_VM_PDE vaddr)) s) (\<lambda>pde_v.
               if check_pt_entry pde_v \<noteq> OK then cv2_return p start VM_HANDLED_NO_ACESS rw s
               else cv2_page p start pde_v vaddr rw s)))"

section \<open>The end of a run\<close>

text \<open>
  The body of the rollback (the cases \<open>ABORT_PE\<close> and \<open>CMP_FAILED\<close>, which are the
  same code): forget the run, copy \<open>us0\<close> over the copies that exist and map
  \<open>us0\<close> writable.
\<close>

definition reset_rollback :: "nat \<Rightarrow> u32 \<Rightarrow> u32 \<Rightarrow> kstate \<Rightarrow> stop + kstate" where
  "reset_rollback a pa pte_v s =
     (let s = pmb_clr a IWS_MOD_KERNEL (pmb_clr a HGET_PF (pmb_clr a IWS_PF_FIRST (pmb_clr a IWS_PF_SECOND s)));
          b = working_set s a
      in if (us1 b \<noteq> MAP_NONE \<or> us2 b \<noteq> MAP_NONE) \<and> us0 b \<noteq> MAP_NONE
         then bnd (if us1 b \<noteq> MAP_NONE
                   then cpy_or_panic (us0 b) (us1 b) ''Copy second_phys to us0 failed'' s else Inr s) (\<lambda>s.
              bnd (if us2 b \<noteq> MAP_NONE
                   then cpy_or_panic (us0 b) (us2 b) ''Copy second_phys to us0 failed'' s else Inr s)
                  (set32_or_panic pa (map_frame_w pte_v (us0 b))
                     ''Updating page table from second_phy to us0 failed''))
         else Inr s)"

text \<open>End of the first run (\<open>CPY_RAM_FIRST\<close>): a page the run touched goes into the final working set.\<close>

definition reset_first :: "nat \<Rightarrow> u32 \<Rightarrow> u32 \<Rightarrow> kstate \<Rightarrow> stop + kstate" where
  "reset_first a pa pte_v s =
     (let b = working_set s a
      in if us1 b \<noteq> MAP_NONE \<and> us0 b \<noteq> MAP_NONE \<and> (pmb_is a HGET_PF s \<or> has pte_v I386_VM_DIRTY)
         then let s = (if pmb_is a IWS_MOD_KERNEL s \<and> has pte_v I386_VM_DIRTY then pmb_set a IWS_PF_FIRST s else s)
              in bnd (set32_or_panic pa (clrf pte_v I386_VM_DIRTY)
                        ''Updating page table from second_phy to us0 failed'' s)
                   (\<lambda>s. Inr (pmb_set a FWS (pmb_clr a HGET_PF s)))
         else Inr s)"

text \<open>
  Commit (\<open>CPY_RAM_PRAM\<close>): a page the second run touched is copied from \<open>us2\<close> to
  \<open>us0\<close>; every page is mapped writable to \<open>us0\<close>.
\<close>

definition commit_frame :: "int \<Rightarrow> nat \<Rightarrow> u32 \<Rightarrow> kstate \<Rightarrow> stop + (u32 \<times> kstate)" where
  "commit_frame p a pte_v s =
     (let b = working_set s a
      in if us2 b \<noteq> MAP_NONE \<and> us0 b \<noteq> MAP_NONE \<and> (pmb_is a HGET_PF s \<or> has pte_v I386_VM_DIRTY)
         then let s = (if pmb_is a IWS_MOD_KERNEL s \<and> has pte_v I386_VM_DIRTY then pmb_set a IWS_PF_SECOND s else s)
              in bnd (cpy_or_panic (us2 b) (us0 b) ''Copy second_phys to us0 failed'' s) (\<lambda>s.
                 bnd (if pmb_is a WS_SHARED s then enable_hme_event_in_procs p (pmb_vaddr b) I386_PAGE_SIZE s else Inr s)
                   (\<lambda>s. Inr (clrf pte_v I386_VM_DIRTY, pmb_clr a HGET_PF s)))
         else Inr (pte_v, s))"

definition reset_commit :: "int \<Rightarrow> nat \<Rightarrow> u32 \<Rightarrow> u32 \<Rightarrow> kstate \<Rightarrow> stop + kstate" where
  "reset_commit p a pa pte_v s =
     bnd (commit_frame p a pte_v s) (\<lambda>(pte_v, s).
     bnd (set32_or_panic pa (map_frame_w pte_v (us0 (working_set s a)))
            ''Updating page table from second_phy to us0 failed'' s) (\<lambda>s.
       Inr (if pmb_is a IWS_MOD_KERNEL s then pmb_clr a IWS_MOD_KERNEL s else s)))"

text \<open>Back to the frames of the first run, to single-step it (\<open>CPY_RAM_FIRST_STEPPING\<close>).\<close>

definition reset_stepping :: "nat \<Rightarrow> u32 \<Rightarrow> u32 \<Rightarrow> kstate \<Rightarrow> stop + kstate" where
  "reset_stepping a pa pte_v s =
     (let b = working_set s a
      in if us1 b \<noteq> MAP_NONE
         then set32_or_panic pa
                (if pmb_is a IWS_PF_FIRST s then map_frame_w pte_v (us1 b) else map_frame pte_v (us1 b))
                ''Updating page table from second_phy to pram_phys failed'' s
         else Inr s)"

definition vm_reset_pram_body :: "int \<Rightarrow> u32 \<Rightarrow> int \<Rightarrow> nat \<Rightarrow> kstate \<Rightarrow> stop + kstate" where
  "vm_reset_pram_body p root endcmp a s =
     bnd (read_pte root (pmb_vaddr (working_set s a)) s) (\<lambda>(pa, pte_v).
       if endcmp = ABORT_PE then reset_rollback a pa pte_v s
       else
         bnd (if h_step s = FIRST_RUN \<and> endcmp = CPY_RAM_FIRST then reset_first a pa pte_v s else Inr s) (\<lambda>s.
           if h_step s = SECOND_RUN
           then (if endcmp = CPY_RAM_PRAM then reset_commit p a pa pte_v s
                 else if endcmp = CMP_FAILED then reset_rollback a pa pte_v s
                 else if endcmp = CPY_RAM_FIRST_STEPPING then reset_stepping a pa pte_v s
                 else Inl (Panic ''Should never happen''))
           else Inr s))"

text \<open>The TLB flush that follows the loop has no effect on the modelled state.\<close>

definition vm_reset_pram :: "int \<Rightarrow> u32 \<Rightarrow> int \<Rightarrow> kstate \<Rightarrow> stop + kstate" where
  "vm_reset_pram p root endcmp s =
     (case read_tsc_64 s of (start, s) \<Rightarrow>
        bnd (kassert (p_nr (procs s p) \<noteq> VM_PROC_NR) ''p_nr != VM_PROC_NR'' s) (\<lambda>s.
          if p_lus1_us2_size (procs s p) \<le> 0 then Inr s
          else bnd (for_chain pmb_nx
                      (\<lambda>a s. bnd (vm_reset_pram_body p root endcmp a s) (\<lambda>s. Inr (None :: unit option, s)))
                      (p_lus1_us2 (procs s p)) s)
            (\<lambda>(_, s). case read_tsc_64 s of (e, s) \<Rightarrow>
               Inr (upd_proc p (\<lambda>q. q\<lparr>p_reset_pram_acc := acc_add start e s (p_reset_pram_acc q)\<rparr>) s))))"

section \<open>The start of a run\<close>

text \<open>Replay the memory events before a first run.\<close>

definition replay_events :: "int \<Rightarrow> kstate \<Rightarrow> stop + kstate" where
  "replay_events p s =
     (if h_step s = FIRST_RUN
      then bnd (handle_hme_events p s) (\<lambda>(r, s).
             if r \<noteq> OK then Inl (Panic ''vm_setpt_root_to_ro: handle_hme_events failed'')
             else free_hardening_mem_events p s)
      else Inr s)"

text \<open>\<open>(p->p_hflags & PROC_SHARING_MEM) && !(pmb->flags & WS_SHARED) && look_up_page_in_hsr() == OK\<close>.\<close>

definition label_shared :: "int \<Rightarrow> nat \<Rightarrow> kstate \<Rightarrow> stop + kstate" where
  "label_shared p a s =
     (if has (p_hflags (procs s p)) PROC_SHARING_MEM \<and> \<not> pmb_is a WS_SHARED s
      then bnd (look_up_page_in_hsr p (pmb_vaddr (working_set s a)) s)
             (\<lambda>r. Inr (if r = OK then pmb_set a WS_SHARED s else s))
      else Inr s)"

text \<open>A region added since the last run: bring both copies up to date.\<close>

definition init_copies :: "nat \<Rightarrow> u32 \<Rightarrow> kstate \<Rightarrow> stop + (u32 \<times> kstate)" where
  "init_copies a pte_v s =
     (let b = working_set s a
      in if pmb_is a H_TO_UPDATE s \<and> us1 b \<noteq> MAP_NONE \<and> us2 b \<noteq> MAP_NONE
         then bnd (cpy_or_panic (us0 b) (us1 b) ''add_region_to_ws: first_phys failed'' s) (\<lambda>s.
              bnd (cpy_or_panic (us0 b) (us2 b) ''add_region_to_ws second_phys failed'' s)
                (\<lambda>s. Inr (clrf pte_v I386_VM_DIRTY, pmb_clr a H_TO_UPDATE s)))
         else Inr (pte_v, s))"

text \<open>The entry the page gets for the run, before the last two adjustments.\<close>

definition run_pte :: "int \<Rightarrow> pram_mem_block \<Rightarrow> u32 \<Rightarrow> u32" where
  "run_pte step b pte_v =
     (let (f, pf) = (if step = FIRST_RUN then (us1 b, IWS_PF_FIRST) else (us2 b, IWS_PF_SECOND))
      in if f \<noteq> MAP_NONE
         then (if \<not> has (pmb_flags b) pf \<and> \<not> has (pmb_flags b) IWS_MOD_KERNEL
               then clrf (map_frame pte_v f) I386_VM_WRITE else map_frame pte_v f)
         else clrf pte_v I386_VM_WRITE)"

definition final_pte :: "pram_mem_block \<Rightarrow> u32 \<Rightarrow> u32" where
  "final_pte b pte_v =
     clrf (if us1 b \<noteq> MAP_NONE \<and> us2 b = MAP_NONE then map_frame pte_v (us0 b) else pte_v) I386_VM_DIRTY"

definition set_page_ro :: "int \<Rightarrow> u32 \<Rightarrow> nat \<Rightarrow> u32 \<Rightarrow> u32 \<Rightarrow> kstate \<Rightarrow> stop + kstate" where
  "set_page_ro p root a pa pte_v s =
     bnd (label_shared p a s) (\<lambda>s.
     bnd (init_copies a pte_v s) (\<lambda>(pte_v', s).
       if h_step s = FIRST_RUN \<and> I386_VM_PFA pte_v = 0
       then free_pram_mem_block p (pmb_vaddr (working_set s a)) root s
       else Inr (snd (phys_set32 pa
                   (final_pte (working_set s a) (run_pte (h_step s) (working_set s a) pte_v')) s))))"

definition set_pe_mem_to_ro_body :: "int \<Rightarrow> u32 \<Rightarrow> nat \<Rightarrow> kstate \<Rightarrow> stop + kstate" where
  "set_pe_mem_to_ro_body p root a s =
     (let vaddr = pmb_vaddr (working_set s a)
      in bnd (phys_get32 (entry_addr root (I386_VM_PDE vaddr)) s) (\<lambda>pde_v.
           if check_pt_entry pde_v \<noteq> OK then Inr s
           else let pa = entry_addr (I386_VM_PFA pde_v) (I386_VM_PTE vaddr)
                in bnd (phys_get32 pa s) (\<lambda>pte_v.
                     if check_pt_entry pte_v \<noteq> OK then Inr s else set_page_ro p root a pa pte_v s)))"

definition set_pe_mem_to_ro :: "int \<Rightarrow> u32 \<Rightarrow> kstate \<Rightarrow> stop + (int \<times> kstate)" where
  "set_pe_mem_to_ro p root s =
     (case read_tsc_64 s of (start, s) \<Rightarrow>
        if p_lus1_us2_size (procs s p) \<le> 0 then Inr (OK, s)
        else bnd (replay_events p s) (\<lambda>s.
             bnd (for_chain pmb_nx
                    (\<lambda>a s. bnd (set_pe_mem_to_ro_body p root a s) (\<lambda>s. Inr (None :: unit option, s)))
                    (p_lus1_us2 (procs s p)) s)
               (\<lambda>(_, s). case read_tsc_64 s of (e, s) \<Rightarrow>
                  Inr (OK, upd_proc p (\<lambda>q. q\<lparr>p_set_ro_acc := acc_add start e s (p_set_ro_acc q)\<rparr>) s))))"

section \<open>The walk over the whole page table\<close>

text \<open>\<open>vm_setpt_to_ro\<close> builds the list while it restricts the pages of one page table.\<close>

definition setpt_entry :: "int \<Rightarrow> pram_mem_block \<Rightarrow> u32 \<Rightarrow> u32" where
  "setpt_entry step b pte_v =
     (let (f, pf) = (if step = FIRST_RUN then (us1 b, IWS_PF_FIRST) else (us2 b, IWS_PF_SECOND));
          v = (if f \<noteq> MAP_NONE
               then let v = map_frame pte_v (if has (pmb_flags b) H_FORK then us0 b else f)
                    in if \<not> has (pmb_flags b) pf \<and> \<not> has (pmb_flags b) IWS_MOD_KERNEL
                       then clrf v I386_VM_WRITE else v
               else clrf pte_v I386_VM_WRITE)
      in final_pte b v)"

definition vm_setpt_to_ro_body :: "int \<Rightarrow> u32 \<Rightarrow> u32 \<Rightarrow> u32 \<Rightarrow> kstate \<Rightarrow> stop + kstate" where
  "vm_setpt_to_ro_body p pagetable v pte s =
     bnd (phys_get32 (entry_addr pagetable pte) s) (\<lambda>pte_v.
       if check_pt_entry pte_v \<noteq> OK then Inr s
       else let vaddr = v + pte * I386_PAGE_SIZE
            in bnd (look_up_pte p (I386_VM_PDE vaddr) (I386_VM_PTE vaddr) s) (\<lambda>found.
               bnd (case found of Some a \<Rightarrow> Inr (a, s) | None \<Rightarrow> add_pmb p (I386_VM_PFA pte_v) v pte s) (\<lambda>(a, s).
               bnd (label_shared p a s) (\<lambda>s.
                 Inr (snd (phys_set32 (entry_addr pagetable pte)
                        (setpt_entry (h_step s) (working_set s a) pte_v) s))))))"

definition vm_setpt_to_ro :: "int \<Rightarrow> u32 \<Rightarrow> u32 \<Rightarrow> kstate \<Rightarrow> stop + kstate" where
  "vm_setpt_to_ro p pagetable v s =
     bnd (kassert (pagetable mod I386_PAGE_SIZE = 0) ''pagetable % I386_PAGE_SIZE'' s) (\<lambda>s.
     bnd (kassert (p_nr (procs s p) \<noteq> VM_PROC_NR) ''p_nr != VM_PROC_NR'' s)
       (for_each (\<lambda>i. vm_setpt_to_ro_body p pagetable v (of_nat i)) [0 ..< 1024]))"

definition vm_setpt_root_to_ro :: "int \<Rightarrow> u32 \<Rightarrow> kstate \<Rightarrow> stop + kstate" where
  "vm_setpt_root_to_ro p root s =
     bnd (kassert (root mod I386_PAGE_SIZE = 0) ''root % I386_PAGE_SIZE'' s) (\<lambda>s.
     bnd (kassert (p_nr (procs s p) \<noteq> VM_PROC_NR) ''p_nr != VM_PROC_NR'' s) (\<lambda>s.
     bnd (replay_events p s)
       (for_each (\<lambda>i s. bnd (phys_get32 (entry_addr root (of_nat i)) s) (\<lambda>pde_v.
            if check_pt_entry pde_v \<noteq> OK then Inr s
            else vm_setpt_to_ro p (I386_VM_PFA pde_v) (of_nat i * 1024 * I386_PAGE_SIZE) s)) [0 ..< 1024])))"

section \<open>Regions announced by VM\<close>

text \<open>Undo a fork or exec label: the flags saved by the label come back.\<close>

definition drop_label :: "u32 \<Rightarrow> pram_mem_block \<Rightarrow> pram_mem_block" where
  "drop_label l b = (if has (pmb_flags b) l then b\<lparr>pmb_flags := clrf (pmb_iflags b) l\<rparr> else b)"

definition add_region_page :: "int \<Rightarrow> u32 \<Rightarrow> u32 \<Rightarrow> u32 \<Rightarrow> u32 \<Rightarrow> kstate \<Rightarrow> stop + kstate" where
  "add_region_page p root vaddr f1 f2 s =
     bnd (read_pte root vaddr s) (\<lambda>(_, pte_v).
     bnd (look_up_pte p (I386_VM_PDE vaddr) (I386_VM_PTE vaddr) s) (\<lambda>found.
     bnd (case found of
            None \<Rightarrow> add_pmb_vaddr p (I386_VM_PFA pte_v) vaddr f1 f2 s
          | Some a \<Rightarrow> Inr (a, upd_pmb a (\<lambda>b. b\<lparr>us0 := I386_VM_PFA pte_v\<rparr>) s)) (\<lambda>(a, s).
       Inr (pmb_set a H_TO_UPDATE (upd_pmb a (\<lambda>b. drop_label H_EXEC (drop_label H_FORK b)) s)))))"

definition add_region_to_ws :: "int \<Rightarrow> u32 \<Rightarrow> u32 \<Rightarrow> u32 \<Rightarrow> u32 \<Rightarrow> u32 \<Rightarrow> kstate \<Rightarrow> stop + (int \<times> kstate)" where
  "add_region_to_ws p root r_base_addr len f1 f2 s =
     bnd (for_each (\<lambda>i. add_region_page p root (page_base_of r_base_addr + of_nat i * 4 * 1024) f1 f2)
            [0 ..< nat (n_pages_covered r_base_addr len)] s)
       (\<lambda>s. Inr (OK, s))"

end
