(* ===== verification/Ins_Counter.thy ===== *)
theory Ins_Counter
  imports Machine
begin

text \<open>
  \<open>kernel/arch/i386/irh.c\<close>: the retirement counter that bounds the length of a run.
  The performance counter counts user instructions only (it is programmed with the USR
  bit and without the OS bit), so within the kernel a model-specific register keeps the
  value it was given. The configured counter is the architectural one
  (\<open>USE_FIX_CTR\<close> is not set); the routines of the fixed counter are modelled as well.
\<close>

section \<open>Constants\<close>

abbreviation INS_2_EXEC :: u32 where "INS_2_EXEC \<equiv> 0x7270E00"
abbreviation INS_THRESHOLD :: u32 where "INS_THRESHOLD \<equiv> 0xFFFFFFFF"
abbreviation PMC_IRQ :: u32 where "PMC_IRQ \<equiv> 230"
abbreviation INTEL_MSR_PERFMON_CRT1 :: u32 where "INTEL_MSR_PERFMON_CRT1 \<equiv> 0xc2"
abbreviation INTEL_MSR_PERFMON_SEL1 :: u32 where "INTEL_MSR_PERFMON_SEL1 \<equiv> 0x187"
abbreviation INTEL_MSR_FIXED_CTR_CTRL :: u32 where "INTEL_MSR_FIXED_CTR_CTRL \<equiv> 0x38D"
abbreviation INTEL_FIXED_CTR0 :: u32 where "INTEL_FIXED_CTR0 \<equiv> 0x309"
abbreviation INTEL_PERF_GLOBAL_STATUS :: u32 where "INTEL_PERF_GLOBAL_STATUS \<equiv> 0x38E"
abbreviation INTEL_PERF_GLOBAL_OVF_CTRL :: u32 where "INTEL_PERF_GLOBAL_OVF_CTRL \<equiv> 0x390"
abbreviation INTEL_MSR_PERFMON_SEL1_ENABLE :: u32 where "INTEL_MSR_PERFMON_SEL1_ENABLE \<equiv> 0x400000"
abbreviation INTEL_OVF_PMC0 :: u32 where "INTEL_OVF_PMC0 \<equiv> 2"
abbreviation APIC_ICR_DM_NMI :: u32 where "APIC_ICR_DM_NMI \<equiv> 0x400"

section \<open>Definitions\<close>

definition ia32_msr_write :: "u32 \<Rightarrow> u32 \<Rightarrow> u32 \<Rightarrow> kstate \<Rightarrow> kstate" where
  "ia32_msr_write r hi lo s = s\<lparr>msr := (msr s)(r := (hi, lo))\<rparr>"

definition lapic_write_lvtpcr :: "u32 \<Rightarrow> kstate \<Rightarrow> kstate" where
  "lapic_write_lvtpcr v s = s\<lparr>lapic_lvtpcr := v\<rparr>"

text \<open>\<open>1 << 20 | 1 << 16 | 0xc0\<close>: interrupt on overflow, user mode, instructions retired.\<close>

definition sel1_val :: u32 where
  "sel1_val = 0x100000 OR 0x10000 OR 0xc0"

definition intel_arch_insn_counter_int_handler :: "kstate \<Rightarrow> int \<times> kstate" where
  "intel_arch_insn_counter_int_handler s =
     (OK, if has (snd (msr s INTEL_PERF_GLOBAL_STATUS)) INTEL_OVF_PMC0
          then lapic_write_lvtpcr PMC_IRQ (ia32_msr_write INTEL_PERF_GLOBAL_OVF_CTRL 0 2 s) else s)"

definition intel_arch_insn_counter_enable :: "kstate \<Rightarrow> kstate" where
  "intel_arch_insn_counter_enable s =
     ia32_msr_write INTEL_MSR_PERFMON_SEL1 0 (sel1_val OR INTEL_MSR_PERFMON_SEL1_ENABLE)
       (ia32_msr_write INTEL_MSR_PERFMON_SEL1 0 sel1_val s)"

definition intel_arch_insn_counter_init :: "kstate \<Rightarrow> kstate" where
  "intel_arch_insn_counter_init s =
     lapic_write_lvtpcr APIC_ICR_DM_NMI
       (ia32_msr_write INTEL_MSR_PERFMON_SEL1 0 (sel1_val OR INTEL_MSR_PERFMON_SEL1_ENABLE)
         (ia32_msr_write INTEL_MSR_PERFMON_SEL1 0 sel1_val
           (ia32_msr_write INTEL_MSR_PERFMON_CRT1 0 0 s)))"

definition intel_arch_insn_counter_reinit :: "kstate \<Rightarrow> kstate" where
  "intel_arch_insn_counter_reinit s =
     ia32_msr_write INTEL_MSR_PERFMON_CRT1 0 0 (lapic_write_lvtpcr APIC_ICR_DM_NMI s)"

definition intel_arch_insn_counter_reset :: "kstate \<Rightarrow> kstate" where
  "intel_arch_insn_counter_reset s =
     ia32_msr_write INTEL_MSR_PERFMON_CRT1 0 0 (ia32_msr_write INTEL_MSR_PERFMON_SEL1 0 0 s)"

definition intel_fixed_insn_counter_init :: "kstate \<Rightarrow> kstate" where
  "intel_fixed_insn_counter_init s =
     lapic_write_lvtpcr APIC_ICR_DM_NMI
       (ia32_msr_write INTEL_MSR_FIXED_CTR_CTRL 0 (8 OR 2) (ia32_msr_write INTEL_FIXED_CTR0 0 0 s))"

definition intel_fixed_insn_counter_reset :: "kstate \<Rightarrow> kstate" where
  "intel_fixed_insn_counter_reset s =
     ia32_msr_write INTEL_FIXED_CTR0 0 0 (ia32_msr_write INTEL_MSR_FIXED_CTR_CTRL 0 0 s)"

definition intel_fixed_insn_counter_enable :: "kstate \<Rightarrow> kstate" where
  "intel_fixed_insn_counter_enable s = ia32_msr_write INTEL_MSR_FIXED_CTR_CTRL 0 (8 OR 2) s"

definition intel_fixed_insn_counter_reinit :: "kstate \<Rightarrow> kstate" where
  "intel_fixed_insn_counter_reinit s =
     ia32_msr_write INTEL_FIXED_CTR0 0 0 (lapic_write_lvtpcr APIC_ICR_DM_NMI s)"

definition reset_counter :: "kstate \<Rightarrow> kstate" where
  "reset_counter s = intel_arch_insn_counter_reset s"

definition enable_counter :: "kstate \<Rightarrow> kstate" where
  "enable_counter s = intel_arch_insn_counter_enable s"

definition read_ins_64 :: "kstate \<Rightarrow> u64" where
  "read_ins_64 s = make64 (snd (msr s INTEL_MSR_PERFMON_CRT1)) (fst (msr s INTEL_MSR_PERFMON_CRT1))"

definition update_ins_ctr_switch :: "kstate \<Rightarrow> kstate" where
  "update_ins_ctr_switch s = s\<lparr>ins_ctr_switch := read_ins_64 s\<rparr>"

definition set_remain_ins_counter_value :: "int \<Rightarrow> kstate \<Rightarrow> kstate" where
  "set_remain_ins_counter_value p s =
     (let s = intel_arch_insn_counter_reinit s;
          q = procs s p;
          s = (if p_start_count_ins q \<noteq> 0
               then upd_proc p (\<lambda>q. q\<lparr>p_remaining_ins := 0\<rparr>)
                      (ia32_msr_write INTEL_MSR_PERFMON_CRT1 (ex64hi (p_remaining_ins q)) (ex64lo (p_remaining_ins q)) s)
               else upd_proc p (\<lambda>q. q\<lparr>p_start_count_ins := 1\<rparr>)
                      (ia32_msr_write INTEL_MSR_PERFMON_CRT1 0xffff (INS_THRESHOLD - INS_2_EXEC + 1) s))
      in update_ins_ctr_switch s)"

definition get_remain_ins_counter_value_0 :: "int \<Rightarrow> kstate \<Rightarrow> kstate" where
  "get_remain_ins_counter_value_0 p s =
     (let ins = read_ins_64 s
      in upd_proc p (\<lambda>q. q\<lparr>p_remaining_ins := ins\<rparr>) (s\<lparr>ins_ctr_switch := ins\<rparr>))"

definition set_remain_ins_counter_value_0 :: "int \<Rightarrow> kstate \<Rightarrow> kstate" where
  "set_remain_ins_counter_value_0 p s =
     (let s = ia32_msr_write INTEL_MSR_PERFMON_CRT1 INS_THRESHOLD (INS_THRESHOLD - INS_2_EXEC + 1) s;
          s = upd_proc p (\<lambda>q. q\<lparr>p_start_count_ins := 1, p_ins_last := read_ins_64 s\<rparr>) s
      in get_remain_ins_counter_value_0 p (update_ins_ctr_switch s))"

definition set_remain_ins_counter_value_1 :: "int \<Rightarrow> kstate \<Rightarrow> kstate" where
  "set_remain_ins_counter_value_1 p s =
     (let q = procs s p;
          s = ia32_msr_write INTEL_MSR_PERFMON_CRT1 (ex64hi (p_remaining_ins q)) (ex64lo (p_remaining_ins q)) s
      in update_ins_ctr_switch (upd_proc p (\<lambda>q. q\<lparr>p_remaining_ins := 0\<rparr>) s))"

definition get_remain_ins_counter_value :: "int \<Rightarrow> kstate \<Rightarrow> kstate" where
  "get_remain_ins_counter_value p s =
     (let ins = read_ins_64 s
      in upd_proc p (\<lambda>q. q\<lparr>p_remaining_ins := ins, p_ins_last := ins\<rparr>) (s\<lparr>ins_ctr_switch := ins\<rparr>))"

text \<open>The handler of the counter's NMI; \<open>first_run_ins\<close> takes the low half of \<open>p_ins_last\<close>.\<close>

definition irh :: "kstate \<Rightarrow> int \<times> kstate" where
  "irh s =
     (let p = proc_ptr s
      in if has (snd (msr s INTEL_PERF_GLOBAL_STATUS)) INTEL_OVF_PMC0
         then let s = intel_arch_insn_counter_reinit (ia32_msr_write INTEL_PERF_GLOBAL_OVF_CTRL 0 INTEL_OVF_PMC0 s);
                  s = (if h_step s = FIRST_RUN then s\<lparr>first_run_ins := ucast (p_ins_last (procs s p))\<rparr> else s);
                  s = (if h_step s = SECOND_RUN then s\<lparr>secnd_run_ins := ucast (p_ins_last (procs s p))\<rparr> else s);
                  s = s\<lparr>origin_syscall := PE_END_IN_NMI, nb_nmi := nb_nmi s + 1\<rparr>
              in (OK, upd_proc p (\<lambda>q. q\<lparr>p_stats := (p_stats q)\<lparr>p_nb_nmi := p_nb_nmi (p_stats q) + 1\<rparr>\<rparr>) s)
         else (EFAULT, s))"

definition reset_ins_params :: "int \<Rightarrow> kstate \<Rightarrow> kstate" where
  "reset_ins_params p s =
     upd_proc p (\<lambda>q. let q = q\<lparr>p_ins_last := 0, p_remaining_ins := 0\<rparr>
                      in if h_step s = FIRST_RUN then q\<lparr>p_ins_first := 0\<rparr> else q\<lparr>p_ins_secnd := 0\<rparr>) s"

section \<open>Save and resume\<close>

lemma make64_halves [simp]: "make64 (ex64lo x) (ex64hi x) = x"
  by (rule bit_word_eqI) (auto simp: make64_def ex64lo_def ex64hi_def bit_simps)

lemma halves_make64 [simp]: "ex64lo (make64 lo hi) = lo" "ex64hi (make64 lo hi) = hi"
  by (rule bit_word_eqI; auto simp: make64_def ex64lo_def ex64hi_def bit_simps dest: bit_imp_le_length)+

lemma read_ins_written [simp]: "read_ins_64 (ia32_msr_write INTEL_MSR_PERFMON_CRT1 hi lo s) = make64 lo hi"
  by (simp add: read_ins_64_def ia32_msr_write_def)

lemma read_ins_upd_proc [simp]: "read_ins_64 (upd_proc p f s) = read_ins_64 s"
  by (simp add: read_ins_64_def upd_proc_def)

section \<open>Properties\<close>

lemma read_ins_ctr_switch [simp]: "read_ins_64 (s\<lparr>ins_ctr_switch := x\<rparr>) = read_ins_64 s"
  by (simp add: read_ins_64_def)

lemma procs_msr_write [simp]: "procs (ia32_msr_write r hi lo s) = procs s"
  by (simp add: ia32_msr_write_def)

text \<open>The instruction budget survives a visit to the kernel: the count saved on entry by
  \<open>get_remain_ins_counter_value\<close> is put back into the counter by
  \<open>set_remain_ins_counter_value_1\<close>, whatever another process did to the counter in
  between, as long as the saved count of the process was left alone.\<close>

theorem counter_saved_and_resumed:
  assumes "procs t p = procs (get_remain_ins_counter_value p s) p"
  shows "read_ins_64 (set_remain_ins_counter_value_1 p t) = read_ins_64 s"
  using assms by (simp add: get_remain_ins_counter_value_def set_remain_ins_counter_value_1_def
      update_ins_ctr_switch_def Let_def)

theorem counter_saved_and_resumed_witness:
  "read_ins_64 (set_remain_ins_counter_value_1 1
     (reset_counter (get_remain_ins_counter_value 1 (ia32_msr_write INTEL_MSR_PERFMON_CRT1 3 7 bss_state)))) = make64 7 3"
  using counter_saved_and_resumed [of "reset_counter (get_remain_ins_counter_value 1 (ia32_msr_write INTEL_MSR_PERFMON_CRT1 3 7 bss_state))"
      1 "ia32_msr_write INTEL_MSR_PERFMON_CRT1 3 7 bss_state"]
  by (simp add: reset_counter_def intel_arch_insn_counter_reset_def)

text \<open>The length of a run is bounded: \<open>set_remain_ins_counter_value_0\<close> starts the counter
  so that it wraps to zero, and raises its interrupt, after exactly \<open>INS_2_EXEC\<close> instructions and
  not before, and the first resumption of the process keeps that value.\<close>

theorem run_budget:
  fixes k :: u64
  shows "read_ins_64 (set_remain_ins_counter_value_1 p (set_remain_ins_counter_value_0 p s)) + k = 0 \<and> k \<le> ucast INS_2_EXEC
     \<longleftrightarrow> k = ucast INS_2_EXEC"
proof -
  have m: "make64 (INS_THRESHOLD - INS_2_EXEC + 1) INS_THRESHOLD = - ucast INS_2_EXEC" by (simp add: make64_def)
  have v: "read_ins_64 (set_remain_ins_counter_value_1 p (set_remain_ins_counter_value_0 p s)) = - ucast INS_2_EXEC"
    using m by (simp add: get_remain_ins_counter_value_0_def set_remain_ins_counter_value_1_def
        set_remain_ins_counter_value_0_def update_ins_ctr_switch_def Let_def)
  show ?thesis unfolding v by auto
qed

end
