(* ===== verification/Fault_Inject.thy ===== *)
theory Fault_Inject
  imports Ws_List
begin

text \<open>
  \<open>kernel/arch/i386/hcow.c\<close>: the fault injector used to evaluate the hardening, the
  restoration of the control registers and the reset of a process's hardening
  attributes. The injector flips one bit of one saved register per call, in a fixed
  order over all registers and bit positions.
\<close>

section \<open>Definitions\<close>

text \<open>\<open>(x & i) ? (x & ~i) : x | i\<close>.\<close>

definition flip_mask :: "'a::len word \<Rightarrow> 'a word \<Rightarrow> 'a word" where
  "flip_mask i x = (if x AND i \<noteq> 0 then x AND NOT i else x OR i)"

text \<open>\<open>1 << n\<close> as the \<open>int\<close> of the source, cut to the width of the register written.\<close>

definition bit_mask :: "nat \<Rightarrow> 'a::len word" where
  "bit_mask n = ucast (push_bit n (1 :: 32 word))"

text \<open>The registers in the order of the sixteen \<open>if\<close> statements; bit 17 of \<open>psw\<close> is spared.\<close>

definition inject_reg :: "nat \<Rightarrow> nat \<Rightarrow> stackframe_s \<Rightarrow> stackframe_s" where
  "inject_reg k n r =
     (if k = 0 then (if n \<noteq> 17 then r\<lparr>r_psw := flip_mask (bit_mask n) (r_psw r)\<rparr> else r)
      else if k = 1 then r\<lparr>r_ss := flip_mask (bit_mask n) (r_ss r)\<rparr>
      else if k = 2 then r\<lparr>r_sp := flip_mask (bit_mask n) (r_sp r)\<rparr>
      else if k = 3 then r\<lparr>r_cs := flip_mask (bit_mask n) (r_cs r)\<rparr>
      else if k = 4 then r\<lparr>r_di := flip_mask (bit_mask n) (r_di r)\<rparr>
      else if k = 5 then r\<lparr>r_si := flip_mask (bit_mask n) (r_si r)\<rparr>
      else if k = 6 then r\<lparr>r_fp := flip_mask (bit_mask n) (r_fp r)\<rparr>
      else if k = 7 then r\<lparr>r_bx := flip_mask (bit_mask n) (r_bx r)\<rparr>
      else if k = 8 then r\<lparr>r_dx := flip_mask (bit_mask n) (r_dx r)\<rparr>
      else if k = 9 then r\<lparr>r_cx := flip_mask (bit_mask n) (r_cx r)\<rparr>
      else if k = 10 then r\<lparr>r_retreg := flip_mask (bit_mask n) (r_retreg r)\<rparr>
      else if k = 11 then r\<lparr>r_pc := flip_mask (bit_mask n) (r_pc r)\<rparr>
      else if k = 12 then r\<lparr>r_ds := flip_mask (bit_mask n) (r_ds r)\<rparr>
      else if k = 13 then r\<lparr>r_es := flip_mask (bit_mask n) (r_es r)\<rparr>
      else if k = 14 then r\<lparr>r_fs := flip_mask (bit_mask n) (r_fs r)\<rparr>
      else if k = 15 then r\<lparr>r_gs := flip_mask (bit_mask n) (r_gs r)\<rparr>
      else r)"

definition inject_error_in_gpregs :: "int \<Rightarrow> kstate \<Rightarrow> int \<times> kstate" where
  "inject_error_in_gpregs p s =
     (let i = gpr_bit_id s;
          s = upd_proc p (\<lambda>q. q\<lparr>p_reg := inject_reg (i div REG_SIZE) (i mod REG_SIZE) (p_reg q)\<rparr>) s
      in (OK, s\<lparr>gpr_bit_id := (if i + 1 \<ge> 16 * REG_SIZE then 0 else i + 1)\<rparr>))"

definition inject_error_in_all_cr :: "int \<Rightarrow> kstate \<Rightarrow> int \<times> kstate" where
  "inject_error_in_all_cr p s =
     (let i = cr_bit_id s; n = i mod REG_SIZE; m = bit_mask n;
          c0 = flip_mask m (cr0 s); c3 = flip_mask m (cr3 s); c4 = flip_mask m (cr4 s);
          s = (if i < REG_SIZE \<and> n \<noteq> 0 \<and> n \<noteq> 31 \<and> n \<noteq> 29 then s\<lparr>cr0 := c0\<rparr> else s);
          s = (if i \<ge> REG_SIZE \<and> i < 2 * REG_SIZE \<and> n < 12 then s\<lparr>cr3 := c3\<rparr> else s);
          s = (if i \<ge> 2 * REG_SIZE \<and> n \<noteq> 4 \<and> n \<noteq> 5 \<and> n \<noteq> 11 \<and> n \<noteq> 12 \<and> n < 14
               then s\<lparr>cr4 := c4\<rparr> else s)
      in (OK, s\<lparr>cr_bit_id := (if i \<ge> 3 * REG_SIZE then 0 else i) + 1\<rparr>))"

definition restore_cr_reg :: "kstate \<Rightarrow> kstate" where
  "restore_cr_reg s = s\<lparr>cr0 := z_cr0 (copy_0 s), cr3 := z_cr3 (copy_0 s), cr4 := z_cr4 (copy_0 s)\<rparr>"

definition reset_hardening_attri :: "int \<Rightarrow> kstate \<Rightarrow> kstate" where
  "reset_hardening_attri p s =
     upd_proc p (\<lambda>q. q\<lparr>p_hflags := 0, p_lus1_us2 := None, p_lus1_us2_size := 0, p_workingset_size := 0,
       p_remaining_ins := 0, p_ins_first := 0, p_ins_secnd := 0, p_ins_last := 0, p_start_count_ins := 0,
       p_hardening_mem_events := None, p_nb_hardening_mem_events := 0,
       p_hardening_shared_regions := None, p_nb_hardening_shared_regions := 0\<rparr>) s"

section \<open>The injector flips exactly one bit\<close>

lemma bit_mask_bit: "bit (bit_mask n :: 'a::len word) k \<longleftrightarrow> k = n \<and> n < 32 \<and> n < LENGTH('a)"
  by (auto simp: bit_mask_def bit_simps)

lemma mask_hit: "x AND bit_mask n \<noteq> 0 \<longleftrightarrow> n < 32 \<and> n < LENGTH('a) \<and> bit (x :: 'a::len word) n"
proof -
  have "x AND bit_mask n = 0 \<longleftrightarrow> (\<forall>k. \<not> (bit x k \<and> bit (bit_mask n :: 'a word) k))"
    by (auto simp: bit_eq_iff bit_simps dest: bit_imp_le_length)
  then show ?thesis by (auto simp: bit_mask_bit)
qed

lemma flip_mask_flip:
  assumes "n < 32"
  shows "flip_mask (bit_mask n) x = flip_bit n (x :: 'a::len word)"
  using assms
  by (auto simp: flip_mask_def mask_hit intro!: bit_word_eqI)
     (auto simp: bit_simps bit_mask_bit)

section \<open>Properties\<close>

text \<open>The register and bit positions at which the injector changes nothing: bit 17 of the status
  word, and the upper half of the four 16-bit segment registers.\<close>

definition dead_position :: "nat \<Rightarrow> nat \<Rightarrow> bool" where
  "dead_position k n \<longleftrightarrow> k = 0 \<and> n = 17 \<or> 12 \<le> k \<and> k < 16 \<and> 16 \<le> n"

lemma flip_flip [simp]: "flip_bit n (flip_bit n x) = (x :: 'a::len word)"
  by (rule bit_word_eqI) (auto simp: bit_simps)

lemma flip_bit_eq: "flip_bit n x = (x :: 'a::len word) \<longleftrightarrow> LENGTH('a) \<le> n"
proof
  assume "flip_bit n x = x"
  then have "bit (flip_bit n x) n = bit x n" by simp
  then show "LENGTH('a) \<le> n" by (auto simp: bit_flip_bit_iff not_le)
next
  assume "LENGTH('a) \<le> n"
  then show "flip_bit n x = x" by (intro bit_word_eqI) (auto simp: bit_flip_bit_iff)
qed

lemma frame_upd_same [simp]:
  "r\<lparr>r_psw := v\<rparr> = r \<longleftrightarrow> v = r_psw r" "r\<lparr>r_ss := v\<rparr> = r \<longleftrightarrow> v = r_ss r" "r\<lparr>r_sp := v\<rparr> = r \<longleftrightarrow> v = r_sp r"
  "r\<lparr>r_cs := v\<rparr> = r \<longleftrightarrow> v = r_cs r" "r\<lparr>r_di := v\<rparr> = r \<longleftrightarrow> v = r_di r" "r\<lparr>r_si := v\<rparr> = r \<longleftrightarrow> v = r_si r"
  "r\<lparr>r_fp := v\<rparr> = r \<longleftrightarrow> v = r_fp r" "r\<lparr>r_bx := v\<rparr> = r \<longleftrightarrow> v = r_bx r" "r\<lparr>r_dx := v\<rparr> = r \<longleftrightarrow> v = r_dx r"
  "r\<lparr>r_cx := v\<rparr> = r \<longleftrightarrow> v = r_cx r" "r\<lparr>r_retreg := v\<rparr> = r \<longleftrightarrow> v = r_retreg r" "r\<lparr>r_pc := v\<rparr> = r \<longleftrightarrow> v = r_pc r"
  "r\<lparr>r_ds := w\<rparr> = r \<longleftrightarrow> w = r_ds r" "r\<lparr>r_es := w\<rparr> = r \<longleftrightarrow> w = r_es r" "r\<lparr>r_fs := w\<rparr> = r \<longleftrightarrow> w = r_fs r"
  "r\<lparr>r_gs := w\<rparr> = r \<longleftrightarrow> w = r_gs r" for r :: stackframe_s
  by (cases r; simp)+

lemma register_index:
  assumes "k < (16 :: nat)"
  shows "k = 0 \<or> k = 1 \<or> k = 2 \<or> k = 3 \<or> k = 4 \<or> k = 5 \<or> k = 6 \<or> k = 7 \<or> k = 8 \<or> k = 9 \<or> k = 10 \<or> k = 11 \<or>
    k = 12 \<or> k = 13 \<or> k = 14 \<or> k = 15"
proof -
  have "k \<in> set [0 ..< 16]" using assms by simp
  moreover have "[0 ..< 16] = [0, 1, 2, 3, 4, 5, 6, 7, 8, 9, 10, 11, 12, 13, 14, 15 :: nat]" by (simp add: upt_rec)
  ultimately show ?thesis by simp
qed

lemma inject_reg_same:
  assumes "n < 32" "k < 16"
  shows "inject_reg k n r = r \<longleftrightarrow> dead_position k n"
  using assms(1) register_index [OF assms(2)]
  by (elim disjE) (simp_all add: inject_reg_def flip_mask_flip flip_bit_eq dead_position_def)

lemma inject_reg_twice:
  assumes "n < 32" "k < 16"
  shows "inject_reg k n (inject_reg k n r) = r"
  using assms(1) register_index [OF assms(2)]
  by (elim disjE) (simp_all add: inject_reg_def flip_mask_flip)

text \<open>A fault injection is a single bit flip: injecting the same position again restores the
  registers, the position moves on through all 512 positions in a cycle, and the registers
  change at every position except the 65 dead ones, where the injection is counted but has
  no effect.\<close>

theorem injection_flips:
  assumes "gpr_bit_id s < 512" "inject_error_in_gpregs p s = (r, t)"
  shows "r = OK \<and> gpr_bit_id t = (gpr_bit_id s + 1) mod 512 \<and>
    (\<forall>u. inject_error_in_gpregs p (t\<lparr>gpr_bit_id := gpr_bit_id s\<rparr>) = (OK, u) \<longrightarrow> p_reg (procs u p) = p_reg (procs s p)) \<and>
    (p_reg (procs t p) = p_reg (procs s p) \<longleftrightarrow> dead_position (gpr_bit_id s div 32) (gpr_bit_id s mod 32))"
proof -
  have m: "(if gpr_bit_id s + 1 \<ge> 512 then 0 else gpr_bit_id s + 1) = (gpr_bit_id s + 1) mod 512"
    using assms(1) by (cases "gpr_bit_id s = 511") auto
  have d: "gpr_bit_id s div 32 < 16" "gpr_bit_id s mod 32 < 32" using assms(1) by auto
  show ?thesis
    using assms m inject_reg_twice [OF d(2,1)] inject_reg_same [OF d(2,1)]
    by (auto simp: inject_error_in_gpregs_def Let_def simp del: One_nat_def)
qed

theorem injection_flips_witness:
  "p_reg (procs (snd (inject_error_in_gpregs 1 bss_state)) 1) \<noteq> p_reg (procs bss_state 1)"
  using injection_flips [of bss_state 1 OK "snd (inject_error_in_gpregs 1 bss_state)"]
  by (simp add: dead_position_def inject_error_in_gpregs_def bss_state_def Let_def)

end
