(* ===== verification/Run_Queue.thy ===== *)
theory Run_Queue
  imports Machine
begin

text \<open>
  The ready lists of the scheduler (\<open>kernel/proc.c\<close>: \<open>enqueue\<close>, \<open>enqueue_head\<close>,
  \<open>dequeue\<close>; \<open>kernel/proc.h\<close>: \<open>RTS_SET\<close>, \<open>RTS_UNSET\<close>; \<open>kernel/system.c\<close>:
  \<open>sched_proc\<close>) on one processor, as operations on the links.
\<close>

section \<open>Constants and access\<close>

abbreviation NR_SCHED_QUEUES :: int where "NR_SCHED_QUEUES \<equiv> 16"
abbreviation NR_TASKS :: int where "NR_TASKS \<equiv> 5"
abbreviation NR_PROCS :: int where "NR_PROCS \<equiv> 256"
abbreviation PMAGIC :: u32 where "PMAGIC \<equiv> 0xC0FFEE1"
abbreviation STACK_GUARD :: u32 where "STACK_GUARD \<equiv> 0xDEADBEEF"
abbreviation PREEMPTIBLE :: u32 where "PREEMPTIBLE \<equiv> 0x002"
abbreviation BILLABLE :: u32 where "BILLABLE \<equiv> 0x004"
abbreviation RTS_PREEMPTED :: u32 where "RTS_PREEMPTED \<equiv> 0x4000"
abbreviation RTS_NO_QUANTUM :: u32 where "RTS_NO_QUANTUM \<equiv> 0x8000"

definition isokprocn :: "int \<Rightarrow> bool" where
  "isokprocn n \<longleftrightarrow> 0 \<le> n + NR_TASKS \<and> n + NR_TASKS < NR_PROCS + NR_TASKS"

definition proc_is_runnable :: "proc \<Rightarrow> bool" where
  "proc_is_runnable q \<longleftrightarrow> p_rts_flags q = 0"

definition RTS_ISSET :: "proc \<Rightarrow> u32 \<Rightarrow> bool" where
  "RTS_ISSET q f \<longleftrightarrow> p_rts_flags q AND f = f"

definition proc_ptr_ok :: "proc \<Rightarrow> bool" where
  "proc_ptr_ok q \<longleftrightarrow> p_magic q = PMAGIC"

definition priv_of :: "kstate \<Rightarrow> int \<Rightarrow> priv" where
  "priv_of s p = ppriv_addr s (p_priv (procs s p))"

definition prio :: "kstate \<Rightarrow> int \<Rightarrow> int" where
  "prio s p = p_priority (p_sched (procs s p))"

definition nextready :: "kstate \<Rightarrow> int \<Rightarrow> int option" where
  "nextready s p = p_nextready (p_sched (procs s p))"

definition upd_sched :: "int \<Rightarrow> (proc_sched \<Rightarrow> proc_sched) \<Rightarrow> kstate \<Rightarrow> kstate" where
  "upd_sched p f = upd_proc p (\<lambda>q. q\<lparr>p_sched := f (p_sched q)\<rparr>)"

section \<open>Operations\<close>

text \<open>\<open>run_q_head[q]\<close> and \<open>run_q_tail[q]\<close> are arrays of \<open>NR_SCHED_QUEUES\<close> entries.\<close>

definition q_index :: "int \<Rightarrow> kstate \<Rightarrow> stop + kstate" where
  "q_index q s = (if 0 \<le> q \<and> q < NR_SCHED_QUEUES then Inr s else Inl OutOfBounds)"

definition set_head :: "int \<Rightarrow> int option \<Rightarrow> kstate \<Rightarrow> kstate" where
  "set_head q x s = s\<lparr>run_q_head := (run_q_head s)(q := x)\<rparr>"

definition set_tail :: "int \<Rightarrow> int option \<Rightarrow> kstate \<Rightarrow> kstate" where
  "set_tail q x s = s\<lparr>run_q_tail := (run_q_tail s)(q := x)\<rparr>"

text \<open>The removal of the process found behind \<open>prev\<close> on queue \<open>q\<close>.\<close>

definition unlink_ready :: "int \<Rightarrow> int option \<Rightarrow> int \<Rightarrow> kstate \<Rightarrow> kstate" where
  "unlink_ready q prev rp s =
     (let s' = (case prev of
                  None \<Rightarrow> set_head q (nextready s rp) s
                | Some b \<Rightarrow> upd_sched b (\<lambda>n. n\<lparr>p_nextready := nextready s rp\<rparr>) s)
      in if run_q_tail s q = Some rp then set_tail q prev s' else s')"

definition account_dequeue :: "int \<Rightarrow> kstate \<Rightarrow> kstate" where
  "account_dequeue rp s =
     (let s = upd_sched rp (\<lambda>n. n\<lparr>dequeues := dequeues n + 1\<rparr>) s
      in if enter_queue (p_sched (procs s rp)) \<noteq> 0
         then (case read_tsc_64 s of (now, s) \<Rightarrow>
                 upd_sched rp (\<lambda>n. n\<lparr>time_in_queue := time_in_queue n + (now - enter_queue n), enter_queue := 0\<rparr>) s)
         else s)"

definition dequeue :: "int \<Rightarrow> kstate \<Rightarrow> stop + kstate" where
  "dequeue rp s =
     bnd (kassert (proc_ptr_ok (procs s rp)) ''proc_ptr_ok(rp)'' s) (\<lambda>s.
     bnd (kassert (\<not> proc_is_runnable (procs s rp)) ''!proc_is_runnable(rp)'' s) (\<lambda>s.
     bnd (kassert (rp \<ge> 0 \<or> s_stack_guard (priv_of s rp) = STACK_GUARD) ''*s_stack_guard == STACK_GUARD'' s) (\<lambda>s.
     bnd (q_index (prio s rp) s) (\<lambda>s.
     bnd (search_prev (nextready s) (\<lambda>x. x = rp) (run_q_head s (prio s rp))) (\<lambda>found.
       Inr (account_dequeue rp
              (case found of None \<Rightarrow> s | Some (prev, x) \<Rightarrow> unlink_ready (prio s rp) prev rp s)))))))"

text \<open>Set a flag, and take the process off its queue if it was runnable.\<close>

definition RTS_SET :: "int \<Rightarrow> u32 \<Rightarrow> kstate \<Rightarrow> stop + kstate" where
  "RTS_SET rp f s =
     (let rts = p_rts_flags (procs s rp);
          s = upd_proc rp (\<lambda>q. q\<lparr>p_rts_flags := setf (p_rts_flags q) f\<rparr>) s
      in if rts = 0 \<and> \<not> proc_is_runnable (procs s rp) then dequeue rp s else Inr s)"

text \<open>The time of the insertion is noted in the current process, not in the process inserted.\<close>

definition note_enter :: "kstate \<Rightarrow> kstate" where
  "note_enter s = (case read_tsc_64 s of (now, s) \<Rightarrow> upd_sched (proc_ptr s) (\<lambda>n. n\<lparr>enter_queue := now\<rparr>) s)"

definition link_ready :: "int \<Rightarrow> int \<Rightarrow> kstate \<Rightarrow> stop + kstate" where
  "link_ready q rp s =
     (case run_q_head s q of
        None \<Rightarrow> Inr (upd_sched rp (\<lambda>n. n\<lparr>p_nextready := None\<rparr>) (set_tail q (Some rp) (set_head q (Some rp) s)))
      | Some _ \<Rightarrow>
          (case run_q_tail s q of
             None \<Rightarrow> Inl NullDeref
           | Some t \<Rightarrow> Inr (upd_sched rp (\<lambda>n. n\<lparr>p_nextready := None\<rparr>)
                              (set_tail q (Some rp) (upd_sched t (\<lambda>n. n\<lparr>p_nextready := Some rp\<rparr>) s)))))"

text \<open>The current process gives way to a process of higher priority (a smaller number).\<close>

definition preempt_for :: "int \<Rightarrow> kstate \<Rightarrow> stop + kstate" where
  "preempt_for rp s =
     (if prio s (proc_ptr s) > prio s rp \<and> has (s_flags (priv_of s (proc_ptr s))) PREEMPTIBLE
      then RTS_SET (proc_ptr s) RTS_PREEMPTED s else Inr s)"

definition enqueue :: "int \<Rightarrow> kstate \<Rightarrow> stop + kstate" where
  "enqueue rp s =
     bnd (kassert (proc_is_runnable (procs s rp)) ''proc_is_runnable(rp)'' s) (\<lambda>s.
     bnd (kassert (prio s rp \<ge> 0) ''q >= 0'' s) (\<lambda>s.
     bnd (q_index (prio s rp) s) (\<lambda>s.
     bnd (link_ready (prio s rp) rp s) (\<lambda>s.
     bnd (preempt_for rp s) (\<lambda>s. Inr (note_enter s))))))"

text \<open>The assignment of the head after the \<open>else\<close> is not part of it; on an empty queue it is repeated.\<close>

definition enqueue_head :: "int \<Rightarrow> kstate \<Rightarrow> stop + kstate" where
  "enqueue_head rp s =
     bnd (kassert (proc_ptr_ok (procs s rp)) ''proc_ptr_ok(rp)'' s) (\<lambda>s.
     bnd (kassert (proc_is_runnable (procs s rp)) ''proc_is_runnable(rp)'' s) (\<lambda>s.
     bnd (kassert (p_cpu_time_left (procs s rp) \<noteq> 0) ''!is_zero64(rp->p_cpu_time_left)'' s) (\<lambda>s.
     bnd (kassert (prio s rp \<ge> 0) ''q >= 0'' s) (\<lambda>s.
     bnd (q_index (prio s rp) s) (\<lambda>s.
       let q = prio s rp;
           s = (case run_q_head s q of
                  None \<Rightarrow> upd_sched rp (\<lambda>n. n\<lparr>p_nextready := None\<rparr>) (set_tail q (Some rp) (set_head q (Some rp) s))
                | Some h \<Rightarrow> upd_sched rp (\<lambda>n. n\<lparr>p_nextready := Some h\<rparr>) s);
           s = note_enter (set_head q (Some rp) s)
       in Inr (upd_sched rp (\<lambda>n. n\<lparr>dequeues := dequeues n - 1, preempted := preempted n + 1\<rparr>) s))))))"

text \<open>Clear a flag, and queue the process if it becomes runnable.\<close>

definition RTS_UNSET :: "int \<Rightarrow> u32 \<Rightarrow> kstate \<Rightarrow> stop + kstate" where
  "RTS_UNSET rp f s =
     (let rts = p_rts_flags (procs s rp);
          s = upd_proc rp (\<lambda>q. q\<lparr>p_rts_flags := clrf (p_rts_flags q) f\<rparr>) s
      in if rts \<noteq> 0 \<and> proc_is_runnable (procs s rp) then enqueue rp s else Inr s)"

text \<open>\<open>TASK_Q\<close> is 0; the upper bound of the priority is not excluded.\<close>

definition sched_proc :: "int \<Rightarrow> int \<Rightarrow> int \<Rightarrow> kstate \<Rightarrow> stop + (int \<times> kstate)" where
  "sched_proc p priority quantum s =
     (if priority < 0 \<and> priority \<noteq> - 1 \<or> priority > NR_SCHED_QUEUES then Inr (EINVAL, s)
      else if quantum < 1 \<and> quantum \<noteq> - 1 then Inr (EINVAL, s)
      else
        bnd (if proc_is_runnable (procs s p) then RTS_SET p RTS_NO_QUANTUM s else Inr s) (\<lambda>s.
        bnd (if proc_is_runnable (procs s p) then RTS_SET p RTS_NO_QUANTUM s else Inr s) (\<lambda>s.
          let s = (if priority \<noteq> - 1 then upd_sched p (\<lambda>n. n\<lparr>p_priority := priority\<rparr>) s else s);
              s = (if quantum \<noteq> - 1
                   then upd_proc p (\<lambda>q. q\<lparr>p_quantum_size_ms := of_int quantum,
                          p_cpu_time_left := ms_2_cpu_time (of_int quantum) s\<rparr>) s else s)
          in bnd (RTS_UNSET p RTS_NO_QUANTUM s) (\<lambda>s. Inr (OK, s)))))"

definition reset_proc_accounting :: "int \<Rightarrow> kstate \<Rightarrow> kstate" where
  "reset_proc_accounting p =
     upd_sched p (\<lambda>n. n\<lparr>preempted := 0, ipc_sync := 0, ipc_async := 0, dequeues := 0, time_in_queue := 0, enter_queue := 0\<rparr>)"

text \<open>The queues are scanned from the highest priority; \<open>BILLABLE\<close> processes are charged for system time.\<close>

fun scan_queues :: "int list \<Rightarrow> kstate \<Rightarrow> stop + (int option \<times> kstate)" where
  "scan_queues [] s = Inr (None, s)"
| "scan_queues (q # qs) s =
     (case run_q_head s q of
        None \<Rightarrow> scan_queues qs s
      | Some rp \<Rightarrow>
          bnd (kassert (proc_is_runnable (procs s rp)) ''proc_is_runnable(rp)'' s) (\<lambda>s.
            Inr (Some rp, if has (s_flags (priv_of s rp)) BILLABLE then s\<lparr>bill_ptr := Some rp\<rparr> else s)))"

definition pick_ready :: "kstate \<Rightarrow> stop + (int option \<times> kstate)" where
  "pick_ready = scan_queues [0, 1, 2, 3, 4, 5, 6, 7, 8, 9, 10, 11, 12, 13, 14, 15]"

end
