(* ===== verification/Ready_Lists.thy ===== *)
theory Ready_Lists
  imports Run_Queue
begin

text \<open>
  The ready lists as lists: \<open>ready_list s q\<close> is the queue of priority \<open>q\<close> read off
  the links, \<open>ready_inv\<close> says that a process is on the list of its priority exactly when
  it is runnable. Every scheduling operation is shown to be the list operation it stands for and to
  keep the invariant, and the scheduler to pick the first process of the best list.
\<close>

section \<open>The queues as lists\<close>

text \<open>\<open>Q q\<close> is the ready list of priority \<open>q\<close>, in order.\<close>

definition rq_lists :: "(int \<Rightarrow> int list) \<Rightarrow> kstate \<Rightarrow> bool" where
  "rq_lists Q s \<longleftrightarrow>
     (\<forall>q. if 0 \<le> q \<and> q < NR_SCHED_QUEUES
          then chain (nextready s) (run_q_head s q) (Q q) \<and>
               run_q_tail s q = (if Q q = [] then None else Some (last (Q q))) \<and> (\<forall>p \<in> set (Q q). prio s p = q)
          else Q q = [])"

text \<open>What the scheduler relies on of a process, and the invariant: a process is on the list of its
  priority exactly when it is runnable.\<close>

definition sched_ok :: "kstate \<Rightarrow> int \<Rightarrow> bool" where
  "sched_ok s p \<longleftrightarrow> proc_ptr_ok (procs s p) \<and> (p \<ge> 0 \<or> s_stack_guard (priv_of s p) = STACK_GUARD) \<and>
     0 \<le> prio s p \<and> prio s p < NR_SCHED_QUEUES"

definition rq_inv :: "(int \<Rightarrow> int list) \<Rightarrow> kstate \<Rightarrow> bool" where
  "rq_inv Q s \<longleftrightarrow> rq_lists Q s \<and> (\<forall>p. isokprocn p \<longrightarrow> sched_ok s p) \<and>
     (\<forall>p. p \<in> set (Q (prio s p)) \<longleftrightarrow> isokprocn p \<and> proc_is_runnable (procs s p))"

text \<open>A step that changes nothing but the scheduling fields, the queues and the counter reads.\<close>

definition sched_only :: "kstate \<Rightarrow> kstate \<Rightarrow> bool" where
  "sched_only s t \<longleftrightarrow>
     t\<lparr>procs := procs s, run_q_head := run_q_head s, run_q_tail := run_q_tail s, tsc_n := tsc_n s\<rparr> = s \<and>
     (\<forall>x. (procs t x)\<lparr>p_sched := p_sched (procs s x)\<rparr> = procs s x) \<and>
     (\<forall>x. prio t x = prio s x \<and> p_scheduler (p_sched (procs t x)) = p_scheduler (p_sched (procs s x)))"

lemma rq_at:
  assumes "rq_lists Q s" "0 \<le> q" "q < NR_SCHED_QUEUES"
  shows "chain (nextready s) (run_q_head s q) (Q q)"
    "run_q_tail s q = (if Q q = [] then None else Some (last (Q q)))" "\<And>p. p \<in> set (Q q) \<Longrightarrow> prio s p = q"
  using assms unfolding rq_lists_def by (presburger, presburger, metis)

lemma rq_out: "rq_lists Q s \<Longrightarrow> \<not> (0 \<le> q \<and> q < NR_SCHED_QUEUES) \<Longrightarrow> Q q = []"
  unfolding rq_lists_def by presburger

lemma sched_only_refl [simp]: "sched_only s s"
  by (simp add: sched_only_def)

lemma sched_only_trans:
  assumes "sched_only s t" "sched_only t u" shows "sched_only s u"
proof -
  have "u\<lparr>procs := procs s, run_q_head := run_q_head s, run_q_tail := run_q_tail s, tsc_n := tsc_n s\<rparr> =
      (u\<lparr>procs := procs t, run_q_head := run_q_head t, run_q_tail := run_q_tail t, tsc_n := tsc_n t\<rparr>)
        \<lparr>procs := procs s, run_q_head := run_q_head s, run_q_tail := run_q_tail s, tsc_n := tsc_n s\<rparr>" by simp
  moreover have "(procs u x)\<lparr>p_sched := v\<rparr> = ((procs u x)\<lparr>p_sched := w\<rparr>)\<lparr>p_sched := v\<rparr>" for x v w by simp
  ultimately show ?thesis using assms unfolding sched_only_def by metis
qed

lemma sched_only_proc:
  assumes "sched_only s t"
  shows "p_rts_flags (procs t x) = p_rts_flags (procs s x)" "p_magic (procs t x) = p_magic (procs s x)"
    "p_priv (procs t x) = p_priv (procs s x)" "p_endpoint (procs t x) = p_endpoint (procs s x)"
    "p_misc_flags (procs t x) = p_misc_flags (procs s x)" "p_msgs (procs t x) = p_msgs (procs s x)"
    "p_reg (procs t x) = p_reg (procs s x)" "p_getfrom_e (procs t x) = p_getfrom_e (procs s x)"
    "p_sendto_e (procs t x) = p_sendto_e (procs s x)" "p_nr (procs t x) = p_nr (procs s x)"
    "p_cpu_time_left (procs t x) = p_cpu_time_left (procs s x)" "p_hflags (procs t x) = p_hflags (procs s x)"
    "p_cr3 (procs t x) = p_cr3 (procs s x)" "p_pending (procs t x) = p_pending (procs s x)"
proof -
  have e: "(procs t x)\<lparr>p_sched := p_sched (procs s x)\<rparr> = procs s x" using assms by (simp add: sched_only_def)
  note c = arg_cong [OF e]
  show "p_rts_flags (procs t x) = p_rts_flags (procs s x)" using c [of p_rts_flags] by simp
  show "p_magic (procs t x) = p_magic (procs s x)" using c [of p_magic] by simp
  show "p_priv (procs t x) = p_priv (procs s x)" using c [of p_priv] by simp
  show "p_endpoint (procs t x) = p_endpoint (procs s x)" using c [of p_endpoint] by simp
  show "p_misc_flags (procs t x) = p_misc_flags (procs s x)" using c [of p_misc_flags] by simp
  show "p_msgs (procs t x) = p_msgs (procs s x)" using c [of p_msgs] by simp
  show "p_reg (procs t x) = p_reg (procs s x)" using c [of p_reg] by simp
  show "p_getfrom_e (procs t x) = p_getfrom_e (procs s x)" using c [of p_getfrom_e] by simp
  show "p_sendto_e (procs t x) = p_sendto_e (procs s x)" using c [of p_sendto_e] by simp
  show "p_nr (procs t x) = p_nr (procs s x)" using c [of p_nr] by simp
  show "p_cpu_time_left (procs t x) = p_cpu_time_left (procs s x)" using c [of p_cpu_time_left] by simp
  show "p_hflags (procs t x) = p_hflags (procs s x)" using c [of p_hflags] by simp
  show "p_cr3 (procs t x) = p_cr3 (procs s x)" using c [of p_cr3] by simp
  show "p_pending (procs t x) = p_pending (procs s x)" using c [of p_pending] by simp
qed

lemma sched_only_sel:
  assumes "sched_only s t"
  shows "ppriv_addr t = ppriv_addr s" "proc_ptr t = proc_ptr s" "mem t = mem s" "h_enable t = h_enable s"
    "h_step t = h_step s" "working_set t = working_set s" "uptime t = uptime s" "h_unstable_state t = h_unstable_state s"
proof -
  have e: "t\<lparr>procs := procs s, run_q_head := run_q_head s, run_q_tail := run_q_tail s, tsc_n := tsc_n s\<rparr> = s"
    using assms by (simp add: sched_only_def)
  note c = arg_cong [OF e]
  show "ppriv_addr t = ppriv_addr s" using c [of ppriv_addr] by simp
  show "proc_ptr t = proc_ptr s" using c [of proc_ptr] by simp
  show "mem t = mem s" using c [of mem] by simp
  show "h_enable t = h_enable s" using c [of h_enable] by simp
  show "h_step t = h_step s" using c [of h_step] by simp
  show "working_set t = working_set s" using c [of working_set] by simp
  show "uptime t = uptime s" using c [of uptime] by simp
  show "h_unstable_state t = h_unstable_state s" using c [of h_unstable_state] by simp
qed

lemma sched_only_ok: "sched_only s t \<Longrightarrow> sched_ok t p = sched_ok s p"
  using sched_only_proc [of s t p] sched_only_sel(1) [of s t]
  by (simp add: sched_ok_def proc_ptr_ok_def priv_of_def sched_only_def)

text \<open>The elementary writes.\<close>

lemma nextready_upd: "nextready (upd_sched p f s) = (nextready s)(p := p_nextready (f (p_sched (procs s p))))"
  by (rule ext) (simp add: nextready_def upd_sched_def)

lemma prio_upd: "prio (upd_sched p f s) x = (if x = p then p_priority (f (p_sched (procs s p))) else prio s x)"
  by (simp add: prio_def upd_sched_def)

lemma queue_writes [simp]:
  "nextready (set_head q x s) = nextready s" "nextready (set_tail q x s) = nextready s"
  "prio (set_head q x s) = prio s" "prio (set_tail q x s) = prio s"
  "run_q_head (set_head q x s) = (run_q_head s)(q := x)" "run_q_tail (set_head q x s) = run_q_tail s"
  "run_q_tail (set_tail q x s) = (run_q_tail s)(q := x)" "run_q_head (set_tail q x s) = run_q_head s"
  "run_q_head (upd_sched p f s) = run_q_head s" "run_q_tail (upd_sched p f s) = run_q_tail s"
  by (auto simp: set_head_def set_tail_def nextready_def prio_def upd_sched_def upd_proc_def fun_eq_iff)

lemma sched_only_writes:
  "sched_only s (set_head q x s)" "sched_only s (set_tail q x s)"
  "(\<And>n. p_priority (f n) = p_priority n \<and> p_scheduler (f n) = p_scheduler n) \<Longrightarrow> sched_only s (upd_sched p f s)"
  "sched_only s (s\<lparr>tsc_n := k\<rparr>)"
  by (auto simp: sched_only_def set_head_def set_tail_def prio_def upd_sched_def upd_proc_def)

lemma rq_only_accounts:
  assumes "\<And>n. p_priority (f n) = p_priority n \<and> p_nextready (f n) = p_nextready n"
  shows "rq_lists Q (upd_sched p f s) = rq_lists Q s"
proof -
  have "nextready (upd_sched p f s) = nextready s" "prio (upd_sched p f s) = prio s"
    using assms by (auto simp: nextready_upd prio_upd fun_eq_iff) (simp_all add: nextready_def prio_def)
  then show ?thesis by (simp add: rq_lists_def)
qed

lemma rq_tsc [simp]: "rq_lists Q (s\<lparr>tsc_n := k\<rparr>) = rq_lists Q s"
proof -
  have "nextready (s\<lparr>tsc_n := k\<rparr>) = nextready s" "prio (s\<lparr>tsc_n := k\<rparr>) = prio s"
    by (auto simp: nextready_def prio_def)
  then show ?thesis by (simp add: rq_lists_def)
qed

lemma rq_change:
  assumes rq: "rq_lists Q s" and q: "0 \<le> q" "q < NR_SCHED_QUEUES" and pr: "prio t = prio s"
    and nx: "\<And>x. prio s x \<noteq> q \<Longrightarrow> nextready t x = nextready s x"
    and ht: "\<And>q'. q' \<noteq> q \<Longrightarrow> run_q_head t q' = run_q_head s q' \<and> run_q_tail t q' = run_q_tail s q'"
    and mine: "chain (nextready t) (run_q_head t q) xs" "run_q_tail t q = (if xs = [] then None else Some (last xs))"
      "\<forall>x \<in> set xs. prio s x = q"
  shows "rq_lists (Q(q := xs)) t"
  unfolding rq_lists_def pr
proof (intro allI)
  fix q'
  have "chain (nextready t) (run_q_head t q') (Q q')" if "q' \<noteq> q" "0 \<le> q'" "q' < NR_SCHED_QUEUES"
  proof -
    have "chain (nextready s) (run_q_head s q') (Q q')" using rq that(2,3) by (rule rq_at)
    moreover have "nextready t x = nextready s x" if "x \<in> set (Q q')" for x
      using nx rq_at(3) [OF rq _ _ that] \<open>q' \<noteq> q\<close> \<open>0 \<le> q'\<close> \<open>q' < NR_SCHED_QUEUES\<close> by blast
    ultimately show ?thesis using ht \<open>q' \<noteq> q\<close> chain_cong_set by metis
  qed
  then show "if 0 \<le> q' \<and> q' < NR_SCHED_QUEUES
    then chain (nextready t) (run_q_head t q') ((Q(q := xs)) q') \<and>
         run_q_tail t q' = (if (Q(q := xs)) q' = [] then None else Some (last ((Q(q := xs)) q'))) \<and>
         (\<forall>p \<in> set ((Q(q := xs)) q'). prio s p = q')
    else (Q(q := xs)) q' = []"
    using mine q ht rq_at [OF rq, of q'] rq_out [OF rq, of q'] by (cases "q' = q") auto
qed

text \<open>Taking a process off its queue.\<close>

lemma unlink_ready_ok:
  assumes rq: "rq_lists Q s" and p: "0 \<le> q" "q < NR_SCHED_QUEUES" "Q q = as @ p # bs"
  defines "prev \<equiv> if as = [] then None else Some (last as)"
  shows "rq_lists (Q(q := as @ bs)) (unlink_ready q prev p s) \<and> sched_only s (unlink_ready q prev p s)"
proof -
  let ?t = "unlink_ready q prev p s"
  have c: "chain (nextready s) (run_q_head s q) (as @ p # bs)" "run_q_tail s q = Some (last (as @ p # bs))"
    "\<forall>x \<in> set (as @ p # bs). prio s x = q"
    using rq_at [OF rq p(1,2)] unfolding p(3) by simp_all
  have d: "distinct (as @ p # bs)" using c(1) by (rule chain_distinct)
  have so: "sched_only s ?t"
  proof -
    have a: "sched_only s (upd_sched b (\<lambda>n. n\<lparr>p_nextready := v\<rparr>) s)" for b v s by (rule sched_only_writes) simp
    show ?thesis
      by (auto simp: unlink_ready_def Let_def a sched_only_writes split: option.split
          intro: sched_only_trans [OF a sched_only_writes(2)] sched_only_trans [OF sched_only_writes(1) sched_only_writes(2)])
  qed
  have pr: "prio ?t = prio s" using so by (auto simp: sched_only_def)
  have tl: "run_q_tail s q = Some p \<longleftrightarrow> bs = []" using c(2) d by (auto simp: last_append)
  have hd: "run_q_head ?t q' = (if q' = q \<and> as = [] then nextready s p else run_q_head s q')" for q'
    by (simp add: unlink_ready_def prev_def Let_def)
  have tt: "run_q_tail ?t q' = (if q' = q \<and> bs = [] then prev else run_q_tail s q')" for q'
    using tl by (auto simp: unlink_ready_def Let_def split: option.splits)
  have nx: "nextready ?t = (if as = [] then nextready s else (nextready s)(last as := nextready s p))"
    by (auto simp: unlink_ready_def prev_def Let_def nextready_upd)
  have mine: "chain (nextready ?t) (run_q_head ?t q) (as @ bs)"
  proof (cases "as = []")
    case True
    then show ?thesis using c(1) by (simp add: nx hd)
  next
    case False
    then have as: "as = butlast as @ [last as]" by simp
    have "chain (nextready s) (run_q_head s q) (butlast as @ last as # p # bs)"
      using c(1) as by (metis append.assoc append_Cons append_Nil)
    from chain_unlink_mid [OF this] have "chain ((nextready s)(last as := nextready s p)) (run_q_head s q) (as @ bs)"
      using as by (metis append.assoc append_Cons append_Nil)
    then show ?thesis using False by (simp add: nx hd)
  qed
  have tail: "run_q_tail ?t q = (if as @ bs = [] then None else Some (last (as @ bs)))"
    using c(2) unfolding tt by (auto simp: prev_def)
  have "rq_lists (Q(q := as @ bs)) ?t"
    by (rule rq_change [OF rq p(1,2) pr _ _ mine tail]) (use c(3) in \<open>auto simp: nx hd tt\<close>)
  then show ?thesis using so by blast
qed

lemma account_dequeue_ok: "rq_lists Q (account_dequeue p s) = rq_lists Q s" "sched_only s (account_dequeue p s)"
proof -
  show "rq_lists Q (account_dequeue p s) = rq_lists Q s"
    by (auto simp: account_dequeue_def Let_def read_tsc_64_def rq_only_accounts)
  let ?s = "upd_sched p (\<lambda>n. n\<lparr>dequeues := dequeues n + 1\<rparr>) s"
  have a: "sched_only s ?s" by (rule sched_only_writes) simp
  have b: "sched_only t (upd_sched p (\<lambda>n. n\<lparr>time_in_queue := time_in_queue n + (k - enter_queue n), enter_queue := 0\<rparr>) t)" for k t
    by (rule sched_only_writes) simp
  have c: "sched_only ?s (upd_sched p (\<lambda>n. n\<lparr>time_in_queue := time_in_queue n + (k - enter_queue n), enter_queue := 0\<rparr>) (?s\<lparr>tsc_n := i\<rparr>))" for k i
    by (rule sched_only_trans [OF sched_only_writes(4) b])
  show "sched_only s (account_dequeue p s)"
    using a sched_only_trans [OF a c] by (simp add: account_dequeue_def Let_def read_tsc_64_def)
qed

lemma dequeue_ok:
  assumes rq: "rq_lists Q s" and ok: "sched_ok s p" and nr: "\<not> proc_is_runnable (procs s p)"
  shows "\<exists>t. dequeue p s = Inr t \<and> rq_lists (Q(prio s p := removeAll p (Q (prio s p)))) t \<and> sched_only s t"
proof -
  let ?q = "prio s p"
  have q: "0 \<le> ?q" "?q < NR_SCHED_QUEUES" using ok by (auto simp: sched_ok_def)
  have c: "chain (nextready s) (run_q_head s ?q) (Q ?q)" using rq q by (rule rq_at)
  have sp: "search_prev (nextready s) (\<lambda>x. x = p) (run_q_head s ?q) = Inr (prev_in (\<lambda>x. x = p) None (Q ?q))"
    using c by (rule search_prev_chain)
  have base: "dequeue p s = Inr (account_dequeue p
      (case prev_in (\<lambda>x. x = p) None (Q ?q) of None \<Rightarrow> s | Some (prev, x) \<Rightarrow> unlink_ready ?q prev p s))"
    using ok nr q sp by (simp add: dequeue_def sched_ok_def kassert_def q_index_def)
  show ?thesis
  proof (cases "p \<in> set (Q ?q)")
    case False
    then have "prev_in (\<lambda>x. x = p) None (Q ?q) = None" by (auto simp: prev_in_None)
    moreover have "Q(?q := removeAll p (Q ?q)) = Q" using False by simp
    ultimately show ?thesis using base rq account_dequeue_ok by auto
  next
    case True
    then obtain as bs where s: "Q ?q = as @ p # bs" by (meson split_list)
    have d: "distinct (as @ p # bs)" using chain_distinct [OF c] s by simp
    then have pi: "prev_in (\<lambda>x. x = p) None (Q ?q) = Some (if as = [] then None else Some (last as), p)"
      unfolding s by (intro prev_in_split) auto
    have ra: "removeAll p (Q ?q) = as @ bs" using d s by simp
    show ?thesis
      using base unlink_ready_ok [OF rq q s] account_dequeue_ok sched_only_trans unfolding pi ra by auto
  qed
qed

text \<open>Putting a process on its queue, at either end.\<close>

lemma sched_only_link:
  "sched_only s (upd_sched p (\<lambda>n. n\<lparr>p_nextready := v\<rparr>) s)"
  by (rule sched_only_writes) simp

lemma link_ready_ok:
  assumes rq: "rq_lists Q s" and q: "0 \<le> q" "q < NR_SCHED_QUEUES" and p: "prio s p = q" "p \<notin> set (Q q)"
  shows "\<exists>t. link_ready q p s = Inr t \<and> rq_lists (Q(q := Q q @ [p])) t \<and> sched_only s t"
proof -
  note r = rq_at [OF rq q]
  show ?thesis
  proof (cases "Q q = []")
    case True
    let ?t = "upd_sched p (\<lambda>n. n\<lparr>p_nextready := None\<rparr>) (set_tail q (Some p) (set_head q (Some p) s))"
    have l: "link_ready q p s = Inr ?t" using r(1) True by (simp add: link_ready_def)
    have so: "sched_only s ?t"
      by (rule sched_only_trans [OF sched_only_trans [OF sched_only_writes(1) sched_only_writes(2)] sched_only_link])
    then have pr: "prio ?t = prio s" by (auto simp: sched_only_def)
    have "rq_lists (Q(q := Q q @ [p])) ?t"
      by (rule rq_change [OF rq q pr]) (use p True in \<open>auto simp: nextready_upd\<close>)
    then show ?thesis using l so by blast
  next
    case False
    let ?t = "upd_sched p (\<lambda>n. n\<lparr>p_nextready := None\<rparr>)
       (set_tail q (Some p) (upd_sched (last (Q q)) (\<lambda>n. n\<lparr>p_nextready := Some p\<rparr>) s))"
    have l: "link_ready q p s = Inr ?t"
      using r(1,2) False chain_head [OF r(1)] by (simp add: link_ready_def split: list.splits)
    have so: "sched_only s ?t"
      by (rule sched_only_trans [OF sched_only_trans [OF sched_only_link sched_only_writes(2)] sched_only_link])
    then have pr: "prio ?t = prio s" by (auto simp: sched_only_def)
    have nx: "nextready ?t = (nextready s)(last (Q q) := Some p, p := None)"
      by (simp add: nextready_upd)
    have "rq_lists (Q(q := Q q @ [p])) ?t"
    proof (rule rq_change [OF rq q pr])
      show "nextready ?t x = nextready s x" if "prio s x \<noteq> q" for x
        using that p(1) r(3) [of "last (Q q)"] False by (auto simp: nx)
      show "chain (nextready ?t) (run_q_head ?t q) (Q q @ [p])"
        using chain_append_tail [OF r(1) False p(2)] by (simp add: nx)
      show "\<forall>x \<in> set (Q q @ [p]). prio s x = q" using r(3) p(1) by simp
    qed simp_all
    then show ?thesis using l so by blast
  qed
qed

lemma note_enter_ok: "rq_lists Q (note_enter s) = rq_lists Q s" "sched_only s (note_enter s)"
proof -
  show "rq_lists Q (note_enter s) = rq_lists Q s"
    by (simp add: note_enter_def read_tsc_64_def rq_only_accounts)
  have "sched_only t (upd_sched p (\<lambda>n. n\<lparr>enter_queue := k\<rparr>) t)" for k p t
    by (rule sched_only_writes) simp
  then show "sched_only s (note_enter s)"
    unfolding note_enter_def read_tsc_64_def by (auto intro: sched_only_trans [OF sched_only_writes(4)])
qed

text \<open>The invariant, carried over a change of the flags of one process.\<close>

definition with_flags :: "int \<Rightarrow> u32 \<Rightarrow> kstate \<Rightarrow> kstate" where
  "with_flags p f = upd_proc p (\<lambda>q. q\<lparr>p_rts_flags := f\<rparr>)"

lemma with_flags_sel [simp]:
  "p_rts_flags (procs (with_flags p f s) x) = (if x = p then f else p_rts_flags (procs s x))"
  "prio (with_flags p f s) = prio s" "nextready (with_flags p f s) = nextready s"
  "run_q_head (with_flags p f s) = run_q_head s" "run_q_tail (with_flags p f s) = run_q_tail s"
  "proc_ptr (with_flags p f s) = proc_ptr s" "sched_ok (with_flags p f s) = sched_ok s"
  "priv_of (with_flags p f s) = priv_of s"
  by (auto simp: with_flags_def prio_def nextready_def sched_ok_def proc_ptr_ok_def priv_of_def fun_eq_iff upd_proc_def)

lemma rq_lists_flags [simp]: "rq_lists Q (with_flags p f s) = rq_lists Q s"
  by (simp add: rq_lists_def)

lemma rq_invD:
  assumes "rq_inv Q s"
  shows "rq_lists Q s" "isokprocn p \<Longrightarrow> sched_ok s p"
    "p \<in> set (Q (prio s p)) \<longleftrightarrow> isokprocn p \<and> proc_is_runnable (procs s p)"
    "p \<in> set (Q q) \<Longrightarrow> q = prio s p"
proof -
  show r: "rq_lists Q s" and "isokprocn p \<Longrightarrow> sched_ok s p"
    "p \<in> set (Q (prio s p)) \<longleftrightarrow> isokprocn p \<and> proc_is_runnable (procs s p)"
    using assms by (auto simp: rq_inv_def)
  show "p \<in> set (Q q) \<Longrightarrow> q = prio s p"
    using rq_at(3) [OF r, of q p] rq_out [OF r, of q] by fastforce
qed

lemma rq_inv_step:
  assumes inv: "rq_inv Q s" and so: "sched_only (with_flags p f s) t" and rq: "rq_lists Q' t"
    and mem: "\<And>x. x \<in> set (Q' (prio s x)) \<longleftrightarrow> (if x = p then isokprocn p \<and> f = 0 else x \<in> set (Q (prio s x)))"
  shows "rq_inv Q' t"
proof -
  have pr: "prio t x = prio s x" for x using so by (simp add: sched_only_def)
  have fl: "p_rts_flags (procs t x) = (if x = p then f else p_rts_flags (procs s x))" for x
    using sched_only_proc(1) [OF so] by simp
  have ok: "sched_ok t x = sched_ok s x" for x using sched_only_ok [OF so] by simp
  show ?thesis
    using rq inv mem unfolding rq_inv_def pr ok by (auto simp: proc_is_runnable_def fl)
qed

text \<open>\<open>RTS_SET\<close>: a process that had no flag leaves its queue.\<close>

lemma RTS_SET_ok:
  assumes inv: "rq_inv Q s" and p: "isokprocn p" and f: "f \<noteq> 0"
  defines "Q' \<equiv> if proc_is_runnable (procs s p) then Q(prio s p := removeAll p (Q (prio s p))) else Q"
  shows "\<exists>t. RTS_SET p f s = Inr t \<and> rq_inv Q' t \<and> sched_only (with_flags p (setf (p_rts_flags (procs s p)) f) s) t"
proof -
  let ?f = "setf (p_rts_flags (procs s p)) f"
  let ?s = "with_flags p ?f s"
  note i = rq_invD [OF inv]
  have nz: "?f \<noteq> 0" using f by (simp add: setf_def)
  have u: "upd_proc p (\<lambda>q. q\<lparr>p_rts_flags := setf (p_rts_flags q) f\<rparr>) s = ?s"
    by (simp add: with_flags_def upd_proc_def)
  show ?thesis
  proof (cases "proc_is_runnable (procs s p)")
    case True
    have nr: "\<not> proc_is_runnable (procs ?s p)" using nz by (simp add: proc_is_runnable_def)
    obtain t where t: "dequeue p ?s = Inr t" "rq_lists (Q(prio s p := removeAll p (Q (prio s p)))) t" "sched_only ?s t"
      using dequeue_ok [of Q ?s p] i(1,2) p nr by auto
    have "rq_inv (Q(prio s p := removeAll p (Q (prio s p)))) t"
      by (rule rq_inv_step [OF inv t(3,2)]) (use nz in auto)
    then show ?thesis
      using t True nr unfolding RTS_SET_def Let_def u Q'_def by (simp add: proc_is_runnable_def)
  next
    case False
    have "rq_inv Q ?s"
      by (rule rq_inv_step [OF inv sched_only_refl]) (use i nz False in auto)
    then show ?thesis using False unfolding RTS_SET_def Let_def u Q'_def by (simp add: proc_is_runnable_def)
  qed
qed

text \<open>The process that runs may be the idle process, which is outside the table and has priority 0.\<close>

definition cur_ok :: "kstate \<Rightarrow> bool" where
  "cur_ok s \<longleftrightarrow> isokprocn (proc_ptr s) \<or> prio s (proc_ptr s) \<le> 0"

definition preempts :: "int \<Rightarrow> kstate \<Rightarrow> bool" where
  "preempts p s \<longleftrightarrow> prio s (proc_ptr s) > prio s p \<and> has (s_flags (priv_of s (proc_ptr s))) PREEMPTIBLE"

text \<open>The contract of making a process ready: it is last on its queue, and the current process leaves its
  own queue when it is preempted.\<close>

definition ready_spec :: "int \<Rightarrow> kstate \<Rightarrow> (int \<Rightarrow> int list) \<Rightarrow> int \<Rightarrow> int list" where
  "ready_spec p s Q =
     (let c = proc_ptr s; Q1 = Q(prio s p := Q (prio s p) @ [p])
      in if preempts p s \<and> proc_is_runnable (procs s c) then Q1(prio s c := removeAll c (Q1 (prio s c))) else Q1)"

definition ready_flags :: "int \<Rightarrow> kstate \<Rightarrow> kstate" where
  "ready_flags p s =
     (if preempts p s
      then with_flags (proc_ptr s) (setf (p_rts_flags (procs s (proc_ptr s))) RTS_PREEMPTED) s else s)"

lemma sched_only_view:
  assumes "sched_only s t"
  shows "prio t = prio s" "proc_ptr t = proc_ptr s" "priv_of t = priv_of s" "preempts p t = preempts p s"
    "proc_is_runnable (procs t x) = proc_is_runnable (procs s x)"
  using sched_only_sel [OF assms] sched_only_proc [OF assms] assms
  by (auto simp: sched_only_def priv_of_def preempts_def proc_is_runnable_def fun_eq_iff)

lemma sched_only_flags:
  assumes "sched_only s t" shows "sched_only (with_flags x f s) (with_flags x f t)"
proof -
  have a: "t\<lparr>procs := procs s, run_q_head := run_q_head s, run_q_tail := run_q_tail s, tsc_n := tsc_n s\<rparr> = s"
    and b: "\<And>y. (procs t y)\<lparr>p_sched := p_sched (procs s y)\<rparr> = procs s y"
    and c: "\<And>y. prio t y = prio s y \<and> p_scheduler (p_sched (procs t y)) = p_scheduler (p_sched (procs s y))"
    using assms unfolding sched_only_def by blast+
  let ?P = "(procs s)(x := (procs s x)\<lparr>p_rts_flags := f\<rparr>)"
  have "t\<lparr>procs := ?P, run_q_head := run_q_head s, run_q_tail := run_q_tail s, tsc_n := tsc_n s\<rparr> = s\<lparr>procs := ?P\<rparr>"
    by (subst (3) a [symmetric]) simp
  moreover have "(procs t x)\<lparr>p_rts_flags := f, p_sched := p_sched (procs s x)\<rparr> = (procs s x)\<lparr>p_rts_flags := f\<rparr>"
    by (subst (2) b [of x, symmetric]) simp
  ultimately show ?thesis using b c unfolding sched_only_def by (auto simp: with_flags_def upd_proc_def prio_def)
qed

lemma note_enter_inv: "rq_inv Q s \<Longrightarrow> rq_inv Q (note_enter s)"
  using note_enter_ok(1) [of Q s] sched_only_ok [OF note_enter_ok(2)] sched_only_view [OF note_enter_ok(2)]
  by (simp add: rq_inv_def)

lemma enqueue_ok:
  assumes inv: "rq_inv Q s" and p: "isokprocn p"
    and out: "\<not> proc_is_runnable (procs s p)" and cur: "cur_ok s"
  shows "\<exists>t. enqueue p (with_flags p 0 s) = Inr t \<and> rq_inv (ready_spec p (with_flags p 0 s) Q) t \<and>
    sched_only (ready_flags p (with_flags p 0 s)) t"
proof -
  let ?s = "with_flags p 0 s" and ?c = "proc_ptr s" and ?q = "prio s p"
  let ?Q = "Q(?q := Q ?q @ [p])"
  note i = rq_invD [OF inv]
  have q: "0 \<le> ?q" "?q < NR_SCHED_QUEUES" using i(2) [OF p] by (auto simp: sched_ok_def)
  have ni: "p \<notin> set (Q ?q)" using i(3) out by simp
  obtain u where u: "link_ready ?q p ?s = Inr u" "rq_lists ?Q u" "sched_only ?s u"
    using link_ready_ok [of Q ?s ?q p] i(1) q ni by auto
  have uinv: "rq_inv ?Q u"
    by (rule rq_inv_step [OF inv u(3,2)]) (use p in auto)
  note v = sched_only_view [OF u(3)]
  have e: "enqueue p ?s = bnd (preempt_for p u) (\<lambda>s. Inr (note_enter s))"
    using q u(1) by (simp add: enqueue_def kassert_def proc_is_runnable_def q_index_def)
  have "\<exists>t. preempt_for p u = Inr t \<and> rq_inv (ready_spec p ?s Q) t \<and> sched_only (ready_flags p ?s) t"
  proof (cases "preempts p ?s")
    case True
    then have c: "isokprocn ?c" using cur q by (auto simp: preempts_def cur_ok_def)
    obtain t where t: "RTS_SET ?c RTS_PREEMPTED u = Inr t"
      "rq_inv (if proc_is_runnable (procs u ?c) then ?Q(prio u ?c := removeAll ?c (?Q (prio u ?c))) else ?Q) t"
      "sched_only (with_flags ?c (setf (p_rts_flags (procs u ?c)) RTS_PREEMPTED) u) t"
      using RTS_SET_ok [OF uinv c, of RTS_PREEMPTED] by auto
    have "sched_only (ready_flags p ?s) t"
      using True sched_only_trans [OF sched_only_flags [OF u(3)] t(3)] v(2) sched_only_proc(1) [OF u(3)]
      by (simp add: ready_flags_def)
    then show ?thesis
      using t True v by (auto simp: preempt_for_def preempts_def ready_spec_def Let_def)
  next
    case False
    then show ?thesis
      using u uinv v by (auto simp: preempt_for_def preempts_def ready_spec_def ready_flags_def Let_def)
  qed
  then obtain t where t: "preempt_for p u = Inr t" "rq_inv (ready_spec p ?s Q) t" "sched_only (ready_flags p ?s) t" by blast
  show ?thesis using e t(1) note_enter_inv [OF t(2)] sched_only_trans [OF t(3) note_enter_ok(2)] by auto
qed

lemma RTS_UNSET_ok:
  fixes f :: u32
  assumes inv: "rq_inv Q s" and p: "isokprocn p" and cur: "cur_ok s"
  defines "f' \<equiv> clrf (p_rts_flags (procs s p)) f"
  defines "wakes \<equiv> \<not> proc_is_runnable (procs s p) \<and> f' = 0"
  shows "\<exists>t. RTS_UNSET p f s = Inr t \<and>
    rq_inv (if wakes then ready_spec p (with_flags p f' s) Q else Q) t \<and>
    sched_only (if wakes then ready_flags p (with_flags p f' s) else with_flags p f' s) t"
proof -
  have u: "upd_proc p (\<lambda>q. q\<lparr>p_rts_flags := clrf (p_rts_flags q) f\<rparr>) s = with_flags p f' s"
    by (simp add: with_flags_def upd_proc_def f'_def)
  show ?thesis
  proof (cases wakes)
    case True
    then have w: "f' = 0" "\<not> proc_is_runnable (procs s p)" by (auto simp: wakes_def)
    then show ?thesis
      using enqueue_ok [OF inv p w(2) cur] True unfolding RTS_UNSET_def Let_def u
      by (simp add: proc_is_runnable_def)
  next
    case False
    have z: "p_rts_flags (procs s p) = 0 \<Longrightarrow> f' = 0" by (simp add: f'_def clrf_def)
    have "rq_inv Q (with_flags p f' s)"
      by (rule rq_inv_step [OF inv sched_only_refl]) (use False z rq_invD [OF inv] p in \<open>auto simp: wakes_def proc_is_runnable_def\<close>)
    then show ?thesis using False unfolding RTS_UNSET_def Let_def u
      by (auto simp: wakes_def proc_is_runnable_def)
  qed
qed

lemma sched_only_account:
  "sched_only s (upd_sched p (\<lambda>n. n\<lparr>dequeues := a n, preempted := b n\<rparr>) s)"
  by (rule sched_only_writes) simp

text \<open>A preempted process that becomes runnable again is put back at the front of its queue.\<close>

lemma enqueue_head_ok:
  assumes inv: "rq_inv Q s" and p: "isokprocn p" and out: "\<not> proc_is_runnable (procs s p)"
    and time: "p_cpu_time_left (procs s p) \<noteq> 0"
  shows "\<exists>t. enqueue_head p (with_flags p 0 s) = Inr t \<and> rq_inv (Q(prio s p := p # Q (prio s p))) t \<and>
    sched_only (with_flags p 0 s) t"
proof -
  let ?s = "with_flags p 0 s" and ?q = "prio s p"
  let ?u = "case run_q_head ?s ?q of
      None \<Rightarrow> upd_sched p (\<lambda>n. n\<lparr>p_nextready := None\<rparr>) (set_tail ?q (Some p) (set_head ?q (Some p) ?s))
    | Some h \<Rightarrow> upd_sched p (\<lambda>n. n\<lparr>p_nextready := Some h\<rparr>) ?s"
  let ?v = "set_head ?q (Some p) ?u"
  let ?t = "upd_sched p (\<lambda>n. n\<lparr>dequeues := dequeues n - 1, preempted := preempted n + 1\<rparr>) (note_enter ?v)"
  note i = rq_invD [OF inv]
  have ok: "sched_ok s p" and q: "0 \<le> ?q" "?q < NR_SCHED_QUEUES" using i(2) [OF p] by (auto simp: sched_ok_def)
  have ni: "p \<notin> set (Q ?q)" using i(3) out by simp
  note r = rq_at [OF i(1) q]
  have "p_cpu_time_left (procs ?s p) \<noteq> 0" "p_magic (procs ?s p) = PMAGIC" "p_rts_flags (procs ?s p) = 0"
    using time ok by (simp_all add: with_flags_def upd_proc_def sched_ok_def proc_ptr_ok_def)
  then have e: "enqueue_head p ?s = Inr ?t"
    using q by (simp add: enqueue_head_def kassert_def proc_is_runnable_def q_index_def proc_ptr_ok_def Let_def cong: option.case_cong)
  have nv: "nextready ?v = (nextready s)(p := run_q_head s ?q)" by (simp add: nextready_upd split: option.split)
  have su: "sched_only ?s ?u"
    by (cases "run_q_head ?s ?q")
      (simp_all add: sched_only_link sched_only_trans [OF sched_only_trans [OF sched_only_writes(1) sched_only_writes(2)] sched_only_link])
  then have sv: "sched_only ?s ?v" by (rule sched_only_trans [OF _ sched_only_writes(1)])
  then have pv: "prio ?v = prio ?s" by (rule sched_only_view)
  have rv: "rq_lists (Q(?q := p # Q ?q)) ?v"
  proof (rule rq_change [OF _ q pv])
    show "rq_lists Q ?s" using i(1) by simp
    show "chain (nextready ?v) (run_q_head ?v ?q) (p # Q ?q)"
      using r(1) ni unfolding nv by simp
    show "run_q_tail ?v ?q = (if p # Q ?q = [] then None else Some (last (p # Q ?q)))"
      using r(2) chain_head [OF r(1)] by (cases "Q ?q") auto
    show "\<forall>x \<in> set (p # Q ?q). prio ?s x = ?q" using r(3) by simp
    show "nextready ?v x = nextready ?s x" if "prio ?s x \<noteq> ?q" for x using that unfolding nv by auto
  qed (simp split: option.split)
  have st: "sched_only ?s ?t"
    by (rule sched_only_trans [OF sched_only_trans [OF sv note_enter_ok(2)] sched_only_account])
  have rt: "rq_lists (Q(?q := p # Q ?q)) ?t"
    using rv note_enter_ok(1) [of _ ?v] by (simp add: rq_only_accounts)
  have "rq_inv (Q(?q := p # Q ?q)) ?t" by (rule rq_inv_step [OF inv st rt]) (use p in auto)
  then show ?thesis using e st by blast
qed

text \<open>Changing the priority of a process that is on no queue.\<close>

lemma rq_inv_reprioritise:
  assumes inv: "rq_inv Q s" and p: "\<not> proc_is_runnable (procs s p)" and f: "0 \<le> n" "n < NR_SCHED_QUEUES"
  shows "rq_inv Q (upd_sched p (\<lambda>x. x\<lparr>p_priority := n\<rparr>) s)" (is "rq_inv Q ?t")
proof -
  note i = rq_invD [OF inv]
  have ni: "p \<notin> set (Q q)" for q using i(3,4) p by blast
  have nx: "nextready ?t = nextready s" by (rule ext) (simp add: nextready_def upd_sched_def)
  have pr: "prio ?t x = (if x = p then n else prio s x)" for x by (simp add: prio_upd)
  have rq: "rq_lists Q ?t"
    unfolding rq_lists_def nx
  proof (intro allI)
    fix q
    show "if 0 \<le> q \<and> q < NR_SCHED_QUEUES
      then chain (nextready s) (run_q_head ?t q) (Q q) \<and>
           run_q_tail ?t q = (if Q q = [] then None else Some (last (Q q))) \<and> (\<forall>x \<in> set (Q q). prio ?t x = q)
      else Q q = []"
      using rq_at [OF i(1), of q] rq_out [OF i(1), of q] ni [of q] by (auto simp: pr)
  qed
  have mp: "p_magic (procs ?t x) = p_magic (procs s x)" "p_priv (procs ?t x) = p_priv (procs s x)"
    "ppriv_addr ?t = ppriv_addr s" for x by (simp_all add: upd_sched_def upd_proc_def)
  have "sched_ok ?t x" if "isokprocn x" for x
    using i(2) [OF that] f mp unfolding sched_ok_def pr proc_ptr_ok_def priv_of_def by simp
  moreover have "x \<in> set (Q (prio ?t x)) \<longleftrightarrow> isokprocn x \<and> proc_is_runnable (procs ?t x)" for x
    using i(3) [of x] ni p unfolding pr by (auto simp: proc_is_runnable_def upd_sched_def)
  ultimately show ?thesis using rq by (simp add: rq_inv_def)
qed

lemma rq_inv_quantum:
  "rq_inv Q (upd_proc p (\<lambda>q. q\<lparr>p_quantum_size_ms := a, p_cpu_time_left := b\<rparr>) s) = rq_inv Q s" (is "rq_inv Q ?t = _")
proof -
  have "nextready ?t = nextready s" "prio ?t = prio s" "sched_ok ?t = sched_ok s"
    "proc_is_runnable (procs ?t x) = proc_is_runnable (procs s x)"
    "run_q_head ?t = run_q_head s" "run_q_tail ?t = run_q_tail s" for x
    by (auto simp: nextready_def prio_def sched_ok_def proc_ptr_ok_def priv_of_def proc_is_runnable_def fun_eq_iff upd_proc_def)
  then show ?thesis by (simp add: rq_inv_def rq_lists_def)
qed

lemma first_unset:
  assumes inv: "rq_inv Q s" and p: "isokprocn p"
  shows "\<exists>t Q'. (if proc_is_runnable (procs s p) then RTS_SET p RTS_NO_QUANTUM s else Inr s) = Inr t \<and> rq_inv Q' t \<and>
     \<not> proc_is_runnable (procs t p) \<and> prio t = prio s \<and> proc_ptr t = proc_ptr s \<and>
     (p_rts_flags (procs t p) = (if proc_is_runnable (procs s p) then RTS_NO_QUANTUM else p_rts_flags (procs s p)))"
proof (cases "proc_is_runnable (procs s p)")
  case True
  obtain t where t: "RTS_SET p RTS_NO_QUANTUM s = Inr t" "rq_inv (Q(prio s p := removeAll p (Q (prio s p)))) t"
    "sched_only (with_flags p (setf (p_rts_flags (procs s p)) RTS_NO_QUANTUM) s) t"
    using RTS_SET_ok [OF inv p, of RTS_NO_QUANTUM] True by auto
  have "p_rts_flags (procs t p) = RTS_NO_QUANTUM"
    using sched_only_proc(1) [OF t(3)] True by (simp add: setf_def proc_is_runnable_def)
  moreover have "prio t = prio s" "proc_ptr t = proc_ptr s" using sched_only_view [OF t(3)] by simp_all
  ultimately show ?thesis using True t by (auto simp: proc_is_runnable_def)
qed (use inv in auto)

lemma RTS_UNSET_inv:
  assumes "rq_inv Q s" "isokprocn p" "cur_ok s"
  shows "\<exists>t Q' S. RTS_UNSET p f s = Inr t \<and> rq_inv Q' t \<and> sched_only S t \<and> prio S = prio s \<and> proc_ptr S = proc_ptr s"
proof -
  have "prio (ready_flags p s) = prio s" "proc_ptr (ready_flags p s) = proc_ptr s" for s
    by (simp_all add: ready_flags_def)
  then show ?thesis using RTS_UNSET_ok [OF assms, of f] with_flags_sel(2,6) by (smt (verit))
qed

text \<open>\<open>sched_proc\<close> on a priority of the table: it succeeds and the invariant is kept.\<close>

lemma sched_proc_ok:
  assumes inv: "rq_inv Q s" and p: "isokprocn p" and cur: "cur_ok s"
    and pr: "priority = - 1 \<or> 0 \<le> priority \<and> priority < NR_SCHED_QUEUES" and qu: "quantum = - 1 \<or> 1 \<le> quantum"
  shows "\<exists>t Q'. sched_proc p priority quantum s = Inr (OK, t) \<and> rq_inv Q' t \<and> cur_ok t \<and>
    prio t p = (if priority = - 1 then prio s p else priority)"
proof -
  obtain t Q1 where t: "(if proc_is_runnable (procs s p) then RTS_SET p RTS_NO_QUANTUM s else Inr s) = Inr t"
    "rq_inv Q1 t" "\<not> proc_is_runnable (procs t p)" "prio t = prio s" "proc_ptr t = proc_ptr s"
    using first_unset [OF inv p] by metis
  let ?u = "if priority \<noteq> - 1 then upd_sched p (\<lambda>n. n\<lparr>p_priority := priority\<rparr>) t else t"
  let ?v = "if quantum \<noteq> - 1
            then upd_proc p (\<lambda>q. q\<lparr>p_quantum_size_ms := of_int quantum,
                          p_cpu_time_left := ms_2_cpu_time (of_int quantum) ?u\<rparr>) ?u else ?u"
  have iu: "rq_inv Q1 ?u" using rq_inv_reprioritise [OF t(2,3)] t(2) pr by auto
  then have iv: "rq_inv Q1 ?v" by (simp add: rq_inv_quantum del: upd_proc_def)
  have pv: "prio ?v x = (if x = p \<and> priority \<noteq> - 1 then priority else prio s x)" "proc_ptr ?v = proc_ptr s" for x
    using t(4,5) by (auto simp: prio_def upd_sched_def upd_proc_def fun_eq_iff)
  have cv: "cur_ok ?v" using cur p pv by (auto simp: cur_ok_def)
  obtain w Q' S where w: "RTS_UNSET p RTS_NO_QUANTUM ?v = Inr w" "rq_inv Q' w" "sched_only S w"
    "prio S = prio ?v" "proc_ptr S = proc_ptr ?v"
    using RTS_UNSET_inv [OF iv p cv, of RTS_NO_QUANTUM] by blast
  note sv = sched_only_view [OF w(3)]
  have "sched_proc p priority quantum s = Inr (OK, w)"
  proof -
    have "\<not> (priority < 0 \<and> priority \<noteq> - 1 \<or> priority > NR_SCHED_QUEUES)" "\<not> (quantum < 1 \<and> quantum \<noteq> - 1)"
      using pr qu by auto
    then show ?thesis using t(1,3) w(1) by (simp add: sched_proc_def Let_def)
  qed
  moreover have "cur_ok w" using cv w(4,5) sv by (simp add: cur_ok_def)
  ultimately show ?thesis using w pv(1) sv(1) by auto
qed

section \<open>The ready lists of a state\<close>

text \<open>The queues of the code as a function of the state; the invariant determines them.\<close>

definition ready_list :: "kstate \<Rightarrow> int \<Rightarrow> int list" where
  "ready_list s q = (if 0 \<le> q \<and> q < NR_SCHED_QUEUES then slots_of (nextready s) (run_q_head s q) else [])"

definition ready_inv :: "kstate \<Rightarrow> bool" where
  "ready_inv s \<longleftrightarrow> rq_inv (ready_list s) s"

lemma ready_list_unique: "rq_lists Q s \<Longrightarrow> ready_list s = Q"
proof
  fix q
  assume rq: "rq_lists Q s"
  show "ready_list s q = Q q"
    using slots_of_chain [OF rq_at(1) [OF rq]] rq_out [OF rq] by (cases "0 \<le> q \<and> q < NR_SCHED_QUEUES") (auto simp: ready_list_def)
qed

lemma ready_invI: "rq_inv Q s \<Longrightarrow> ready_inv s \<and> ready_list s = Q"
  using ready_list_unique rq_invD(1) by (auto simp: ready_inv_def)

lemma ready_member: "ready_inv s \<Longrightarrow> p \<in> set (ready_list s q) \<longleftrightarrow> q = prio s p \<and> isokprocn p \<and> proc_is_runnable (procs s p)"
  using rq_invD(3,4) [of "ready_list s" s] unfolding ready_inv_def by blast

lemma ready_head: "ready_inv s \<Longrightarrow> 0 \<le> q \<Longrightarrow> q < NR_SCHED_QUEUES \<Longrightarrow>
  run_q_head s q = (case ready_list s q of [] \<Rightarrow> None | p # _ \<Rightarrow> Some p)"
  unfolding ready_inv_def by (rule chain_head) (blast intro: rq_at rq_invD)

text \<open>The operations the rest of the kernel applies to the queues.\<close>

datatype sched_op = Block int u32 | Unblock int u32 | Schedule int int int

fun sched_step :: "sched_op \<Rightarrow> kstate \<Rightarrow> stop + kstate" where
  "sched_step (Block p f) s = RTS_SET p f s"
| "sched_step (Unblock p f) s = RTS_UNSET p f s"
| "sched_step (Schedule p n q) s = bnd (sched_proc p n q s) (\<lambda>(_, s). Inr s)"

fun sched_op_ok :: "sched_op \<Rightarrow> bool" where
  "sched_op_ok (Block p f) = (isokprocn p \<and> f \<noteq> 0)"
| "sched_op_ok (Unblock p f) = isokprocn p"
| "sched_op_ok (Schedule p n q) = (isokprocn p \<and> n \<noteq> NR_SCHED_QUEUES)"

lemma sched_proc_einval:
  "priority < 0 \<and> priority \<noteq> - 1 \<or> priority > NR_SCHED_QUEUES \<or> quantum < 1 \<and> quantum \<noteq> - 1 \<Longrightarrow>
   sched_proc p priority quantum s = Inr (EINVAL, s)"
  by (auto simp: sched_proc_def)

interpretation sched: safe_steps "\<lambda>s. ready_inv s \<and> cur_ok s" sched_op_ok sched_step
proof
  fix s a
  assume s: "ready_inv s \<and> cur_ok s" and ok: "sched_op_ok a"
  then have inv: "rq_inv (ready_list s) s" and cur: "cur_ok s" by (auto simp: ready_inv_def)
  show "\<exists>t. sched_step a s = Inr t \<and> ready_inv t \<and> cur_ok t"
  proof (cases a)
    case (Block p f)
    then obtain t Q' S where "RTS_SET p f s = Inr t" "rq_inv Q' t" "sched_only S t" "prio S = prio s" "proc_ptr S = proc_ptr s"
      using RTS_SET_ok [OF inv, of p f] ok by (metis sched_op_ok.simps(1) with_flags_sel(2,6))
    then show ?thesis using Block cur ready_invI sched_only_view(1,2) by (auto simp: cur_ok_def)
  next
    case (Unblock p f)
    then obtain t Q' S where "RTS_UNSET p f s = Inr t" "rq_inv Q' t" "sched_only S t" "prio S = prio s" "proc_ptr S = proc_ptr s"
      using RTS_UNSET_inv [OF inv _ cur, of p f] ok by auto
    then show ?thesis using Unblock cur ready_invI sched_only_view(1,2) by (auto simp: cur_ok_def)
  next
    case (Schedule p n q)
    then have p: "isokprocn p" "n \<noteq> NR_SCHED_QUEUES" using ok by auto
    show ?thesis
    proof (cases "n < 0 \<and> n \<noteq> - 1 \<or> n > NR_SCHED_QUEUES \<or> q < 1 \<and> q \<noteq> - 1")
      case True
      then show ?thesis using Schedule s sched_proc_einval [OF True] by simp
    next
      case False
      then show ?thesis
        using sched_proc_ok [OF inv p(1) cur, of n q] p(2) Schedule ready_invI by fastforce
    qed
  qed
qed

section \<open>Properties\<close>

text \<open>C8. Any sequence of \<open>RTS_SET\<close>, \<open>RTS_UNSET\<close> and \<open>sched_proc\<close> calls on slots of the
  process table, from a state in which the ready lists are in order, runs to its end without a failed
  assertion or a bad pointer and leaves the lists in order: a process is on the list of its priority
  exactly when none of its flags is set. The one value of the priority left out is the one
  \<open>sched_proc\<close> wrongly accepts.
\<close>

theorem ready_lists_kept:
  assumes "ready_inv s" "cur_ok s" "\<forall>a \<in> set as. sched_op_ok a"
  shows "\<exists>t. run_steps sched_step as s = Inr t \<and> ready_inv t \<and>
    (\<forall>p q. p \<in> set (ready_list t q) \<longleftrightarrow> q = prio t p \<and> isokprocn p \<and> proc_is_runnable (procs t p))"
  using sched.run_safe [of s as] assms ready_member by blast

text \<open>Two runnable processes on the list of priority 7, process 1 running.\<close>

definition queue_sample :: kstate where
  "queue_sample = bss_state\<lparr>proc_ptr := 1,
     procs := (\<lambda>n. zero_proc\<lparr>p_nr := n, p_endpoint := n, p_magic := PMAGIC, p_rts_flags := (if n = 1 \<or> n = 2 then 0 else 1),
                 p_cpu_time_left := 1000,
                 p_sched := zero_sched\<lparr>p_priority := (if n = 3 then 5 else 7), p_nextready := (if n = 1 then Some 2 else None)\<rparr>\<rparr>),
     ppriv_addr := (\<lambda>_. zero_priv\<lparr>s_stack_guard := STACK_GUARD, s_flags := PREEMPTIBLE\<rparr>),
     run_q_head := (\<lambda>q. if q = 7 then Some 1 else None), run_q_tail := (\<lambda>q. if q = 7 then Some 2 else None)\<rparr>"

lemma queue_sample_sel [simp]:
  "nextready queue_sample p = (if p = 1 then Some 2 else None)" "prio queue_sample p = (if p = 3 then 5 else 7)"
  "run_q_head queue_sample q = (if q = 7 then Some 1 else None)" "run_q_tail queue_sample q = (if q = 7 then Some 2 else None)"
  "proc_is_runnable (procs queue_sample p) \<longleftrightarrow> p = 1 \<or> p = 2" "p_magic (procs queue_sample p) = PMAGIC"
  "s_stack_guard (priv_of queue_sample p) = STACK_GUARD" "s_flags (priv_of queue_sample p) = PREEMPTIBLE"
  "proc_ptr queue_sample = 1" "p_rts_flags (procs queue_sample p) = (if p = 1 \<or> p = 2 then 0 else 1)"
  "p_cpu_time_left (procs queue_sample p) = 1000"
  by (simp_all add: queue_sample_def nextready_def prio_def proc_is_runnable_def priv_of_def)

lemma queue_sample_inv: "ready_inv queue_sample" "ready_list queue_sample = (\<lambda>_. [])(7 := [1, 2])" "cur_ok queue_sample"
proof -
  have "rq_inv ((\<lambda>_. [])(7 := [1, 2])) queue_sample"
    by (auto simp: rq_inv_def rq_lists_def sched_ok_def proc_ptr_ok_def isokprocn_def)
  then show "ready_inv queue_sample" "ready_list queue_sample = (\<lambda>_. [])(7 := [1, 2])" using ready_invI by auto
  show "cur_ok queue_sample" by (simp add: cur_ok_def isokprocn_def)
qed

theorem ready_lists_kept_witness:
  "\<exists>t. run_steps sched_step [Block 1 RTS_NO_QUANTUM, Schedule 2 4 100, Unblock 1 RTS_NO_QUANTUM] queue_sample = Inr t \<and> ready_inv t"
  using ready_lists_kept [OF queue_sample_inv(1,3), of "[Block 1 RTS_NO_QUANTUM, Schedule 2 4 100, Unblock 1 RTS_NO_QUANTUM]"]
  by (auto simp: isokprocn_def)

text \<open>\<open>RTS_SET\<close> on a runnable process takes exactly this process off its ready list and
  changes no other list, sets the flag and leaves the flags of the other processes alone.
\<close>

theorem RTS_SET_refines:
  assumes "ready_inv s" "isokprocn p" "f \<noteq> 0" "proc_is_runnable (procs s p)"
  shows "\<exists>t. RTS_SET p f s = Inr t \<and> ready_inv t \<and>
    ready_list t = (ready_list s)(prio s p := removeAll p (ready_list s (prio s p))) \<and>
    (\<forall>x. p_rts_flags (procs t x) = (if x = p then f else p_rts_flags (procs s x)))"
proof -
  obtain t where t: "RTS_SET p f s = Inr t" "rq_inv ((ready_list s)(prio s p := removeAll p (ready_list s (prio s p)))) t"
    "sched_only (with_flags p (setf (p_rts_flags (procs s p)) f) s) t"
    using RTS_SET_ok [of "ready_list s" s p f] assms by (auto simp: ready_inv_def)
  have "p_rts_flags (procs t x) = (if x = p then f else p_rts_flags (procs s x))" for x
    using sched_only_proc(1) [OF t(3), of x] assms(4) by (simp add: setf_def proc_is_runnable_def)
  then show ?thesis using t(1) ready_invI [OF t(2)] by blast
qed

theorem RTS_SET_refines_witness:
  "\<exists>t. RTS_SET 1 RTS_NO_QUANTUM queue_sample = Inr t \<and> ready_list t 7 = [2]"
proof -
  obtain t where "RTS_SET 1 RTS_NO_QUANTUM queue_sample = Inr t"
    "ready_list t = (ready_list queue_sample)(prio queue_sample 1 := removeAll 1 (ready_list queue_sample (prio queue_sample 1)))"
    using RTS_SET_refines [OF queue_sample_inv(1), of 1 RTS_NO_QUANTUM] by (auto simp: isokprocn_def)
  then show ?thesis by (simp add: queue_sample_inv(2))
qed

text \<open>C27. \<open>RTS_UNSET\<close> of the last flag of a process appends it to the ready list of its priority,
  and when the current process is preemptible and of lower priority marks it preempted and takes it
  off its own list; the lists change in no other way.
\<close>

theorem RTS_UNSET_refines:
  assumes "ready_inv s" "isokprocn p" "cur_ok s" "p_rts_flags (procs s p) = f" "f \<noteq> 0"
    and c: "c = proc_ptr s" and pre: "preempted_now = (prio s c > prio s p \<and> has (s_flags (priv_of s c)) PREEMPTIBLE)"
  shows "\<exists>t. RTS_UNSET p f s = Inr t \<and> ready_inv t \<and>
    (\<forall>q. ready_list t q =
       (if q = prio s p then ready_list s q @ [p]
        else if preempted_now \<and> q = prio s c then removeAll c (ready_list s q) else ready_list s q)) \<and>
    (\<forall>x. p_rts_flags (procs t x) =
       (if x = p then 0 else if x = c \<and> preempted_now then p_rts_flags (procs s x) OR RTS_PREEMPTED
        else p_rts_flags (procs s x)))"
proof -
  let ?s = "with_flags p 0 s"
  have cl: "clrf f f = 0" by (simp add: clrf_def)
  have inv: "rq_inv (ready_list s) s" using assms(1) by (simp add: ready_inv_def)
  obtain t where t: "RTS_UNSET p f s = Inr t" "rq_inv (ready_spec p ?s (ready_list s)) t" "sched_only (ready_flags p ?s) t"
    using RTS_UNSET_ok [OF inv assms(2,3), of f] assms(4,5) cl by (auto simp: proc_is_runnable_def)
  have pr: "preempts p ?s = preempted_now" using pre c by (simp add: preempts_def)
  have ne: "c \<noteq> p \<and> prio s c \<noteq> prio s p" if preempted_now using that pre by auto
  have off: "c \<notin> set (ready_list s (prio s c))" if "\<not> proc_is_runnable (procs s c)"
    using that ready_member [OF assms(1)] by blast
  have "ready_spec p ?s (ready_list s) q =
     (if q = prio s p then ready_list s q @ [p]
      else if preempted_now \<and> q = prio s c then removeAll c (ready_list s q) else ready_list s q)" for q
    using ne off by (auto simp: ready_spec_def Let_def pr c proc_is_runnable_def)
  moreover have "p_rts_flags (procs t x) =
     (if x = p then 0 else if x = c \<and> preempted_now then p_rts_flags (procs s x) OR RTS_PREEMPTED
      else p_rts_flags (procs s x))" for x
    using sched_only_proc(1) [OF t(3), of x] ne by (auto simp: ready_flags_def pr c setf_def)
  ultimately show ?thesis using t(1) ready_invI [OF t(2)] by auto
qed

theorem RTS_UNSET_refines_witness:
  "\<exists>t. RTS_UNSET 3 1 queue_sample = Inr t \<and> ready_list t 5 = [3] \<and> ready_list t 7 = [2] \<and>
     p_rts_flags (procs t 1) = RTS_PREEMPTED"
proof -
  have h: "isokprocn 3" "p_rts_flags (procs queue_sample 3) = 1" "(1 :: u32) \<noteq> 0" "1 = proc_ptr queue_sample"
    "True = (prio queue_sample 1 > prio queue_sample 3 \<and> has (s_flags (priv_of queue_sample 1)) PREEMPTIBLE)"
    by (simp_all add: isokprocn_def has_def)
  obtain t where t: "RTS_UNSET 3 1 queue_sample = Inr t"
    "\<forall>q. ready_list t q = (if q = prio queue_sample 3 then ready_list queue_sample q @ [3]
        else if True \<and> q = prio queue_sample 1 then removeAll 1 (ready_list queue_sample q) else ready_list queue_sample q)"
    "\<forall>x. p_rts_flags (procs t x) = (if x = 3 then 0 else if x = 1 \<and> True then p_rts_flags (procs queue_sample x) OR RTS_PREEMPTED
        else p_rts_flags (procs queue_sample x))"
    using RTS_UNSET_refines [OF queue_sample_inv(1) h(1) queue_sample_inv(3) h(2,3,4,5)] by blast
  show ?thesis
    using t(1) spec [OF t(2), of 5] spec [OF t(2), of 7] spec [OF t(3), of 1] by (simp add: queue_sample_inv(2))
qed

text \<open>The process at the front of the list of its priority.\<close>

definition first_ready :: "kstate \<Rightarrow> int \<Rightarrow> bool" where
  "first_ready s p \<longleftrightarrow> (case ready_list s (prio s p) of [] \<Rightarrow> False | x # _ \<Rightarrow> x = p)"

lemma first_readyD: "first_ready s p \<Longrightarrow> \<exists>ps. ready_list s (prio s p) = p # ps"
  by (auto simp: first_ready_def split: list.splits)

lemma scan_queues_ok:
  assumes inv: "ready_inv s" and qs: "sorted_wrt (<) qs" "\<forall>q \<in> set qs. 0 \<le> q \<and> q < NR_SCHED_QUEUES"
  shows "(\<exists>p. first_ready s p \<and> prio s p \<in> set qs \<and>
      (\<forall>q \<in> set qs. q < prio s p \<longrightarrow> ready_list s q = []) \<and>
      scan_queues qs s = Inr (Some p, if has (s_flags (priv_of s p)) BILLABLE then s\<lparr>bill_ptr := Some p\<rparr> else s)) \<or>
    (\<forall>q \<in> set qs. ready_list s q = []) \<and> scan_queues qs s = Inr (None, s)"
  using qs
proof (induction qs)
  case Nil
  show ?case by (rule disjI2) simp
next
  case (Cons q qs)
  then have q: "0 \<le> q" "q < NR_SCHED_QUEUES" by auto
  show ?case
  proof (cases "ready_list s q")
    case Nil
    then have "run_q_head s q = None" using ready_head [OF inv q] by simp
    then have sc: "scan_queues (q # qs) s = scan_queues qs s" by simp
    have "sorted_wrt (<) qs" "\<forall>q \<in> set qs. 0 \<le> q \<and> q < NR_SCHED_QUEUES" using Cons.prems by simp_all
    from Cons.IH [OF this] show ?thesis unfolding sc using Nil by (elim disjE exE) auto
  next
    case (Cons p ps)
    then have p: "prio s p = q" "proc_is_runnable (procs s p)" using ready_member [OF inv, of p q] by auto
    have "run_q_head s q = Some p" using ready_head [OF inv q] Cons by simp
    then show ?thesis using p Cons Cons.prems by (intro disjI1 exI [of _ p]) (auto simp: kassert_def first_ready_def)
  qed
qed

text \<open>The scheduler picks the first process of the best non-empty list: it is runnable, no
  runnable process has a higher priority, and it is charged if it is billable; when nothing is
  runnable it picks nothing. It never stops on its assertion.
\<close>

theorem pick_ready_best:
  assumes "ready_inv s"
  shows "(\<exists>p. pick_ready s = Inr (Some p, if has (s_flags (priv_of s p)) BILLABLE then s\<lparr>bill_ptr := Some p\<rparr> else s) \<and>
      p = hd (ready_list s (prio s p)) \<and> isokprocn p \<and> proc_is_runnable (procs s p) \<and>
      (\<forall>x. isokprocn x \<and> proc_is_runnable (procs s x) \<longrightarrow> prio s p \<le> prio s x)) \<or>
    pick_ready s = Inr (None, s) \<and> (\<forall>x. isokprocn x \<longrightarrow> \<not> proc_is_runnable (procs s x))"
proof -
  let ?qs = "[0, 1, 2, 3, 4, 5, 6, 7, 8, 9, 10, 11, 12, 13, 14, 15 :: int]"
  have qs: "sorted_wrt (<) ?qs" "\<forall>q \<in> set ?qs. 0 \<le> q \<and> q < NR_SCHED_QUEUES" by simp_all
  have all: "q \<in> set ?qs" if "0 \<le> q" "q < NR_SCHED_QUEUES" for q :: int using that by (simp, presburger)
  have mem: "prio s x \<in> set ?qs \<and> ready_list s (prio s x) \<noteq> []" if "isokprocn x" "proc_is_runnable (procs s x)" for x
    using that ready_member [OF assms, of x "prio s x"] all [of "prio s x"] assms
    by (fastforce simp: ready_inv_def rq_inv_def sched_ok_def)
  from scan_queues_ok [OF assms qs] show ?thesis
  proof
    assume "\<exists>p. first_ready s p \<and> prio s p \<in> set ?qs \<and>
      (\<forall>q \<in> set ?qs. q < prio s p \<longrightarrow> ready_list s q = []) \<and>
      scan_queues ?qs s = Inr (Some p, if has (s_flags (priv_of s p)) BILLABLE then s\<lparr>bill_ptr := Some p\<rparr> else s)"
    then obtain p where p: "first_ready s p"
      "\<forall>q \<in> set ?qs. q < prio s p \<longrightarrow> ready_list s q = []"
      "scan_queues ?qs s = Inr (Some p, if has (s_flags (priv_of s p)) BILLABLE then s\<lparr>bill_ptr := Some p\<rparr> else s)" by blast
    have "prio s p \<le> prio s x" if "isokprocn x" "proc_is_runnable (procs s x)" for x
      using mem [OF that] p(2) by fastforce
    moreover have "isokprocn p \<and> proc_is_runnable (procs s p)" using ready_member [OF assms, of p "prio s p"] first_readyD [OF p(1)] by auto
    moreover have "p = hd (ready_list s (prio s p))" using first_readyD [OF p(1)] by auto
    ultimately show ?thesis using p(3) unfolding pick_ready_def by blast
  next
    assume "(\<forall>q \<in> set ?qs. ready_list s q = []) \<and> scan_queues ?qs s = Inr (None, s)"
    then show ?thesis using mem unfolding pick_ready_def by blast
  qed
qed

theorem pick_ready_best_witness:
  "pick_ready queue_sample = Inr (Some 1, queue_sample)"
proof -
  have "isokprocn 1" by (simp add: isokprocn_def)
  then obtain p where p: "pick_ready queue_sample = Inr (Some p, if has (s_flags (priv_of queue_sample p)) BILLABLE then queue_sample\<lparr>bill_ptr := Some p\<rparr> else queue_sample)"
    "p = hd (ready_list queue_sample (prio queue_sample p))" "p = 1 \<or> p = 2"
    using pick_ready_best [OF queue_sample_inv(1)] by auto
  have "p = 1" using p(2,3) by (auto simp: queue_sample_inv(2))
  then show ?thesis using p(1) by (simp add: has_def)
qed

text \<open>C38. \<open>sched_proc\<close> accepts the priority \<open>NR_SCHED_QUEUES\<close>, one past the last queue: for
  a process that only waits for its scheduling parameters, the enqueueing then indexes the arrays of
  queue heads and tails out of bounds.
\<close>

theorem sched_proc_out_of_bounds:
  assumes "p_rts_flags (procs s p) = RTS_NO_QUANTUM" "quantum = - 1 \<or> 1 \<le> quantum"
  shows "sched_proc p NR_SCHED_QUEUES quantum s = Inl OutOfBounds"
proof -
  have "\<not> (quantum < 1 \<and> quantum \<noteq> - 1)" using assms(2) by auto
  then show ?thesis
    using assms(1)
    by (simp add: sched_proc_def Let_def proc_is_runnable_def RTS_UNSET_def enqueue_def kassert_def q_index_def
        prio_def upd_sched_def upd_proc_def clrf_def)
qed

theorem sched_proc_out_of_bounds_witness:
  "sched_proc 3 NR_SCHED_QUEUES 100 (upd_proc 3 (\<lambda>q. q\<lparr>p_rts_flags := RTS_NO_QUANTUM\<rparr>) queue_sample) = Inl OutOfBounds"
  by (rule sched_proc_out_of_bounds) simp_all

end
