(* ===== verification/Endpoints.thy ===== *)
theory Endpoints
  imports Ready_Lists
begin

text \<open>
  Endpoints and the blocking graph: the conversion of an endpoint into a process number
  (\<open>isokendpt_f\<close>, \<open>kernel/proc.c\<close>) and the deadlock check the hardening code runs
  before it sends to VM (\<open>deadlock\<close>, \<open>kernel/arch/i386/hcow.c\<close>).
\<close>

section \<open>Definitions\<close>

abbreviation MAX_NR_TASKS :: int where "MAX_NR_TASKS \<equiv> 1023"
abbreviation ANY :: int where "ANY \<equiv> 0x7ace"
abbreviation NONE :: int where "NONE \<equiv> 0x6ace"
abbreviation SELF :: int where "SELF \<equiv> 0x8ace"
abbreviation ENDPOINT_GENERATION_SIZE :: int where "ENDPOINT_GENERATION_SIZE \<equiv> 1023 + 0x8ace + 1"
abbreviation RTS_SENDING :: u32 where "RTS_SENDING \<equiv> 0x04"
abbreviation RTS_RECEIVING :: u32 where "RTS_RECEIVING \<equiv> 0x08"
abbreviation SEND :: u32 where "SEND \<equiv> 1"
abbreviation ELOCKED :: int where "ELOCKED \<equiv> - 101"

text \<open>C's remainder keeps the sign of the dividend.\<close>

definition c_rem :: "int \<Rightarrow> int \<Rightarrow> int" where
  "c_rem a b = (if a \<ge> 0 then a mod b else - ((- a) mod b))"

definition ENDPOINT_P :: "int \<Rightarrow> int" where
  "ENDPOINT_P e = c_rem (e + MAX_NR_TASKS) ENDPOINT_GENERATION_SIZE - MAX_NR_TASKS"

definition isemptyn :: "int \<Rightarrow> kstate \<Rightarrow> bool" where
  "isemptyn n s \<longleftrightarrow> p_rts_flags (procs s n) = RTS_SLOT_FREE"

text \<open>\<open>isokendpt\<close>: the process number, if the endpoint names a live process.\<close>

definition isokendpt :: "int \<Rightarrow> kstate \<Rightarrow> int option" where
  "isokendpt e s =
     (let p = ENDPOINT_P e
      in if isokprocn p \<and> \<not> isemptyn p s \<and> p_endpoint (procs s p) = e then Some p else None)"

definition okendpt :: "int \<Rightarrow> kstate \<Rightarrow> stop + int" where
  "okendpt e s = (case isokendpt e s of Some p \<Rightarrow> Inr p | None \<Rightarrow> Inl (Panic ''invalid endpoint''))"

definition P_BLOCKEDON :: "proc \<Rightarrow> int" where
  "P_BLOCKEDON q =
     (if has (p_rts_flags q) RTS_SENDING then p_sendto_e q
      else if has (p_rts_flags q) RTS_RECEIVING then p_getfrom_e q else NONE)"

text \<open>
  One turn of the loop: the next process of the chain, or the answer. Each process of the chain is
  written to the static array \<open>processes\<close>, which has one entry per slot of the process table; its
  contents are only printed, so that the model keeps the index and the bound. The loop follows the blocking
  graph, and nothing but the array bounds the length of the chain.
\<close>

datatype dl_step = Answer nat | Follow int

abbreviation DL_ENTRIES :: nat where "DL_ENTRIES \<equiv> 261"

definition deadlock_step :: "u32 \<Rightarrow> int \<Rightarrow> int \<Rightarrow> nat \<Rightarrow> kstate \<Rightarrow> stop + dl_step" where
  "deadlock_step function cp e group_size s =
     bnd (okendpt e s) (\<lambda>n.
       let xp = procs s n
       in if \<not> proc_ptr_ok xp then Inl (AssertFail ''proc_ptr_ok(xp)'')
          else if RTS_ISSET xp RTS_SLOT_FREE then Inl (AssertFail ''!RTS_ISSET(xp, RTS_SLOT_FREE)'')
          else if DL_ENTRIES \<le> group_size then Inl OutOfBounds
          else
            let e' = P_BLOCKEDON xp
            in if e' = NONE then Inr (Answer 0)
               else if e' = p_endpoint (procs s cp)
               then (if group_size + 1 = 2 \<and> has (p_rts_flags xp XOR push_bit 2 function) RTS_SENDING
                     then Inr (Answer 0) else Inr (Answer (group_size + 1)))
               else Inr (Follow e'))"

lemma deadlock_step_room: "deadlock_step f cp e g s = Inr r \<Longrightarrow> g < DL_ENTRIES"
  by (auto simp: deadlock_step_def okendpt_def bnd_def Let_def split: option.splits if_splits)

function deadlock_loop :: "u32 \<Rightarrow> int \<Rightarrow> int \<Rightarrow> nat \<Rightarrow> kstate \<Rightarrow> stop + nat" where
  "deadlock_loop function cp e group_size s =
     (if e = ANY then Inr 0
      else (case deadlock_step function cp e group_size s of
              Inl x \<Rightarrow> Inl x
            | Inr (Answer n) \<Rightarrow> Inr n
            | Inr (Follow e') \<Rightarrow> deadlock_loop function cp e' (group_size + 1) s))"
  by pat_completeness auto

termination
proof (relation "measure (\<lambda>(_, _, _, g, _). DL_ENTRIES - g)", simp)
  fix f cp e g s r e'
  assume "e \<noteq> ANY" "deadlock_step f cp e g s = Inr r" "r = Follow e'"
  then have "g < DL_ENTRIES" using deadlock_step_room by blast
  then show "((f, cp, e', g + 1, s), f, cp, e, g, s) \<in> measure (\<lambda>(_, _, _, g, _). DL_ENTRIES - g)" by simp
qed

declare deadlock_loop.simps [simp del]

definition deadlock :: "u32 \<Rightarrow> int \<Rightarrow> int \<Rightarrow> kstate \<Rightarrow> stop + nat" where
  "deadlock function cp src_dst_e s = deadlock_loop function cp src_dst_e 1 s"

end
