(* ===== verification/Ipc.thy ===== *)
theory Ipc
  imports Endpoints
begin

text \<open>
  Message passing (\<open>kernel/proc.c\<close>) and the signals and clean-up of \<open>kernel/system.c\<close>
  that rest on it. A message argument is what the pointer leads to, \<open>None\<close> when the
  sender's memory cannot be read. The table of asynchronous messages lives in the sender's
  memory: \<open>retr e tab i\<close> and \<open>insrt e tab i\<close> stand for the copies of entry \<open>i\<close> from and
  to it (\<open>data_copy\<close>), which may fail. Cycle billing is outside the state, and the
  configuration has one processor and no IPC hooks.
\<close>

section \<open>Constants and macros\<close>

abbreviation RECEIVE :: u32 where "RECEIVE \<equiv> 2"
abbreviation SENDREC :: u32 where "SENDREC \<equiv> 3"
abbreviation NOTIFY :: u32 where "NOTIFY \<equiv> 4"
abbreviation SENDNB :: u32 where "SENDNB \<equiv> 5"
abbreviation MINIX_KERNINFO :: u32 where "MINIX_KERNINFO \<equiv> 6"
abbreviation SENDA :: u32 where "SENDA \<equiv> 16"
abbreviation NON_BLOCKING :: u32 where "NON_BLOCKING \<equiv> 0x80"
abbreviation FROM_KERNEL :: u32 where "FROM_KERNEL \<equiv> 0x100"
abbreviation IPC_FLG_MSG_FROM_KERNEL :: u32 where "IPC_FLG_MSG_FROM_KERNEL \<equiv> 1"
abbreviation NOTIFY_MESSAGE :: int where "NOTIFY_MESSAGE \<equiv> 0x1000"
abbreviation SCHEDULING_NO_QUANTUM :: int where "SCHEDULING_NO_QUANTUM \<equiv> 0xF01"
abbreviation NR_SYS_PROCS :: nat where "NR_SYS_PROCS \<equiv> 64"
abbreviation ASYNCM :: int where "ASYNCM \<equiv> - 5"
abbreviation SYSTEM :: int where "SYSTEM \<equiv> - 2"
abbreviation HARDWARE :: int where "HARDWARE \<equiv> - 1"
abbreviation SYS_PROC :: u32 where "SYS_PROC \<equiv> 0x010"
abbreviation RTS_SIGNALED :: u32 where "RTS_SIGNALED \<equiv> 0x10"
abbreviation RTS_SIG_PENDING :: u32 where "RTS_SIG_PENDING \<equiv> 0x20"
abbreviation RTS_NO_PRIV :: u32 where "RTS_NO_PRIV \<equiv> 0x80"
abbreviation RTS_NO_ENDPOINT :: u32 where "RTS_NO_ENDPOINT \<equiv> 0x100"
abbreviation MF_REPLY_PEND :: u32 where "MF_REPLY_PEND \<equiv> 0x001"
abbreviation MF_DELIVERMSG :: u32 where "MF_DELIVERMSG \<equiv> 0x040"
abbreviation MF_SIG_DELAY :: u32 where "MF_SIG_DELAY \<equiv> 0x080"
abbreviation MF_SC_ACTIVE :: u32 where "MF_SC_ACTIVE \<equiv> 0x100"
abbreviation MF_SC_DEFER :: u32 where "MF_SC_DEFER \<equiv> 0x200"
abbreviation MF_SC_TRACE :: u32 where "MF_SC_TRACE \<equiv> 0x400"
abbreviation MF_SENDING_FROM_KERNEL :: u32 where "MF_SENDING_FROM_KERNEL \<equiv> 0x2000"
abbreviation AMF_VALID :: u32 where "AMF_VALID \<equiv> 1"
abbreviation AMF_DONE :: u32 where "AMF_DONE \<equiv> 2"
abbreviation AMF_NOTIFY :: u32 where "AMF_NOTIFY \<equiv> 4"
abbreviation AMF_NOREPLY :: u32 where "AMF_NOREPLY \<equiv> 8"
abbreviation AMF_NOTIFY_ERR :: u32 where "AMF_NOTIFY_ERR \<equiv> 16"
abbreviation EPERM :: int where "EPERM \<equiv> - 1"
abbreviation ENOENT :: int where "ENOENT \<equiv> - 2"
abbreviation ESRCH :: int where "ESRCH \<equiv> - 3"
abbreviation EAGAIN :: int where "EAGAIN \<equiv> - 11"
abbreviation EDOM :: int where "EDOM \<equiv> - 33"
abbreviation EBADCALL :: int where "EBADCALL \<equiv> - 102"
abbreviation ECALLDENIED :: int where "ECALLDENIED \<equiv> - 104"
abbreviation EDEADSRCDST :: int where "EDEADSRCDST \<equiv> - 105"
abbreviation ENOTREADY :: int where "ENOTREADY \<equiv> - 106"
abbreviation ETRAPDENIED :: int where "ETRAPDENIED \<equiv> - 110"
abbreviation SIGTRAP :: int where "SIGTRAP \<equiv> 5"
abbreviation SIGSNDELAY :: int where "SIGSNDELAY \<equiv> 26"
abbreviation SIGKSIGSM :: int where "SIGKSIGSM \<equiv> 29"
abbreviation SIGKSIG :: int where "SIGKSIG \<equiv> 30"

record asynmsg =
  am_flags :: u32
  am_dst :: int
  am_result :: int
  am_msg :: message

type_synonym retr_fun = "int \<Rightarrow> u32 \<Rightarrow> nat \<Rightarrow> kstate \<Rightarrow> asynmsg option"
type_synonym insrt_fun = "int \<Rightarrow> u32 \<Rightarrow> nat \<Rightarrow> asynmsg \<Rightarrow> kstate \<Rightarrow> kstate option"

definition upd_msgs :: "int \<Rightarrow> (proc_msgs \<Rightarrow> proc_msgs) \<Rightarrow> kstate \<Rightarrow> kstate" where
  "upd_msgs p f = upd_proc p (\<lambda>q. q\<lparr>p_msgs := f (p_msgs q)\<rparr>)"

definition upd_priv :: "int \<Rightarrow> (priv \<Rightarrow> priv) \<Rightarrow> kstate \<Rightarrow> kstate" where
  "upd_priv p f s = s\<lparr>ppriv_addr := (ppriv_addr s)(p_priv (procs s p) := f (priv_of s p))\<rparr>"

definition set_misc :: "int \<Rightarrow> u32 \<Rightarrow> kstate \<Rightarrow> kstate" where
  "set_misc p m = upd_proc p (\<lambda>q. q\<lparr>p_misc_flags := setf (p_misc_flags q) m\<rparr>)"

definition clr_misc :: "int \<Rightarrow> u32 \<Rightarrow> kstate \<Rightarrow> kstate" where
  "clr_misc p m = upd_proc p (\<lambda>q. q\<lparr>p_misc_flags := clrf (p_misc_flags q) m\<rparr>)"

definition misc_is :: "kstate \<Rightarrow> int \<Rightarrow> u32 \<Rightarrow> bool" where
  "misc_is s p m \<longleftrightarrow> has (p_misc_flags (procs s p)) m"

definition q_link :: "kstate \<Rightarrow> int \<Rightarrow> int option" where
  "q_link s p = p_q_link (p_msgs (procs s p))"

definition WILLRECEIVE :: "proc \<Rightarrow> int \<Rightarrow> bool" where
  "WILLRECEIVE target source_ep \<longleftrightarrow>
     (RTS_ISSET target RTS_RECEIVING \<and> \<not> RTS_ISSET target RTS_SENDING) \<and>
     (p_getfrom_e target = ANY \<or> p_getfrom_e target = source_ep)"

definition IPC_STATUS_ADD :: "int \<Rightarrow> u32 \<Rightarrow> kstate \<Rightarrow> kstate" where
  "IPC_STATUS_ADD p m s =
     (if misc_is s p MF_REPLY_PEND then s
      else upd_proc p (\<lambda>q. q\<lparr>p_reg := (p_reg q)\<lparr>r_bx := r_bx (p_reg q) OR m\<rparr>\<rparr>) s)"

definition IPC_STATUS_ADD_CALL :: "int \<Rightarrow> u32 \<Rightarrow> kstate \<Rightarrow> kstate" where
  "IPC_STATUS_ADD_CALL p call = IPC_STATUS_ADD p (call AND 0x3F)"

definition IPC_STATUS_ADD_FLAGS :: "int \<Rightarrow> u32 \<Rightarrow> kstate \<Rightarrow> kstate" where
  "IPC_STATUS_ADD_FLAGS p flags = IPC_STATUS_ADD p (push_bit 16 flags)"

section \<open>Notifications\<close>

definition BuildNotifyMessage :: "int \<Rightarrow> int \<Rightarrow> kstate \<Rightarrow> kstate" where
  "BuildNotifyMessage src dst s =
     (let s = upd_msgs dst (\<lambda>m. m\<lparr>p_delivermsg := (p_delivermsg m)\<lparr>m_type := NOTIFY_MESSAGE, NOTIFY_TIMESTAMP := uptime s\<rparr>\<rparr>) s
      in if src = HARDWARE
         then upd_priv dst (\<lambda>v. v\<lparr>s_int_pending := 0\<rparr>)
                (upd_msgs dst (\<lambda>m. m\<lparr>p_delivermsg := (p_delivermsg m)\<lparr>NOTIFY_ARG := s_int_pending (priv_of s dst)\<rparr>\<rparr>) s)
         else if src = SYSTEM
         then upd_priv dst (\<lambda>v. v\<lparr>s_sig_pending := 0\<rparr>)
                (upd_msgs dst (\<lambda>m. m\<lparr>p_delivermsg := (p_delivermsg m)
                   \<lparr>NOTIFY_ARG := s_sig_pending (priv_of s dst)\<rparr>\<rparr>) s)
         else s)"

definition mini_notify :: "int \<Rightarrow> int \<Rightarrow> kstate \<Rightarrow> stop + (int \<times> kstate)" where
  "mini_notify caller dst_e s =
     (case isokendpt dst_e s of
        None \<Rightarrow> Inr (EDEADSRCDST, s)
      | Some dst \<Rightarrow>
          if WILLRECEIVE (procs s dst) (p_endpoint (procs s caller)) \<and> \<not> misc_is s dst MF_REPLY_PEND
          then bnd (kassert (\<not> misc_is s dst MF_DELIVERMSG) ''!(p_misc_flags & MF_DELIVERMSG)'' s) (\<lambda>s.
                 let s = BuildNotifyMessage (p_nr (procs s caller)) dst s;
                     s = upd_msgs dst (\<lambda>m. m\<lparr>p_delivermsg := (p_delivermsg m)\<lparr>m_source := p_endpoint (procs s caller)\<rparr>\<rparr>) s;
                     s = IPC_STATUS_ADD_CALL dst NOTIFY (set_misc dst MF_DELIVERMSG s)
                 in bnd (RTS_UNSET dst RTS_RECEIVING s) (\<lambda>s. Inr (OK, s)))
          else Inr (OK, upd_priv dst (\<lambda>v. v\<lparr>s_notify_pending := (s_notify_pending v)(s_id (priv_of s caller) := True)\<rparr>) s))"

section \<open>Signals\<close>

text \<open>The shift of \<open>__sigmask\<close> takes its count modulo 32 on this machine.\<close>

definition sigmask :: "int \<Rightarrow> u32" where
  "sigmask n = push_bit (nat (n mod 32)) 1"

definition sigaddset :: "u32 \<Rightarrow> int \<Rightarrow> u32" where
  "sigaddset x n = setf x (sigmask n)"

definition sigismember :: "u32 \<Rightarrow> int \<Rightarrow> bool" where
  "sigismember x n \<longleftrightarrow> has x (sigmask n)"

definition send_sig :: "int \<Rightarrow> int \<Rightarrow> kstate \<Rightarrow> stop + (int \<times> kstate)" where
  "send_sig ep sig_nr s =
     (case isokendpt ep s of
        None \<Rightarrow> Inr (EINVAL, s)
      | Some rp \<Rightarrow>
          bnd (mini_notify SYSTEM (p_endpoint (procs s rp))
                 (upd_priv rp (\<lambda>v. v\<lparr>s_sig_pending := sigaddset (s_sig_pending v) sig_nr\<rparr>) s))
            (\<lambda>(_, s). Inr (OK, s)))"

definition SIGS_IS_LETHAL :: "int \<Rightarrow> bool" where
  "SIGS_IS_LETHAL sig \<longleftrightarrow> sig \<in> {4, 6, 7, 8, 11, 16}"

definition send_or_panic :: "int \<Rightarrow> int \<Rightarrow> kstate \<Rightarrow> stop + kstate" where
  "send_or_panic ep sig_nr s =
     bnd (send_sig ep sig_nr s) (\<lambda>(r, s). if r \<noteq> OK then Inl (Panic ''send_sig failed'') else Inr s)"

text \<open>
  \<open>cause_sig\<close> calls itself once more after it replaced the signal manager by its backup;
  \<open>again\<close> is that call. The second time there is no backup left.
\<close>

definition cause_sig_with :: "(int \<Rightarrow> int \<Rightarrow> kstate \<Rightarrow> stop + kstate) \<Rightarrow> int \<Rightarrow> int \<Rightarrow> kstate \<Rightarrow> stop + kstate" where
  "cause_sig_with again rp sig_nr s =
     (let e = p_endpoint (procs s rp);
          mgr = (if s_sig_mgr (priv_of s rp) = SELF then e else s_sig_mgr (priv_of s rp))
      in if h_unstable_state s = 1 then Inr s
         else if e = mgr
         then (if SIGS_IS_LETHAL sig_nr
               then let bak = s_bak_sig_mgr (priv_of s rp)
                    in (case (if bak \<noteq> NONE then isokendpt bak s else None) of
                          Some m \<Rightarrow>
                            bnd (RTS_UNSET m RTS_NO_PRIV (upd_priv rp (\<lambda>v. v\<lparr>s_sig_mgr := bak, s_bak_sig_mgr := NONE\<rparr>) s))
                              (again rp sig_nr)
                        | None \<Rightarrow> Inl (Panic ''cause_sig: sig manager gets lethal signal for itself''))
               else send_or_panic e SIGKSIGSM
                      (upd_priv rp (\<lambda>v. v\<lparr>s_sig_pending := sigaddset (s_sig_pending v) sig_nr\<rparr>) s))
         else if sigismember (p_pending (procs s rp)) sig_nr then Inr s
         else let s = upd_proc rp (\<lambda>q. q\<lparr>p_pending := sigaddset (p_pending q) sig_nr\<rparr>) s
              in if RTS_ISSET (procs s rp) RTS_SIGNALED then Inr s
                 else bnd (RTS_SET rp (RTS_SIGNALED OR RTS_SIG_PENDING) s) (send_or_panic mgr SIGKSIG))"

definition cause_sig :: "int \<Rightarrow> int \<Rightarrow> kstate \<Rightarrow> stop + kstate" where
  "cause_sig = cause_sig_with (cause_sig_with (\<lambda>_ _ _. Inl Diverges))"

definition sig_delay_done :: "int \<Rightarrow> kstate \<Rightarrow> stop + kstate" where
  "sig_delay_done rp s = cause_sig rp SIGSNDELAY (clr_misc rp MF_SIG_DELAY s)"

section \<open>Synchronous messages\<close>

text \<open>The destination waits for this message.\<close>

definition deliver :: "int \<Rightarrow> int \<Rightarrow> message \<Rightarrow> u32 \<Rightarrow> kstate \<Rightarrow> stop + (int \<times> kstate)" where
  "deliver caller dst m flags s =
     (let s = upd_msgs dst (\<lambda>x. x\<lparr>p_delivermsg := m\<rparr>) s;
          s = (if has flags FROM_KERNEL then IPC_STATUS_ADD_FLAGS dst IPC_FLG_MSG_FROM_KERNEL s else s);
          s = upd_msgs dst (\<lambda>x. x\<lparr>p_delivermsg := (p_delivermsg x)\<lparr>m_source := p_endpoint (procs s caller)\<rparr>\<rparr>) s;
          s = set_misc dst MF_DELIVERMSG s;
          call = (if misc_is s caller MF_REPLY_PEND then SENDREC else if has flags NON_BLOCKING then SENDNB else SEND);
          s = clr_misc dst MF_REPLY_PEND (IPC_STATUS_ADD_CALL dst call s)
      in bnd (RTS_UNSET dst RTS_RECEIVING s) (\<lambda>s. Inr (OK, s)))"

text \<open>\<open>xpp = &dst->p_caller_q; while (*xpp) xpp = &(*xpp)->p_q_link; *xpp = caller;\<close>\<close>

definition append_caller :: "int \<Rightarrow> int \<Rightarrow> kstate \<Rightarrow> stop + kstate" where
  "append_caller caller dst s =
     (case p_caller_q (p_msgs (procs s dst)) of
        None \<Rightarrow> Inr (upd_msgs dst (\<lambda>x. x\<lparr>p_caller_q := Some caller\<rparr>) s)
      | Some h \<Rightarrow> bnd (tail_of (q_link s) (Some h)) (\<lambda>t. Inr (upd_msgs t (\<lambda>x. x\<lparr>p_q_link := Some caller\<rparr>) s)))"

definition block_sender :: "int \<Rightarrow> int \<Rightarrow> int \<Rightarrow> message \<Rightarrow> u32 \<Rightarrow> kstate \<Rightarrow> stop + (int \<times> kstate)" where
  "block_sender caller dst dst_e m flags s =
     (let s = upd_msgs caller (\<lambda>x. x\<lparr>p_sendmsg := m\<rparr>) s;
          s = (if has flags FROM_KERNEL then set_misc caller MF_SENDING_FROM_KERNEL s else s)
      in bnd (RTS_SET caller RTS_SENDING s) (\<lambda>s.
         let s = upd_proc caller (\<lambda>q. q\<lparr>p_sendto_e := dst_e\<rparr>) s
         in bnd (kassert (q_link s caller = None) ''caller_ptr->p_q_link == NULL'' s) (\<lambda>s.
            bnd (append_caller caller dst s) (\<lambda>s. Inr (OK, s)))))"

definition mini_send :: "int \<Rightarrow> int \<Rightarrow> message option \<Rightarrow> u32 \<Rightarrow> kstate \<Rightarrow> stop + (int \<times> kstate)" where
  "mini_send caller dst_e m_ptr flags s =
     (let dst = ENDPOINT_P dst_e
      in if RTS_ISSET (procs s dst) RTS_NO_ENDPOINT then Inr (EDEADSRCDST, s)
         else if WILLRECEIVE (procs s dst) (p_endpoint (procs s caller))
         then bnd (kassert (\<not> misc_is s dst MF_DELIVERMSG) ''!(p_misc_flags & MF_DELIVERMSG)'' s) (\<lambda>s.
                case m_ptr of None \<Rightarrow> Inr (EFAULT, s) | Some m \<Rightarrow> deliver caller dst m flags s)
         else if has flags NON_BLOCKING then Inr (ENOTREADY, s)
         else bnd (deadlock SEND caller dst_e s) (\<lambda>n.
                if n \<noteq> 0 then Inr (ELOCKED, s)
                else (case m_ptr of None \<Rightarrow> Inr (EFAULT, s) | Some m \<Rightarrow> block_sender caller dst dst_e m flags s)))"

text \<open>
  \<open>has_pending\<close>: the bit of the given source, or the first bit set; chunks of 32 bits that
  are zero are skipped.
\<close>

definition first_bit :: "(nat \<Rightarrow> bool) \<Rightarrow> nat option" where
  "first_bit bits =
     (case find (\<lambda>c. \<exists>i \<in> {c ..< c + 32}. bits i) [0, 32] of
        None \<Rightarrow> None
      | Some c \<Rightarrow> find bits [c ..< c + 32])"

definition has_pending :: "(nat \<Rightarrow> bool) \<Rightarrow> int \<Rightarrow> kstate \<Rightarrow> nat option" where
  "has_pending bits src_p s =
     (if src_p \<noteq> ANY
      then (let i = s_id (priv_of s src_p) in if bits i then Some i else None)
      else first_bit bits)"

definition has_pending_notify :: "int \<Rightarrow> int \<Rightarrow> kstate \<Rightarrow> nat option" where
  "has_pending_notify caller src_p s = has_pending (s_notify_pending (priv_of s caller)) src_p s"

definition has_pending_asend :: "int \<Rightarrow> int \<Rightarrow> kstate \<Rightarrow> nat option" where
  "has_pending_asend caller src_p s = has_pending (s_asyn_pending (priv_of s caller)) src_p s"

definition unset_notify_pending :: "int \<Rightarrow> nat \<Rightarrow> kstate \<Rightarrow> kstate" where
  "unset_notify_pending caller i = upd_priv caller (\<lambda>v. v\<lparr>s_notify_pending := (s_notify_pending v)(i := False)\<rparr>)"

definition set_asyn :: "int \<Rightarrow> nat \<Rightarrow> bool \<Rightarrow> kstate \<Rightarrow> kstate" where
  "set_asyn dst i b = upd_priv dst (\<lambda>v. v\<lparr>s_asyn_pending := (s_asyn_pending v)(i := b)\<rparr>)"

definition may_send_to :: "int \<Rightarrow> int \<Rightarrow> kstate \<Rightarrow> bool" where
  "may_send_to rp nr s \<longleftrightarrow> s_ipc_to (priv_of s rp) (s_id (priv_of s nr))"

section \<open>Asynchronous messages\<close>

definition am_bad :: "asynmsg \<Rightarrow> bool" where
  "am_bad e \<longleftrightarrow> has (am_flags e) (NOT (AMF_VALID OR AMF_DONE OR AMF_NOTIFY OR AMF_NOREPLY OR AMF_NOTIFY_ERR)) \<or>
     \<not> has (am_flags e) AMF_VALID"

definition am_notify :: "asynmsg \<Rightarrow> int \<Rightarrow> bool" where
  "am_notify e r \<longleftrightarrow> has (am_flags e) AMF_NOTIFY \<or> r \<noteq> OK \<and> has (am_flags e) AMF_NOTIFY_ERR"

definition am_done :: "int \<Rightarrow> asynmsg \<Rightarrow> asynmsg" where
  "am_done r e = e\<lparr>am_result := r, am_flags := am_flags e OR AMF_DONE\<rparr>"

text \<open>The scan of \<open>try_one\<close>: the result, whether the table is done, whether to notify the
  sender, whether the table could not be accessed, and the state.\<close>

fun try_one_scan :: "retr_fun \<Rightarrow> insrt_fun \<Rightarrow> int \<Rightarrow> int \<Rightarrow> u32 \<Rightarrow> nat list \<Rightarrow> bool \<Rightarrow> kstate \<Rightarrow>
    int \<times> bool \<times> bool \<times> bool \<times> kstate" where
  "try_one_scan retr insrt src dst tab [] done s = (EAGAIN, done, False, False, s)"
| "try_one_scan retr insrt src dst tab (i # is) done s =
     (case retr (p_endpoint (procs s src)) tab i s of
        None \<Rightarrow> (EFAULT, done, False, True, s)
      | Some e \<Rightarrow>
          if am_flags e = 0 \<or> \<not> am_bad e \<and> has (am_flags e) AMF_DONE then try_one_scan retr insrt src dst tab is done s
          else if \<not> am_bad e \<and> (am_dst e \<noteq> p_endpoint (procs s dst) \<or>
                    has (am_flags e) AMF_NOREPLY \<and> misc_is s dst MF_REPLY_PEND)
          then try_one_scan retr insrt src dst tab is False s
          else
            let r = (if am_bad e then EINVAL else OK);
                s = (if am_bad e then s
                     else set_misc dst MF_DELIVERMSG
                            (upd_msgs dst (\<lambda>x. x\<lparr>p_delivermsg := (am_msg e)\<lparr>m_source := p_endpoint (procs s src)\<rparr>\<rparr>) s))
            in (case insrt (p_endpoint (procs s src)) tab i (am_done r e) s of
                  None \<Rightarrow> (EFAULT, False, am_notify e r, True, s)
                | Some s \<Rightarrow> (r, False, am_notify e r, False, s)))"

definition notify_sender :: "bool \<Rightarrow> int \<Rightarrow> kstate \<Rightarrow> stop + kstate" where
  "notify_sender b src s =
     (if b then bnd (mini_notify ASYNCM (p_endpoint (procs s src)) s) (\<lambda>(_, s). Inr s) else Inr s)"

definition set_asyntab :: "int \<Rightarrow> u32 \<Rightarrow> u32 \<Rightarrow> kstate \<Rightarrow> kstate" where
  "set_asyntab p tab n = upd_priv p (\<lambda>v. v\<lparr>s_asyntab := tab, s_asynsize := n\<rparr>)"

definition try_one :: "retr_fun \<Rightarrow> insrt_fun \<Rightarrow> int \<Rightarrow> int \<Rightarrow> kstate \<Rightarrow> stop + (int \<times> kstate)" where
  "try_one retr insrt src dst s =
     (let v = priv_of s src
      in if \<not> has (s_flags v) SYS_PROC then Inr (EPERM, s)
         else let s = set_asyn dst (s_id v) False s
              in if s_asynsize v = 0 then Inr (EAGAIN, s)
                 else if \<not> may_send_to src dst s then Inr (ECALLDENIED, s)
                 else (case try_one_scan retr insrt src dst (s_asyntab v) [0 ..< unat (s_asynsize v)] True s of
                         (r, done, do_notify, err, s) \<Rightarrow>
                           if err then Inr (r, s)
                           else bnd (notify_sender do_notify src s) (\<lambda>s.
                                  Inr (r, if done then set_asyntab src (- 1) 0 s else set_asyn dst (s_id v) True s))))"

fun try_async_scan :: "retr_fun \<Rightarrow> insrt_fun \<Rightarrow> int \<Rightarrow> nat list \<Rightarrow> kstate \<Rightarrow> stop + (int \<times> kstate)" where
  "try_async_scan retr insrt caller [] s = Inr (ESRCH, s)"
| "try_async_scan retr insrt caller (i # is) s =
     (let v = ppriv_addr s i
      in if s_proc_nr v = NONE \<or> \<not> s_asyn_pending (priv_of s caller) (s_id v)
         then try_async_scan retr insrt caller is s
         else bnd (kassert (\<not> misc_is s caller MF_DELIVERMSG) ''!(p_misc_flags & MF_DELIVERMSG)'' s) (\<lambda>s.
              bnd (try_one retr insrt (s_proc_nr v) caller s) (\<lambda>(r, s).
                if r = OK then Inr (r, s) else try_async_scan retr insrt caller is s)))"

definition try_async :: "retr_fun \<Rightarrow> insrt_fun \<Rightarrow> int \<Rightarrow> kstate \<Rightarrow> stop + (int \<times> kstate)" where
  "try_async retr insrt caller s = try_async_scan retr insrt caller [0 ..< NR_SYS_PROCS] s"

text \<open>The scan of \<open>cancel_async\<close>; an entry that cannot be accessed ends it.\<close>

fun cancel_scan :: "retr_fun \<Rightarrow> insrt_fun \<Rightarrow> int \<Rightarrow> int \<Rightarrow> u32 \<Rightarrow> nat list \<Rightarrow> bool \<Rightarrow> bool \<Rightarrow> kstate \<Rightarrow>
    bool \<times> bool \<times> bool \<times> kstate" where
  "cancel_scan retr insrt src dst tab [] done note s = (done, note, False, s)"
| "cancel_scan retr insrt src dst tab (i # is) done note s =
     (case retr (p_endpoint (procs s src)) tab i s of
        None \<Rightarrow> (done, note, True, s)
      | Some e \<Rightarrow>
          if am_flags e = 0 \<or> \<not> am_bad e \<and> has (am_flags e) AMF_DONE then cancel_scan retr insrt src dst tab is done note s
          else if am_dst e \<noteq> p_endpoint (procs s dst) then cancel_scan retr insrt src dst tab is False note s
          else
            let r = (if am_bad e then EINVAL else EDEADSRCDST); note = (note \<or> am_notify e r)
            in (case insrt (p_endpoint (procs s src)) tab i (am_done r e) s of
                  None \<Rightarrow> (done, note, True, s)
                | Some s \<Rightarrow> cancel_scan retr insrt src dst tab is done note s))"

definition cancel_async :: "retr_fun \<Rightarrow> insrt_fun \<Rightarrow> int \<Rightarrow> int \<Rightarrow> kstate \<Rightarrow> stop + (int \<times> kstate)" where
  "cancel_async retr insrt src dst s =
     (let v = priv_of s src
      in if \<not> has (s_flags v) SYS_PROC then Inr (EPERM, s)
         else let s = set_asyn dst (s_id v) False (set_asyntab src (- 1) 0 s)
              in if s_asynsize v = 0 then Inr (EAGAIN, s)
                 else if \<not> may_send_to src dst s then Inr (ECALLDENIED, s)
                 else (case cancel_scan retr insrt src dst (s_asyntab v) [0 ..< unat (s_asynsize v)] True False s of
                         (done, note, err, s) \<Rightarrow>
                           if err then Inr (OK, s)
                           else bnd (notify_sender note src s) (\<lambda>s.
                                  Inr (OK, if done then s else set_asyntab src (s_asyntab v) (s_asynsize v) s))))"

text \<open>One entry of \<open>try_deliver_senda\<close>: whether the table is still done, whether to notify, and the
  state. An entry that cannot be read or written, or is malformed, is skipped.\<close>

definition senda_check :: "int \<Rightarrow> asynmsg \<Rightarrow> kstate \<Rightarrow> int" where
  "senda_check caller e s =
     (case isokendpt (am_dst e) s of
        None \<Rightarrow> EDEADSRCDST
      | Some dst \<Rightarrow>
          if dst < 0 \<or> \<not> may_send_to caller dst s then ECALLDENIED
          else if RTS_ISSET (procs s dst) RTS_NO_ENDPOINT then EDEADSRCDST else OK)"

definition senda_entry :: "retr_fun \<Rightarrow> insrt_fun \<Rightarrow> int \<Rightarrow> u32 \<Rightarrow> nat \<Rightarrow> bool \<times> bool \<times> kstate \<Rightarrow> stop + (bool \<times> bool \<times> kstate)" where
  "senda_entry retr insrt caller tab i st =
     (case st of (done, note, s) \<Rightarrow>
        (case retr (p_endpoint (procs s caller)) tab i s of
           None \<Rightarrow> Inr st
         | Some e \<Rightarrow>
             if am_flags e = 0 \<or> am_bad e \<or> has (am_flags e) AMF_DONE then Inr st
             else
               let r = senda_check caller e s;
                   dst = ENDPOINT_P (am_dst e);
                   store = (\<lambda>s. (case insrt (p_endpoint (procs s caller)) tab i (am_done r e) s of
                              None \<Rightarrow> (done, note \<or> am_notify e r, s)
                            | Some s' \<Rightarrow> (done, note \<or> am_notify e r, s')))
               in if r \<noteq> OK then Inr (store s)
                  else if WILLRECEIVE (procs s dst) (p_endpoint (procs s caller)) \<and>
                          (\<not> has (am_flags e) AMF_NOREPLY \<or> \<not> misc_is s dst MF_REPLY_PEND)
                  then let s = upd_msgs dst (\<lambda>x. x\<lparr>p_delivermsg := (am_msg e)\<lparr>m_source := p_endpoint (procs s caller)\<rparr>\<rparr>) s;
                           s = IPC_STATUS_ADD_CALL dst SENDA (set_misc dst MF_DELIVERMSG s)
                       in bnd (RTS_UNSET dst RTS_RECEIVING s) (\<lambda>s. Inr (store s))
                  else Inr (False, note, set_asyn dst (s_id (priv_of s caller)) True s)))"

definition try_deliver_senda :: "retr_fun \<Rightarrow> insrt_fun \<Rightarrow> int \<Rightarrow> u32 \<Rightarrow> u32 \<Rightarrow> kstate \<Rightarrow> stop + (int \<times> kstate)" where
  "try_deliver_senda retr insrt caller tab n s =
     (let s = set_asyntab caller (- 1) 0 s
      in if n = 0 then Inr (OK, s)
         else if n > 16 * 261 then Inr (EDOM, s)
         else bnd (for_each (senda_entry retr insrt caller tab) [0 ..< unat n] (True, False, s)) (\<lambda>(done, note, s).
              bnd (notify_sender note caller s) (\<lambda>s.
                Inr (OK, if done then s else set_asyntab caller tab n s))))"

definition mini_senda :: "retr_fun \<Rightarrow> insrt_fun \<Rightarrow> int \<Rightarrow> u32 \<Rightarrow> u32 \<Rightarrow> kstate \<Rightarrow> stop + (int \<times> kstate)" where
  "mini_senda retr insrt caller tab n s =
     (if has (s_flags (priv_of s caller)) SYS_PROC then try_deliver_senda retr insrt caller tab n s else Inr (EPERM, s))"

end
