(* ===== verification/Dwc.thy ===== *)
theory Dwc
  imports Pram_Cow Ins_Counter Fault_Inject Ipc
begin

text \<open>
  Duplication with comparison (\<open>kernel/arch/i386/dwc.c\<close>, \<open>ssh.c\<close>): saving and
  restoring the context of a processing element, the comparison of registers and memory
  of its two runs, \<open>start_dwc\<close> on the way to user mode and \<open>hardening_task\<close> at the
  end of a run. A routine that resumes user mode does not return; its result is
  \<open>ToUser p\<close>.
\<close>

section \<open>Contexts\<close>

abbreviation KTS_NONE :: int where "KTS_NONE \<equiv> 1"
abbreviation KTS_INT_HARD :: int where "KTS_INT_HARD \<equiv> 2"
abbreviation KTS_INT_ORIG :: int where "KTS_INT_ORIG \<equiv> 3"
abbreviation KTS_INT_UM :: int where "KTS_INT_UM \<equiv> 4"
abbreviation KTS_FULLCONTEXT :: int where "KTS_FULLCONTEXT \<equiv> 5"
abbreviation KTS_SYSENTER :: int where "KTS_SYSENTER \<equiv> 6"
abbreviation KTS_SYSCALL :: int where "KTS_SYSCALL \<equiv> 7"

text \<open>The sixteen registers every save and restore routine moves; \<open>st\<close> and \<open>retadr\<close> stay.\<close>

definition move_regs :: "stackframe_s \<Rightarrow> stackframe_s \<Rightarrow> stackframe_s" where
  "move_regs src dst = dst\<lparr>r_gs := r_gs src, r_fs := r_fs src, r_es := r_es src, r_ds := r_ds src,
     r_di := r_di src, r_si := r_si src, r_fp := r_fp src, r_bx := r_bx src, r_dx := r_dx src,
     r_cx := r_cx src, r_retreg := r_retreg src, r_pc := r_pc src, r_cs := r_cs src,
     r_psw := r_psw src, r_sp := r_sp src, r_ss := r_ss src\<rparr>"

definition save_copy_0 :: "int \<Rightarrow> kstate \<Rightarrow> kstate" where
  "save_copy_0 p s =
     (let q = procs s p
      in s\<lparr>copy_0 := \<lparr>z_reg = move_regs (p_reg q) (z_reg (copy_0 s)),
            z_kern_trap_style = p_kern_trap_style q, z_rts_flags = p_rts_flags q,
            z_cpu_time_left = p_cpu_time_left q,
            z_cr0 = cr0 s, z_cr2 = cr2 s, z_cr3 = cr3 s, z_cr4 = cr4 s\<rparr>\<rparr>)"

definition restore_copy_0 :: "int \<Rightarrow> kstate \<Rightarrow> kstate" where
  "restore_copy_0 p s =
     (let z = copy_0 s;
          s = upd_proc p (\<lambda>q. q\<lparr>p_reg := move_regs (z_reg z) (p_reg q),
                p_cpu_time_left := z_cpu_time_left z, p_kern_trap_style := z_kern_trap_style z,
                p_rts_flags := z_rts_flags z\<rparr>) s
      in s\<lparr>cr0 := z_cr0 z, cr3 := z_cr3 z, cr4 := z_cr4 z\<rparr>)"

text \<open>The first save stores the stack segment in \<open>st_1\<close>, the second \<open>st\<close> in \<open>st_2\<close>.\<close>

definition save_copy_1 :: "int \<Rightarrow> kstate \<Rightarrow> kstate" where
  "save_copy_1 p s =
     (let q = procs s p
      in s\<lparr>copy_1 := \<lparr>c_reg = (move_regs (p_reg q) (c_reg (copy_1 s)))\<lparr>r_st := r_ss (p_reg q)\<rparr>,
            c_kern_trap_style = p_kern_trap_style q, c_origin = origin_syscall s, c_entry = entry s,
            c_cr0 = cr0 s, c_cr2 = cr2 s, c_cr3 = cr3 s, c_cr4 = cr4 s\<rparr>\<rparr>)"

definition save_copy_2 :: "int \<Rightarrow> kstate \<Rightarrow> kstate" where
  "save_copy_2 p s =
     (let q = procs s p
      in s\<lparr>copy_2 := \<lparr>c_reg = (move_regs (p_reg q) (c_reg (copy_2 s)))\<lparr>r_st := r_st (p_reg q)\<rparr>,
            c_kern_trap_style = p_kern_trap_style q, c_origin = origin_syscall s, c_entry = entry s,
            c_cr0 = cr0 s, c_cr2 = cr2 s, c_cr3 = cr3 s, c_cr4 = cr4 s\<rparr>\<rparr>)"

definition restore_copy_1 :: "int \<Rightarrow> kstate \<Rightarrow> kstate" where
  "restore_copy_1 p s =
     (let c = copy_1 s;
          s = upd_proc p (\<lambda>q. q\<lparr>p_reg := move_regs (c_reg c) (p_reg q), p_kern_trap_style := c_kern_trap_style c\<rparr>) s
      in s\<lparr>cr0 := c_cr0 c, cr3 := c_cr3 c, cr4 := c_cr4 c\<rparr>)"

definition save_context :: "int \<Rightarrow> kstate \<Rightarrow> kstate" where
  "save_context p s =
     (let s = (if h_step s = FIRST_RUN then save_copy_1 p s else s)
      in if h_step s = SECOND_RUN then save_copy_2 p s else s)"

definition restore_for_stepping_first_run :: "int \<Rightarrow> kstate \<Rightarrow> kstate" where
  "restore_for_stepping_first_run p s =
     (let q = procs s p;
          s = restore_copy_1 p s
      in upd_proc p (\<lambda>r. r\<lparr>p_lus1_us2 := p_lus1_us2 q, p_lus1_us2_size := p_lus1_us2_size q,
           p_cpu_time_left := ms_2_cpu_time (p_quantum_size_ms r) s\<rparr>) s)"

definition update_step :: "int \<Rightarrow> int \<Rightarrow> string \<Rightarrow> kstate \<Rightarrow> kstate" where
  "update_step step p_nr' from s = s\<lparr>h_step := step\<rparr>"

section \<open>Comparison\<close>

definition same_stop :: "stackframe_s \<Rightarrow> stackframe_s \<Rightarrow> bool" where
  "same_stop r1 r2 \<longleftrightarrow> r_pc r1 = r_pc r2 \<and> r_psw r1 = r_psw r2 \<and> r_sp r1 = r_sp r2"

definition same_general :: "stackframe_s \<Rightarrow> stackframe_s \<Rightarrow> bool" where
  "same_general r1 r2 \<longleftrightarrow> r_di r1 = r_di r2 \<and> r_si r1 = r_si r2 \<and> r_fp r1 = r_fp r2 \<and>
     r_bx r1 = r_bx r2 \<and> r_dx r1 = r_dx r2 \<and> r_cx r1 = r_cx r2 \<and> r_retreg r1 = r_retreg r2 \<and>
     r_pc r1 = r_pc r2 \<and> r_cs r1 = r_cs r2 \<and> r_psw r1 = r_psw r2 \<and> r_sp r1 = r_sp r2"

definition same_segments :: "stackframe_s \<Rightarrow> stackframe_s \<Rightarrow> bool" where
  "same_segments r1 r2 \<longleftrightarrow> r_gs r1 = r_gs r2 \<and> r_fs r1 = r_fs r2 \<and> r_es r1 = r_es r2 \<and>
     r_ds r1 = r_ds r2 \<and> r_ss r1 = r_ss r2"

text \<open>The registers at the trap entry, \<open>eax_s\<close> to \<open>ebp_s\<close>, are compared as a whole.\<close>

definition same_full :: "kstate \<Rightarrow> bool" where
  "same_full s \<longleftrightarrow>
     (let c1 = copy_1 s; c2 = copy_2 s
      in same_segments (c_reg c1) (c_reg c2) \<and> same_general (c_reg c1) (c_reg c2) \<and>
         c_origin c1 = c_origin c2 \<and> c_entry c1 = c_entry c2 \<and>
         pagefault_addr_1 s = pagefault_addr_2 s \<and>
         c_cr0 c1 = c_cr0 c2 \<and> c_cr2 c1 = c_cr2 c2 \<and> c_cr3 c1 = c_cr3 c2 \<and> c_cr4 c1 = c_cr4 c2)"

definition cmp_reg :: "kstate \<Rightarrow> bool" where
  "cmp_reg s \<longleftrightarrow>
     (let c1 = copy_1 s; c2 = copy_2 s
      in if origin_syscall s = 1 then same_stop (c_reg c1) (c_reg c2) \<and> c_origin c1 = c_origin c2
         else if origin_syscall s = 2 then same_general (c_reg c1) (c_reg c2) \<and> c_origin c1 = c_origin c2
         else same_full s)"

definition cmp_account :: "int \<Rightarrow> u64 \<Rightarrow> kstate \<Rightarrow> kstate" where
  "cmp_account p start s =
     (case read_tsc_64 s of (e, s) \<Rightarrow>
        upd_proc p (\<lambda>q. q\<lparr>p_cmp_acc := acc_add start e s (p_cmp_acc q)\<rparr>) s)"

text \<open>One block of the comparison: only pages of the final working set are compared.\<close>

definition cmp_block :: "int \<Rightarrow> nat \<Rightarrow> kstate \<Rightarrow> int option \<times> kstate" where
  "cmp_block p a s =
     (let b = working_set s a
      in if us2 b = MAP_NONE \<or> us1 b = MAP_NONE then (None, s)
         else if pmb_is a FWS s
         then (if cmp_frames (us2 b) (us1 b) s \<noteq> OK then (Some (cmp_frames (us2 b) (us1 b) s), s)
               else (None, pmb_clr a FWS
                       (upd_proc p (\<lambda>q. q\<lparr>p_workingset_size := p_workingset_size q + 1\<rparr>) s)))
         else (None, s))"

definition cmp_mem :: "int \<Rightarrow> kstate \<Rightarrow> stop + (int \<times> kstate)" where
  "cmp_mem p s =
     (case read_tsc_64 s of (start, s) \<Rightarrow>
        if p_lus1_us2_size (procs s p) \<le> 0 then Inr (OK, cmp_account p start s)
        else bnd (for_chain pmb_nx (\<lambda>a s. Inr (cmp_block p a s)) (p_lus1_us2 (procs s p))
                    (upd_proc p (\<lambda>q. q\<lparr>p_workingset_size := 0\<rparr>) s))
          (\<lambda>(r, s). Inr (case r of Some e \<Rightarrow> e | None \<Rightarrow> OK, cmp_account p start s)))"

section \<open>The way to user mode\<close>

text \<open>
  The injection at the start of a run, in the parity of the process's element count
  that belongs to the run.
\<close>

definition maybe_inject :: "bool \<Rightarrow> int \<Rightarrow> kstate \<Rightarrow> kstate" where
  "maybe_inject odd_pe p s =
     (if h_inject_fault s \<noteq> 0 \<and> could_inject s = H_YES \<and>
         (p_nb_pe (p_stats (procs s p)) mod 2 \<noteq> 0) = odd_pe
      then let s = snd (inject_error_in_gpregs p s)
           in upd_proc p (\<lambda>q. q\<lparr>p_stats := (p_stats q)\<lparr>p_nb_inj_fault := p_nb_inj_fault (p_stats q) + 1\<rparr>\<rparr>)
                (s\<lparr>could_inject := H_NO, nb_injected_faults := nb_injected_faults s + 1\<rparr>)
      else s)"

text \<open>First part of \<open>start_dwc\<close>: a hardened process is about to run, start a new element.\<close>

definition start_pe :: "int \<Rightarrow> kstate \<Rightarrow> stop + kstate" where
  "start_pe p s =
     (if h_enable s = H_DISABLE \<and> p_nr (procs s p) \<noteq> VM_PROC_NR \<and> has (p_hflags (procs s p)) PROC_TO_HARD
      then bnd (kassert (h_wait_vm_reply s = H_NO) ''h_wait_vm_reply == H_NO'' s) (\<lambda>s.
           bnd (kassert (h_step s = NO_HARD_RUN) ''h_step == NO_HARD_RUN'' s) (\<lambda>s.
             let s = update_step FIRST_RUN (p_nr (procs s p)) ''starting pe from arch_system: First run''
                       (s\<lparr>h_proc_nr := p_nr (procs s p)\<rparr>)
             in bnd (set_pe_mem_to_ro p (p_cr3 (procs s p)) s) (\<lambda>(_, s).
                  let s = set_remain_ins_counter_value_0 p (save_copy_0 p s)
                  in Inr (maybe_inject False p (s\<lparr>h_enable := H_ENABLE\<rparr>)))))
      else Inr s)"

text \<open>Second part: the first run ended, or the comparison failed; go back to the start of the element.\<close>

definition restart_pe :: "int \<Rightarrow> kstate \<Rightarrow> stop + kstate" where
  "restart_pe p s =
     (if h_enable s = H_ENABLE \<and> (h_restore s = RESTORE_FOR_SECOND_RUN \<or> h_restore s = RESTORE_FOR_FISRT_RUN)
      then bnd (kassert (h_proc_nr s = p_nr (procs s p)) ''h_proc_nr == p->p_nr'' s) (\<lambda>s.
             let q = procs s p;
                 s = restore_copy_0 p s;
                 s = upd_proc p (\<lambda>r. r\<lparr>p_lus1_us2 := p_lus1_us2 q, p_lus1_us2_size := p_lus1_us2_size q\<rparr>) s;
                 s = update_step (if h_restore s = RESTORE_FOR_SECOND_RUN then SECOND_RUN else FIRST_RUN)
                       (p_nr q) ''restoring arch_system'' s
             in bnd (set_pe_mem_to_ro p (p_cr3 (procs s p)) s) (\<lambda>(_, s).
                  let s = set_remain_ins_counter_value_0 p (s\<lparr>h_restore := 0\<rparr>)
                  in bnd (kassert (proc_is_runnable (procs s p)) ''proc_is_runnable(p)'' s)
                       (\<lambda>s. Inr (maybe_inject True p s))))
      else Inr s)"

text \<open>Third part: who may run while an element is in progress, and the counter.\<close>

definition guard_pe :: "int \<Rightarrow> kstate \<Rightarrow> stop + kstate" where
  "guard_pe p s =
     (let n = p_nr (procs s p)
      in if h_enable s \<noteq> 0 \<and> h_proc_nr s \<noteq> n \<and> n \<noteq> VM_PROC_NR
         then Inl (Panic ''Interference in the hardening task'')
         else if h_enable s \<noteq> 0 \<and> n = VM_PROC_NR \<and>
                 \<not> RTS_ISSET (procs s (h_proc_nr s)) RTS_PAGEFAULT \<and> h_step s \<noteq> VM_RUN
         then Inl (Panic ''Le VM tente de s'executer sans une page fault'')
         else
           let s = (if h_enable s = H_ENABLE \<and> n = h_proc_nr s
                    then enable_counter (set_remain_ins_counter_value_1 p s) else reset_counter s)
           in bnd (if h_enable s = H_ENABLE \<and> (h_step s = FIRST_RUN \<or> h_step s = SECOND_RUN)
                   then kassert (h_proc_nr s = n) ''h_proc_nr == p->p_nr'' s else Inr s) (\<lambda>s.
                if h_enable s = H_ENABLE \<and> (h_step s = VM_RUN \<or> vm_should_run s \<noteq> 0)
                then kassert (VM_PROC_NR = n) ''VM_PROC_NR == p->p_nr'' s else Inr s))"

definition start_dwc :: "int \<Rightarrow> kstate \<Rightarrow> stop + kstate" where
  "start_dwc p s = bnd (start_pe p s) (\<lambda>s. bnd (restart_pe p s) (guard_pe p))"

datatype task_end = Back | ToUser int

definition restore_user_context :: "int \<Rightarrow> kstate \<Rightarrow> stop + (task_end \<times> kstate)" where
  "restore_user_context p s =
     bnd (start_dwc p s) (\<lambda>s.
       let style = p_kern_trap_style (procs s p);
           s = upd_proc p (\<lambda>q. q\<lparr>p_kern_trap_style := KTS_NONE\<rparr>) s
       in if style = KTS_NONE then Inl (Panic ''no entry trap style known'')
          else if style \<in> {KTS_SYSENTER, KTS_SYSCALL, KTS_INT_HARD, KTS_INT_UM, KTS_FULLCONTEXT, KTS_INT_ORIG}
          then Inr (ToUser p, s)
          else Inl (Panic ''unknown trap style recorded''))"

text \<open>
  \<open>run_proc_2\<close>: the address space is switched unless the process has none or its own is
  loaded already, and only then is it recorded whose it is (\<open>__switch_address_space\<close> of
  \<open>klib.S\<close>); the cycle accounting of the kernel task and the local timer are outside the modelled state.
\<close>

definition run_proc_2 :: "int \<Rightarrow> kstate \<Rightarrow> stop + (task_end \<times> kstate)" where
  "run_proc_2 p s =
     (let s = s\<lparr>proc_ptr := p\<rparr>;
          s = (if p_cr3 (procs s p) \<noteq> 0 \<and> cr3 s \<noteq> p_cr3 (procs s p)
               then s\<lparr>cr3 := p_cr3 (procs s p), ptproc := p\<rparr> else s)
      in bnd (kassert (p_cr3 (procs s p) \<noteq> 0) ''p_cr3 != 0'' s) (restore_user_context p))"

section \<open>The end of a processing element\<close>

text \<open>The control variables \<open>reset_hardened_run\<close> clears.\<close>

definition clear_run_vars :: "kstate \<Rightarrow> kstate" where
  "clear_run_vars s = s\<lparr>h_enable := 0, h_proc_nr := 0, h_step_back := 0, h_step := 0, h_do_sys_call := 0,
     h_do_nmi := 0, vm_should_run := 0, pe_should_run := 0, h_restore := 0, h_normal_pf := 0,
     h_pf_handle_by_k := 0, h_unstable_state := H_STABLE, h_rw := 0,
     pagefault_addr_1 := 0, pagefault_addr_2 := 0\<rparr>"

text \<open>The part of \<open>reset_hardened_run\<close> before a delayed signal is delivered.\<close>

definition run_over :: "int \<Rightarrow> kstate \<Rightarrow> kstate" where
  "run_over p s =
     (let s = (if origin_syscall s = PE_END_IN_NMI then s\<lparr>h_exception := 1\<rparr> else s);
          s = clear_run_vars s;
          s = s\<lparr>id_current_pe := id_current_pe s + 1, nbpe := nbpe s + 1\<rparr>
      in upd_proc p (\<lambda>q. q\<lparr>p_start_count_ins := 0,
                p_stats := (p_stats q)\<lparr>p_nb_pe := p_nb_pe (p_stats q) + 1\<rparr>,
                p_misc_flags := clrf (p_misc_flags q) MF_STEP\<rparr>) s)"

definition reset_hardened_run :: "int \<Rightarrow> kstate \<Rightarrow> stop + kstate" where
  "reset_hardened_run p s =
     (let s = run_over p s
      in if p_sig_delay (procs s p) \<noteq> - 1
         then bnd (cause_sig (p_nr (procs s p)) (p_sig_delay (procs s p)) s)
                (\<lambda>s. Inr (upd_proc p (\<lambda>q. q\<lparr>p_sig_delay := - 1\<rparr>) s))
         else Inr s)"

definition abort_pe :: "int \<Rightarrow> kstate \<Rightarrow> stop + kstate" where
  "abort_pe p s =
     bnd (vm_reset_pram p (p_cr3 (procs s p)) ABORT_PE s) (\<lambda>s.
     bnd (reset_hardened_run p (restore_copy_0 p s)) (\<lambda>s.
       Inr (upd_proc p (\<lambda>q. q\<lparr>p_stats := (p_stats q)\<lparr>p_nb_abort := p_nb_abort (p_stats q) + 1\<rparr>\<rparr>) s)))"

text \<open>Single stepping (\<open>ssh.c\<close>): the run that stopped earlier is stepped up to the other.\<close>

definition ssh_init :: "int \<Rightarrow> kstate \<Rightarrow> stop + kstate" where
  "ssh_init p s =
     (let s = upd_proc p (\<lambda>q. q\<lparr>p_stats := (p_stats q)\<lparr>p_nb_ss := p_nb_ss (p_stats q) + 1\<rparr>\<rparr>) (s\<lparr>h_ss_mode := 1\<rparr>);
          step = upd_proc p (\<lambda>q. q\<lparr>p_misc_flags := setf (p_misc_flags q) MF_STEP\<rparr>)
      in if secnd_run_ins s < first_run_ins s
         then Inr ((step s)\<lparr>h_unstable_state := H_STEPPING\<rparr>)
         else if secnd_run_ins s > first_run_ins s
         then bnd (vm_reset_pram p (p_cr3 (procs s p)) CPY_RAM_FIRST_STEPPING s) (\<lambda>s.
                Inr ((step (restore_for_stepping_first_run p s))
                       \<lparr>h_unstable_state := H_STEPPING, h_step := FIRST_STEPPING\<rparr>))
         else Inr s)"

definition ssh :: "int \<Rightarrow> kstate \<Rightarrow> int \<times> kstate" where
  "ssh p s =
     (if h_ss_mode s = 0 then (OK, s)
      else
        let untrace = upd_proc p (\<lambda>q. q\<lparr>p_reg := (p_reg q)\<lparr>r_psw := clrf (r_psw (p_reg q)) TRACEBIT\<rparr>\<rparr>);
            s = save_context p (untrace (s\<lparr>origin_syscall := PE_END_IN_NMI\<rparr>));
            s = (if h_step s = FIRST_STEPPING then s\<lparr>first_run_ins := first_run_ins s + 1\<rparr>
                 else s\<lparr>secnd_run_ins := secnd_run_ins s + 1\<rparr>)
        in if secnd_run_ins s \<noteq> first_run_ins s \<and> \<not> cmp_reg s
           then (EFAULT, untrace ((upd_proc p (\<lambda>q. q\<lparr>p_misc_flags := setf (p_misc_flags q) MF_STEP\<rparr>)
                           (s\<lparr>h_stop_pe := H_NO\<rparr>))\<lparr>h_unstable_state := H_STEPPING\<rparr>))
           else let s = untrace ((upd_proc p (\<lambda>q. q\<lparr>p_misc_flags := clrf (p_misc_flags q) MF_STEP\<rparr>) s)
                                   \<lparr>h_unstable_state := H_STEPPING\<rparr>)
                in (OK, if h_step s = FIRST_STEPPING then s\<lparr>h_step := SECOND_RUN\<rparr> else s))"

text \<open>The comparison failed: roll back, block the process and restart the element.\<close>

definition cmp_failed :: "int \<Rightarrow> kstate \<Rightarrow> stop + (task_end \<times> kstate)" where
  "cmp_failed p s =
     bnd (vm_reset_pram p (p_cr3 (procs s p)) CMP_FAILED s) (\<lambda>s.
       let s = s\<lparr>h_restore := RESTORE_FOR_FISRT_RUN, nbpe_f := nbpe_f s + 1\<rparr>;
           s = upd_proc p (\<lambda>q. q\<lparr>p_rts_flags := setf (p_rts_flags q) RTS_UNSTABLE_STATE,
                 p_stats := (p_stats q)\<lparr>p_nb_dwc_d_f := p_nb_dwc_d_f (p_stats q) + 1,
                   p_nb_exception_d_f := p_nb_exception_d_f (p_stats q) +
                     (if origin_syscall s \<in> {6, 7, 8} then 1 else 0)\<rparr>\<rparr>) s
       in run_proc_2 p s)"

text \<open>The label \<open>cmp_step\<close>: compare, then commit or go back.\<close>

definition cmp_step :: "int \<Rightarrow> kstate \<Rightarrow> stop + (task_end \<times> kstate)" where
  "cmp_step p s =
     (if \<not> cmp_reg s then cmp_failed p s
      else bnd (cmp_mem p s) (\<lambda>(r, s).
             if r \<noteq> OK then cmp_failed p s
             else bnd (vm_reset_pram p (p_cr3 (procs s p)) CPY_RAM_PRAM s) (\<lambda>s.
                  bnd (reset_hardened_run p s) (\<lambda>s. Inr (Back, s)))))"

definition end_first_run :: "int \<Rightarrow> kstate \<Rightarrow> stop + (task_end \<times> kstate)" where
  "end_first_run p s =
     bnd (kassert (h_restore s = 0) ''h_restore == 0'' s) (\<lambda>s.
     bnd (vm_reset_pram p (p_cr3 (procs s p)) CPY_RAM_FIRST (s\<lparr>h_restore := RESTORE_FOR_SECOND_RUN\<rparr>))
       (run_proc_2 p))"

definition hardening_task :: "kstate \<Rightarrow> stop + (task_end \<times> kstate)" where
  "hardening_task s =
     bnd (kassert (h_enable s \<noteq> 0) ''h_enable'' s) (\<lambda>s.
     let p = proc_ptr s
     in bnd (kassert (h_proc_nr s = p_nr (procs s p)) ''h_proc_nr == p->p_nr'' s) (\<lambda>s.
        bnd (kassert (h_proc_nr s \<noteq> VM_PROC_NR) ''h_proc_nr != VM_PROC_NR'' s) (\<lambda>s.
          let s = save_context p (get_remain_ins_counter_value p s)
          in if h_step s = FIRST_RUN then end_first_run p s
             else if h_step s = SECOND_RUN \<and> origin_syscall s = PE_END_IN_NMI \<and>
                     secnd_run_ins s \<noteq> first_run_ins s \<and> \<not> cmp_reg s
             then bnd (ssh_init p s) (\<lambda>s. Inr (Back, s))
             else cmp_step p s)))"

end
