(* ===== verification/Ipc_Calls.thy ===== *)
theory Ipc_Calls
  imports Ipc
begin

text \<open>
  The rest of the IPC interface: \<open>mini_receive\<close>, the dispatch of the traps (\<open>do_sync_ipc\<close>,
  \<open>do_ipc\<close>), the message of a process that used up its quantum (\<open>notify_scheduler\<close>), the
  message of the hardening to VM (\<open>sendmsg2vm\<close>, \<open>kernel/arch/i386/hcow.c\<close>), and the
  clean-up when a process loses its endpoint (\<open>kernel/system.c\<close>).
\<close>

section \<open>Receiving\<close>

definition rcv_notify :: "int \<Rightarrow> int \<Rightarrow> nat \<Rightarrow> kstate \<Rightarrow> stop + kstate" where
  "rcv_notify caller src_e i s =
     (let src = s_proc_nr (ppriv_addr s i)
      in bnd (kassert (src \<noteq> NONE) ''src_proc_nr != NONE'' s) (\<lambda>s.
         let s = unset_notify_pending caller i s; hisep = p_endpoint (procs s src)
         in bnd (kassert (\<not> misc_is s caller MF_DELIVERMSG) ''!(p_misc_flags & MF_DELIVERMSG)'' s) (\<lambda>s.
            bnd (kassert (src_e = ANY \<or> hisep = src_e) ''src_e == ANY || hisep == src_e'' s) (\<lambda>s.
              let s = BuildNotifyMessage src caller s;
                  s = upd_msgs caller (\<lambda>m. m\<lparr>p_delivermsg := (p_delivermsg m)\<lparr>m_source := hisep\<rparr>\<rparr>) s
              in Inr (IPC_STATUS_ADD_CALL caller NOTIFY (set_misc caller MF_DELIVERMSG s))))))"

text \<open>Take the message of \<open>sender\<close>, found behind \<open>prev\<close> on the queue of \<open>caller\<close>.\<close>

definition unlink_caller :: "int \<Rightarrow> int option \<Rightarrow> int \<Rightarrow> kstate \<Rightarrow> kstate" where
  "unlink_caller caller prev sender s =
     upd_msgs sender (\<lambda>x. x\<lparr>p_q_link := None\<rparr>)
       (case prev of
          None \<Rightarrow> upd_msgs caller (\<lambda>x. x\<lparr>p_caller_q := q_link s sender\<rparr>) s
        | Some b \<Rightarrow> upd_msgs b (\<lambda>x. x\<lparr>p_q_link := q_link s sender\<rparr>) s)"

definition take_sender :: "int \<Rightarrow> int option \<Rightarrow> int \<Rightarrow> kstate \<Rightarrow> stop + kstate" where
  "take_sender caller prev sender s =
     bnd (kassert (\<not> RTS_ISSET (procs s sender) RTS_SLOT_FREE) ''!RTS_ISSET(sender, RTS_SLOT_FREE)'' s) (\<lambda>s.
     bnd (kassert (\<not> RTS_ISSET (procs s sender) RTS_NO_ENDPOINT) ''!RTS_ISSET(sender, RTS_NO_ENDPOINT)'' s) (\<lambda>s.
     bnd (kassert (\<not> misc_is s caller MF_DELIVERMSG) ''!(p_misc_flags & MF_DELIVERMSG)'' s) (\<lambda>s.
       let s = upd_msgs caller (\<lambda>x. x\<lparr>p_delivermsg := (p_sendmsg (p_msgs (procs s sender)))
                 \<lparr>m_source := p_endpoint (procs s sender)\<rparr>\<rparr>) s
       in bnd (RTS_UNSET sender RTS_SENDING (set_misc caller MF_DELIVERMSG s)) (\<lambda>s.
          let s = IPC_STATUS_ADD_CALL caller (if misc_is s sender MF_REPLY_PEND then SENDREC else SEND) s;
              s = (if misc_is s sender MF_SENDING_FROM_KERNEL
                   then clr_misc sender MF_SENDING_FROM_KERNEL (IPC_STATUS_ADD_FLAGS caller IPC_FLG_MSG_FROM_KERNEL s) else s)
          in bnd (if misc_is s sender MF_SIG_DELAY then sig_delay_done sender s else Inr s) (\<lambda>s.
               Inr (unlink_caller caller prev sender s))))))"

definition rcv_queue :: "int \<Rightarrow> int \<Rightarrow> int \<Rightarrow> kstate \<Rightarrow> stop + (bool \<times> kstate)" where
  "rcv_queue caller src_e src_p s =
     bnd (search_prev (q_link s) (\<lambda>x. src_e = ANY \<or> src_p = p_nr (procs s x)) (p_caller_q (p_msgs (procs s caller)))) (\<lambda>found.
       case found of
         None \<Rightarrow> Inr (False, s)
       | Some (prev, sender) \<Rightarrow> bnd (take_sender caller prev sender s) (\<lambda>s. Inr (True, s)))"

text \<open>Look for a message: a notification, an asynchronous message, a waiting sender.\<close>

definition rcv_async :: "retr_fun \<Rightarrow> insrt_fun \<Rightarrow> int \<Rightarrow> int \<Rightarrow> kstate \<Rightarrow> stop + (bool \<times> kstate)" where
  "rcv_async retr insrt caller src_p s =
     (if has_pending_asend caller src_p s \<noteq> None
      then bnd (if src_p \<noteq> ANY then try_one retr insrt src_p caller s else try_async retr insrt caller s) (\<lambda>(r, s).
             if r = OK then Inr (True, IPC_STATUS_ADD_CALL caller SENDA s) else Inr (False, s))
      else Inr (False, s))"

definition rcv_any :: "retr_fun \<Rightarrow> insrt_fun \<Rightarrow> int \<Rightarrow> int \<Rightarrow> int \<Rightarrow> kstate \<Rightarrow> stop + (bool \<times> kstate)" where
  "rcv_any retr insrt caller src_e src_p s =
     (if RTS_ISSET (procs s caller) RTS_SENDING then Inr (False, s)
      else (case (if misc_is s caller MF_REPLY_PEND then None else has_pending_notify caller src_p s) of
              Some i \<Rightarrow> bnd (rcv_notify caller src_e i s) (\<lambda>s. Inr (True, s))
            | None \<Rightarrow> bnd (rcv_async retr insrt caller src_p s) (\<lambda>(got, s).
                        if got then Inr (True, s) else rcv_queue caller src_e src_p s)))"

definition mini_receive :: "retr_fun \<Rightarrow> insrt_fun \<Rightarrow> int \<Rightarrow> int \<Rightarrow> u32 \<Rightarrow> u32 \<Rightarrow> kstate \<Rightarrow> stop + (int \<times> kstate)" where
  "mini_receive retr insrt caller src_e m_buff_usr flags s =
     bnd (kassert (\<not> misc_is s caller MF_DELIVERMSG) ''!(p_misc_flags & MF_DELIVERMSG)'' s) (\<lambda>s.
     let s = upd_msgs caller (\<lambda>x. x\<lparr>p_delivermsg_vir := m_buff_usr\<rparr>) s
     in bnd (if src_e = ANY then Inr ANY else okendpt src_e s) (\<lambda>src_p.
        if src_e \<noteq> ANY \<and> RTS_ISSET (procs s src_p) RTS_NO_ENDPOINT then Inr (EDEADSRCDST, s)
        else bnd (rcv_any retr insrt caller src_e src_p s) (\<lambda>(got, s).
               if got then Inr (OK, clr_misc caller MF_REPLY_PEND s)
               else if has flags NON_BLOCKING then Inr (ENOTREADY, s)
               else bnd (deadlock RECEIVE caller src_e s) (\<lambda>n.
                      if n \<noteq> 0 then Inr (ELOCKED, s)
                      else bnd (RTS_SET caller RTS_RECEIVING (upd_proc caller (\<lambda>q. q\<lparr>p_getfrom_e := src_e\<rparr>) s))
                             (\<lambda>s. Inr (OK, s))))))"

text \<open>\<open>sendmsg2vm\<close> of the hardening: \<open>hmini_receive\<close> is \<open>mini_receive\<close>; the buffer is an address in
  the process table, given as \<open>buf\<close>.\<close>

abbreviation VM_HCONFMEM :: int where "VM_HCONFMEM \<equiv> 0xC55"

definition sendmsg2vm :: "retr_fun \<Rightarrow> insrt_fun \<Rightarrow> u32 \<Rightarrow> message \<Rightarrow> int \<Rightarrow> kstate \<Rightarrow> stop + (int \<times> kstate)" where
  "sendmsg2vm retr insrt buf m pr s =
     bnd (deadlock SEND pr VM_PROC_NR s) (\<lambda>n.
       if n \<noteq> 0
       then bnd (mini_receive retr insrt pr VM_PROC_NR buf 0 s) (\<lambda>(_, s). Inr (ELOCKED, s))
       else bnd (mini_send pr VM_PROC_NR (Some (m\<lparr>m_source := p_endpoint (procs s pr), m_type := VM_HCONFMEM\<rparr>)) FROM_KERNEL s) (\<lambda>(err, s).
              if err \<noteq> 0 then Inl (Panic ''WARNING: pagefault: mini_send returned'') else Inr (err, s)))"

section \<open>Traps\<close>

text \<open>The calls are allowed one by one by the trap mask, and the destinations by the IPC mask.\<close>

definition sync_allowed :: "int \<Rightarrow> u32 \<Rightarrow> int \<Rightarrow> kstate \<Rightarrow> int" where
  "sync_allowed caller call_nr src_dst_e s =
     (let dst = (if src_dst_e = ANY then Some ANY else isokendpt src_dst_e s)
      in if src_dst_e = ANY \<and> call_nr \<noteq> RECEIVE then EINVAL
         else (case dst of
                 None \<Rightarrow> EDEADSRCDST
               | Some p \<Rightarrow>
                   if src_dst_e \<noteq> ANY \<and> call_nr \<noteq> RECEIVE \<and> \<not> may_send_to caller p s then ECALLDENIED
                   else if \<not> bit (s_trap_mask (priv_of s caller)) (unat call_nr) then ETRAPDENIED
                   else if call_nr \<noteq> SENDREC \<and> call_nr \<noteq> RECEIVE \<and> p < 0 then ETRAPDENIED
                   else OK))"

definition do_sync_ipc :: "(u32 \<Rightarrow> kstate \<Rightarrow> message option) \<Rightarrow> retr_fun \<Rightarrow> insrt_fun \<Rightarrow> int \<Rightarrow> u32 \<Rightarrow> int \<Rightarrow> u32 \<Rightarrow> kstate \<Rightarrow>
    stop + (int \<times> kstate)" where
  "do_sync_ipc usr retr insrt caller call_nr src_dst_e m_ptr s =
     bnd (kassert (call_nr \<noteq> SENDA) ''call_nr != SENDA'' s) (\<lambda>s.
       if call_nr \<notin> {SEND, RECEIVE, SENDREC, NOTIFY, SENDNB} then Inr (ETRAPDENIED, s)
       else if sync_allowed caller call_nr src_dst_e s \<noteq> OK then Inr (sync_allowed caller call_nr src_dst_e s, s)
       else if call_nr = NOTIFY then mini_notify caller src_dst_e s
       else if call_nr = SENDNB then mini_send caller src_dst_e (usr m_ptr s) NON_BLOCKING s
       else if call_nr = SEND then mini_send caller src_dst_e (usr m_ptr s) 0 s
       else if call_nr = SENDREC
       then bnd (mini_send caller src_dst_e (usr m_ptr s) 0 (set_misc caller MF_REPLY_PEND s)) (\<lambda>(r, s).
              if r \<noteq> OK then Inr (r, s) else mini_receive retr insrt caller src_dst_e m_ptr 0 s)
       else mini_receive retr insrt caller src_dst_e m_ptr 0
              (upd_proc caller (\<lambda>q. q\<lparr>p_reg := (p_reg q)\<lparr>r_bx := 0\<rparr>\<rparr>) (clr_misc caller MF_REPLY_PEND s)))"

text \<open>System call tracing: the first entry is put off until the tracer was told.\<close>

definition trace_entry :: "int \<Rightarrow> u32 \<Rightarrow> u32 \<Rightarrow> u32 \<Rightarrow> kstate \<Rightarrow> stop + (bool \<times> kstate)" where
  "trace_entry caller r1 r2 r3 s =
     (if \<not> misc_is s caller (MF_SC_TRACE OR MF_SC_DEFER) then Inr (False, s)
      else if p_misc_flags (procs s caller) AND (MF_SC_TRACE OR MF_SC_DEFER) = MF_SC_TRACE
      then let s = set_misc caller MF_SC_DEFER (clr_misc caller MF_SC_TRACE s)
           in bnd (cause_sig (p_nr (procs s caller)) SIGTRAP (upd_msgs caller (\<lambda>x. x\<lparr>p_defer := (r1, r2, r3)\<rparr>) s))
                (\<lambda>s. Inr (True, s))
      else let s = clr_misc caller MF_SC_DEFER s
           in bnd (kassert (\<not> misc_is s caller MF_SC_ACTIVE) ''!(p_misc_flags & MF_SC_ACTIVE)'' s)
                (\<lambda>s. Inr (False, set_misc caller MF_SC_ACTIVE s)))"

definition do_ipc :: "(u32 \<Rightarrow> kstate \<Rightarrow> message option) \<Rightarrow> retr_fun \<Rightarrow> insrt_fun \<Rightarrow> u32 \<Rightarrow> u32 \<Rightarrow> u32 \<Rightarrow> u32 \<Rightarrow> kstate \<Rightarrow>
    stop + (int \<times> kstate)" where
  "do_ipc usr retr insrt kerninfo r1 r2 r3 s =
     (let caller = proc_ptr s
      in if h_unstable_state s = 1 then Inr (OK, s)
         else bnd (kassert (\<not> RTS_ISSET (procs s caller) RTS_SLOT_FREE) ''!RTS_ISSET(caller_ptr, RTS_SLOT_FREE)'' s) (\<lambda>s.
              bnd (trace_entry caller r1 r2 r3 s) (\<lambda>(deferred, s).
                if deferred then Inr (sint (r_retreg (p_reg (procs s caller))), s)
                else if misc_is s caller MF_DELIVERMSG then Inl (Panic ''sys_call: MF_DELIVERMSG on'')
                else if r1 \<in> {SENDREC, SEND, RECEIVE, NOTIFY, SENDNB}
                then do_sync_ipc usr retr insrt caller r1 (sint r2) r3 (upd_sched caller (\<lambda>n. n\<lparr>ipc_sync := ipc_sync n + 1\<rparr>) s)
                else if r1 = SENDA
                then let s = upd_sched caller (\<lambda>n. n\<lparr>ipc_async := ipc_async n + 1\<rparr>) s
                     in if r2 > 16 * 261 then Inr (EDOM, s) else mini_senda retr insrt caller r3 r2 s
                else if r1 = MINIX_KERNINFO
                then (if kerninfo = 0 then Inr (EBADCALL, s)
                      else Inr (OK, upd_proc caller (\<lambda>q. q\<lparr>p_reg := (p_reg q)\<lparr>r_bx := kerninfo\<rparr>\<rparr>) s))
                else Inr (EBADCALL, s))))"

section \<open>Out of quantum\<close>

definition proc_kernel_scheduler :: "kstate \<Rightarrow> int \<Rightarrow> bool" where
  "proc_kernel_scheduler s p \<longleftrightarrow>
     p_scheduler (p_sched (procs s p)) = None \<or> p_scheduler (p_sched (procs s p)) = Some p"

text \<open>\<open>m\<close> is the uninitialised message on the stack, \<open>load\<close> the result of \<open>cpu_load()\<close>.\<close>

definition notify_scheduler :: "message \<Rightarrow> u16 \<Rightarrow> int \<Rightarrow> kstate \<Rightarrow> stop + kstate" where
  "notify_scheduler m load p s =
     bnd (kassert (\<not> proc_kernel_scheduler s p) ''!proc_kernel_scheduler(p)'' s) (\<lambda>s.
     bnd (RTS_SET p RTS_NO_QUANTUM s) (\<lambda>s.
       let a = p_sched (procs s p);
           m = m\<lparr>m_source := p_endpoint (procs s p), m_type := SCHEDULING_NO_QUANTUM,
                 m9_l5 := cpu_time_2_ms (time_in_queue a) s, m9_l1 := dequeues a, m9_l2 := ipc_sync a,
                 m9_l3 := ipc_async a, m9_l4 := preempted a, m9_s1 := 0, m9_s2 := load\<rparr>;
           s = reset_proc_accounting p s
       in (case p_scheduler a of
             None \<Rightarrow> Inl NullDeref
           | Some sched \<Rightarrow>
               bnd (mini_send p (p_endpoint (procs s sched)) (Some m) FROM_KERNEL s) (\<lambda>(err, s).
                 if err \<noteq> 0 then Inl (Panic ''WARNING: Scheduling: mini_send returned'') else Inr s))))"

definition proc_no_time :: "message \<Rightarrow> u16 \<Rightarrow> int \<Rightarrow> kstate \<Rightarrow> stop + kstate" where
  "proc_no_time m load p s =
     (if \<not> proc_kernel_scheduler s p \<and> has (s_flags (priv_of s p)) PREEMPTIBLE then notify_scheduler m load p s
      else Inr (upd_proc p (\<lambda>q. q\<lparr>p_cpu_time_left := ms_2_cpu_time (p_quantum_size_ms q) s\<rparr>) s))"

section \<open>Losing the endpoint\<close>

text \<open>The process leaves the queue it waits on; its own link is not cleared.\<close>

definition leave_queue :: "int \<Rightarrow> int \<Rightarrow> kstate \<Rightarrow> stop + kstate" where
  "leave_queue rc target s =
     bnd (search_prev (q_link s) (\<lambda>x. x = rc) (p_caller_q (p_msgs (procs s target)))) (\<lambda>found.
       Inr (case found of
              None \<Rightarrow> s
            | Some (None, _) \<Rightarrow> upd_msgs target (\<lambda>x. x\<lparr>p_caller_q := q_link s rc\<rparr>) s
            | Some (Some b, _) \<Rightarrow> upd_msgs b (\<lambda>x. x\<lparr>p_q_link := q_link s rc\<rparr>) s))"

definition clear_ipc :: "int \<Rightarrow> kstate \<Rightarrow> stop + kstate" where
  "clear_ipc rc s =
     bnd (if RTS_ISSET (procs s rc) RTS_SENDING
          then bnd (okendpt (p_sendto_e (procs s rc)) s) (\<lambda>target.
               bnd (leave_queue rc target s) (RTS_UNSET rc RTS_SENDING))
          else Inr s)
       (RTS_UNSET rc RTS_RECEIVING)"

text \<open>The loop that cancels asynchronous messages runs until no bit is left.\<close>

partial_function (option) cancel_all :: "retr_fun \<Rightarrow> insrt_fun \<Rightarrow> int \<Rightarrow> kstate \<Rightarrow> (stop + kstate) option" where
  "cancel_all retr insrt rc s =
     (case has_pending_asend rc ANY s of
        None \<Rightarrow> Some (Inr s)
      | Some i \<Rightarrow> (case cancel_async retr insrt (s_proc_nr (ppriv_addr s i)) rc s of
                     Inl e \<Rightarrow> Some (Inl e)
                   | Inr r \<Rightarrow> cancel_all retr insrt rc (snd r)))"

definition clear_ref :: "int \<Rightarrow> int \<Rightarrow> int \<Rightarrow> kstate \<Rightarrow> stop + kstate" where
  "clear_ref rc caller_ret rp s =
     (if isemptyn rp s then Inr s
      else
        let i = s_id (priv_of s rc);
            s = upd_priv rp (\<lambda>v. v\<lparr>s_notify_pending := (s_notify_pending v)(i := False)\<rparr>) s;
            s = set_asyn rp i False s
        in if P_BLOCKEDON (procs s rp) = p_endpoint (procs s rc)
           then clear_ipc rp (upd_proc rp (\<lambda>q. q\<lparr>p_reg := (p_reg q)\<lparr>r_retreg := of_int caller_ret\<rparr>\<rparr>) s)
           else Inr s)"

definition clear_ipc_refs :: "retr_fun \<Rightarrow> insrt_fun \<Rightarrow> int \<Rightarrow> int \<Rightarrow> kstate \<Rightarrow> stop + kstate" where
  "clear_ipc_refs retr insrt rc caller_ret s =
     bnd (case cancel_all retr insrt rc s of None \<Rightarrow> Inl Diverges | Some r \<Rightarrow> r)
       (for_each (clear_ref rc caller_ret) [- NR_TASKS .. NR_PROCS - 1])"

definition clear_endpoint :: "retr_fun \<Rightarrow> insrt_fun \<Rightarrow> int \<Rightarrow> kstate \<Rightarrow> stop + kstate" where
  "clear_endpoint retr insrt rc s =
     (if isemptyn rc s then Inl (Panic ''clear_proc: empty process'')
      else bnd (RTS_SET rc RTS_NO_ENDPOINT s) (\<lambda>s.
           let s = (if has (s_flags (priv_of s rc)) SYS_PROC then upd_priv rc (\<lambda>v. v\<lparr>s_asynsize := 0\<rparr>) s else s)
           in bnd (clear_ipc rc s) (clear_ipc_refs retr insrt rc EDEADSRCDST)))"

end
