(* ===== verification/Exc_Handler.thy ===== *)
theory Exc_Handler
  imports Dwc Ipc_Calls
begin

text \<open>
  Exceptions of a hardened process: \<open>hardening_exception_handler\<close>
  (\<open>kernel/arch/i386/heh.c\<close>) decides whether the exception ends the run, and the page
  fault path of \<open>kernel/arch/i386/exception.c\<close> hands the fault to VM or returns.
\<close>

section \<open>Constants\<close>

abbreviation DEBUG_VECTOR :: nat where "DEBUG_VECTOR \<equiv> 1"
abbreviation NMI_VECTOR :: nat where "NMI_VECTOR \<equiv> 2"
abbreviation PAGE_FAULT_VECTOR :: nat where "PAGE_FAULT_VECTOR \<equiv> 14"
abbreviation MACHINE_CHECK_VECTOR :: nat where "MACHINE_CHECK_VECTOR \<equiv> 18"
abbreviation IA32_MCG_STATUS :: u32 where "IA32_MCG_STATUS \<equiv> 0x17A"
abbreviation MCIP :: u32 where "MCIP \<equiv> 4"
abbreviation RIPV :: u32 where "RIPV \<equiv> 1"
abbreviation VM_PAGEFAULT :: int where "VM_PAGEFAULT \<equiv> 0xCFF"
abbreviation VM_HR1PAGEFAULT :: int where "VM_HR1PAGEFAULT \<equiv> 0xC49"
abbreviation VM_HR2PAGEFAULT :: int where "VM_HR2PAGEFAULT \<equiv> 0xC50"

section \<open>Definitions\<close>

text \<open>
  The machine check handler: an uncorrected error halts the processor; if the halt is
  left by an interrupt the handler answers \<open>EFAULT\<close>.
\<close>

definition mcah :: "kstate \<Rightarrow> int" where
  "mcah s =
     (let low = snd (msr s IA32_MCG_STATUS)
      in if has low MCIP \<and> has low RIPV then OK else EFAULT)"

definition hardening_page_fault :: "int \<Rightarrow> kstate \<Rightarrow> stop + kstate" where
  "hardening_page_fault p s =
     (let s = s\<lparr>h_normal_pf := 0, h_rw := 0\<rparr>
      in bnd (check_vaddr_2 p (p_cr3 (procs s p)) (cr2 s) (h_rw s) s) (\<lambda>((r, rw), s).
           let s = s\<lparr>h_rw := rw\<rparr>
           in Inr (if r = OK then s\<lparr>h_stop_pe := H_NO\<rparr> else s\<lparr>h_normal_pf := NORMAL_PF\<rparr>)))"

definition hardening_exception_handler :: "nat \<Rightarrow> kstate \<Rightarrow> stop + kstate" where
  "hardening_exception_handler vector s =
     bnd (kassert (h_enable s \<noteq> 0) ''h_enable'' s) (\<lambda>s.
     let p = proc_ptr s
     in bnd (kassert (h_proc_nr s = p_nr (procs s p)) ''h_proc_nr == p->p_nr'' s) (\<lambda>s.
        bnd (kassert (h_proc_nr s \<noteq> VM_PROC_NR) ''h_proc_nr != VM_PROC_NR'' s) (\<lambda>s.
          let s = (get_remain_ins_counter_value p s)\<lparr>h_stop_pe := H_YES\<rparr>
          in if vector = DEBUG_VECTOR
             then (case ssh p s of (r, s) \<Rightarrow> Inr (if r \<noteq> OK then s\<lparr>h_stop_pe := H_NO\<rparr> else s))
             else if vector = NMI_VECTOR
             then (case irh s of (r, s) \<Rightarrow> Inr (if r \<noteq> OK then s\<lparr>h_stop_pe := H_NO\<rparr> else s))
             else if vector = PAGE_FAULT_VECTOR then hardening_page_fault p s
             else if vector = MACHINE_CHECK_VECTOR
             then Inr (if mcah s = OK then s\<lparr>h_stop_pe := H_NO\<rparr> else s)
             else Inr s)))"

text \<open>
  \<open>pagefault()\<close>. The arguments are the uninitialised message on the stack, the error code
  of the exception frame, whether the fault is nested, whether it is in a copy routine
  whose faults are caught, and the address of \<open>phys_copy_fault\<close>. A fault the kernel
  already handled needs nothing; a fault on a page without a copy suspends the run and
  names the run in the message to VM.
\<close>

definition pagefault :: "message \<Rightarrow> u32 \<Rightarrow> bool \<Rightarrow> bool \<Rightarrow> u32 \<Rightarrow> int \<Rightarrow> kstate \<Rightarrow> stop + kstate" where
  "pagefault m errcode is_nested in_copy phys_copy_fault pr s =
     (if h_rw s = K_HANDLE_PF then Inr s
      else
        let hard = (h_rw s = RO_PAGE_FIRST_RUN \<or> h_rw s = RO_PAGE_SECOND_RUN)
        in bnd (if hard
                then bnd (kassert (h_step_back s = 0) ''h_step_back == 0'' s)
                       (\<lambda>s. Inr (s\<lparr>h_step_back := h_step s, h_step := VM_RUN\<rparr>))
                else Inr s) (\<lambda>s.
             if (is_nested \<or> pr < 0) \<and> in_copy
             then Inr (if is_nested then s
                       else upd_proc pr (\<lambda>q. q\<lparr>p_reg := (p_reg q)\<lparr>r_pc := phys_copy_fault, r_retreg := cr2 s\<rparr>\<rparr>) s)
             else if is_nested then Inl (Panic ''pagefault in kernel'')
             else if p_endpoint (procs s pr) = VM_PROC_NR then Inl (Panic ''pagefault in VM'')
             else bnd (RTS_SET pr RTS_PAGEFAULT s) (\<lambda>s.
                  let m = m\<lparr>m_source := p_endpoint (procs s pr), VPF_ADDR := cr2 s, VPF_FLAGS := errcode,
                        m_type := (if \<not> hard then VM_PAGEFAULT
                                   else if h_rw s = RO_PAGE_FIRST_RUN then VM_HR1PAGEFAULT else VM_HR2PAGEFAULT)\<rparr>
                  in bnd (mini_send pr VM_PROC_NR (Some m) FROM_KERNEL s) (\<lambda>(err, s).
                       if err \<noteq> 0 then Inl (Panic ''WARNING: pagefault: mini_send returned'') else Inr s))))"

end
