(* ===== verification/Hard_Init.thy ===== *)
theory Hard_Init
  imports Dwc
begin

text \<open>
  \<open>kernel/arch/i386/hm.c\<close>: initialisation of the hardening. Most of the control
  variables \<open>init_hardening\<close> appears to clear are locals of the function, so only
  \<open>h_can_start_hardening\<close>, \<open>could_inject\<close>, \<open>hc_proc_nr\<close>, the tables and the
  counter are written; the loops stop before the last slot of each table.
\<close>

section \<open>Definitions\<close>

definition init_pmb :: "pram_mem_block \<Rightarrow> pram_mem_block" where
  "init_pmb b = b\<lparr>pmb_flags := PRAM_SLOT_FREE, pmb_vaddr := 0, pmb_id := 0, us0 := 0, us1 := 0, us2 := 0,
     next_pmb := None\<rparr>"

definition init_hme :: "hardening_mem_event \<Rightarrow> hardening_mem_event" where
  "init_hme e = e\<lparr>hme_flags := HME_SLOT_FREE, addr_base := 0, hme_nbytes := 0, hme_id := 0, npages := 0,
     next_hme := None\<rparr>"

definition init_hsr :: "hardening_shared_region \<Rightarrow> hardening_shared_region" where
  "init_hsr h = h\<lparr>hsr_id := 0, hsr_flags := HSR_SLOT_FREE, r_id := 0, hsr_vaddr := 0, hsr_length := 0,
     next_hsr := None, r_hsp := None, n_hsp := 0\<rparr>"

definition init_hsp :: "hardening_shared_proc \<Rightarrow> hardening_shared_proc" where
  "init_hsp h = h\<lparr>hsp_endpoint := 0, hsp_flags := HSP_SLOT_FREE, hsp_id := 0, next_hsp := None\<rparr>"

text \<open>\<open>for(x = BEG; x < END; x++)\<close> with \<open>END\<close> the address of slot \<open>n - 1\<close>.\<close>

definition init_slots :: "nat \<Rightarrow> ('a \<Rightarrow> 'a) \<Rightarrow> (nat \<Rightarrow> 'a) \<Rightarrow> nat \<Rightarrow> 'a" where
  "init_slots n f t i = (if i < n - 1 then f (t i) else t i)"

definition init_hardening_features :: "kstate \<Rightarrow> kstate" where
  "init_hardening_features s = intel_arch_insn_counter_init s"

definition init_hardening :: "kstate \<Rightarrow> kstate" where
  "init_hardening s =
     init_hardening_features
       (s\<lparr>h_can_start_hardening := 0, could_inject := H_YES,
          hc_proc_nr := (\<lambda>i. if i < 10 then 0 else hc_proc_nr s i),
          working_set := init_slots WORKING_SET_SIZE init_pmb (working_set s),
          hardening_mem_events := init_slots HARDENING_MEM_EVENTS init_hme (hardening_mem_events s),
          hardening_shared_regions := init_slots HARDENING_SHARED_REGIONS init_hsr (hardening_shared_regions s),
          hardening_shared_procs := init_slots HARDENING_SHARED_PROCS init_hsp (hardening_shared_procs s)\<rparr>)"

end
