(* ===== verification/Hard_Calls.thy ===== *)
theory Hard_Calls
  imports Exc_Handler Hard_Init
begin

text \<open>
  The kernel calls of the hardening (\<open>kernel/system/do_hardening.c\<close>,
  \<open>do_addregionto_ws.c\<close>, \<open>do_free_pmbs.c\<close>, \<open>do_hmem_map.c\<close>, \<open>do_hsr.c\<close>) and the
  hardening part of \<open>do_fork.c\<close>, \<open>do_exec.c\<close> and \<open>do_clear.c\<close>. The argument
  \<open>hm\<close> is the uninitialised message on the kernel stack.
\<close>

section \<open>Messages\<close>

abbreviation HTASK_EN_HARDENING_ALL_F :: int where "HTASK_EN_HARDENING_ALL_F \<equiv> 0x1"
abbreviation HTASK_DIS_HARDENING_ALL_F :: int where "HTASK_DIS_HARDENING_ALL_F \<equiv> 0x2"
abbreviation HTASK_EN_HARDENING_PID :: int where "HTASK_EN_HARDENING_PID \<equiv> 0x4"
abbreviation HTASK_DIS_HARDENING_PID :: int where "HTASK_DIS_HARDENING_PID \<equiv> 0x8"
abbreviation HTASK_DISPLAY_HARDENIG :: int where "HTASK_DISPLAY_HARDENIG \<equiv> 0x40"
abbreviation HTASK_EN_INJECT :: int where "HTASK_EN_INJECT \<equiv> 0x80"
abbreviation HTASK_DIS_INJECT :: int where "HTASK_DIS_INJECT \<equiv> 0x100"
abbreviation VM_TELL_VM_H_ENABLE :: int where "VM_TELL_VM_H_ENABLE \<equiv> 0xC51"
abbreviation VM_TELL_VM_H_DISABLE :: int where "VM_TELL_VM_H_DISABLE \<equiv> 0xC52"
abbreviation VM_TELL_VM_H_ENABLE_P :: int where "VM_TELL_VM_H_ENABLE_P \<equiv> 0xC53"
abbreviation VM_TELL_VM_H_DISABLE_P :: int where "VM_TELL_VM_H_DISABLE_P \<equiv> 0xC54"
abbreviation H_NPROCS_TO_START_H :: int where "H_NPROCS_TO_START_H \<equiv> 0x10800"

section \<open>SYS_HARDENING\<close>

definition tell_vm :: "message \<Rightarrow> int \<Rightarrow> int \<Rightarrow> string \<Rightarrow> kstate \<Rightarrow> stop + (int \<times> kstate)" where
  "tell_vm hm p typ msg s =
     bnd (mini_send p VM_PROC_NR (Some (hm\<lparr>m_source := p_endpoint (procs s p), m_type := typ\<rparr>)) FROM_KERNEL s)
       (\<lambda>(err, s). if err \<noteq> 0 then Inl (Panic msg) else Inr (OK, s))"

text \<open>Switching the hardening of one process on or off.\<close>

definition harden_pid :: "message \<Rightarrow> bool \<Rightarrow> int \<Rightarrow> kstate \<Rightarrow> stop + (int \<times> kstate)" where
  "harden_pid hm on e s =
     (case isokendpt e s of
        None \<Rightarrow> Inr (EINVAL, s)
      | Some hp \<Rightarrow>
          tell_vm hm hp (if on then VM_TELL_VM_H_ENABLE_P else VM_TELL_VM_H_DISABLE_P)
            (if on then ''WARNING: enable_hardening: mini_send returned'' else ''WARNING: disable_hardening: mini_send returned'')
            (upd_proc hp (\<lambda>q. q\<lparr>p_hflags := (if on then setf (p_hflags q) PROC_TO_HARD else clrf (p_hflags q) PROC_TO_HARD)\<rparr>) s))"

text \<open>The display case only prints; the case of \<open>HTASK_DIS_HARDENING_PID\<close> falls into it.\<close>

definition do_hardening :: "message \<Rightarrow> message \<Rightarrow> kstate \<Rightarrow> stop + (int \<times> kstate)" where
  "do_hardening hm m s =
     (case isokendpt (m10_i3 m) s of
        None \<Rightarrow> Inr (EINVAL, s)
      | Some p \<Rightarrow>
          if m10_i1 m = HTASK_EN_HARDENING_ALL_F
          then tell_vm hm p VM_TELL_VM_H_ENABLE ''WARNING: enable_hardening: mini_send returned''
                 (s\<lparr>h_can_start_hardening := 1\<rparr>)
          else if m10_i1 m = HTASK_DIS_HARDENING_ALL_F
          then tell_vm hm p VM_TELL_VM_H_DISABLE ''WARNING: disable_hardening: mini_send returned''
                 (s\<lparr>h_can_start_hardening := 0\<rparr>)
          else if m10_i1 m = HTASK_EN_HARDENING_PID then harden_pid hm True (m10_i2 m) s
          else if m10_i1 m = HTASK_DIS_HARDENING_PID then harden_pid hm False (m10_i2 m) s
          else if m10_i1 m = HTASK_EN_INJECT then Inr (OK, s\<lparr>h_inject_fault := 1\<rparr>)
          else if m10_i1 m = HTASK_DIS_INJECT then Inr (OK, s\<lparr>h_inject_fault := 0\<rparr>)
          else Inr (OK, s))"

section \<open>Working set calls\<close>

definition do_addregionto_ws :: "message \<Rightarrow> kstate \<Rightarrow> stop + (int \<times> kstate)" where
  "do_addregionto_ws m s =
     (case isokendpt (m10_i4 m) s of
        None \<Rightarrow> Inr (EINVAL, s)
      | Some p \<Rightarrow>
          if has (p_hflags (procs s p)) PROC_TO_HARD
          then bnd (add_region_to_ws p (p_cr3 (procs s p)) (m10_l1 m) (of_int (m10_i3 m)) (m10_l2 m) (m10_l3 m) s)
                 (\<lambda>(_, s). Inr (OK, s))
          else Inr (OK, s))"

definition do_free_pmbs :: "message \<Rightarrow> kstate \<Rightarrow> stop + (int \<times> kstate)" where
  "do_free_pmbs m s =
     (case isokendpt (m10_i1 m) s of
        None \<Rightarrow> Inr (EINVAL, s)
      | Some p \<Rightarrow>
          if has (p_hflags (procs s p)) PROC_TO_HARD
          then bnd (free_pram_mem_block_vaddr p (m10_l1 m) (of_int (m10_i2 m)) s) (\<lambda>s. Inr (OK, s))
          else Inr (OK, s))"

definition share_region :: "int \<Rightarrow> u32 \<Rightarrow> u32 \<Rightarrow> int \<Rightarrow> kstate \<Rightarrow> stop + (int \<times> kstate)" where
  "share_region p vaddr len rid s =
     (if has (p_hflags (procs s p)) PROC_TO_HARD
      then bnd (add_hsr p vaddr len rid s) (\<lambda>(_, s).
             Inr (OK, upd_proc p (\<lambda>q. q\<lparr>p_hflags := setf (p_hflags q) PROC_SHARING_MEM\<rparr>) s))
      else Inr (OK, s))"

definition do_hsr :: "message \<Rightarrow> kstate \<Rightarrow> stop + (int \<times> kstate)" where
  "do_hsr m s =
     (case isokendpt (m10_i4 m) s of
        None \<Rightarrow> Inr (EINVAL, s)
      | Some p \<Rightarrow> share_region p (m10_l1 m) (m10_l2 m) (m10_i3 m) s)"

text \<open>The answer of VM to a hardening page fault: the frame goes into the block of that fault.\<close>

definition map_answer :: "int \<Rightarrow> message \<Rightarrow> nat \<Rightarrow> kstate \<Rightarrow> stop + (int \<times> kstate)" where
  "map_answer p m a s =
     bnd (read_pte (p_cr3 (procs s p)) (pmb_vaddr (working_set s a)) s) (\<lambda>(pa, pte_v).
       let (pte_v, s) = (if m10_l3 m = - 2 \<and> m10_l2 m = - 2
                         then (map_frame_w pte_v (m10_l1 m), upd_pmb a (\<lambda>b. b\<lparr>us1 := m10_l1 m\<rparr>) s)
                         else (pte_v, s));
           (pte_v, s) = (if m10_l3 m = - 2 \<and> m10_l1 m = - 2
                         then (map_frame_w pte_v (m10_l2 m), upd_pmb a (\<lambda>b. b\<lparr>us2 := m10_l2 m\<rparr>) s)
                         else (pte_v, s))
       in Inr (OK, snd (phys_set32 pa pte_v s)))"

definition do_hmem_map :: "message \<Rightarrow> kstate \<Rightarrow> stop + (int \<times> kstate)" where
  "do_hmem_map m s =
     (case isokendpt (m10_i4 m) s of
        None \<Rightarrow> Inr (EINVAL, s)
      | Some p \<Rightarrow>
          if m10_l3 m = - 10 then share_region p (m10_l1 m) (m10_l2 m) (m10_i3 m) s
          else if m10_l3 m = 0 \<and> m10_l2 m = 0 then Inr (OK, s\<lparr>h_can_start_hardening := 1\<rparr>)
          else bnd (look_up_lastpf_pte p s) (\<lambda>(found, s). case found of
                 None \<Rightarrow> Inl (Panic ''pmb is NULL, should not happen'')
               | Some a \<Rightarrow> map_answer p m a s))"

section \<open>Fork, exec, exit\<close>

text \<open>\<open>handle_hsr_events\<close> walks the region lists to print them.\<close>

definition handle_hsr_events :: "int \<Rightarrow> kstate \<Rightarrow> stop + kstate" where
  "handle_hsr_events rp s =
     (if p_nb_hardening_shared_regions (procs s rp) \<le> 0 then Inr s
      else bnd (for_chain hsr_nx
                  (\<lambda>a s. for_chain hsp_nx (\<lambda>_ s. Inr (None :: unit option, s))
                           (r_hsp (hardening_shared_regions s a)) s)
                  (p_hardening_shared_regions (procs s rp)) s)
             (\<lambda>(_, s). Inr s))"

definition fork_child :: "int \<Rightarrow> kstate \<Rightarrow> kstate" where
  "fork_child rpc s =
     upd_proc rpc (\<lambda>q. q\<lparr>p_lus1_us2_size := 0, p_lus1_us2 := None, p_hardening_mem_events := None,
       p_nb_hardening_mem_events := 0, p_hardening_shared_regions := None, p_nb_hardening_shared_regions := 0,
       p_stats := \<lparr>p_nb_nmi = 0, p_nb_pe = 0, p_nb_abort = 0, p_nb_ss = 0, p_nb_dwc_d_f = 0, p_nb_inj_fault = 0,
         p_nb_exception_d_f = 0, p_nb_interrupt = 0, p_ticks = 0, p_last_inject_pe = 0\<rparr>,
       p_sig_delay := - 1, p_check_vaddr_2_acc := \<lparr>acc_tsc = 0, acc_t = 0\<rparr>,
       p_reset_pram_acc := \<lparr>acc_tsc = 0, acc_t = 0\<rparr>, p_set_ro_acc := \<lparr>acc_tsc = 0, acc_t = 0\<rparr>,
       p_cmp_acc := \<lparr>acc_tsc = 0, acc_t = 0\<rparr>\<rparr>) s"

definition do_fork_hardening :: "int \<Rightarrow> int \<Rightarrow> kstate \<Rightarrow> stop + kstate" where
  "do_fork_hardening rpp rpc s =
     (let s = upd_proc rpc (\<lambda>q. q\<lparr>p_setcow := 0, p_hflags := 0\<rparr>) s;
          s = (if hprocs_in_use s \<le> H_NPROCS_TO_START_H then s\<lparr>hprocs_in_use := hprocs_in_use s + 1\<rparr> else s);
          s = (if hprocs_in_use s > 800 then upd_proc rpc (\<lambda>q. q\<lparr>p_setcow := 1\<rparr>) s else s);
          s = (if h_can_start_hardening s \<noteq> 0
               then (upd_proc rpc (\<lambda>q. q\<lparr>p_hflags := setf (p_hflags q) PROC_TO_HARD\<rparr>) s)
                      \<lparr>hc_proc_nr := (hc_proc_nr s)(hcount s mod 10 := p_nr (procs s rpc)), hcount := hcount s + 1\<rparr>
               else s);
          s = fork_child rpc s
      in if has (p_hflags (procs s rpp)) PROC_TO_HARD then set_fork_label rpp s else Inr s)"

definition do_exec_hardening :: "int \<Rightarrow> kstate \<Rightarrow> stop + kstate" where
  "do_exec_hardening rp s =
     (if has (p_hflags (procs s rp)) PROC_TO_HARD then free_pram_mem_blocks rp FROM_EXEC s else Inr s)"

definition do_clear_hardening :: "int \<Rightarrow> kstate \<Rightarrow> stop + kstate" where
  "do_clear_hardening rc s =
     (if has (p_hflags (procs s rc)) PROC_TO_HARD
      then bnd (free_pram_mem_blocks rc 1 s) (\<lambda>s.
           bnd (handle_hsr_events rc s) (\<lambda>s.
           bnd (free_hsrs rc s) (\<lambda>s. Inr (reset_hardening_attri rc s))))
      else Inr s)"

end
