(* ===== verification/Page_Views.thy ===== *)
theory Page_Views
  imports Pram_Cow
begin

text \<open>
  Refinement of the copy-on-write layer. The state of a page is abstracted to a
  \<open>page_view\<close>; the locale \<open>page_step\<close> is the contract of a routine that treats one
  page, and its lemmas lift the contract to the loops over the working set. The cases of
  \<open>vm_reset_pram\<close> are interpretations of the locale, each with its function on views.
\<close>

section \<open>Pages as a client sees them\<close>

text \<open>
  The abstract view of a page of the working set: its block, the contents of the three
  frames (\<open>None\<close> for a frame not allocated), its directory and its page table entry. The routines
  that end or start a run are refined to functions on such views, page by page.
\<close>

definition frame :: "(u32 \<Rightarrow> u8) \<Rightarrow> u32 \<Rightarrow> u32 \<Rightarrow> u8" where
  "frame m f = (\<lambda>i. if i < 4096 then m (f + i) else 0)"

lemma frame_same: "frame m f = frame m' g \<longleftrightarrow> same_frame m f m' g"
  by (auto simp: frame_def same_frame_def fun_eq_iff)

definition frame_at :: "(u32 \<Rightarrow> u8) \<Rightarrow> u32 \<Rightarrow> (u32 \<Rightarrow> u8) option" where
  "frame_at m f = (if f = MAP_NONE then None else Some (frame m f))"

record page_view =
  pv_b :: pram_mem_block
  pv_0 :: "(u32 \<Rightarrow> u8) option"
  pv_1 :: "(u32 \<Rightarrow> u8) option"
  pv_2 :: "(u32 \<Rightarrow> u8) option"
  pv_pde :: u32
  pv_pte :: u32

definition pde_of :: "u32 \<Rightarrow> kstate \<Rightarrow> u32 \<Rightarrow> u32" where
  "pde_of root s v = mem_get32 (mem s) (entry_addr root (I386_VM_PDE v))"

definition pt_of :: "u32 \<Rightarrow> kstate \<Rightarrow> u32 \<Rightarrow> u32" where
  "pt_of root s v = I386_VM_PFA (pde_of root s v)"

definition pte_of :: "u32 \<Rightarrow> kstate \<Rightarrow> u32 \<Rightarrow> u32" where
  "pte_of root s v = mem_get32 (mem s) (entry_addr (pt_of root s v) (I386_VM_PTE v))"

definition view :: "u32 \<Rightarrow> kstate \<Rightarrow> nat \<Rightarrow> page_view" where
  "view root s a =
     (let b = working_set s a
      in \<lparr>pv_b = b, pv_0 = frame_at (mem s) (us0 b), pv_1 = frame_at (mem s) (us1 b),
          pv_2 = frame_at (mem s) (us2 b), pv_pde = pde_of root s (pmb_vaddr b), pv_pte = pte_of root s (pmb_vaddr b)\<rparr>)"

section \<open>A well-formed memory image\<close>

definition frames_of :: "pram_mem_block \<Rightarrow> u32 set" where
  "frames_of b = {us0 b, us1 b, us2 b} - {MAP_NONE}"

definition no_faults :: "kstate \<Rightarrow> bool" where
  "no_faults s \<longleftrightarrow> rd_fault s = (\<lambda>_. False) \<and> wr_fault s = (\<lambda>_. False)"

text \<open>
  The frames of the blocks are page aligned, belong to one block each, differ within a
  block, and are neither the page directory nor a page table; different blocks have
  different page table entries.
\<close>

definition block_ok :: "u32 \<Rightarrow> kstate \<Rightarrow> pram_mem_block \<Rightarrow> bool" where
  "block_ok root s b \<longleftrightarrow>
     (\<forall>f \<in> frames_of b. page_aligned f) \<and> root \<notin> frames_of b \<and>
     (us1 b \<noteq> MAP_NONE \<longrightarrow> us1 b \<noteq> us0 b) \<and> (us2 b \<noteq> MAP_NONE \<longrightarrow> us2 b \<noteq> us0 b \<and> us2 b \<noteq> us1 b) \<and>
     pt_of root s (pmb_vaddr b) \<noteq> root"

definition layout :: "u32 \<Rightarrow> nat list \<Rightarrow> kstate \<Rightarrow> bool" where
  "layout root as s \<longleftrightarrow>
     page_aligned root \<and>
     (\<forall>a \<in> set as. block_ok root s (working_set s a)) \<and>
     (\<forall>a \<in> set as. \<forall>c \<in> set as. pt_of root s (pmb_vaddr (working_set s c)) \<notin> frames_of (working_set s a)) \<and>
     (\<forall>a \<in> set as. \<forall>c \<in> set as. a \<noteq> c \<longrightarrow>
        frames_of (working_set s a) \<inter> frames_of (working_set s c) = {} \<and>
        (pt_of root s (pmb_vaddr (working_set s a)) \<noteq> pt_of root s (pmb_vaddr (working_set s c)) \<or>
         I386_VM_PTE (pmb_vaddr (working_set s a)) \<noteq> I386_VM_PTE (pmb_vaddr (working_set s c))))"

definition page_world :: "int \<Rightarrow> u32 \<Rightarrow> nat list \<Rightarrow> kstate \<Rightarrow> bool" where
  "page_world p root as s \<longleftrightarrow> ws_list p s as \<and> layout root as s \<and> no_faults s"

section \<open>Effects confined to one page\<close>

text \<open>Memory changes only in the frames \<open>W\<close> and in entry \<open>j\<close> of the page table \<open>g\<close>.\<close>

definition mem_conf :: "u32 set \<Rightarrow> u32 \<Rightarrow> u32 \<Rightarrow> (u32 \<Rightarrow> u8) \<Rightarrow> (u32 \<Rightarrow> u8) \<Rightarrow> bool" where
  "mem_conf W g j m m' \<longleftrightarrow>
     (\<forall>f. page_aligned f \<longrightarrow> f \<notin> W \<longrightarrow> f \<noteq> g \<longrightarrow> same_frame m' f m f) \<and>
     (\<forall>k < 1024. k \<noteq> j \<longrightarrow> mem_get32 m' (entry_addr g k) = mem_get32 m (entry_addr g k))"

lemma mem_conf_refl [simp]: "mem_conf W g j m m"
  by (simp add: mem_conf_def)

lemma mem_conf_trans: "mem_conf W g j m m' \<Longrightarrow> mem_conf W g j m' m'' \<Longrightarrow> mem_conf W g j m m''"
  unfolding mem_conf_def by (metis same_frame_trans)

lemma mem_conf_copy:
  assumes "dst \<in> W" "page_aligned dst" "page_aligned g" "g \<notin> W"
  shows "mem_conf W g j m (mem_copy m src dst 4096)"
  unfolding mem_conf_def
proof (intro conjI allI impI)
  fix f assume "page_aligned f" "f \<notin> W" "f \<noteq> g"
  then show "same_frame (mem_copy m src dst 4096) f m f" using assms by (intro copy_other) auto
next
  fix k :: u32 assume "k < 1024" "k \<noteq> j"
  have "g \<noteq> dst" using assms by auto
  then show "mem_get32 (mem_copy m src dst 4096) (entry_addr g k) = mem_get32 m (entry_addr g k)"
    using copy_other [OF assms(3,2)] \<open>k < 1024\<close> by (intro get32_frame_cong) auto
qed

lemma mem_conf_set32:
  assumes "page_aligned g" "j < 1024"
  shows "mem_conf W g j m (mem_set32 m (entry_addr g j) v)"
  unfolding mem_conf_def using assms set32_frame get32_set32_entry [OF assms(1,1,2)] by auto

text \<open>The state changes only in memory, as above, and in the flags of block \<open>a\<close>.\<close>

definition only_page :: "u32 \<Rightarrow> nat \<Rightarrow> kstate \<Rightarrow> kstate \<Rightarrow> bool" where
  "only_page root a s t \<longleftrightarrow>
     t\<lparr>mem := mem s, working_set := working_set s\<rparr> = s \<and>
     (\<forall>c. c \<noteq> a \<longrightarrow> working_set t c = working_set s c) \<and>
     (working_set t a)\<lparr>pmb_flags := pmb_flags (working_set s a)\<rparr> = working_set s a \<and>
     pmb_free t a = pmb_free s a \<and>
     mem_conf (frames_of (working_set s a)) (pt_of root s (pmb_vaddr (working_set s a)))
       (I386_VM_PTE (pmb_vaddr (working_set s a))) (mem s) (mem t)"

lemma only_page_sel:
  assumes "only_page root a s t"
  shows "procs t = procs s" "rd_fault t = rd_fault s" "wr_fault t = wr_fault s" "h_step t = h_step s"
    "tsc_n t = tsc_n s" "tsc t = tsc s"
proof -
  have e: "t\<lparr>mem := mem s, working_set := working_set s\<rparr> = s" using assms by (simp add: only_page_def)
  show "procs t = procs s" using arg_cong [OF e, of procs] by simp
  show "rd_fault t = rd_fault s" using arg_cong [OF e, of rd_fault] by simp
  show "wr_fault t = wr_fault s" using arg_cong [OF e, of wr_fault] by simp
  show "h_step t = h_step s" using arg_cong [OF e, of h_step] by simp
  show "tsc_n t = tsc_n s" using arg_cong [OF e, of tsc_n] by simp
  show "tsc t = tsc s" using arg_cong [OF e, of tsc] by simp
qed

lemma only_page_block:
  assumes "only_page root a s t"
  shows "pmb_vaddr (working_set t c) = pmb_vaddr (working_set s c)" "us0 (working_set t c) = us0 (working_set s c)"
    "us1 (working_set t c) = us1 (working_set s c)" "us2 (working_set t c) = us2 (working_set s c)"
    "next_pmb (working_set t c) = next_pmb (working_set s c)"
proof -
  have b: "(working_set t c)\<lparr>pmb_flags := pmb_flags (working_set s c)\<rparr> = working_set s c"
    using assms by (cases "c = a") (auto simp: only_page_def)
  show "pmb_vaddr (working_set t c) = pmb_vaddr (working_set s c)" using arg_cong [OF b, of pmb_vaddr] by simp
  show "us0 (working_set t c) = us0 (working_set s c)" using arg_cong [OF b, of us0] by simp
  show "us1 (working_set t c) = us1 (working_set s c)" using arg_cong [OF b, of us1] by simp
  show "us2 (working_set t c) = us2 (working_set s c)" using arg_cong [OF b, of us2] by simp
  show "next_pmb (working_set t c) = next_pmb (working_set s c)" using arg_cong [OF b, of next_pmb] by simp
qed

lemma only_page_frames: "only_page root a s t \<Longrightarrow> frames_of (working_set t c) = frames_of (working_set s c)"
  by (simp add: frames_of_def only_page_block)

lemma only_page_conf:
  "only_page root a s t \<Longrightarrow> mem_conf (frames_of (working_set s a)) (pt_of root s (pmb_vaddr (working_set s a)))
       (I386_VM_PTE (pmb_vaddr (working_set s a))) (mem s) (mem t)"
  by (simp add: only_page_def)

lemma layout_block:
  assumes "layout root as s" "a \<in> set as"
  shows "block_ok root s (working_set s a)" "page_aligned root"
    "pt_of root s (pmb_vaddr (working_set s a)) \<notin> frames_of (working_set s a)"
  using assms by (auto simp: layout_def)

lemma only_page_pde:
  assumes "only_page root a s t" "layout root as s" "a \<in> set as"
  shows "pde_of root t v = pde_of root s v"
proof -
  note b = layout_block [OF assms(2,3)]
  have "same_frame (mem t) root (mem s) root"
    using only_page_conf [OF assms(1)] b by (auto simp: mem_conf_def block_ok_def)
  then show ?thesis unfolding pde_of_def using get32_frame_cong PDE_less by metis
qed

lemma only_page_pt:
  assumes "only_page root a s t" "layout root as s" "a \<in> set as"
  shows "pt_of root t v = pt_of root s v"
  by (simp add: pt_of_def only_page_pde [OF assms])

lemma only_page_layout:
  assumes "only_page root a s t" "layout root as s" "a \<in> set as"
  shows "layout root as t"
  using assms(2) unfolding layout_def block_ok_def
  by (simp add: only_page_block [OF assms(1)] only_page_frames [OF assms(1)] only_page_pt [OF assms])

lemma only_page_ws_list:
  assumes "only_page root a s t" "ws_list p s as"
  shows "ws_list p t as"
proof -
  have "pmb_nx t = pmb_nx s" by (rule ext) (simp add: pmb_nx_def only_page_block [OF assms(1)])
  moreover have "pmb_page t = pmb_page s" by (rule ext) (simp add: pmb_page_def only_page_block [OF assms(1)])
  moreover have "pmb_free t = pmb_free s"
    using assms(1) by (auto simp: fun_eq_iff only_page_def pmb_free_def)
  ultimately show ?thesis using assms(2) by (simp add: ws_list_def only_page_sel [OF assms(1)])
qed

lemma only_page_world:
  assumes "only_page root a s t" "page_world p root as s" "a \<in> set as"
  shows "page_world p root as t"
  using assms only_page_layout [OF assms(1) _ assms(3)] only_page_ws_list [OF assms(1)]
  by (simp add: page_world_def no_faults_def only_page_sel [OF assms(1)])

text \<open>Another page looks the same afterwards.\<close>

lemma frame_at_keep:
  assumes "mem_conf W g j m m'" "f \<notin> W" "f \<noteq> g" "f \<noteq> MAP_NONE \<Longrightarrow> page_aligned f"
  shows "frame_at m' f = frame_at m f"
  using assms by (auto simp: frame_at_def frame_same mem_conf_def)

lemma only_page_view_other:
  assumes o: "only_page root a s t" and l: "layout root as s" and ac: "a \<in> set as" "c \<in> set as" "c \<noteq> a"
  shows "view root t c = view root s c"
proof -
  let ?A = "working_set s a" and ?C = "working_set s c"
  let ?g = "pt_of root s (pmb_vaddr ?A)" and ?h = "pt_of root s (pmb_vaddr ?C)"
  have conf: "mem_conf (frames_of ?A) ?g (I386_VM_PTE (pmb_vaddr ?A)) (mem s) (mem t)"
    using o by (rule only_page_conf)
  have wt: "working_set t c = ?C" using o ac by (simp add: only_page_def)
  have sep: "frames_of ?A \<inter> frames_of ?C = {}" "?g \<notin> frames_of ?C" "?h \<notin> frames_of ?A"
    "?g \<noteq> ?h \<or> I386_VM_PTE (pmb_vaddr ?A) \<noteq> I386_VM_PTE (pmb_vaddr ?C)"
    using l ac by (auto simp: layout_def)
  have fr: "frame_at (mem t) f = frame_at (mem s) f" if "f = us0 ?C \<or> f = us1 ?C \<or> f = us2 ?C" for f
  proof (cases "f = MAP_NONE")
    case False
    then have "f \<in> frames_of ?C" using that by (auto simp: frames_of_def)
    moreover have "page_aligned f" using \<open>f \<in> frames_of ?C\<close> layout_block [OF l ac(2)] by (auto simp: block_ok_def)
    ultimately show ?thesis using sep by (intro frame_at_keep [OF conf]) auto
  qed (simp add: frame_at_def)
  have pt: "pt_of root t (pmb_vaddr ?C) = ?h" using only_page_pt [OF o l ac(1)] .
  have "mem_get32 (mem t) (entry_addr ?h (I386_VM_PTE (pmb_vaddr ?C)))
      = mem_get32 (mem s) (entry_addr ?h (I386_VM_PTE (pmb_vaddr ?C)))"
  proof (cases "?g = ?h")
    case True
    then show ?thesis using conf sep(4) PTE_less by (auto simp: mem_conf_def)
  next
    case False
    then have "same_frame (mem t) ?h (mem s) ?h"
      using conf sep(3) by (auto simp: mem_conf_def pt_of_def)
    then show ?thesis using get32_frame_cong PTE_less by blast
  qed
  then show ?thesis by (simp add: view_def Let_def wt fr pte_of_def pt only_page_pde [OF o l ac(1)])
qed

section \<open>Loops over the working set\<close>

text \<open>What a loop over the pages \<open>as\<close> leaves alone: the rest of the state and every foreign frame.\<close>

definition only_pages :: "u32 \<Rightarrow> nat list \<Rightarrow> kstate \<Rightarrow> kstate \<Rightarrow> bool" where
  "only_pages root as s t \<longleftrightarrow>
     t\<lparr>mem := mem s, working_set := working_set s\<rparr> = s \<and>
     (\<forall>c. c \<notin> set as \<longrightarrow> working_set t c = working_set s c) \<and>
     (\<forall>c. (working_set t c)\<lparr>pmb_flags := pmb_flags (working_set s c)\<rparr> = working_set s c) \<and>
     (\<forall>f. page_aligned f \<longrightarrow> (\<forall>a \<in> set as. f \<notin> frames_of (working_set s a) \<and> f \<noteq> pt_of root s (pmb_vaddr (working_set s a)))
        \<longrightarrow> same_frame (mem t) f (mem s) f)"

lemma only_pages_refl [simp]: "only_pages root as s s"
  by (simp add: only_pages_def)

lemma only_pages_step:
  assumes st: "only_pages root as s t" and tu: "only_page root a t u" and a: "a \<in> set as"
    and l: "layout root as s" and pt: "\<And>v. pt_of root t v = pt_of root s v"
  shows "only_pages root as s u"
  unfolding only_pages_def
proof (intro conjI allI impI)
  have "u\<lparr>mem := mem s, working_set := working_set s\<rparr> =
      (u\<lparr>mem := mem t, working_set := working_set t\<rparr>)\<lparr>mem := mem s, working_set := working_set s\<rparr>" by simp
  also have "\<dots> = t\<lparr>mem := mem s, working_set := working_set s\<rparr>" using tu by (simp add: only_page_def)
  also have "\<dots> = s" using st by (simp add: only_pages_def)
  finally show "u\<lparr>mem := mem s, working_set := working_set s\<rparr> = s" .
next
  fix c assume "c \<notin> set as"
  then show "working_set u c = working_set s c" using st tu a by (auto simp: only_pages_def only_page_def)
next
  fix c
  have "(working_set u c)\<lparr>pmb_flags := pmb_flags (working_set t c)\<rparr> = working_set t c"
    using tu by (cases "c = a") (auto simp: only_page_def)
  from arg_cong [OF this, of "\<lambda>b. b\<lparr>pmb_flags := pmb_flags (working_set s c)\<rparr>"]
  show "(working_set u c)\<lparr>pmb_flags := pmb_flags (working_set s c)\<rparr> = working_set s c"
    using st by (simp add: only_pages_def)
next
  fix f assume f: "page_aligned f"
    "\<forall>a \<in> set as. f \<notin> frames_of (working_set s a) \<and> f \<noteq> pt_of root s (pmb_vaddr (working_set s a))"
  have b: "(working_set t a)\<lparr>pmb_flags := pmb_flags (working_set s a)\<rparr> = working_set s a"
    using st by (simp add: only_pages_def)
  have "frames_of (working_set t a) = frames_of (working_set s a)"
    "pmb_vaddr (working_set t a) = pmb_vaddr (working_set s a)"
    using arg_cong [OF b, of frames_of] arg_cong [OF b, of pmb_vaddr] by (simp_all add: frames_of_def)
  then have "same_frame (mem u) f (mem t) f"
    using only_page_conf [OF tu] f a pt by (auto simp: mem_conf_def)
  moreover have "same_frame (mem t) f (mem s) f" using st f by (simp add: only_pages_def)
  ultimately show "same_frame (mem u) f (mem s) f" by (rule same_frame_trans)
qed

text \<open>
  The interface of a routine that treats one page: on a well-formed image it returns, its
  effect is confined to the page, and on the view of the page it is the function \<open>F\<close>.
  A loop over the list then applies \<open>F\<close> to every page.
\<close>

locale page_step =
  fixes body :: "int \<Rightarrow> u32 \<Rightarrow> nat \<Rightarrow> kstate \<Rightarrow> stop + kstate"
    and F :: "page_view \<Rightarrow> page_view"
    and ok :: "int \<Rightarrow> kstate \<Rightarrow> bool"
    and pre :: "page_view \<Rightarrow> bool"
  assumes step: "page_world p root as s \<Longrightarrow> a \<in> set as \<Longrightarrow> ok p s \<Longrightarrow> pre (view root s a) \<Longrightarrow>
      \<exists>t. body p root a s = Inr t \<and> only_page root a s t \<and> view root t a = F (view root s a)"
    and ok_stable: "only_page root a s t \<Longrightarrow> ok p s \<Longrightarrow> ok p t"
begin

lemma loop_step:
  assumes w: "page_world p root as t" and ok: "ok p t" and a: "a \<in> set as" and pre: "pre (view root t a)"
  obtains u where "body p root a t = Inr u" "only_page root a t u" "view root u a = F (view root t a)"
    "page_world p root as u" "ok p u" "\<And>c. c \<in> set as \<Longrightarrow> c \<noteq> a \<Longrightarrow> view root u c = view root t c"
    "\<And>v. pt_of root u v = pt_of root t v"
proof -
  have l: "layout root as t" using w by (simp add: page_world_def)
  obtain u where "body p root a t = Inr u" "only_page root a t u" "view root u a = F (view root t a)"
    using step [OF w a ok pre] by blast
  with that show thesis
    using only_page_world [OF _ w a] ok_stable [OF _ ok] only_page_view_other [OF _ l a] only_page_pt [OF _ l a]
    by blast
qed

lemma loop:
  assumes w: "page_world p root as s" and ok: "ok p s" and pre: "\<And>a. a \<in> set as \<Longrightarrow> pre (view root s a)"
  shows "\<exists>t. for_chain pmb_nx (\<lambda>a s. bnd (body p root a s) (\<lambda>s. Inr (None :: unit option, s)))
      (p_lus1_us2 (procs s p)) s = Inr (None, t) \<and> page_world p root as t \<and> ok p t \<and> only_pages root as s t \<and>
      (\<forall>a \<in> set as. view root t a = F (view root s a))"
proof -
  let ?I = "\<lambda>ds rs t. page_world p root as t \<and> ok p t \<and> only_pages root as s t \<and> (\<forall>v. pt_of root t v = pt_of root s v) \<and>
     (\<forall>a \<in> set ds. view root t a = F (view root s a)) \<and> (\<forall>a \<in> set rs. view root t a = view root s a)"
  have l: "layout root as s" and ws: "ws_list p s as" using w by (auto simp: page_world_def)
  have "\<exists>t. for_chain pmb_nx (\<lambda>a s. bnd (body p root a s) (\<lambda>s. Inr (None :: unit option, s)))
      (p_lus1_us2 (procs s p)) s = Inr (None, t) \<and> ?I as [] t"
  proof (rule for_chain_inv [where I = ?I and as = as])
    show "p_lus1_us2 (procs s p) = (case as of [] \<Rightarrow> None | a # _ \<Rightarrow> Some a)"
      using ws chain_head by (auto simp: ws_list_def)
    show "?I [] as s" using w ok by simp
    fix ds a rs t
    assume I: "?I ds (a # rs) t" and as: "as = ds @ a # rs"
    have a: "a \<in> set as" using as by simp
    have d: "distinct as" using ws by (rule ws_list_distinct)
    have "pre (view root t a)" using I pre [OF a] by simp
    then obtain u where u: "body p root a t = Inr u" "only_page root a t u" "view root u a = F (view root t a)"
      "page_world p root as u" "ok p u" "\<And>c. c \<in> set as \<Longrightarrow> c \<noteq> a \<Longrightarrow> view root u c = view root t c"
      "\<And>v. pt_of root u v = pt_of root t v"
      using loop_step [of p root as t a] I a by metis
    have "only_pages root as s u" using only_pages_step [OF _ u(2) a l] I by blast
    moreover have "view root u c = F (view root s c)" if "c \<in> set (ds @ [a])" for c
      using that u(3,6) I as d by (cases "c = a") auto
    moreover have "view root u c = view root s c" if "c \<in> set rs" for c
    proof -
      have "c \<noteq> a" "c \<in> set as" using that as d by auto
      then show ?thesis using u(6) I that by simp
    qed
    ultimately have "?I (ds @ [a]) rs u" using u I by auto
    moreover have "ws_list p u (ds @ a # rs)" using u(4) as by (simp add: page_world_def)
    then have "pmb_nx u a = (case rs of [] \<Rightarrow> None | b # _ \<Rightarrow> Some b)" by (rule ws_list_next)
    ultimately show "\<exists>u. bnd (body p root a t) (\<lambda>s. Inr (None :: unit option, s)) = Inr (None, u) \<and> ?I (ds @ [a]) rs u \<and>
        pmb_nx u a = (case rs of [] \<Rightarrow> None | b # _ \<Rightarrow> Some b)"
      using u(1) by (intro exI [of _ u]) simp
  qed
  then show ?thesis by blast
qed

end

section \<open>The rollback of one page\<close>

definition clear_run_flags :: "pram_mem_block \<Rightarrow> pram_mem_block" where
  "clear_run_flags b = b\<lparr>pmb_flags :=
     clrf (clrf (clrf (clrf (pmb_flags b) IWS_PF_SECOND) IWS_PF_FIRST) HGET_PF) IWS_MOD_KERNEL\<rparr>"

text \<open>On the view: both copies hold the committed frame again, which the page maps writable.\<close>

definition rollback_view :: "page_view \<Rightarrow> page_view" where
  "rollback_view v =
     (let v = v\<lparr>pv_b := clear_run_flags (pv_b v)\<rparr>
      in if (pv_1 v \<noteq> None \<or> pv_2 v \<noteq> None) \<and> pv_0 v \<noteq> None
         then v\<lparr>pv_1 := map_option (\<lambda>_. the (pv_0 v)) (pv_1 v), pv_2 := map_option (\<lambda>_. the (pv_0 v)) (pv_2 v),
                pv_pte := map_frame_w (pv_pte v) (us0 (pv_b v))\<rparr>
         else v)"

text \<open>What the three writes of a rollback do to memory.\<close>

definition copy_if :: "u32 \<Rightarrow> u32 \<Rightarrow> (u32 \<Rightarrow> u8) \<Rightarrow> (u32 \<Rightarrow> u8)" where
  "copy_if src dst m = (if dst \<noteq> MAP_NONE then mem_copy m src dst 4096 else m)"

lemma copy_if_conf:
  assumes "dst \<noteq> MAP_NONE \<Longrightarrow> dst \<in> W \<and> page_aligned dst" "page_aligned g" "g \<notin> W"
  shows "mem_conf W g j m (copy_if src dst m)"
  using assms mem_conf_copy by (simp add: copy_if_def)

lemma copy_if_dst:
  assumes "page_aligned src" "src \<noteq> MAP_NONE" "dst \<noteq> MAP_NONE \<Longrightarrow> page_aligned dst"
  shows "frame_at (copy_if src dst m) dst = map_option (\<lambda>_. the (frame_at m src)) (frame_at m dst)"
  using assms copy_same by (auto simp: copy_if_def frame_at_def frame_same)

lemma copy_if_other:
  assumes "f \<noteq> MAP_NONE \<Longrightarrow> page_aligned f" "dst \<noteq> MAP_NONE \<Longrightarrow> page_aligned dst" "f \<noteq> MAP_NONE \<Longrightarrow> f \<noteq> dst"
  shows "frame_at (copy_if src dst m) f = frame_at m f"
  using assms copy_other by (auto simp: copy_if_def frame_at_def frame_same)

lemma set32_frame_at:
  assumes "f \<noteq> MAP_NONE \<Longrightarrow> page_aligned f \<and> f \<noteq> g" "page_aligned g" "j < 1024"
  shows "frame_at (mem_set32 m (entry_addr g j) v) f = frame_at m f"
  using assms set32_frame by (auto simp: frame_at_def frame_same)

lemma read_pte_ok:
  assumes "no_faults s"
  shows "read_pte root v s = Inr (entry_addr (pt_of root s v) (I386_VM_PTE v), pte_of root s v)"
  using assms by (simp add: read_pte_def phys_get32_def no_faults_def pt_of_def pte_of_def pde_of_def Let_def)

lemma frame_at_None [simp]: "frame_at m f = None \<longleftrightarrow> f = MAP_NONE"
  by (simp add: frame_at_def)

lemma frame_at_Some [simp]: "frame_at m MAP_NONE = None" "(\<exists>y. frame_at m f = Some y) \<longleftrightarrow> f \<noteq> MAP_NONE"
  by (simp_all add: frame_at_def)

lemma pt_aligned [simp]: "page_aligned (pt_of root s v)"
  by (simp add: pt_of_def)

lemma block_frames:
  assumes "block_ok root s b"
  shows "us0 b \<noteq> MAP_NONE \<Longrightarrow> page_aligned (us0 b) \<and> us0 b \<in> frames_of b"
    "us1 b \<noteq> MAP_NONE \<Longrightarrow> page_aligned (us1 b) \<and> us1 b \<in> frames_of b"
    "us2 b \<noteq> MAP_NONE \<Longrightarrow> page_aligned (us2 b) \<and> us2 b \<in> frames_of b"
  using assms by (auto simp: block_ok_def frames_of_def)

text \<open>
  Every routine below ends in a state of this form: the flags of the block rewritten and
  memory changed within the page.
\<close>

lemma only_pageI:
  assumes "mem_conf (frames_of (working_set s a)) (pt_of root s (pmb_vaddr (working_set s a)))
       (I386_VM_PTE (pmb_vaddr (working_set s a))) (mem s) m'"
    and "has fl PRAM_SLOT_FREE = pmb_free s a"
  shows "only_page root a s ((upd_pmb a (\<lambda>b. b\<lparr>pmb_flags := fl\<rparr>) s)\<lparr>mem := m'\<rparr>)"
  using assms by (simp add: only_page_def upd_pmb_def pmb_free_def)

lemma view_upd:
  assumes "layout root as s" "a \<in> set as"
    and c: "mem_conf (frames_of (working_set s a)) (pt_of root s (pmb_vaddr (working_set s a)))
       (I386_VM_PTE (pmb_vaddr (working_set s a))) (mem s) m'"
    and "has fl PRAM_SLOT_FREE = pmb_free s a"
  shows "view root ((upd_pmb a (\<lambda>b. b\<lparr>pmb_flags := fl\<rparr>) s)\<lparr>mem := m'\<rparr>) a =
    (let b = working_set s a
     in \<lparr>pv_b = b\<lparr>pmb_flags := fl\<rparr>, pv_0 = frame_at m' (us0 b), pv_1 = frame_at m' (us1 b), pv_2 = frame_at m' (us2 b),
         pv_pde = pde_of root s (pmb_vaddr b), pv_pte = mem_get32 m' (entry_addr (pt_of root s (pmb_vaddr b)) (I386_VM_PTE (pmb_vaddr b)))\<rparr>)"
proof -
  let ?t = "(upd_pmb a (\<lambda>b. b\<lparr>pmb_flags := fl\<rparr>) s)\<lparr>mem := m'\<rparr>"
  have "only_page root a s ?t" using assms by (intro only_pageI)
  then have "pt_of root ?t v = pt_of root s v" "pde_of root ?t v = pde_of root s v" for v
    using only_page_pt only_page_pde assms by blast+
  then show ?thesis by (simp add: view_def Let_def pte_of_def upd_pmb_def)
qed

lemma upd_pmb_mem: "(upd_pmb a f s)\<lparr>mem := mem s\<rparr> = upd_pmb a f s"
  by (simp add: upd_pmb_def)

lemma reset_rollback_eq:
  assumes "no_faults s"
  shows "reset_rollback a pa pte_v s =
    (let b = working_set s a; s = upd_pmb a clear_run_flags s
     in Inr (if (us1 b \<noteq> MAP_NONE \<or> us2 b \<noteq> MAP_NONE) \<and> us0 b \<noteq> MAP_NONE
             then s\<lparr>mem := mem_set32 (copy_if (us0 b) (us2 b) (copy_if (us0 b) (us1 b) (mem s))) pa
                       (map_frame_w pte_v (us0 b))\<rparr>
             else s))"
  using assms
  by (auto simp: reset_rollback_def pmb_clr_def clear_run_flags_def upd_pmb_def cpy_or_panic_ok set32_or_panic_ok
      no_faults_def copy_if_def Let_def)


lemma clear_run_flags_free [simp]:
  "has (pmb_flags (clear_run_flags b)) PRAM_SLOT_FREE = has (pmb_flags b) PRAM_SLOT_FREE"
  by (simp add: clear_run_flags_def has_clrf_other)

lemma upd_flags_eq:
  assumes "(f (working_set s a))\<lparr>pmb_flags := fl\<rparr> = (working_set s a)\<lparr>pmb_flags := fl\<rparr>"
    "pmb_flags (f (working_set s a)) = fl"
  shows "upd_pmb a f s = upd_pmb a (\<lambda>b. b\<lparr>pmb_flags := fl\<rparr>) s"
proof -
  have "f (working_set s a) = (f (working_set s a))\<lparr>pmb_flags := fl\<rparr>" using assms(2) by simp
  also have "\<dots> = (working_set s a)\<lparr>pmb_flags := fl\<rparr>" by (rule assms(1))
  finally have "f (working_set s a) = (working_set s a)\<lparr>pmb_flags := fl\<rparr>" .
  then show ?thesis by (simp add: upd_pmb_def)
qed

text \<open>A write to the entry of a page does not change its frames.\<close>

lemma entry_write_frames:
  assumes "layout root as s" "a \<in> set as" "f \<in> {us0 (working_set s a), us1 (working_set s a), us2 (working_set s a)}"
  shows "frame_at (mem_set32 m (entry_addr (pt_of root s (pmb_vaddr (working_set s a)))
            (I386_VM_PTE (pmb_vaddr (working_set s a)))) v) f = frame_at m f"
proof (rule set32_frame_at)
  assume "f \<noteq> MAP_NONE"
  then show "page_aligned f \<and> f \<noteq> pt_of root s (pmb_vaddr (working_set s a))"
    using assms(3) block_frames [OF layout_block(1) [OF assms(1,2)]] layout_block(3) [OF assms(1,2)] by auto
qed (simp_all add: PTE_less)

lemma entry_write_conf:
  "mem_conf W (pt_of root s v) (I386_VM_PTE w) m (mem_set32 m (entry_addr (pt_of root s v) (I386_VM_PTE w)) x)"
  by (intro mem_conf_set32) (simp_all add: PTE_less)

lemma rollback_mem:
  fixes root :: u32 and s :: kstate and a :: nat and v :: u32
  assumes l: "layout root as s" and a: "a \<in> set as" and z: "us0 (working_set s a) \<noteq> MAP_NONE"
  defines "b \<equiv> working_set s a"
  defines "g \<equiv> pt_of root s (pmb_vaddr b)" and "j \<equiv> I386_VM_PTE (pmb_vaddr b)"
  defines "m \<equiv> mem_set32 (copy_if (us0 b) (us2 b) (copy_if (us0 b) (us1 b) (mem s))) (entry_addr g j) v"
  shows "mem_conf (frames_of b) g j (mem s) m"
    and "frame_at m (us0 b) = frame_at (mem s) (us0 b)"
    and "frame_at m (us1 b) = map_option (\<lambda>_. the (frame_at (mem s) (us0 b))) (frame_at (mem s) (us1 b))"
    and "frame_at m (us2 b) = map_option (\<lambda>_. the (frame_at (mem s) (us0 b))) (frame_at (mem s) (us2 b))"
proof -
  let ?m1 = "copy_if (us0 b) (us1 b) (mem s)" let ?m2 = "copy_if (us0 b) (us2 b) ?m1"
  note bo = layout_block [OF l a, folded b_def]
  note fr = block_frames [OF bo(1)]
  have ne: "us1 b \<noteq> MAP_NONE \<Longrightarrow> us1 b \<noteq> us0 b" "us2 b \<noteq> MAP_NONE \<Longrightarrow> us2 b \<noteq> us0 b \<and> us2 b \<noteq> us1 b"
    using bo(1) by (auto simp: block_ok_def)
  have "mem_conf (frames_of b) g j (mem s) ?m1" "mem_conf (frames_of b) g j ?m1 ?m2"
    using fr bo(3) by (auto intro!: copy_if_conf simp: g_def)
  moreover have "mem_conf (frames_of b) g j ?m2 m" unfolding m_def g_def j_def by (rule entry_write_conf)
  ultimately show "mem_conf (frames_of b) g j (mem s) m" using mem_conf_trans by blast
  have w: "frame_at m f = frame_at ?m2 f" if "f \<in> {us0 b, us1 b, us2 b}" for f
    unfolding m_def g_def j_def b_def using entry_write_frames [OF l a] that by (simp add: b_def)
  have 1: "frame_at ?m1 (us0 b) = frame_at (mem s) (us0 b)" "frame_at ?m1 (us2 b) = frame_at (mem s) (us2 b)"
    "frame_at ?m2 (us0 b) = frame_at ?m1 (us0 b)" "frame_at ?m2 (us1 b) = frame_at ?m1 (us1 b)"
    using fr ne by (auto intro!: copy_if_other)
  have 2: "frame_at ?m1 (us1 b) = map_option (\<lambda>_. the (frame_at (mem s) (us0 b))) (frame_at (mem s) (us1 b))"
    "frame_at ?m2 (us2 b) = map_option (\<lambda>_. the (frame_at ?m1 (us0 b))) (frame_at ?m1 (us2 b))"
    using fr z by (auto intro!: copy_if_dst simp: b_def)
  show "frame_at m (us0 b) = frame_at (mem s) (us0 b)" using w 1 by simp
  show "frame_at m (us1 b) = map_option (\<lambda>_. the (frame_at (mem s) (us0 b))) (frame_at (mem s) (us1 b))"
    using w 1 2 by simp
  show "frame_at m (us2 b) = map_option (\<lambda>_. the (frame_at (mem s) (us0 b))) (frame_at (mem s) (us2 b))"
    using w 1 2 by simp
qed

lemma rollback_step:
  assumes w: "page_world p root as s" and a: "a \<in> set as"
  shows "\<exists>t. reset_rollback a (entry_addr (pt_of root s (pmb_vaddr (working_set s a))) (I386_VM_PTE (pmb_vaddr (working_set s a))))
      (pte_of root s (pmb_vaddr (working_set s a))) s = Inr t \<and> only_page root a s t \<and>
      view root t a = rollback_view (view root s a)"
proof -
  let ?b = "working_set s a" let ?v = "pmb_vaddr ?b" let ?g = "pt_of root s ?v" let ?j = "I386_VM_PTE ?v"
  let ?fl = "pmb_flags (clear_run_flags ?b)"
  have nf: "no_faults s" and l: "layout root as s" using w by (auto simp: page_world_def)
  have fl: "has ?fl PRAM_SLOT_FREE = pmb_free s a" by (simp add: pmb_free_def)
  have up: "upd_pmb a clear_run_flags s = upd_pmb a (\<lambda>b. b\<lparr>pmb_flags := ?fl\<rparr>) s"
    by (rule upd_flags_eq) (simp_all add: clear_run_flags_def)
  show ?thesis
  proof (cases "(us1 ?b \<noteq> MAP_NONE \<or> us2 ?b \<noteq> MAP_NONE) \<and> us0 ?b \<noteq> MAP_NONE")
    case True
    let ?m = "mem_set32 (copy_if (us0 ?b) (us2 ?b) (copy_if (us0 ?b) (us1 ?b) (mem s))) (entry_addr ?g ?j)
       (map_frame_w (pte_of root s ?v) (us0 ?b))"
    let ?t = "(upd_pmb a (\<lambda>b. b\<lparr>pmb_flags := ?fl\<rparr>) s)\<lparr>mem := ?m\<rparr>"
    note rm = rollback_mem [OF l a, of "map_frame_w (pte_of root s ?v) (us0 ?b)"]
    have c: "mem_conf (frames_of ?b) ?g ?j (mem s) ?m" using rm(1) True by blast
    have "reset_rollback a (entry_addr ?g ?j) (pte_of root s ?v) s = Inr ?t"
      using True by (simp add: reset_rollback_eq [OF nf] up Let_def)
    moreover have "view root ?t a = rollback_view (view root s a)"
      using True rm(2-4) unfolding view_upd [OF l a c fl] Let_def
      by (auto simp: rollback_view_def view_def clear_run_flags_def Let_def)
    ultimately show ?thesis using only_pageI [OF c fl] by blast
  next
    case False
    let ?t = "(upd_pmb a (\<lambda>b. b\<lparr>pmb_flags := ?fl\<rparr>) s)\<lparr>mem := mem s\<rparr>"
    have c: "mem_conf (frames_of ?b) ?g ?j (mem s) (mem s)" by simp
    have "reset_rollback a (entry_addr ?g ?j) (pte_of root s ?v) s = Inr ?t"
      using False unfolding reset_rollback_eq [OF nf] up Let_def upd_pmb_mem by auto
    moreover have "view root ?t a = rollback_view (view root s a)"
      using False unfolding view_upd [OF l a c fl] Let_def
      by (auto simp: rollback_view_def view_def clear_run_flags_def pte_of_def Let_def)
    ultimately show ?thesis using only_pageI [OF c fl] by blast
  qed
qed

interpretation failed: page_step "\<lambda>p root. vm_reset_pram_body p root CMP_FAILED" rollback_view
  "\<lambda>_ s. h_step s = SECOND_RUN" "\<lambda>_. True"
proof
  fix p root as s a
  assume w: "page_world p root as s" and a: "a \<in> set as" and h: "h_step s = SECOND_RUN"
  have nf: "no_faults s" using w by (simp add: page_world_def)
  show "\<exists>t. vm_reset_pram_body p root CMP_FAILED a s = Inr t \<and> only_page root a s t \<and>
      view root t a = rollback_view (view root s a)"
    using rollback_step [OF w a] h by (simp add: vm_reset_pram_body_def read_pte_ok [OF nf])
qed (simp add: only_page_sel)

interpretation abort: page_step "\<lambda>p root. vm_reset_pram_body p root ABORT_PE" rollback_view
  "\<lambda>_ _. True" "\<lambda>_. True"
proof
  fix p root as s a
  assume w: "page_world p root as s" and a: "a \<in> set as"
  have nf: "no_faults s" using w by (simp add: page_world_def)
  show "\<exists>t. vm_reset_pram_body p root ABORT_PE a s = Inr t \<and> only_page root a s t \<and>
      view root t a = rollback_view (view root s a)"
    using rollback_step [OF w a] by (simp add: vm_reset_pram_body_def read_pte_ok [OF nf])
qed simp

section \<open>The other ends of a run\<close>

text \<open>
  A page was touched in a run when it took a write fault or its entry is dirty. The
  three remaining cases of \<open>vm_reset_pram\<close> as functions of the view.
\<close>

definition touched :: "page_view \<Rightarrow> bool" where
  "touched v \<longleftrightarrow> has (pmb_flags (pv_b v)) HGET_PF \<or> has (pv_pte v) I386_VM_DIRTY"

definition mark_kernel :: "u32 \<Rightarrow> page_view \<Rightarrow> u32" where
  "mark_kernel pf v =
     (if has (pmb_flags (pv_b v)) IWS_MOD_KERNEL \<and> has (pv_pte v) I386_VM_DIRTY
      then setf (pmb_flags (pv_b v)) pf else pmb_flags (pv_b v))"

definition first_view :: "page_view \<Rightarrow> page_view" where
  "first_view v =
     (if pv_1 v \<noteq> None \<and> pv_0 v \<noteq> None \<and> touched v
      then v\<lparr>pv_b := (pv_b v)\<lparr>pmb_flags := setf (clrf (mark_kernel IWS_PF_FIRST v) HGET_PF) FWS\<rparr>,
             pv_pte := clrf (pv_pte v) I386_VM_DIRTY\<rparr>
      else v)"

definition commit_view :: "page_view \<Rightarrow> page_view" where
  "commit_view v =
     (if pv_2 v \<noteq> None \<and> pv_0 v \<noteq> None \<and> touched v
      then v\<lparr>pv_b := (pv_b v)\<lparr>pmb_flags := clrf (clrf (mark_kernel IWS_PF_SECOND v) HGET_PF) IWS_MOD_KERNEL\<rparr>,
             pv_0 := pv_2 v, pv_pte := map_frame_w (clrf (pv_pte v) I386_VM_DIRTY) (us0 (pv_b v))\<rparr>
      else v\<lparr>pv_b := (pv_b v)\<lparr>pmb_flags := clrf (pmb_flags (pv_b v)) IWS_MOD_KERNEL\<rparr>,
             pv_pte := map_frame_w (pv_pte v) (us0 (pv_b v))\<rparr>)"

definition stepping_view :: "page_view \<Rightarrow> page_view" where
  "stepping_view v =
     (if pv_1 v \<noteq> None
      then v\<lparr>pv_pte := (if has (pmb_flags (pv_b v)) IWS_PF_FIRST then map_frame_w (pv_pte v) (us1 (pv_b v))
                        else map_frame (pv_pte v) (us1 (pv_b v)))\<rparr>
      else v)"

text \<open>Flags and entry rewritten, frames kept: the common form of the three cases.\<close>

lemma entry_step:
  fixes root x fl :: u32 and s :: kstate and a :: nat
  assumes l: "layout root as s" and a: "a \<in> set as" and fl: "has fl PRAM_SLOT_FREE = pmb_free s a"
  defines "b \<equiv> working_set s a"
  defines "t \<equiv> (upd_pmb a (\<lambda>b. b\<lparr>pmb_flags := fl\<rparr>) s)\<lparr>mem := mem_set32 (mem s)
     (entry_addr (pt_of root s (pmb_vaddr b)) (I386_VM_PTE (pmb_vaddr b))) x\<rparr>"
  shows "only_page root a s t" "view root t a = (view root s a)\<lparr>pv_b := b\<lparr>pmb_flags := fl\<rparr>, pv_pte := x\<rparr>"
proof -
  let ?m = "mem_set32 (mem s) (entry_addr (pt_of root s (pmb_vaddr b)) (I386_VM_PTE (pmb_vaddr b))) x"
  have c: "mem_conf (frames_of b) (pt_of root s (pmb_vaddr b)) (I386_VM_PTE (pmb_vaddr b)) (mem s) ?m"
    by (rule entry_write_conf)
  show "only_page root a s t" using only_pageI [OF c [unfolded b_def] fl] by (simp add: t_def b_def)
  have "frame_at ?m f = frame_at (mem s) f" if "f \<in> {us0 b, us1 b, us2 b}" for f
    using entry_write_frames [OF l a] that by (simp add: b_def)
  then show "view root t a = (view root s a)\<lparr>pv_b := b\<lparr>pmb_flags := fl\<rparr>, pv_pte := x\<rparr>"
    using view_upd [OF l a c [unfolded b_def] fl] by (simp add: t_def b_def Let_def view_def)
qed

lemma flags_only_step:
  assumes l: "layout root as s" and a: "a \<in> set as" and fl: "has fl PRAM_SLOT_FREE = pmb_free s a"
  shows "only_page root a s (upd_pmb a (\<lambda>b. b\<lparr>pmb_flags := fl\<rparr>) s)"
    "view root (upd_pmb a (\<lambda>b. b\<lparr>pmb_flags := fl\<rparr>) s) a = (view root s a)\<lparr>pv_b := (working_set s a)\<lparr>pmb_flags := fl\<rparr>\<rparr>"
  using only_pageI [OF mem_conf_refl fl] view_upd [OF l a mem_conf_refl fl]
  by (simp_all add: view_def Let_def pte_of_def upd_pmb_def)

lemma mark_kernel_free:
  "k AND PRAM_SLOT_FREE = 0 \<Longrightarrow> has (mark_kernel k v) PRAM_SLOT_FREE = has (pmb_flags (pv_b v)) PRAM_SLOT_FREE"
  by (simp add: mark_kernel_def has_setf_other)

interpretation first: page_step "\<lambda>p root. vm_reset_pram_body p root CPY_RAM_FIRST" first_view
  "\<lambda>_ s. h_step s = FIRST_RUN" "\<lambda>_. True"
proof
  fix p root as s a
  assume w: "page_world p root as s" and a: "a \<in> set as" and h: "h_step s = FIRST_RUN"
  have nf: "no_faults s" and l: "layout root as s" using w by (auto simp: page_world_def)
  let ?b = "working_set s a" let ?v = "pmb_vaddr ?b" let ?V = "view root s a"
  show "\<exists>t. vm_reset_pram_body p root CPY_RAM_FIRST a s = Inr t \<and> only_page root a s t \<and> view root t a = first_view ?V"
  proof (cases "pv_1 ?V \<noteq> None \<and> pv_0 ?V \<noteq> None \<and> touched ?V")
    case True
    let ?fl = "setf (clrf (mark_kernel IWS_PF_FIRST ?V) HGET_PF) FWS"
    have fl: "has ?fl PRAM_SLOT_FREE = pmb_free s a"
      by (simp add: has_setf_other has_clrf_other mark_kernel_free pmb_free_def view_def Let_def)
    have "vm_reset_pram_body p root CPY_RAM_FIRST a s = Inr ((upd_pmb a (\<lambda>b. b\<lparr>pmb_flags := ?fl\<rparr>) s)\<lparr>mem := mem_set32 (mem s)
        (entry_addr (pt_of root s ?v) (I386_VM_PTE ?v)) (clrf (pte_of root s ?v) I386_VM_DIRTY)\<rparr>)"
      using True nf h
      by (auto simp: vm_reset_pram_body_def read_pte_ok reset_first_def set32_or_panic_ok no_faults_def view_def
          touched_def mark_kernel_def pmb_is_def pmb_set_def pmb_clr_def upd_pmb_def Let_def)
    with entry_step [OF l a fl, of "clrf (pte_of root s ?v) I386_VM_DIRTY"] True show ?thesis
      by (simp add: first_view_def view_def Let_def)
  next
    case False
    then have "vm_reset_pram_body p root CPY_RAM_FIRST a s = Inr s"
      using nf h by (auto simp: vm_reset_pram_body_def read_pte_ok reset_first_def view_def touched_def pmb_is_def Let_def)
    with False show ?thesis by (auto simp: first_view_def only_page_def)
  qed
qed (simp add: only_page_sel)

interpretation stepping: page_step "\<lambda>p root. vm_reset_pram_body p root CPY_RAM_FIRST_STEPPING" stepping_view
  "\<lambda>_ s. h_step s = SECOND_RUN" "\<lambda>_. True"
proof
  fix p root as s a
  assume w: "page_world p root as s" and a: "a \<in> set as" and h: "h_step s = SECOND_RUN"
  have nf: "no_faults s" and l: "layout root as s" using w by (auto simp: page_world_def)
  let ?b = "working_set s a" let ?v = "pmb_vaddr ?b"
  let ?x = "if has (pmb_flags ?b) IWS_PF_FIRST then map_frame_w (pte_of root s ?v) (us1 ?b) else map_frame (pte_of root s ?v) (us1 ?b)"
  have fl: "has (pmb_flags ?b) PRAM_SLOT_FREE = pmb_free s a" by (simp add: pmb_free_def)
  have id: "upd_pmb a (\<lambda>b. b\<lparr>pmb_flags := pmb_flags ?b\<rparr>) s = s" by (simp add: upd_pmb_def)
  have "vm_reset_pram_body p root CPY_RAM_FIRST_STEPPING a s = Inr (if us1 ?b \<noteq> MAP_NONE then s\<lparr>mem := mem_set32 (mem s)
      (entry_addr (pt_of root s ?v) (I386_VM_PTE ?v)) ?x\<rparr> else s)"
    using nf h by (simp add: vm_reset_pram_body_def read_pte_ok reset_stepping_def set32_or_panic_ok no_faults_def pmb_is_def Let_def)
  with entry_step [OF l a fl, of ?x] id
  show "\<exists>t. vm_reset_pram_body p root CPY_RAM_FIRST_STEPPING a s = Inr t \<and> only_page root a s t \<and>
      view root t a = stepping_view (view root s a)"
    by (auto simp: stepping_view_def view_def Let_def only_page_def)
qed (simp add: only_page_sel)

lemma commit_mem:
  fixes root :: u32 and s :: kstate and a :: nat and v :: u32
  assumes l: "layout root as s" and a: "a \<in> set as"
    and z: "us0 (working_set s a) \<noteq> MAP_NONE" "us2 (working_set s a) \<noteq> MAP_NONE"
  defines "b \<equiv> working_set s a"
  defines "g \<equiv> pt_of root s (pmb_vaddr b)" and "j \<equiv> I386_VM_PTE (pmb_vaddr b)"
  defines "m \<equiv> mem_set32 (mem_copy (mem s) (us2 b) (us0 b) 4096) (entry_addr g j) v"
  shows "mem_conf (frames_of b) g j (mem s) m"
    and "frame_at m (us0 b) = frame_at (mem s) (us2 b)"
    and "frame_at m (us1 b) = frame_at (mem s) (us1 b)"
    and "frame_at m (us2 b) = frame_at (mem s) (us2 b)"
proof -
  let ?m1 = "mem_copy (mem s) (us2 b) (us0 b) 4096"
  note bo = layout_block [OF l a, folded b_def]
  note fr = block_frames [OF bo(1)]
  have ne: "us1 b \<noteq> MAP_NONE \<Longrightarrow> us1 b \<noteq> us0 b" "us2 b \<noteq> us0 b"
    using bo(1) z by (auto simp: block_ok_def b_def)
  have "mem_conf (frames_of b) g j (mem s) ?m1"
    using fr z bo(3) by (intro mem_conf_copy) (auto simp: b_def g_def)
  moreover have "mem_conf (frames_of b) g j ?m1 m" unfolding m_def g_def j_def by (rule entry_write_conf)
  ultimately show "mem_conf (frames_of b) g j (mem s) m" by (rule mem_conf_trans)
  have w: "frame_at m f = frame_at ?m1 f" if "f \<in> {us0 b, us1 b, us2 b}" for f
    unfolding m_def g_def j_def b_def using entry_write_frames [OF l a] that by (simp add: b_def)
  have o: "frame_at ?m1 f = frame_at (mem s) f" if "f \<in> {us1 b, us2 b}" for f
    using that fr z ne copy_other by (auto simp: frame_at_def frame_same b_def)
  have "frame_at m (us0 b) = frame_at ?m1 (us0 b)" using w by simp
  also have "\<dots> = frame_at (mem s) (us2 b)"
    using fr z copy_same by (simp add: frame_at_def frame_same b_def)
  finally show "frame_at m (us0 b) = frame_at (mem s) (us2 b)" .
  show "frame_at m (us1 b) = frame_at (mem s) (us1 b)" "frame_at m (us2 b) = frame_at (mem s) (us2 b)"
    using w o by auto
qed

text \<open>A page that is not shared: the notification of other processes does not run.\<close>

definition not_shared :: "page_view \<Rightarrow> bool" where
  "not_shared v \<longleftrightarrow> \<not> has (pmb_flags (pv_b v)) WS_SHARED"

lemma mark_kernel_shared:
  "k AND WS_SHARED = 0 \<Longrightarrow> has (mark_kernel k v) WS_SHARED = has (pmb_flags (pv_b v)) WS_SHARED"
  by (simp add: mark_kernel_def has_setf_other)

lemma clrf_idem: "\<not> has x m \<Longrightarrow> clrf x m = x"
  by (simp add: has_def clrf_def and_not_disjoint)

lemma commit_untouched:
  assumes nf: "no_faults s" and h: "h_step s = SECOND_RUN"
    and V: "\<not> (pv_2 (view root s a) \<noteq> None \<and> pv_0 (view root s a) \<noteq> None \<and> touched (view root s a))"
  defines "b \<equiv> working_set s a"
  shows "vm_reset_pram_body p root CPY_RAM_PRAM a s =
    Inr ((upd_pmb a (\<lambda>b. b\<lparr>pmb_flags := clrf (pmb_flags (working_set s a)) IWS_MOD_KERNEL\<rparr>) s)\<lparr>mem := mem_set32 (mem s)
      (entry_addr (pt_of root s (pmb_vaddr b)) (I386_VM_PTE (pmb_vaddr b)))
      (map_frame_w (pte_of root s (pmb_vaddr b)) (us0 b))\<rparr>)"
proof -
  have "commit_frame p a (pte_of root s (pmb_vaddr b)) s = Inr (pte_of root s (pmb_vaddr b), s)"
    using V by (auto simp: commit_frame_def view_def touched_def pmb_is_def Let_def b_def)
  then show ?thesis using nf h
    by (auto simp: vm_reset_pram_body_def read_pte_ok reset_commit_def set32_or_panic_ok no_faults_def pmb_is_def
        pmb_clr_def upd_pmb_def b_def clrf_idem)
qed

lemma commit_touched:
  assumes nf: "no_faults s" and h: "h_step s = SECOND_RUN" and ns: "not_shared (view root s a)"
    and V: "pv_2 (view root s a) \<noteq> None" "pv_0 (view root s a) \<noteq> None" "touched (view root s a)"
  defines "b \<equiv> working_set s a"
  shows "vm_reset_pram_body p root CPY_RAM_PRAM a s =
    Inr ((upd_pmb a (\<lambda>b. b\<lparr>pmb_flags := clrf (clrf (mark_kernel IWS_PF_SECOND (view root s a)) HGET_PF) IWS_MOD_KERNEL\<rparr>) s)
      \<lparr>mem := mem_set32 (mem_copy (mem s) (us2 b) (us0 b) 4096)
      (entry_addr (pt_of root s (pmb_vaddr b)) (I386_VM_PTE (pmb_vaddr b)))
      (map_frame_w (clrf (pte_of root s (pmb_vaddr b)) I386_VM_DIRTY) (us0 b))\<rparr>)"
proof -
  let ?pte = "pte_of root s (pmb_vaddr b)"
  let ?fl = "clrf (mark_kernel IWS_PF_SECOND (view root s a)) HGET_PF"
  have sh: "\<not> has (mark_kernel IWS_PF_SECOND (view root s a)) WS_SHARED"
    using ns by (simp add: mark_kernel_shared not_shared_def)
  have "commit_frame p a ?pte s = Inr (clrf ?pte I386_VM_DIRTY,
      (upd_pmb a (\<lambda>b. b\<lparr>pmb_flags := ?fl\<rparr>) s)\<lparr>mem := mem_copy (mem s) (us2 b) (us0 b) 4096\<rparr>)"
    using V nf sh
    by (auto simp: commit_frame_def view_def touched_def mark_kernel_def pmb_is_def pmb_set_def pmb_clr_def upd_pmb_def
        cpy_or_panic_ok no_faults_def Let_def b_def)
  then show ?thesis using nf h
    by (auto simp: vm_reset_pram_body_def read_pte_ok reset_commit_def set32_or_panic_ok no_faults_def pmb_is_def
        pmb_clr_def upd_pmb_def b_def clrf_idem)
qed

interpretation commit: page_step "\<lambda>p root. vm_reset_pram_body p root CPY_RAM_PRAM" commit_view
  "\<lambda>_ s. h_step s = SECOND_RUN" not_shared
proof
  fix p root as s a
  assume w: "page_world p root as s" and a: "a \<in> set as" and h: "h_step s = SECOND_RUN" and ns: "not_shared (view root s a)"
  have nf: "no_faults s" and l: "layout root as s" using w by (auto simp: page_world_def)
  let ?b = "working_set s a" let ?V = "view root s a" let ?v = "pmb_vaddr ?b"
  show "\<exists>t. vm_reset_pram_body p root CPY_RAM_PRAM a s = Inr t \<and> only_page root a s t \<and> view root t a = commit_view ?V"
  proof (cases "pv_2 ?V \<noteq> None \<and> pv_0 ?V \<noteq> None \<and> touched ?V")
    case True
    let ?fl = "clrf (clrf (mark_kernel IWS_PF_SECOND ?V) HGET_PF) IWS_MOD_KERNEL"
    let ?x = "map_frame_w (clrf (pte_of root s ?v) I386_VM_DIRTY) (us0 ?b)"
    have fl: "has ?fl PRAM_SLOT_FREE = pmb_free s a"
      by (simp add: has_clrf_other mark_kernel_free pmb_free_def view_def Let_def)
    have fr: "us0 ?b \<noteq> MAP_NONE" "us2 ?b \<noteq> MAP_NONE" using True by (auto simp: view_def Let_def)
    note cm = commit_mem [OF l a fr, of ?x]
    have eq: "vm_reset_pram_body p root CPY_RAM_PRAM a s = Inr ((upd_pmb a (\<lambda>b. b\<lparr>pmb_flags := ?fl\<rparr>) s)
        \<lparr>mem := mem_set32 (mem_copy (mem s) (us2 ?b) (us0 ?b) 4096) (entry_addr (pt_of root s ?v) (I386_VM_PTE ?v)) ?x\<rparr>)"
      using commit_touched [OF nf h ns] True by blast
    from only_pageI [OF cm(1) fl] view_upd [OF l a cm(1) fl] cm(2-4) True eq show ?thesis
      by (simp add: commit_view_def Let_def) (simp add: view_def Let_def)
  next
    case False
    have fl: "has (clrf (pmb_flags ?b) IWS_MOD_KERNEL) PRAM_SLOT_FREE = pmb_free s a"
      by (simp add: has_clrf_other pmb_free_def)
    from entry_step [OF l a fl, of "map_frame_w (pte_of root s ?v) (us0 ?b)"] commit_untouched [OF nf h False, of p] False
    show ?thesis by (auto simp: commit_view_def view_def Let_def)
  qed
qed (simp add: only_page_sel)

section \<open>The whole routine\<close>

text \<open>Views and well-formedness depend on memory, the blocks and the list of the process only.\<close>

lemma view_cong: "mem t = mem s \<Longrightarrow> working_set t = working_set s \<Longrightarrow> view root t a = view root s a"
  by (simp add: view_def pte_of_def pt_of_def pde_of_def)

lemma page_world_cong:
  assumes "mem t = mem s" "working_set t = working_set s" "rd_fault t = rd_fault s" "wr_fault t = wr_fault s"
    "p_lus1_us2 (procs t p) = p_lus1_us2 (procs s p)" "p_lus1_us2_size (procs t p) = p_lus1_us2_size (procs s p)"
  shows "page_world p root as t = page_world p root as s"
proof -
  have "pmb_nx t = pmb_nx s" "pmb_free t = pmb_free s" "pmb_page t = pmb_page s" "pt_of root t = pt_of root s"
    by (rule ext, simp add: pmb_nx_def pmb_free_def pmb_page_def pt_of_def pde_of_def assms(1,2))+
  then show ?thesis
    using assms by (simp add: page_world_def ws_list_def layout_def block_ok_def no_faults_def)
qed

context page_step
begin

text \<open>
  \<open>vm_reset_pram\<close> with a case whose body satisfies the interface: it returns, every
  page is transformed by \<open>F\<close>, and outside memory, blocks, the cycle account of the
  process and the counter position nothing changes.
\<close>

lemma reset_pram:
  assumes w: "page_world p root as s" and ok: "\<And>n. ok p (s\<lparr>tsc_n := n\<rparr>)"
    and pre: "\<And>a. a \<in> set as \<Longrightarrow> pre (view root s a)"
    and nvm: "p_nr (procs s p) \<noteq> VM_PROC_NR"
    and body: "\<And>a. body p root a = vm_reset_pram_body p root endcmp a"
  shows "\<exists>t u acc. vm_reset_pram p root endcmp s = Inr t \<and> only_pages root as s u \<and>
      t = (upd_proc p (\<lambda>q. q\<lparr>p_reset_pram_acc := acc\<rparr>) u)\<lparr>tsc_n := tsc_n t\<rparr> \<and>
      page_world p root as t \<and> (\<forall>a \<in> set as. view root t a = F (view root s a))"
proof -
  let ?s = "s\<lparr>tsc_n := Suc (tsc_n s)\<rparr>"
  have w': "page_world p root as ?s" using w by (subst page_world_cong [of _ s]) auto
  have v': "view root ?s a = view root s a" for a by (rule view_cong) auto
  obtain u where u: "for_chain pmb_nx (\<lambda>a s. bnd (body p root a s) (\<lambda>s. Inr (None :: unit option, s)))
      (p_lus1_us2 (procs ?s p)) ?s = Inr (None, u)" "page_world p root as u" "only_pages root as ?s u"
      "\<forall>a \<in> set as. view root u a = F (view root s a)"
    using loop [OF w' ok] pre v' by metis
  show ?thesis
  proof (cases "as = []")
    case True
    have "p_lus1_us2_size (procs s p) \<le> 0" using w True by (auto simp: page_world_def ws_list_def)
    then have "vm_reset_pram p root endcmp s = Inr ?s"
      using nvm by (simp add: vm_reset_pram_def read_tsc_64_def)
    moreover have "?s = (upd_proc p (\<lambda>q. q\<lparr>p_reset_pram_acc := p_reset_pram_acc (procs s p)\<rparr>) s)\<lparr>tsc_n := tsc_n ?s\<rparr>"
      by (simp add: upd_proc_def)
    ultimately show ?thesis using w' True only_pages_refl by (metis empty_iff empty_set)
  next
    case False
    then have sz: "\<not> p_lus1_us2_size (procs s p) \<le> 0" using w by (auto simp: page_world_def ws_list_def)
    let ?u = "u\<lparr>tsc_n := tsc_n s\<rparr>"
    let ?acc = "acc_add (tsc s (tsc_n s)) (tsc u (tsc_n u)) (u\<lparr>tsc_n := Suc (tsc_n u)\<rparr>) (p_reset_pram_acc (procs u p))"
    let ?t = "upd_proc p (\<lambda>q. q\<lparr>p_reset_pram_acc := ?acc\<rparr>) (u\<lparr>tsc_n := Suc (tsc_n u)\<rparr>)"
    have "vm_reset_pram p root endcmp s = Inr ?t"
      using u(1) nvm sz by (simp add: vm_reset_pram_def read_tsc_64_def body) (simp add: upd_proc_def)
    moreover have "only_pages root as s ?u"
    proof -
      have "u\<lparr>mem := mem s, working_set := working_set s\<rparr> = ?s" using u(3) by (simp add: only_pages_def)
      from arg_cong [OF this, of "\<lambda>x. x\<lparr>tsc_n := tsc_n s\<rparr>"]
      have "?u\<lparr>mem := mem s, working_set := working_set s\<rparr> = s" by (cases u; cases s; simp)
      then show ?thesis using u(3) by (simp add: only_pages_def pt_of_def pde_of_def)
    qed
    moreover have "?t = (upd_proc p (\<lambda>q. q\<lparr>p_reset_pram_acc := ?acc\<rparr>) ?u)\<lparr>tsc_n := tsc_n ?t\<rparr>"
      by (simp add: upd_proc_def)
    moreover have "page_world p root as ?t" using u(2) by (subst page_world_cong [of _ u]) (auto simp: upd_proc_def)
    moreover have "view root ?t a = view root u a" for a by (rule view_cong) (auto simp: upd_proc_def)
    ultimately show ?thesis using u(4) by metis
  qed
qed

end

end
