(* ===== verification/Run_Start.thy ===== *)
theory Run_Start
  imports Page_Views
begin

text \<open>
  The start of a run refined to views (\<open>set_pe_mem_to_ro\<close>), what the entries written
  for a run allow, and the properties of the page layer: fault containment, commit,
  isolation of a run from the committed frames, and the page fault check.
\<close>

section \<open>The start of a run on views\<close>

definition start_updates :: "page_view \<Rightarrow> bool" where
  "start_updates v \<longleftrightarrow> has (pmb_flags (pv_b v)) H_TO_UPDATE \<and> pv_1 v \<noteq> None \<and> pv_2 v \<noteq> None"

text \<open>
  A page the process may write is mapped to the frame of the run. A page of a region
  announced since the last run first gets both copies refreshed from \<open>us0\<close>.
\<close>

definition start_view :: "int \<Rightarrow> page_view \<Rightarrow> page_view" where
  "start_view step v =
     (if check_pt_entry (pv_pde v) \<noteq> OK \<or> check_pt_entry (pv_pte v) \<noteq> OK then v
      else
        let w = (if start_updates v
                 then v\<lparr>pv_1 := pv_0 v, pv_2 := pv_0 v, pv_pte := clrf (pv_pte v) I386_VM_DIRTY,
                        pv_b := (pv_b v)\<lparr>pmb_flags := clrf (pmb_flags (pv_b v)) H_TO_UPDATE\<rparr>\<rparr>
                 else v)
        in w\<lparr>pv_pte := final_pte (pv_b w) (run_pte step (pv_b w) (pv_pte w))\<rparr>)"

text \<open>The pages for which the start of a run neither frees the block nor reads an unmapped frame.\<close>

definition start_pre :: "page_view \<Rightarrow> bool" where
  "start_pre v \<longleftrightarrow> pv_0 v \<noteq> None \<and> I386_VM_PFA (pv_pte v) \<noteq> 0"

lemma label_shared_skip: "\<not> has (p_hflags (procs s p)) PROC_SHARING_MEM \<Longrightarrow> label_shared p a s = Inr s"
  by (simp add: label_shared_def)

lemma run_pte_flags:
  "run_pte h (b\<lparr>pmb_flags := clrf fl H_TO_UPDATE\<rparr>) v = run_pte h (b\<lparr>pmb_flags := fl\<rparr>) v"
  by (simp add: run_pte_def has_clrf_other Let_def)

lemma upd_pmb_mem_swap: "upd_pmb a f (s\<lparr>mem := m\<rparr>) = (upd_pmb a f s)\<lparr>mem := m\<rparr>"
  by (cases s) (simp add: upd_pmb_def)

lemma start_body_eq:
  fixes root :: u32
  assumes nf: "no_faults s" and sh: "\<not> has (p_hflags (procs s p)) PROC_SHARING_MEM"
    and pre: "I386_VM_PFA (pte_of root s (pmb_vaddr (working_set s a))) \<noteq> 0"
    and ok: "check_pt_entry (pde_of root s (pmb_vaddr (working_set s a))) = OK"
      "check_pt_entry (pte_of root s (pmb_vaddr (working_set s a))) = OK"
  defines "b \<equiv> working_set s a" and "v \<equiv> pmb_vaddr (working_set s a)"
  defines "c \<equiv> start_updates (view root s a)"
  defines "fl \<equiv> if c then clrf (pmb_flags (working_set s a)) H_TO_UPDATE else pmb_flags (working_set s a)"
  defines "m \<equiv> if c then copy_if (us0 b) (us2 b) (copy_if (us0 b) (us1 b) (mem s)) else mem s"
  defines "x \<equiv> if c then clrf (pte_of root s v) I386_VM_DIRTY else pte_of root s v"
  shows "set_pe_mem_to_ro_body p root a s =
    Inr ((upd_pmb a (\<lambda>b. b\<lparr>pmb_flags := fl\<rparr>) s)\<lparr>mem := mem_set32 m (entry_addr (pt_of root s v) (I386_VM_PTE v))
      (final_pte (b\<lparr>pmb_flags := fl\<rparr>) (run_pte (h_step s) (b\<lparr>pmb_flags := fl\<rparr>) x))\<rparr>)"
proof -
  let ?t = "(upd_pmb a (\<lambda>b. b\<lparr>pmb_flags := fl\<rparr>) s)\<lparr>mem := m\<rparr>"
  have c: "c \<longleftrightarrow> pmb_is a H_TO_UPDATE s \<and> us1 b \<noteq> MAP_NONE \<and> us2 b \<noteq> MAP_NONE"
    by (simp add: c_def start_updates_def view_def pmb_is_def b_def Let_def)
  have ic: "init_copies a (pte_of root s v) s = Inr (x, ?t)"
  proof (cases c)
    case True
    with c nf show ?thesis
      unfolding init_copies_def Let_def b_def [symmetric] fl_def m_def x_def
      by (simp add: pmb_clr_def cpy_or_panic_ok no_faults_def upd_pmb_mem_swap copy_if_def) (simp add: upd_pmb_def b_def)
  next
    case False
    have "?t = s" using False by (simp add: fl_def m_def upd_pmb_def)
    moreover have "x = pte_of root s v" using False by (simp add: x_def)
    moreover have "\<not> (pmb_is a H_TO_UPDATE s \<and> us1 (working_set s a) \<noteq> MAP_NONE \<and> us2 (working_set s a) \<noteq> MAP_NONE)"
      using c False unfolding b_def by blast
    ultimately show ?thesis unfolding init_copies_def Let_def by (simp only: if_False)
  qed
  have wt: "working_set ?t a = b\<lparr>pmb_flags := fl\<rparr>" "h_step ?t = h_step s" "wr_fault ?t = wr_fault s"
    by (simp_all add: b_def upd_pmb_def)
  have "set_pe_mem_to_ro_body p root a s =
      set_page_ro p root a (entry_addr (pt_of root s v) (I386_VM_PTE v)) (pte_of root s v) s"
    using nf ok by (simp add: set_pe_mem_to_ro_body_def phys_get32_def no_faults_def pde_of_def pt_of_def pte_of_def v_def Let_def)
  also have "\<dots> = Inr (snd (phys_set32 (entry_addr (pt_of root s v) (I386_VM_PTE v))
      (final_pte (b\<lparr>pmb_flags := fl\<rparr>) (run_pte (h_step s) (b\<lparr>pmb_flags := fl\<rparr>) x)) ?t))"
    using pre unfolding set_page_ro_def label_shared_skip [OF sh] bnd_Inr ic split_beta fst_conv snd_conv wt by (simp add: v_def)
  also have "\<dots> = Inr ((upd_pmb a (\<lambda>b. b\<lparr>pmb_flags := fl\<rparr>) s)\<lparr>mem := mem_set32 m (entry_addr (pt_of root s v) (I386_VM_PTE v))
      (final_pte (b\<lparr>pmb_flags := fl\<rparr>) (run_pte (h_step s) (b\<lparr>pmb_flags := fl\<rparr>) x))\<rparr>)"
    using nf by (simp add: phys_set32_def wt no_faults_def)
  finally show ?thesis .
qed

lemma start_step:
  assumes w: "page_world p root as s" and a: "a \<in> set as" and sh: "\<not> has (p_hflags (procs s p)) PROC_SHARING_MEM"
    and pre: "start_pre (view root s a)"
  shows "\<exists>t. set_pe_mem_to_ro_body p root a s = Inr t \<and> only_page root a s t \<and>
      view root t a = start_view (h_step s) (view root s a)"
proof -
  have nf: "no_faults s" and l: "layout root as s" using w by (auto simp: page_world_def)
  let ?b = "working_set s a" let ?v = "pmb_vaddr ?b" let ?V = "view root s a"
  show ?thesis
  proof (cases "check_pt_entry (pde_of root s ?v) = OK \<and> check_pt_entry (pte_of root s ?v) = OK")
    case False
    then have "set_pe_mem_to_ro_body p root a s = Inr s"
      using nf by (auto simp: set_pe_mem_to_ro_body_def phys_get32_def no_faults_def pde_of_def pte_of_def pt_of_def Let_def)
    with False show ?thesis by (auto simp: start_view_def view_def only_page_def Let_def)
  next
    case True
    have p0: "I386_VM_PFA (pte_of root s ?v) \<noteq> 0" and u0: "us0 ?b \<noteq> MAP_NONE"
      using pre by (auto simp: start_pre_def view_def Let_def)
    note eq = start_body_eq [OF nf sh p0 conjunct1 [OF True] conjunct2 [OF True]]
    show ?thesis
    proof (cases "start_updates ?V")
      case upd: True
      let ?fl = "clrf (pmb_flags ?b) H_TO_UPDATE" let ?B = "?b\<lparr>pmb_flags := ?fl\<rparr>"
      let ?x = "final_pte ?B (run_pte (h_step s) ?B (clrf (pte_of root s ?v) I386_VM_DIRTY))"
      have fl: "has ?fl PRAM_SLOT_FREE = pmb_free s a" by (simp add: has_clrf_other pmb_free_def)
      note rm = rollback_mem [OF l a u0, of ?x]
      have fr: "us1 ?b \<noteq> MAP_NONE" "us2 ?b \<noteq> MAP_NONE" using upd by (auto simp: start_updates_def view_def Let_def)
      obtain y where y: "frame_at (mem s) (us0 ?b) = Some y" using u0 by (simp add: frame_at_def)
      from only_pageI [OF rm(1) fl] view_upd [OF l a rm(1) fl] rm(2-4) eq upd show ?thesis
        using fr True y by (simp add: start_view_def Let_def) (auto simp: view_def Let_def frame_at_def)
    next
      case False
      have fl: "has (pmb_flags ?b) PRAM_SLOT_FREE = pmb_free s a" by (simp add: pmb_free_def)
      from entry_step [OF l a fl, of "final_pte ?b (run_pte (h_step s) ?b (pte_of root s ?v))"] eq False True show ?thesis
        by (simp add: start_view_def Let_def) (simp add: view_def Let_def)
    qed
  qed
qed

interpretation start1: page_step set_pe_mem_to_ro_body "start_view FIRST_RUN"
  "\<lambda>p s. h_step s = FIRST_RUN \<and> \<not> has (p_hflags (procs s p)) PROC_SHARING_MEM" start_pre
  using start_step by unfold_locales (force simp: only_page_sel)+

interpretation start2: page_step set_pe_mem_to_ro_body "start_view SECOND_RUN"
  "\<lambda>p s. h_step s = SECOND_RUN \<and> \<not> has (p_hflags (procs s p)) PROC_SHARING_MEM" start_pre
  using start_step by unfold_locales (force simp: only_page_sel)+

section \<open>Entries\<close>

lemma pfa_clrf:
  assumes "I386_VM_ADDR_MASK AND m = 0" shows "I386_VM_PFA (clrf x m) = I386_VM_PFA x"
proof -
  have "NOT m AND I386_VM_ADDR_MASK = I386_VM_ADDR_MASK"
    using and_not_disjoint [OF assms] by (simp only: and.commute)
  then show ?thesis by (simp only: I386_VM_PFA_def clrf_def and.assoc)
qed

lemma pfa_map_frame: "page_aligned f \<Longrightarrow> I386_VM_PFA (map_frame x f) = f"
  unfolding map_frame_def by (rule pte_frame)

lemma pfa_map_frame_w:
  assumes "page_aligned f" shows "I386_VM_PFA (map_frame_w x f) = f"
proof -
  have "(x AND 0xFFF) OR 2 OR f = ((x OR 2) AND 0xFFF) OR f"
    by (simp add: bit.conj_disj_distrib2 or.assoc)
  then show ?thesis using pte_frame [OF assms, of "x OR 2"] by (simp add: map_frame_w_def)
qed

lemma map_frame_w_setf: "map_frame_w x f = setf (map_frame x f) I386_VM_WRITE"
  unfolding map_frame_w_def map_frame_def setf_def by (simp only: or.assoc or.commute [of I386_VM_WRITE])

lemma map_frame_w_write [simp]: "has (map_frame_w x f) I386_VM_WRITE"
  by (simp add: map_frame_w_setf has_setf_same)

lemma map_frame_write:
  assumes "page_aligned f" shows "has (map_frame x f) I386_VM_WRITE = has x I386_VM_WRITE"
proof -
  have "f AND 2 = (f AND 0xFFF) AND 2" by (simp add: and.assoc)
  then have "f AND 2 = 0" using assms by (simp add: page_aligned_def)
  then have "map_frame x f AND 2 = (x AND 0xFFF) AND 2"
    by (simp add: map_frame_def bit.conj_disj_distrib2)
  then show ?thesis by (simp add: has_def and.assoc)
qed

text \<open>Which frame an entry written for a run maps, and when the run may write it.\<close>

lemma run_entry:
  assumes "page_aligned (us1 b)" "us1 b \<noteq> MAP_NONE" "page_aligned (us2 b)" "us2 b \<noteq> MAP_NONE"
  shows "I386_VM_PFA (final_pte b (run_pte step b x)) = (if step = FIRST_RUN then us1 b else us2 b)"
    and "has (final_pte b (run_pte step b x)) I386_VM_WRITE \<longleftrightarrow> has x I386_VM_WRITE \<and>
      (has (pmb_flags b) (if step = FIRST_RUN then IWS_PF_FIRST else IWS_PF_SECOND) \<or> has (pmb_flags b) IWS_MOD_KERNEL)"
  using assms by (simp_all add: final_pte_def run_pte_def pfa_clrf pfa_map_frame has_clrf_other map_frame_write)

lemma run_entry_missing:
  assumes "(if step = FIRST_RUN then us1 b else us2 b) = MAP_NONE" "page_aligned (us0 b)"
  shows "\<not> has (final_pte b (run_pte step b x)) I386_VM_WRITE"
proof -
  have "\<not> has (run_pte step b x) I386_VM_WRITE"
    using assms(1) by (cases "step = FIRST_RUN") (simp_all add: run_pte_def)
  then show ?thesis using assms(2) by (simp add: final_pte_def has_clrf_other map_frame_write)
qed

section \<open>From views to frames\<close>

lemma frame_at_eq: "f \<noteq> MAP_NONE \<Longrightarrow> frame_at m f = frame_at m' f \<longleftrightarrow> same_frame m f m' f"
  by (simp add: frame_at_def frame_same)

lemma frame_at_eq2: "f \<noteq> MAP_NONE \<Longrightarrow> g \<noteq> MAP_NONE \<Longrightarrow> frame_at m f = frame_at m' g \<longleftrightarrow> same_frame m f m' g"
  by (simp add: frame_at_def frame_same)

lemma view_sel:
  "pv_b (view root s a) = working_set s a" "pv_0 (view root s a) = frame_at (mem s) (us0 (working_set s a))"
  "pv_1 (view root s a) = frame_at (mem s) (us1 (working_set s a))"
  "pv_2 (view root s a) = frame_at (mem s) (us2 (working_set s a))"
  "pv_pde (view root s a) = pde_of root s (pmb_vaddr (working_set s a))"
  "pv_pte (view root s a) = pte_of root s (pmb_vaddr (working_set s a))"
  by (simp_all add: view_def Let_def)

text \<open>A block keeps its address and frames; only its flags change.\<close>

lemma same_block:
  assumes "(working_set t a)\<lparr>pmb_flags := pmb_flags (working_set s a)\<rparr> = working_set s a"
  shows "us0 (working_set t a) = us0 (working_set s a)" "us1 (working_set t a) = us1 (working_set s a)"
    "us2 (working_set t a) = us2 (working_set s a)" "pmb_vaddr (working_set t a) = pmb_vaddr (working_set s a)"
  using arg_cong [OF assms, of us0] arg_cong [OF assms, of us1] arg_cong [OF assms, of us2]
    arg_cong [OF assms, of pmb_vaddr] by simp_all

lemma world_aligned:
  assumes "page_world p root as s" "a \<in> set as"
  shows "us0 (working_set s a) \<noteq> MAP_NONE \<Longrightarrow> page_aligned (us0 (working_set s a))"
    "us1 (working_set s a) \<noteq> MAP_NONE \<Longrightarrow> page_aligned (us1 (working_set s a))"
    "us2 (working_set s a) \<noteq> MAP_NONE \<Longrightarrow> page_aligned (us2 (working_set s a))"
    "us1 (working_set s a) \<noteq> MAP_NONE \<Longrightarrow> us1 (working_set s a) \<noteq> us0 (working_set s a)"
    "us2 (working_set s a) \<noteq> MAP_NONE \<Longrightarrow> us2 (working_set s a) \<noteq> us0 (working_set s a)"
  using assms by (auto simp: page_world_def layout_def block_ok_def frames_of_def)

lemma rolled_back_page:
  assumes "view root t a = rollback_view (view root s a)"
    and b: "(working_set t a)\<lparr>pmb_flags := pmb_flags (working_set s a)\<rparr> = working_set s a"
    and w: "page_world p root as s" "a \<in> set as" and z: "us0 (working_set s a) \<noteq> MAP_NONE"
  defines "c \<equiv> working_set s a"
  shows "same_frame (mem t) (us0 c) (mem s) (us0 c) \<and>
    (us1 c \<noteq> MAP_NONE \<longrightarrow> same_frame (mem t) (us1 c) (mem s) (us0 c)) \<and>
    (us2 c \<noteq> MAP_NONE \<longrightarrow> same_frame (mem t) (us2 c) (mem s) (us0 c)) \<and>
    (us1 c \<noteq> MAP_NONE \<or> us2 c \<noteq> MAP_NONE \<longrightarrow> I386_VM_PFA (pte_of root t (pmb_vaddr c)) = us0 c)"
proof -
  note sel = arg_cong [OF assms(1), of pv_0] arg_cong [OF assms(1), of pv_1] arg_cong [OF assms(1), of pv_2]
    arg_cong [OF assms(1), of pv_pte]
  have "page_aligned (us0 c)" using world_aligned(1) [OF w] z by (simp add: c_def)
  with sel z show ?thesis
    by (auto simp: rollback_view_def view_sel same_block [OF b] frame_at_def frame_same c_def Let_def
        clear_run_flags_def pfa_map_frame_w split: if_splits)
qed

lemma committed_page:
  assumes "view root t a = commit_view (view root s a)"
    and b: "(working_set t a)\<lparr>pmb_flags := pmb_flags (working_set s a)\<rparr> = working_set s a"
    and w: "page_world p root as s" "a \<in> set as"
    and z: "us0 (working_set s a) \<noteq> MAP_NONE" "us2 (working_set s a) \<noteq> MAP_NONE"
  defines "c \<equiv> working_set s a"
  shows "same_frame (mem t) (us0 c) (mem s) (if touched (view root s a) then us2 c else us0 c) \<and>
    same_frame (mem t) (us2 c) (mem s) (us2 c) \<and>
    (us1 c \<noteq> MAP_NONE \<longrightarrow> same_frame (mem t) (us1 c) (mem s) (us1 c)) \<and>
    I386_VM_PFA (pte_of root t (pmb_vaddr c)) = us0 c \<and> has (pte_of root t (pmb_vaddr c)) I386_VM_WRITE"
proof -
  note sel = arg_cong [OF assms(1), of pv_0] arg_cong [OF assms(1), of pv_1] arg_cong [OF assms(1), of pv_2]
    arg_cong [OF assms(1), of pv_pte]
  have "page_aligned (us0 c)" using world_aligned(1) [OF w] z by (simp add: c_def)
  with sel z show ?thesis
    by (cases "touched (view root s a)")
      (simp_all add: commit_view_def view_sel same_block [OF b] frame_at_def frame_same c_def pfa_map_frame_w split: if_splits)
qed

text \<open>
  Everything outside memory, the blocks, the position in the time-stamp counter and the
  cycle accounts and working set count of process \<open>p\<close> is as before.
\<close>

definition unaccounted :: "proc \<Rightarrow> proc" where
  "unaccounted q = q\<lparr>p_reset_pram_acc := \<lparr>acc_tsc = 0, acc_t = 0\<rparr>, p_set_ro_acc := \<lparr>acc_tsc = 0, acc_t = 0\<rparr>,
     p_cmp_acc := \<lparr>acc_tsc = 0, acc_t = 0\<rparr>, p_workingset_size := 0\<rparr>"

definition quiet :: "int \<Rightarrow> kstate \<Rightarrow> kstate \<Rightarrow> bool" where
  "quiet p s t \<longleftrightarrow>
     t\<lparr>mem := mem s, working_set := working_set s, tsc_n := tsc_n s, procs := procs s\<rparr> = s \<and>
     (\<forall>q. q \<noteq> p \<longrightarrow> procs t q = procs s q) \<and>
     unaccounted (procs t p) = unaccounted (procs s p)"

lemma quiet_refl [simp]: "quiet p s s"
  by (simp add: quiet_def)

lemma quiet_tsc: "quiet p s (s\<lparr>tsc_n := n\<rparr>)"
  by (simp add: quiet_def)

lemma quiet_trans:
  assumes "quiet p s t" "quiet p t u" shows "quiet p s u"
proof -
  have "u\<lparr>mem := mem s, working_set := working_set s, tsc_n := tsc_n s, procs := procs s\<rparr> =
      (u\<lparr>mem := mem t, working_set := working_set t, tsc_n := tsc_n t, procs := procs t\<rparr>)
        \<lparr>mem := mem s, working_set := working_set s, tsc_n := tsc_n s, procs := procs s\<rparr>" by simp
  also have "\<dots> = s" using assms by (simp add: quiet_def)
  finally have 1: "u\<lparr>mem := mem s, working_set := working_set s, tsc_n := tsc_n s, procs := procs s\<rparr> = s" .
  show ?thesis using 1 assms by (auto simp: quiet_def)
qed

lemma quiet_sel:
  assumes "quiet p s t"
  shows "h_enable t = h_enable s" "h_step t = h_step s" "h_proc_nr t = h_proc_nr s" "h_restore t = h_restore s"
    "copy_0 t = copy_0 s" "copy_1 t = copy_1 s" "copy_2 t = copy_2 s" "origin_syscall t = origin_syscall s"
    "vm_should_run t = vm_should_run s" "nbpe_f t = nbpe_f s" "nbpe t = nbpe s" "h_inject_fault t = h_inject_fault s"
    "cr0 t = cr0 s" "cr3 t = cr3 s" "cr4 t = cr4 s" "h_wait_vm_reply t = h_wait_vm_reply s"
proof -
  have e: "t\<lparr>mem := mem s, working_set := working_set s, tsc_n := tsc_n s, procs := procs s\<rparr> = s"
    using assms by (simp add: quiet_def)
  show "h_enable t = h_enable s" using arg_cong [OF e, of h_enable] by simp
  show "h_step t = h_step s" using arg_cong [OF e, of h_step] by simp
  show "h_proc_nr t = h_proc_nr s" using arg_cong [OF e, of h_proc_nr] by simp
  show "h_restore t = h_restore s" using arg_cong [OF e, of h_restore] by simp
  show "copy_0 t = copy_0 s" using arg_cong [OF e, of copy_0] by simp
  show "copy_1 t = copy_1 s" using arg_cong [OF e, of copy_1] by simp
  show "copy_2 t = copy_2 s" using arg_cong [OF e, of copy_2] by simp
  show "origin_syscall t = origin_syscall s" using arg_cong [OF e, of origin_syscall] by simp
  show "vm_should_run t = vm_should_run s" using arg_cong [OF e, of vm_should_run] by simp
  show "nbpe_f t = nbpe_f s" using arg_cong [OF e, of nbpe_f] by simp
  show "nbpe t = nbpe s" using arg_cong [OF e, of nbpe] by simp
  show "h_inject_fault t = h_inject_fault s" using arg_cong [OF e, of h_inject_fault] by simp
  show "cr0 t = cr0 s" using arg_cong [OF e, of cr0] by simp
  show "cr3 t = cr3 s" using arg_cong [OF e, of cr3] by simp
  show "cr4 t = cr4 s" using arg_cong [OF e, of cr4] by simp
  show "h_wait_vm_reply t = h_wait_vm_reply s" using arg_cong [OF e, of h_wait_vm_reply] by simp
qed

lemma quiet_proc:
  assumes "quiet p s t"
  shows "p_reg (procs t q) = p_reg (procs s q)" "p_nr (procs t q) = p_nr (procs s q)" "p_cr3 (procs t q) = p_cr3 (procs s q)"
    "p_hflags (procs t q) = p_hflags (procs s q)" "p_rts_flags (procs t q) = p_rts_flags (procs s q)"
    "p_kern_trap_style (procs t q) = p_kern_trap_style (procs s q)" "p_sig_delay (procs t q) = p_sig_delay (procs s q)"
    "p_nb_hardening_mem_events (procs t q) = p_nb_hardening_mem_events (procs s q)" "p_stats (procs t q) = p_stats (procs s q)"
    "p_lus1_us2 (procs t q) = p_lus1_us2 (procs s q)" "p_lus1_us2_size (procs t q) = p_lus1_us2_size (procs s q)"
proof -
  have "unaccounted (procs t q) = unaccounted (procs s q)"
    using assms by (cases "q = p") (auto simp: quiet_def)
  note c = arg_cong [OF this [unfolded unaccounted_def]]
  show "p_reg (procs t q) = p_reg (procs s q)" using c [of p_reg] by simp
  show "p_nr (procs t q) = p_nr (procs s q)" using c [of p_nr] by simp
  show "p_cr3 (procs t q) = p_cr3 (procs s q)" using c [of p_cr3] by simp
  show "p_hflags (procs t q) = p_hflags (procs s q)" using c [of p_hflags] by simp
  show "p_rts_flags (procs t q) = p_rts_flags (procs s q)" using c [of p_rts_flags] by simp
  show "p_kern_trap_style (procs t q) = p_kern_trap_style (procs s q)" using c [of p_kern_trap_style] by simp
  show "p_sig_delay (procs t q) = p_sig_delay (procs s q)" using c [of p_sig_delay] by simp
  show "p_nb_hardening_mem_events (procs t q) = p_nb_hardening_mem_events (procs s q)" using c [of p_nb_hardening_mem_events] by simp
  show "p_stats (procs t q) = p_stats (procs s q)" using c [of p_stats] by simp
  show "p_lus1_us2 (procs t q) = p_lus1_us2 (procs s q)" using c [of p_lus1_us2] by simp
  show "p_lus1_us2_size (procs t q) = p_lus1_us2_size (procs s q)" using c [of p_lus1_us2_size] by simp
qed

lemma only_pages_quiet:
  assumes "only_pages root as s u" "mem t = mem u" "working_set t = working_set u"
    "t\<lparr>mem := mem u, working_set := working_set u, tsc_n := tsc_n u, procs := procs u\<rparr> = u"
    "\<And>q. q \<noteq> p \<Longrightarrow> procs t q = procs u q"
    "unaccounted (procs t p) = unaccounted (procs u p)"
  shows "quiet p s t"
proof -
  have u: "u\<lparr>mem := mem s, working_set := working_set s\<rparr> = s" using assms(1) by (simp add: only_pages_def)
  have pu: "procs u = procs s" "tsc_n u = tsc_n s" using arg_cong [OF u, of procs] arg_cong [OF u, of tsc_n] by simp_all
  have "t\<lparr>mem := mem s, working_set := working_set s, tsc_n := tsc_n s, procs := procs s\<rparr> =
      (t\<lparr>mem := mem u, working_set := working_set u, tsc_n := tsc_n u, procs := procs u\<rparr>)\<lparr>mem := mem s, working_set := working_set s\<rparr>"
    using pu by (cases t) simp
  also have "\<dots> = s" using assms(4) u by simp
  finally show ?thesis using assms(5,6) pu by (simp add: quiet_def)
qed

context page_step
begin

lemma reset_pram_blocks:
  assumes "page_world p root as s" "\<And>n. ok p (s\<lparr>tsc_n := n\<rparr>)" "\<And>a. a \<in> set as \<Longrightarrow> pre (view root s a)"
    "p_nr (procs s p) \<noteq> VM_PROC_NR" "\<And>a. body p root a = vm_reset_pram_body p root endcmp a"
  shows "\<exists>t. vm_reset_pram p root endcmp s = Inr t \<and> page_world p root as t \<and> quiet p s t \<and>
      (\<forall>a \<in> set as. view root t a = F (view root s a)) \<and>
      (\<forall>a. (working_set t a)\<lparr>pmb_flags := pmb_flags (working_set s a)\<rparr> = working_set s a) \<and>
      (\<forall>f. page_aligned f \<longrightarrow> (\<forall>a \<in> set as. f \<notin> frames_of (working_set s a) \<and> f \<noteq> pt_of root s (pmb_vaddr (working_set s a)))
        \<longrightarrow> same_frame (mem t) f (mem s) f)"
proof -
  obtain t u acc where t: "vm_reset_pram p root endcmp s = Inr t" "only_pages root as s u"
    "t = (upd_proc p (\<lambda>q. q\<lparr>p_reset_pram_acc := acc\<rparr>) u)\<lparr>tsc_n := tsc_n t\<rparr>" "page_world p root as t"
    "\<forall>a \<in> set as. view root t a = F (view root s a)"
    using reset_pram [OF assms] by blast
  have wm: "working_set t = working_set u" "mem t = mem u"
    using arg_cong [OF t(3), of working_set] arg_cong [OF t(3), of mem] by (simp_all add: upd_proc_def)
  have "quiet p s t"
  proof (rule only_pages_quiet [OF t(2) wm(2,1)])
    show "t\<lparr>mem := mem u, working_set := working_set u, tsc_n := tsc_n u, procs := procs u\<rparr> = u"
      by (subst t(3)) (cases u, simp add: upd_proc_def)
  qed (subst t(3), simp add: unaccounted_def)+
  with t wm show ?thesis by (auto simp: only_pages_def)
qed

end

section \<open>The start of a run, whole routine\<close>

lemma replay_nothing: "p_nb_hardening_mem_events (procs s p) \<le> 0 \<Longrightarrow> replay_events p s = Inr s"
  by (simp add: replay_events_def handle_hme_events_def free_hardening_mem_events_def)

lemma set_ro_views:
  assumes w: "page_world p root as s" and sh: "\<not> has (p_hflags (procs s p)) PROC_SHARING_MEM"
    and ev: "p_nb_hardening_mem_events (procs s p) \<le> 0" and h: "h_step s = FIRST_RUN \<or> h_step s = SECOND_RUN"
    and pre: "\<And>a. a \<in> set as \<Longrightarrow> start_pre (view root s a)"
  shows "\<exists>t. set_pe_mem_to_ro p root s = Inr (OK, t) \<and> page_world p root as t \<and> quiet p s t \<and>
      (\<forall>a \<in> set as. view root t a = start_view (h_step s) (view root s a)) \<and>
      (\<forall>a. (working_set t a)\<lparr>pmb_flags := pmb_flags (working_set s a)\<rparr> = working_set s a)"
proof -
  let ?s = "s\<lparr>tsc_n := Suc (tsc_n s)\<rparr>"
  have w': "page_world p root as ?s" using w by (subst page_world_cong [of _ s]) auto
  have v': "view root ?s a = view root s a" for a by (rule view_cong) auto
  have "\<exists>u. for_chain pmb_nx (\<lambda>a s. bnd (set_pe_mem_to_ro_body p root a s) (\<lambda>s. Inr (None :: unit option, s)))
      (p_lus1_us2 (procs ?s p)) ?s = Inr (None, u) \<and> page_world p root as u \<and> only_pages root as ?s u \<and>
      (\<forall>a \<in> set as. view root u a = start_view (h_step s) (view root s a))"
    using h
  proof
    assume h: "h_step s = FIRST_RUN"
    then show ?thesis using start1.loop [OF w'] pre sh v' by (auto simp: h)
  next
    assume h: "h_step s = SECOND_RUN"
    then show ?thesis using start2.loop [OF w'] pre sh v' by (auto simp: h)
  qed
  then obtain u where u: "for_chain pmb_nx (\<lambda>a s. bnd (set_pe_mem_to_ro_body p root a s) (\<lambda>s. Inr (None :: unit option, s)))
      (p_lus1_us2 (procs ?s p)) ?s = Inr (None, u)" "page_world p root as u" "only_pages root as ?s u"
      "\<forall>a \<in> set as. view root u a = start_view (h_step s) (view root s a)" by blast
  show ?thesis
  proof (cases "as = []")
    case True
    have "p_lus1_us2_size (procs s p) \<le> 0" using w True by (auto simp: page_world_def ws_list_def)
    then have "set_pe_mem_to_ro p root s = Inr (OK, ?s)" by (simp add: set_pe_mem_to_ro_def read_tsc_64_def)
    moreover have "quiet p s ?s" by (simp add: quiet_def)
    ultimately show ?thesis using w' True by auto
  next
    case False
    then have sz: "\<not> p_lus1_us2_size (procs s p) \<le> 0" using w by (auto simp: page_world_def ws_list_def)
    let ?acc = "\<lambda>q. acc_add (tsc s (tsc_n s)) (tsc u (tsc_n u)) (u\<lparr>tsc_n := Suc (tsc_n u)\<rparr>) (p_set_ro_acc q)"
    let ?t = "upd_proc p (\<lambda>q. q\<lparr>p_set_ro_acc := ?acc q\<rparr>) (u\<lparr>tsc_n := Suc (tsc_n u)\<rparr>)"
    have "set_pe_mem_to_ro p root s = Inr (OK, ?t)"
      using u(1) sz ev by (simp add: set_pe_mem_to_ro_def read_tsc_64_def replay_nothing)
    moreover have "page_world p root as ?t" using u(2) by (subst page_world_cong [of _ u]) (auto simp: upd_proc_def)
    moreover have "view root ?t a = view root u a" for a by (rule view_cong) (auto simp: upd_proc_def)
    moreover have "working_set ?t = working_set u" by (simp add: upd_proc_def)
    moreover have "quiet p s ?t"
    proof -
      have "quiet p ?s ?t"
        by (rule only_pages_quiet [OF u(3)]) (cases u, simp_all add: upd_proc_def unaccounted_def)
      then show ?thesis using quiet_tsc quiet_trans by blast
    qed
    ultimately show ?thesis using u(3,4) by (auto simp: only_pages_def)
  qed
qed

text \<open>
  A page the run may write is the frame of the run and never the committed frame, if no
  block has a first copy, no second one, and a mark of an earlier write.
\<close>

definition no_half_marked :: "pram_mem_block \<Rightarrow> bool" where
  "no_half_marked b \<longleftrightarrow> (us1 b \<noteq> MAP_NONE \<and> us2 b = MAP_NONE \<longrightarrow>
     \<not> has (pmb_flags b) IWS_PF_FIRST \<and> \<not> has (pmb_flags b) IWS_MOD_KERNEL)"

lemma run_entry_isolated:
  assumes al: "page_aligned (us0 b)" "us1 b \<noteq> MAP_NONE \<Longrightarrow> page_aligned (us1 b) \<and> us1 b \<noteq> us0 b"
      "us2 b \<noteq> MAP_NONE \<Longrightarrow> page_aligned (us2 b) \<and> us2 b \<noteq> us0 b"
    and nh: "no_half_marked b" and wr: "has (final_pte b (run_pte step b x)) I386_VM_WRITE"
  defines "f \<equiv> if step = FIRST_RUN then us1 b else us2 b"
  shows "I386_VM_PFA (final_pte b (run_pte step b x)) = f \<and> f \<noteq> us0 b"
proof -
  have f: "f \<noteq> MAP_NONE" using run_entry_missing [of step b x] al(1) wr by (auto simp: f_def)
  have "us2 b \<noteq> MAP_NONE"
  proof
    assume n: "us2 b = MAP_NONE"
    with f have "step = FIRST_RUN" "us1 b \<noteq> MAP_NONE" by (auto simp: f_def split: if_splits)
    with n nh have "\<not> has (run_pte step b x) I386_VM_WRITE" by (simp add: run_pte_def no_half_marked_def)
    with wr al(1) show False by (simp add: final_pte_def has_clrf_other map_frame_write split: if_splits)
  qed
  then have "I386_VM_PFA (final_pte b (run_pte step b x)) = I386_VM_PFA (run_pte step b x)"
    by (simp add: final_pte_def pfa_clrf)
  also have "\<dots> = f" using f al by (cases "step = FIRST_RUN") (simp_all add: run_pte_def pfa_clrf pfa_map_frame f_def)
  finally show ?thesis using f al by (auto simp: f_def)
qed

lemma start_view_isolated:
  assumes w: "page_world p root as s" "a \<in> set as"
    and v: "view root t a = start_view step (view root s a)"
    and b: "(working_set t a)\<lparr>pmb_flags := pmb_flags (working_set s a)\<rparr> = working_set s a"
    and z: "us0 (working_set s a) \<noteq> MAP_NONE"
    and acc: "check_pt_entry (pde_of root s (pmb_vaddr (working_set s a))) = OK"
      "check_pt_entry (pte_of root s (pmb_vaddr (working_set s a))) = OK"
    and nh: "no_half_marked (working_set s a)"
  defines "c \<equiv> working_set s a"
  assumes wr: "has (pte_of root t (pmb_vaddr c)) I386_VM_WRITE"
  shows "I386_VM_PFA (pte_of root t (pmb_vaddr c)) = (if step = FIRST_RUN then us1 c else us2 c) \<and>
     I386_VM_PFA (pte_of root t (pmb_vaddr c)) \<noteq> us0 c"
proof -
  let ?d = "if start_updates (view root s a) then c\<lparr>pmb_flags := clrf (pmb_flags c) H_TO_UPDATE\<rparr> else c"
  obtain x where fx: "pte_of root t (pmb_vaddr c) = final_pte ?d (run_pte step ?d x)"
    using arg_cong [OF v, of pv_pte] acc unfolding start_view_def view_sel same_block [OF b]
    by (cases "start_updates (view root s a)") (auto simp: view_sel c_def Let_def)
  have d: "us0 ?d = us0 c" "us1 ?d = us1 c" "us2 ?d = us2 c" "no_half_marked ?d"
    using nh by (auto simp: no_half_marked_def c_def has_clrf_other)
  have "I386_VM_PFA (final_pte ?d (run_pte step ?d x)) = (if step = FIRST_RUN then us1 ?d else us2 ?d) \<and>
      (if step = FIRST_RUN then us1 ?d else us2 ?d) \<noteq> us0 ?d"
    by (rule run_entry_isolated) (use d world_aligned [OF w, folded c_def] z wr fx in \<open>auto simp: c_def\<close>)
  then show ?thesis unfolding fx d(1-3) by simp
qed

section \<open>A concrete memory image\<close>

text \<open>
  Process 1 with its page directory at \<open>0x1000\<close>, one page table at \<open>0x2000\<close> and one page
  at \<open>0x3000\<close> whose frames are \<open>0x5000\<close>, \<open>0x6000\<close> and \<open>0x7000\<close>. The page
  was written in the second run.
\<close>

definition sample_block :: pram_mem_block where
  "sample_block = \<lparr>pmb_id = 0, pmb_flags = HGET_PF OR IWS_PF_SECOND OR FWS, pmb_iflags = 0, pmb_vaddr = 0x3000,
     us0 = 0x5000, us1 = 0x6000, us2 = 0x7000, next_pmb = None\<rparr>"

definition sample_mem :: "u32 \<Rightarrow> u8" where
  "sample_mem = mem_set32 (mem_set32 (\<lambda>a. if a = 0x7000 then 42 else 0) 0x1000 0x2007) 0x200C 0x7007"

definition sample_state :: kstate where
  "sample_state = bss_state\<lparr>h_enable := 1, h_step := SECOND_RUN, h_proc_nr := 1, proc_ptr := 1, mem := sample_mem,
     procs := (procs bss_state)(1 := zero_proc\<lparr>p_nr := 1, p_endpoint := 1, p_cr3 := 0x1000, p_hflags := PROC_TO_HARD,
       p_lus1_us2 := Some 0, p_lus1_us2_size := 1, p_sig_delay := - 1, p_kern_trap_style := 2\<rparr>),
     working_set := (\<lambda>_. zero_pmb\<lparr>pmb_flags := PRAM_SLOT_FREE\<rparr>)(0 := sample_block)\<rparr>"

lemma sample_sel [simp]:
  "working_set sample_state 0 = sample_block" "mem sample_state = sample_mem" "h_step sample_state = SECOND_RUN"
  "p_nr (procs sample_state 1) = 1" "p_lus1_us2 (procs sample_state 1) = Some 0" "p_cr3 (procs sample_state 1) = 0x1000"
  "p_lus1_us2_size (procs sample_state 1) = 1" "rd_fault sample_state = (\<lambda>_. False)" "wr_fault sample_state = (\<lambda>_. False)"
  "p_nb_hardening_mem_events (procs sample_state 1) = 0" "p_hflags (procs sample_state 1) = PROC_TO_HARD"
  by (simp_all add: sample_state_def bss_state_def zero_proc_def)

lemma sample_block_sel [simp]:
  "us0 sample_block = 0x5000" "us1 sample_block = 0x6000" "us2 sample_block = 0x7000" "pmb_vaddr sample_block = 0x3000"
  "next_pmb sample_block = None" "pmb_flags sample_block = HGET_PF OR IWS_PF_SECOND OR FWS"
  by (simp_all add: sample_block_def)

lemma sample_index [simp]: "I386_VM_PDE 0x3000 = 0" "I386_VM_PTE 0x3000 = 3"
  by (simp_all add: I386_VM_PDE_def I386_VM_PTE_def)

lemma sample_tables [simp]:
  "pde_of 0x1000 sample_state 0x3000 = 0x2007" "pt_of 0x1000 sample_state 0x3000 = 0x2000"
  "pte_of 0x1000 sample_state 0x3000 = 0x7007"
  by (simp_all add: pde_of_def pt_of_def pte_of_def entry_addr_def sample_mem_def mem_get32_def mem_set32_def I386_VM_PFA_def)

lemma sample_world: "page_world 1 0x1000 [0] sample_state"
  by (simp add: page_world_def ws_list_def layout_def block_ok_def no_faults_def frames_of_def page_aligned_def
      pmb_nx_def pmb_free_def has_def)

section \<open>Properties of the page layer\<close>

text \<open>Fault containment: when the comparison failed, \<open>vm_reset_pram\<close> returns, no
  committed frame changed, both copies of every page hold the committed frame again, the
  page maps the committed frame, and no frame outside the working set and its page tables
  is touched.\<close>

theorem vm_reset_pram_contains_fault:
  assumes "page_world p root as s" "h_step s = SECOND_RUN" "p_nr (procs s p) \<noteq> VM_PROC_NR"
  shows "\<exists>t. vm_reset_pram p root CMP_FAILED s = Inr t \<and>
    (\<forall>a \<in> set as. us0 (working_set s a) \<noteq> MAP_NONE \<longrightarrow>
       same_frame (mem t) (us0 (working_set s a)) (mem s) (us0 (working_set s a)) \<and>
       (us1 (working_set s a) \<noteq> MAP_NONE \<longrightarrow> same_frame (mem t) (us1 (working_set s a)) (mem s) (us0 (working_set s a))) \<and>
       (us2 (working_set s a) \<noteq> MAP_NONE \<longrightarrow> same_frame (mem t) (us2 (working_set s a)) (mem s) (us0 (working_set s a))) \<and>
       (us1 (working_set s a) \<noteq> MAP_NONE \<or> us2 (working_set s a) \<noteq> MAP_NONE \<longrightarrow>
          I386_VM_PFA (pte_of root t (pmb_vaddr (working_set s a))) = us0 (working_set s a))) \<and>
    (\<forall>f. page_aligned f \<longrightarrow> (\<forall>a \<in> set as. f \<notin> frames_of (working_set s a) \<and> f \<noteq> pt_of root s (pmb_vaddr (working_set s a)))
       \<longrightarrow> same_frame (mem t) f (mem s) f)"
proof -
  obtain t where t: "vm_reset_pram p root CMP_FAILED s = Inr t"
    "\<forall>a \<in> set as. view root t a = rollback_view (view root s a)"
    "\<forall>a. (working_set t a)\<lparr>pmb_flags := pmb_flags (working_set s a)\<rparr> = working_set s a"
    "\<forall>f. page_aligned f \<longrightarrow> (\<forall>a \<in> set as. f \<notin> frames_of (working_set s a) \<and> f \<noteq> pt_of root s (pmb_vaddr (working_set s a)))
       \<longrightarrow> same_frame (mem t) f (mem s) f"
    using failed.reset_pram_blocks [OF assms(1) _ _ assms(3) refl] assms(2) by auto
  with rolled_back_page [OF _ _ assms(1)] show ?thesis by blast
qed

theorem vm_reset_pram_contains_fault_witness:
  "\<exists>t. vm_reset_pram 1 0x1000 CMP_FAILED sample_state = Inr t \<and> same_frame (mem t) 0x7000 sample_mem 0x5000"
  using vm_reset_pram_contains_fault [OF sample_world] by auto

text \<open>Commit: after a successful comparison \<open>vm_reset_pram\<close> copies the second run's
  frame of every page the run touched into the committed frame, leaves the committed frame
  of every other page as it was, and maps every page to its committed frame, writable.\<close>

theorem vm_reset_pram_commits:
  assumes "page_world p root as s" "h_step s = SECOND_RUN" "p_nr (procs s p) \<noteq> VM_PROC_NR"
    "\<And>a. a \<in> set as \<Longrightarrow> \<not> pmb_is a WS_SHARED s"
  shows "\<exists>t. vm_reset_pram p root CPY_RAM_PRAM s = Inr t \<and>
    (\<forall>a \<in> set as. us0 (working_set s a) \<noteq> MAP_NONE \<and> us2 (working_set s a) \<noteq> MAP_NONE \<longrightarrow>
       same_frame (mem t) (us0 (working_set s a)) (mem s)
         (if pmb_is a HGET_PF s \<or> has (pte_of root s (pmb_vaddr (working_set s a))) I386_VM_DIRTY
          then us2 (working_set s a) else us0 (working_set s a)) \<and>
       I386_VM_PFA (pte_of root t (pmb_vaddr (working_set s a))) = us0 (working_set s a) \<and>
       has (pte_of root t (pmb_vaddr (working_set s a))) I386_VM_WRITE)"
proof -
  have ns: "not_shared (view root s a)" if "a \<in> set as" for a
    using assms(4) [OF that] by (simp add: not_shared_def view_sel pmb_is_def)
  obtain t where t: "vm_reset_pram p root CPY_RAM_PRAM s = Inr t"
    "\<forall>a \<in> set as. view root t a = commit_view (view root s a)"
    "\<forall>a. (working_set t a)\<lparr>pmb_flags := pmb_flags (working_set s a)\<rparr> = working_set s a"
    using commit.reset_pram_blocks [OF assms(1) _ ns assms(3) refl] assms(2) by auto
  have tch: "touched (view root s a) \<longleftrightarrow> pmb_is a HGET_PF s \<or> has (pte_of root s (pmb_vaddr (working_set s a))) I386_VM_DIRTY" for a
    by (simp add: touched_def view_sel pmb_is_def)
  show ?thesis
    using t committed_page [OF _ _ assms(1), unfolded tch] by (intro exI [of _ t] conjI ballI impI) blast+
qed

theorem vm_reset_pram_commits_witness:
  "\<exists>t. vm_reset_pram 1 0x1000 CPY_RAM_PRAM sample_state = Inr t \<and> same_frame (mem t) 0x5000 sample_mem 0x7000"
  using vm_reset_pram_commits [OF sample_world] by (auto simp: pmb_is_def has_def)

text \<open>Isolation: before a run the pages are mapped so that every page the run may
  write without a fault is the run's own copy, never the committed frame.\<close>

theorem set_pe_mem_to_ro_isolates:
  assumes "page_world p root as s" "\<not> has (p_hflags (procs s p)) PROC_SHARING_MEM"
    "p_nb_hardening_mem_events (procs s p) \<le> 0" "h_step s = FIRST_RUN \<or> h_step s = SECOND_RUN"
    "\<And>a. a \<in> set as \<Longrightarrow> us0 (working_set s a) \<noteq> MAP_NONE"
    "\<And>a. a \<in> set as \<Longrightarrow> I386_VM_PFA (pte_of root s (pmb_vaddr (working_set s a))) \<noteq> 0"
    "\<And>a. a \<in> set as \<Longrightarrow> no_half_marked (working_set s a)"
  shows "\<exists>t. set_pe_mem_to_ro p root s = Inr (OK, t) \<and>
    (\<forall>a \<in> set as. check_pt_entry (pde_of root s (pmb_vaddr (working_set s a))) = OK \<longrightarrow>
       check_pt_entry (pte_of root s (pmb_vaddr (working_set s a))) = OK \<longrightarrow>
       has (pte_of root t (pmb_vaddr (working_set s a))) I386_VM_WRITE \<longrightarrow>
       I386_VM_PFA (pte_of root t (pmb_vaddr (working_set s a))) =
         (if h_step s = FIRST_RUN then us1 (working_set s a) else us2 (working_set s a)) \<and>
       I386_VM_PFA (pte_of root t (pmb_vaddr (working_set s a))) \<noteq> us0 (working_set s a))"
proof -
  have "start_pre (view root s a)" if "a \<in> set as" for a
    using assms(5,6) that by (simp add: start_pre_def view_sel)
  from set_ro_views [OF assms(1-4) this] start_view_isolated [OF assms(1)] assms(5,7) show ?thesis by blast
qed

theorem set_pe_mem_to_ro_isolates_witness:
  "\<exists>t. set_pe_mem_to_ro 1 0x1000 sample_state = Inr (OK, t) \<and>
     (has (pte_of 0x1000 t 0x3000) I386_VM_WRITE \<longrightarrow> I386_VM_PFA (pte_of 0x1000 t 0x3000) = 0x7000)"
  using set_pe_mem_to_ro_isolates [OF sample_world]
  by (auto simp: has_def no_half_marked_def I386_VM_PFA_def check_pt_entry_def)

text \<open>The hypothesis on half-allocated blocks is needed: a block with a first copy, no
  second copy and the mark of a first-run write is mapped to its committed frame with the
  write bit set, so the first run writes the committed frame directly.\<close>

theorem run_entry_escape:
  assumes "us1 b \<noteq> MAP_NONE" "us2 b = MAP_NONE" "has (pmb_flags b) IWS_PF_FIRST"
    "page_aligned (us0 b)" "page_aligned (us1 b)" "has x I386_VM_WRITE"
  shows "I386_VM_PFA (final_pte b (run_pte FIRST_RUN b x)) = us0 b \<and>
    has (final_pte b (run_pte FIRST_RUN b x)) I386_VM_WRITE"
  using assms by (simp add: final_pte_def run_pte_def pfa_clrf pfa_map_frame has_clrf_other map_frame_write)

theorem run_entry_escape_witness:
  "I386_VM_PFA (final_pte (sample_block\<lparr>us2 := MAP_NONE, pmb_flags := IWS_PF_FIRST\<rparr>)
      (run_pte FIRST_RUN (sample_block\<lparr>us2 := MAP_NONE, pmb_flags := IWS_PF_FIRST\<rparr>) 0x5007)) = 0x5000"
  using run_entry_escape [of "sample_block\<lparr>us2 := MAP_NONE, pmb_flags := IWS_PF_FIRST\<rparr>" "0x5007"]
  by (simp add: has_def page_aligned_def)

text \<open>Fail-stop: a frame copy that cannot be made stops the machine; the rollback never
  continues with a copy that does not hold the committed state.\<close>

theorem rollback_fail_stop:
  assumes "us0 (working_set s a) \<noteq> MAP_NONE" "us1 (working_set s a) \<noteq> MAP_NONE"
    "rd_fault s (us0 (working_set s a)) \<or> wr_fault s (us1 (working_set s a))"
  shows "\<exists>msg. reset_rollback a pa pte_v s = Inl (Panic msg)"
  using assms by (auto simp: reset_rollback_def Let_def cpy_or_panic_ok pmb_clr_def)

theorem rollback_fail_stop_witness:
  "\<exists>msg. reset_rollback 0 0x200C 0x7007 (sample_state\<lparr>wr_fault := (\<lambda>a. a = 0x6000)\<rparr>) = Inl (Panic msg)"
  using rollback_fail_stop [of "sample_state\<lparr>wr_fault := (\<lambda>a. a = 0x6000)\<rparr>" 0] by simp

section \<open>The page fault check\<close>

text \<open>A faulting address and the block of its page lead to the same table entries.\<close>

lemma same_page_index:
  assumes "pmb_page s a = page_base_of v"
  shows "I386_VM_PDE (pmb_vaddr (working_set s a)) = I386_VM_PDE v" "I386_VM_PTE (pmb_vaddr (working_set s a)) = I386_VM_PTE v"
  using assms page_eq_iff unfolding pmb_page_def by blast+

lemma pte_same_page:
  assumes "pmb_page s a = page_base_of v"
  shows "pt_of root t (pmb_vaddr (working_set s a)) = pt_of root t v"
    "pte_of root t (pmb_vaddr (working_set s a)) = pte_of root t v"
    "pde_of root t (pmb_vaddr (working_set s a)) = pde_of root t v"
  by (simp_all add: pt_of_def pte_of_def pde_of_def same_page_index [OF assms])

lemma ws_list_cong:
  assumes "working_set t = working_set s" "procs t = procs s" shows "ws_list p t as = ws_list p s as"
proof -
  have "pmb_nx t = pmb_nx s" "pmb_free t = pmb_free s" "pmb_page t = pmb_page s"
    by (rule ext, simp add: pmb_nx_def pmb_free_def pmb_page_def assms)+
  then show ?thesis by (simp add: ws_list_def assms)
qed

text \<open>The frame of the run and the mark of its write faults.\<close>

definition run_frame :: "int \<Rightarrow> pram_mem_block \<Rightarrow> u32" where
  "run_frame step b = (if step = FIRST_RUN then us1 b else us2 b)"

definition run_mark :: "int \<Rightarrow> u32" where
  "run_mark step = (if step = FIRST_RUN then IWS_PF_FIRST else IWS_PF_SECOND)"

lemma cv2_kernel_run:
  assumes "no_faults s" "h_step s = FIRST_RUN \<or> h_step s = SECOND_RUN" "\<not> pmb_is a H_FORK s"
  shows "cv2_kernel p start a pa x rw s = cv2_return p start OK K_HANDLE_PF
    ((upd_pmb a (\<lambda>b. b\<lparr>pmb_flags := setf (setf (pmb_flags b) (run_mark (h_step s))) HGET_PF\<rparr>) s)
       \<lparr>mem := mem_set32 (mem s) pa (map_frame_w x (run_frame (h_step s) (working_set s a)))\<rparr>)"
  using assms
  by (auto simp: cv2_kernel_def Let_def pmb_set_def phys_set32_def no_faults_def run_mark_def run_frame_def
      upd_pmb_mem_swap) (simp_all add: upd_pmb_def)

lemma check_vaddr_2_reaches_page:
  assumes nf: "no_faults s" and ws: "ws_list p s as" and h: "h_step s = FIRST_RUN \<or> h_step s = SECOND_RUN"
    and ok: "check_pt_entry (pde_of root s v) = OK" "has (pte_of root s v) I386_VM_PRESENT"
  defines "s1 \<equiv> (if h_step s = FIRST_RUN then s\<lparr>tsc_n := Suc (tsc_n s), pagefault_addr_1 := v\<rparr>
                  else s\<lparr>tsc_n := Suc (tsc_n s), pagefault_addr_2 := v\<rparr>)"
  shows "check_vaddr_2 p root v rw s =
    (case find (\<lambda>a. pmb_page s a = page_base_of v) as of
       None \<Rightarrow> cv2_return p (tsc s (tsc_n s)) VM_HANDLED_PF_ABS_WS rw s1
     | Some a \<Rightarrow>
         if us1 (working_set s a) \<noteq> MAP_NONE \<and> us2 (working_set s a) \<noteq> MAP_NONE
         then cv2_kernel p (tsc s (tsc_n s)) a (entry_addr (pt_of root s v) (I386_VM_PTE v)) (pte_of root s v) rw s1
         else cv2_vm p (tsc s (tsc_n s)) a v rw s1)"
proof -
  have s1: "mem s1 = mem s" "working_set s1 = working_set s" "procs s1 = procs s" "rd_fault s1 = rd_fault s"
    by (simp_all add: s1_def)
  have "pmb_page s1 = pmb_page s" by (rule ext) (simp add: pmb_page_def s1)
  then have lk: "look_up_pte p (I386_VM_PDE v) (I386_VM_PTE v) s1 = Inr (find (\<lambda>a. pmb_page s a = page_base_of v) as)"
    using look_up_pte_find [of p s1 as v] ws ws_list_cong [of s1 s] s1 by simp
  have "check_vaddr_2 p root v rw s = cv2_page p (tsc s (tsc_n s)) (pde_of root s v) v rw s1"
    using nf h ok by (auto simp: check_vaddr_2_def read_tsc_64_def kassert_def phys_get32_def no_faults_def pde_of_def s1_def Let_def)
  also have "\<dots> = (case find (\<lambda>a. pmb_page s a = page_base_of v) as of
       None \<Rightarrow> cv2_return p (tsc s (tsc_n s)) VM_HANDLED_PF_ABS_WS rw s1
     | Some a \<Rightarrow>
         if us1 (working_set s a) \<noteq> MAP_NONE \<and> us2 (working_set s a) \<noteq> MAP_NONE
         then cv2_kernel p (tsc s (tsc_n s)) a (entry_addr (pt_of root s v) (I386_VM_PTE v)) (pte_of root s v) rw s1
         else cv2_vm p (tsc s (tsc_n s)) a v rw s1)"
    using nf ok(2) unfolding cv2_page_def Let_def
    by (cases "find (\<lambda>a. pmb_page s a = page_base_of v) as")
      (simp_all add: phys_get32_def s1 no_faults_def lk pt_of_def pte_of_def)
  finally show ?thesis .
qed

lemma find_page:
  assumes "ws_list p s as" "a \<in> set as" "pmb_page s a = page_base_of v"
  shows "find (\<lambda>a. pmb_page s a = page_base_of v) as = Some a"
  using look_up_pte_Some [OF assms(1)] look_up_pte_find [OF assms(1)] assms(2,3) by (metis sum.inject(2))

text \<open>A write fault of a run on a page with both copies is handled in the kernel: the
  page is mapped writable to the copy of that run and the block records the fault; no
  frame changes, in particular not the committed one, and the fault address is noted for
  the comparison.\<close>

theorem check_vaddr_2_maps_copy:
  assumes w: "page_world p root as s" and a: "a \<in> set as" "pmb_page s a = page_base_of v"
    and h: "h_step s = FIRST_RUN \<or> h_step s = SECOND_RUN"
    and ok: "check_pt_entry (pde_of root s v) = OK" "has (pte_of root s v) I386_VM_PRESENT"
    and fr: "us1 (working_set s a) \<noteq> MAP_NONE" "us2 (working_set s a) \<noteq> MAP_NONE" and nf: "\<not> pmb_is a H_FORK s"
  shows "\<exists>t. check_vaddr_2 p root v rw s = Inr ((OK, K_HANDLE_PF), t) \<and>
     I386_VM_PFA (pte_of root t v) = run_frame (h_step s) (working_set s a) \<and> has (pte_of root t v) I386_VM_WRITE \<and>
     pmb_is a HGET_PF t \<and> pmb_is a (run_mark (h_step s)) t \<and>
     (\<forall>f. page_aligned f \<longrightarrow> f \<noteq> pt_of root s v \<longrightarrow> same_frame (mem t) f (mem s) f) \<and>
     (if h_step s = FIRST_RUN then pagefault_addr_1 t else pagefault_addr_2 t) = v"
proof -
  have l: "layout root as s" and ws: "ws_list p s as" and nof: "no_faults s" using w by (auto simp: page_world_def)
  define s1 where "s1 = (if h_step s = FIRST_RUN then s\<lparr>tsc_n := Suc (tsc_n s), pagefault_addr_1 := v\<rparr>
                  else s\<lparr>tsc_n := Suc (tsc_n s), pagefault_addr_2 := v\<rparr>)"
  have s1: "h_step s1 = h_step s" "working_set s1 = working_set s" "mem s1 = mem s" "no_faults s1"
    using nof by (auto simp: s1_def no_faults_def)
  let ?x = "map_frame_w (pte_of root s v) (run_frame (h_step s) (working_set s a))"
  let ?m = "mem_set32 (mem s) (entry_addr (pt_of root s v) (I386_VM_PTE v)) ?x"
  let ?fl = "setf (setf (pmb_flags (working_set s a)) (run_mark (h_step s))) HGET_PF"
  let ?u = "(upd_pmb a (\<lambda>b. b\<lparr>pmb_flags := setf (setf (pmb_flags b) (run_mark (h_step s))) HGET_PF\<rparr>) s1)\<lparr>mem := ?m\<rparr>"
  have "check_vaddr_2 p root v rw s = cv2_kernel p (tsc s (tsc_n s)) a (entry_addr (pt_of root s v) (I386_VM_PTE v)) (pte_of root s v) rw s1"
    using check_vaddr_2_reaches_page [OF nof ws h ok, of rw] find_page [OF ws a] fr by (simp add: s1_def)
  also have "\<dots> = cv2_return p (tsc s (tsc_n s)) OK K_HANDLE_PF ?u"
    using cv2_kernel_run [of s1 a] s1 h nf by (simp add: pmb_is_def)
  finally obtain t where t: "check_vaddr_2 p root v rw s = Inr ((OK, K_HANDLE_PF), t)" "mem t = ?m"
    "working_set t = working_set ?u" "pagefault_addr_1 t = pagefault_addr_1 s1" "pagefault_addr_2 t = pagefault_addr_2 s1"
    by (auto simp: cv2_return_def read_tsc_64_def upd_proc_def upd_pmb_def)
  have root: "page_aligned root" "pt_of root s v \<noteq> root"
    using layout_block [OF l a(1)] pte_same_page [OF a(2)] by (auto simp: block_ok_def)
  have fra: "same_frame (mem t) f (mem s) f" if "page_aligned f" "f \<noteq> pt_of root s v" for f
    unfolding t(2) using that by (intro set32_frame) (simp_all add: PTE_less)
  have "pde_of root t v = pde_of root s v"
    unfolding pde_of_def using fra [OF root(1)] root(2) get32_frame_cong PDE_less by metis
  then have pt: "pt_of root t v = pt_of root s v" by (simp add: pt_of_def)
  have pte: "pte_of root t v = ?x" unfolding pte_of_def pt t(2) by simp
  have "page_aligned (run_frame (h_step s) (working_set s a))"
    using world_aligned [OF w a(1)] fr by (auto simp: run_frame_def)
  then have "I386_VM_PFA (pte_of root t v) = run_frame (h_step s) (working_set s a)" unfolding pte by (rule pfa_map_frame_w)
  moreover have "pmb_is a HGET_PF t" "pmb_is a (run_mark (h_step s)) t"
    using t(3) s1 by (simp_all add: pmb_is_def run_mark_def has_setf_same has_setf_other)
  ultimately show ?thesis using t fra pte h by (intro exI [of _ t]) (auto simp: s1_def)
qed

theorem check_vaddr_2_maps_copy_witness:
  "\<exists>t. check_vaddr_2 1 0x1000 0x3004 0 sample_state = Inr ((OK, K_HANDLE_PF), t) \<and> pmb_is 0 HGET_PF t"
  using check_vaddr_2_maps_copy [OF sample_world, of 0 "0x3004" 0]
  by (auto simp: pmb_page_def page_base_of_def I386_VM_PDE_def I386_VM_PTE_def check_pt_entry_def has_def pmb_is_def
      pde_of_def pte_of_def pt_of_def entry_addr_def sample_mem_def mem_get32_def mem_set32_def I386_VM_PFA_def)

text \<open>A fault on a page outside the working set is left to VM: memory and blocks stay as
  they are and the answer is \<open>VM_HANDLED_PF_ABS_WS\<close>, which ends the run.\<close>

theorem check_vaddr_2_outside_ws:
  assumes "no_faults s" "ws_list p s as" "h_step s = FIRST_RUN \<or> h_step s = SECOND_RUN"
    "check_pt_entry (pde_of root s v) = OK" "has (pte_of root s v) I386_VM_PRESENT"
    "page_base_of v \<notin> pmb_page s ` set as"
  shows "\<exists>t. check_vaddr_2 p root v rw s = Inr ((VM_HANDLED_PF_ABS_WS, rw), t) \<and> mem t = mem s \<and> working_set t = working_set s"
proof -
  have "find (\<lambda>a. pmb_page s a = page_base_of v) as = None" using assms(6) by (auto simp: find_None_iff image_iff)
  then show ?thesis using check_vaddr_2_reaches_page [OF assms(1-5), of rw]
    by (auto simp: cv2_return_def read_tsc_64_def upd_proc_def)
qed

theorem check_vaddr_2_outside_ws_witness:
  "\<exists>t. check_vaddr_2 2 0x1000 0x3000 0 sample_state = Inr ((VM_HANDLED_PF_ABS_WS, 0), t)"
proof -
  have "ws_list 2 sample_state []" by (simp add: ws_list_def sample_state_def bss_state_def zero_proc_def)
  then show ?thesis using check_vaddr_2_outside_ws [of sample_state 2 "[]" "0x1000" "0x3000" 0]
    by (auto simp: no_faults_def check_pt_entry_def has_def)
qed

end
