(* ===== verification/Isolation.thy ===== *)
theory Isolation
  imports Run_Start
begin

text \<open>
  Isolation as an invariant of page views: the entries the kernel writes for a run keep
  the access bits of the page, and what every start and end of a run keeps of them.
\<close>

lemma world_frames_aligned: "page_world p root as s \<Longrightarrow> a \<in> set as \<Longrightarrow> f \<in> frames_of (working_set s a) \<Longrightarrow> page_aligned f"
  by (auto simp: page_world_def layout_def block_ok_def)

section \<open>Entries of the pages of a run\<close>

text \<open>An ordinary user page: present, accessible, neither global nor a big page.\<close>

definition tame :: "u32 \<Rightarrow> bool" where
  "tame x \<longleftrightarrow> has x I386_VM_PRESENT \<and> has x I386_VM_USER \<and> \<not> has x I386_VM_GLOBAL \<and> \<not> has x I386_VM_BIGPAGE"

lemma tame_check: "tame x \<Longrightarrow> check_pt_entry x = OK \<longleftrightarrow> has x I386_VM_WRITE"
  by (simp add: tame_def check_pt_entry_def)

lemma map_frame_has:
  assumes "page_aligned f" "m AND 0xFFF = m"
  shows "has (map_frame x f) m = has x m"
proof -
  have sw: "(y AND 0xFFF) AND m = y AND m" for y using assms(2) by (metis and.assoc and.commute)
  have "f AND m = (f AND 0xFFF) AND m" using sw by simp
  then have "f AND m = 0" using assms(1) by (simp add: page_aligned_def)
  then have "map_frame x f AND m = x AND m" using sw by (simp add: map_frame_def bit.conj_disj_distrib2)
  then show ?thesis by (simp add: has_def)
qed

lemma tame_map: "page_aligned f \<Longrightarrow> tame (map_frame x f) = tame x" "page_aligned f \<Longrightarrow> tame (map_frame_w x f) = tame x"
  by (simp_all add: tame_def map_frame_has map_frame_w_setf has_setf_other)

lemma tame_bits: "tame (clrf x I386_VM_WRITE) = tame x" "tame (clrf x I386_VM_DIRTY) = tame x" "tame (setf x I386_VM_DIRTY) = tame x"
  "tame (setf x 0x20) = tame x"
  by (simp_all add: tame_def has_clrf_other has_setf_other)

text \<open>The accessed and dirty bits the processor may set in an entry.\<close>

definition hw_bits :: "u32 \<Rightarrow> u32 \<Rightarrow> bool" where
  "hw_bits x y \<longleftrightarrow> y \<in> {x, setf x 0x20, setf x I386_VM_DIRTY, setf (setf x 0x20) I386_VM_DIRTY}"

lemma hw_bits_keep:
  assumes "hw_bits x y" shows "tame y = tame x" "has y I386_VM_WRITE = has x I386_VM_WRITE" "I386_VM_PFA y = I386_VM_PFA x"
proof -
  have p: "I386_VM_PFA (setf z m) = I386_VM_PFA z" if "I386_VM_ADDR_MASK AND m = 0" for z m
  proof -
    have "m AND I386_VM_ADDR_MASK = 0" using that by (simp only: and.commute)
    then show ?thesis by (simp add: I386_VM_PFA_def setf_def bit.conj_disj_distrib2)
  qed
  show "tame y = tame x" "has y I386_VM_WRITE = has x I386_VM_WRITE"
    using assms by (auto simp: hw_bits_def tame_bits has_setf_other)
  show "I386_VM_PFA y = I386_VM_PFA x" using assms by (auto simp: hw_bits_def p)
qed

lemma tame_run:
  assumes "us0 b \<noteq> MAP_NONE" "\<And>f. f \<in> frames_of b \<Longrightarrow> page_aligned f"
  shows "tame (final_pte b (run_pte step b x)) = tame x"
proof -
  have f: "page_aligned (us0 b)" "us1 b \<noteq> MAP_NONE \<Longrightarrow> page_aligned (us1 b)" "us2 b \<noteq> MAP_NONE \<Longrightarrow> page_aligned (us2 b)"
    using assms by (auto simp: frames_of_def)
  have "tame (run_pte step b x) = tame x"
    using f by (cases "step = FIRST_RUN") (simp_all add: run_pte_def tame_map tame_bits)
  then show ?thesis using f(1) by (simp add: final_pte_def tame_map tame_bits)
qed


text \<open>
  \<open>iso_view step v\<close>: in run \<open>step\<close> a page the process may write is the frame of that run,
  never the committed one. \<open>iso_pre\<close> is what the start of a run needs to establish it.
\<close>

definition iso_pre :: "page_view \<Rightarrow> bool" where
  "iso_pre v \<longleftrightarrow> no_half_marked (pv_b v) \<and> check_pt_entry (pv_pde v) = OK \<and> tame (pv_pte v)"

definition iso_view :: "int \<Rightarrow> page_view \<Rightarrow> bool" where
  "iso_view step v \<longleftrightarrow> iso_pre v \<and>
     (has (pv_pte v) I386_VM_WRITE \<longrightarrow>
        I386_VM_PFA (pv_pte v) = run_frame step (pv_b v) \<and> I386_VM_PFA (pv_pte v) \<noteq> us0 (pv_b v) \<and>
        run_frame step (pv_b v) \<noteq> MAP_NONE)"

definition frames_ok :: "pram_mem_block \<Rightarrow> bool" where
  "frames_ok b \<longleftrightarrow> us0 b \<noteq> MAP_NONE \<and> (\<forall>f \<in> frames_of b. page_aligned f) \<and>
     (us1 b \<noteq> MAP_NONE \<longrightarrow> us1 b \<noteq> us0 b) \<and> (us2 b \<noteq> MAP_NONE \<longrightarrow> us2 b \<noteq> us0 b)"

lemma frames_ok_world:
  assumes "page_world p root as s" "a \<in> set as" "us0 (working_set s a) \<noteq> MAP_NONE"
  shows "frames_ok (pv_b (view root s a))"
  using assms world_aligned(4,5) [OF assms(1,2)] world_frames_aligned [OF assms(1,2)] by (auto simp: frames_ok_def view_sel)

lemma frames_ok_flags [simp]: "frames_ok (b\<lparr>pmb_flags := fl\<rparr>) = frames_ok b"
  by (simp add: frames_ok_def frames_of_def)

lemma half_marked_flags:
  "no_half_marked b \<Longrightarrow> (has fl IWS_PF_FIRST \<Longrightarrow> has (pmb_flags b) IWS_PF_FIRST \<or> has (pmb_flags b) IWS_MOD_KERNEL) \<Longrightarrow>
     (has fl IWS_MOD_KERNEL \<Longrightarrow> has (pmb_flags b) IWS_MOD_KERNEL) \<Longrightarrow> no_half_marked (b\<lparr>pmb_flags := fl\<rparr>)"
  by (auto simp: no_half_marked_def)

lemma iso_start:
  assumes v: "iso_pre v" and f: "frames_ok (pv_b v)"
  shows "iso_view step (start_view step v)"
proof -
  let ?b = "pv_b v" let ?c = "?b\<lparr>pmb_flags := clrf (pmb_flags ?b) H_TO_UPDATE\<rparr>"
  have al: "us0 b \<noteq> MAP_NONE" "\<And>f. f \<in> frames_of b \<Longrightarrow> page_aligned f" "page_aligned (us0 b)"
    "us1 b \<noteq> MAP_NONE \<Longrightarrow> page_aligned (us1 b) \<and> us1 b \<noteq> us0 b" "us2 b \<noteq> MAP_NONE \<Longrightarrow> page_aligned (us2 b) \<and> us2 b \<noteq> us0 b"
    if "frames_ok b" for b using that by (auto simp: frames_ok_def frames_of_def)
  have nh: "no_half_marked ?b" "no_half_marked ?c" using v by (auto simp: iso_pre_def no_half_marked_def has_clrf_other)
  have iso: "iso_view step (w\<lparr>pv_pte := final_pte (pv_b w) (run_pte step (pv_b w) x)\<rparr>)"
    if w: "frames_ok (pv_b w)" "no_half_marked (pv_b w)" "check_pt_entry (pv_pde w) = OK" "tame x" for w x
    using run_entry_isolated [OF al(3-5) [OF w(1)] w(2), of step x] tame_run [OF al(1,2) [OF w(1)], of step x]
      run_entry_missing [of step "pv_b w" x] al(3) [OF w(1)] w
    by (auto simp: iso_view_def iso_pre_def run_frame_def)
  show ?thesis
  proof (cases "check_pt_entry (pv_pte v) = OK")
    case False
    then have "\<not> has (pv_pte v) I386_VM_WRITE" using v tame_check by (auto simp: iso_pre_def)
    with False v show ?thesis by (simp add: start_view_def iso_view_def)
  next
    case True
    let ?w = "if start_updates v then v\<lparr>pv_1 := pv_0 v, pv_2 := pv_0 v, pv_pte := clrf (pv_pte v) I386_VM_DIRTY, pv_b := ?c\<rparr> else v"
    have "start_view step v = ?w\<lparr>pv_pte := final_pte (pv_b ?w) (run_pte step (pv_b ?w) (pv_pte ?w))\<rparr>"
      using True v by (simp add: start_view_def iso_pre_def Let_def)
    also have "iso_view step \<dots>"
      by (rule iso) (use v f nh in \<open>auto simp: iso_pre_def tame_bits\<close>)
    finally show ?thesis .
  qed
qed

lemma iso_pre_ends:
  assumes v: "iso_pre v" and f: "page_aligned (us0 (pv_b v))"
  shows "iso_pre (rollback_view v)" "iso_pre (first_view v)"
proof -
  have "no_half_marked (pv_b (rollback_view v))"
    using v by (auto simp: rollback_view_def iso_pre_def clear_run_flags_def Let_def no_half_marked_def has_clrf_other has_clrf_same)
  moreover have "tame (pv_pte (rollback_view v))" "pv_pde (rollback_view v) = pv_pde v"
    using v f by (auto simp: rollback_view_def iso_pre_def tame_map clear_run_flags_def Let_def)
  ultimately show "iso_pre (rollback_view v)" using v by (simp add: iso_pre_def)
  have "no_half_marked (pv_b (first_view v))"
    using v by (auto simp: first_view_def iso_pre_def mark_kernel_def has_setf_other has_clrf_other intro!: half_marked_flags)
  then show "iso_pre (first_view v)" using v by (simp add: iso_pre_def first_view_def tame_bits)
qed

end
