(* ===== verification/Element.thy ===== *)
theory Element
  imports Dwc Isolation
begin

text \<open>
  The life of a processing element. \<open>pe_running\<close> is the invariant of the kernel state
  while an element runs; the section on the comparison characterises \<open>cmp_mem\<close>, and
  the transitions of the element (start, end of the first run, agreement, disagreement)
  are derived from the refinement of the page layer to views.
\<close>

section \<open>The comparison of memory\<close>

text \<open>The two runs agree on a page: it is outside the final working set, a copy is missing, or the copies are equal.\<close>

definition page_agrees :: "kstate \<Rightarrow> nat \<Rightarrow> bool" where
  "page_agrees s a \<longleftrightarrow>
     (let b = working_set s a
      in us1 b = MAP_NONE \<or> us2 b = MAP_NONE \<or> \<not> pmb_is a FWS s \<or> same_frame (mem s) (us2 b) (mem s) (us1 b))"

text \<open>The comparison changes nothing but the final-working-set marks and its own accounts.\<close>

definition only_fws :: "int \<Rightarrow> kstate \<Rightarrow> kstate \<Rightarrow> bool" where
  "only_fws p s t \<longleftrightarrow> quiet p s t \<and> mem t = mem s \<and>
     (\<forall>a. working_set t a = working_set s a \<or>
          working_set t a = (working_set s a)\<lparr>pmb_flags := clrf (pmb_flags (working_set s a)) FWS\<rparr>)"

lemma only_fws_refl [simp]: "only_fws p s s"
  by (simp add: only_fws_def)

lemma clrf_clrf: "clrf (clrf x m) m = clrf x m"
  by (simp add: clrf_def and.assoc)

lemma only_fws_trans: "only_fws p s t \<Longrightarrow> only_fws p t u \<Longrightarrow> only_fws p s u"
proof -
  assume st: "only_fws p s t" and tu: "only_fws p t u"
  have "working_set u a = working_set s a \<or>
      working_set u a = (working_set s a)\<lparr>pmb_flags := clrf (pmb_flags (working_set s a)) FWS\<rparr>" for a
  proof -
    have "working_set t a = working_set s a \<or>
      working_set t a = (working_set s a)\<lparr>pmb_flags := clrf (pmb_flags (working_set s a)) FWS\<rparr>"
      using st by (simp add: only_fws_def)
    moreover have "working_set u a = working_set t a \<or>
      working_set u a = (working_set t a)\<lparr>pmb_flags := clrf (pmb_flags (working_set t a)) FWS\<rparr>"
      using tu by (simp add: only_fws_def)
    ultimately show ?thesis by (elim disjE) (simp_all add: clrf_clrf)
  qed
  with st tu quiet_trans [of p s t u] show ?thesis by (simp add: only_fws_def)
qed

lemma cmp_block_ok:
  "cmp_block p a s = (r, t) \<Longrightarrow> only_fws p s t \<and> (r = None \<longleftrightarrow> page_agrees s a) \<and> r \<noteq> Some OK \<and>
     (\<forall>c. c \<noteq> a \<longrightarrow> working_set t c = working_set s c)"
  by (auto simp: cmp_block_def page_agrees_def cmp_frames_iff only_fws_def quiet_def unaccounted_def pmb_clr_def
      upd_pmb_def upd_proc_def Let_def split: if_splits)

lemma only_fws_nx: "only_fws p s t \<Longrightarrow> pmb_nx t = pmb_nx s"
proof
  fix a assume "only_fws p s t"
  then have "working_set t a = working_set s a \<or>
      working_set t a = (working_set s a)\<lparr>pmb_flags := clrf (pmb_flags (working_set s a)) FWS\<rparr>"
    by (simp add: only_fws_def)
  then show "pmb_nx t a = pmb_nx s a" by (auto simp: pmb_nx_def)
qed

lemma cmp_loop:
  assumes "chain (pmb_nx s) q as"
  shows "\<exists>r t. for_chain pmb_nx (\<lambda>a s. Inr (cmp_block p a s)) q s = Inr (r, t) \<and> only_fws p s t \<and>
    (r = None \<longleftrightarrow> (\<forall>a \<in> set as. page_agrees s a)) \<and> r \<noteq> Some OK"
  using assms
proof (induction as arbitrary: q s)
  case Nil
  then show ?case by simp
next
  case (Cons a as)
  obtain r t where rt: "cmp_block p a s = (r, t)" by fastforce
  note b = cmp_block_ok [OF rt]
  show ?case
  proof (cases r)
    case (Some v)
    with rt b Cons.prems show ?thesis by (auto simp: for_chain_Some)
  next
    case None
    have d: "distinct (a # as)" using Cons.prems by (rule chain_distinct)
    have "mem t = mem s" using b by (simp add: only_fws_def)
    then have ag: "page_agrees t c = page_agrees s c" if "c \<in> set as" for c
      using b that d by (auto simp: page_agrees_def pmb_is_def)
    have "chain (pmb_nx t) (pmb_nx s a) as" using Cons.prems only_fws_nx b by auto
    from Cons.IH [OF this] obtain r' u where "for_chain pmb_nx (\<lambda>a s. Inr (cmp_block p a s)) (pmb_nx s a) t = Inr (r', u)"
      "only_fws p t u" "r' = None \<longleftrightarrow> (\<forall>a \<in> set as. page_agrees t a)" "r' \<noteq> Some OK" by blast
    with rt None b ag Cons.prems only_fws_nx [of p s t] show ?thesis
      by (auto simp: for_chain_Some intro: only_fws_trans)
  qed
qed

lemma only_fws_account: "only_fws p s (upd_proc p (\<lambda>q. q\<lparr>p_workingset_size := n\<rparr>) (s\<lparr>tsc_n := k\<rparr>))"
  "only_fws p s (cmp_account p start s)"
  by (simp_all add: only_fws_def quiet_def unaccounted_def upd_proc_def cmp_account_def read_tsc_64_def)

lemma cmp_mem_ok:
  assumes "ws_list p s as"
  shows "\<exists>r t. cmp_mem p s = Inr (r, t) \<and> only_fws p s t \<and> (r = OK \<longleftrightarrow> (\<forall>a \<in> set as. page_agrees s a))"
proof (cases "as = []")
  case True
  then have "p_lus1_us2_size (procs s p) \<le> 0" using assms by (simp add: ws_list_def)
  moreover have "only_fws p s (cmp_account p (tsc s (tsc_n s)) (s\<lparr>tsc_n := Suc (tsc_n s)\<rparr>))"
    by (simp add: only_fws_def quiet_def unaccounted_def upd_proc_def cmp_account_def read_tsc_64_def)
  ultimately show ?thesis using True by (simp add: cmp_mem_def read_tsc_64_def)
next
  case False
  let ?s = "upd_proc p (\<lambda>q. q\<lparr>p_workingset_size := 0\<rparr>) (s\<lparr>tsc_n := Suc (tsc_n s)\<rparr>)"
  have sz: "\<not> p_lus1_us2_size (procs s p) \<le> 0" using assms False by (simp add: ws_list_def)
  have "pmb_nx ?s = pmb_nx s" by (rule only_fws_nx [of p], rule only_fws_account)
  then have "chain (pmb_nx ?s) (p_lus1_us2 (procs s p)) as" using assms by (simp add: ws_list_def)
  from cmp_loop [OF this, of p] obtain r t where
    t: "for_chain pmb_nx (\<lambda>a s. Inr (cmp_block p a s)) (p_lus1_us2 (procs s p)) ?s = Inr (r, t)"
      "only_fws p ?s t" "r = None \<longleftrightarrow> (\<forall>a \<in> set as. page_agrees ?s a)" "r \<noteq> Some OK" by blast
  have "page_agrees ?s a = page_agrees s a" for a by (simp add: page_agrees_def pmb_is_def)
  moreover have "only_fws p s (cmp_account p (tsc s (tsc_n s)) t)"
    by (rule only_fws_trans [OF only_fws_account(1) only_fws_trans [OF t(2) only_fws_account(2)]])
  ultimately show ?thesis using t sz by (cases r) (simp_all add: cmp_mem_def read_tsc_64_def)
qed

text \<open>Two blocks that differ in their flags at most.\<close>

lemma same_flags_trans:
  assumes "b\<lparr>pmb_flags := pmb_flags c\<rparr> = c" "c\<lparr>pmb_flags := pmb_flags d\<rparr> = d"
  shows "b\<lparr>pmb_flags := pmb_flags d\<rparr> = d"
proof -
  have "b\<lparr>pmb_flags := pmb_flags d\<rparr> = (b\<lparr>pmb_flags := pmb_flags c\<rparr>)\<lparr>pmb_flags := pmb_flags d\<rparr>" by simp
  then show ?thesis using assms by simp
qed

section \<open>A processing element in progress\<close>

text \<open>
  The state of the kernel while the element of process \<open>p\<close> runs, with the page directory
  \<open>root\<close> and the working set \<open>as\<close>: the hardening is enabled for \<open>p\<close>, the saved start of
  the element is runnable and has a known trap style, and every page is backed by a
  committed frame. Sharing, pending memory events and fault injection are off.
\<close>

definition trap_known :: "int \<Rightarrow> bool" where
  "trap_known style \<longleftrightarrow> style \<in> {KTS_SYSENTER, KTS_SYSCALL, KTS_INT_HARD, KTS_INT_UM, KTS_FULLCONTEXT, KTS_INT_ORIG}"

definition backed :: "u32 \<Rightarrow> kstate \<Rightarrow> nat \<Rightarrow> bool" where
  "backed root s a \<longleftrightarrow> us0 (working_set s a) \<noteq> MAP_NONE \<and> 0 \<notin> frames_of (working_set s a) \<and>
     I386_VM_PFA (pte_of root s (pmb_vaddr (working_set s a))) \<noteq> 0"

definition pe_proc :: "int \<Rightarrow> u32 \<Rightarrow> kstate \<Rightarrow> bool" where
  "pe_proc p root s \<longleftrightarrow>
     (let q = procs s p
      in p_cr3 q = root \<and> root \<noteq> 0 \<and> p_nr q \<noteq> VM_PROC_NR \<and> \<not> has (p_hflags q) PROC_SHARING_MEM \<and>
         p_nb_hardening_mem_events q \<le> 0 \<and> vm_should_run s = 0 \<and> h_inject_fault s = 0)"

definition pe_running :: "int \<Rightarrow> u32 \<Rightarrow> nat list \<Rightarrow> kstate \<Rightarrow> bool" where
  "pe_running p root as s \<longleftrightarrow>
     pe_proc p root s \<and> page_world p root as s \<and> (\<forall>a \<in> set as. backed root s a) \<and>
     h_enable s = H_ENABLE \<and> h_proc_nr s = p_nr (procs s p) \<and>
     z_rts_flags (copy_0 s) = 0 \<and> trap_known (z_kern_trap_style (copy_0 s))"

lemma backed_start: "backed root s a \<Longrightarrow> start_pre (view root s a)"
  by (simp add: backed_def start_pre_def view_sel)

lemma run_entry_nonzero:
  assumes "\<And>f. f \<in> frames_of b \<Longrightarrow> page_aligned f" "0 \<notin> frames_of b" "us0 b \<noteq> MAP_NONE" "I386_VM_PFA x \<noteq> 0"
  shows "I386_VM_PFA (final_pte b (run_pte step b x)) \<noteq> 0"
proof -
  have f: "us0 b \<noteq> 0 \<and> page_aligned (us0 b)" "us1 b \<noteq> MAP_NONE \<Longrightarrow> us1 b \<noteq> 0 \<and> page_aligned (us1 b)"
    "us2 b \<noteq> MAP_NONE \<Longrightarrow> us2 b \<noteq> 0 \<and> page_aligned (us2 b)"
    using assms by (auto simp: frames_of_def)
  have "I386_VM_PFA (run_pte step b x) \<noteq> 0"
    using f(2,3) assms(4) by (cases "step = FIRST_RUN") (simp_all add: run_pte_def pfa_clrf pfa_map_frame)
  then show ?thesis using f(1) by (simp add: final_pte_def pfa_clrf pfa_map_frame)
qed

text \<open>The five transitions on views keep a page backed.\<close>

lemma backed_step:
  assumes w: "page_world p root as s" "a \<in> set as" and bk: "backed root s a"
    and b: "(working_set t a)\<lparr>pmb_flags := pmb_flags (working_set s a)\<rparr> = working_set s a"
    and pfa: "I386_VM_PFA (pv_pte (view root t a)) \<noteq> 0"
  shows "backed root t a"
  using bk pfa by (auto simp: backed_def same_block [OF b] view_sel frames_of_def)

lemma backed_start_view:
  assumes w: "page_world p root as s" "a \<in> set as" and bk: "backed root s a"
    and b: "(working_set t a)\<lparr>pmb_flags := pmb_flags (working_set s a)\<rparr> = working_set s a"
    and v: "view root t a = start_view step (view root s a)"
  shows "backed root t a"
proof (rule backed_step [OF w bk b])
  let ?b = "working_set s a"
  have fr: "frames_of (?b\<lparr>pmb_flags := fl\<rparr>) = frames_of ?b" for fl
    by (simp add: frames_of_def)
  have e: "I386_VM_PFA (final_pte (?b\<lparr>pmb_flags := fl\<rparr>) (run_pte step (?b\<lparr>pmb_flags := fl\<rparr>) x)) \<noteq> 0"
    if "I386_VM_PFA x \<noteq> 0" for fl x
    by (rule run_entry_nonzero) (use that bk world_frames_aligned [OF w] in \<open>auto simp: fr backed_def\<close>)
  have e': "I386_VM_PFA (final_pte ?b (run_pte step ?b x)) \<noteq> 0" if "I386_VM_PFA x \<noteq> 0" for x
    using e [OF that, of "pmb_flags ?b"] by simp
  show "I386_VM_PFA (pv_pte (view root t a)) \<noteq> 0"
    using bk e e' unfolding v start_view_def Let_def by (simp add: view_sel backed_def pfa_clrf)
qed

lemma backed_rollback:
  assumes w: "page_world p root as s" "a \<in> set as" and bk: "backed root s a"
    and b: "(working_set t a)\<lparr>pmb_flags := pmb_flags (working_set s a)\<rparr> = working_set s a"
    and v: "view root t a = rollback_view (view root s a)"
  shows "backed root t a"
proof (rule backed_step [OF w bk b])
  have "us0 (working_set s a) \<noteq> 0" "us0 (working_set s a) \<noteq> MAP_NONE" using bk by (auto simp: backed_def frames_of_def)
  then show "I386_VM_PFA (pv_pte (view root t a)) \<noteq> 0"
    using bk world_aligned(1) [OF w] unfolding v
    by (auto simp: rollback_view_def view_sel backed_def Let_def pfa_map_frame_w clear_run_flags_def)
qed

lemma backed_first:
  assumes w: "page_world p root as s" "a \<in> set as" and bk: "backed root s a"
    and b: "(working_set t a)\<lparr>pmb_flags := pmb_flags (working_set s a)\<rparr> = working_set s a"
    and v: "view root t a = first_view (view root s a)"
  shows "backed root t a"
proof (rule backed_step [OF w bk b])
  show "I386_VM_PFA (pv_pte (view root t a)) \<noteq> 0"
    using bk unfolding v by (auto simp: first_view_def view_sel backed_def pfa_clrf)
qed

text \<open>The way to user mode with a restore pending: the element restarts from its saved start.\<close>

lemma restore_copy_0_sel:
  "procs (restore_copy_0 p s) = (procs s)(p := (procs s p)\<lparr>p_reg := move_regs (z_reg (copy_0 s)) (p_reg (procs s p)),
      p_cpu_time_left := z_cpu_time_left (copy_0 s), p_kern_trap_style := z_kern_trap_style (copy_0 s),
      p_rts_flags := z_rts_flags (copy_0 s)\<rparr>)"
  "mem (restore_copy_0 p s) = mem s" "working_set (restore_copy_0 p s) = working_set s"
  "rd_fault (restore_copy_0 p s) = rd_fault s" "wr_fault (restore_copy_0 p s) = wr_fault s"
  by (simp_all add: restore_copy_0_def upd_proc_def Let_def)

lemma restored_proc:
  "upd_proc p (\<lambda>r. r\<lparr>p_lus1_us2 := p_lus1_us2 (procs s p), p_lus1_us2_size := p_lus1_us2_size (procs s p)\<rparr>) (restore_copy_0 p s)
   = restore_copy_0 p s"
  by (simp add: restore_copy_0_def upd_proc_def Let_def)

text \<open>What restarting an element makes of the state \<open>s\<close>.\<close>

definition restarted :: "int \<Rightarrow> int \<Rightarrow> kstate \<Rightarrow> kstate \<Rightarrow> bool" where
  "restarted p step s t \<longleftrightarrow>
     h_step t = step \<and> h_restore t = 0 \<and> h_enable t = h_enable s \<and> h_proc_nr t = h_proc_nr s \<and>
     p_reg (procs t p) = move_regs (z_reg (copy_0 s)) (p_reg (procs s p)) \<and> p_rts_flags (procs t p) = z_rts_flags (copy_0 s) \<and>
     copy_0 t = copy_0 s \<and> copy_1 t = copy_1 s \<and> nbpe_f t = nbpe_f s \<and> nbpe t = nbpe s \<and> origin_syscall t = origin_syscall s"

text \<open>Programming the retirement counter leaves everything else alone.\<close>

definition uncounted :: "proc \<Rightarrow> proc" where
  "uncounted q = q\<lparr>p_start_count_ins := 0, p_ins_last := 0, p_remaining_ins := 0\<rparr>"

definition counted :: "int \<Rightarrow> kstate \<Rightarrow> kstate \<Rightarrow> bool" where
  "counted p s t \<longleftrightarrow>
     t\<lparr>msr := msr s, ins_ctr_switch := ins_ctr_switch s, procs := procs s\<rparr> = s \<and>
     (\<forall>q. q \<noteq> p \<longrightarrow> procs t q = procs s q) \<and> uncounted (procs t p) = uncounted (procs s p)"

lemma counted_trans:
  assumes "counted p s t" "counted p t u" shows "counted p s u"
proof -
  have "u\<lparr>msr := msr s, ins_ctr_switch := ins_ctr_switch s, procs := procs s\<rparr> =
      (u\<lparr>msr := msr t, ins_ctr_switch := ins_ctr_switch t, procs := procs t\<rparr>)
        \<lparr>msr := msr s, ins_ctr_switch := ins_ctr_switch s, procs := procs s\<rparr>" by simp
  also have "\<dots> = s" using assms by (simp add: counted_def)
  finally show ?thesis using assms by (auto simp: counted_def)
qed

lemmas counter_defs = set_remain_ins_counter_value_0_def get_remain_ins_counter_value_0_def update_ins_ctr_switch_def
  set_remain_ins_counter_value_1_def get_remain_ins_counter_value_def enable_counter_def
  intel_arch_insn_counter_enable_def ia32_msr_write_def

lemma counted_ops:
  "counted p s (set_remain_ins_counter_value_0 p s)" "counted p s (set_remain_ins_counter_value_1 p s)"
  "counted p s (get_remain_ins_counter_value p s)" "counted p s (enable_counter s)"
  by (simp_all add: counted_def uncounted_def counter_defs upd_proc_def Let_def)

lemma counted_sel:
  assumes "counted p s t"
  shows "h_enable t = h_enable s" "h_step t = h_step s" "h_proc_nr t = h_proc_nr s" "h_restore t = h_restore s"
    "copy_0 t = copy_0 s" "copy_1 t = copy_1 s" "copy_2 t = copy_2 s" "origin_syscall t = origin_syscall s"
    "vm_should_run t = vm_should_run s" "nbpe_f t = nbpe_f s" "nbpe t = nbpe s" "h_inject_fault t = h_inject_fault s"
    "mem t = mem s" "working_set t = working_set s" "rd_fault t = rd_fault s" "wr_fault t = wr_fault s"
    "first_run_ins t = first_run_ins s" "secnd_run_ins t = secnd_run_ins s" "proc_ptr t = proc_ptr s"
    "entry t = entry s" "cr0 t = cr0 s" "cr2 t = cr2 s" "cr3 t = cr3 s" "cr4 t = cr4 s"
    "pagefault_addr_1 t = pagefault_addr_1 s" "pagefault_addr_2 t = pagefault_addr_2 s"
proof -
  have e: "s = t\<lparr>msr := msr s, ins_ctr_switch := ins_ctr_switch s, procs := procs s\<rparr>"
    using assms by (simp add: counted_def)
  show "h_enable t = h_enable s" by (subst e) simp
  show "h_step t = h_step s" by (subst e) simp
  show "h_proc_nr t = h_proc_nr s" by (subst e) simp
  show "h_restore t = h_restore s" by (subst e) simp
  show "copy_0 t = copy_0 s" by (subst e) simp
  show "copy_1 t = copy_1 s" by (subst e) simp
  show "copy_2 t = copy_2 s" by (subst e) simp
  show "origin_syscall t = origin_syscall s" by (subst e) simp
  show "vm_should_run t = vm_should_run s" by (subst e) simp
  show "nbpe_f t = nbpe_f s" by (subst e) simp
  show "nbpe t = nbpe s" by (subst e) simp
  show "h_inject_fault t = h_inject_fault s" by (subst e) simp
  show "mem t = mem s" by (subst e) simp
  show "working_set t = working_set s" by (subst e) simp
  show "rd_fault t = rd_fault s" by (subst e) simp
  show "wr_fault t = wr_fault s" by (subst e) simp
  show "first_run_ins t = first_run_ins s" by (subst e) simp
  show "secnd_run_ins t = secnd_run_ins s" by (subst e) simp
  show "proc_ptr t = proc_ptr s" by (subst e) simp
  show "entry t = entry s" by (subst e) simp
  show "cr0 t = cr0 s" by (subst e) simp
  show "cr2 t = cr2 s" by (subst e) simp
  show "cr3 t = cr3 s" by (subst e) simp
  show "cr4 t = cr4 s" by (subst e) simp
  show "pagefault_addr_1 t = pagefault_addr_1 s" by (subst e) simp
  show "pagefault_addr_2 t = pagefault_addr_2 s" by (subst e) simp
qed

lemma counted_proc:
  assumes "counted p s t"
  shows "p_reg (procs t q) = p_reg (procs s q)" "p_nr (procs t q) = p_nr (procs s q)" "p_cr3 (procs t q) = p_cr3 (procs s q)"
    "p_hflags (procs t q) = p_hflags (procs s q)" "p_rts_flags (procs t q) = p_rts_flags (procs s q)"
    "p_kern_trap_style (procs t q) = p_kern_trap_style (procs s q)" "p_stats (procs t q) = p_stats (procs s q)"
    "p_nb_hardening_mem_events (procs t q) = p_nb_hardening_mem_events (procs s q)"
    "p_lus1_us2 (procs t q) = p_lus1_us2 (procs s q)" "p_lus1_us2_size (procs t q) = p_lus1_us2_size (procs s q)"
    "p_sig_delay (procs t q) = p_sig_delay (procs s q)"
proof -
  have "uncounted (procs t q) = uncounted (procs s q)" using assms by (cases "q = p") (auto simp: counted_def)
  note c = arg_cong [OF this [unfolded uncounted_def]]
  show "p_reg (procs t q) = p_reg (procs s q)" using c [of p_reg] by simp
  show "p_nr (procs t q) = p_nr (procs s q)" using c [of p_nr] by simp
  show "p_cr3 (procs t q) = p_cr3 (procs s q)" using c [of p_cr3] by simp
  show "p_hflags (procs t q) = p_hflags (procs s q)" using c [of p_hflags] by simp
  show "p_rts_flags (procs t q) = p_rts_flags (procs s q)" using c [of p_rts_flags] by simp
  show "p_kern_trap_style (procs t q) = p_kern_trap_style (procs s q)" using c [of p_kern_trap_style] by simp
  show "p_stats (procs t q) = p_stats (procs s q)" using c [of p_stats] by simp
  show "p_nb_hardening_mem_events (procs t q) = p_nb_hardening_mem_events (procs s q)" using c [of p_nb_hardening_mem_events] by simp
  show "p_lus1_us2 (procs t q) = p_lus1_us2 (procs s q)" using c [of p_lus1_us2] by simp
  show "p_lus1_us2_size (procs t q) = p_lus1_us2_size (procs s q)" using c [of p_lus1_us2_size] by simp
  show "p_sig_delay (procs t q) = p_sig_delay (procs s q)" using c [of p_sig_delay] by simp
qed

text \<open>\<open>pe_running\<close> depends on these parts of the state only.\<close>

lemma pe_running_cong:
  assumes "mem t = mem s" "working_set t = working_set s" "rd_fault t = rd_fault s" "wr_fault t = wr_fault s"
    "p_lus1_us2 (procs t p) = p_lus1_us2 (procs s p)" "p_lus1_us2_size (procs t p) = p_lus1_us2_size (procs s p)"
    "p_cr3 (procs t p) = p_cr3 (procs s p)" "p_nr (procs t p) = p_nr (procs s p)" "p_hflags (procs t p) = p_hflags (procs s p)"
    "p_nb_hardening_mem_events (procs t p) = p_nb_hardening_mem_events (procs s p)"
    "vm_should_run t = vm_should_run s" "h_inject_fault t = h_inject_fault s" "h_enable t = h_enable s"
    "h_proc_nr t = h_proc_nr s" "copy_0 t = copy_0 s"
  shows "pe_running p root as t = pe_running p root as s"
proof -
  have "pte_of root t = pte_of root s" by (rule ext) (simp add: pte_of_def pt_of_def pde_of_def assms)
  then show ?thesis
    using assms page_world_cong [of t s p root as] by (simp add: pe_running_def pe_proc_def backed_def Let_def)
qed

lemma pe_running_sel:
  assumes "pe_running p root as s"
  shows "page_world p root as s" "\<And>a. a \<in> set as \<Longrightarrow> backed root s a" "h_enable s = H_ENABLE"
    "h_proc_nr s = p_nr (procs s p)" "p_nr (procs s p) \<noteq> VM_PROC_NR" "p_cr3 (procs s p) = root" "root \<noteq> 0"
    "\<not> has (p_hflags (procs s p)) PROC_SHARING_MEM" "p_nb_hardening_mem_events (procs s p) \<le> 0"
    "vm_should_run s = 0" "h_inject_fault s = 0" "z_rts_flags (copy_0 s) = 0" "trap_known (z_kern_trap_style (copy_0 s))"
  using assms by (simp_all add: pe_running_def pe_proc_def Let_def)

lemma quiet_faults:
  assumes "quiet p s t" shows "rd_fault t = rd_fault s" "wr_fault t = wr_fault s" "proc_ptr t = proc_ptr s" "entry t = entry s"
proof -
  have e: "s = t\<lparr>mem := mem s, working_set := working_set s, tsc_n := tsc_n s, procs := procs s\<rparr>"
    using assms by (simp add: quiet_def)
  show "rd_fault t = rd_fault s" by (subst e) simp
  show "wr_fault t = wr_fault s" by (subst e) simp
  show "proc_ptr t = proc_ptr s" by (subst e) simp
  show "entry t = entry s" by (subst e) simp
qed

text \<open>A quiet step that keeps the pages well-formed and backed keeps the element running.\<close>

lemma pe_running_quiet:
  assumes r: "pe_running p root as s" and q: "quiet p s t" and w: "page_world p root as t"
    and b: "\<And>a. a \<in> set as \<Longrightarrow> backed root t a"
  shows "pe_running p root as t"
  using pe_running_sel [OF r] w b by (simp add: pe_running_def pe_proc_def quiet_sel [OF q] quiet_proc [OF q] Let_def)

lemma trap_known_user:
  "trap_known style \<Longrightarrow> style \<noteq> KTS_NONE"
  by (auto simp: trap_known_def)

lemma resume_user:
  assumes r: "pe_running p root as s" and h: "h_step s = FIRST_RUN \<or> h_step s = SECOND_RUN" and n: "h_restore s = 0"
    and k: "trap_known (p_kern_trap_style (procs s p))"
  defines "t \<equiv> enable_counter (set_remain_ins_counter_value_1 p s)"
  shows "restore_user_context p s = Inr (ToUser p, upd_proc p (\<lambda>q. q\<lparr>p_kern_trap_style := KTS_NONE\<rparr>) t)"
    and "counted p s t"
proof -
  note S = pe_running_sel [OF r]
  show c: "counted p s t" unfolding t_def using counted_ops counted_trans by blast
  have "start_dwc p s = Inr t"
    using S h n counted_sel [OF c] counted_proc [OF c]
    by (auto simp: start_dwc_def start_pe_def restart_pe_def guard_pe_def t_def Let_def kassert_def)
  then show "restore_user_context p s = Inr (ToUser p, upd_proc p (\<lambda>q. q\<lparr>p_kern_trap_style := KTS_NONE\<rparr>) t)"
    using k by (auto simp: restore_user_context_def Let_def counted_proc [OF c] trap_known_def)
qed

lemma restart_pages:
  fixes p step :: int and s :: kstate
  assumes r: "pe_running p root as s" and st: "step = FIRST_RUN \<or> step = SECOND_RUN"
  defines "s1 \<equiv> (restore_copy_0 p s)\<lparr>h_step := step\<rparr>"
  shows "\<exists>t. set_pe_mem_to_ro p root s1 = Inr (OK, t) \<and> quiet p s1 t \<and> pe_running p root as t \<and>
      (\<forall>a \<in> set as. view root t a = start_view step (view root s a)) \<and>
      (\<forall>a. (working_set t a)\<lparr>pmb_flags := pmb_flags (working_set s a)\<rparr> = working_set s a)"
proof -
  have eq: "mem s1 = mem s" "working_set s1 = working_set s" "h_step s1 = step"
    by (simp_all add: s1_def restore_copy_0_sel)
  have r1: "pe_running p root as s1"
    using r by (subst pe_running_cong [of _ s]) (simp_all add: s1_def restore_copy_0_def upd_proc_def Let_def)
  note S = pe_running_sel [OF r1]
  have v: "view root s1 a = view root s a" for a by (rule view_cong [OF eq(1,2)])
  obtain t where t: "set_pe_mem_to_ro p root s1 = Inr (OK, t)" "page_world p root as t" "quiet p s1 t"
      "\<forall>a \<in> set as. view root t a = start_view step (view root s1 a)"
      "\<forall>a. (working_set t a)\<lparr>pmb_flags := pmb_flags (working_set s1 a)\<rparr> = working_set s1 a"
    using set_ro_views [OF S(1,8,9)] st eq(3) backed_start [OF S(2)] by auto
  have "backed root t a" if "a \<in> set as" for a
    using backed_start_view [OF S(1) that S(2) [OF that]] t(4,5) that by blast
  then have "pe_running p root as t" using pe_running_quiet [OF r1 t(3,2)] by blast
  with t eq v show ?thesis by auto
qed

lemma resume:
  fixes p step :: int and s :: kstate
  assumes r: "pe_running p root as s"
    and rs: "h_restore s = RESTORE_FOR_SECOND_RUN \<and> step = SECOND_RUN \<or> h_restore s = RESTORE_FOR_FISRT_RUN \<and> step = FIRST_RUN"
  shows "\<exists>t. restore_user_context p s = Inr (ToUser p, t) \<and> pe_running p root as t \<and> restarted p step s t \<and>
      (\<forall>a \<in> set as. view root t a = start_view step (view root s a)) \<and>
      (\<forall>a. (working_set t a)\<lparr>pmb_flags := pmb_flags (working_set s a)\<rparr> = working_set s a)"
proof -
  have st: "step = FIRST_RUN \<or> step = SECOND_RUN" using rs by auto
  define s1 where "s1 = (restore_copy_0 p s)\<lparr>h_step := step\<rparr>"
  obtain t where t: "set_pe_mem_to_ro p root s1 = Inr (OK, t)" "quiet p s1 t" "pe_running p root as t"
      "\<forall>a \<in> set as. view root t a = start_view step (view root s a)"
      "\<forall>a. (working_set t a)\<lparr>pmb_flags := pmb_flags (working_set s a)\<rparr> = working_set s a"
    using restart_pages [OF r st] unfolding s1_def by blast
  define u where "u = set_remain_ins_counter_value_0 p (t\<lparr>h_restore := 0\<rparr>)"
  have c: "counted p (t\<lparr>h_restore := 0\<rparr>) u" unfolding u_def by (rule counted_ops)
  note S = pe_running_sel [OF r]
  have s1: "p_reg (procs s1 p) = move_regs (z_reg (copy_0 s)) (p_reg (procs s p))" "p_rts_flags (procs s1 p) = z_rts_flags (copy_0 s)"
    "p_kern_trap_style (procs s1 p) = z_kern_trap_style (copy_0 s)" "copy_0 s1 = copy_0 s" "copy_1 s1 = copy_1 s" "nbpe_f s1 = nbpe_f s"
    "nbpe s1 = nbpe s" "origin_syscall s1 = origin_syscall s" "h_step s1 = step" "h_enable s1 = h_enable s" "h_proc_nr s1 = h_proc_nr s"
    by (simp_all add: s1_def restore_copy_0_def upd_proc_def Let_def)
  have rst: "restart_pe p s = Inr u"
  proof -
    have "p_cr3 (procs s1 p) = root" using S by (simp add: s1_def restore_copy_0_sel)
    moreover have "h_restore (restore_copy_0 p s) = h_restore s" by (simp add: restore_copy_0_def upd_proc_def Let_def)
    ultimately have "restart_pe p s = bnd (kassert (proc_is_runnable (procs u p)) ''proc_is_runnable(p)'' u) (\<lambda>s. Inr (maybe_inject True p s))"
      using S rs t(1) unfolding restart_pe_def restored_proc Let_def update_step_def
      by (auto simp: s1_def u_def)
    then show ?thesis using S counted_sel [OF c] counted_proc [OF c] quiet_proc [OF t(2)] quiet_sel [OF t(2)] s1 pe_running_sel [OF t(3)]
      by (simp add: proc_is_runnable_def maybe_inject_def)
  qed
  have ru: "pe_running p root as u"
    using t(3) by (subst pe_running_cong [of _ t]) (simp_all add: counted_sel [OF c] counted_proc [OF c])
  have ku: "trap_known (p_kern_trap_style (procs u p))"
    using S s1 by (simp add: counted_proc [OF c] quiet_proc [OF t(2)])
  have hu: "h_step u = step" "h_restore u = 0" using s1 by (simp_all add: counted_sel [OF c] quiet_sel [OF t(2)])
  define v where "v = enable_counter (set_remain_ins_counter_value_1 p u)"
  let ?t = "upd_proc p (\<lambda>q. q\<lparr>p_kern_trap_style := KTS_NONE\<rparr>) v"
  have ru': "restore_user_context p u = Inr (ToUser p, ?t)" and cv: "counted p u v"
    using resume_user [OF ru _ hu(2) ku] hu(1) st unfolding v_def by auto
  have "start_dwc p s = start_dwc p u"
    using rst S ru hu(2) pe_running_sel [OF ru] by (simp add: start_dwc_def start_pe_def restart_pe_def)
  then have "restore_user_context p s = Inr (ToUser p, ?t)" using ru' by (simp add: restore_user_context_def)
  moreover have "pe_running p root as ?t"
    using ru by (subst pe_running_cong [of _ u]) (simp_all add: counted_sel [OF cv] counted_proc [OF cv] upd_proc_def)
  moreover have "restarted p step s ?t"
    using s1 by (simp add: restarted_def upd_proc_def counted_sel [OF cv] counted_proc [OF cv] counted_sel [OF c]
        counted_proc [OF c] quiet_sel [OF t(2)] quiet_proc [OF t(2)])
  moreover have "mem ?t = mem t" "working_set ?t = working_set t"
    by (simp_all add: upd_proc_def counted_sel [OF cv] counted_sel [OF c])
  then have "view root ?t a = view root t a" "working_set ?t = working_set t" for a using view_cong by blast+
  ultimately show ?thesis using t(4,5) by metis
qed

lemma resume_2:
  fixes p step :: int and s :: kstate
  assumes r: "pe_running p root as s"
    and rs: "h_restore s = RESTORE_FOR_SECOND_RUN \<and> step = SECOND_RUN \<or> h_restore s = RESTORE_FOR_FISRT_RUN \<and> step = FIRST_RUN"
  shows "\<exists>t. run_proc_2 p s = Inr (ToUser p, t) \<and> pe_running p root as t \<and> restarted p step s t \<and>
      (\<forall>a \<in> set as. view root t a = start_view step (view root s a)) \<and>
      (\<forall>a. (working_set t a)\<lparr>pmb_flags := pmb_flags (working_set s a)\<rparr> = working_set s a)"
proof -
  let ?s = "if cr3 s \<noteq> root then s\<lparr>proc_ptr := p, cr3 := root, ptproc := p\<rparr> else s\<lparr>proc_ptr := p\<rparr>"
  have r': "pe_running p root as ?s" using r by (subst pe_running_cong [of _ s]) simp_all
  have v: "view root ?s a = view root s a" for a by (rule view_cong) auto
  have "run_proc_2 p s = restore_user_context p ?s"
    using pe_running_sel [OF r] by (simp add: run_proc_2_def)
  with resume [OF r', of step] rs v show ?thesis by (cases "cr3 s = root") (simp_all add: restarted_def)
qed

text \<open>The pages when a run starts again from the committed state.\<close>

lemma start_keeps_frames:
  assumes v: "view root t a = start_view step (view root s a)"
    and b: "(working_set t a)\<lparr>pmb_flags := pmb_flags (working_set s a)\<rparr> = working_set s a"
  shows "pv_0 (view root t a) = pv_0 (view root s a)"
    "pv_1 (view root s a) = pv_0 (view root s a) \<Longrightarrow> pv_1 (view root t a) = pv_0 (view root s a)"
    "pv_2 (view root s a) = pv_0 (view root s a) \<Longrightarrow> pv_2 (view root t a) = pv_0 (view root s a)"
    "\<not> pmb_is a H_TO_UPDATE s \<Longrightarrow> pv_1 (view root t a) = pv_1 (view root s a) \<and> pv_2 (view root t a) = pv_2 (view root s a)"
  unfolding v by (auto simp: start_view_def Let_def start_updates_def view_sel pmb_is_def)

section \<open>The failed comparison\<close>

lemma cmp_failed_recovers:
  assumes r: "pe_running p root as s" and h: "h_step s = SECOND_RUN"
  shows "\<exists>t. cmp_failed p s = Inr (ToUser p, t) \<and> pe_running p root as t \<and> h_step t = FIRST_RUN \<and> h_restore t = 0 \<and>
      p_reg (procs t p) = move_regs (z_reg (copy_0 s)) (p_reg (procs s p)) \<and> nbpe_f t = nbpe_f s + 1 \<and> nbpe t = nbpe s \<and>
      (\<forall>a \<in> set as. same_frame (mem t) (us0 (working_set s a)) (mem s) (us0 (working_set s a)) \<and>
         (us1 (working_set s a) \<noteq> MAP_NONE \<longrightarrow> same_frame (mem t) (us1 (working_set s a)) (mem s) (us0 (working_set s a))) \<and>
         (us2 (working_set s a) \<noteq> MAP_NONE \<longrightarrow> same_frame (mem t) (us2 (working_set s a)) (mem s) (us0 (working_set s a)))) \<and> copy_0 t = copy_0 s \<and>
      (\<forall>a. (working_set t a)\<lparr>pmb_flags := pmb_flags (working_set s a)\<rparr> = working_set s a) \<and>
      (\<forall>a \<in> set as. iso_pre (view root s a) \<longrightarrow> iso_view FIRST_RUN (view root t a))"
proof -
  note S = pe_running_sel [OF r]
  obtain u where u: "vm_reset_pram p root CMP_FAILED s = Inr u" "page_world p root as u" "quiet p s u"
    "\<forall>a \<in> set as. view root u a = rollback_view (view root s a)"
    "\<forall>a. (working_set u a)\<lparr>pmb_flags := pmb_flags (working_set s a)\<rparr> = working_set s a"
    using failed.reset_pram_blocks [OF S(1) _ _ S(5) refl] h by auto
  have bu: "backed root u a" if "a \<in> set as" for a
    using backed_rollback [OF S(1) that S(2) [OF that]] u(4,5) that by blast
  have ru: "pe_running p root as u" using pe_running_quiet [OF r u(3,2) bu] .
  define n where "n = (if origin_syscall u \<in> {6, 7, 8} then 1 else 0 :: int)"
  define w where "w = upd_proc p (\<lambda>q. q\<lparr>p_rts_flags := setf (p_rts_flags q) RTS_UNSTABLE_STATE,
                 p_stats := (p_stats q)\<lparr>p_nb_dwc_d_f := p_nb_dwc_d_f (p_stats q) + 1,
                   p_nb_exception_d_f := p_nb_exception_d_f (p_stats q) + n\<rparr>\<rparr>)
     (u\<lparr>h_restore := RESTORE_FOR_FISRT_RUN, nbpe_f := nbpe_f u + 1\<rparr>)"
  have cf: "cmp_failed p s = run_proc_2 p w"
    using u(1) S by (simp add: cmp_failed_def Let_def w_def n_def)
  have w: "pe_running p root as w" using ru by (subst pe_running_cong [of _ u]) (simp_all add: w_def upd_proc_def)
  have ws: "working_set w = working_set u" "mem w = mem u" "copy_0 w = copy_0 u" "p_reg (procs w p) = p_reg (procs u p)"
    "nbpe_f w = nbpe_f u + 1" "nbpe w = nbpe u" "h_restore w = RESTORE_FOR_FISRT_RUN" by (simp_all add: w_def upd_proc_def)
  have vw: "view root w a = view root u a" for a using view_cong ws by blast
  obtain t where t: "run_proc_2 p w = Inr (ToUser p, t)" "pe_running p root as t" "restarted p FIRST_RUN w t"
      "\<forall>a \<in> set as. view root t a = start_view FIRST_RUN (view root w a)"
      "\<forall>a. (working_set t a)\<lparr>pmb_flags := pmb_flags (working_set w a)\<rparr> = working_set w a"
    using resume_2 [OF w, of FIRST_RUN] ws by auto
  have fr: "same_frame (mem t) (us0 b) (mem s) (us0 b) \<and> (us1 b \<noteq> MAP_NONE \<longrightarrow> same_frame (mem t) (us1 b) (mem s) (us0 b)) \<and>
      (us2 b \<noteq> MAP_NONE \<longrightarrow> same_frame (mem t) (us2 b) (mem s) (us0 b))" if a: "a \<in> set as" and b: "b = working_set s a" for a b
  proof -
    have v: "view root t a = start_view FIRST_RUN (view root w a)" "view root w a = rollback_view (view root s a)"
      using t(4) u(4) a vw by auto
    have bw: "(working_set t a)\<lparr>pmb_flags := pmb_flags (working_set w a)\<rparr> = working_set w a"
      and bs: "(working_set w a)\<lparr>pmb_flags := pmb_flags (working_set s a)\<rparr> = working_set s a" using t(5) u(5) ws by auto
    have z: "us0 b \<noteq> MAP_NONE" using S(2) [OF a] b by (simp add: backed_def)
    have p1: "pv_1 (view root w a) = (if us1 b = MAP_NONE then None else pv_0 (view root w a))"
      and p2: "pv_2 (view root w a) = (if us2 b = MAP_NONE then None else pv_0 (view root w a))"
      and p0: "pv_0 (view root w a) = pv_0 (view root s a)"
      using z b unfolding v(2) by (auto simp: rollback_view_def view_sel frame_at_def Let_def)
    have "pv_0 (view root t a) = pv_0 (view root s a)" using start_keeps_frames(1) [OF v(1) bw] p0 by simp
    moreover have "us1 b \<noteq> MAP_NONE \<Longrightarrow> pv_1 (view root t a) = pv_0 (view root s a)"
      using start_keeps_frames(2) [OF v(1) bw] p0 p1 by simp
    moreover have "us2 b \<noteq> MAP_NONE \<Longrightarrow> pv_2 (view root t a) = pv_0 (view root s a)"
      using start_keeps_frames(3) [OF v(1) bw] p0 p2 by simp
    ultimately show ?thesis
      using z by (auto simp: view_sel same_block [OF bw] same_block [OF bs] b frame_at_eq2)
  qed
  have bk: "(working_set t a)\<lparr>pmb_flags := pmb_flags (working_set s a)\<rparr> = working_set s a" for a
    using t(5) u(5) ws by (auto intro: same_flags_trans)
  have iso: "iso_view FIRST_RUN (view root t a)" if a: "a \<in> set as" "iso_pre (view root s a)" for a
  proof -
    have "page_aligned (us0 (working_set s a))" using world_aligned(1) [OF S(1) a(1)] S(2) [OF a(1)] by (simp add: backed_def)
    then have "iso_pre (view root w a)" using u(4) a vw iso_pre_ends(1) by (simp add: view_sel)
    moreover have "frames_ok (pv_b (view root w a))"
      using frames_ok_world [OF pe_running_sel(1) [OF w] a(1)] pe_running_sel(2) [OF w a(1)] by (simp add: backed_def)
    ultimately show ?thesis using iso_start t(4) a(1) by simp
  qed
  show ?thesis
    using cf t(1-3) fr bk iso ws quiet_sel [OF u(3)] quiet_proc [OF u(3)]
    by (intro exI [of _ t]) (simp add: restarted_def)
qed

text \<open>What \<open>hardening_task\<close> hands to the comparison.\<close>

definition run_ended :: "int \<Rightarrow> kstate \<Rightarrow> kstate" where
  "run_ended p s = save_context p (get_remain_ins_counter_value p s)"

lemma run_ended_counted:
  assumes "h_step s = SECOND_RUN"
  shows "run_ended p s = (get_remain_ins_counter_value p s)\<lparr>copy_2 := copy_2 (run_ended p s)\<rparr>"
  using assms by (simp add: run_ended_def save_context_def save_copy_2_def counted_sel [OF counted_ops(3)] Let_def)

lemma cmp_reg_ended: "cmp_reg (run_ended p s) = cmp_reg (save_context p s)"
  by (simp add: run_ended_def save_context_def save_copy_1_def save_copy_2_def cmp_reg_def same_full_def
      counted_sel [OF counted_ops(3)] counted_proc [OF counted_ops(3)] Let_def)

lemma run_ended_running:
  assumes "pe_running p root as s" "h_step s = SECOND_RUN"
  shows "pe_running p root as (run_ended p s)"
  using assms(1) by (subst run_ended_counted [OF assms(2)], subst pe_running_cong [of _ s])
    (simp_all add: counted_sel [OF counted_ops(3)] counted_proc [OF counted_ops(3)])

lemma run_ended_sel:
  assumes "h_step s = SECOND_RUN"
  shows "mem (run_ended p s) = mem s" "working_set (run_ended p s) = working_set s" "h_step (run_ended p s) = SECOND_RUN"
    "copy_0 (run_ended p s) = copy_0 s" "p_reg (procs (run_ended p s) q) = p_reg (procs s q)" "nbpe_f (run_ended p s) = nbpe_f s"
    "nbpe (run_ended p s) = nbpe s" "origin_syscall (run_ended p s) = origin_syscall s"
    "first_run_ins (run_ended p s) = first_run_ins s" "secnd_run_ins (run_ended p s) = secnd_run_ins s"
    "p_stats (procs (run_ended p s) q) = p_stats (procs s q)" "p_sig_delay (procs (run_ended p s) q) = p_sig_delay (procs s q)"
  by (subst run_ended_counted [OF assms], simp add: counted_sel [OF counted_ops(3)] counted_proc [OF counted_ops(3)] assms)+

text \<open>A second run that is not to be single-stepped goes to the comparison.\<close>

definition stepping_due :: "int \<Rightarrow> kstate \<Rightarrow> bool" where
  "stepping_due p s \<longleftrightarrow> origin_syscall s = PE_END_IN_NMI \<and> secnd_run_ins s \<noteq> first_run_ins s \<and> \<not> cmp_reg (save_context p s)"

lemma hardening_task_compares:
  assumes r: "pe_running p root as s" and "proc_ptr s = p" and h: "h_step s = SECOND_RUN" and "\<not> stepping_due p s"
  shows "hardening_task s = cmp_step p (run_ended p s)"
proof -
  note S = pe_running_sel [OF r] and E = run_ended_sel [OF h, of p]
  have "\<not> (h_step (run_ended p s) = SECOND_RUN \<and> origin_syscall (run_ended p s) = PE_END_IN_NMI \<and>
      secnd_run_ins (run_ended p s) \<noteq> first_run_ins (run_ended p s) \<and> \<not> cmp_reg (run_ended p s))"
    using assms(4) by (simp add: E cmp_reg_ended stepping_due_def)
  then show ?thesis using S assms(2) E
    unfolding hardening_task_def Let_def run_ended_def [symmetric] by (auto simp: kassert_def run_ended_def [symmetric])
qed

lemma only_fws_running:
  assumes r: "pe_running p root as s" and o: "only_fws p s t"
  shows "pe_running p root as t"
proof -
  have q: "quiet p s t" and m: "mem t = mem s" using o by (auto simp: only_fws_def)
  have b: "working_set t a = working_set s a \<or> working_set t a = (working_set s a)\<lparr>pmb_flags := clrf (pmb_flags (working_set s a)) FWS\<rparr>" for a
    using o by (simp add: only_fws_def)
  have b': "(working_set t a)\<lparr>pmb_flags := pmb_flags (working_set s a)\<rparr> = working_set s a" for a using b [of a] by auto
  have "pmb_free t a = pmb_free s a" for a using b [of a] by (auto simp: pmb_free_def has_clrf_other)
  moreover have "pmb_page t a = pmb_page s a" for a using same_block(4) [OF b'] by (simp add: pmb_page_def)
  moreover note only_fws_nx [OF o]
  ultimately have wl: "ws_list p t as" using pe_running_sel(1) [OF r]
    by (simp add: ws_list_def page_world_def quiet_proc [OF q] cong: map_cong)
  have fr: "frames_of (working_set t a) = frames_of (working_set s a)" for a by (simp add: frames_of_def same_block [OF b'])
  have pt: "pt_of root t = pt_of root s" "pte_of root t = pte_of root s" by (rule ext, simp add: pt_of_def pte_of_def pde_of_def m)+
  have "layout root as t" using pe_running_sel(1) [OF r]
    by (simp add: page_world_def layout_def block_ok_def fr pt same_block [OF b'])
  with wl have "page_world p root as t" using pe_running_sel(1) [OF r] by (simp add: page_world_def no_faults_def quiet_faults [OF q])
  then show ?thesis
    using pe_running_quiet [OF r q] pe_running_sel(2) [OF r] by (simp add: backed_def fr pt same_block [OF b'])
qed

lemma only_fws_block:
  assumes "only_fws p s t"
  shows "(working_set t a)\<lparr>pmb_flags := pmb_flags (working_set s a)\<rparr> = working_set s a"
proof -
  have "working_set t a = working_set s a \<or> working_set t a = (working_set s a)\<lparr>pmb_flags := clrf (pmb_flags (working_set s a)) FWS\<rparr>"
    using assms by (simp add: only_fws_def)
  then show ?thesis by auto
qed

lemma iso_pre_fws:
  assumes "only_fws p s t" "iso_pre (view root s a)"
  shows "iso_pre (view root t a)"
proof -
  have b: "working_set t a = working_set s a \<or> working_set t a = (working_set s a)\<lparr>pmb_flags := clrf (pmb_flags (working_set s a)) FWS\<rparr>"
    and m: "mem t = mem s" using assms(1) by (auto simp: only_fws_def)
  have "pde_of root t = pde_of root s" "pte_of root t = pte_of root s"
    by (rule ext, simp add: pte_of_def pt_of_def pde_of_def m)+
  with b assms(2) show ?thesis by (auto simp: iso_pre_def view_sel no_half_marked_def has_clrf_other)
qed

text \<open>Detection and recovery: at the end of the second run, if the registers of the two
  runs differ or a page written in the first run differs between the runs, the element
  starts over: the kernel returns to the process in a new first run, with the registers
  saved at the start of the element, every committed frame unchanged, both copies equal
  to it, and the failure counted.\<close>

lemma task_recovers:
  assumes r: "pe_running p root as s" and "proc_ptr s = p" and h: "h_step s = SECOND_RUN" and "\<not> stepping_due p s"
    and d: "\<not> cmp_reg (save_context p s) \<or> (\<exists>a \<in> set as. \<not> page_agrees s a)"
  shows "\<exists>t. hardening_task s = Inr (ToUser p, t) \<and> pe_running p root as t \<and> h_step t = FIRST_RUN \<and> h_restore t = 0 \<and>
      p_reg (procs t p) = move_regs (z_reg (copy_0 s)) (p_reg (procs s p)) \<and> nbpe_f t = nbpe_f s + 1 \<and> nbpe t = nbpe s \<and>
      (\<forall>a \<in> set as. same_frame (mem t) (us0 (working_set s a)) (mem s) (us0 (working_set s a)) \<and>
         (us1 (working_set s a) \<noteq> MAP_NONE \<longrightarrow> same_frame (mem t) (us1 (working_set s a)) (mem s) (us0 (working_set s a))) \<and>
         (us2 (working_set s a) \<noteq> MAP_NONE \<longrightarrow> same_frame (mem t) (us2 (working_set s a)) (mem s) (us0 (working_set s a)))) \<and> copy_0 t = copy_0 s \<and>
      (\<forall>a. (working_set t a)\<lparr>pmb_flags := pmb_flags (working_set s a)\<rparr> = working_set s a) \<and>
      (\<forall>a \<in> set as. iso_pre (view root s a) \<longrightarrow> iso_view FIRST_RUN (view root t a))"
proof -
  let ?e = "run_ended p s"
  note E = run_ended_sel [OF h, of p]
  have re: "pe_running p root as ?e" using r h by (rule run_ended_running)
  have "\<exists>u. cmp_step p ?e = cmp_failed p u \<and> only_fws p ?e u"
  proof (cases "cmp_reg (save_context p s)")
    case False
    then show ?thesis by (intro exI [of _ ?e]) (simp add: cmp_step_def cmp_reg_ended)
  next
    case True
    have "page_agrees ?e a = page_agrees s a" for a by (simp add: page_agrees_def pmb_is_def E)
    moreover have "ws_list p ?e as" using pe_running_sel(1) [OF re] by (simp add: page_world_def)
    ultimately obtain x u where "cmp_mem p ?e = Inr (x, u)" "only_fws p ?e u" "x \<noteq> OK"
      using cmp_mem_ok [of p ?e as] d True by auto
    then show ?thesis using True by (auto simp: cmp_step_def cmp_reg_ended)
  qed
  then obtain u where u: "cmp_step p ?e = cmp_failed p u" "only_fws p ?e u" by blast
  have q: "quiet p ?e u" "mem u = mem s" using u(2) E by (auto simp: only_fws_def)
  have bu: "(working_set u a)\<lparr>pmb_flags := pmb_flags (working_set s a)\<rparr> = working_set s a" for a
    using only_fws_block [OF u(2)] by (simp add: E)
  have iu: "iso_pre (view root u a)" if "iso_pre (view root s a)" for a
    using iso_pre_fws [OF u(2)] that view_cong [OF E(1,2)] by simp
  obtain t where t: "cmp_failed p u = Inr (ToUser p, t)" "pe_running p root as t" "h_step t = FIRST_RUN" "h_restore t = 0"
      "p_reg (procs t p) = move_regs (z_reg (copy_0 u)) (p_reg (procs u p))" "nbpe_f t = nbpe_f u + 1" "nbpe t = nbpe u"
      "\<forall>a \<in> set as. same_frame (mem t) (us0 (working_set u a)) (mem u) (us0 (working_set u a)) \<and>
         (us1 (working_set u a) \<noteq> MAP_NONE \<longrightarrow> same_frame (mem t) (us1 (working_set u a)) (mem u) (us0 (working_set u a))) \<and>
         (us2 (working_set u a) \<noteq> MAP_NONE \<longrightarrow> same_frame (mem t) (us2 (working_set u a)) (mem u) (us0 (working_set u a)))"
      "copy_0 t = copy_0 u" "\<forall>a. (working_set t a)\<lparr>pmb_flags := pmb_flags (working_set u a)\<rparr> = working_set u a"
      "\<forall>a \<in> set as. iso_pre (view root u a) \<longrightarrow> iso_view FIRST_RUN (view root t a)"
    using cmp_failed_recovers [OF only_fws_running [OF re u(2)]] quiet_sel [OF q(1)] E by auto
  moreover have "(working_set t a)\<lparr>pmb_flags := pmb_flags (working_set s a)\<rparr> = working_set s a" for a
    using t(10) bu by (blast intro: same_flags_trans)
  ultimately show ?thesis
    unfolding hardening_task_compares [OF assms(1-4)] u(1)
    using quiet_sel [OF q(1)] quiet_proc [OF q(1)] E iu
    by (intro exI [of _ t]) (simp add: same_block [OF bu] q(2))
qed

section \<open>Agreement\<close>

lemma run_over_sel:
  "h_enable (run_over p s) = H_DISABLE" "h_step (run_over p s) = NO_HARD_RUN"
  "h_restore (run_over p s) = 0" "nbpe (run_over p s) = nbpe s + 1" "nbpe_f (run_over p s) = nbpe_f s"
  "mem (run_over p s) = mem s" "working_set (run_over p s) = working_set s"
  "p_reg (procs (run_over p s) q) = p_reg (procs s q)" "h_proc_nr (run_over p s) = 0"
  "vm_should_run (run_over p s) = 0" "rd_fault (run_over p s) = rd_fault s"
  "wr_fault (run_over p s) = wr_fault s" "p_rts_flags (procs (run_over p s) q) = p_rts_flags (procs s q)"
  "p_sig_delay (procs (run_over p s) q) = p_sig_delay (procs s q)"
  by (auto simp: run_over_def clear_run_vars_def upd_proc_def Let_def)

lemma reset_no_signal: "p_sig_delay (procs s p) = - 1 \<Longrightarrow> reset_hardened_run p s = Inr (run_over p s)"
  by (simp add: reset_hardened_run_def run_over_sel)

lemma agreed_commit:
  assumes r: "pe_running p root as s" and h: "h_step s = SECOND_RUN" and c: "cmp_reg s"
    and ag: "\<And>a. a \<in> set as \<Longrightarrow> page_agrees s a" and ns: "\<And>a. a \<in> set as \<Longrightarrow> \<not> pmb_is a WS_SHARED s"
  shows "\<exists>u t. cmp_step p s = bnd (reset_hardened_run p t) (\<lambda>s. Inr (Back, s)) \<and> only_fws p s u \<and> quiet p u t \<and> page_world p root as t \<and>
     (\<forall>a \<in> set as. view root t a = commit_view (view root u a)) \<and>
     (\<forall>a. (working_set t a)\<lparr>pmb_flags := pmb_flags (working_set s a)\<rparr> = working_set s a)"
proof -
  have "ws_list p s as" using pe_running_sel(1) [OF r] by (simp add: page_world_def)
  then obtain u where u: "cmp_mem p s = Inr (OK, u)" "only_fws p s u" using cmp_mem_ok ag by blast
  note ru = pe_running_sel [OF only_fws_running [OF r u(2)]]
  have q: "quiet p s u" using u(2) by (simp add: only_fws_def)
  have "\<not> has (pmb_flags (working_set u a)) WS_SHARED" if "a \<in> set as" for a
  proof -
    have "working_set u a = working_set s a \<or> working_set u a = (working_set s a)\<lparr>pmb_flags := clrf (pmb_flags (working_set s a)) FWS\<rparr>"
      using u(2) by (simp add: only_fws_def)
    then show ?thesis using ns [OF that] by (auto simp: pmb_is_def has_clrf_other)
  qed
  then have "not_shared (view root u a)" if "a \<in> set as" for a using that by (simp add: not_shared_def view_sel)
  then obtain t where t: "vm_reset_pram p root CPY_RAM_PRAM u = Inr t" "page_world p root as t" "quiet p u t"
    "\<forall>a \<in> set as. view root t a = commit_view (view root u a)"
    "\<forall>a. (working_set t a)\<lparr>pmb_flags := pmb_flags (working_set u a)\<rparr> = working_set u a"
    using commit.reset_pram_blocks [OF ru(1) _ _ ru(5) refl] quiet_sel [OF q] h by auto
  have "(working_set t a)\<lparr>pmb_flags := pmb_flags (working_set s a)\<rparr> = working_set s a" for a
  proof -
    have "(working_set t a)\<lparr>pmb_flags := pmb_flags (working_set s a)\<rparr> =
        ((working_set t a)\<lparr>pmb_flags := pmb_flags (working_set u a)\<rparr>)\<lparr>pmb_flags := pmb_flags (working_set s a)\<rparr>" by simp
    also have "\<dots> = working_set s a" using t(5) only_fws_block [OF u(2)] by simp
    finally show ?thesis .
  qed
  moreover have "cmp_step p s = bnd (reset_hardened_run p t) (\<lambda>s. Inr (Back, s))"
    using c u(1) t(1) ru by (simp add: cmp_step_def)
  ultimately show ?thesis using u t by blast
qed

text \<open>Which pages the second run touched does not depend on the marks the comparison clears.\<close>

lemma touched_fws: "only_fws p s u \<Longrightarrow> touched (view root u a) = touched (view root s a)"
proof -
  assume o: "only_fws p s u"
  have "working_set u a = working_set s a \<or> working_set u a = (working_set s a)\<lparr>pmb_flags := clrf (pmb_flags (working_set s a)) FWS\<rparr>"
    "mem u = mem s" using o by (auto simp: only_fws_def)
  then show ?thesis by (auto simp: touched_def view_sel has_clrf_other pte_of_def pt_of_def pde_of_def)
qed

text \<open>A page the run wrote: it took a write fault or the processor set its dirty bit.\<close>

definition written :: "u32 \<Rightarrow> kstate \<Rightarrow> nat \<Rightarrow> bool" where
  "written root s a \<longleftrightarrow> pmb_is a HGET_PF s \<or> has (pte_of root s (pmb_vaddr (working_set s a))) I386_VM_DIRTY"

lemma written_touched: "touched (view root s a) = written root s a"
  by (simp add: touched_def written_def view_sel pmb_is_def)

text \<open>Commit: at the end of the second run, if the registers agree and every page of the
  final working set agrees, the element is over: \<open>hardening_task\<close> returns with the
  hardening switched off and the element counted, the process keeps the registers of the
  second run, every page it wrote has the second run's contents in its committed frame --
  which are those of the first run if the page was written there -- every other committed
  frame is as before, and all pages map their committed frames.\<close>

lemma task_commits:
  assumes r: "pe_running p root as s" and "proc_ptr s = p" and h: "h_step s = SECOND_RUN" and "\<not> stepping_due p s"
    and c: "cmp_reg (save_context p s)" and ag: "\<And>a. a \<in> set as \<Longrightarrow> page_agrees s a"
    and ns: "\<And>a. a \<in> set as \<Longrightarrow> \<not> pmb_is a WS_SHARED s" and sd: "p_sig_delay (procs s p) = - 1"
  shows "\<exists>t. hardening_task s = Inr (Back, t) \<and> h_enable t = H_DISABLE \<and> h_step t = NO_HARD_RUN \<and> nbpe t = nbpe s + 1 \<and>
      nbpe_f t = nbpe_f s \<and> p_reg (procs t p) = p_reg (procs s p) \<and>
      (\<forall>a \<in> set as. us2 (working_set s a) \<noteq> MAP_NONE \<longrightarrow>
         same_frame (mem t) (us0 (working_set s a)) (mem s) (if written root s a then us2 (working_set s a) else us0 (working_set s a)) \<and>
         (written root s a \<and> pmb_is a FWS s \<and> us1 (working_set s a) \<noteq> MAP_NONE \<longrightarrow>
            same_frame (mem t) (us0 (working_set s a)) (mem s) (us1 (working_set s a))) \<and>
         I386_VM_PFA (pte_of root t (pmb_vaddr (working_set s a))) = us0 (working_set s a) \<and>
         has (pte_of root t (pmb_vaddr (working_set s a))) I386_VM_WRITE)"
proof -
  let ?e = "run_ended p s"
  note E = run_ended_sel [OF h, of p]
  have re: "pe_running p root as ?e" using r h by (rule run_ended_running)
  have ag': "page_agrees ?e a" if "a \<in> set as" for a using ag [OF that] by (simp add: page_agrees_def pmb_is_def E)
  have ns': "\<not> pmb_is a WS_SHARED ?e" if "a \<in> set as" for a using ns [OF that] by (simp add: pmb_is_def E)
  obtain u t where ut: "cmp_step p ?e = bnd (reset_hardened_run p t) (\<lambda>s. Inr (Back, s))" "only_fws p ?e u" "quiet p u t" "page_world p root as t"
     "\<forall>a \<in> set as. view root t a = commit_view (view root u a)"
     "\<forall>a. (working_set t a)\<lparr>pmb_flags := pmb_flags (working_set ?e a)\<rparr> = working_set ?e a"
    using agreed_commit [OF re E(3)] c ag' ns' by (auto simp: cmp_reg_ended)
  have q: "quiet p ?e u" "mem u = mem s" using ut(2) E by (auto simp: only_fws_def)
  note ru = pe_running_sel [OF only_fws_running [OF re ut(2)]]
  have pg: "same_frame (mem t) (us0 b) (mem s) (if written root s a then us2 b else us0 b) \<and>
     I386_VM_PFA (pte_of root t (pmb_vaddr b)) = us0 b \<and> has (pte_of root t (pmb_vaddr b)) I386_VM_WRITE"
    if a: "a \<in> set as" and b: "b = working_set s a" and z: "us2 b \<noteq> MAP_NONE" for a b
  proof -
    have sb: "(working_set u a)\<lparr>pmb_flags := pmb_flags (working_set s a)\<rparr> = working_set s a"
      using only_fws_block [OF ut(2)] by (simp add: E)
    have tb: "(working_set t a)\<lparr>pmb_flags := pmb_flags (working_set u a)\<rparr> = working_set u a"
    proof -
      have "(working_set t a)\<lparr>pmb_flags := pmb_flags (working_set u a)\<rparr> =
          ((working_set t a)\<lparr>pmb_flags := pmb_flags (working_set s a)\<rparr>)\<lparr>pmb_flags := pmb_flags (working_set u a)\<rparr>" by simp
      also have "\<dots> = ((working_set u a)\<lparr>pmb_flags := pmb_flags (working_set s a)\<rparr>)\<lparr>pmb_flags := pmb_flags (working_set u a)\<rparr>"
        using ut(6) sb by (simp add: E)
      finally show ?thesis by simp
    qed
    have tch: "touched (view root u a) = written root s a"
      using touched_fws [OF ut(2)] by (simp add: written_touched) (simp add: written_def pmb_is_def pte_of_def pt_of_def pde_of_def E)
    have "us0 (working_set u a) \<noteq> MAP_NONE" using ru(2) [OF a] by (simp add: backed_def)
    with committed_page [OF _ tb ru(1) a] ut(5) a z b show ?thesis
      unfolding tch same_block [OF sb] q(2) by auto
  qed
  have fs: "same_frame (mem t) (us0 (working_set s a)) (mem s) (us1 (working_set s a))"
    if a: "a \<in> set as" "us2 (working_set s a) \<noteq> MAP_NONE" "written root s a" "pmb_is a FWS s" "us1 (working_set s a) \<noteq> MAP_NONE" for a
  proof -
    have "same_frame (mem s) (us2 (working_set s a)) (mem s) (us1 (working_set s a))"
      using ag [OF a(1)] a by (auto simp: page_agrees_def Let_def)
    moreover have "same_frame (mem t) (us0 (working_set s a)) (mem s) (us2 (working_set s a))" using pg [OF a(1) refl a(2)] a(3) by simp
    ultimately show ?thesis using same_frame_trans by blast
  qed
  have pt: "pte_of root (run_over p t) v = pte_of root t v" for v
    by (simp add: pte_of_def pt_of_def pde_of_def run_over_sel)
  show ?thesis
    unfolding hardening_task_compares [OF assms(1-4)] ut(1)
    using pg fs quiet_sel [OF q(1)] quiet_sel [OF ut(3)] quiet_proc [OF q(1)] quiet_proc [OF ut(3)] E
    by (intro exI [of _ "run_over p t"]) (simp add: run_over_sel pt reset_no_signal sd)
qed

section \<open>The end of the first run\<close>

lemma frames_same:
  assumes "frame_at m (us0 b) = frame_at m' (us0 b)" "frame_at m (us1 b) = frame_at m' (us1 b)"
    "frame_at m (us2 b) = frame_at m' (us2 b)" "f \<in> frames_of b"
  shows "same_frame m f m' f"
proof -
  have "f \<noteq> MAP_NONE" "frame_at m f = frame_at m' f" using assms by (auto simp: frames_of_def)
  then show ?thesis using frame_at_eq by blast
qed

text \<open>The end of the first run: the kernel returns to the process in the second run, from
  the registers saved at the start of the element; no committed frame and no copy
  changed (unless a region was announced meanwhile), the registers the first run ended
  with are kept for the comparison, and every page the first run wrote is marked as part
  of the final working set, so that the comparison will look at it.\<close>

lemma task_second_run:
  assumes r: "pe_running p root as s" and pp: "proc_ptr s = p" and h: "h_step s = FIRST_RUN" and hr: "h_restore s = 0"
  shows "\<exists>t. hardening_task s = Inr (ToUser p, t) \<and> pe_running p root as t \<and> h_step t = SECOND_RUN \<and> h_restore t = 0 \<and>
      p_reg (procs t p) = move_regs (z_reg (copy_0 s)) (p_reg (procs s p)) \<and>
      copy_1 t = copy_1 (save_copy_1 p s) \<and>
      (\<forall>a \<in> set as. same_frame (mem t) (us0 (working_set s a)) (mem s) (us0 (working_set s a)) \<and>
         (\<not> pmb_is a H_TO_UPDATE s \<longrightarrow> (\<forall>f \<in> frames_of (working_set s a). same_frame (mem t) f (mem s) f)) \<and>
         (written root s a \<and> us1 (working_set s a) \<noteq> MAP_NONE \<longrightarrow> pmb_is a FWS t)) \<and> copy_0 t = copy_0 s \<and>
      (\<forall>a. (working_set t a)\<lparr>pmb_flags := pmb_flags (working_set s a)\<rparr> = working_set s a) \<and>
      (\<forall>a \<in> set as. iso_pre (view root s a) \<longrightarrow> iso_view SECOND_RUN (view root t a))"
proof -
  define e where "e = (run_ended p s)\<lparr>h_restore := RESTORE_FOR_SECOND_RUN\<rparr>"
  define c where "c = get_remain_ins_counter_value p s"
  have cc: "counted p s c" unfolding c_def by (rule counted_ops)
  have e: "e = c\<lparr>copy_1 := copy_1 (save_copy_1 p s), h_restore := RESTORE_FOR_SECOND_RUN\<rparr>"
    using h by (simp add: e_def run_ended_def save_context_def save_copy_1_def c_def [symmetric] counted_sel [OF cc]
        counted_proc [OF cc] Let_def)
  have re: "pe_running p root as e" unfolding e
    using r by (subst pe_running_cong [of _ s]) (simp_all add: counted_sel [OF cc] counted_proc [OF cc])
  have es: "mem e = mem s" "working_set e = working_set s" "h_step e = FIRST_RUN" "copy_0 e = copy_0 s"
    "copy_1 e = copy_1 (save_copy_1 p s)" "p_reg (procs e p) = p_reg (procs s p)" "h_restore e = RESTORE_FOR_SECOND_RUN"
    using h by (simp_all add: e counted_sel [OF cc] counted_proc [OF cc])
  note S = pe_running_sel [OF re] and SS = pe_running_sel [OF r]
  obtain u where u: "vm_reset_pram p root CPY_RAM_FIRST e = Inr u" "page_world p root as u" "quiet p e u"
    "\<forall>a \<in> set as. view root u a = first_view (view root e a)"
    "\<forall>a. (working_set u a)\<lparr>pmb_flags := pmb_flags (working_set e a)\<rparr> = working_set e a"
    using first.reset_pram_blocks [OF S(1) _ _ S(5) refl] es(3) by auto
  have ru: "pe_running p root as u"
    using pe_running_quiet [OF re u(3,2)] backed_first [OF S(1) _ S(2)] u(4,5) by blast
  have hr2: "h_restore u = RESTORE_FOR_SECOND_RUN" using es quiet_sel [OF u(3)] by simp
  obtain t where t: "run_proc_2 p u = Inr (ToUser p, t)" "pe_running p root as t" "restarted p SECOND_RUN u t"
      "\<forall>a \<in> set as. view root t a = start_view SECOND_RUN (view root u a)"
      "\<forall>a. (working_set t a)\<lparr>pmb_flags := pmb_flags (working_set u a)\<rparr> = working_set u a"
    using resume_2 [OF ru, of SECOND_RUN] hr2 by auto
  have "h_step (run_ended p s) = FIRST_RUN" "h_restore (run_ended p s) = 0" "p_cr3 (procs (run_ended p s) p) = root"
    using h hr SS counted_sel [OF cc] counted_proc [OF cc]
    by (simp_all add: run_ended_def save_context_def save_copy_1_def c_def [symmetric] Let_def)
  then have "hardening_task s = end_first_run p (run_ended p s)"
    using SS pp unfolding hardening_task_def Let_def run_ended_def [symmetric] by (auto simp: kassert_def run_ended_def [symmetric])
  also have "\<dots> = run_proc_2 p u"
    using u(1) \<open>h_restore (run_ended p s) = 0\<close> \<open>p_cr3 (procs (run_ended p s) p) = root\<close> by (simp add: end_first_run_def e_def)
  finally have ht: "hardening_task s = Inr (ToUser p, t)" using t(1) by simp
  have pg: "same_frame (mem t) (us0 (working_set s a)) (mem s) (us0 (working_set s a)) \<and>
         (\<not> pmb_is a H_TO_UPDATE s \<longrightarrow> (\<forall>f \<in> frames_of (working_set s a). same_frame (mem t) f (mem s) f)) \<and>
         (written root s a \<and> us1 (working_set s a) \<noteq> MAP_NONE \<longrightarrow> pmb_is a FWS t)" if a: "a \<in> set as" for a
  proof -
    have v: "view root t a = start_view SECOND_RUN (view root u a)" "view root u a = first_view (view root s a)"
      using t(4) u(4) a view_cong [OF es(1,2)] by auto
    have bt: "(working_set t a)\<lparr>pmb_flags := pmb_flags (working_set u a)\<rparr> = working_set u a"
      and bu: "(working_set u a)\<lparr>pmb_flags := pmb_flags (working_set s a)\<rparr> = working_set s a" using t(5) u(5) es by auto
    have nu': "\<not> pmb_is a H_TO_UPDATE u" if "\<not> pmb_is a H_TO_UPDATE s"
      using arg_cong [OF v(2), of "\<lambda>v. has (pmb_flags (pv_b v)) H_TO_UPDATE"] that
      by (auto simp: view_sel first_view_def mark_kernel_def pmb_is_def has_setf_other has_clrf_other split: if_splits)
    have f: "pv_0 (view root u a) = pv_0 (view root s a)" "pv_1 (view root u a) = pv_1 (view root s a)"
      "pv_2 (view root u a) = pv_2 (view root s a)" unfolding v(2) by (simp_all add: first_view_def)
    have z: "pv_0 (view root t a) = pv_0 (view root s a)" using start_keeps_frames(1) [OF v(1) bt] f by simp
    have "pv_1 (view root t a) = pv_1 (view root s a)" "pv_2 (view root t a) = pv_2 (view root s a)" if "\<not> pmb_is a H_TO_UPDATE s"
      using start_keeps_frames(4) [OF v(1) bt] nu' [OF that] f by auto
    then have fr: "\<forall>f \<in> frames_of (working_set s a). same_frame (mem t) f (mem s) f" if "\<not> pmb_is a H_TO_UPDATE s"
      using frames_same z that by (simp add: view_sel same_block [OF bt] same_block [OF bu])
    have z': "same_frame (mem t) (us0 (working_set s a)) (mem s) (us0 (working_set s a))"
      using z SS(2) [OF a] by (simp add: view_sel same_block [OF bt] same_block [OF bu] frame_at_eq backed_def)
    have "pmb_is a FWS t" if w: "written root s a" "us1 (working_set s a) \<noteq> MAP_NONE"
    proof -
      have "us0 (working_set s a) \<noteq> MAP_NONE" using SS(2) [OF a] by (simp add: backed_def)
      then have "pmb_is a FWS u"
        using w arg_cong [OF v(2), of "\<lambda>v. has (pmb_flags (pv_b v)) FWS"]
        by (simp add: first_view_def view_sel written_touched pmb_is_def has_setf_same)
      then show ?thesis using arg_cong [OF v(1), of "\<lambda>v. has (pmb_flags (pv_b v)) FWS"]
        by (auto simp: start_view_def view_sel pmb_is_def has_clrf_other Let_def)
    qed
    with fr z' show ?thesis by blast
  qed
  have bk: "(working_set t a)\<lparr>pmb_flags := pmb_flags (working_set s a)\<rparr> = working_set s a" for a
    using t(5) u(5) es by (auto intro: same_flags_trans)
  have iso: "iso_view SECOND_RUN (view root t a)" if a: "a \<in> set as" "iso_pre (view root s a)" for a
  proof -
    have "page_aligned (us0 (working_set s a))" using world_aligned(1) [OF SS(1) a(1)] SS(2) [OF a(1)] by (simp add: backed_def)
    then have "iso_pre (view root u a)" using u(4) a view_cong [OF es(1,2)] iso_pre_ends(2) by (simp add: view_sel)
    moreover have "frames_ok (pv_b (view root u a))"
      using frames_ok_world [OF pe_running_sel(1) [OF ru] a(1)] pe_running_sel(2) [OF ru a(1)] by (simp add: backed_def)
    ultimately show ?thesis using iso_start t(4) a(1) by simp
  qed
  show ?thesis using ht t(2,3) pg bk iso es quiet_sel [OF u(3)] quiet_proc [OF u(3)]
    by (intro exI [of _ t]) (auto simp: restarted_def)
qed

section \<open>The start of an element\<close>

lemma save_copy_0_sel:
  "procs (save_copy_0 p s) = procs s" "mem (save_copy_0 p s) = mem s" "working_set (save_copy_0 p s) = working_set s"
  "h_step (save_copy_0 p s) = h_step s" "h_proc_nr (save_copy_0 p s) = h_proc_nr s" "h_restore (save_copy_0 p s) = h_restore s"
  "rd_fault (save_copy_0 p s) = rd_fault s" "wr_fault (save_copy_0 p s) = wr_fault s"
  "vm_should_run (save_copy_0 p s) = vm_should_run s" "h_inject_fault (save_copy_0 p s) = h_inject_fault s"
  "z_rts_flags (copy_0 (save_copy_0 p s)) = p_rts_flags (procs s p)"
  "z_kern_trap_style (copy_0 (save_copy_0 p s)) = p_kern_trap_style (procs s p)"
  "z_reg (copy_0 (save_copy_0 p s)) = move_regs (p_reg (procs s p)) (z_reg (copy_0 s))"
  by (simp_all add: save_copy_0_def Let_def)

lemma move_regs_back: "move_regs (move_regs r z) r = r"
  by (simp add: move_regs_def)

lemma move_regs_idem: "move_regs (move_regs r z) r' = move_regs r r'"
  by (simp add: move_regs_def)

lemma start_pe_ok:
  assumes w: "page_world p root as s" and bk: "\<And>a. a \<in> set as \<Longrightarrow> backed root s a" and P: "pe_proc p root s"
    and d: "h_enable s = H_DISABLE" "h_wait_vm_reply s = H_NO" "h_step s = NO_HARD_RUN" "has (p_hflags (procs s p)) PROC_TO_HARD"
    and q: "p_rts_flags (procs s p) = 0" "trap_known (p_kern_trap_style (procs s p))"
  shows "\<exists>t. start_pe p s = Inr t \<and> pe_running p root as t \<and> h_step t = FIRST_RUN \<and> h_restore t = h_restore s \<and>
     p_reg (procs t p) = p_reg (procs s p) \<and> move_regs (z_reg (copy_0 t)) (p_reg (procs s p)) = p_reg (procs s p) \<and>
     p_kern_trap_style (procs t p) = p_kern_trap_style (procs s p) \<and>
     (\<forall>a \<in> set as. view root t a = start_view FIRST_RUN (view root s a)) \<and>
     (\<forall>a. (working_set t a)\<lparr>pmb_flags := pmb_flags (working_set s a)\<rparr> = working_set s a)"
proof -
  let ?s = "s\<lparr>h_proc_nr := p_nr (procs s p), h_step := FIRST_RUN\<rparr>"
  note P' = P [unfolded pe_proc_def Let_def]
  have w': "page_world p root as ?s" using w by (subst page_world_cong [of _ s]) auto
  have v: "view root ?s a = view root s a" for a by (rule view_cong) auto
  obtain u where u: "set_pe_mem_to_ro p root ?s = Inr (OK, u)" "page_world p root as u" "quiet p ?s u"
      "\<forall>a \<in> set as. view root u a = start_view FIRST_RUN (view root s a)"
      "\<forall>a. (working_set u a)\<lparr>pmb_flags := pmb_flags (working_set s a)\<rparr> = working_set s a"
    using set_ro_views [OF w'] P' backed_start bk v by auto
  define c where "c = set_remain_ins_counter_value_0 p (save_copy_0 p u)"
  have cc: "counted p (save_copy_0 p u) c" unfolding c_def by (rule counted_ops)
  let ?t = "c\<lparr>h_enable := H_ENABLE\<rparr>"
  have "start_pe p s = Inr (maybe_inject False p ?t)"
    using d P' u(1) by (simp add: start_pe_def update_step_def c_def Let_def)
  also have "maybe_inject False p ?t = ?t"
    using P' by (simp add: maybe_inject_def counted_sel [OF cc] save_copy_0_sel quiet_sel [OF u(3)])
  finally have eq: "start_pe p s = Inr ?t" .
  have bu: "backed root u a" if "a \<in> set as" for a
    using backed_start_view [OF w that bk [OF that]] u(4,5) that by blast
  have pt: "pte_of root ?t = pte_of root u"
    by (rule ext) (simp add: pte_of_def pt_of_def pde_of_def counted_sel [OF cc] save_copy_0_sel)
  have "page_world p root as ?t"
    using u(2) by (subst page_world_cong [of _ u]) (simp_all add: counted_sel [OF cc] counted_proc [OF cc] save_copy_0_sel)
  moreover have "backed root ?t a" if "a \<in> set as" for a
    using bu [OF that] unfolding backed_def pt by (simp add: counted_sel [OF cc] save_copy_0_sel)
  ultimately have "pe_running p root as ?t"
    using P' q by (simp add: pe_running_def pe_proc_def counted_sel [OF cc] counted_proc [OF cc] save_copy_0_sel
        quiet_sel [OF u(3)] quiet_proc [OF u(3)] Let_def)
  moreover have "mem ?t = mem u" "working_set ?t = working_set u" by (simp_all add: counted_sel [OF cc] save_copy_0_sel)
  then have "view root ?t a = view root u a" for a by (rule view_cong)
  ultimately show ?thesis using eq u(4,5)
    by (intro exI [of _ ?t]) (simp add: counted_sel [OF cc] counted_proc [OF cc] save_copy_0_sel move_regs_back
        quiet_sel [OF u(3)] quiet_proc [OF u(3)])
qed

text \<open>The start of an element: when the scheduler chose a hardened, runnable process and
  no element is in progress, \<open>restore_user_context\<close> resumes the process in its first run,
  with its registers unchanged and saved, every committed frame unchanged, and the
  invariant of a running element established.\<close>

lemma element_starts:
  assumes w: "page_world p root as s" and bk: "\<And>a. a \<in> set as \<Longrightarrow> backed root s a" and P: "pe_proc p root s"
    and d: "h_enable s = H_DISABLE" "h_wait_vm_reply s = H_NO" "h_step s = NO_HARD_RUN" "has (p_hflags (procs s p)) PROC_TO_HARD"
    and q: "p_rts_flags (procs s p) = 0" "trap_known (p_kern_trap_style (procs s p))" and hr: "h_restore s = 0"
  shows "\<exists>t. restore_user_context p s = Inr (ToUser p, t) \<and> pe_running p root as t \<and> h_step t = FIRST_RUN \<and> h_restore t = 0 \<and>
     p_reg (procs t p) = p_reg (procs s p) \<and> move_regs (z_reg (copy_0 t)) (p_reg (procs s p)) = p_reg (procs s p) \<and>
     (\<forall>a \<in> set as. same_frame (mem t) (us0 (working_set s a)) (mem s) (us0 (working_set s a))) \<and> 
      (\<forall>a. (working_set t a)\<lparr>pmb_flags := pmb_flags (working_set s a)\<rparr> = working_set s a) \<and>
      (\<forall>a \<in> set as. iso_pre (view root s a) \<longrightarrow> iso_view FIRST_RUN (view root t a))"
proof -
  obtain u where u: "start_pe p s = Inr u" "pe_running p root as u" "h_step u = FIRST_RUN" "h_restore u = 0"
     "p_reg (procs u p) = p_reg (procs s p)" "move_regs (z_reg (copy_0 u)) (p_reg (procs s p)) = p_reg (procs s p)"
     "p_kern_trap_style (procs u p) = p_kern_trap_style (procs s p)"
     "\<forall>a \<in> set as. view root u a = start_view FIRST_RUN (view root s a)"
     "\<forall>a. (working_set u a)\<lparr>pmb_flags := pmb_flags (working_set s a)\<rparr> = working_set s a"
    using start_pe_ok [OF w bk P d q] hr by auto
  define v where "v = enable_counter (set_remain_ins_counter_value_1 p u)"
  let ?t = "upd_proc p (\<lambda>q. q\<lparr>p_kern_trap_style := KTS_NONE\<rparr>) v"
  have ru: "restore_user_context p u = Inr (ToUser p, ?t)" and cv: "counted p u v"
    using resume_user [OF u(2) _ u(4)] u(3,7) q unfolding v_def by auto
  have "start_dwc p s = start_dwc p u"
    using u(1) pe_running_sel [OF u(2)] by (simp add: start_dwc_def start_pe_def)
  then have "restore_user_context p s = Inr (ToUser p, ?t)" using ru by (simp add: restore_user_context_def)
  moreover have "pe_running p root as ?t"
    using u(2) by (subst pe_running_cong [of _ u]) (simp_all add: counted_sel [OF cv] counted_proc [OF cv] upd_proc_def)
  moreover have "same_frame (mem ?t) (us0 (working_set s a)) (mem s) (us0 (working_set s a))" if a: "a \<in> set as" for a
  proof -
    have b: "(working_set u a)\<lparr>pmb_flags := pmb_flags (working_set s a)\<rparr> = working_set s a" using u(9) by blast
    have "us0 (working_set s a) \<noteq> MAP_NONE" using bk [OF a] by (simp add: backed_def)
    moreover have "view root u a = start_view FIRST_RUN (view root s a)" using u(8) a by blast
    ultimately have "same_frame (mem u) (us0 (working_set s a)) (mem s) (us0 (working_set s a))"
      using start_keeps_frames(1) [OF _ b, of root FIRST_RUN]
      unfolding view_sel same_block [OF b] by (simp add: frame_at_eq)
    then show ?thesis by (simp add: upd_proc_def counted_sel [OF cv])
  qed
  moreover have "iso_view FIRST_RUN (view root ?t a)" if a: "a \<in> set as" "iso_pre (view root s a)" for a
  proof -
    have "view root ?t a = view root u a" by (rule view_cong) (simp_all add: upd_proc_def counted_sel [OF cv])
    moreover have "frames_ok (pv_b (view root s a))" using frames_ok_world [OF w a(1)] bk [OF a(1)] by (simp add: backed_def)
    ultimately show ?thesis using iso_start [OF a(2)] u(8) a(1) by simp
  qed
  ultimately show ?thesis using u
    by (intro exI [of _ ?t]) (simp add: upd_proc_def counted_sel [OF cv] counted_proc [OF cv])
qed

end
