(* ===== verification/Element_Steps.thy ===== *)
theory Element_Steps
  imports Element
begin

text \<open>
  The element as a state machine: user code of the process, page faults the kernel
  handles, the counter interrupt, the return to user mode and the end of a run, in any
  order. The invariant \<open>el_inv\<close> holds in every reachable state; in particular the
  committed memory does not change before the comparison succeeded.
\<close>

section \<open>Steps\<close>

text \<open>
  The memory effect of user code in a run: only the frames mapped writable for a page of
  the working set change, besides the accessed and dirty bits the processor sets in the
  entries of these pages; a page that was written has its dirty bit set. The pages
  outside the working set are not mapped writable for the process.
\<close>

definition user_mem :: "u32 \<Rightarrow> nat list \<Rightarrow> kstate \<Rightarrow> (u32 \<Rightarrow> u8) \<Rightarrow> bool" where
  "user_mem root as s m \<longleftrightarrow>
     (\<forall>f. page_aligned f \<longrightarrow>
        (\<forall>a \<in> set as. f \<noteq> pt_of root s (pmb_vaddr (working_set s a)) \<and>
           (has (pte_of root s (pmb_vaddr (working_set s a))) I386_VM_WRITE \<longrightarrow>
              f \<noteq> I386_VM_PFA (pte_of root s (pmb_vaddr (working_set s a))))) \<longrightarrow>
        same_frame m f (mem s) f) \<and>
     (\<forall>a \<in> set as.
        hw_bits (pte_of root s (pmb_vaddr (working_set s a))) (pte_of root (s\<lparr>mem := m\<rparr>) (pmb_vaddr (working_set s a))) \<and>
        (\<not> same_frame m (I386_VM_PFA (pte_of root s (pmb_vaddr (working_set s a)))) (mem s)
              (I386_VM_PFA (pte_of root s (pmb_vaddr (working_set s a)))) \<longrightarrow>
           has (pte_of root (s\<lparr>mem := m\<rparr>) (pmb_vaddr (working_set s a))) I386_VM_DIRTY))"

inductive pe_step :: "int \<Rightarrow> u32 \<Rightarrow> nat list \<Rightarrow> kstate \<Rightarrow> kstate \<Rightarrow> bool" for p root as where
  user: "user_mem root as s m \<Longrightarrow> pe_step p root as s
    ((upd_proc p (\<lambda>q. q\<lparr>p_reg := r, p_kern_trap_style := k\<rparr>) s)\<lparr>mem := m, entry := e, origin_syscall := og, msr := c, cr2 := x\<rparr>)"
| fault: "check_vaddr_2 p root v rw s = Inr ((OK, K_HANDLE_PF), t) \<Longrightarrow> pe_step p root as s t"
| counter: "proc_ptr s = p \<Longrightarrow> pe_step p root as s (snd (irh s))"
| resume: "trap_known (p_kern_trap_style (procs s p)) \<Longrightarrow> restore_user_context p s = Inr (ToUser p, t) \<Longrightarrow> pe_step p root as s t"
| run_end: "proc_ptr s = p \<Longrightarrow> \<not> stepping_due p s \<Longrightarrow> hardening_task s = Inr (ToUser p, t) \<Longrightarrow> pe_step p root as s t"

inductive pe_reach :: "int \<Rightarrow> u32 \<Rightarrow> nat list \<Rightarrow> kstate \<Rightarrow> kstate \<Rightarrow> bool" for p root as s0 where
  here: "pe_reach p root as s0 s0"
| step: "pe_reach p root as s0 s \<Longrightarrow> pe_step p root as s t \<Longrightarrow> pe_reach p root as s0 t"

section \<open>The invariant\<close>

definition el_inv :: "int \<Rightarrow> u32 \<Rightarrow> nat list \<Rightarrow> kstate \<Rightarrow> kstate \<Rightarrow> bool" where
  "el_inv p root as s0 s \<longleftrightarrow>
     pe_running p root as s \<and> (h_step s = FIRST_RUN \<or> h_step s = SECOND_RUN) \<and> h_restore s = 0 \<and> copy_0 s = copy_0 s0 \<and>
     (\<forall>a. (working_set s a)\<lparr>pmb_flags := pmb_flags (working_set s0 a)\<rparr> = working_set s0 a) \<and>
     (\<forall>a \<in> set as. iso_view (h_step s) (view root s a) \<and>
        same_frame (mem s) (us0 (working_set s0 a)) (mem s0) (us0 (working_set s0 a)))"

lemma el_inv_step:
  assumes i: "el_inv p root as s0 s" and r: "pe_running p root as t" "h_step t = FIRST_RUN \<or> h_step t = SECOND_RUN" "h_restore t = 0"
    "copy_0 t = copy_0 s" and b: "\<And>a. (working_set t a)\<lparr>pmb_flags := pmb_flags (working_set s a)\<rparr> = working_set s a"
    and v: "\<And>a. a \<in> set as \<Longrightarrow> iso_view (h_step t) (view root t a)"
    and f: "\<And>a. a \<in> set as \<Longrightarrow> same_frame (mem t) (us0 (working_set s a)) (mem s) (us0 (working_set s a))"
  shows "el_inv p root as s0 t"
proof -
  have bs: "(working_set s a)\<lparr>pmb_flags := pmb_flags (working_set s0 a)\<rparr> = working_set s0 a" for a using i by (simp add: el_inv_def)
  have "same_frame (mem t) (us0 (working_set s0 a)) (mem s0) (us0 (working_set s0 a))" if a: "a \<in> set as" for a
    using f [OF a] i a by (simp add: same_block [OF bs] el_inv_def same_frame_trans [of _ _ "mem s"])
  moreover have "(working_set t a)\<lparr>pmb_flags := pmb_flags (working_set s0 a)\<rparr> = working_set s0 a" for a
    using b bs by (rule same_flags_trans)
  ultimately show ?thesis using i r v by (simp add: el_inv_def)
qed

lemma iso_cong: "iso_view step v \<Longrightarrow> pv_b w = pv_b v \<Longrightarrow> pv_pde w = pv_pde v \<Longrightarrow> hw_bits (pv_pte v) (pv_pte w) \<Longrightarrow> iso_view step w"
  using hw_bits_keep [of "pv_pte v" "pv_pte w"] by (auto simp: iso_view_def iso_pre_def)

text \<open>User code cannot reach the page directory or a committed frame.\<close>

lemma user_memD:
  assumes "user_mem root as s m" "page_aligned f"
    "\<And>a. a \<in> set as \<Longrightarrow> f \<noteq> pt_of root s (pmb_vaddr (working_set s a))"
    "\<And>a. a \<in> set as \<Longrightarrow> has (pte_of root s (pmb_vaddr (working_set s a))) I386_VM_WRITE \<Longrightarrow>
       f \<noteq> I386_VM_PFA (pte_of root s (pmb_vaddr (working_set s a)))"
  shows "same_frame m f (mem s) f"
  using assms by (simp add: user_mem_def)

lemma run_frame_flags [simp]: "run_frame step (b\<lparr>pmb_flags := fl\<rparr>) = run_frame step b"
  by (simp add: run_frame_def)

lemma run_frame_in: "run_frame step b \<noteq> MAP_NONE \<Longrightarrow> run_frame step b \<in> frames_of b"
  by (auto simp: run_frame_def frames_of_def)

lemma user_inv:
  assumes i: "el_inv p root as s0 s" and u: "user_mem root as s m"
  shows "el_inv p root as s0 ((upd_proc p (\<lambda>q. q\<lparr>p_reg := r, p_kern_trap_style := k\<rparr>) s)
    \<lparr>mem := m, entry := e, origin_syscall := og, msr := c, cr2 := x\<rparr>)" (is "el_inv _ _ _ _ ?t")
proof -
  have R: "pe_running p root as s" and iso: "\<And>a. a \<in> set as \<Longrightarrow> iso_view (h_step s) (view root s a)"
    using i by (auto simp: el_inv_def)
  note S = pe_running_sel [OF R]
  have l: "layout root as s" using S(1) by (simp add: page_world_def)
  have al: "page_aligned f \<and> f \<noteq> root" if "a \<in> set as" "f \<in> frames_of (working_set s a)" for a f
    using layout_block [OF l that(1)] that(2) by (auto simp: block_ok_def)
  have "same_frame m root (mem s) root"
  proof (rule user_memD [OF u])
    show "page_aligned root" using l by (simp add: layout_def)
    fix a assume a: "a \<in> set as"
    show "root \<noteq> pt_of root s (pmb_vaddr (working_set s a))" using layout_block(1) [OF l a] by (auto simp: block_ok_def)
    show "root \<noteq> I386_VM_PFA (pte_of root s (pmb_vaddr (working_set s a)))"
      if "has (pte_of root s (pmb_vaddr (working_set s a))) I386_VM_WRITE"
      using iso [OF a] that al [OF a run_frame_in] by (auto simp: iso_view_def view_sel)
  qed
  then have pd: "pde_of root ?t = pde_of root s"
    using get32_frame_cong PDE_less by (auto simp: pde_of_def fun_eq_iff)
  then have pt: "pt_of root ?t = pt_of root s" by (simp add: pt_of_def fun_eq_iff)
  have pte: "pte_of root ?t v = pte_of root (s\<lparr>mem := m\<rparr>) v" for v by (simp add: pte_of_def pt_of_def pde_of_def)
  have wt: "working_set ?t = working_set s" "rd_fault ?t = rd_fault s" "wr_fault ?t = wr_fault s" by (simp_all add: upd_proc_def)
  have "pmb_nx ?t = pmb_nx s" "pmb_free ?t = pmb_free s" "pmb_page ?t = pmb_page s"
    by (rule ext, simp add: pmb_nx_def pmb_free_def pmb_page_def wt)+
  then have "page_world p root as ?t"
    using S(1) by (simp add: page_world_def ws_list_def layout_def block_ok_def no_faults_def pt wt)
  moreover have hw: "hw_bits (pte_of root s (pmb_vaddr (working_set s a))) (pte_of root ?t (pmb_vaddr (working_set s a)))"
    if "a \<in> set as" for a using u that by (simp add: user_mem_def pte)
  then have "backed root ?t a" if "a \<in> set as" for a
    using S(2) [OF that] hw_bits_keep(3) [OF hw [OF that]] by (simp add: backed_def wt)
  ultimately have "pe_running p root as ?t"
    using R by (simp add: pe_running_def pe_proc_def upd_proc_def Let_def)
  moreover have "iso_view (h_step s) (view root ?t a)" if "a \<in> set as" for a
    by (rule iso_cong [OF iso [OF that]]) (use hw [OF that] in \<open>simp_all add: view_sel wt pd\<close>)
  moreover have "same_frame m (us0 (working_set s a)) (mem s) (us0 (working_set s a))" if a: "a \<in> set as" for a
  proof -
    have z: "us0 (working_set s a) \<in> frames_of (working_set s a)" using S(2) [OF a] by (simp add: backed_def frames_of_def)
    have "us0 (working_set s a) \<noteq> I386_VM_PFA (pte_of root s (pmb_vaddr (working_set s d)))"
      if d: "d \<in> set as" "has (pte_of root s (pmb_vaddr (working_set s d))) I386_VM_WRITE" for d
    proof (cases "d = a")
      case True
      then show ?thesis using iso [OF a] d by (auto simp: iso_view_def view_sel)
    next
      case False
      then have "frames_of (working_set s a) \<inter> frames_of (working_set s d) = {}" using l a d(1) by (auto simp: layout_def)
      moreover have "I386_VM_PFA (pte_of root s (pmb_vaddr (working_set s d))) \<in> frames_of (working_set s d)"
        using iso [OF d(1)] d run_frame_in by (simp add: iso_view_def view_sel)
      ultimately show ?thesis using z by auto
    qed
    moreover have "us0 (working_set s a) \<noteq> pt_of root s (pmb_vaddr (working_set s d))" if "d \<in> set as" for d
      using l a that z by (auto simp: layout_def)
    ultimately show ?thesis using user_memD [OF u] al [OF a z] by blast
  qed
  moreover have "h_step ?t = h_step s" "h_restore ?t = h_restore s" "copy_0 ?t = copy_0 s" "mem ?t = m" by (simp_all add: upd_proc_def)
  ultimately show ?thesis using i by (intro el_inv_step [OF i]) (simp_all add: wt el_inv_def)
qed


text \<open>A fault the kernel handled was on a page of the working set that has both copies.\<close>

lemma handled_fault:
  assumes i: "pe_running p root as s" "h_step s = FIRST_RUN \<or> h_step s = SECOND_RUN"
    and c: "check_vaddr_2 p root v rw s = Inr ((OK, K_HANDLE_PF), t)"
  obtains a s1 where "a \<in> set as" "pmb_page s a = page_base_of v" "run_frame (h_step s) (working_set s a) \<noteq> MAP_NONE"
    "us1 (working_set s a) \<noteq> MAP_NONE" "us2 (working_set s a) \<noteq> MAP_NONE"
    "s1 = s\<lparr>tsc_n := Suc (tsc_n s), pagefault_addr_1 := pagefault_addr_1 s1, pagefault_addr_2 := pagefault_addr_2 s1\<rparr>"
    "cv2_return p (tsc s (tsc_n s)) OK K_HANDLE_PF
       ((upd_pmb a (\<lambda>b. b\<lparr>pmb_flags := setf (setf (pmb_flags b) (run_mark (h_step s))) HGET_PF\<rparr>) s1)
         \<lparr>mem := mem_set32 (mem s) (entry_addr (pt_of root s v) (I386_VM_PTE v))
             (map_frame_w (pte_of root s v) (run_frame (h_step s) (working_set s a)))\<rparr>) = Inr ((OK, K_HANDLE_PF), t)"
proof -
  have nf: "no_faults s" and ws: "ws_list p s as" using pe_running_sel(1) [OF i(1)] by (auto simp: page_world_def)
  define s1 where "s1 = (if h_step s = FIRST_RUN then s\<lparr>tsc_n := Suc (tsc_n s), pagefault_addr_1 := v\<rparr>
                  else s\<lparr>tsc_n := Suc (tsc_n s), pagefault_addr_2 := v\<rparr>)"
  have s1: "s1 = s\<lparr>tsc_n := Suc (tsc_n s), pagefault_addr_1 := pagefault_addr_1 s1, pagefault_addr_2 := pagefault_addr_2 s1\<rparr>"
    "working_set s1 = working_set s" "mem s1 = mem s" "h_step s1 = h_step s" "no_faults s1"
    using nf by (auto simp: s1_def no_faults_def)
  have ret: "cv2_return p st r x u = Inr ((r', x'), t') \<Longrightarrow> r = r' \<and> x = x'" for st r x u r' x' t'
    by (auto simp: cv2_return_def read_tsc_64_def)
  have pe: "check_pt_entry (pde_of root s v) = OK" "has (pte_of root s v) I386_VM_PRESENT"
    using c nf i(2) by (auto simp: check_vaddr_2_def read_tsc_64_def kassert_def phys_get32_def no_faults_def pde_of_def pte_of_def
        pt_of_def cv2_page_def Let_def dest!: ret split: if_splits)
  note rp = check_vaddr_2_reaches_page [OF nf ws i(2) pe, of rw, folded s1_def]
  obtain a where a: "find (\<lambda>a. pmb_page s a = page_base_of v) as = Some a"
    using c rp by (cases "find (\<lambda>a. pmb_page s a = page_base_of v) as") (auto dest: ret)
  then have am: "a \<in> set as" "pmb_page s a = page_base_of v" by (auto simp: find_Some_iff)
  have fr: "us1 (working_set s a) \<noteq> MAP_NONE" "us2 (working_set s a) \<noteq> MAP_NONE"
    using c rp a i(2) by (auto simp: cv2_vm_def s1_def Let_def bnd_eq_Inr dest: ret split: if_splits)
  have nfk: "\<not> pmb_is a H_FORK s1"
    using c rp a fr i(2) s1 by (auto simp: cv2_kernel_def Let_def dest: ret split: if_splits)
  have "cv2_return p (tsc s (tsc_n s)) OK K_HANDLE_PF
       ((upd_pmb a (\<lambda>b. b\<lparr>pmb_flags := setf (setf (pmb_flags b) (run_mark (h_step s))) HGET_PF\<rparr>) s1)
         \<lparr>mem := mem_set32 (mem s) (entry_addr (pt_of root s v) (I386_VM_PTE v))
             (map_frame_w (pte_of root s v) (run_frame (h_step s) (working_set s a)))\<rparr>) = Inr ((OK, K_HANDLE_PF), t)"
    using c rp a fr cv2_kernel_run [OF s1(5) _ nfk] i(2) s1 by simp
  moreover have "run_frame (h_step s) (working_set s a) \<noteq> MAP_NONE" using fr by (simp add: run_frame_def)
  ultimately show thesis using that am fr s1(1) by blast
qed

lemma fault_inv:
  assumes i: "el_inv p root as s0 s" and c: "check_vaddr_2 p root v rw s = Inr ((OK, K_HANDLE_PF), t)"
  shows "el_inv p root as s0 t"
proof -
  have R: "pe_running p root as s" and h: "h_step s = FIRST_RUN \<or> h_step s = SECOND_RUN"
    and iso: "\<And>a. a \<in> set as \<Longrightarrow> iso_view (h_step s) (view root s a)" using i by (auto simp: el_inv_def)
  note S = pe_running_sel [OF R]
  obtain a s1 where a: "a \<in> set as" "pmb_page s a = page_base_of v" "run_frame (h_step s) (working_set s a) \<noteq> MAP_NONE"
    "us1 (working_set s a) \<noteq> MAP_NONE" "us2 (working_set s a) \<noteq> MAP_NONE"
    "s1 = s\<lparr>tsc_n := Suc (tsc_n s), pagefault_addr_1 := pagefault_addr_1 s1, pagefault_addr_2 := pagefault_addr_2 s1\<rparr>"
    "cv2_return p (tsc s (tsc_n s)) OK K_HANDLE_PF
       ((upd_pmb a (\<lambda>b. b\<lparr>pmb_flags := setf (setf (pmb_flags b) (run_mark (h_step s))) HGET_PF\<rparr>) s1)
         \<lparr>mem := mem_set32 (mem s) (entry_addr (pt_of root s v) (I386_VM_PTE v))
             (map_frame_w (pte_of root s v) (run_frame (h_step s) (working_set s a)))\<rparr>) = Inr ((OK, K_HANDLE_PF), t)"
    using handled_fault [OF R h c] .
  let ?b = "working_set s a" let ?f = "run_frame (h_step s) ?b" let ?w = "pmb_vaddr ?b"
  let ?fl = "setf (setf (pmb_flags ?b) (run_mark (h_step s))) HGET_PF" let ?x = "map_frame_w (pte_of root s ?w) ?f"
  define u where "u = (upd_pmb a (\<lambda>b. b\<lparr>pmb_flags := ?fl\<rparr>) s)\<lparr>mem := mem_set32 (mem s)
     (entry_addr (pt_of root s ?w) (I386_VM_PTE ?w)) ?x\<rparr>"
  have s1: "working_set s1 = working_set s" "mem s1 = mem s" "procs s1 = procs s" "copy_0 s1 = copy_0 s" "h_step s1 = h_step s"
    "h_restore s1 = h_restore s" "h_enable s1 = h_enable s" "h_proc_nr s1 = h_proc_nr s" "vm_should_run s1 = vm_should_run s"
    "h_inject_fault s1 = h_inject_fault s" "rd_fault s1 = rd_fault s" "wr_fault s1 = wr_fault s"
    by (subst a(6), simp)+
  have vw: "pt_of root s v = pt_of root s ?w" "pte_of root s v = pte_of root s ?w" "I386_VM_PTE v = I386_VM_PTE ?w"
    using pte_same_page [OF a(2)] same_page_index [OF a(2)] by simp_all
  have tu: "mem t = mem u" "working_set t = working_set u" "rd_fault t = rd_fault u" "wr_fault t = wr_fault u"
    "p_lus1_us2 (procs t p) = p_lus1_us2 (procs u p)" "p_lus1_us2_size (procs t p) = p_lus1_us2_size (procs u p)"
    "p_cr3 (procs t p) = p_cr3 (procs u p)" "p_nr (procs t p) = p_nr (procs u p)" "p_hflags (procs t p) = p_hflags (procs u p)"
    "p_nb_hardening_mem_events (procs t p) = p_nb_hardening_mem_events (procs u p)" "vm_should_run t = vm_should_run u"
    "h_inject_fault t = h_inject_fault u" "h_enable t = h_enable u" "h_proc_nr t = h_proc_nr u" "copy_0 t = copy_0 u"
    "h_step t = h_step u" "h_restore t = h_restore u"
    using a(7) s1 by (auto simp: cv2_return_def read_tsc_64_def upd_proc_def upd_pmb_def u_def vw fun_eq_iff)
  have l: "layout root as s" using S(1) by (simp add: page_world_def)
  have fl: "has ?fl PRAM_SLOT_FREE = pmb_free s a" by (simp add: has_setf_other run_mark_def pmb_free_def)
  note es = entry_step [OF l a(1) fl, of ?x, folded u_def]
  have fo: "frames_ok (pv_b (view root s a))" using frames_ok_world [OF S(1) a(1)] S(2) [OF a(1)] by (simp add: backed_def)
  have fa: "page_aligned ?f" "?f \<noteq> us0 ?b"
    using fo run_frame_in [OF a(3)] a(4,5) by (auto simp: frames_ok_def view_sel run_frame_def)
  have iu: "iso_view (h_step s) (view root u c)" if "c \<in> set as" for c
  proof (cases "c = a")
    case True
    have "iso_pre (view root s a)" using iso [OF a(1)] by (simp add: iso_view_def)
    then have "iso_pre (view root u a)"
      using a(5) fa by (simp add: es(2) iso_pre_def no_half_marked_def view_sel tame_map)
    then show ?thesis using True fa a(3) by (simp add: es(2) iso_view_def pfa_map_frame_w)
  next
    case False
    then show ?thesis using only_page_view_other [OF es(1) l a(1) that] iso [OF that] by simp
  qed
  have wu: "page_world p root as u" using only_page_world [OF es(1) S(1) a(1)] .
  have bl: "(working_set u c)\<lparr>pmb_flags := pmb_flags (working_set s c)\<rparr> = working_set s c" for c
    by (simp add: u_def upd_pmb_def)
  have bu: "backed root u c" if "c \<in> set as" for c
  proof (cases "c = a")
    case True
    have "?f \<noteq> 0" using S(2) [OF a(1)] run_frame_in [OF a(3)] by (auto simp: backed_def)
    then have "I386_VM_PFA (pv_pte (view root u c)) \<noteq> 0" using True fa by (simp add: es(2) pfa_map_frame_w)
    then show ?thesis using backed_step [OF S(1) that S(2) [OF that] bl] by blast
  next
    case False
    have "I386_VM_PFA (pv_pte (view root u c)) \<noteq> 0"
      using only_page_view_other [OF es(1) l a(1) that False] S(2) [OF that] by (simp add: view_sel backed_def)
    then show ?thesis using backed_step [OF S(1) that S(2) [OF that] bl] by blast
  qed
  have "pe_running p root as u"
    using R wu bu by (simp add: pe_running_def pe_proc_def u_def upd_pmb_def Let_def)
  then have "pe_running p root as t" by (subst pe_running_cong [of _ u]) (simp_all add: tu)
  moreover have "view root t c = view root u c" for c by (rule view_cong [OF tu(1,2)])
  moreover have "same_frame (mem u) (us0 (working_set s c)) (mem s) (us0 (working_set s c))" if c: "c \<in> set as" for c
  proof -
    have "us0 (working_set s c) \<in> frames_of (working_set s c)" using S(2) [OF c] by (simp add: backed_def frames_of_def)
    moreover from this have "page_aligned (us0 (working_set s c))" by (rule world_frames_aligned [OF S(1) c])
    moreover have "pt_of root s ?w \<notin> frames_of (working_set s c)" using l a(1) c by (simp add: layout_def)
    ultimately show ?thesis unfolding u_def by (simp, intro set32_frame) (auto simp: PTE_less)
  qed
  moreover have "h_step u = h_step s" "h_restore u = h_restore s" "copy_0 u = copy_0 s" by (simp_all add: u_def upd_pmb_def)
  ultimately show ?thesis using i iu tu bl by (intro el_inv_step [OF i]) (simp_all add: el_inv_def)
qed


lemma el_inv_cong:
  assumes i: "el_inv p root as s0 s" and r: "pe_running p root as t"
    and e: "mem t = mem s" "working_set t = working_set s" "h_step t = h_step s" "h_restore t = h_restore s" "copy_0 t = copy_0 s"
  shows "el_inv p root as s0 t"
proof -
  have "view root t a = view root s a" for a by (rule view_cong [OF e(1,2)])
  then show ?thesis using i r e by (simp add: el_inv_def)
qed

lemma counter_inv:
  assumes i: "el_inv p root as s0 s" shows "el_inv p root as s0 (snd (irh s))"
proof (rule el_inv_cong [OF i])
  have "pe_running p root as s" using i by (simp add: el_inv_def)
  then show "pe_running p root as (snd (irh s))"
    by (subst pe_running_cong [of _ s])
      (simp_all add: irh_def intel_arch_insn_counter_reinit_def ia32_msr_write_def lapic_write_lvtpcr_def upd_proc_def Let_def)
qed (simp_all add: irh_def intel_arch_insn_counter_reinit_def ia32_msr_write_def lapic_write_lvtpcr_def upd_proc_def Let_def)

lemma resume_inv:
  assumes i: "el_inv p root as s0 s" and k: "trap_known (p_kern_trap_style (procs s p))"
    and t: "restore_user_context p s = Inr (ToUser p, t)"
  shows "el_inv p root as s0 t"
proof -
  have r: "pe_running p root as s" "h_step s = FIRST_RUN \<or> h_step s = SECOND_RUN" "h_restore s = 0" using i by (auto simp: el_inv_def)
  define u where "u = enable_counter (set_remain_ins_counter_value_1 p s)"
  have c: "counted p s u" and tu: "t = upd_proc p (\<lambda>q. q\<lparr>p_kern_trap_style := KTS_NONE\<rparr>) u"
    using resume_user [OF r k] t by (simp_all add: u_def)
  show ?thesis
  proof (rule el_inv_cong [OF i])
    show "pe_running p root as t"
      using r(1) by (subst pe_running_cong [of _ s]) (simp_all add: tu upd_proc_def counted_sel [OF c] counted_proc [OF c])
  qed (simp_all add: tu upd_proc_def counted_sel [OF c])
qed

text \<open>At the end of a second run the kernel goes back to user mode only when the runs disagreed.\<close>

lemma to_user_disagrees:
  assumes r: "pe_running p root as s" "proc_ptr s = p" "h_step s = SECOND_RUN" "\<not> stepping_due p s"
    and t: "hardening_task s = Inr (ToUser q, t)"
  shows "\<not> cmp_reg (save_context p s) \<or> (\<exists>a \<in> set as. \<not> page_agrees s a)"
proof (rule ccontr)
  assume n: "\<not> ?thesis"
  let ?e = "run_ended p s"
  have "ws_list p ?e as" using pe_running_sel(1) [OF run_ended_running [OF r(1,3)]] by (simp add: page_world_def)
  moreover have "page_agrees ?e a = page_agrees s a" for a by (simp add: page_agrees_def pmb_is_def run_ended_sel [OF r(3)])
  ultimately obtain u where "cmp_mem p ?e = Inr (OK, u)" using cmp_mem_ok [of p ?e as] n by auto
  with n t show False
    unfolding hardening_task_compares [OF r] by (auto simp: cmp_step_def cmp_reg_ended bnd_eq_Inr)
qed

lemma run_end_inv:
  assumes i: "el_inv p root as s0 s" and pp: "proc_ptr s = p" and sd: "\<not> stepping_due p s"
    and t: "hardening_task s = Inr (ToUser p, t)"
  shows "el_inv p root as s0 t"
proof -
  have r: "pe_running p root as s" "h_restore s = 0" and iso: "\<And>a. a \<in> set as \<Longrightarrow> iso_pre (view root s a)"
    using i by (auto simp: el_inv_def iso_view_def)
  have "pe_running p root as t \<and> (h_step t = FIRST_RUN \<or> h_step t = SECOND_RUN) \<and> h_restore t = 0 \<and> copy_0 t = copy_0 s \<and>
     (\<forall>a. (working_set t a)\<lparr>pmb_flags := pmb_flags (working_set s a)\<rparr> = working_set s a) \<and>
     (\<forall>a \<in> set as. iso_view (h_step t) (view root t a) \<and> same_frame (mem t) (us0 (working_set s a)) (mem s) (us0 (working_set s a)))"
  proof (cases "h_step s = FIRST_RUN")
    case True
    then show ?thesis using task_second_run [OF r(1) pp True r(2)] t iso by auto
  next
    case False
    then have h: "h_step s = SECOND_RUN" using i by (auto simp: el_inv_def)
    then show ?thesis
      using task_recovers [OF r(1) pp h sd to_user_disagrees [OF r(1) pp h sd t]] t iso by auto
  qed
  then show ?thesis by (intro el_inv_step [OF i]) auto
qed

lemma step_inv: "pe_step p root as s t \<Longrightarrow> el_inv p root as s0 s \<Longrightarrow> el_inv p root as s0 t"
proof (erule pe_step.cases, goal_cases)
  case 1
  then show ?case using user_inv by blast
next
  case 2
  then show ?case using fault_inv by blast
next
  case 3
  then show ?case using counter_inv by blast
next
  case 4
  then show ?case using resume_inv by blast
next
  case 5
  then show ?case using run_end_inv by blast
qed

lemma reach_inv: "pe_reach p root as s0 s \<Longrightarrow> el_inv p root as s0 s0 \<Longrightarrow> el_inv p root as s0 s"
  by (induction rule: pe_reach.induct) (auto intro: step_inv)

end
