(* ===== verification/Samples.thy ===== *)
theory Samples
  imports Element_Steps
begin

text \<open>
  Concrete kernel states at which the properties of the element are evaluated: one
  process with one page, before, during and at the end of an element.
\<close>

section \<open>Concrete states\<close>

text \<open>
  Process 1 at the end of the second run of its first element; the page was written in
  both runs and the runs disagree on it.
\<close>

definition run_state :: kstate where
  "run_state = sample_state\<lparr>copy_0 := zero_start_copy\<lparr>z_kern_trap_style := KTS_INT_HARD\<rparr>\<rparr>"

text \<open>The same state when the first run wrote the same value.\<close>

definition agree_state :: kstate where
  "agree_state = run_state\<lparr>mem := mem_copy sample_mem 0x7000 0x6000 4096\<rparr>"

text \<open>The same state when the first run did not write the page.\<close>

definition unmarked_state :: kstate where
  "unmarked_state = upd_pmb 0 (\<lambda>b. b\<lparr>pmb_flags := HGET_PF OR IWS_PF_SECOND\<rparr>) run_state"

text \<open>No element in progress, process 1 chosen to run.\<close>

definition idle_state :: kstate where
  "idle_state = run_state\<lparr>h_enable := H_DISABLE, h_step := NO_HARD_RUN, h_proc_nr := 0\<rparr>"

lemma sample_backed: "backed 0x1000 sample_state 0"
  by (simp add: backed_def frames_of_def I386_VM_PFA_def)

lemma run_state_running: "pe_running 1 0x1000 [0] run_state"
proof -
  have "page_world 1 0x1000 [0] run_state" using sample_world by (subst page_world_cong [of _ sample_state]) (simp_all add: run_state_def)
  moreover have "backed 0x1000 run_state 0"
    using sample_backed by (simp add: backed_def run_state_def pte_of_def pt_of_def pde_of_def)
  ultimately show ?thesis
    by (simp add: pe_running_def pe_proc_def run_state_def trap_known_def sample_state_def bss_state_def zero_proc_def zero_start_copy_def has_def)
qed

lemma agree_running: "pe_running 1 0x1000 [0] agree_state"
proof -
  have t: "pde_of 0x1000 agree_state 0x3000 = 0x2007" "pt_of 0x1000 agree_state 0x3000 = 0x2000" "pte_of 0x1000 agree_state 0x3000 = 0x7007"
    by (simp_all add: pde_of_def pt_of_def pte_of_def entry_addr_def agree_state_def sample_mem_def mem_copy_def mem_get32_def mem_set32_def I386_VM_PFA_def)
  have w: "working_set agree_state 0 = sample_block" by (simp add: agree_state_def run_state_def)
  have "page_world 1 0x1000 [0] agree_state"
    by (simp add: page_world_def ws_list_def layout_def block_ok_def no_faults_def frames_of_def page_aligned_def
      pmb_nx_def pmb_free_def has_def t w) (simp add: agree_state_def run_state_def)
  moreover have "backed 0x1000 agree_state 0" by (simp add: backed_def frames_of_def I386_VM_PFA_def t w)
  moreover have "procs agree_state = procs run_state" "h_enable agree_state = h_enable run_state" "h_proc_nr agree_state = h_proc_nr run_state"
    "copy_0 agree_state = copy_0 run_state" "vm_should_run agree_state = vm_should_run run_state" "h_inject_fault agree_state = h_inject_fault run_state"
    by (simp_all add: agree_state_def)
  ultimately show ?thesis using run_state_running by (simp add: pe_running_def pe_proc_def)
qed

lemma unmarked_running: "pe_running 1 0x1000 [0] unmarked_state"
proof -
  have w: "working_set unmarked_state 0 = sample_block\<lparr>pmb_flags := HGET_PF OR IWS_PF_SECOND\<rparr>" by (simp add: unmarked_state_def run_state_def)
  have m: "mem unmarked_state = mem sample_state" by (simp add: unmarked_state_def run_state_def)
  have t: "pde_of 0x1000 unmarked_state v = pde_of 0x1000 sample_state v" "pt_of 0x1000 unmarked_state v = pt_of 0x1000 sample_state v"
    "pte_of 0x1000 unmarked_state v = pte_of 0x1000 sample_state v" for v
    by (simp_all add: pde_of_def pt_of_def pte_of_def m)
  have "page_world 1 0x1000 [0] unmarked_state"
    by (simp add: page_world_def ws_list_def layout_def block_ok_def no_faults_def frames_of_def page_aligned_def
      pmb_nx_def pmb_free_def has_def t w) (simp add: unmarked_state_def run_state_def)
  moreover have "backed 0x1000 unmarked_state 0" by (simp add: backed_def frames_of_def I386_VM_PFA_def t w)
  ultimately show ?thesis using run_state_running
    by (simp add: pe_running_def pe_proc_def unmarked_state_def upd_pmb_def)
qed

lemma idle_state_world: "page_world 1 0x1000 [0] idle_state"
  using sample_world by (subst page_world_cong [of _ sample_state]) (simp_all add: idle_state_def run_state_def)

lemma idle_backed: "backed 0x1000 idle_state 0"
  using sample_backed by (simp add: backed_def idle_state_def run_state_def pte_of_def pt_of_def pde_of_def)

lemma idle_proc: "pe_proc 1 0x1000 idle_state"
  using run_state_running by (simp add: pe_running_def pe_proc_def idle_state_def)

lemmas state_defs = idle_state_def unmarked_state_def agree_state_def run_state_def

lemma no_stepping: "\<not> stepping_due 1 run_state" "\<not> stepping_due 1 agree_state" "\<not> stepping_due 1 unmarked_state"
  by (simp_all add: stepping_due_def state_defs sample_state_def bss_state_def upd_pmb_def)

text \<open>A comparison of two runs that both stopped with the zero context succeeds.\<close>

lemma zero_contexts_agree:
  assumes "h_step s = SECOND_RUN" "copy_1 s = zero_run_copy" "p_reg (procs s p) = zero_frame" "origin_syscall s = 0" "entry s = zero_entry"
    "cr0 s = 0" "cr2 s = 0" "cr3 s = 0" "cr4 s = 0" "pagefault_addr_1 s = pagefault_addr_2 s"
  shows "cmp_reg (save_context p s)"
proof -
  have e: "save_context p s = save_copy_2 p s" using assms(1) by (simp add: save_context_def)
  have f: "copy_1 (save_copy_2 p s) = zero_run_copy" "origin_syscall (save_copy_2 p s) = 0"
    "pagefault_addr_1 (save_copy_2 p s) = pagefault_addr_2 (save_copy_2 p s)"
    "c_reg (copy_2 (save_copy_2 p s)) = (move_regs zero_frame (c_reg (copy_2 s)))\<lparr>r_st := r_st zero_frame\<rparr>"
    "c_origin (copy_2 (save_copy_2 p s)) = 0" "c_entry (copy_2 (save_copy_2 p s)) = zero_entry"
    "c_cr0 (copy_2 (save_copy_2 p s)) = 0" "c_cr2 (copy_2 (save_copy_2 p s)) = 0"
    "c_cr3 (copy_2 (save_copy_2 p s)) = 0" "c_cr4 (copy_2 (save_copy_2 p s)) = 0"
    using assms by (simp_all add: save_copy_2_def Let_def)
  show ?thesis unfolding e cmp_reg_def same_full_def same_general_def same_segments_def Let_def f
    by (simp add: move_regs_def zero_run_copy_def)
qed

lemma same_registers: "cmp_reg (save_context 1 agree_state)" "cmp_reg (save_context 1 unmarked_state)"
  by (rule zero_contexts_agree; simp add: state_defs sample_state_def upd_pmb_def bss_state_def zero_proc_def)+

lemma agree_pages: "page_agrees agree_state 0"
proof -
  have "same_frame (mem agree_state) 0x6000 sample_mem 0x7000" "same_frame (mem agree_state) 0x7000 sample_mem 0x7000"
    unfolding agree_state_def by (simp_all add: copy_same copy_other page_aligned_def)
  then have "same_frame (mem agree_state) 0x7000 (mem agree_state) 0x6000"
    using same_frame_sym same_frame_trans by blast
  then show ?thesis by (simp add: page_agrees_def) (simp add: agree_state_def run_state_def)
qed

lemma same_frame_byte: "m f \<noteq> m' g \<Longrightarrow> \<not> same_frame m f m' g"
  by (auto simp: same_frame_def intro!: exI [of _ 0])

end
