(* ===== verification/Ipc_Laws.thy ===== *)
theory Ipc_Laws
  imports Ipc_Calls
begin

text \<open>
  What the message passing primitives do: a message is delivered to a waiting receiver or the sender
  is blocked at the end of the receiver's queue, the receiver takes the first message that fits, and
  the ready lists follow. The queue of blocked senders is a list read off the links.
\<close>

section \<open>Updates outside the scheduler\<close>

interpretation callq: slot_table "\<lambda>s b. p_msgs (procs s b)" upd_msgs p_q_link "\<lambda>q n. n\<lparr>p_q_link := q\<rparr>"
  by unfold_locales (simp_all add: upd_msgs_def)

text \<open>Two states the scheduler cannot tell apart.\<close>

definition same_sched :: "kstate \<Rightarrow> kstate \<Rightarrow> bool" where
  "same_sched s t \<longleftrightarrow>
     (\<forall>x. p_sched (procs t x) = p_sched (procs s x) \<and> p_rts_flags (procs t x) = p_rts_flags (procs s x) \<and>
          p_magic (procs t x) = p_magic (procs s x) \<and> s_stack_guard (priv_of t x) = s_stack_guard (priv_of s x) \<and>
          s_flags (priv_of t x) = s_flags (priv_of s x)) \<and>
     run_q_head t = run_q_head s \<and> run_q_tail t = run_q_tail s \<and> proc_ptr t = proc_ptr s"

text \<open>The identities of the processes, their privileges and the progress of the element.\<close>

definition same_ids :: "kstate \<Rightarrow> kstate \<Rightarrow> bool" where
  "same_ids s t \<longleftrightarrow> ppriv_addr t = ppriv_addr s \<and> proc_ptr t = proc_ptr s \<and>
     h_enable t = h_enable s \<and> h_step t = h_step s \<and> h_step_back t = h_step_back s \<and> h_proc_nr t = h_proc_nr s \<and>
     h_rw t = h_rw s \<and> cr2 t = cr2 s \<and> vm_should_run t = vm_should_run s \<and>
     (\<forall>x. p_priv (procs t x) = p_priv (procs s x) \<and> p_endpoint (procs t x) = p_endpoint (procs s x) \<and>
          p_nr (procs t x) = p_nr (procs s x))"

lemma same_ids_refl [simp]: "same_ids s s"
  by (simp add: same_ids_def)

lemma same_ids_trans: "same_ids s t \<Longrightarrow> same_ids t u \<Longrightarrow> same_ids s u"
  by (simp add: same_ids_def)

lemma same_ids_writes:
  "same_ids s (upd_msgs p f s)" "same_ids s (set_misc p m s)" "same_ids s (clr_misc p m s)"
  "same_ids s (IPC_STATUS_ADD p m s)" "same_ids s (upd_proc p (\<lambda>q. q\<lparr>p_sendto_e := a\<rparr>) s)"
  "same_ids s (upd_proc p (\<lambda>q. q\<lparr>p_getfrom_e := a\<rparr>) s)" "same_ids s (with_flags p f' s)" "same_ids s (ready_flags p s)"
  by (simp_all add: same_ids_def upd_msgs_def set_misc_def clr_misc_def IPC_STATUS_ADD_def with_flags_def ready_flags_def upd_proc_def)

lemma same_ids_sched: "sched_only s t \<Longrightarrow> same_ids s t"
proof -
  assume so: "sched_only s t"
  then have "s = t\<lparr>procs := procs s, run_q_head := run_q_head s, run_q_tail := run_q_tail s, tsc_n := tsc_n s\<rparr>"
    by (simp add: sched_only_def)
  note c = arg_cong [OF this]
  show ?thesis
    using sched_only_proc [OF so] sched_only_sel(1,2) [OF so] c [of h_enable] c [of h_step] c [of h_step_back] c [of h_proc_nr]
      c [of h_rw] c [of cr2] c [of vm_should_run] by (simp add: same_ids_def)
qed

lemma same_ids_priv: "same_ids s t \<Longrightarrow> priv_of t = priv_of s \<and>
   has_pending_notify c p t = has_pending_notify c p s \<and> has_pending_asend c p t = has_pending_asend c p s"
  by (auto simp: same_ids_def priv_of_def fun_eq_iff has_pending_notify_def has_pending_asend_def has_pending_def)

lemma same_sched_refl [simp]: "same_sched s s"
  by (simp add: same_sched_def)

lemma same_sched_trans: "same_sched s t \<Longrightarrow> same_sched t u \<Longrightarrow> same_sched s u"
  by (simp add: same_sched_def)

lemma same_sched_view:
  assumes "same_sched s t"
  shows "rq_inv Q t = rq_inv Q s" "ready_list t = ready_list s" "ready_inv t = ready_inv s" "cur_ok t = cur_ok s"
    "prio t = prio s" "proc_ptr t = proc_ptr s" "p_rts_flags (procs t x) = p_rts_flags (procs s x)"
proof -
  have v: "nextready t = nextready s" "prio t = prio s" "sched_ok t = sched_ok s"
    "\<And>x. proc_is_runnable (procs t x) = proc_is_runnable (procs s x)"
    using assms by (auto simp: same_sched_def nextready_def prio_def sched_ok_def proc_ptr_ok_def proc_is_runnable_def fun_eq_iff)
  then show r: "rq_inv Q t = rq_inv Q s" "ready_list t = ready_list s" for Q
    using assms unfolding same_sched_def rq_inv_def rq_lists_def ready_list_def by (simp_all cong: if_cong)
  then show "ready_inv t = ready_inv s" "cur_ok t = cur_ok s" "prio t = prio s" "proc_ptr t = proc_ptr s"
    "p_rts_flags (procs t x) = p_rts_flags (procs s x)"
    using v assms by (auto simp: ready_inv_def cur_ok_def same_sched_def)
qed

lemma same_sched_writes:
  "same_sched s (upd_msgs p f s)" "same_sched s (set_misc p m s)" "same_sched s (clr_misc p m s)"
  "same_sched s (IPC_STATUS_ADD p m s)"
  "same_sched s (upd_proc p (\<lambda>q. q\<lparr>p_sendto_e := a\<rparr>) s)" "same_sched s (upd_proc p (\<lambda>q. q\<lparr>p_getfrom_e := a\<rparr>) s)"
  by (simp_all add: same_sched_def upd_msgs_def set_misc_def clr_misc_def IPC_STATUS_ADD_def priv_of_def upd_proc_def)

lemma same_sched_priv:
  "(\<And>v. s_stack_guard (f v) = s_stack_guard v \<and> s_flags (f v) = s_flags v) \<Longrightarrow> same_sched s (upd_priv p f s)"
  by (simp add: same_sched_def upd_priv_def priv_of_def)

text \<open>\<open>RTS_UNSET\<close> and \<open>RTS_SET\<close> seen by the message passing: nothing but flags, queues and accounts.\<close>

lemma RTS_UNSET_frame:
  assumes "ready_inv s" "cur_ok s" "isokprocn p"
  obtains t where "RTS_UNSET p f s = Inr t" "ready_inv t" "cur_ok t"
    "\<And>x. p_msgs (procs t x) = p_msgs (procs s x) \<and> p_misc_flags (procs t x) = p_misc_flags (procs s x) \<and>
       p_reg (procs t x) = p_reg (procs s x) \<and> p_endpoint (procs t x) = p_endpoint (procs s x) \<and> p_nr (procs t x) = p_nr (procs s x)"
    "p_rts_flags (procs t p) = clrf (p_rts_flags (procs s p)) f" "prio t = prio s" "same_ids s t"
    "\<And>x. x \<noteq> p \<Longrightarrow> p_rts_flags (procs t x) = p_rts_flags (procs s x) \<or>
       x = proc_ptr s \<and> p_rts_flags (procs t x) = setf (p_rts_flags (procs s x)) RTS_PREEMPTED"
proof -
  let ?f = "clrf (p_rts_flags (procs s p)) f" let ?w = "\<not> proc_is_runnable (procs s p) \<and> ?f = 0"
  obtain t where t: "RTS_UNSET p f s = Inr t"
    "rq_inv (if ?w then ready_spec p (with_flags p ?f s) (ready_list s) else ready_list s) t"
    "sched_only (if ?w then ready_flags p (with_flags p ?f s) else with_flags p ?f s) t"
    using RTS_UNSET_ok [of "ready_list s" s p f] assms by (auto simp: ready_inv_def)
  let ?S = "if ?w then ready_flags p (with_flags p ?f s) else with_flags p ?f s"
  have S: "p_msgs (procs ?S x) = p_msgs (procs s x) \<and> p_misc_flags (procs ?S x) = p_misc_flags (procs s x) \<and>
       p_reg (procs ?S x) = p_reg (procs s x) \<and> p_endpoint (procs ?S x) = p_endpoint (procs s x) \<and> p_nr (procs ?S x) = p_nr (procs s x)"
    "prio ?S = prio s" "ppriv_addr ?S = ppriv_addr s" "proc_ptr ?S = proc_ptr s" for x
    by (simp_all add: ready_flags_def with_flags_def upd_proc_def prio_def fun_eq_iff)
  have pf: "p_rts_flags (procs ?S p) = ?f"
    by (auto simp: ready_flags_def preempts_def)
  note v = sched_only_proc [OF t(3)] sched_only_view [OF t(3)] sched_only_sel [OF t(3)]
  have of: "x \<noteq> p \<Longrightarrow> p_rts_flags (procs ?S x) = p_rts_flags (procs s x) \<or>
       x = proc_ptr s \<and> p_rts_flags (procs ?S x) = setf (p_rts_flags (procs s x)) RTS_PREEMPTED" for x
    by (auto simp: ready_flags_def)
  have "same_ids s ?S" using same_ids_trans [OF same_ids_writes(7,8)] same_ids_writes(7) by simp
  then have ids: "same_ids s t" using same_ids_sched [OF t(3)] by (rule same_ids_trans)
  show thesis
    by (rule that [OF t(1)])
      (use ready_invI [OF t(2)] v S pf of ids assms(2) in \<open>simp_all add: cur_ok_def\<close>)
qed

lemma RTS_SET_frame:
  assumes "ready_inv s" "cur_ok s" "isokprocn p" "f \<noteq> 0"
  obtains t where "RTS_SET p f s = Inr t" "ready_inv t" "cur_ok t"
    "\<And>x. p_msgs (procs t x) = p_msgs (procs s x) \<and> p_misc_flags (procs t x) = p_misc_flags (procs s x) \<and>
       p_reg (procs t x) = p_reg (procs s x) \<and> p_endpoint (procs t x) = p_endpoint (procs s x) \<and> p_nr (procs t x) = p_nr (procs s x) \<and>
       p_getfrom_e (procs t x) = p_getfrom_e (procs s x)"
    "\<And>x. p_rts_flags (procs t x) = (if x = p then setf (p_rts_flags (procs s p)) f else p_rts_flags (procs s x))"
    "prio t = prio s" "same_ids s t"
proof -
  let ?S = "with_flags p (setf (p_rts_flags (procs s p)) f) s"
  obtain t Q where t: "RTS_SET p f s = Inr t" "rq_inv Q t" "sched_only ?S t"
    using RTS_SET_ok [of "ready_list s" s p f] assms by (auto simp: ready_inv_def)
  have S: "p_msgs (procs ?S x) = p_msgs (procs s x) \<and> p_misc_flags (procs ?S x) = p_misc_flags (procs s x) \<and>
       p_reg (procs ?S x) = p_reg (procs s x) \<and> p_endpoint (procs ?S x) = p_endpoint (procs s x) \<and> p_nr (procs ?S x) = p_nr (procs s x) \<and>
       p_getfrom_e (procs ?S x) = p_getfrom_e (procs s x)"
    "prio ?S = prio s" "ppriv_addr ?S = ppriv_addr s" "proc_ptr ?S = proc_ptr s" for x
    by (simp_all add: with_flags_def upd_proc_def prio_def fun_eq_iff)
  note v = sched_only_proc [OF t(3)] sched_only_view [OF t(3)] sched_only_sel [OF t(3)]
  have ids: "same_ids s t" by (rule same_ids_trans [OF same_ids_writes(7) same_ids_sched [OF t(3)]])
  show thesis
    by (rule that [OF t(1)])
      (use ready_invI [OF t(2)] v S ids assms(2) in \<open>simp_all add: cur_ok_def\<close>)
qed

section \<open>The queue of blocked senders\<close>

definition waiting :: "kstate \<Rightarrow> int \<Rightarrow> int list \<Rightarrow> bool" where
  "waiting s dst cs \<longleftrightarrow> chain (q_link s) (p_caller_q (p_msgs (procs s dst))) cs"

lemma waiting_cong:
  "(\<And>x. p_msgs (procs t x) = p_msgs (procs s x)) \<Longrightarrow> waiting t dst cs = waiting s dst cs"
proof -
  assume a: "\<And>x. p_msgs (procs t x) = p_msgs (procs s x)"
  then have "q_link t = q_link s" by (simp add: q_link_def fun_eq_iff)
  with a show ?thesis by (simp add: waiting_def)
qed

text \<open>Writes that leave the links of the queues alone.\<close>

definition same_links :: "kstate \<Rightarrow> kstate \<Rightarrow> bool" where
  "same_links s t \<longleftrightarrow> (\<forall>x. p_q_link (p_msgs (procs t x)) = p_q_link (p_msgs (procs s x)) \<and>
     p_caller_q (p_msgs (procs t x)) = p_caller_q (p_msgs (procs s x)))"

lemma same_links_waiting: "same_links s t \<Longrightarrow> waiting t dst cs = waiting s dst cs \<and> q_link t = q_link s"
proof -
  assume a: "same_links s t"
  then have "q_link t = q_link s" by (simp add: q_link_def same_links_def fun_eq_iff)
  with a show ?thesis by (simp add: waiting_def same_links_def)
qed

lemma append_caller_ok:
  assumes w: "waiting s dst cs" and c: "q_link s caller = None" "caller \<notin> set cs"
  shows "\<exists>t. append_caller caller dst s = Inr t \<and> waiting t dst (cs @ [caller]) \<and> same_sched s t \<and>
     (\<forall>x. p_sendmsg (p_msgs (procs t x)) = p_sendmsg (p_msgs (procs s x)) \<and> p_sendto_e (procs t x) = p_sendto_e (procs s x) \<and>
       p_misc_flags (procs t x) = p_misc_flags (procs s x)) \<and> same_ids s t"
proof (cases "cs = []")
  case True
  let ?t = "upd_msgs dst (\<lambda>x. x\<lparr>p_caller_q := Some caller\<rparr>) s"
  have "q_link ?t = q_link s" by (rule ext) (simp add: q_link_def upd_msgs_def)
  then show ?thesis
    using True w c same_sched_writes(1) [of s dst] same_ids_writes(1) [of s dst]
    by (auto simp: append_caller_def waiting_def intro!: exI [of _ ?t]) (auto simp: upd_msgs_def)
next
  case False
  let ?t = "upd_msgs (last cs) (\<lambda>x. x\<lparr>p_q_link := Some caller\<rparr>) s"
  have ch: "chain (q_link s) (p_caller_q (p_msgs (procs s dst))) cs" using w by (simp add: waiting_def)
  have e: "append_caller caller dst s = Inr ?t"
    using chain_head [OF ch] False tail_of_chain [OF ch False] by (cases cs) (auto simp: append_caller_def)
  have "q_link ?t = (q_link s)(last cs := Some caller)" unfolding q_link_def by (rule callq.nxt_upd_link)
  moreover have "(q_link s)(last cs := Some caller, caller := None) = (q_link s)(last cs := Some caller)"
    using c False by (auto simp: fun_eq_iff)
  moreover have "p_caller_q (p_msgs (procs ?t dst)) = p_caller_q (p_msgs (procs s dst))" by (simp add: upd_msgs_def)
  ultimately have "waiting ?t dst (cs @ [caller])"
    using chain_append_tail [OF ch False c(2)] by (simp add: waiting_def)
  then show ?thesis using e same_sched_writes(1) same_ids_writes(1) by (auto simp: upd_msgs_def)
qed

section \<open>Sending\<close>

lemma deliver_ok:
  assumes inv: "ready_inv s" "cur_ok s" and d: "isokprocn dst"
  obtains t where "deliver caller dst m flags s = Inr (OK, t)" "ready_inv t" "cur_ok t"
    "p_delivermsg (p_msgs (procs t dst)) = m\<lparr>m_source := p_endpoint (procs s caller)\<rparr>"
    "misc_is t dst MF_DELIVERMSG" "\<not> misc_is t dst MF_REPLY_PEND"
    "p_rts_flags (procs t dst) = clrf (p_rts_flags (procs s dst)) RTS_RECEIVING" "prio t = prio s" "same_links s t"
    "same_ids s t"
    "\<And>x. x \<noteq> dst \<Longrightarrow> p_rts_flags (procs t x) = p_rts_flags (procs s x) \<or>
       x = proc_ptr s \<and> p_rts_flags (procs t x) = setf (p_rts_flags (procs s x)) RTS_PREEMPTED"
proof -
  define s1 where "s1 = upd_msgs dst (\<lambda>x. x\<lparr>p_delivermsg := m\<rparr>) s"
  define s2 where "s2 = (if has flags FROM_KERNEL then IPC_STATUS_ADD_FLAGS dst IPC_FLG_MSG_FROM_KERNEL s1 else s1)"
  define s3 where "s3 = upd_msgs dst (\<lambda>x. x\<lparr>p_delivermsg := (p_delivermsg x)\<lparr>m_source := p_endpoint (procs s2 caller)\<rparr>\<rparr>) s2"
  define s4 where "s4 = set_misc dst MF_DELIVERMSG s3"
  define s5 where "s5 = clr_misc dst MF_REPLY_PEND (IPC_STATUS_ADD_CALL dst
      (if misc_is s4 caller MF_REPLY_PEND then SENDREC else if has flags NON_BLOCKING then SENDNB else SEND) s4)"
  have ss: "same_sched s s1" "same_sched s1 s2" "same_sched s2 s3" "same_sched s3 s4" "same_sched s4 s5"
    by (auto simp: s1_def s2_def s3_def s4_def s5_def IPC_STATUS_ADD_FLAGS_def IPC_STATUS_ADD_CALL_def same_sched_writes
        intro: same_sched_trans [OF same_sched_writes(4) same_sched_writes(3)])
  then have s5: "same_sched s s5" by (meson same_sched_trans)
  note v = same_sched_view [OF s5]
  have n2: "p_endpoint (procs s2 x) = p_endpoint (procs s x)" "p_msgs (procs s2 x) = p_msgs (procs s1 x)" for x
    by (simp_all add: s2_def s1_def upd_msgs_def IPC_STATUS_ADD_FLAGS_def IPC_STATUS_ADD_def)
  have m5: "p_msgs (procs s5 x) = (if x = dst then (p_msgs (procs s x))\<lparr>p_delivermsg := m\<lparr>m_source := p_endpoint (procs s caller)\<rparr>\<rparr>
      else p_msgs (procs s x))" for x
    by (simp add: s5_def s4_def s3_def n2 clr_misc_def set_misc_def IPC_STATUS_ADD_CALL_def IPC_STATUS_ADD_def upd_msgs_def)
      (simp add: s1_def upd_msgs_def)
  have f5: "misc_is s5 dst MF_DELIVERMSG" "\<not> misc_is s5 dst MF_REPLY_PEND"
    by (simp_all add: s5_def s4_def misc_is_def clr_misc_def set_misc_def IPC_STATUS_ADD_CALL_def IPC_STATUS_ADD_def
        has_clrf_other has_setf_same)
  obtain t where t: "RTS_UNSET dst RTS_RECEIVING s5 = Inr t" "ready_inv t" "cur_ok t"
    "\<And>x. p_msgs (procs t x) = p_msgs (procs s5 x) \<and> p_misc_flags (procs t x) = p_misc_flags (procs s5 x)"
    "p_rts_flags (procs t dst) = clrf (p_rts_flags (procs s5 dst)) RTS_RECEIVING" "prio t = prio s5" "same_ids s5 t"
    "\<And>x. x \<noteq> dst \<Longrightarrow> p_rts_flags (procs t x) = p_rts_flags (procs s5 x) \<or>
       x = proc_ptr s5 \<and> p_rts_flags (procs t x) = setf (p_rts_flags (procs s5 x)) RTS_PREEMPTED"
    by (rule RTS_UNSET_frame [of s5 dst RTS_RECEIVING]) (use inv v d in auto)
  have "same_ids s s1" "same_ids s1 s2" "same_ids s2 s3" "same_ids s3 s4" "same_ids s4 s5"
    by (auto simp: s1_def s2_def s3_def s4_def s5_def IPC_STATUS_ADD_FLAGS_def IPC_STATUS_ADD_CALL_def same_ids_writes
        intro: same_ids_trans [OF same_ids_writes(4) same_ids_writes(3)])
  then have ids: "same_ids s t" using t(7) by (meson same_ids_trans)
  show thesis
  proof (rule that)
    show "deliver caller dst m flags s = Inr (OK, t)"
    proof -
      have "deliver caller dst m flags s = bnd (RTS_UNSET dst RTS_RECEIVING s5) (\<lambda>s. Inr (OK, s))"
        by (simp only: deliver_def Let_def s5_def s4_def s3_def s2_def s1_def)
      then show ?thesis using t(1) by simp
    qed
    show "same_links s t" using t(4) m5 by (simp add: same_links_def)
  qed (use t v m5 f5 ids in \<open>simp_all add: misc_is_def\<close>)
qed

lemma block_sender_ok:
  assumes inv: "ready_inv s" "cur_ok s" and c: "isokprocn caller" "q_link s caller = None" "caller \<notin> set cs"
    and w: "waiting s dst cs"
  obtains t where "block_sender caller dst dst_e m flags s = Inr (OK, t)" "ready_inv t" "cur_ok t"
    "waiting t dst (cs @ [caller])" "p_sendmsg (p_msgs (procs t caller)) = m" "p_sendto_e (procs t caller) = dst_e"
    "\<And>x. p_rts_flags (procs t x) = (if x = caller then setf (p_rts_flags (procs s x)) RTS_SENDING else p_rts_flags (procs s x))"
    "prio t = prio s" "same_ids s t"
    "\<And>x k. k AND MF_SENDING_FROM_KERNEL = 0 \<Longrightarrow> misc_is t x k = misc_is s x k"
proof -
  define s1 where "s1 = upd_msgs caller (\<lambda>x. x\<lparr>p_sendmsg := m\<rparr>) s"
  define s2 where "s2 = (if has flags FROM_KERNEL then set_misc caller MF_SENDING_FROM_KERNEL s1 else s1)"
  have "same_sched s s1" "same_sched s1 s2" by (simp_all add: s1_def s2_def same_sched_writes)
  then have ss: "same_sched s s2" by (rule same_sched_trans)
  note v = same_sched_view [OF ss]
  have m2: "p_msgs (procs s2 x) = (if x = caller then (p_msgs (procs s x))\<lparr>p_sendmsg := m\<rparr> else p_msgs (procs s x))" for x
    by (simp add: s2_def s1_def set_misc_def upd_msgs_def)
  obtain u where u: "RTS_SET caller RTS_SENDING s2 = Inr u" "ready_inv u" "cur_ok u"
    "\<And>x. p_msgs (procs u x) = p_msgs (procs s2 x)"
    "\<And>x. p_rts_flags (procs u x) = (if x = caller then setf (p_rts_flags (procs s2 caller)) RTS_SENDING else p_rts_flags (procs s2 x))"
    "prio u = prio s2" "same_ids s2 u" "\<And>x. p_misc_flags (procs u x) = p_misc_flags (procs s2 x)"
    by (rule RTS_SET_frame [of s2 caller RTS_SENDING]) (use inv v c in auto)
  define u1 where "u1 = upd_proc caller (\<lambda>q. q\<lparr>p_sendto_e := dst_e\<rparr>) u"
  have su: "same_sched u u1" by (simp add: u1_def same_sched_writes)
  have l: "same_links s u1" using u(4) m2 by (simp add: same_links_def u1_def)
  have w1: "waiting u1 dst cs" "q_link u1 caller = None" using w c same_links_waiting [OF l] by simp_all
  obtain t where t: "append_caller caller dst u1 = Inr t" "waiting t dst (cs @ [caller])" "same_sched u1 t"
    "\<And>x. p_sendmsg (p_msgs (procs t x)) = p_sendmsg (p_msgs (procs u1 x)) \<and> p_sendto_e (procs t x) = p_sendto_e (procs u1 x)"
    "\<And>x. p_misc_flags (procs t x) = p_misc_flags (procs u1 x)" "same_ids u1 t"
    using append_caller_ok [OF w1 c(3)] by auto
  note vt = same_sched_view [OF same_sched_trans [OF su t(3)]]
  have e: "block_sender caller dst dst_e m flags s =
      bnd (RTS_SET caller RTS_SENDING s2) (\<lambda>s.
         let s = upd_proc caller (\<lambda>q. q\<lparr>p_sendto_e := dst_e\<rparr>) s
         in bnd (kassert (q_link s caller = None) ''caller_ptr->p_q_link == NULL'' s) (\<lambda>s.
            bnd (append_caller caller dst s) (\<lambda>s. Inr (OK, s))))"
    by (simp only: block_sender_def Let_def s2_def s1_def)
  have "same_ids s s2" using same_ids_trans [OF same_ids_writes(1) same_ids_writes(2)] same_ids_writes(1) by (simp add: s2_def s1_def)
  moreover have "same_ids u u1" unfolding u1_def by (rule same_ids_writes)
  ultimately have ids: "same_ids s t" using u(7) t(6) same_ids_trans by meson
  have mt: "misc_is t x k = misc_is s x k" if "k AND MF_SENDING_FROM_KERNEL = 0" for x k
    using that t(5) u(8) by (simp add: misc_is_def u1_def s2_def s1_def set_misc_def upd_msgs_def has_setf_other and.commute)
  show thesis
  proof (rule that)
    show "block_sender caller dst dst_e m flags s = Inr (OK, t)"
      using e u(1) t(1) w1(2) by (simp add: Let_def kassert_def flip: u1_def)
    show "p_sendmsg (p_msgs (procs t caller)) = m" "p_sendto_e (procs t caller) = dst_e"
      using t(4) u(4) m2 by (simp_all add: u1_def)
  qed (use t(2) vt u v ids mt in simp_all)
qed

section \<open>Receiving\<close>

lemma unlink_caller_ok:
  assumes w: "waiting s caller (as @ x # bs)"
  defines "prev \<equiv> if as = [] then None else Some (last as)"
  shows "waiting (unlink_caller caller prev x s) caller (as @ bs)" "q_link (unlink_caller caller prev x s) x = None"
    "same_sched s (unlink_caller caller prev x s)"
    "p_delivermsg (p_msgs (procs (unlink_caller caller prev x s) caller)) = p_delivermsg (p_msgs (procs s caller))"
    "p_misc_flags (procs (unlink_caller caller prev x s) y) = p_misc_flags (procs s y)"
proof -
  let ?u = "case prev of None \<Rightarrow> upd_msgs caller (\<lambda>z. z\<lparr>p_caller_q := q_link s x\<rparr>) s
        | Some b \<Rightarrow> upd_msgs b (\<lambda>z. z\<lparr>p_q_link := q_link s x\<rparr>) s"
  let ?t = "unlink_caller caller prev x s"
  have t: "?t = upd_msgs x (\<lambda>z. z\<lparr>p_q_link := None\<rparr>) ?u" by (simp add: unlink_caller_def)
  have ch: "chain (q_link s) (p_caller_q (p_msgs (procs s caller))) (as @ x # bs)" using w by (simp add: waiting_def)
  have d: "distinct (as @ x # bs)" using ch by (rule chain_distinct)
  have qt: "q_link ?t = (q_link ?u)(x := None)" unfolding t q_link_def by (rule callq.nxt_upd_link)
  have ht: "p_caller_q (p_msgs (procs ?t caller)) = p_caller_q (p_msgs (procs ?u caller))"
    unfolding t by (simp add: upd_msgs_def)
  have "chain (q_link ?u) (p_caller_q (p_msgs (procs ?u caller))) (as @ bs)"
  proof (cases "as = []")
    case True
    then have "q_link ?u = q_link s" by (auto simp: prev_def q_link_def upd_msgs_def fun_eq_iff)
    then show ?thesis using True ch by (simp add: prev_def upd_msgs_def)
  next
    case False
    then have as: "as = butlast as @ [last as]" by simp
    have "chain (q_link s) (p_caller_q (p_msgs (procs s caller))) (butlast as @ last as # x # bs)"
      using ch as by (metis append.assoc append_Cons append_Nil)
    from chain_unlink_mid [OF this]
    have "chain ((q_link s)(last as := q_link s x)) (p_caller_q (p_msgs (procs s caller))) (as @ bs)"
      using as by (metis append.assoc append_Cons append_Nil)
    moreover have "q_link ?u = (q_link s)(last as := q_link s x)"
      using False by (auto simp: prev_def q_link_def upd_msgs_def fun_eq_iff)
    moreover have "p_caller_q (p_msgs (procs ?u caller)) = p_caller_q (p_msgs (procs s caller))"
      using False by (simp add: prev_def upd_msgs_def)
    ultimately show ?thesis by simp
  qed
  then show "waiting ?t caller (as @ bs)" unfolding waiting_def qt ht using d by simp
  show "q_link ?t x = None" by (simp add: qt)
  show "same_sched s ?t"
    unfolding t by (rule same_sched_trans [OF _ same_sched_writes(1)]) (simp add: same_sched_writes split: option.split)
  show "p_delivermsg (p_msgs (procs ?t caller)) = p_delivermsg (p_msgs (procs s caller))"
    "p_misc_flags (procs ?t y) = p_misc_flags (procs s y)"
    by (simp_all add: t upd_msgs_def split: option.split)
qed

lemma take_sender_ok:
  assumes inv: "ready_inv s" "cur_ok s" and x: "isokprocn x"
    and w: "waiting s caller (as @ x # bs)" and prev: "prev = (if as = [] then None else Some (last as))"
    and ok: "\<not> RTS_ISSET (procs s x) RTS_SLOT_FREE" "\<not> RTS_ISSET (procs s x) RTS_NO_ENDPOINT"
      "\<not> misc_is s caller MF_DELIVERMSG" "\<not> misc_is s x MF_SIG_DELAY"
  obtains t where "take_sender caller prev x s = Inr t" "ready_inv t" "cur_ok t" "waiting t caller (as @ bs)"
    "q_link t x = None" "p_rts_flags (procs t x) = clrf (p_rts_flags (procs s x)) RTS_SENDING" "prio t = prio s"
    "p_delivermsg (p_msgs (procs t caller)) = (p_sendmsg (p_msgs (procs s x)))\<lparr>m_source := p_endpoint (procs s x)\<rparr>"
    "misc_is t caller MF_DELIVERMSG"
proof -
  define s1 where "s1 = set_misc caller MF_DELIVERMSG (upd_msgs caller
     (\<lambda>y. y\<lparr>p_delivermsg := (p_sendmsg (p_msgs (procs s x)))\<lparr>m_source := p_endpoint (procs s x)\<rparr>\<rparr>) s)"
  have "same_sched s s1" unfolding s1_def by (rule same_sched_trans [OF same_sched_writes(1) same_sched_writes(2)])
  note v = same_sched_view [OF this]
  have m1: "same_links s s1" "misc_is s1 caller MF_DELIVERMSG" "\<not> misc_is s1 x MF_SIG_DELAY"
    "p_delivermsg (p_msgs (procs s1 caller)) = (p_sendmsg (p_msgs (procs s x)))\<lparr>m_source := p_endpoint (procs s x)\<rparr>"
    using ok(4) by (auto simp: s1_def same_links_def set_misc_def upd_msgs_def misc_is_def has_setf_same has_setf_other)
  obtain u where u: "RTS_UNSET x RTS_SENDING s1 = Inr u" "ready_inv u" "cur_ok u"
    "\<And>y. p_msgs (procs u y) = p_msgs (procs s1 y)" "\<And>y. p_misc_flags (procs u y) = p_misc_flags (procs s1 y)"
    "p_rts_flags (procs u x) = clrf (p_rts_flags (procs s1 x)) RTS_SENDING" "prio u = prio s1"
    by (rule RTS_UNSET_frame [of s1 x RTS_SENDING]) (use inv v x in auto)
  define s2 where "s2 = IPC_STATUS_ADD_CALL caller (if misc_is u x MF_REPLY_PEND then SENDREC else SEND) u"
  define s3 where "s3 = (if misc_is s2 x MF_SENDING_FROM_KERNEL
     then clr_misc x MF_SENDING_FROM_KERNEL (IPC_STATUS_ADD_FLAGS caller IPC_FLG_MSG_FROM_KERNEL s2) else s2)"
  have "same_sched u s2" "same_sched s2 s3"
    by (auto simp: s2_def s3_def IPC_STATUS_ADD_CALL_def IPC_STATUS_ADD_FLAGS_def same_sched_writes
        intro: same_sched_trans [OF same_sched_writes(4) same_sched_writes(3)])
  then have ss: "same_sched u s3" by (rule same_sched_trans)
  have p3: "p_msgs (procs s3 y) = p_msgs (procs u y)" for y
    by (simp add: s3_def s2_def IPC_STATUS_ADD_CALL_def IPC_STATUS_ADD_FLAGS_def IPC_STATUS_ADD_def clr_misc_def)
  have f3: "misc_is s3 caller MF_DELIVERMSG" "\<not> misc_is s3 x MF_SIG_DELAY"
    using m1(2,3) u(5) by (auto simp: s3_def s2_def IPC_STATUS_ADD_CALL_def IPC_STATUS_ADD_FLAGS_def IPC_STATUS_ADD_def clr_misc_def
        misc_is_def has_clrf_other)
  have l3: "same_links s s3" using m1(1) by (simp add: same_links_def p3 u(4))
  then have w3: "waiting s3 caller (as @ x # bs)" using w same_links_waiting by blast
  note un = unlink_caller_ok [OF w3, folded prev]
  let ?F = "\<lambda>s. let s = IPC_STATUS_ADD_CALL caller (if misc_is s x MF_REPLY_PEND then SENDREC else SEND) s;
              s = (if misc_is s x MF_SENDING_FROM_KERNEL
                   then clr_misc x MF_SENDING_FROM_KERNEL (IPC_STATUS_ADD_FLAGS caller IPC_FLG_MSG_FROM_KERNEL s) else s)
          in bnd (if misc_is s x MF_SIG_DELAY then sig_delay_done x s else Inr s) (\<lambda>s.
               Inr (unlink_caller caller prev x s))"
  have F: "take_sender caller prev x s = bnd (RTS_UNSET x RTS_SENDING s1) ?F"
    using ok(1-3) by (simp only: take_sender_def kassert_def if_True bnd_Inr s1_def Let_def simp_thms)
  have "?F u = bnd (if misc_is s3 x MF_SIG_DELAY then sig_delay_done x s3 else Inr s3) (\<lambda>s. Inr (unlink_caller caller prev x s))"
    by (simp only: Let_def s3_def s2_def)
  with F u(1) f3(2) have e: "take_sender caller prev x s = Inr (unlink_caller caller prev x s3)" by simp
  note vt = same_sched_view [OF same_sched_trans [OF ss un(3)]]
  show thesis
    by (rule that [OF e]) (use un vt u v p3 m1(4) f3(1) in \<open>simp_all add: misc_is_def\<close>)
qed

section \<open>Properties\<close>

text \<open>\<open>mini_send\<close> to a process that waits for the sender (or for anyone) hands the message
  over at once: the receiver holds the message with the sender's endpoint as its source, marked for
  delivery, is no longer receiving, and is on its ready list if nothing else blocks it; no queue
  of blocked senders changes.
\<close>

theorem mini_send_delivers:
  assumes "ready_inv s" "cur_ok s" "isokprocn (ENDPOINT_P dst_e)" "dst = ENDPOINT_P dst_e"
    "\<not> RTS_ISSET (procs s dst) RTS_NO_ENDPOINT" "WILLRECEIVE (procs s dst) (p_endpoint (procs s caller))"
    "\<not> misc_is s dst MF_DELIVERMSG"
  shows "\<exists>t. mini_send caller dst_e (Some m) flags s = Inr (OK, t) \<and> ready_inv t \<and>
    p_delivermsg (p_msgs (procs t dst)) = m\<lparr>m_source := p_endpoint (procs s caller)\<rparr> \<and>
    misc_is t dst MF_DELIVERMSG \<and> \<not> misc_is t dst MF_REPLY_PEND \<and>
    p_rts_flags (procs t dst) = clrf (p_rts_flags (procs s dst)) RTS_RECEIVING \<and>
    (p_rts_flags (procs s dst) = RTS_RECEIVING \<longrightarrow> dst \<in> set (ready_list t (prio s dst))) \<and>
    (\<forall>d cs. waiting t d cs = waiting s d cs)"
proof -
  obtain t where t: "deliver caller dst m flags s = Inr (OK, t)" "ready_inv t"
    "p_delivermsg (p_msgs (procs t dst)) = m\<lparr>m_source := p_endpoint (procs s caller)\<rparr>"
    "misc_is t dst MF_DELIVERMSG" "\<not> misc_is t dst MF_REPLY_PEND"
    "p_rts_flags (procs t dst) = clrf (p_rts_flags (procs s dst)) RTS_RECEIVING" "prio t = prio s" "same_links s t"
    by (rule deliver_ok [of s dst caller m flags]) (use assms in auto)
  have "mini_send caller dst_e (Some m) flags s = Inr (OK, t)"
    using t(1) assms(4-7) by (simp add: mini_send_def Let_def kassert_def)
  moreover have "dst \<in> set (ready_list t (prio s dst))" if "p_rts_flags (procs s dst) = RTS_RECEIVING"
    using that t(6,7) assms(3,4) ready_member [OF t(2), of dst "prio s dst"] by (simp add: proc_is_runnable_def clrf_def)
  ultimately show ?thesis using t same_links_waiting [OF t(8)] by blast
qed

text \<open>A blocking \<open>mini_send\<close> to a process that does not wait for it, when no deadlock is
  found, blocks the sender: it is flagged as sending, leaves its ready list, keeps the message, and
  is last in the queue of the receiver, behind those that came before.
\<close>

theorem mini_send_blocks:
  assumes "ready_inv s" "cur_ok s" "isokprocn caller" "dst = ENDPOINT_P dst_e"
    "\<not> RTS_ISSET (procs s dst) RTS_NO_ENDPOINT" "\<not> WILLRECEIVE (procs s dst) (p_endpoint (procs s caller))"
    "\<not> has flags NON_BLOCKING" "deadlock SEND caller dst_e s = Inr 0"
    "waiting s dst cs" "q_link s caller = None" "caller \<notin> set cs"
  shows "\<exists>t. mini_send caller dst_e (Some m) flags s = Inr (OK, t) \<and> ready_inv t \<and>
    waiting t dst (cs @ [caller]) \<and> p_sendmsg (p_msgs (procs t caller)) = m \<and> p_sendto_e (procs t caller) = dst_e \<and>
    (\<forall>x. p_rts_flags (procs t x) =
       (if x = caller then setf (p_rts_flags (procs s x)) RTS_SENDING else p_rts_flags (procs s x))) \<and>
    (\<forall>q. caller \<notin> set (ready_list t q))"
proof -
  obtain t where t: "block_sender caller dst dst_e m flags s = Inr (OK, t)" "ready_inv t"
    "waiting t dst (cs @ [caller])" "p_sendmsg (p_msgs (procs t caller)) = m" "p_sendto_e (procs t caller) = dst_e"
    "\<And>x. p_rts_flags (procs t x) = (if x = caller then setf (p_rts_flags (procs s x)) RTS_SENDING else p_rts_flags (procs s x))"
    by (rule block_sender_ok [of s caller cs dst dst_e m flags]) (use assms in auto)
  have "mini_send caller dst_e (Some m) flags s = Inr (OK, t)"
    using t(1) assms(4-8) by (simp add: mini_send_def Let_def)
  moreover have "caller \<notin> set (ready_list t q)" for q
    using ready_member [OF t(2), of caller q] t(6) [of caller] by (simp add: proc_is_runnable_def setf_def)
  ultimately show ?thesis using t by blast
qed

lemma buffer_only [simp]:
  "isokendpt e (upd_msgs p f s) = isokendpt e s" "okendpt e (upd_msgs p f s) = okendpt e s"
  "misc_is (upd_msgs p f s) x m = misc_is s x m" "priv_of (upd_msgs p f s) = priv_of s"
  "p_rts_flags (procs (upd_msgs p f s) x) = p_rts_flags (procs s x)" "p_nr (procs (upd_msgs p f s) x) = p_nr (procs s x)"
  "p_endpoint (procs (upd_msgs p f s) x) = p_endpoint (procs s x)"
  "RTS_ISSET (procs (upd_msgs p f s) x) m = RTS_ISSET (procs s x) m"
  by (auto simp: upd_msgs_def isokendpt_def okendpt_def isemptyn_def misc_is_def priv_of_def RTS_ISSET_def Let_def upd_proc_def fun_eq_iff)

lemma pending_buffer [simp]:
  "has_pending_notify c src (upd_msgs p f s) = has_pending_notify c src s"
  "has_pending_asend c src (upd_msgs p f s) = has_pending_asend c src s"
  by (simp_all add: has_pending_notify_def has_pending_asend_def has_pending_def)

lemma mini_receive_first:
  assumes inv: "ready_inv s" "cur_ok s"
    and src: "src_e = ANY \<and> src_p = ANY \<or>
      src_e \<noteq> ANY \<and> isokendpt src_e s = Some src_p \<and> \<not> RTS_ISSET (procs s src_p) RTS_NO_ENDPOINT"
    and c: "\<not> misc_is s caller MF_DELIVERMSG" "\<not> RTS_ISSET (procs s caller) RTS_SENDING"
    and none: "misc_is s caller MF_REPLY_PEND \<or> has_pending_notify caller src_p s = None" "has_pending_asend caller src_p s = None"
    and w: "waiting s caller (as @ x # bs)"
    and fit: "src_e = ANY \<or> src_p = p_nr (procs s x)" "\<And>y. y \<in> set as \<Longrightarrow> src_e \<noteq> ANY \<and> src_p \<noteq> p_nr (procs s y)"
    and x: "isokprocn x" "\<not> RTS_ISSET (procs s x) RTS_SLOT_FREE" "\<not> RTS_ISSET (procs s x) RTS_NO_ENDPOINT" "\<not> misc_is s x MF_SIG_DELAY"
  shows "\<exists>t. mini_receive retr insrt caller src_e buf flags s = Inr (OK, t) \<and> ready_inv t \<and>
    p_delivermsg (p_msgs (procs t caller)) = (p_sendmsg (p_msgs (procs s x)))\<lparr>m_source := p_endpoint (procs s x)\<rparr> \<and>
    misc_is t caller MF_DELIVERMSG \<and> \<not> misc_is t caller MF_REPLY_PEND \<and>
    waiting t caller (as @ bs) \<and> q_link t x = None \<and>
    p_rts_flags (procs t x) = clrf (p_rts_flags (procs s x)) RTS_SENDING"
proof -
  let ?s = "upd_msgs caller (\<lambda>z. z\<lparr>p_delivermsg_vir := buf\<rparr>) s" let ?pr = "if as = [] then None else Some (last as)"
  note v = same_sched_view [OF same_sched_writes(1) [of s caller "\<lambda>z. z\<lparr>p_delivermsg_vir := buf\<rparr>"]]
  have "same_links s ?s" by (simp add: same_links_def upd_msgs_def)
  then have w': "waiting ?s caller (as @ x # bs)" using w same_links_waiting by blast
  obtain t where t: "take_sender caller ?pr x ?s = Inr t" "ready_inv t" "waiting t caller (as @ bs)"
    "q_link t x = None" "p_rts_flags (procs t x) = clrf (p_rts_flags (procs ?s x)) RTS_SENDING"
    "p_delivermsg (p_msgs (procs t caller)) = (p_sendmsg (p_msgs (procs ?s x)))\<lparr>m_source := p_endpoint (procs ?s x)\<rparr>"
    "misc_is t caller MF_DELIVERMSG"
    by (rule take_sender_ok [of ?s x caller as bs ?pr]) (use inv v x c w' in auto)
  have sp: "search_prev (q_link ?s) (\<lambda>y. src_e = ANY \<or> src_p = p_nr (procs ?s y)) (p_caller_q (p_msgs (procs ?s caller))) = Inr (Some (?pr, x))"
    using search_prev_chain [OF w' [unfolded waiting_def]] fit
      prev_in_split [of as "\<lambda>y. src_e = ANY \<or> src_p = p_nr (procs ?s y)" x None bs] by auto
  have q: "rcv_queue caller src_e src_p ?s = Inr (True, t)" by (simp only: rcv_queue_def sp bnd_Inr) (simp add: t(1))
  have a: "rcv_any retr insrt caller src_e src_p ?s = Inr (True, t)"
    using c(2) none q by (auto simp: rcv_any_def rcv_async_def)
  have ep: "(if src_e = ANY then Inr ANY else okendpt src_e s) = Inr src_p"
    using src by (auto simp: okendpt_def)
  have "mini_receive retr insrt caller src_e buf flags s = Inr (OK, clr_misc caller MF_REPLY_PEND t)"
    using c(1) ep a src by (auto simp: mini_receive_def kassert_def Let_def)
  moreover have "same_links t (clr_misc caller MF_REPLY_PEND t)" by (simp add: same_links_def clr_misc_def)
  moreover note same_sched_view [OF same_sched_writes(3) [of t caller MF_REPLY_PEND]]
  ultimately show ?thesis
    using t same_links_waiting [of t "clr_misc caller MF_REPLY_PEND t"]
    by (simp add: misc_is_def clr_misc_def has_clrf_other upd_msgs_def)
qed

text \<open>\<open>mini_receive\<close> without a pending notification or asynchronous message takes the message
  of the first blocked sender that fits the wanted source: the receiver holds exactly the message
  that was sent, with the sender's endpoint as its source; the sender is unblocked, leaves the queue
  with its link cleared, and the others keep their order.
\<close>

theorem mini_receive_takes_first:
  assumes inv: "ready_inv s" "cur_ok s"
    and src: "src_e = ANY \<and> src_p = ANY \<or>
      src_e \<noteq> ANY \<and> isokendpt src_e s = Some src_p \<and> \<not> RTS_ISSET (procs s src_p) RTS_NO_ENDPOINT"
    and c: "\<not> misc_is s caller MF_DELIVERMSG" "\<not> RTS_ISSET (procs s caller) RTS_SENDING"
    and none: "misc_is s caller MF_REPLY_PEND \<or> has_pending_notify caller src_p s = None" "has_pending_asend caller src_p s = None"
    and w: "waiting s caller (as @ x # bs)"
    and fit: "src_e = ANY \<or> src_p = p_nr (procs s x)" "\<And>y. y \<in> set as \<Longrightarrow> src_e \<noteq> ANY \<and> src_p \<noteq> p_nr (procs s y)"
    and x: "isokprocn x" "\<not> RTS_ISSET (procs s x) RTS_SLOT_FREE" "\<not> RTS_ISSET (procs s x) RTS_NO_ENDPOINT" "\<not> misc_is s x MF_SIG_DELAY"
  shows "\<exists>t. mini_receive retr insrt caller src_e buf flags s = Inr (OK, t) \<and> ready_inv t \<and>
    p_delivermsg (p_msgs (procs t caller)) = (p_sendmsg (p_msgs (procs s x)))\<lparr>m_source := p_endpoint (procs s x)\<rparr> \<and>
    misc_is t caller MF_DELIVERMSG \<and> \<not> misc_is t caller MF_REPLY_PEND \<and>
    waiting t caller (as @ bs) \<and> q_link t x = None \<and>
    p_rts_flags (procs t x) = clrf (p_rts_flags (procs s x)) RTS_SENDING"
  by (rule mini_receive_first [OF assms])

text \<open>C12. A message sent to a process that is not waiting and then received by it arrives unchanged: the
  sender blocks, the receiver that asks for any message gets this message with the sender's endpoint as its
  source, and the sender is as runnable as before, its place in the queue given up. Nothing else is there for the receiver to get:
  no sender is queued, no notification or asynchronous message pending; the receiver is not sending and has no message on its way to it, the send is a
  blocking one that closes no cycle, and the sender is live, in no queue and not marked for a delayed signal.
\<close>

theorem message_roundtrip:
  assumes inv: "ready_inv s" "cur_ok s" and c: "isokprocn caller" "dst = ENDPOINT_P dst_e"
    and d: "\<not> RTS_ISSET (procs s dst) RTS_NO_ENDPOINT" "\<not> WILLRECEIVE (procs s dst) (p_endpoint (procs s caller))"
      "\<not> RTS_ISSET (procs s dst) RTS_SENDING" "\<not> misc_is s dst MF_DELIVERMSG"
      "has_pending_notify dst ANY s = None" "has_pending_asend dst ANY s = None" "dst \<noteq> caller"
    and b: "\<not> has flags NON_BLOCKING" "deadlock SEND caller dst_e s = Inr 0"
    and q: "waiting s dst []" "q_link s caller = None"
    and f: "\<not> RTS_ISSET (procs s caller) RTS_SLOT_FREE" "\<not> RTS_ISSET (procs s caller) RTS_NO_ENDPOINT"
      "\<not> has (p_rts_flags (procs s caller)) RTS_SENDING" "\<not> misc_is s caller MF_SIG_DELAY"
  shows "\<exists>t u. mini_send caller dst_e (Some m) flags s = Inr (OK, t) \<and>
    has (p_rts_flags (procs t caller)) RTS_SENDING \<and>
    mini_receive retr insrt dst ANY buf flags' t = Inr (OK, u) \<and> ready_inv u \<and>
    p_delivermsg (p_msgs (procs u dst)) = m\<lparr>m_source := p_endpoint (procs s caller)\<rparr> \<and>
    p_rts_flags (procs u caller) = p_rts_flags (procs s caller) \<and> waiting u dst [] \<and> q_link u caller = None"
proof -
  obtain t where t: "block_sender caller dst dst_e m flags s = Inr (OK, t)" "ready_inv t" "cur_ok t"
    "waiting t dst ([] @ [caller])" "p_sendmsg (p_msgs (procs t caller)) = m"
    "\<And>x. p_rts_flags (procs t x) = (if x = caller then setf (p_rts_flags (procs s x)) RTS_SENDING else p_rts_flags (procs s x))"
    "same_ids s t" "\<And>x k. k AND MF_SENDING_FROM_KERNEL = 0 \<Longrightarrow> misc_is t x k = misc_is s x k"
    by (rule block_sender_ok [of s caller "[]" dst dst_e m flags]) (use inv c q in auto)
  have send: "mini_send caller dst_e (Some m) flags s = Inr (OK, t)"
    using t(1) c(2) d(1,2) b by (simp add: mini_send_def Let_def)
  have iss: "RTS_ISSET (procs t dst) k = RTS_ISSET (procs s dst) k" for k
    using d(7) t(6) by (simp add: RTS_ISSET_def)
  have cfl: "\<not> RTS_ISSET (procs t caller) RTS_SLOT_FREE" "\<not> RTS_ISSET (procs t caller) RTS_NO_ENDPOINT"
    using f(1,2) t(6) by (simp_all add: RTS_ISSET_def setf_def bit.conj_disj_distrib2)
  have undo: "clrf (setf x RTS_SENDING) RTS_SENDING = x" if "\<not> has x RTS_SENDING" for x :: u32
    using that and_not_disjoint [of x RTS_SENDING] by (simp add: clrf_def setf_def has_def bit.conj_disj_distrib2)
  have "\<exists>u. mini_receive retr insrt dst ANY buf flags' t = Inr (OK, u) \<and> ready_inv u \<and>
    p_delivermsg (p_msgs (procs u dst)) = (p_sendmsg (p_msgs (procs t caller)))\<lparr>m_source := p_endpoint (procs t caller)\<rparr> \<and>
    misc_is u dst MF_DELIVERMSG \<and> \<not> misc_is u dst MF_REPLY_PEND \<and>
    waiting u dst ([] @ []) \<and> q_link u caller = None \<and>
    p_rts_flags (procs u caller) = clrf (p_rts_flags (procs t caller)) RTS_SENDING"
    by (rule mini_receive_first [OF t(2,3), of ANY ANY])
      (use t(4,8) iss d same_ids_priv [OF t(7)] c cfl f(4) in simp_all)
  then show ?thesis
    using send t(5-7) undo [OF f(3)] has_setf_same [of RTS_SENDING] by (auto simp: same_ids_def)
qed

section \<open>Concrete states\<close>

text \<open>As \<open>queue_sample\<close>, with process 3 waiting for a message from anyone.\<close>

definition recv_sample :: kstate where
  "recv_sample = upd_proc 3 (\<lambda>q. q\<lparr>p_getfrom_e := ANY\<rparr>) (with_flags 3 RTS_RECEIVING queue_sample)"

lemma flagged_sample_inv:
  assumes "f \<noteq> 0" shows "rq_inv (ready_list queue_sample) (with_flags 3 f queue_sample)"
proof (rule rq_inv_step [OF queue_sample_inv(1) [unfolded ready_inv_def] sched_only_refl])
  show "rq_lists (ready_list queue_sample) (with_flags 3 f queue_sample)"
    using rq_invD(1) [OF queue_sample_inv(1) [unfolded ready_inv_def]] by simp
qed (simp add: queue_sample_inv(2) assms)

lemma recv_sample_inv: "ready_inv recv_sample" "cur_ok recv_sample" "ready_list recv_sample = ready_list queue_sample"
proof -
  have "rq_inv (ready_list queue_sample) (with_flags 3 RTS_RECEIVING queue_sample)" by (rule flagged_sample_inv) simp
  then have "rq_inv (ready_list queue_sample) recv_sample"
    unfolding recv_sample_def by (subst same_sched_view(1) [OF same_sched_writes(6)])
  then show "ready_inv recv_sample" "ready_list recv_sample = ready_list queue_sample" using ready_invI by blast+
  show "cur_ok recv_sample" by (simp add: cur_ok_def recv_sample_def isokprocn_def upd_proc_def with_flags_def queue_sample_def)
qed

theorem mini_send_delivers_witness:
  "\<exists>t. mini_send 1 3 (Some (zero_msg\<lparr>m_type := 42\<rparr>)) 0 recv_sample = Inr (OK, t) \<and>
     p_delivermsg (p_msgs (procs t 3)) = zero_msg\<lparr>m_type := 42, m_source := 1\<rparr> \<and> 3 \<in> set (ready_list t 5)"
proof -
  have d: "ENDPOINT_P 3 = 3" by (simp add: ENDPOINT_P_def c_rem_def)
  have p: "p_rts_flags (procs recv_sample 3) = RTS_RECEIVING" "p_getfrom_e (procs recv_sample 3) = ANY"
    "p_endpoint (procs recv_sample 1) = 1" "p_misc_flags (procs recv_sample 3) = 0" "prio recv_sample 3 = 5"
    by (simp_all add: recv_sample_def with_flags_def upd_proc_def prio_def queue_sample_def zero_proc_def zero_sched_def)
  show ?thesis
    using mini_send_delivers [OF recv_sample_inv(1,2), of 3 3 1 "zero_msg\<lparr>m_type := 42\<rparr>" 0] d p
    by (fastforce simp: isokprocn_def RTS_ISSET_def WILLRECEIVE_def misc_is_def has_def)
qed

lemma queue_sample_msgs [simp]:
  "p_caller_q (p_msgs (procs queue_sample x)) = None" "q_link queue_sample x = None" "p_endpoint (procs queue_sample x) = x"
  "p_misc_flags (procs queue_sample x) = 0" "p_nr (procs queue_sample x) = x"
  "has_pending_notify x ANY queue_sample = None" "has_pending_asend x ANY queue_sample = None"
  by (simp_all add: queue_sample_def zero_proc_def zero_msgs_def q_link_def has_pending_notify_def has_pending_asend_def
      has_pending_def first_bit_def priv_of_def zero_priv_def)

lemma queue_sample_deadlock: "deadlock SEND 2 1 queue_sample = Inr 0"
  by (simp add: deadlock_def deadlock_loop.simps deadlock_step_def okendpt_def isokendpt_def ENDPOINT_P_def c_rem_def
      isokprocn_def isemptyn_def proc_ptr_ok_def RTS_ISSET_def P_BLOCKEDON_def has_def Let_def)

lemmas sample_flags = RTS_ISSET_def WILLRECEIVE_def misc_is_def has_def ENDPOINT_P_def c_rem_def isokprocn_def waiting_def

theorem mini_send_blocks_witness:
  "\<exists>t. mini_send 2 1 (Some zero_msg) 0 queue_sample = Inr (OK, t) \<and> waiting t 1 [2] \<and> p_rts_flags (procs t 2) = RTS_SENDING"
  using mini_send_blocks [OF queue_sample_inv(1,3), of 2 1 1 0 "[]" zero_msg] queue_sample_deadlock
  by (fastforce simp: sample_flags setf_def)

theorem message_roundtrip_witness:
  "\<exists>t u. mini_send 2 1 (Some zero_msg) 0 queue_sample = Inr (OK, t) \<and>
     mini_receive (\<lambda>_ _ _ _. None) (\<lambda>_ _ _ _ _. None) 1 ANY 1 0 t = Inr (OK, u) \<and>
     p_delivermsg (p_msgs (procs u 1)) = zero_msg\<lparr>m_source := 2\<rparr>"
  using message_roundtrip [OF queue_sample_inv(1,3), where caller = 2 and dst = 1 and dst_e = 1 and flags = 0 and m = zero_msg and buf = 1 and flags' = 0 and retr = "\<lambda>_ _ _ _. None" and insrt = "\<lambda>_ _ _ _ _. None"] queue_sample_deadlock
  by (fastforce simp: sample_flags)

text \<open>As \<open>queue_sample\<close>, with process 3 blocked sending a message of type 7 to process 1.\<close>

definition blocked_sample :: kstate where
  "blocked_sample = upd_msgs 1 (\<lambda>x. x\<lparr>p_caller_q := Some 3\<rparr>)
     (upd_msgs 3 (\<lambda>x. x\<lparr>p_sendmsg := zero_msg\<lparr>m_type := 7\<rparr>\<rparr>) (with_flags 3 RTS_SENDING queue_sample))"

lemma blocked_sample_inv: "ready_inv blocked_sample" "cur_ok blocked_sample"
proof -
  have ss: "same_sched (with_flags 3 RTS_SENDING queue_sample) blocked_sample"
    unfolding blocked_sample_def by (rule same_sched_trans [OF same_sched_writes(1) same_sched_writes(1)])
  show "ready_inv blocked_sample"
    using flagged_sample_inv [of RTS_SENDING] same_sched_view(1) [OF ss] ready_invI by auto
  show "cur_ok blocked_sample"
    using same_sched_view(4) [OF ss] queue_sample_inv(3) by (simp add: cur_ok_def)
qed

theorem mini_receive_takes_first_witness:
  "\<exists>t. mini_receive (\<lambda>_ _ _ _. None) (\<lambda>_ _ _ _ _. None) 1 ANY 1 0 blocked_sample = Inr (OK, t) \<and>
     p_delivermsg (p_msgs (procs t 1)) = zero_msg\<lparr>m_type := 7, m_source := 3\<rparr> \<and> waiting t 1 []"
proof -
  have p: "p_rts_flags (procs blocked_sample x) = (if x = 3 then RTS_SENDING else p_rts_flags (procs queue_sample x))"
    "p_sendmsg (p_msgs (procs blocked_sample 3)) = zero_msg\<lparr>m_type := 7\<rparr>" "p_endpoint (procs blocked_sample 3) = 3"
    "misc_is blocked_sample x k = misc_is queue_sample x k" for x k
    by (simp_all add: blocked_sample_def) (simp_all add: upd_msgs_def with_flags_def misc_is_def queue_sample_def)
  have w: "waiting blocked_sample 1 ([] @ 3 # [])"
    by (simp add: waiting_def blocked_sample_def q_link_def upd_msgs_def with_flags_def queue_sample_def zero_proc_def zero_msgs_def)
  have n: "has_pending_notify 1 ANY blocked_sample = None" "has_pending_asend 1 ANY blocked_sample = None"
    using same_ids_priv [of queue_sample blocked_sample 1 ANY]
    by (simp_all add: blocked_sample_def same_ids_trans [OF same_ids_trans [OF same_ids_writes(7) same_ids_writes(1)] same_ids_writes(1)])
  have h: "\<not> misc_is blocked_sample 1 MF_DELIVERMSG" "\<not> RTS_ISSET (procs blocked_sample 1) RTS_SENDING"
    "\<not> RTS_ISSET (procs blocked_sample 3) RTS_SLOT_FREE" "\<not> RTS_ISSET (procs blocked_sample 3) RTS_NO_ENDPOINT"
    "\<not> misc_is blocked_sample 3 MF_SIG_DELAY"
    using p by (simp_all add: RTS_ISSET_def misc_is_def has_def)
  show ?thesis
    using mini_receive_takes_first [OF blocked_sample_inv _ h(1,2) disjI2 [OF n(1)] n(2) w, of ANY "\<lambda>_ _ _ _. None" "\<lambda>_ _ _ _ _. None" 1 0] h(3-5) p(2,3)
    by (fastforce simp: isokprocn_def)
qed

section \<open>Permissions\<close>

text \<open>C28. A synchronous call that has any effect was permitted: the call is in the caller's trap mask, and
  unless it only receives, the destination is a live process the caller may send to, which is no kernel
  task except for \<open>SENDREC\<close>. In other words, a call that fails one of these tests changes nothing.
\<close>

theorem do_sync_ipc_permitted:
  assumes "do_sync_ipc usr retr insrt caller call_nr src_dst_e m_ptr s = Inr (r, t)" "t \<noteq> s"
  shows "call_nr \<in> {SEND, RECEIVE, SENDREC, NOTIFY, SENDNB} \<and> bit (s_trap_mask (priv_of s caller)) (unat call_nr) \<and>
    (call_nr \<noteq> RECEIVE \<longrightarrow> (\<exists>p. isokendpt src_dst_e s = Some p \<and> src_dst_e \<noteq> ANY \<and> may_send_to caller p s \<and>
       (call_nr \<noteq> SENDREC \<longrightarrow> 0 \<le> p)))"
proof -
  have c: "call_nr \<in> {SEND, RECEIVE, SENDREC, NOTIFY, SENDNB}" and ok: "sync_allowed caller call_nr src_dst_e s = OK"
    using assms by (auto simp: do_sync_ipc_def kassert_def split: if_splits)
  then show ?thesis
    by (auto simp: sync_allowed_def Let_def split: if_splits option.splits)
qed

text \<open>Process 1 may trap and send to everyone; process 3 waits for a message.\<close>

definition ipc_sample :: kstate where
  "ipc_sample = upd_priv 1 (\<lambda>v. v\<lparr>s_trap_mask := 0x3E, s_ipc_to := (\<lambda>_. True)\<rparr>) recv_sample"

theorem do_sync_ipc_permitted_witness:
  "\<exists>t. do_sync_ipc (\<lambda>_ _. Some zero_msg) (\<lambda>_ _ _ _. None) (\<lambda>_ _ _ _ _. None) 1 SEND 3 0 ipc_sample = Inr (OK, t) \<and> t \<noteq> ipc_sample \<and>
     bit (s_trap_mask (priv_of ipc_sample 1)) (unat SEND) \<and> (\<exists>p. isokendpt 3 ipc_sample = Some p \<and> may_send_to 1 p ipc_sample \<and> 0 \<le> p)"
proof -
  have ss: "same_sched recv_sample ipc_sample" unfolding ipc_sample_def by (rule same_sched_priv) simp
  have pr: "procs ipc_sample = procs recv_sample" by (simp add: ipc_sample_def upd_priv_def)
  have fl: "p_rts_flags (procs recv_sample 3) = RTS_RECEIVING" "p_getfrom_e (procs recv_sample 3) = ANY"
    "p_endpoint (procs recv_sample x) = x" "p_misc_flags (procs recv_sample x) = 0" for x
    by (simp_all add: recv_sample_def with_flags_def upd_proc_def queue_sample_def zero_proc_def)
  obtain t where t: "deliver 1 3 zero_msg 0 ipc_sample = Inr (OK, t)" "misc_is t 3 MF_DELIVERMSG"
    by (rule deliver_ok [of ipc_sample 3 1 zero_msg 0]) (use recv_sample_inv same_sched_view [OF ss] in \<open>auto simp: isokprocn_def\<close>)
  have al: "sync_allowed 1 SEND 3 ipc_sample = OK"
    by (simp add: sync_allowed_def Let_def isokendpt_def ENDPOINT_P_def c_rem_def isokprocn_def isemptyn_def pr fl may_send_to_def)
      (simp add: ipc_sample_def upd_priv_def priv_of_def recv_sample_def with_flags_def upd_proc_def queue_sample_def zero_proc_def bit_numeral_rec)
  have run: "do_sync_ipc (\<lambda>_ _. Some zero_msg) (\<lambda>_ _ _ _. None) (\<lambda>_ _ _ _ _. None) 1 SEND 3 0 ipc_sample = Inr (OK, t)"
    using al t(1) by (simp add: do_sync_ipc_def kassert_def mini_send_def Let_def ENDPOINT_P_def c_rem_def RTS_ISSET_def WILLRECEIVE_def misc_is_def has_def pr fl)
  have ch: "t \<noteq> ipc_sample" using t(2) by (auto simp: misc_is_def pr fl has_def)
  show ?thesis using run ch do_sync_ipc_permitted [OF run ch] by auto
qed

section \<open>Leaving a queue\<close>

lemma leave_queue_ok:
  assumes w: "waiting s target (as @ rc # bs)"
  obtains t where "leave_queue rc target s = Inr t" "waiting t target (as @ bs)" "q_link t rc = q_link s rc" "same_sched s t"
proof -
  let ?pr = "if as = [] then None else Some (last as)"
  let ?t = "case ?pr of None \<Rightarrow> upd_msgs target (\<lambda>x. x\<lparr>p_caller_q := q_link s rc\<rparr>) s
      | Some b \<Rightarrow> upd_msgs b (\<lambda>x. x\<lparr>p_q_link := q_link s rc\<rparr>) s"
  have ch: "chain (q_link s) (p_caller_q (p_msgs (procs s target))) (as @ rc # bs)" using w by (simp add: waiting_def)
  have d: "distinct (as @ rc # bs)" using ch by (rule chain_distinct)
  have "prev_in (\<lambda>x. x = rc) None (as @ rc # bs) = Some (?pr, rc)" using d by (intro prev_in_split) auto
  then have e: "leave_queue rc target s = Inr ?t"
    using search_prev_chain [OF ch, of "\<lambda>x. x = rc"] by (simp add: leave_queue_def)
  have l: "last as \<noteq> rc" if "as \<noteq> []" using d that by auto
  have un: "unlink_caller target ?pr rc s = upd_msgs rc (\<lambda>z. z\<lparr>p_q_link := None\<rparr>) ?t"
    by (simp add: unlink_caller_def)
  have q: "q_link (unlink_caller target ?pr rc s) = (q_link ?t)(rc := None)" unfolding un q_link_def by (rule callq.nxt_upd_link)
  have h: "p_caller_q (p_msgs (procs (unlink_caller target ?pr rc s) target)) = p_caller_q (p_msgs (procs ?t target))"
    unfolding un by (simp add: upd_msgs_def)
  have "rc \<notin> set (as @ bs)" using d by simp
  then have "waiting ?t target (as @ bs)"
    using unlink_caller_ok(1) [OF w] unfolding waiting_def q h by simp
  moreover have "q_link ?t rc = q_link s rc" using l by (auto simp: q_link_def upd_msgs_def)
  moreover have "same_sched s ?t" by (simp add: same_sched_writes)
  ultimately show thesis using that [OF e] by blast
qed

lemma clear_ipc_ok:
  assumes inv: "ready_inv s" "cur_ok s" and rc: "isokprocn rc" "RTS_ISSET (procs s rc) RTS_SENDING"
    and t: "isokendpt (p_sendto_e (procs s rc)) s = Some target" and w: "waiting s target (as @ rc # bs)"
  obtains t where "clear_ipc rc s = Inr t" "ready_inv t" "waiting t target (as @ bs)" "q_link t rc = q_link s rc"
    "p_rts_flags (procs t rc) = clrf (clrf (p_rts_flags (procs s rc)) RTS_SENDING) RTS_RECEIVING"
proof -
  obtain u where u: "leave_queue rc target s = Inr u" "waiting u target (as @ bs)" "q_link u rc = q_link s rc" "same_sched s u"
    using w by (rule leave_queue_ok)
  note v = same_sched_view [OF u(4)]
  obtain u1 where u1: "RTS_UNSET rc RTS_SENDING u = Inr u1" "ready_inv u1" "cur_ok u1" "\<And>x. p_msgs (procs u1 x) = p_msgs (procs u x)"
    "p_rts_flags (procs u1 rc) = clrf (p_rts_flags (procs u rc)) RTS_SENDING"
    by (rule RTS_UNSET_frame [of u rc RTS_SENDING]) (use inv v rc in auto)
  obtain u2 where u2: "RTS_UNSET rc RTS_RECEIVING u1 = Inr u2" "ready_inv u2" "\<And>x. p_msgs (procs u2 x) = p_msgs (procs u1 x)"
    "p_rts_flags (procs u2 rc) = clrf (p_rts_flags (procs u1 rc)) RTS_RECEIVING"
    by (rule RTS_UNSET_frame [of u1 rc RTS_RECEIVING]) (use u1 rc in auto)
  have l: "same_links u u2" using u1(4) u2(3) by (simp add: same_links_def)
  have "clear_ipc rc s = Inr u2" using rc(2) t u(1) u1(1) u2(1) by (simp add: clear_ipc_def okendpt_def)
  then show thesis using that u2(2,4) u1(5) v u(2,3) same_links_waiting [OF l] by simp
qed

text \<open>C40. \<open>clear_ipc\<close> takes a process that only waits to send off the queue of its receiver, the others keep
  their order, but it leaves the link of the process as it was: when it was not last in the queue,
  its next \<open>mini_send\<close> that has to block (and closes no cycle) fails the assertion that the link is clear.
\<close>

theorem clear_ipc_stale_link:
  assumes "ready_inv s" "cur_ok s" "isokprocn rc" "p_rts_flags (procs s rc) = RTS_SENDING"
    "isokendpt (p_sendto_e (procs s rc)) s = Some target" "waiting s target (as @ rc # y # bs)"
  shows "\<exists>t. clear_ipc rc s = Inr t \<and> waiting t target (as @ y # bs) \<and> proc_is_runnable (procs t rc) \<and>
    (\<forall>dst_e m flags. \<not> RTS_ISSET (procs t (ENDPOINT_P dst_e)) RTS_NO_ENDPOINT \<and>
       \<not> WILLRECEIVE (procs t (ENDPOINT_P dst_e)) (p_endpoint (procs t rc)) \<and> \<not> has flags NON_BLOCKING \<and>
       deadlock SEND rc dst_e t = Inr 0 \<longrightarrow>
       mini_send rc dst_e (Some m) flags t = Inl (AssertFail ''caller_ptr->p_q_link == NULL''))"
proof -
  have snd: "RTS_ISSET (procs s rc) RTS_SENDING" using assms(4) by (simp add: RTS_ISSET_def)
  obtain t where t: "clear_ipc rc s = Inr t" "ready_inv t" "waiting t target (as @ y # bs)" "q_link t rc = q_link s rc"
    "p_rts_flags (procs t rc) = clrf (clrf (p_rts_flags (procs s rc)) RTS_SENDING) RTS_RECEIVING"
    by (rule clear_ipc_ok [OF assms(1-3) snd assms(5,6)])
  have "chain (q_link s) (Some rc) (rc # y # bs)" using assms(6) unfolding waiting_def by (rule chain_drop)
  then have ql: "q_link s rc = Some y" by simp
  have "mini_send rc dst_e (Some m) flags t = Inl (AssertFail ''caller_ptr->p_q_link == NULL'')"
    if "\<not> RTS_ISSET (procs t (ENDPOINT_P dst_e)) RTS_NO_ENDPOINT"
       "\<not> WILLRECEIVE (procs t (ENDPOINT_P dst_e)) (p_endpoint (procs t rc))" "\<not> has flags NON_BLOCKING"
       "deadlock SEND rc dst_e t = Inr 0" for dst_e m flags
  proof -
    let ?s2 = "if has flags FROM_KERNEL then set_misc rc MF_SENDING_FROM_KERNEL (upd_msgs rc (\<lambda>x. x\<lparr>p_sendmsg := m\<rparr>) t)
      else upd_msgs rc (\<lambda>x. x\<lparr>p_sendmsg := m\<rparr>) t"
    have ss: "same_sched t ?s2" using same_sched_trans [OF same_sched_writes(1) same_sched_writes(2)] same_sched_writes(1) by simp
    have inv2: "rq_inv (ready_list t) ?s2" using t(2) same_sched_view(1) [OF ss] by (simp add: ready_inv_def)
    obtain u S where u: "RTS_SET rc RTS_SENDING ?s2 = Inr u" "sched_only (with_flags rc S ?s2) u"
      using RTS_SET_ok [OF inv2 assms(3), of RTS_SENDING] by auto
    have "q_link u rc = Some y"
      using sched_only_proc(6) [OF u(2), of rc] ql t(4) by (simp add: q_link_def with_flags_def set_misc_def upd_msgs_def)
    then have "block_sender rc (ENDPOINT_P dst_e) dst_e m flags t = Inl (AssertFail ''caller_ptr->p_q_link == NULL'')"
      using u(1) by (simp only: block_sender_def Let_def) (simp add: kassert_def q_link_def)
    then show ?thesis using that by (simp add: mini_send_def Let_def)
  qed
  moreover have "proc_is_runnable (procs t rc)" using t(5) assms(4) by (simp add: proc_is_runnable_def clrf_def)
  ultimately show ?thesis using t(1,3) by blast
qed

text \<open>Processes 3 and 4 blocked, in this order, sending to process 1.\<close>

definition stale_sample :: kstate where
  "stale_sample = upd_proc 3 (\<lambda>q. q\<lparr>p_sendto_e := 1\<rparr>) (upd_msgs 1 (\<lambda>x. x\<lparr>p_caller_q := Some 3\<rparr>)
     (upd_msgs 3 (\<lambda>x. x\<lparr>p_q_link := Some 4\<rparr>) (with_flags 3 RTS_SENDING queue_sample)))"

theorem clear_ipc_stale_link_witness:
  "\<exists>t. clear_ipc 3 stale_sample = Inr t \<and> waiting t 1 [4] \<and> proc_is_runnable (procs t 3)"
proof -
  have ss: "same_sched (with_flags 3 RTS_SENDING queue_sample) stale_sample"
    unfolding stale_sample_def
    by (rule same_sched_trans [OF same_sched_trans [OF same_sched_writes(1) same_sched_writes(1)] same_sched_writes(5)])
  have inv: "ready_inv stale_sample" "cur_ok stale_sample"
    using flagged_sample_inv [of RTS_SENDING] same_sched_view(1,4) [OF ss] ready_invI queue_sample_inv(3) by (auto simp: cur_ok_def)
  have p: "p_rts_flags (procs stale_sample 3) = RTS_SENDING" "isokendpt (p_sendto_e (procs stale_sample 3)) stale_sample = Some 1"
    by (simp_all add: stale_sample_def upd_msgs_def with_flags_def isokendpt_def ENDPOINT_P_def c_rem_def Let_def isokprocn_def isemptyn_def)
  have w: "waiting stale_sample 1 ([] @ 3 # 4 # [])"
    by (simp add: waiting_def stale_sample_def q_link_def upd_msgs_def with_flags_def queue_sample_def zero_proc_def zero_msgs_def)
  show ?thesis
    using clear_ipc_stale_link [OF inv _ p w] by (auto simp: isokprocn_def)
qed

section \<open>Deadlock detection\<close>

text \<open>Endpoints of blocked processes that wait for each other and not for the caller.\<close>

definition wait_cycle :: "int set \<Rightarrow> int \<Rightarrow> kstate \<Rightarrow> bool" where
  "wait_cycle C cp s \<longleftrightarrow>
     (\<forall>e \<in> C. e \<noteq> ANY \<and>
        (\<exists>n. isokendpt e s = Some n \<and> proc_ptr_ok (procs s n) \<and> \<not> RTS_ISSET (procs s n) RTS_SLOT_FREE \<and>
           P_BLOCKEDON (procs s n) \<in> C \<and> P_BLOCKEDON (procs s n) \<notin> {NONE, p_endpoint (procs s cp)}))"

lemma deadlock_follow:
  "deadlock_step f cp e g s = Inr (Follow e') \<longleftrightarrow>
     (\<exists>n. isokendpt e s = Some n \<and> proc_ptr_ok (procs s n) \<and> \<not> RTS_ISSET (procs s n) RTS_SLOT_FREE \<and> g < DL_ENTRIES \<and>
        P_BLOCKEDON (procs s n) = e' \<and> e' \<notin> {NONE, p_endpoint (procs s cp)})"
  by (auto simp: deadlock_step_def okendpt_def bnd_def Let_def split: option.splits)

lemma deadlock_overrun:
  "deadlock_step f cp e g s = Inl OutOfBounds \<longleftrightarrow>
     (\<exists>n. isokendpt e s = Some n \<and> proc_ptr_ok (procs s n) \<and> \<not> RTS_ISSET (procs s n) RTS_SLOT_FREE \<and> DL_ENTRIES \<le> g)"
  by (auto simp: deadlock_step_def okendpt_def bnd_def Let_def split: option.splits)

lemma deadlock_loop_cycle: "wait_cycle C cp s \<Longrightarrow> e \<in> C \<Longrightarrow> deadlock_loop f cp e g s = Inl OutOfBounds"
proof (induction f cp e g s rule: deadlock_loop.induct)
  case (1 f cp e g s)
  from 1(2,3) obtain n where n: "e \<noteq> ANY" "isokendpt e s = Some n" "proc_ptr_ok (procs s n)" "\<not> RTS_ISSET (procs s n) RTS_SLOT_FREE"
    "P_BLOCKEDON (procs s n) \<in> C" "P_BLOCKEDON (procs s n) \<notin> {NONE, p_endpoint (procs s cp)}"
    unfolding wait_cycle_def by blast
  show ?case
  proof (cases "g < DL_ENTRIES")
    case True
    then have st: "deadlock_step f cp e g s = Inr (Follow (P_BLOCKEDON (procs s n)))" using n deadlock_follow by blast
    then show ?thesis using 1(1) [OF n(1) st refl 1(2) n(5)] n(1) by (subst deadlock_loop.simps) simp
  next
    case False
    then have "deadlock_step f cp e g s = Inl OutOfBounds" using n deadlock_overrun by (meson not_le)
    then show ?thesis using n(1) by (subst deadlock_loop.simps) simp
  qed
qed

text \<open>The process a blocked one waits for, and the processes the loop looks at until it leaves the array.\<close>

definition dl_next :: "kstate \<Rightarrow> int \<Rightarrow> int" where
  "dl_next s e = P_BLOCKEDON (procs s (ENDPOINT_P e))"

definition dl_live :: "kstate \<Rightarrow> int \<Rightarrow> bool" where
  "dl_live s e \<longleftrightarrow> e \<noteq> ANY \<and> isokendpt e s = Some (ENDPOINT_P e) \<and> proc_ptr_ok (procs s (ENDPOINT_P e)) \<and>
     \<not> RTS_ISSET (procs s (ENDPOINT_P e)) RTS_SLOT_FREE"

lemma isokendpt_slot: "isokendpt e s = Some n \<Longrightarrow> n = ENDPOINT_P e \<and> isokprocn n \<and> p_endpoint (procs s n) = e"
  by (auto simp: isokendpt_def Let_def split: if_splits)

lemma deadlock_loop_trace:
  "deadlock_loop f cp e g s = Inl OutOfBounds \<Longrightarrow> g + k \<le> DL_ENTRIES \<Longrightarrow>
   dl_live s ((dl_next s ^^ k) e) \<and> (g + k < DL_ENTRIES \<longrightarrow> dl_next s ((dl_next s ^^ k) e) \<notin> {NONE, p_endpoint (procs s cp)})"
proof (induction f cp e g s arbitrary: k rule: deadlock_loop.induct)
  case (1 f cp e g s)
  have na: "e \<noteq> ANY" using 1(2) by (subst (asm) deadlock_loop.simps) (simp split: if_splits)
  show ?case
  proof (cases "deadlock_step f cp e g s")
    case (Inl x)
    then have "x = OutOfBounds" using 1(2) na by (subst (asm) deadlock_loop.simps) simp
    then obtain n where n: "isokendpt e s = Some n" "proc_ptr_ok (procs s n)" "\<not> RTS_ISSET (procs s n) RTS_SLOT_FREE" "DL_ENTRIES \<le> g"
      using Inl deadlock_overrun by blast
    then have "k = 0" using 1(3) by simp
    then show ?thesis using n na isokendpt_slot [OF n(1)] by (auto simp: dl_live_def)
  next
    case (Inr r)
    then obtain e' where r: "r = Follow e'" "deadlock_loop f cp e' (g + 1) s = Inl OutOfBounds"
      using 1(2) na by (subst (asm) deadlock_loop.simps) (cases r; simp)
    then obtain n where n: "isokendpt e s = Some n" "proc_ptr_ok (procs s n)" "\<not> RTS_ISSET (procs s n) RTS_SLOT_FREE"
      "P_BLOCKEDON (procs s n) = e'" "e' \<notin> {NONE, p_endpoint (procs s cp)}" using Inr deadlock_follow by blast
    have e: "dl_next s e = e'" "dl_live s e" using n na isokendpt_slot [OF n(1)] by (auto simp: dl_next_def dl_live_def)
    show ?thesis
    proof (cases k)
      case 0
      then show ?thesis using e n(5) by simp
    next
      case (Suc j)
      then show ?thesis using 1(1) [OF na Inr r(1,2), of j] 1(3) e(1) by (simp add: funpow_swap1)
    qed
  qed
qed

text \<open>A chain that leaves the array has more processes than there are slots but the caller's, so it meets one twice.\<close>

lemma deadlock_loop_repeats:
  assumes "deadlock_loop f cp e 1 s = Inl OutOfBounds" "isokprocn cp" "e \<noteq> p_endpoint (procs s cp)"
  obtains i j where "i < j" "j < DL_ENTRIES" "(dl_next s ^^ i) e = (dl_next s ^^ j) e"
proof -
  let ?x = "\<lambda>k. (dl_next s ^^ k) e"
  have l: "dl_live s (?x k)" if "k < DL_ENTRIES" for k using deadlock_loop_trace [OF assms(1), of k] that by simp
  have nc: "?x k \<noteq> p_endpoint (procs s cp)" if "k < DL_ENTRIES" for k
    using deadlock_loop_trace [OF assms(1), of "k - 1"] assms(3) that by (cases k) auto
  have slot: "ENDPOINT_P (?x k) \<in> {- NR_TASKS ..< NR_PROCS} - {cp}" "p_endpoint (procs s (ENDPOINT_P (?x k))) = ?x k" if "k < DL_ENTRIES" for k
  proof -
    have "isokendpt (?x k) s = Some (ENDPOINT_P (?x k))" using l [OF that] by (simp add: dl_live_def)
    from isokendpt_slot [OF this] have ok: "isokprocn (ENDPOINT_P (?x k))" and ep: "p_endpoint (procs s (ENDPOINT_P (?x k))) = ?x k" by blast+
    have "ENDPOINT_P (?x k) \<noteq> cp"
    proof
      assume "ENDPOINT_P (?x k) = cp"
      from ep [unfolded this] show False using nc [OF that] by (rule notE [rotated, OF sym])
    qed
    then show "ENDPOINT_P (?x k) \<in> {- NR_TASKS ..< NR_PROCS} - {cp}" using ok by (simp add: isokprocn_def)
    show "p_endpoint (procs s (ENDPOINT_P (?x k))) = ?x k" by (rule ep)
  qed
  let ?S = "{- NR_TASKS ..< NR_PROCS} - {cp}"
  have "card ?S = 260" using assms(2) by (simp add: isokprocn_def)
  moreover have "(\<lambda>k. ENDPOINT_P (?x k)) ` {..< DL_ENTRIES} \<subseteq> ?S" using slot(1) by blast
  then have "card ((\<lambda>k. ENDPOINT_P (?x k)) ` {..< DL_ENTRIES}) \<le> card ?S" by (rule card_mono [rotated]) simp
  ultimately have "card ((\<lambda>k. ENDPOINT_P (?x k)) ` {..< DL_ENTRIES}) < card {..< DL_ENTRIES}" by simp
  then have "\<not> inj_on (\<lambda>k. ENDPOINT_P (?x k)) {..< DL_ENTRIES}" by (rule pigeonhole)
  then obtain i j where ij: "i < DL_ENTRIES" "j < DL_ENTRIES" "i \<noteq> j" "ENDPOINT_P (?x i) = ENDPOINT_P (?x j)" by (auto simp: inj_on_def)
  then have "?x i = ?x j" using slot(2) by metis
  then show thesis using that [of i j] that [of j i] ij by (cases "i < j") auto
qed

text \<open>C29. What the deadlock check does with a cycle that the caller is not part of: started at another process than the
  caller, it writes past the end of its array of processes exactly when this process is one of a set of live blocked
  processes each of which waits for another one of the set and none of which waits for the caller. In every
  other state it ends within the array, with an answer, a panic or a failed assertion.
\<close>

theorem deadlock_overruns:
  assumes "isokprocn cp" "src_dst_e \<noteq> p_endpoint (procs s cp)"
  shows "deadlock function cp src_dst_e s = Inl OutOfBounds \<longleftrightarrow> (\<exists>C. src_dst_e \<in> C \<and> wait_cycle C cp s)"
proof
  assume "deadlock function cp src_dst_e s = Inl OutOfBounds"
  then have o: "deadlock_loop function cp src_dst_e 1 s = Inl OutOfBounds" by (simp add: deadlock_def)
  let ?x = "\<lambda>k. (dl_next s ^^ k) src_dst_e"
  obtain i j where ij: "i < j" "j < DL_ENTRIES" "?x i = ?x j" by (rule deadlock_loop_repeats [OF o assms])
  have "\<exists>k' < j. dl_next s (?x k) = ?x k'" if "k < j" for k
  proof (cases "Suc k < j")
    case False
    then have "Suc k = j" using that by simp
    then show ?thesis using ij by (intro exI [of _ i]) auto
  qed (auto intro!: exI [of _ "Suc k"])
  then have cl: "dl_next s (?x k) \<in> ?x ` {..< j}" if "k < j" for k using that by blast
  have "wait_cycle (?x ` {..< j}) cp s"
    unfolding wait_cycle_def
  proof (intro ballI)
    fix y assume "y \<in> ?x ` {..< j}"
    then obtain k where k: "k < j" "y = ?x k" by blast
    then have "dl_live s y" "dl_next s y \<notin> {NONE, p_endpoint (procs s cp)}" "dl_next s y \<in> ?x ` {..< j}"
      using deadlock_loop_trace [OF o, of k] ij(2) cl [OF k(1)] by simp_all
    then show "y \<noteq> ANY \<and> (\<exists>n. isokendpt y s = Some n \<and> proc_ptr_ok (procs s n) \<and> \<not> RTS_ISSET (procs s n) RTS_SLOT_FREE \<and>
        P_BLOCKEDON (procs s n) \<in> ?x ` {..< j} \<and> P_BLOCKEDON (procs s n) \<notin> {NONE, p_endpoint (procs s cp)})"
      unfolding dl_live_def dl_next_def by blast
  qed
  moreover have "src_dst_e \<in> ?x ` {..< j}" using ij(1) by (intro image_eqI [of _ _ 0]) auto
  ultimately show "\<exists>C. src_dst_e \<in> C \<and> wait_cycle C cp s" by (intro exI conjI)
next
  assume "\<exists>C. src_dst_e \<in> C \<and> wait_cycle C cp s"
  then show "deadlock function cp src_dst_e s = Inl OutOfBounds" using deadlock_loop_cycle by (auto simp: deadlock_def)
qed

text \<open>Processes 3 and 4 wait for each other's message.\<close>

definition cycle_sample :: kstate where
  "cycle_sample = upd_proc 4 (\<lambda>q. q\<lparr>p_rts_flags := RTS_RECEIVING, p_getfrom_e := 3\<rparr>)
     (upd_proc 3 (\<lambda>q. q\<lparr>p_rts_flags := RTS_RECEIVING, p_getfrom_e := 4\<rparr>) queue_sample)"

theorem deadlock_overruns_witness:
  "deadlock SEND 1 3 cycle_sample = Inl OutOfBounds"
proof -
  have w: "wait_cycle {3, 4} 1 cycle_sample"
    by (simp add: wait_cycle_def cycle_sample_def isokendpt_def ENDPOINT_P_def c_rem_def
        isokprocn_def isemptyn_def proc_ptr_ok_def RTS_ISSET_def P_BLOCKEDON_def has_def)
  have "isokprocn 1" "3 \<noteq> p_endpoint (procs cycle_sample 1)" by (simp_all add: isokprocn_def cycle_sample_def queue_sample_def)
  then show ?thesis using deadlock_overruns [of 1 3 cycle_sample SEND] w by blast
qed

section \<open>Notifications\<close>

lemma first_bit_lowest:
  assumes "i < NR_SYS_PROCS" "bits i" "\<And>j. j < i \<Longrightarrow> \<not> bits j"
  shows "first_bit bits = Some i"
proof -
  have f: "find bits [c ..< c + 32] = Some i" if "c \<le> i" "i < c + 32" for c
  proof -
    have "[c ..< c + 32] = [c ..< i] @ i # [Suc i ..< c + 32]"
      using that upt_add_eq_append [of c i "c + 32 - i"] upt_conv_Cons [of i "c + 32"] by simp
    moreover have "find bits [c ..< i] = None" using assms(3) that by (auto simp: find_None_iff)
    moreover have "find bits (xs @ i # ys) = Some i" if "find bits xs = None" for xs ys
      using that assms by (induction xs) (auto split: if_splits)
    ultimately show ?thesis by simp
  qed
  show ?thesis
  proof (cases "i < 32")
    case True
    then have "(\<exists>k \<in> {0 ..< 0 + 32}. bits k) = True" using assms(2) by auto
    then show ?thesis using f [of 0] True by (simp only: first_bit_def find.simps if_True option.case)
  next
    case False
    then have "(\<exists>k \<in> {0 ..< 0 + 32}. bits k) = False" using assms(3) by auto
    moreover have "(\<exists>k \<in> {32 ..< 32 + 32}. bits k) = True" using False assms(1,2) by auto
    ultimately show ?thesis using f [of 32] False assms(1) by (simp only: first_bit_def find.simps if_True if_False option.case)
  qed
qed

lemma priv_upd:
  "priv_of (upd_priv p f s) x = (if p_priv (procs s x) = p_priv (procs s p) then f (priv_of s p) else priv_of s x)"
  "procs (upd_priv p f s) = procs s" "ppriv_addr (upd_priv p f s) = (ppriv_addr s)(p_priv (procs s p) := f (priv_of s p))"
  by (simp_all add: upd_priv_def priv_of_def)

lemma BuildNotify_view:
  "m_type (p_delivermsg (p_msgs (procs (BuildNotifyMessage src dst s) dst))) = NOTIFY_MESSAGE"
  "p_misc_flags (procs (BuildNotifyMessage src dst s) x) = p_misc_flags (procs s x)"
  "p_priv (procs (BuildNotifyMessage src dst s) x) = p_priv (procs s x)"
  "s_notify_pending (priv_of (BuildNotifyMessage src dst s) x) = s_notify_pending (priv_of s x)"
proof -
  have u: "p_priv (procs (upd_msgs p f s) x) = p_priv (procs s x)" for p f s x by (simp add: upd_msgs_def)
  show "m_type (p_delivermsg (p_msgs (procs (BuildNotifyMessage src dst s) dst))) = NOTIFY_MESSAGE"
    "p_misc_flags (procs (BuildNotifyMessage src dst s) x) = p_misc_flags (procs s x)"
    "p_priv (procs (BuildNotifyMessage src dst s) x) = p_priv (procs s x)"
    by (simp_all add: BuildNotifyMessage_def Let_def upd_msgs_def priv_upd)
  show "s_notify_pending (priv_of (BuildNotifyMessage src dst s) x) = s_notify_pending (priv_of s x)"
    by (auto simp: BuildNotifyMessage_def Let_def priv_upd u) (auto simp: priv_of_def)
qed

text \<open>C30. A notification to a process that is not ready for it does not block the sender and is not lost:
  only the bit of the sender is recorded, and if no notification with a lower number is pending for the process, its next
  receive from anyone returns this notification with the sender's endpoint as its source and clears the bit, and
  no other. The receiver is supposed not to be sending, not to have a message on its way to it and not to wait for the
  answer to a \<open>SENDREC\<close>, which would put notifications off; the sender is supposed to be the process its privilege structure names.
\<close>

theorem notification_kept:
  assumes d: "isokendpt dst_e s = Some dst" "\<not> WILLRECEIVE (procs s dst) (p_endpoint (procs s caller))"
      "\<not> RTS_ISSET (procs s dst) RTS_SENDING" "\<not> misc_is s dst MF_DELIVERMSG" "\<not> misc_is s dst MF_REPLY_PEND"
    and i: "i = s_id (priv_of s caller)" "i < NR_SYS_PROCS" "\<And>j. j < i \<Longrightarrow> \<not> s_notify_pending (priv_of s dst) j"
    and src: "s_proc_nr (ppriv_addr s i) = caller" "caller \<noteq> NONE"
  shows "\<exists>t u. mini_notify caller dst_e s = Inr (OK, t) \<and> procs t = procs s \<and> s_notify_pending (priv_of t dst) i \<and>
    mini_receive retr insrt dst ANY buf flags t = Inr (OK, u) \<and>
    m_source (p_delivermsg (p_msgs (procs u dst))) = p_endpoint (procs s caller) \<and>
    m_type (p_delivermsg (p_msgs (procs u dst))) = NOTIFY_MESSAGE \<and>
    misc_is u dst MF_DELIVERMSG \<and> s_notify_pending (priv_of u dst) = (s_notify_pending (priv_of s dst))(i := False)"
proof -
  let ?t = "upd_priv dst (\<lambda>v. v\<lparr>s_notify_pending := (s_notify_pending v)(i := True)\<rparr>) s"
  let ?b = "upd_msgs dst (\<lambda>x. x\<lparr>p_delivermsg_vir := buf\<rparr>) ?t"
  have n: "mini_notify caller dst_e s = Inr (OK, ?t)" using d(1,2) i(1) by (simp add: mini_notify_def)
  have bit: "s_notify_pending (priv_of ?t dst) = (s_notify_pending (priv_of s dst))(i := True)" by (simp add: priv_upd)
  have fb: "first_bit (s_notify_pending (priv_of ?t dst)) = Some i"
    by (rule first_bit_lowest) (use i bit in auto)
  have pend: "has_pending_notify dst ANY ?b = Some i"
    using fb by (simp add: has_pending_notify_def has_pending_def)
  have src': "s_proc_nr (ppriv_addr ?b i) = caller" using src by (auto simp: priv_upd priv_of_def upd_msgs_def upd_proc_def)
  define c where "c = BuildNotifyMessage caller dst (unset_notify_pending dst i ?b)"
  define e where "e = upd_msgs dst (\<lambda>m. m\<lparr>p_delivermsg := (p_delivermsg m)\<lparr>m_source := p_endpoint (procs s caller)\<rparr>\<rparr>) c"
  define u where "u = IPC_STATUS_ADD_CALL dst NOTIFY (set_misc dst MF_DELIVERMSG e)"
  have q: "procs ?t = procs s" by (simp add: priv_upd)
  have ms: "misc_is ?b x k = misc_is s x k" "RTS_ISSET (procs ?b x) k = RTS_ISSET (procs s x) k"
    "p_endpoint (procs (unset_notify_pending dst i ?b) x) = p_endpoint (procs s x)"
    "misc_is (unset_notify_pending dst i ?b) x k = misc_is s x k" for x k
    using q by (simp_all add: misc_is_def unset_notify_pending_def priv_upd upd_msgs_def RTS_ISSET_def)
  have r: "rcv_notify dst ANY i ?b = Inr u"
    using src src' d(4) ms by (simp add: rcv_notify_def Let_def kassert_def c_def e_def u_def)
  have "mini_receive retr insrt dst ANY buf flags ?t = Inr (OK, clr_misc dst MF_REPLY_PEND u)"
    using d(3-5) pend r ms(1,2) q by (simp add: mini_receive_def kassert_def rcv_any_def Let_def misc_is_def RTS_ISSET_def)
  moreover have "p_msgs (procs u x) = p_msgs (procs e x)" for x
    by (simp add: u_def IPC_STATUS_ADD_CALL_def IPC_STATUS_ADD_def set_misc_def)
  moreover have "misc_is u dst MF_DELIVERMSG"
    by (simp add: u_def IPC_STATUS_ADD_CALL_def IPC_STATUS_ADD_def set_misc_def misc_is_def has_setf_same)
  moreover have "s_notify_pending (priv_of u dst) = (s_notify_pending (priv_of s dst))(i := False)"
  proof -
    have "priv_of u = priv_of e" "priv_of e = priv_of c"
      using same_ids_priv [OF same_ids_writes(4)] same_ids_priv [OF same_ids_writes(2)] by (simp_all add: u_def e_def IPC_STATUS_ADD_CALL_def)
    then show ?thesis by (simp add: c_def BuildNotify_view unset_notify_pending_def priv_upd)
  qed
  moreover have "m_type (p_delivermsg (p_msgs (procs e dst))) = NOTIFY_MESSAGE"
    using BuildNotify_view(1) by (simp add: e_def c_def upd_msgs_def)
  moreover have "m_source (p_delivermsg (p_msgs (procs e dst))) = p_endpoint (procs s caller)"
    by (simp add: e_def upd_msgs_def)
  moreover have "priv_of (clr_misc dst MF_REPLY_PEND u) = priv_of u" using same_ids_priv [OF same_ids_writes(3)] by blast
  ultimately show ?thesis
    using n q bit by (simp add: clr_misc_def misc_is_def has_clrf_other)
qed

theorem notification_kept_witness:
  "\<exists>t u. mini_notify 2 1 (queue_sample\<lparr>ppriv_addr := (\<lambda>_. zero_priv\<lparr>s_proc_nr := 2, s_id := 5\<rparr>)\<rparr>) = Inr (OK, t) \<and>
     mini_receive (\<lambda>_ _ _ _. None) (\<lambda>_ _ _ _ _. None) 1 ANY 1 0 t = Inr (OK, u) \<and>
     m_source (p_delivermsg (p_msgs (procs u 1))) = 2"
proof -
  let ?s = "queue_sample\<lparr>ppriv_addr := (\<lambda>_. zero_priv\<lparr>s_proc_nr := 2, s_id := 5\<rparr>)\<rparr>"
  have pr: "priv_of ?s x = zero_priv\<lparr>s_proc_nr := 2, s_id := 5\<rparr>" for x by (simp add: priv_of_def)
  have "isokendpt 1 ?s = Some 1"
    by (simp add: isokendpt_def ENDPOINT_P_def c_rem_def isokprocn_def isemptyn_def Let_def)
  then show ?thesis
    using notification_kept [of 1 ?s 1 2 5 "\<lambda>_ _ _ _. None" "\<lambda>_ _ _ _ _. None" 1 0] pr
    by (fastforce simp: WILLRECEIVE_def RTS_ISSET_def misc_is_def has_def zero_priv_def)
qed

end
