(* ===== verification/Pick_Proc.thy ===== *)
theory Pick_Proc
  imports Samples Ipc_Laws Exc_Handler
begin

text \<open>
  Choosing the process to run (\<open>kernel/proc.c\<close>): \<open>hpick_proc\<close> of the hardening decides
  while an element is in progress, otherwise the ready lists decide (\<open>pick_proc\<close>). The lemmas
  show that the choice keeps to the element and to VM, agrees with the check on the way to user
  mode, and that an element whose process used up its quantum is rolled back.
\<close>

section \<open>Definitions\<close>

abbreviation RTS_INS_COUNTER :: u32 where "RTS_INS_COUNTER \<equiv> 0x20000"

definition bill :: "int \<Rightarrow> kstate \<Rightarrow> kstate" where
  "bill p s = (if has (s_flags (priv_of s p)) BILLABLE then s\<lparr>bill_ptr := Some p\<rparr> else s)"

definition hpick_vm_run :: "int \<Rightarrow> kstate \<Rightarrow> stop + (int option \<times> kstate)" where
  "hpick_vm_run hp s =
     (if has (p_rts_flags (procs s hp)) RTS_PAGEFAULT
      then (if \<not> proc_is_runnable (procs s VM_PROC_NR)
            then Inl (Panic ''hardening page fault but VM is not runnable'')
            else Inr (Some VM_PROC_NR, s))
      else if proc_is_runnable (procs s hp)
      then bnd (kassert (h_step_back s = FIRST_RUN \<or> h_step_back s = SECOND_RUN) ''h_step_back'' s) (\<lambda>s.
             Inr (Some hp, bill hp (s\<lparr>h_step := h_step_back s, h_step_back := 0\<rparr>)))
      else Inl (Panic ''Hardened process is not runnable after page fault handled 1''))"

definition hpick_proc :: "kstate \<Rightarrow> stop + (int option \<times> kstate)" where
  "hpick_proc s =
     (let hp = h_proc_nr s
      in if h_enable s = 0 then Inr (None, s)
         else if h_step s = VM_RUN then hpick_vm_run hp s
         else if RTS_ISSET (procs s hp) RTS_NO_QUANTUM
         then bnd (abort_pe hp s) (\<lambda>s. Inr (None, s))
         else if has (p_rts_flags (procs s hp)) RTS_INS_COUNTER
         then bnd (RTS_UNSET hp RTS_INS_COUNTER s) (\<lambda>s.
                if proc_is_runnable (procs s hp) then Inr (Some hp, bill hp s)
                else Inl (Panic ''Hardened process is not runnable during hardening enable 3''))
         else if proc_is_runnable (procs s hp) then Inr (Some hp, bill hp s)
         else Inl (Panic ''Hardened process is not runnable during hardening enable 4''))"

definition pick_proc :: "kstate \<Rightarrow> stop + (int option \<times> kstate)" where
  "pick_proc s =
     bnd (hpick_proc s) (\<lambda>(r, s). case r of Some p \<Rightarrow> Inr (Some p, s) | None \<Rightarrow> pick_ready s)"

text \<open>
  The part of \<open>switch_to_user\<close> that puts a preempted process back on its list before another
  is picked; a process that only lost the processor goes to the front.
\<close>

definition put_back :: "int \<Rightarrow> kstate \<Rightarrow> stop + kstate" where
  "put_back p s =
     (if has (p_rts_flags (procs s p)) RTS_PREEMPTED
      then let s = upd_proc p (\<lambda>q. q\<lparr>p_rts_flags := clrf (p_rts_flags q) RTS_PREEMPTED\<rparr>) s
           in if proc_is_runnable (procs s p)
              then (if p_cpu_time_left (procs s p) \<noteq> 0 then enqueue_head p s else enqueue p s)
              else Inr s
      else Inr s)"

section \<open>Lemmas\<close>

lemma bill_sel [simp]:
  "procs (bill p s) = procs s" "h_enable (bill p s) = h_enable s" "h_step (bill p s) = h_step s"
  "h_proc_nr (bill p s) = h_proc_nr s" "vm_should_run (bill p s) = vm_should_run s"
  by (simp_all add: bill_def)

lemma hpick_cases:
  assumes "hpick_proc s = Inr (r, t)" "h_enable s \<noteq> 0"
  shows "r = Some (h_proc_nr s) \<and> proc_is_runnable (procs t (h_proc_nr s)) \<or>
    r = Some VM_PROC_NR \<and> t = s \<and> h_step s = VM_RUN \<and> has (p_rts_flags (procs s (h_proc_nr s))) RTS_PAGEFAULT \<and>
      proc_is_runnable (procs s VM_PROC_NR) \<or>
    r = None \<and> h_step s \<noteq> VM_RUN \<and> RTS_ISSET (procs s (h_proc_nr s)) RTS_NO_QUANTUM \<and> abort_pe (h_proc_nr s) s = Inr t"
  using assms
  by (auto simp: hpick_proc_def hpick_vm_run_def Let_def kres_simps split: if_splits)

text \<open>C26. While an element is in progress the scheduler, if it does not panic, resumes only the process of the element or,
  while VM handles a page fault of it, VM, and the process it picks is runnable. Left out is a process of
  the element that used up its quantum: the element is then aborted.
\<close>

theorem pick_proc_confined:
  assumes "pick_proc s = Inr (r, t)" "h_enable s \<noteq> 0"
    "h_step s = VM_RUN \<or> \<not> RTS_ISSET (procs s (h_proc_nr s)) RTS_NO_QUANTUM"
  shows "\<exists>p. r = Some p \<and> proc_is_runnable (procs t p) \<and>
    (p = h_proc_nr s \<or> p = VM_PROC_NR \<and> h_step s = VM_RUN \<and> has (p_rts_flags (procs s (h_proc_nr s))) RTS_PAGEFAULT)"
proof -
  obtain q u where u: "hpick_proc s = Inr (q, u)" using assms(1) by (auto simp: pick_proc_def kres_simps)
  from hpick_cases [OF u assms(2)] assms u show ?thesis by (auto simp: pick_proc_def)
qed

theorem pick_proc_confined_witness:
  "\<exists>t. pick_proc (queue_sample\<lparr>h_enable := H_ENABLE, h_step := FIRST_RUN, h_proc_nr := 2\<rparr>) = Inr (Some 2, t)"
proof -
  let ?s = "queue_sample\<lparr>h_enable := H_ENABLE, h_step := FIRST_RUN, h_proc_nr := 2\<rparr>"
  have e: "pick_proc ?s = Inr (Some 2, bill 2 ?s)"
    by (simp add: pick_proc_def hpick_proc_def RTS_ISSET_def has_def)
  show ?thesis using pick_proc_confined [OF e] e by (simp add: RTS_ISSET_def)
qed

text \<open>The scheduler's part of a state is untouched by the page operations of the element.\<close>

lemma quiet_sched: "quiet p s t \<Longrightarrow> same_sched s t"
proof -
  assume q: "quiet p s t"
  have e: "s = t\<lparr>mem := mem s, working_set := working_set s, tsc_n := tsc_n s, procs := procs s\<rparr>"
    using q by (simp add: quiet_def)
  have "unaccounted (procs t x) = unaccounted (procs s x)" for x
    using q by (cases "x = p") (auto simp: quiet_def)
  note c = arg_cong [OF this [unfolded unaccounted_def]]
  have x: "p_sched (procs t x) = p_sched (procs s x)" "p_rts_flags (procs t x) = p_rts_flags (procs s x)"
    "p_magic (procs t x) = p_magic (procs s x)" "p_priv (procs t x) = p_priv (procs s x)" for x
    using c [of p_sched x] c [of p_rts_flags x] c [of p_magic x] c [of p_priv x] by simp_all
  have "ppriv_addr t = ppriv_addr s" "run_q_head t = run_q_head s" "run_q_tail t = run_q_tail s" "proc_ptr t = proc_ptr s"
    by (subst e, simp)+
  then show ?thesis using x by (simp add: same_sched_def priv_of_def)
qed

lemma abort_rolls_back:
  assumes r: "pe_running p root as s" and sg: "p_sig_delay (procs s p) = - 1"
  shows "\<exists>t. abort_pe p s = Inr t \<and> h_enable t = H_DISABLE \<and> h_step t = NO_HARD_RUN \<and>
    p_reg (procs t p) = move_regs (z_reg (copy_0 s)) (p_reg (procs s p)) \<and> proc_is_runnable (procs t p) \<and>
    ready_list t = ready_list s \<and>
    (\<forall>a \<in> set as. us0 (working_set s a) \<noteq> MAP_NONE \<longrightarrow>
       same_frame (mem t) (us0 (working_set s a)) (mem s) (us0 (working_set s a)) \<and>
       (us1 (working_set s a) \<noteq> MAP_NONE \<longrightarrow> same_frame (mem t) (us1 (working_set s a)) (mem s) (us0 (working_set s a))) \<and>
       (us2 (working_set s a) \<noteq> MAP_NONE \<longrightarrow> same_frame (mem t) (us2 (working_set s a)) (mem s) (us0 (working_set s a))) \<and>
       (us1 (working_set s a) \<noteq> MAP_NONE \<or> us2 (working_set s a) \<noteq> MAP_NONE \<longrightarrow>
          I386_VM_PFA (pte_of root t (pmb_vaddr (working_set s a))) = us0 (working_set s a)))"
proof -
  note S = pe_running_sel [OF r]
  have cr: "p_cr3 (procs s p) = root" and zf: "z_rts_flags (copy_0 s) = 0" using r by (auto simp: pe_running_def pe_proc_def Let_def)
  obtain u where u: "vm_reset_pram p root ABORT_PE s = Inr u" "quiet p s u"
    "\<forall>a \<in> set as. view root u a = rollback_view (view root s a)"
    "\<forall>a. (working_set u a)\<lparr>pmb_flags := pmb_flags (working_set s a)\<rparr> = working_set s a"
    using abort.reset_pram_blocks [OF S(1) _ _ S(5) refl] by auto
  define v where "v = restore_copy_0 p u"
  define t where "t = upd_proc p (\<lambda>q. q\<lparr>p_stats := (p_stats q)\<lparr>p_nb_abort := p_nb_abort (p_stats q) + 1\<rparr>\<rparr>) (run_over p v)"
  have "p_sig_delay (procs v p) = - 1" using sg quiet_proc(7) [OF u(2)] by (simp add: v_def restore_copy_0_sel)
  then have a: "abort_pe p s = Inr t" using u(1) cr by (simp add: abort_pe_def v_def t_def reset_no_signal)
  have m: "mem t = mem u" by (simp add: t_def run_over_sel v_def restore_copy_0_sel upd_proc_def)
  have pt: "pte_of root t x = pte_of root u x" for x by (simp add: pte_of_def pt_of_def pde_of_def m)
  have sc: "p_sched (procs t x) = p_sched (procs u x)" "run_q_head t = run_q_head u" for x
    by (simp_all add: t_def v_def restore_copy_0_def run_over_def clear_run_vars_def upd_proc_def Let_def)
  have "nextready t = nextready u" using sc by (simp add: nextready_def fun_eq_iff)
  then have "ready_list t = ready_list u" using sc by (intro ext) (simp add: ready_list_def)
  also have "\<dots> = ready_list s" by (rule same_sched_view(2) [OF quiet_sched [OF u(2)]])
  finally have rl: "ready_list t = ready_list s" .
  have "p_reg (procs t p) = move_regs (z_reg (copy_0 s)) (p_reg (procs s p))" "p_rts_flags (procs t p) = 0"
    using quiet_sel(5) [OF u(2)] quiet_proc(1) [OF u(2)] zf
    by (simp_all add: t_def run_over_sel v_def restore_copy_0_sel)
  moreover have "h_enable t = H_DISABLE" "h_step t = NO_HARD_RUN" by (simp_all add: t_def run_over_sel upd_proc_def)
  ultimately show ?thesis
    using a rl rolled_back_page [OF _ _ S(1)] u(3,4) by (simp add: m pt proc_is_runnable_def)
qed

text \<open>C16. Out of quantum: when the process of the element used up its time, VM is not handling a page fault of it and no signal was put off,
  the scheduler aborts the element
  instead of picking it. No committed frame changed, both copies hold the committed contents again
  and the pages map the committed frames, the registers are those saved at the start, and the hardening is off.
  The saved flags make the process runnable again, but the ready lists are as they were, so that it is
  on none of them. The comments of \<open>hpick_proc\<close> say that the process is given CPU time; this is compiled out
  (\<open>GIVE_QUANTUM\<close> is 0). The state is that of a running element (\<open>pe_running\<close>): well-formed working set with frames of its own for every page, no faults on
  physical memory, a process that shares no memory and has no recorded memory events, fault injection off.
\<close>

theorem hpick_aborts_out_of_quantum:
  assumes "pe_running p root as s" "p_nr (procs s p) = p" "p_sig_delay (procs s p) = - 1" "h_step s \<noteq> VM_RUN"
    "RTS_ISSET (procs s p) RTS_NO_QUANTUM" "ready_inv s"
  shows "\<exists>t. hpick_proc s = Inr (None, t) \<and> h_enable t = H_DISABLE \<and> h_step t = NO_HARD_RUN \<and>
    p_reg (procs t p) = move_regs (z_reg (copy_0 s)) (p_reg (procs s p)) \<and>
    (\<forall>a \<in> set as. us0 (working_set s a) \<noteq> MAP_NONE \<longrightarrow>
       same_frame (mem t) (us0 (working_set s a)) (mem s) (us0 (working_set s a)) \<and>
       (us1 (working_set s a) \<noteq> MAP_NONE \<longrightarrow> same_frame (mem t) (us1 (working_set s a)) (mem s) (us0 (working_set s a))) \<and>
       (us2 (working_set s a) \<noteq> MAP_NONE \<longrightarrow> same_frame (mem t) (us2 (working_set s a)) (mem s) (us0 (working_set s a))) \<and>
       (us1 (working_set s a) \<noteq> MAP_NONE \<or> us2 (working_set s a) \<noteq> MAP_NONE \<longrightarrow>
          I386_VM_PFA (pte_of root t (pmb_vaddr (working_set s a))) = us0 (working_set s a))) \<and>
    proc_is_runnable (procs t p) \<and> (\<forall>q. p \<notin> set (ready_list t q))"
proof -
  obtain t where t: "abort_pe p s = Inr t" "ready_list t = ready_list s" and rest: "h_enable t = H_DISABLE \<and> h_step t = NO_HARD_RUN \<and>
    p_reg (procs t p) = move_regs (z_reg (copy_0 s)) (p_reg (procs s p)) \<and> proc_is_runnable (procs t p) \<and>
    (\<forall>a \<in> set as. us0 (working_set s a) \<noteq> MAP_NONE \<longrightarrow>
       same_frame (mem t) (us0 (working_set s a)) (mem s) (us0 (working_set s a)) \<and>
       (us1 (working_set s a) \<noteq> MAP_NONE \<longrightarrow> same_frame (mem t) (us1 (working_set s a)) (mem s) (us0 (working_set s a))) \<and>
       (us2 (working_set s a) \<noteq> MAP_NONE \<longrightarrow> same_frame (mem t) (us2 (working_set s a)) (mem s) (us0 (working_set s a))) \<and>
       (us1 (working_set s a) \<noteq> MAP_NONE \<or> us2 (working_set s a) \<noteq> MAP_NONE \<longrightarrow>
          I386_VM_PFA (pte_of root t (pmb_vaddr (working_set s a))) = us0 (working_set s a)))"
    using abort_rolls_back [OF assms(1,3)] by blast
  have hp: "h_proc_nr s = p" "h_enable s = H_ENABLE" using assms(1,2) by (auto simp: pe_running_def)
  have "hpick_proc s = Inr (None, t)" using t(1) hp assms(4,5) by (simp add: hpick_proc_def)
  moreover have "p \<notin> set (ready_list s q)" for q
    using ready_member [OF assms(6), of p q] assms(5) by (auto simp: proc_is_runnable_def RTS_ISSET_def)
  ultimately show ?thesis using rest t(2) by auto
qed

text \<open>The element of \<open>run_state\<close> with its process out of quantum; every other slot is free.\<close>

definition quantum_sample :: kstate where
  "quantum_sample = run_state\<lparr>ppriv_addr := (\<lambda>_. zero_priv\<lparr>s_stack_guard := STACK_GUARD\<rparr>),
     procs := (\<lambda>n. if n = 1 then (procs run_state 1)\<lparr>p_magic := PMAGIC, p_rts_flags := RTS_NO_QUANTUM\<rparr>
                   else zero_proc\<lparr>p_nr := n, p_magic := PMAGIC, p_rts_flags := 1\<rparr>)\<rparr>"

lemma quantum_sample_inv: "ready_inv quantum_sample"
proof -
  have p: "prio quantum_sample x = 0" "p_magic (procs quantum_sample x) = PMAGIC"
    "s_stack_guard (priv_of quantum_sample x) = STACK_GUARD" "\<not> proc_is_runnable (procs quantum_sample x)"
    "run_q_head quantum_sample x = None" "run_q_tail quantum_sample x = None" for x
    by (simp_all add: quantum_sample_def prio_def priv_of_def proc_is_runnable_def run_state_def sample_state_def bss_state_def
        zero_proc_def zero_sched_def)
  have "rq_inv (\<lambda>_. []) quantum_sample"
    by (simp add: rq_inv_def rq_lists_def sched_ok_def proc_ptr_ok_def p)
  then show ?thesis using ready_invI by blast
qed

theorem hpick_aborts_out_of_quantum_witness:
  "\<exists>t. hpick_proc quantum_sample = Inr (None, t) \<and> h_enable t = H_DISABLE \<and>
     same_frame (mem t) 0x7000 (mem quantum_sample) 0x5000 \<and> (\<forall>q. 1 \<notin> set (ready_list t q))"
proof -
  have r: "pe_running 1 0x1000 [0] quantum_sample"
    using run_state_running by (subst pe_running_cong [of _ run_state]) (simp_all add: quantum_sample_def)
  have p: "p_nr (procs quantum_sample 1) = 1" "p_sig_delay (procs quantum_sample 1) = - 1" "h_step quantum_sample \<noteq> VM_RUN"
    "RTS_ISSET (procs quantum_sample 1) RTS_NO_QUANTUM" "working_set quantum_sample 0 = sample_block"
    by (simp_all add: quantum_sample_def run_state_def sample_state_def RTS_ISSET_def)
  show ?thesis using hpick_aborts_out_of_quantum [OF r p(1-4) quantum_sample_inv] p(5) by auto
qed

section \<open>The scheduler and the guard of the element\<close>

lemma unset_frame:
  assumes "ready_inv s" "cur_ok s" "isokprocn p" "RTS_UNSET p f s = Inr t"
  shows "h_enable t = h_enable s" "h_step t = h_step s" "h_proc_nr t = h_proc_nr s" "vm_should_run t = vm_should_run s"
    "p_nr (procs t x) = p_nr (procs s x)"
proof -
  obtain S where S: "sched_only S t" "h_enable S = h_enable s" "h_step S = h_step s" "h_proc_nr S = h_proc_nr s"
    "vm_should_run S = vm_should_run s" "p_nr (procs S x) = p_nr (procs s x)"
    using RTS_UNSET_ok [of "ready_list s" s p f] assms unfolding ready_inv_def
    by (auto simp: ready_flags_def with_flags_def upd_proc_def split: if_splits)
  have e: "t\<lparr>procs := procs S, run_q_head := run_q_head S, run_q_tail := run_q_tail S, tsc_n := tsc_n S\<rparr> = S"
    using S(1) by (simp add: sched_only_def)
  show "h_enable t = h_enable s" "h_step t = h_step s" "h_proc_nr t = h_proc_nr s" "vm_should_run t = vm_should_run s"
    using arg_cong [OF e, of h_enable] arg_cong [OF e, of h_step] arg_cong [OF e, of h_proc_nr] arg_cong [OF e, of vm_should_run] S
    by simp_all
  show "p_nr (procs t x) = p_nr (procs s x)" using sched_only_proc(10) [OF S(1), of x] S(6) by simp
qed

lemma guard_admits:
  assumes "h_enable s = H_ENABLE" "vm_should_run s = 0" "n = p_nr (procs s p)"
    "n = h_proc_nr s \<and> n \<noteq> VM_PROC_NR \<and> h_step s \<noteq> VM_RUN \<or> n = VM_PROC_NR \<and> h_step s = VM_RUN"
  shows "\<exists>u. guard_pe p s = Inr u"
proof -
  let ?c = "enable_counter (set_remain_ins_counter_value_1 p s)"
  have c: "counted p s ?c" by (rule counted_trans [OF counted_ops(2) counted_ops(4)])
  have rc: "h_enable (reset_counter s) = h_enable s" "h_step (reset_counter s) = h_step s" "h_proc_nr (reset_counter s) = h_proc_nr s"
    "vm_should_run (reset_counter s) = vm_should_run s"
    by (simp_all add: reset_counter_def intel_arch_insn_counter_reset_def ia32_msr_write_def Let_def)
  note cs = counted_sel(1,2,3,9) [OF c]
  from assms(4) show ?thesis
  proof
    assume "n = h_proc_nr s \<and> n \<noteq> VM_PROC_NR \<and> h_step s \<noteq> VM_RUN"
    then show ?thesis using assms(1-3) cs by (simp add: guard_pe_def Let_def kassert_def)
  next
    assume "n = VM_PROC_NR \<and> h_step s = VM_RUN"
    then show ?thesis using assms(1-3) cs rc by (simp add: guard_pe_def Let_def kassert_def)
  qed
qed

text \<open>Whatever the scheduler picks during an element passes the check that is made on the way back to user
  mode: the panic on interference with the element, and the panic on VM running without a page
  fault, are never caused by the scheduler's choice.
\<close>

theorem picked_process_admitted:
  assumes pick: "pick_proc s = Inr (Some p, t)"
    and el: "h_enable s = H_ENABLE" "vm_should_run s = 0" "h_step s = VM_RUN \<or> \<not> RTS_ISSET (procs s (h_proc_nr s)) RTS_NO_QUANTUM"
      "h_proc_nr s \<noteq> VM_PROC_NR"
    and inv: "ready_inv s" "cur_ok s" "isokprocn (h_proc_nr s)" and nr: "\<And>x. p_nr (procs s x) = x"
  shows "\<exists>u. guard_pe p t = Inr u"
proof -
  let ?hp = "h_proc_nr s"
  obtain q v where v: "hpick_proc s = Inr (q, v)" using pick by (auto simp: pick_proc_def kres_simps)
  then have "q \<noteq> None" using hpick_cases [OF v] el by auto
  then have u: "hpick_proc s = Inr (Some p, t)" using pick v by (auto simp: pick_proc_def)
  show ?thesis
  proof (cases "h_step s = VM_RUN")
    case True
    then have "hpick_vm_run ?hp s = Inr (Some p, t)" using u el by (simp add: hpick_proc_def)
    then show ?thesis
      using guard_admits [of t _ p] el nr True
      by (auto simp: hpick_vm_run_def kres_simps split: if_splits)
  next
    case False
    then consider "has (p_rts_flags (procs s ?hp)) RTS_INS_COUNTER" "p = ?hp" "\<exists>v. RTS_UNSET ?hp RTS_INS_COUNTER s = Inr v \<and> t = bill ?hp v"
      | "p = ?hp" "t = bill ?hp s"
      using u el by (auto simp: hpick_proc_def Let_def kres_simps split: if_splits)
    then show ?thesis
    proof cases
      case 1
      then obtain v where v: "RTS_UNSET ?hp RTS_INS_COUNTER s = Inr v" "t = bill ?hp v" by blast
      note f = unset_frame [OF inv v(1)]
      show ?thesis using guard_admits [of t _ p] el nr False f v(2) 1(2) by auto
    next
      case 2
      then show ?thesis using guard_admits [of t _ p] el nr False by auto
    qed
  qed
qed

theorem picked_process_admitted_witness:
  "\<exists>t u. pick_proc (queue_sample\<lparr>h_enable := H_ENABLE, h_step := FIRST_RUN, h_proc_nr := 2\<rparr>) = Inr (Some 2, t) \<and> guard_pe 2 t = Inr u"
proof -
  let ?s = "queue_sample\<lparr>h_enable := H_ENABLE, h_step := FIRST_RUN, h_proc_nr := 2\<rparr>"
  have e: "pick_proc ?s = Inr (Some 2, bill 2 ?s)"
    by (simp add: pick_proc_def hpick_proc_def RTS_ISSET_def has_def)
  have ss: "same_sched queue_sample ?s" by (simp add: same_sched_def priv_of_def)
  have i: "ready_inv ?s" "cur_ok ?s" using same_sched_view(3,4) [OF ss] queue_sample_inv by simp_all
  have "vm_should_run ?s = 0" by (simp add: queue_sample_def bss_state_def)
  with picked_process_admitted [OF e] i e show ?thesis by (auto simp: isokprocn_def RTS_ISSET_def)
qed

text \<open>A process that was preempted and has time left is put back at the front of the ready list of its
  priority; one that has none left goes to the end. In both cases it is then the only change to
  the lists, unless the process that runs gives way to it.
\<close>

theorem put_back_position:
  assumes "ready_inv s" "cur_ok s" "isokprocn p" "p_rts_flags (procs s p) = RTS_PREEMPTED"
    "prio s (proc_ptr s) \<le> prio s p"
  shows "\<exists>t. put_back p s = Inr t \<and> ready_inv t \<and>
    ready_list t = (ready_list s)(prio s p :=
      (if p_cpu_time_left (procs s p) \<noteq> 0 then p # ready_list s (prio s p) else ready_list s (prio s p) @ [p]))"
proof -
  let ?s = "with_flags p 0 s"
  have inv: "rq_inv (ready_list s) s" using assms(1) by (simp add: ready_inv_def)
  have out: "\<not> proc_is_runnable (procs s p)" using assms(4) by (simp add: proc_is_runnable_def)
  have s: "upd_proc p (\<lambda>q. q\<lparr>p_rts_flags := clrf (p_rts_flags q) RTS_PREEMPTED\<rparr>) s = ?s"
    using assms(4) by (simp add: with_flags_def upd_proc_def clrf_def)
  have tm: "p_cpu_time_left (procs ?s p) = p_cpu_time_left (procs s p)" by (simp add: with_flags_def)
  have b: "put_back p s = (if p_cpu_time_left (procs s p) \<noteq> 0 then enqueue_head p ?s else enqueue p ?s)"
    unfolding put_back_def s using assms(4) tm by (simp add: has_def proc_is_runnable_def)
  show ?thesis
  proof (cases "p_cpu_time_left (procs s p) = 0")
    case True
    have "\<not> preempts p ?s" using assms(5) by (simp add: preempts_def)
    then have "ready_spec p ?s (ready_list s) = (ready_list s)(prio s p := ready_list s (prio s p) @ [p])"
      by (simp add: ready_spec_def Let_def)
    then show ?thesis
      using enqueue_ok [OF inv assms(3) out assms(2)] b True ready_invI by auto
  next
    case False
    then show ?thesis using enqueue_head_ok [OF inv assms(3) out False] b ready_invI by auto
  qed
qed

theorem put_back_position_witness:
  "\<exists>t. put_back 3 (upd_sched 3 (\<lambda>n. n\<lparr>p_priority := 7\<rparr>) (with_flags 3 RTS_PREEMPTED queue_sample)) = Inr t \<and> ready_list t 7 = [3, 1, 2]"
proof -
  let ?f = "with_flags 3 RTS_PREEMPTED queue_sample" let ?s = "upd_sched 3 (\<lambda>n. n\<lparr>p_priority := 7\<rparr>) ?f"
  have "rq_inv (ready_list queue_sample) ?s"
    by (rule rq_inv_reprioritise [OF flagged_sample_inv]) (simp_all add: proc_is_runnable_def)
  then have i: "ready_inv ?s" "ready_list ?s = (\<lambda>_. [])(7 := [1, 2])" using ready_invI queue_sample_inv(2) by auto
  have p: "proc_ptr ?s = 1" "prio ?s x = 7" "p_rts_flags (procs ?s 3) = RTS_PREEMPTED" "p_cpu_time_left (procs ?s 3) = 1000" for x
    by (simp_all add: prio_upd) (simp_all add: upd_sched_def upd_proc_def with_flags_def queue_sample_def)
  have c: "cur_ok ?s" using p by (simp add: cur_ok_def isokprocn_def)
  show ?thesis
    using put_back_position [OF i(1) c _ p(3)] p i(2) by (auto simp: isokprocn_def)
qed

section \<open>A page fault of the element\<close>

text \<open>From \<open>not_runnable_pick_new\<close> to the chosen process in \<open>switch_to_user\<close>.\<close>

definition pick_new :: "kstate \<Rightarrow> stop + (int option \<times> kstate)" where
  "pick_new s = bnd (put_back (proc_ptr s) s) pick_proc"

text \<open>A fault the element's process cannot go on without: VM gets the message and the process waits.\<close>

lemma pagefault_to_vm:
  assumes inv: "ready_inv s" "cur_ok s" and pr: "isokprocn pr" "0 \<le> pr" "pr \<noteq> VM_PROC_NR" "p_rts_flags (procs s pr) = 0"
      "p_endpoint (procs s pr) \<noteq> VM_PROC_NR"
    and rw: "h_rw s = RO_PAGE_FIRST_RUN \<or> h_rw s = RO_PAGE_SECOND_RUN" "h_step_back s = 0"
    and vm: "p_rts_flags (procs s VM_PROC_NR) = RTS_RECEIVING" "p_getfrom_e (procs s VM_PROC_NR) = ANY" "\<not> misc_is s VM_PROC_NR MF_DELIVERMSG"
  obtains t where "pagefault m errcode False in_copy pcf pr s = Inr t" "ready_inv t" "cur_ok t" "proc_ptr t = proc_ptr s"
    "h_step t = VM_RUN" "h_step_back t = h_step s" "h_enable t = h_enable s" "h_proc_nr t = h_proc_nr s"
    "p_rts_flags (procs t VM_PROC_NR) = 0"
    "p_rts_flags (procs t pr) = RTS_PAGEFAULT \<or>
       pr = proc_ptr s \<and> p_rts_flags (procs t pr) = RTS_PAGEFAULT OR RTS_PREEMPTED"
    "p_delivermsg (p_msgs (procs t VM_PROC_NR)) = m\<lparr>m_source := p_endpoint (procs s pr), VPF_ADDR := cr2 s, VPF_FLAGS := errcode,
       m_type := (if h_rw s = RO_PAGE_FIRST_RUN then VM_HR1PAGEFAULT else VM_HR2PAGEFAULT)\<rparr>"
proof -
  define s1 where "s1 = s\<lparr>h_step_back := h_step s, h_step := VM_RUN\<rparr>"
  have "same_sched s s1" by (simp add: s1_def same_sched_def priv_of_def)
  note v1 = same_sched_view [OF this]
  obtain u where u: "RTS_SET pr RTS_PAGEFAULT s1 = Inr u" "ready_inv u" "cur_ok u"
    "\<And>x. p_msgs (procs u x) = p_msgs (procs s1 x) \<and> p_misc_flags (procs u x) = p_misc_flags (procs s1 x)"
    "\<And>x. p_rts_flags (procs u x) = (if x = pr then setf (p_rts_flags (procs s1 pr)) RTS_PAGEFAULT else p_rts_flags (procs s1 x))"
    "same_ids s1 u" "\<And>x. p_getfrom_e (procs u x) = p_getfrom_e (procs s1 x)"
    by (rule RTS_SET_frame [of s1 pr RTS_PAGEFAULT]) (use inv v1 pr in auto)
  define m' where "m' = m\<lparr>m_source := p_endpoint (procs u pr), VPF_ADDR := cr2 u, VPF_FLAGS := errcode,
       m_type := (if h_rw u = RO_PAGE_FIRST_RUN then VM_HR1PAGEFAULT else VM_HR2PAGEFAULT)\<rparr>"
  obtain t where t: "deliver pr VM_PROC_NR m' FROM_KERNEL u = Inr (OK, t)" "ready_inv t" "cur_ok t"
    "p_delivermsg (p_msgs (procs t VM_PROC_NR)) = m'\<lparr>m_source := p_endpoint (procs u pr)\<rparr>"
    "p_rts_flags (procs t VM_PROC_NR) = clrf (p_rts_flags (procs u VM_PROC_NR)) RTS_RECEIVING" "same_ids u t"
    "\<And>x. x \<noteq> VM_PROC_NR \<Longrightarrow> p_rts_flags (procs t x) = p_rts_flags (procs u x) \<or>
       x = proc_ptr u \<and> p_rts_flags (procs t x) = setf (p_rts_flags (procs u x)) RTS_PREEMPTED"
    by (rule deliver_ok [of u VM_PROC_NR pr m' FROM_KERNEL]) (use u in \<open>auto simp: isokprocn_def\<close>)
  have vf: "p_rts_flags (procs u VM_PROC_NR) = RTS_RECEIVING" "p_getfrom_e (procs u VM_PROC_NR) = ANY" "\<not> misc_is u VM_PROC_NR MF_DELIVERMSG"
    using u(4,5,7) vm pr(3) by (simp_all add: s1_def misc_is_def)
  have e: "ENDPOINT_P VM_PROC_NR = VM_PROC_NR" by (simp add: ENDPOINT_P_def c_rem_def)
  have snd: "mini_send pr VM_PROC_NR (Some m') FROM_KERNEL u = Inr (OK, t)"
    using t(1) vf by (simp add: mini_send_def Let_def e RTS_ISSET_def WILLRECEIVE_def kassert_def)
  have ids: "h_rw u = h_rw s" "cr2 u = cr2 s" "p_endpoint (procs u pr) = p_endpoint (procs s pr)" "proc_ptr u = proc_ptr s"
    using u(6) by (simp_all add: same_ids_def s1_def)
  have up: "p_rts_flags (procs u pr) = RTS_PAGEFAULT" using u(5) pr(4) by (simp add: s1_def setf_def)
  show thesis
  proof (rule that)
    show "pagefault m errcode False in_copy pcf pr s = Inr t"
      using rw pr u(1) snd ids(1) by (auto simp: pagefault_def Let_def kassert_def s1_def m'_def)
    show "p_rts_flags (procs t pr) = RTS_PAGEFAULT \<or> pr = proc_ptr s \<and> p_rts_flags (procs t pr) = RTS_PAGEFAULT OR RTS_PREEMPTED"
      using t(7) [OF pr(3)] up ids(4) by (auto simp: setf_def)
    show "p_delivermsg (p_msgs (procs t VM_PROC_NR)) = m\<lparr>m_source := p_endpoint (procs s pr), VPF_ADDR := cr2 s, VPF_FLAGS := errcode,
       m_type := (if h_rw s = RO_PAGE_FIRST_RUN then VM_HR1PAGEFAULT else VM_HR2PAGEFAULT)\<rparr>"
      unfolding t(4) m'_def ids by simp
    show "p_rts_flags (procs t VM_PROC_NR) = 0" using t(5) vf(1) by (simp add: clrf_def)
  qed (use t(2,3,6) u(6) in \<open>simp_all add: same_ids_def s1_def\<close>)
qed

lemma ready_inv_flags:
  assumes "ready_inv s" "p_rts_flags (procs s p) \<noteq> 0" "f \<noteq> 0"
  shows "ready_inv (with_flags p f s)"
proof -
  have i: "rq_inv (ready_list s) s" using assms(1) by (simp add: ready_inv_def)
  have "p \<notin> set (ready_list s q)" for q
    using ready_member [OF assms(1), of p q] assms(2) by (simp add: proc_is_runnable_def)
  then have "rq_inv (ready_list s) (with_flags p f s)"
    by (intro rq_inv_step [OF i sched_only_refl]) (use rq_invD(1) [OF i] assms(3) in auto)
  then show ?thesis using ready_invI by blast
qed

lemma ready_inv_proc_ptr [simp]: "ready_inv (s\<lparr>proc_ptr := c\<rparr>) = ready_inv s"
proof -
  have "nextready (s\<lparr>proc_ptr := c\<rparr>) = nextready s" "prio (s\<lparr>proc_ptr := c\<rparr>) = prio s"
    "sched_ok (s\<lparr>proc_ptr := c\<rparr>) = sched_ok s"
    by (simp_all add: nextready_def prio_def sched_ok_def proc_ptr_ok_def priv_of_def fun_eq_iff)
  then show ?thesis
    unfolding ready_inv_def rq_inv_def rq_lists_def ready_list_def by (simp cong: if_cong)
qed

lemma put_back_suspended:
  assumes "ready_inv s" "cur_ok s" "proc_ptr s = p"
    "p_rts_flags (procs s p) = RTS_PAGEFAULT \<or> p_rts_flags (procs s p) = RTS_PAGEFAULT OR RTS_PREEMPTED"
  shows "put_back p s = Inr (with_flags p RTS_PAGEFAULT s)" "ready_inv (with_flags p RTS_PAGEFAULT s)" "cur_ok (with_flags p RTS_PAGEFAULT s)"
proof -
  have f: "with_flags p RTS_PAGEFAULT s = s" if "p_rts_flags (procs s p) = RTS_PAGEFAULT"
    unfolding with_flags_def upd_proc_def that [symmetric] by simp
  have u: "upd_proc p (\<lambda>q. q\<lparr>p_rts_flags := clrf (p_rts_flags q) RTS_PREEMPTED\<rparr>) s = with_flags p RTS_PAGEFAULT s"
    if "p_rts_flags (procs s p) = RTS_PAGEFAULT OR RTS_PREEMPTED"
    using that by (simp add: with_flags_def upd_proc_def clrf_def)
  show "put_back p s = Inr (with_flags p RTS_PAGEFAULT s)"
    using assms(4)
  proof
    assume "p_rts_flags (procs s p) = RTS_PAGEFAULT"
    then show ?thesis using f by (simp add: put_back_def has_def)
  next
    assume a: "p_rts_flags (procs s p) = RTS_PAGEFAULT OR RTS_PREEMPTED"
    show ?thesis unfolding put_back_def u [OF a] using a by (simp add: has_def proc_is_runnable_def)
  qed
  show "ready_inv (with_flags p RTS_PAGEFAULT s)" by (rule ready_inv_flags) (use assms in auto)
  show "cur_ok (with_flags p RTS_PAGEFAULT s)" using assms(2) by (simp add: cur_ok_def)
qed

text \<open>C4. A page fault of the element makes progress: when VM waits for any message, the faulting process, which is the current one and
  had no flag set, is suspended, VM gets the message naming the run and the faulting address and is the next process to run;
  once VM cleared the fault, the next process to run is again the process of the element, in the run that
  was interrupted. The fault is one the kernel leaves to VM (\<open>h_rw\<close> names the run), outside a kernel copy, and no earlier fault of the element is
  with VM.
\<close>

theorem page_fault_round:
  assumes inv: "ready_inv s" "cur_ok s" and pr: "isokprocn pr" "0 \<le> pr" "pr \<noteq> VM_PROC_NR" "p_rts_flags (procs s pr) = 0"
      "p_endpoint (procs s pr) \<noteq> VM_PROC_NR" "proc_ptr s = pr"
    and el: "h_enable s = H_ENABLE" "h_proc_nr s = pr" "h_step s = FIRST_RUN \<or> h_step s = SECOND_RUN"
    and rw: "h_rw s = RO_PAGE_FIRST_RUN \<or> h_rw s = RO_PAGE_SECOND_RUN" "h_step_back s = 0"
    and vm: "p_rts_flags (procs s VM_PROC_NR) = RTS_RECEIVING" "p_getfrom_e (procs s VM_PROC_NR) = ANY" "\<not> misc_is s VM_PROC_NR MF_DELIVERMSG"
  shows "\<exists>t u v w. pagefault m errcode False in_copy pcf pr s = Inr t \<and>
    p_delivermsg (p_msgs (procs t VM_PROC_NR)) = m\<lparr>m_source := p_endpoint (procs s pr), VPF_ADDR := cr2 s, VPF_FLAGS := errcode,
       m_type := (if h_rw s = RO_PAGE_FIRST_RUN then VM_HR1PAGEFAULT else VM_HR2PAGEFAULT)\<rparr> \<and>
    \<not> proc_is_runnable (procs t pr) \<and> pick_new t = Inr (Some VM_PROC_NR, u) \<and>
    RTS_UNSET pr RTS_PAGEFAULT (u\<lparr>proc_ptr := VM_PROC_NR\<rparr>) = Inr v \<and>
    pick_proc v = Inr (Some pr, w) \<and> h_step w = h_step s \<and> h_step_back w = 0 \<and> proc_is_runnable (procs w pr)"
proof -
  obtain t where t: "pagefault m errcode False in_copy pcf pr s = Inr t" "ready_inv t" "cur_ok t" "proc_ptr t = proc_ptr s"
    "h_step t = VM_RUN" "h_step_back t = h_step s" "h_enable t = h_enable s" "h_proc_nr t = h_proc_nr s"
    "p_rts_flags (procs t VM_PROC_NR) = 0"
    "p_rts_flags (procs t pr) = RTS_PAGEFAULT \<or> pr = proc_ptr s \<and> p_rts_flags (procs t pr) = RTS_PAGEFAULT OR RTS_PREEMPTED"
    "p_delivermsg (p_msgs (procs t VM_PROC_NR)) = m\<lparr>m_source := p_endpoint (procs s pr), VPF_ADDR := cr2 s, VPF_FLAGS := errcode,
       m_type := (if h_rw s = RO_PAGE_FIRST_RUN then VM_HR1PAGEFAULT else VM_HR2PAGEFAULT)\<rparr>"
    by (rule pagefault_to_vm [OF inv pr(1-5) rw vm])
  let ?u = "with_flags pr RTS_PAGEFAULT t"
  have fl: "p_rts_flags (procs t pr) = RTS_PAGEFAULT \<or> p_rts_flags (procs t pr) = RTS_PAGEFAULT OR RTS_PREEMPTED" using t(10) by auto
  note pb = put_back_suspended [OF t(2,3) t(4) [unfolded pr(6)] fl]
  have hu: "h_step ?u = VM_RUN" "h_step_back ?u = h_step s" "h_enable ?u = H_ENABLE" "h_proc_nr ?u = pr"
    using t(5-8) el by (simp_all add: with_flags_def upd_proc_def)
  have pn: "pick_new t = Inr (Some VM_PROC_NR, ?u)"
    using pb(1) t(4,9) pr(3,6) hu by (simp add: pick_new_def pick_proc_def hpick_proc_def hpick_vm_run_def has_def proc_is_runnable_def)
  let ?x = "?u\<lparr>proc_ptr := VM_PROC_NR\<rparr>"
  have ri: "ready_inv ?x" using pb(2) by simp
  have cx: "cur_ok ?x" by (simp add: cur_ok_def isokprocn_def)
  obtain v where v: "RTS_UNSET pr RTS_PAGEFAULT ?x = Inr v" "p_rts_flags (procs v pr) = clrf (p_rts_flags (procs ?x pr)) RTS_PAGEFAULT"
    "same_ids ?x v"
    by (rule RTS_UNSET_frame [OF ri cx pr(1), of RTS_PAGEFAULT])
  have rv: "p_rts_flags (procs v pr) = 0" using v(2) by (simp add: clrf_def)
  have hv: "h_step v = VM_RUN" "h_step_back v = h_step s" "h_enable v = H_ENABLE" "h_proc_nr v = pr"
    using v(3) hu by (simp_all add: same_ids_def)
  define w where "w = bill pr (v\<lparr>h_step := h_step s, h_step_back := 0\<rparr>)"
  have "pick_proc v = Inr (Some pr, bill pr (v\<lparr>h_step := h_step s, h_step_back := 0\<rparr>))"
    using rv hv el(3) by (simp add: pick_proc_def hpick_proc_def hpick_vm_run_def has_def proc_is_runnable_def kassert_def)
  then have "pick_proc v = Inr (Some pr, w)" "h_step w = h_step s" "h_step_back w = 0" "proc_is_runnable (procs w pr)"
    using rv by (simp_all add: w_def proc_is_runnable_def bill_def)
  moreover have "\<not> proc_is_runnable (procs t pr)" using fl by (auto simp: proc_is_runnable_def)
  ultimately show ?thesis
    using t(1,11) pn v(1) by blast
qed

text \<open>Process 1 runs its element, VM waits for a message.\<close>

definition fault_sample :: kstate where
  "fault_sample = queue_sample\<lparr>h_enable := H_ENABLE, h_step := FIRST_RUN, h_proc_nr := 1, h_rw := RO_PAGE_FIRST_RUN,
     procs := (procs queue_sample)(VM_PROC_NR := (procs queue_sample VM_PROC_NR)\<lparr>p_rts_flags := RTS_RECEIVING, p_getfrom_e := ANY\<rparr>)\<rparr>"

theorem page_fault_round_witness:
  "\<exists>t u. pagefault zero_msg 7 False False 0 1 fault_sample = Inr t \<and> pick_new t = Inr (Some VM_PROC_NR, u)"
proof -
  let ?f = "with_flags VM_PROC_NR RTS_RECEIVING queue_sample"
  have i: "ready_inv ?f" by (rule ready_inv_flags) (simp_all add: queue_sample_inv)
  have ss: "same_sched ?f fault_sample" by (simp add: same_sched_def fault_sample_def priv_of_def with_flags_def upd_proc_def)
  have inv: "ready_inv fault_sample" "cur_ok fault_sample"
    using i same_sched_view(3,4) [OF ss] queue_sample_inv(3) by (auto simp: cur_ok_def)
  have f: "p_rts_flags (procs fault_sample 1) = 0" "p_endpoint (procs fault_sample 1) = 1" "proc_ptr fault_sample = 1"
    "h_enable fault_sample = H_ENABLE" "h_proc_nr fault_sample = 1" "h_step fault_sample = FIRST_RUN"
    "h_rw fault_sample = RO_PAGE_FIRST_RUN" "h_step_back fault_sample = 0" "p_rts_flags (procs fault_sample VM_PROC_NR) = RTS_RECEIVING"
    "p_getfrom_e (procs fault_sample VM_PROC_NR) = ANY" "\<not> misc_is fault_sample VM_PROC_NR MF_DELIVERMSG"
    by (simp_all add: fault_sample_def misc_is_def has_def) (simp add: queue_sample_def bss_state_def)
  show ?thesis
    using page_fault_round [OF inv, of 1 zero_msg 7 False 0] f by (fastforce simp: isokprocn_def)
qed

end
