(* ===== verification/Call_Laws.thy ===== *)
theory Call_Laws
  imports Hard_Calls Pick_Proc
begin

text \<open>
  What a kernel call of the hardening does to the pages of the element: VM's answer to a page fault
  installs the new copy.
\<close>

section \<open>The answer of VM\<close>

lemma lastpf_found:
  assumes ws: "ws_list p s (bs @ a # cs)" and a: "has (pmb_flags (working_set s a)) PRAM_LAST_PF"
    and bs: "\<forall>b \<in> set bs. \<not> has (pmb_flags (working_set s b)) PRAM_LAST_PF"
  shows "look_up_lastpf_pte p s = Inr (Some a, upd_pmb a (\<lambda>b. b\<lparr>pmb_flags := clrf (pmb_flags b) PRAM_LAST_PF\<rparr>) s)"
proof -
  let ?body = "\<lambda>a s. if has (pmb_flags (working_set s a)) PRAM_LAST_PF
                    then Inr (Some a, upd_pmb a (\<lambda>b. b\<lparr>pmb_flags := clrf (pmb_flags b) PRAM_LAST_PF\<rparr>) s)
                    else Inr (None, s)"
  have ch: "chain (pmb_nx s) (p_lus1_us2 (procs s p)) (bs @ a # cs)" and sz: "p_lus1_us2_size (procs s p) > 0"
    using ws by (auto simp: ws_list_def)
  have "for_chain pmb_nx ?body q s = Inr (Some a, upd_pmb a (\<lambda>b. b\<lparr>pmb_flags := clrf (pmb_flags b) PRAM_LAST_PF\<rparr>) s)"
    if "chain (pmb_nx s) q (xs @ a # cs)" "\<forall>b \<in> set xs. \<not> has (pmb_flags (working_set s b)) PRAM_LAST_PF" for q xs
    using that a by (induction xs arbitrary: q) (simp_all add: for_chain_Some)
  from this [OF ch bs] show ?thesis using sz by (simp add: look_up_lastpf_pte_def)
qed

lemma hmem_map_effect:
  assumes e: "isokendpt (m10_i4 m) s = Some p" and w: "page_world p root (bs @ a # cs) s" "p_cr3 (procs s p) = root"
    and a: "pmb_is a PRAM_LAST_PF s" "\<forall>b \<in> set bs. \<not> pmb_is b PRAM_LAST_PF s"
    and m: "m10_l3 m = - 2" "if first then m10_l1 m = f \<and> m10_l2 m = - 2 else m10_l1 m = - 2 \<and> m10_l2 m = f"
    and f: "page_aligned f"
  shows "\<exists>t. do_hmem_map m s = Inr (OK, t) \<and> t = s\<lparr>working_set := working_set t, mem := mem t\<rparr> \<and>
    (\<forall>b. b \<noteq> a \<longrightarrow> working_set t b = working_set s b) \<and> \<not> pmb_is a PRAM_LAST_PF t \<and>
    us0 (working_set t a) = us0 (working_set s a) \<and>
    us1 (working_set t a) = (if first then f else us1 (working_set s a)) \<and>
    us2 (working_set t a) = (if first then us2 (working_set s a) else f) \<and>
    I386_VM_PFA (pte_of root t (pmb_vaddr (working_set s a))) = f \<and>
    has (pte_of root t (pmb_vaddr (working_set s a))) I386_VM_WRITE \<and>
    (\<forall>g. page_aligned g \<and> g \<noteq> pt_of root s (pmb_vaddr (working_set s a)) \<longrightarrow> same_frame (mem t) g (mem s) g)"
proof -
  have l: "layout root (bs @ a # cs) s" and ws: "ws_list p s (bs @ a # cs)" and nf: "no_faults s"
    using w(1) by (auto simp: page_world_def)
  let ?v = "pmb_vaddr (working_set s a)" let ?pt = "pt_of root s ?v" let ?x = "map_frame_w (pte_of root s ?v) f"
  let ?s1 = "upd_pmb a (\<lambda>b. b\<lparr>pmb_flags := clrf (pmb_flags b) PRAM_LAST_PF\<rparr>) s"
  let ?s2 = "upd_pmb a (\<lambda>b. if first then b\<lparr>us1 := f\<rparr> else b\<lparr>us2 := f\<rparr>) ?s1"
  let ?t = "?s2\<lparr>mem := mem_set32 (mem s) (entry_addr ?pt (I386_VM_PTE ?v)) ?x\<rparr>"
  have f2: "f \<noteq> - 2" using f by (auto simp: page_aligned_def)
  have lk: "look_up_lastpf_pte p s = Inr (Some a, ?s1)"
    using lastpf_found [OF ws] a by (simp add: pmb_is_def)
  have pt: "pde_of root ?s1 x = pde_of root s x" "pt_of root ?s1 x = pt_of root s x" "pte_of root ?s1 x = pte_of root s x" for x
    by (simp_all add: pde_of_def pt_of_def pte_of_def upd_pmb_def)
  have rp: "read_pte root ?v ?s1 = Inr (entry_addr ?pt (I386_VM_PTE ?v), pte_of root s ?v)"
    using read_pte_ok [of ?s1 root ?v] nf pt by (simp add: no_faults_def upd_pmb_def)
  have ps: "phys_set32 x y (upd_pmb a g ?s1) = (OK, (upd_pmb a g ?s1)\<lparr>mem := mem_set32 (mem s) x y\<rparr>)" for x y g
    using nf by (simp add: phys_set32_def no_faults_def upd_pmb_def)
  have "map_answer p m a ?s1 = Inr (OK, ?t)"
    using m f2 by (cases first) (simp_all add: map_answer_def w(2) rp ps Let_def)
  moreover have "m10_l3 m \<noteq> - 10" "m10_l3 m \<noteq> 0" using m(1) by simp_all
  ultimately have d: "do_hmem_map m s = Inr (OK, ?t)" using e lk by (simp add: do_hmem_map_def)
  have b: "block_ok root s (working_set s a)" using layout_block [OF l, of a] by simp
  then have root: "page_aligned root" "?pt \<noteq> root" using l by (auto simp: block_ok_def layout_def)
  define t where "t = ?t"
  have mt: "mem t = mem_set32 (mem s) (entry_addr ?pt (I386_VM_PTE ?v)) ?x" and wt: "working_set t a = (if first
      then (working_set s a)\<lparr>pmb_flags := clrf (pmb_flags (working_set s a)) PRAM_LAST_PF, us1 := f\<rparr>
      else (working_set s a)\<lparr>pmb_flags := clrf (pmb_flags (working_set s a)) PRAM_LAST_PF, us2 := f\<rparr>)"
    by (simp_all add: t_def)
  have fr: "same_frame (mem t) g (mem s) g" if "page_aligned g" "g \<noteq> ?pt" for g
    unfolding mt using that by (intro set32_frame) (simp_all add: PTE_less)
  have "pde_of root t ?v = pde_of root s ?v"
    unfolding pde_of_def using fr [OF root(1)] root(2) get32_frame_cong PDE_less by metis
  then have "pt_of root t ?v = ?pt" by (simp add: pt_of_def)
  then have pte: "pte_of root t ?v = ?x" unfolding pte_of_def mt by simp
  have "do_hmem_map m s = Inr (OK, t)" unfolding t_def by (rule d)
  moreover have "t = s\<lparr>working_set := working_set t, mem := mem t\<rparr> \<and> (\<forall>b. b \<noteq> a \<longrightarrow> working_set t b = working_set s b)"
    by (simp add: t_def upd_pmb_def)
  ultimately show ?thesis
    using fr pte pfa_map_frame_w [OF f] by (intro exI [of _ t]) (auto simp: pmb_is_def wt)
qed

text \<open>The answer of VM to a page fault of a run: the call puts the new frame into the block of the page
  that faulted, as the copy of the run the answer names, maps the page to it, writable, and takes the
  mark of the fault off the block. The other frames of the block stay, and so do the contents of all
  frames but the page table.
\<close>

theorem do_hmem_map_installs_copy:
  assumes e: "isokendpt (m10_i4 m) s = Some p" and w: "page_world p root (bs @ a # cs) s" "p_cr3 (procs s p) = root"
    and a: "pmb_is a PRAM_LAST_PF s" "\<forall>b \<in> set bs. \<not> pmb_is b PRAM_LAST_PF s"
    and m: "m10_l3 m = - 2" "if first then m10_l1 m = f \<and> m10_l2 m = - 2 else m10_l1 m = - 2 \<and> m10_l2 m = f"
    and f: "page_aligned f"
  shows "\<exists>t. do_hmem_map m s = Inr (OK, t) \<and> \<not> pmb_is a PRAM_LAST_PF t \<and>
    us0 (working_set t a) = us0 (working_set s a) \<and>
    us1 (working_set t a) = (if first then f else us1 (working_set s a)) \<and>
    us2 (working_set t a) = (if first then us2 (working_set s a) else f) \<and>
    I386_VM_PFA (pte_of root t (pmb_vaddr (working_set s a))) = f \<and>
    has (pte_of root t (pmb_vaddr (working_set s a))) I386_VM_WRITE \<and>
    (\<forall>g. page_aligned g \<and> g \<noteq> pt_of root s (pmb_vaddr (working_set s a)) \<longrightarrow> same_frame (mem t) g (mem s) g)"
  using hmem_map_effect [OF assms] by blast

text \<open>The page of \<open>sample_state\<close> without a first copy, after a fault of the first run on it.\<close>

definition answer_sample :: kstate where
  "answer_sample = upd_pmb 0 (\<lambda>b. b\<lparr>us1 := MAP_NONE, pmb_flags := HGET_PF OR PRAM_LAST_PF\<rparr>) sample_state"

theorem do_hmem_map_installs_copy_witness:
  "\<exists>t. do_hmem_map (zero_msg\<lparr>m10_i4 := 1, m10_l1 := 0x9000, m10_l2 := - 2, m10_l3 := - 2\<rparr>) answer_sample = Inr (OK, t) \<and>
     us1 (working_set t 0) = 0x9000 \<and> has (pte_of 0x1000 t 0x3000) I386_VM_WRITE"
proof -
  let ?m = "zero_msg\<lparr>m10_i4 := 1, m10_l1 := 0x9000, m10_l2 := - 2, m10_l3 := - 2\<rparr>"
  have b: "working_set answer_sample 0 = sample_block\<lparr>us1 := MAP_NONE, pmb_flags := HGET_PF OR PRAM_LAST_PF\<rparr>"
    and rest: "mem answer_sample = sample_mem" "procs answer_sample = procs sample_state"
      "rd_fault answer_sample = (\<lambda>_. False)" "wr_fault answer_sample = (\<lambda>_. False)"
    by (simp_all add: answer_sample_def upd_pmb_def)
  have pt: "pde_of 0x1000 answer_sample x = pde_of 0x1000 sample_state x" "pt_of 0x1000 answer_sample x = pt_of 0x1000 sample_state x"
    "pte_of 0x1000 answer_sample x = pte_of 0x1000 sample_state x" for x
    by (simp_all add: pde_of_def pt_of_def pte_of_def rest)
  have w: "page_world 1 0x1000 ([] @ 0 # []) answer_sample"
    by (auto simp: page_world_def ws_list_def layout_def block_ok_def no_faults_def frames_of_def page_aligned_def
        pmb_nx_def pmb_free_def has_def b rest pt)
  have e: "isokendpt (m10_i4 ?m) answer_sample = Some 1"
    by (simp add: isokendpt_def ENDPOINT_P_def c_rem_def Let_def isokprocn_def isemptyn_def rest) (simp add: sample_state_def zero_proc_def)
  show ?thesis
    using do_hmem_map_installs_copy [OF e w, where first = True and f = "0x9000"] b rest
    by (fastforce simp: pmb_is_def has_def page_aligned_def)
qed

end
