(* ===== verification/Event_Laws.thy ===== *)
theory Event_Laws
  imports Run_Start
begin

text \<open>
  The memory events of a process (\<open>kernel/arch/i386/sch.c\<close>) as a set of pages: recording an event
  adds the pages of its range, the replay (\<open>us0h.c\<close>) brings both copies of every
  recorded page up to date, and the list is emptied without leaving a slot behind.
\<close>

section \<open>The list of events\<close>

definition hme_list :: "int \<Rightarrow> kstate \<Rightarrow> nat list \<Rightarrow> bool" where
  "hme_list p s as \<longleftrightarrow>
     chain (hme_nx s) (p_hardening_mem_events (procs s p)) as \<and>
     p_nb_hardening_mem_events (procs s p) = int (length as) \<and>
     (\<forall>a \<in> set as. a < HARDENING_MEM_EVENTS \<and> \<not> hme_free s a) \<and>
     map (\<lambda>a. hme_id (hardening_mem_events s a)) as = map int [0 ..< length as]"

text \<open>The pages of a range and the pages recorded by the events of a list.\<close>

definition page_range :: "u32 \<Rightarrow> int \<Rightarrow> u32 set" where
  "page_range offset n = (\<lambda>i. page_base_of offset + of_nat i * 4 * 1024) ` {0 ..< nat n}"

definition event_pages :: "kstate \<Rightarrow> nat list \<Rightarrow> u32 set" where
  "event_pages s as =
     (\<Union>a \<in> set as. page_range (addr_base (hardening_mem_events s a)) (npages (hardening_mem_events s a)))"

definition hme_room :: "kstate \<Rightarrow> bool" where
  "hme_room s \<longleftrightarrow> (\<exists>i < HARDENING_MEM_EVENTS - 1. hme_free s i)"

text \<open>What an operation on the list of \<open>p\<close> may write: the slots \<open>A\<close> and the anchor of the list.\<close>

definition only_hme :: "int \<Rightarrow> nat set \<Rightarrow> kstate \<Rightarrow> kstate \<Rightarrow> bool" where
  "only_hme p A s t \<longleftrightarrow>
     (\<exists>E h n. t = s\<lparr>hardening_mem_events := E,
        procs := (procs s)(p := (procs s p)\<lparr>p_hardening_mem_events := h, p_nb_hardening_mem_events := n\<rparr>)\<rparr> \<and>
        (\<forall>a. a \<notin> A \<longrightarrow> E a = hardening_mem_events s a))"

lemma only_hme_sel:
  assumes "only_hme p A s t"
  shows "mem t = mem s" "working_set t = working_set s" "q \<noteq> p \<Longrightarrow> procs t q = procs s q"
    "a \<notin> A \<Longrightarrow> hardening_mem_events t a = hardening_mem_events s a"
  using assms by (auto simp: only_hme_def)

lemma only_hme_trans:
  assumes "only_hme p A s t" "only_hme p A t u" shows "only_hme p A s u"
  unfolding only_hme_def
  using assms
  by (intro exI [of _ "hardening_mem_events u"] exI [of _ "p_hardening_mem_events (procs u p)"]
      exI [of _ "p_nb_hardening_mem_events (procs u p)"]) (auto simp: only_hme_def)

lemma only_hme_refl: "only_hme p A s s"
  unfolding only_hme_def
  by (intro exI [of _ "hardening_mem_events s"] exI [of _ "p_hardening_mem_events (procs s p)"]
      exI [of _ "p_nb_hardening_mem_events (procs s p)"]) simp

lemma only_hme_upd: "a \<in> A \<Longrightarrow> only_hme p A s (upd_hme a f s)"
  unfolding only_hme_def upd_hme_def
  by (rule exI, rule exI [of _ "p_hardening_mem_events (procs s p)"], rule exI [of _ "p_nb_hardening_mem_events (procs s p)"]) auto

lemma only_hme_anchor:
  "only_hme p A s (upd_proc p (\<lambda>r. r\<lparr>p_hardening_mem_events := h r, p_nb_hardening_mem_events := n r\<rparr>) s)"
  unfolding only_hme_def upd_proc_def by (intro exI [of _ "hardening_mem_events s"] exI) simp

lemma only_hme_head: "only_hme p A s (upd_proc p (\<lambda>r. r\<lparr>p_hardening_mem_events := h r\<rparr>) s)"
  using only_hme_anchor [of p A s p_nb_hardening_mem_events h] by simp

lemma only_hme_count: "only_hme p A s (upd_proc p (\<lambda>r. r\<lparr>p_nb_hardening_mem_events := n r\<rparr>) s)"
  using only_hme_anchor [of p A s n p_hardening_mem_events] by simp

lemmas only_hme_writes = only_hme_upd only_hme_head only_hme_count

lemma hme_list_frame:
  assumes "only_hme p A s t" "q \<noteq> p" "set bs \<inter> A = {}"
  shows "hme_list q t bs = hme_list q s bs" "event_pages t bs = event_pages s bs"
proof -
  have e: "hardening_mem_events t a = hardening_mem_events s a" if "a \<in> set bs" for a
    using only_hme_sel(4) [OF assms(1)] assms(3) that by blast
  have "chain (hme_nx t) (p_hardening_mem_events (procs s q)) bs = chain (hme_nx s) (p_hardening_mem_events (procs s q)) bs"
    by (rule chain_cong_set) (simp add: hme_nx_def e)
  moreover have "map (\<lambda>a. hme_id (hardening_mem_events t a)) bs = map (\<lambda>a. hme_id (hardening_mem_events s a)) bs"
    using e by simp
  moreover have "(\<forall>a \<in> set bs. a < HARDENING_MEM_EVENTS \<and> \<not> hme_free t a) = (\<forall>a \<in> set bs. a < HARDENING_MEM_EVENTS \<and> \<not> hme_free s a)"
    using e by (simp add: hme_free_def)
  ultimately show "hme_list q t bs = hme_list q s bs"
    unfolding hme_list_def only_hme_sel(3) [OF assms(1,2)] by argo
  show "event_pages t bs = event_pages s bs" using e by (simp add: event_pages_def)
qed

lemma link_hme_list:
  assumes l: "hme_list p s as" and n: "n \<notin> set as" "n < HARDENING_MEM_EVENTS" "\<not> hme_free s n" "hme_nx s n = None"
  shows "\<exists>t. link_hme p n s = Inr t \<and> hme_list p t (as @ [n]) \<and> only_hme p (insert n (set as)) s t \<and>
    (\<forall>a. addr_base (hardening_mem_events t a) = addr_base (hardening_mem_events s a) \<and>
         npages (hardening_mem_events t a) = npages (hardening_mem_events s a))"
proof -
  let ?l = "\<lambda>s. if as = [] then upd_proc p (\<lambda>r. r\<lparr>p_hardening_mem_events := Some n\<rparr>) s
    else upd_hme n (\<lambda>e. e\<lparr>next_hme := None\<rparr>) (upd_hme (last as) (\<lambda>e. e\<lparr>next_hme := Some n\<rparr>) s)"
  let ?t = "upd_proc p (\<lambda>r. r\<lparr>p_nb_hardening_mem_events := p_nb_hardening_mem_events r + 1\<rparr>)
      (upd_hme n (\<lambda>e. e\<lparr>hme_id := int (length as)\<rparr>) (?l s))"
  have c: "chain (hme_nx s) (p_hardening_mem_events (procs s p)) as" using l by (simp add: hme_list_def)
  have nb: "p_nb_hardening_mem_events (procs (?l s) p) = int (length as)" using l by (simp add: hme_list_def)
  have "link_hme p n s = Inr ?t"
    using l tail_of_chain [OF c] nb by (cases "as = []") (simp_all add: link_hme_def hme_list_def)
  moreover have "chain (hme_nx ?t) (p_hardening_mem_events (procs ?t p)) (as @ [n])"
  proof (cases "as = []")
    case True
    then show ?thesis using n(4) by (simp add: hme_nx_def)
  next
    case False
    have nx: "hme_nx ?t = hme_nx (?l s)" by (rule ext) (simp add: hme_nx_def)
    show ?thesis
      using hmes.link_tail [of s, folded hme_nx_def, OF c False n(1)] False unfolding nx by (simp add: hme_nx_def [abs_def])
  qed
  moreover have "\<forall>a \<in> set (as @ [n]). a < HARDENING_MEM_EVENTS \<and> \<not> hme_free ?t a"
    using l n by (auto simp: hme_list_def hme_free_def)
  moreover have "map (\<lambda>a. hme_id (hardening_mem_events ?t a)) (as @ [n]) = map int [0 ..< length (as @ [n])]"
  proof -
    have id: "hme_id (hardening_mem_events ?t a) = (if a = n then int (length as) else hme_id (hardening_mem_events s a))" for a
      by simp
    have "map (\<lambda>a. if a = n then int (length as) else hme_id (hardening_mem_events s a)) as = map int [0 ..< length as]"
      (is "map ?f as = _")
    proof -
      have "map ?f as = map (\<lambda>a. hme_id (hardening_mem_events s a)) as" by (rule map_cong) (use n(1) in auto)
      then show ?thesis using l unfolding hme_list_def by argo
    qed
    then show ?thesis unfolding id by simp
  qed
  moreover have "p_nb_hardening_mem_events (procs ?t p) = int (length (as @ [n]))" using nb by simp
  ultimately have "link_hme p n s = Inr ?t \<and> hme_list p ?t (as @ [n])" unfolding hme_list_def by blast
  moreover have "only_hme p (insert n (set as)) s ?t"
    by (cases "as = []") (auto intro!: only_hme_trans [OF _ only_hme_count] only_hme_trans [OF _ only_hme_upd] only_hme_writes)
  ultimately show ?thesis by (intro exI [of _ ?t]) simp
qed

text \<open>Two ranges that start in the same page: the longer one contains the shorter.\<close>

lemma page_range_mono:
  "page_base_of v = page_base_of w \<Longrightarrow> m \<le> n \<Longrightarrow> page_range v m \<subseteq> page_range w n"
  by (auto simp: page_range_def)

lemma hme_at_page: "hme_at v s a \<longleftrightarrow> page_base_of (addr_base (hardening_mem_events s a)) = page_base_of v"
  using page_eq_iff [of "addr_base (hardening_mem_events s a)" v] by (auto simp: hme_at_def)

lemma look_up_hme_find:
  assumes "hme_list p s as"
  shows "look_up_hme p v s = Inr (find (hme_at v s) as)"
proof -
  have "chain (hme_nx s) (p_hardening_mem_events (procs s p)) as" using assms by (simp add: hme_list_def)
  from find_chain_find [of hme_nx s, OF this] assms show ?thesis
    by (cases as) (auto simp: look_up_hme_def hme_list_def)
qed

lemma get_hme_room:
  assumes "hme_room s"
  shows "\<exists>n. get_hme s = Inr (n, upd_hme n reset_hme s) \<and> n < HARDENING_MEM_EVENTS \<and> hme_free s n"
proof -
  obtain k where "k < HARDENING_MEM_EVENTS - 1" "hme_free s k" using assms by (auto simp: hme_room_def)
  from first_free_room [of k HARDENING_MEM_EVENTS "hme_free s", OF this] show ?thesis
    by (auto simp: get_hme_def)
qed

text \<open>A write into a slot that is not on the list, or one that keeps links, ids and flags.\<close>

lemma hme_list_upd:
  assumes "hme_list p s as" "a \<notin> set as \<or> (\<forall>e. next_hme (f e) = next_hme e \<and> hme_id (f e) = hme_id e \<and> hme_flags (f e) = hme_flags e)"
  shows "hme_list p (upd_hme a f s) as"
proof -
  let ?t = "upd_hme a f s"
  have e: "next_hme (hardening_mem_events ?t b) = next_hme (hardening_mem_events s b) \<and>
      hme_id (hardening_mem_events ?t b) = hme_id (hardening_mem_events s b) \<and>
      hme_flags (hardening_mem_events ?t b) = hme_flags (hardening_mem_events s b)" if "b \<in> set as" for b
    using assms(2) that by auto
  have "chain (hme_nx ?t) (p_hardening_mem_events (procs s p)) as = chain (hme_nx s) (p_hardening_mem_events (procs s p)) as"
    by (rule chain_cong_set) (simp only: hme_nx_def e)
  moreover have "map (\<lambda>b. hme_id (hardening_mem_events ?t b)) as = map (\<lambda>b. hme_id (hardening_mem_events s b)) as"
    by (rule map_cong) (simp_all only: e)
  moreover have "\<forall>b \<in> set as. hme_free ?t b = hme_free s b" using e unfolding hme_free_def by metis
  moreover have "procs ?t p = procs s p" by simp
  ultimately show ?thesis using assms(1) unfolding hme_list_def by metis
qed

lemma add_hme_known:
  assumes l: "hme_list p s as" and f: "find (hme_at v s) as = Some a"
  shows "\<exists>t. add_hme_event p v sz s = Inr (int (length as), t) \<and> hme_list p t as \<and> only_hme p (set as) s t \<and>
    event_pages t as = event_pages s as \<union> page_range v (n_pages_covered v sz)"
proof -
  let ?n = "n_pages_covered v sz" let ?e = "hardening_mem_events s a"
  let ?t = "if npages ?e < ?n then upd_hme a (set_range v sz ?n) s else s"
  have a: "a \<in> set as" "page_base_of (addr_base ?e) = page_base_of v"
    using f by (auto simp: find_Some_iff hme_at_page)
  have "add_hme_event p v sz s = Inr (int (length as), ?t)"
    using look_up_hme_find [OF l, of v] f l by (simp add: add_hme_event_def hme_list_def Let_def)
  moreover have "hme_list p ?t as" using l hme_list_upd [OF l, of a "set_range v sz ?n"] by (auto simp: set_range_def)
  moreover have "only_hme p (set as) s ?t" using only_hme_upd [OF a(1)] only_hme_refl by simp
  moreover have "event_pages ?t as = event_pages s as \<union> page_range v ?n"
  proof -
    have sub: "page_range (addr_base ?e) (npages ?e) \<subseteq> page_range v ?n" if "npages ?e < ?n"
      using page_range_mono [OF a(2)] that by simp
    have sup: "page_range v ?n \<subseteq> page_range (addr_base ?e) (npages ?e)" if "\<not> npages ?e < ?n"
      using page_range_mono [OF a(2) [symmetric]] that by simp
    have s: "event_pages u as = page_range (addr_base (hardening_mem_events u a)) (npages (hardening_mem_events u a)) \<union>
        (\<Union>b \<in> set as - {a}. page_range (addr_base (hardening_mem_events u b)) (npages (hardening_mem_events u b)))" for u
      using a(1) by (auto simp: event_pages_def)
    show ?thesis using sub sup unfolding s [of ?t] s [of s] by (auto simp: set_range_def)
  qed
  ultimately show ?thesis by blast
qed

lemma add_hme_new:
  assumes l: "hme_list p s as" and f: "find (hme_at v s) as = None" and r: "hme_room s"
  shows "\<exists>n t. hme_free s n \<and> add_hme_event p v sz s = Inr (int (length (as @ [n])), t) \<and> hme_list p t (as @ [n]) \<and>
    only_hme p (insert n (set as)) s t \<and>
    event_pages t (as @ [n]) = event_pages s as \<union> page_range v (n_pages_covered v sz)"
proof -
  let ?m = "n_pages_covered v sz"
  obtain n where n: "get_hme s = Inr (n, upd_hme n reset_hme s)" "n < HARDENING_MEM_EVENTS" "hme_free s n"
    using get_hme_room [OF r] by blast
  let ?u = "upd_hme n (set_range v sz ?m) (upd_hme n reset_hme s)"
  have nin: "n \<notin> set as" using l n(3) by (auto simp: hme_list_def)
  have ul: "hme_list p ?u as" using hme_list_upd [OF hme_list_upd [OF l]] nin by blast
  have "\<not> hme_free ?u n" "hme_nx ?u n = None" by (simp_all add: hme_free_def hme_nx_def set_range_def reset_hme_def)
  from link_hme_list [OF ul nin n(2) this] obtain t where t: "link_hme p n ?u = Inr t" "hme_list p t (as @ [n])"
    "only_hme p (insert n (set as)) ?u t"
    "\<And>a. addr_base (hardening_mem_events t a) = addr_base (hardening_mem_events ?u a)"
    "\<And>a. npages (hardening_mem_events t a) = npages (hardening_mem_events ?u a)" by blast
  have "add_hme_event p v sz s = Inr (int (length (as @ [n])), t)"
    using look_up_hme_find [OF l, of v] f n(1) t(1,2) by (simp add: add_hme_event_def hme_list_def)
  moreover have "only_hme p (insert n (set as)) s t"
    by (rule only_hme_trans [OF only_hme_trans [OF only_hme_upd only_hme_upd] t(3)]) simp_all
  moreover have "event_pages t (as @ [n]) = event_pages s as \<union> page_range v ?m"
  proof -
    have "\<And>a. a \<in> set as \<Longrightarrow> hardening_mem_events ?u a = hardening_mem_events s a" using nin by auto
    then show ?thesis by (simp add: event_pages_def t(4,5)) (auto simp: set_range_def)
  qed
  ultimately show ?thesis using n(3) t(2) by blast
qed

text \<open>C21. Recording a memory event: while the table has room, the events of a process, read as the set of pages they
  cover, grow by exactly the pages of the new range, whether the range gets an event of its
  own, replaces a shorter one that starts in the same page, or is already covered. The
  list stays well formed, memory and the working set are not touched, and the lists
  of other processes keep their events and their pages.
\<close>

theorem add_hme_event_covers:
  assumes "hme_list p s as" "hme_room s"
  shows "\<exists>t bs. add_hme_event p offset sz s = Inr (int (length bs), t) \<and> hme_list p t bs \<and>
    event_pages t bs = event_pages s as \<union> page_range offset (n_pages_covered offset sz) \<and>
    mem t = mem s \<and> working_set t = working_set s \<and>
    (\<forall>q cs. q \<noteq> p \<and> hme_list q s cs \<and> set cs \<inter> set as = {} \<longrightarrow>
       hme_list q t cs \<and> event_pages t cs = event_pages s cs \<and> set cs \<inter> set bs = {})"
proof (cases "find (hme_at offset s) as")
  case (Some a)
  from add_hme_known [OF assms(1) this, of sz] show ?thesis
    using only_hme_sel(1,2) hme_list_frame [of p "set as" s] by blast
next
  case None
  from add_hme_new [OF assms(1) this assms(2), of sz] obtain n t where t: "hme_free s n"
    "add_hme_event p offset sz s = Inr (int (length (as @ [n])), t)" "hme_list p t (as @ [n])"
    "only_hme p (insert n (set as)) s t"
    "event_pages t (as @ [n]) = event_pages s as \<union> page_range offset (n_pages_covered offset sz)" by blast
  have "hme_list q t cs \<and> event_pages t cs = event_pages s cs \<and> set cs \<inter> set (as @ [n]) = {}"
    if "q \<noteq> p" "hme_list q s cs" "set cs \<inter> set as = {}" for q cs
  proof -
    have "n \<notin> set cs" using that(2) t(1) by (auto simp: hme_list_def)
    then have "set cs \<inter> insert n (set as) = {}" using that(3) by blast
    then show ?thesis using hme_list_frame [OF t(4) that(1)] that(2) by auto
  qed
  then show ?thesis using t only_hme_sel(1,2) [OF t(4)] by blast
qed

definition event_sample :: kstate where
  "event_sample = bss_state\<lparr>hardening_mem_events := (\<lambda>_. zero_hme\<lparr>hme_flags := HME_SLOT_FREE\<rparr>)\<rparr>"

theorem add_hme_event_covers_witness:
  "\<exists>t bs. add_hme_event 1 0x3004 0x1000 event_sample = Inr (int (length bs), t) \<and> event_pages t bs = {0x3000, 0x4000}"
proof -
  have "hme_list 1 event_sample []" "hme_room event_sample"
    by (auto simp: hme_list_def hme_room_def hme_free_def event_sample_def bss_state_def zero_proc_def has_def intro!: exI [of _ 0])
  moreover have "event_pages event_sample [] \<union> page_range 0x3004 (n_pages_covered 0x3004 0x1000) = {0x3000, 0x4000}"
  proof -
    have "n_pages_covered 0x3004 0x1000 = 2" by (simp add: n_pages_covered_def page_base_pfa I386_VM_PFA_def)
    moreover have "{0 ..< nat 2} = {0, 1}" by auto
    ultimately show ?thesis by (simp add: event_pages_def page_range_def page_base_pfa I386_VM_PFA_def)
  qed
  ultimately show ?thesis using add_hme_event_covers [of 1 event_sample "[]" "0x3004" "0x1000"] by metis
qed

section \<open>Replaying the events\<close>

text \<open>
  The state \<open>t\<close> is \<open>s\<close> with the copies of the pages \<open>C\<close> of the working set brought up to
  date: no other memory changed, and the blocks got at most the mark.
\<close>

definition refreshed :: "nat list \<Rightarrow> u32 set \<Rightarrow> kstate \<Rightarrow> kstate \<Rightarrow> bool" where
  "refreshed ws C s t \<longleftrightarrow>
     t\<lparr>mem := mem s, working_set := working_set s\<rparr> = s \<and>
     (\<forall>a. working_set t a = working_set s a \<or>
        working_set t a = (working_set s a)\<lparr>pmb_flags := setf (pmb_flags (working_set s a)) IWS_MOD_KERNEL\<rparr>) \<and>
     (\<forall>a \<in> set ws. pmb_page s a \<in> C \<and> has_all_frames (working_set s a) \<and> \<not> has (pmb_flags (working_set s a)) H_EXEC \<longrightarrow>
        same_frame (mem t) (us1 (working_set s a)) (mem s) (us0 (working_set s a)) \<and>
        same_frame (mem t) (us2 (working_set s a)) (mem s) (us0 (working_set s a)) \<and>
        has (pmb_flags (working_set t a)) IWS_MOD_KERNEL) \<and>
     (\<forall>f. page_aligned f \<and> (\<forall>a \<in> set ws. pmb_page s a \<in> C \<longrightarrow> f \<notin> {us1 (working_set s a), us2 (working_set s a)}) \<longrightarrow>
        same_frame (mem t) f (mem s) f)"

lemma refreshed_refl: "refreshed ws {} s s"
  by (simp add: refreshed_def)

lemma refreshed_sel:
  assumes "refreshed ws C s t"
  shows "procs t = procs s" "hardening_mem_events t = hardening_mem_events s" "rd_fault t = rd_fault s" "wr_fault t = wr_fault s"
    "us0 (working_set t a) = us0 (working_set s a)" "us1 (working_set t a) = us1 (working_set s a)"
    "us2 (working_set t a) = us2 (working_set s a)" "pmb_nx t = pmb_nx s" "pmb_page t = pmb_page s"
    "has (pmb_flags (working_set t a)) H_EXEC = has (pmb_flags (working_set s a)) H_EXEC"
    "pmb_free t = pmb_free s" "has_all_frames (working_set t a) = has_all_frames (working_set s a)"
proof -
  have e: "s = t\<lparr>mem := mem s, working_set := working_set s\<rparr>" using assms by (simp add: refreshed_def)
  show "procs t = procs s" "hardening_mem_events t = hardening_mem_events s" "rd_fault t = rd_fault s" "wr_fault t = wr_fault s"
    by (subst e, simp)+
  have w: "working_set t a = working_set s a \<or>
        working_set t a = (working_set s a)\<lparr>pmb_flags := setf (pmb_flags (working_set s a)) IWS_MOD_KERNEL\<rparr>" for a
    using assms by (simp add: refreshed_def)
  show "us0 (working_set t a) = us0 (working_set s a)" "us1 (working_set t a) = us1 (working_set s a)"
    "us2 (working_set t a) = us2 (working_set s a)" "has_all_frames (working_set t a) = has_all_frames (working_set s a)"
    "has (pmb_flags (working_set t a)) H_EXEC = has (pmb_flags (working_set s a)) H_EXEC"
    using w [of a] by (auto simp: has_setf_other has_all_frames_def)
  have v: "next_pmb (working_set t a) = next_pmb (working_set s a)" "pmb_vaddr (working_set t a) = pmb_vaddr (working_set s a)"
    "has (pmb_flags (working_set t a)) PRAM_SLOT_FREE = has (pmb_flags (working_set s a)) PRAM_SLOT_FREE" for a
    using w [of a] by (auto simp: has_setf_other)
  show "pmb_nx t = pmb_nx s" "pmb_page t = pmb_page s" "pmb_free t = pmb_free s"
    by (rule ext, simp add: pmb_nx_def pmb_page_def pmb_free_def v)+
qed

lemma ws_list_refreshed: "refreshed ws C s t \<Longrightarrow> ws_list p t as = ws_list p s as"
  by (simp add: ws_list_def refreshed_sel)

text \<open>One page: the copy of both frames, on memory that holds the committed frame of \<open>s\<close>.\<close>

lemma refresh_copies_ok:
  assumes "rd_fault s = (\<lambda>_. False)" "wr_fault s = (\<lambda>_. False)" "page_aligned (us0 b)" "page_aligned (us1 b)" "page_aligned (us2 b)"
    "us1 b \<noteq> us0 b" "us2 b \<noteq> us0 b" "us2 b \<noteq> us1 b"
  shows "\<exists>m. refresh_copies b s = (OK, s\<lparr>mem := m\<rparr>) \<and> same_frame m (us1 b) (mem s) (us0 b) \<and> same_frame m (us2 b) (mem s) (us0 b) \<and>
    (\<forall>f. page_aligned f \<and> f \<noteq> us1 b \<and> f \<noteq> us2 b \<longrightarrow> same_frame m f (mem s) f)"
proof -
  let ?m1 = "mem_copy (mem s) (us0 b) (us1 b) 4096" let ?m2 = "mem_copy ?m1 (us0 b) (us2 b) 4096"
  have c1: "same_frame ?m1 (us1 b) (mem s) (us0 b)" "\<And>f. page_aligned f \<Longrightarrow> f \<noteq> us1 b \<Longrightarrow> same_frame ?m1 f (mem s) f"
    using copy_same copy_other assms by auto
  have c2: "same_frame ?m2 (us2 b) ?m1 (us0 b)" "\<And>f. page_aligned f \<Longrightarrow> f \<noteq> us2 b \<Longrightarrow> same_frame ?m2 f ?m1 f"
    using copy_same copy_other assms by auto
  have "refresh_copies b s = (OK, s\<lparr>mem := ?m2\<rparr>)"
    using assms(1,2) by (simp add: refresh_copies_def cpy_frames_def lin_lin_copy_def)
  moreover have "same_frame ?m2 (us1 b) (mem s) (us0 b)"
    by (rule same_frame_trans [OF c2(2) c1(1)]) (use assms in auto)
  moreover have "same_frame ?m2 (us2 b) (mem s) (us0 b)"
    by (rule same_frame_trans [OF c2(1) c1(2)]) (use assms in auto)
  moreover have "same_frame ?m2 f (mem s) f" if "page_aligned f" "f \<noteq> us1 b" "f \<noteq> us2 b" for f
    by (rule same_frame_trans [OF c2(2) c1(2)]) (use that in auto)
  ultimately show ?thesis by blast
qed

lemma refreshed_mono:
  assumes "refreshed ws C s t" "\<And>a. a \<in> set ws \<Longrightarrow> pmb_page s a = v \<Longrightarrow>
     \<not> has_all_frames (working_set s a) \<or> has (pmb_flags (working_set s a)) H_EXEC"
  shows "refreshed ws (insert v C) s t"
  unfolding refreshed_def
proof (intro conjI ballI allI impI)
  fix a assume "a \<in> set ws" "pmb_page s a \<in> insert v C \<and> has_all_frames (working_set s a) \<and> \<not> has (pmb_flags (working_set s a)) H_EXEC"
  moreover from this assms(2) [of a] have "pmb_page s a \<in> C" by blast
  ultimately show "same_frame (mem t) (us1 (working_set s a)) (mem s) (us0 (working_set s a))"
    "same_frame (mem t) (us2 (working_set s a)) (mem s) (us0 (working_set s a))"
    "has (pmb_flags (working_set t a)) IWS_MOD_KERNEL"
    using assms(1) by (auto simp: refreshed_def)
qed (use assms(1) in \<open>auto simp: refreshed_def\<close>)

lemma layout_frames:
  assumes "layout root ws s" "a \<in> set ws" "has_all_frames (working_set s a)"
  shows "page_aligned (us0 (working_set s a))" "page_aligned (us1 (working_set s a))" "page_aligned (us2 (working_set s a))"
    "us1 (working_set s a) \<noteq> us0 (working_set s a)" "us2 (working_set s a) \<noteq> us0 (working_set s a)"
    "us2 (working_set s a) \<noteq> us1 (working_set s a)"
    "c \<in> set ws \<Longrightarrow> c \<noteq> a \<Longrightarrow> {us0 (working_set s a), us1 (working_set s a), us2 (working_set s a)} \<inter> {us0 (working_set s c), us1 (working_set s c), us2 (working_set s c)} = {}"
proof -
  have b: "block_ok root s (working_set s a)" using assms by (simp add: layout_def)
  then show "page_aligned (us0 (working_set s a))" "page_aligned (us1 (working_set s a))" "page_aligned (us2 (working_set s a))"
    "us1 (working_set s a) \<noteq> us0 (working_set s a)" "us2 (working_set s a) \<noteq> us0 (working_set s a)"
    "us2 (working_set s a) \<noteq> us1 (working_set s a)"
    using assms(3) by (auto simp: block_ok_def frames_of_def has_all_frames_def)
  show "{us0 (working_set s a), us1 (working_set s a), us2 (working_set s a)} \<inter> {us0 (working_set s c), us1 (working_set s c), us2 (working_set s c)} = {}"
    if "c \<in> set ws" "c \<noteq> a"
  proof -
    have "frames_of (working_set s a) \<inter> frames_of (working_set s c) = {}" using assms(1,2) that by (simp add: layout_def)
    then show ?thesis using assms(3) unfolding frames_of_def has_all_frames_def by auto
  qed
qed

lemma refreshed_step:
  assumes r: "refreshed ws C s t" and l: "layout root ws s" and a: "a \<in> set ws" "has_all_frames (working_set s a)"
    and inj: "inj_on (pmb_page s) (set ws)" and m: "same_frame m (us1 (working_set s a)) (mem t) (us0 (working_set s a))"
      "same_frame m (us2 (working_set s a)) (mem t) (us0 (working_set s a))"
      "\<And>f. page_aligned f \<Longrightarrow> f \<noteq> us1 (working_set s a) \<Longrightarrow> f \<noteq> us2 (working_set s a) \<Longrightarrow> same_frame m f (mem t) f"
  shows "refreshed ws (insert (pmb_page s a) C) s
    (upd_pmb a (\<lambda>c. c\<lparr>pmb_flags := setf (pmb_flags c) IWS_MOD_KERNEL\<rparr>) (t\<lparr>mem := m\<rparr>))" (is "refreshed _ _ _ ?u")
  unfolding refreshed_def
proof (intro conjI)
  note f = layout_frames [OF l a]
  have "us0 (working_set s a) \<notin> {us1 (working_set s c), us2 (working_set s c)}" if "c \<in> set ws" for c
    using f(4,5) f(7) [OF that] by (cases "c = a") auto
  then have us0: "same_frame (mem t) (us0 (working_set s a)) (mem s) (us0 (working_set s a))"
    using r f(1) by (auto simp: refreshed_def)
  show "?u\<lparr>mem := mem s, working_set := working_set s\<rparr> = s" using r by (simp add: refreshed_def upd_pmb_def)
  show "\<forall>b. working_set ?u b = working_set s b \<or>
      working_set ?u b = (working_set s b)\<lparr>pmb_flags := setf (pmb_flags (working_set s b)) IWS_MOD_KERNEL\<rparr>"
  proof
    fix b
    have "working_set t b = working_set s b \<or>
        working_set t b = (working_set s b)\<lparr>pmb_flags := setf (pmb_flags (working_set s b)) IWS_MOD_KERNEL\<rparr>"
      using r by (simp add: refreshed_def)
    then show "working_set ?u b = working_set s b \<or>
        working_set ?u b = (working_set s b)\<lparr>pmb_flags := setf (pmb_flags (working_set s b)) IWS_MOD_KERNEL\<rparr>"
      by (cases "b = a") (auto simp: setf_def or.assoc)
  qed
  show "\<forall>b \<in> set ws. pmb_page s b \<in> insert (pmb_page s a) C \<and> has_all_frames (working_set s b) \<and> \<not> has (pmb_flags (working_set s b)) H_EXEC \<longrightarrow>
      same_frame (mem ?u) (us1 (working_set s b)) (mem s) (us0 (working_set s b)) \<and>
      same_frame (mem ?u) (us2 (working_set s b)) (mem s) (us0 (working_set s b)) \<and>
      has (pmb_flags (working_set ?u b)) IWS_MOD_KERNEL"
  proof (intro ballI impI)
    fix b assume b: "b \<in> set ws"
      "pmb_page s b \<in> insert (pmb_page s a) C \<and> has_all_frames (working_set s b) \<and> \<not> has (pmb_flags (working_set s b)) H_EXEC"
    show "same_frame (mem ?u) (us1 (working_set s b)) (mem s) (us0 (working_set s b)) \<and>
      same_frame (mem ?u) (us2 (working_set s b)) (mem s) (us0 (working_set s b)) \<and>
      has (pmb_flags (working_set ?u b)) IWS_MOD_KERNEL"
    proof (cases "b = a")
      case True
      then show ?thesis using same_frame_trans [OF m(1) us0] same_frame_trans [OF m(2) us0] by (simp add: has_setf_same)
    next
      case False
      then have "pmb_page s b \<in> C" using b inj a(1) by (auto dest: inj_onD)
      then have old: "same_frame (mem t) (us1 (working_set s b)) (mem s) (us0 (working_set s b))"
        "same_frame (mem t) (us2 (working_set s b)) (mem s) (us0 (working_set s b))"
        "has (pmb_flags (working_set t b)) IWS_MOD_KERNEL"
        using r b by (auto simp: refreshed_def)
      have new: "same_frame m (us1 (working_set s b)) (mem t) (us1 (working_set s b))"
        "same_frame m (us2 (working_set s b)) (mem t) (us2 (working_set s b))"
        using f(7) [OF b(1) False] layout_frames(2,3) [OF l b(1)] b(2) by (auto intro!: m(3))
      show ?thesis using same_frame_trans [OF new(1) old(1)] same_frame_trans [OF new(2) old(2)] old(3) False by simp
    qed
  qed
  show "\<forall>f. page_aligned f \<and> (\<forall>b \<in> set ws. pmb_page s b \<in> insert (pmb_page s a) C \<longrightarrow> f \<notin> {us1 (working_set s b), us2 (working_set s b)}) \<longrightarrow>
      same_frame (mem ?u) f (mem s) f"
  proof (intro allI impI)
    fix f assume h: "page_aligned f \<and> (\<forall>b \<in> set ws. pmb_page s b \<in> insert (pmb_page s a) C \<longrightarrow> f \<notin> {us1 (working_set s b), us2 (working_set s b)})"
    then have n: "same_frame m f (mem t) f" using a(1) by (intro m(3)) auto
    have o: "same_frame (mem t) f (mem s) f" using r h by (auto simp: refreshed_def)
    show "same_frame (mem ?u) f (mem s) f" using same_frame_trans [OF n o] by simp
  qed
qed

lemma update_page_refreshed:
  assumes w: "page_world p root ws s" and r: "refreshed ws C s t" and a: "a \<in> set ws" "pmb_page s a = page_base_of v"
  shows "\<exists>u. update_ws_us1_us2_data_vaddr p v t = Inr (OK, u) \<and> refreshed ws (insert (page_base_of v) C) s u"
proof -
  have l: "ws_list p s ws" "layout root ws s" "no_faults s" using w by (auto simp: page_world_def)
  have lt: "ws_list p t ws" using l(1) ws_list_refreshed [OF r] by simp
  have lk: "look_up_pte p (I386_VM_PDE v) (I386_VM_PTE v) t = Inr (Some a)"
    using look_up_pte_Some [OF lt] a by (simp add: refreshed_sel [OF r])
  have inj: "inj_on (pmb_page s) (set ws)" using l(1) by (simp add: ws_list_def distinct_map)
  note rs = refreshed_sel [OF r]
  show ?thesis
  proof (cases "has (pmb_flags (working_set s a)) H_EXEC \<or> \<not> has_all_frames (working_set s a)")
    case True
    have "refreshed ws (insert (page_base_of v) C) s t"
    proof (rule refreshed_mono [OF r])
      fix c assume "c \<in> set ws" "pmb_page s c = page_base_of v"
      then have "c = a" using inj a by (metis inj_onD)
      then show "\<not> has_all_frames (working_set s c) \<or> has (pmb_flags (working_set s c)) H_EXEC" using True by blast
    qed
    moreover have "update_ws_us1_us2_data_vaddr p v t = Inr (OK, t)"
      using lk True by (auto simp: update_ws_us1_us2_data_vaddr_def rs Let_def)
    ultimately show ?thesis by blast
  next
    case False
    have "rd_fault t = (\<lambda>_. False)" "wr_fault t = (\<lambda>_. False)" using l(3) by (simp_all add: rs no_faults_def)
    from refresh_copies_ok [of t "working_set t a", OF this] layout_frames(1-6) [OF l(2) a(1)] False obtain m where
      m: "refresh_copies (working_set t a) t = (OK, t\<lparr>mem := m\<rparr>)" "same_frame m (us1 (working_set s a)) (mem t) (us0 (working_set s a))"
        "same_frame m (us2 (working_set s a)) (mem t) (us0 (working_set s a))"
        "\<And>f. page_aligned f \<Longrightarrow> f \<noteq> us1 (working_set s a) \<Longrightarrow> f \<noteq> us2 (working_set s a) \<Longrightarrow> same_frame m f (mem t) f"
      by (auto simp: rs)
    from refreshed_step [OF r l(2) a(1) _ inj m(2-4)] False a(2) show ?thesis
      using lk m(1) by (auto simp: update_ws_us1_us2_data_vaddr_def rs Let_def)
  qed
qed

lemma update_pages_refreshed:
  assumes w: "page_world p root ws s" and "refreshed ws C s t"
    and "\<And>i. i \<in> set is \<Longrightarrow> page_base_of (base + of_nat i * 4 * 1024) \<in> pmb_page s ` set ws"
  shows "\<exists>u. update_pages p base is t = Inr (OK, u) \<and>
    refreshed ws (C \<union> (\<lambda>i. page_base_of (base + of_nat i * 4 * 1024)) ` set is) s u"
  using assms(2,3)
proof (induction "is" arbitrary: C t)
  case (Cons i "is")
  obtain a where a: "a \<in> set ws" "pmb_page s a = page_base_of (base + of_nat i * 4 * 1024)" using Cons.prems(2) [of i] by auto
  obtain u where u: "update_ws_us1_us2_data_vaddr p (base + of_nat i * 4 * 1024) t = Inr (OK, u)"
    "refreshed ws (insert (page_base_of (base + of_nat i * 4 * 1024)) C) s u"
    using update_page_refreshed [OF w Cons.prems(1) a] by blast
  from Cons.IH [OF u(2)] Cons.prems(2) show ?case using u(1) by (auto simp: Un_commute)
qed simp

text \<open>Every address of a range is a page base, so the pages looked up are those of the range.\<close>

lemma aligned_add_pages: "page_aligned f \<Longrightarrow> page_aligned (f + of_nat i * 4 * 1024)"
proof -
  assume f: "page_aligned f"
  have "4096 dvd unat (of_nat i * 4 * 1024 :: u32)"
    by (simp add: unat_word_ariths unat_of_nat dvd_mod_iff)
  then have "4096 dvd unat (f + of_nat i * 4 * 1024)"
    using f unfolding aligned_iff mod_eq_0_iff_dvd by (subst unat_word_ariths) (simp add: dvd_mod_iff)
  then show ?thesis by (simp add: aligned_iff mod_eq_0_iff_dvd)
qed

lemma page_range_base:
  "(\<lambda>i. page_base_of (page_base_of v + of_nat i * 4 * 1024)) ` set [0 ..< nat n] = page_range v n"
proof -
  have "page_base_of (page_base_of v + of_nat i * 4 * 1024) = page_base_of v + of_nat i * 4 * 1024" for i
    using aligned_add_pages [of "page_base_of v" i] pte_frame [of _ 0] by (simp add: page_base_pfa)
  then show ?thesis by (simp add: page_range_def)
qed

lemma replay_refreshed:
  assumes w: "page_world p root ws s" and l: "hme_list p s as" and c: "event_pages s as \<subseteq> pmb_page s ` set ws"
  shows "\<exists>t. handle_hme_events p s = Inr (OK, t) \<and> refreshed ws (event_pages s as) s t"
proof (cases "as = []")
  case True
  then show ?thesis using l refreshed_refl by (simp add: handle_hme_events_def hme_list_def event_pages_def)
next
  case False
  let ?body = "\<lambda>a s. bnd (update_range_ws_us1_us2_data p (addr_base (hardening_mem_events s a)) (npages (hardening_mem_events s a)) s)
       (\<lambda>(r, s). Inr (if r \<noteq> OK then Some EFAULT else None, s))"
  have ch: "chain (hme_nx s) (p_hardening_mem_events (procs s p)) as" using l by (simp add: hme_list_def)
  have "\<exists>t. for_chain hme_nx ?body (p_hardening_mem_events (procs s p)) s = Inr (None, t) \<and>
      refreshed ws (event_pages s as) s t"
  proof (rule for_chain_inv [where I = "\<lambda>ds rs t. refreshed ws (event_pages s ds) s t" and as = as])
    show "p_hardening_mem_events (procs s p) = (case as of [] \<Rightarrow> None | a # _ \<Rightarrow> Some a)" using chain_head [OF ch] .
    show "refreshed ws (event_pages s []) s s" using refreshed_refl by (simp add: event_pages_def)
    fix ds a rs t
    assume r: "refreshed ws (event_pages s ds) s t" and as: "as = ds @ a # rs"
    note rs = refreshed_sel [OF r]
    let ?e = "hardening_mem_events s a"
    have "page_range (addr_base ?e) (npages ?e) \<subseteq> pmb_page s ` set ws" using c as by (auto simp: event_pages_def)
    then have "\<exists>u. update_pages p (page_base_of (addr_base ?e)) [0 ..< nat (npages ?e)] t = Inr (OK, u) \<and>
        refreshed ws (event_pages s ds \<union> page_range (addr_base ?e) (npages ?e)) s u"
      unfolding page_range_base [symmetric] by (intro update_pages_refreshed [OF w r]) blast
    then obtain u where u: "update_pages p (page_base_of (addr_base ?e)) [0 ..< nat (npages ?e)] t = Inr (OK, u)"
      "refreshed ws (event_pages s (ds @ [a])) s u" by (auto simp: event_pages_def Un_commute)
    have "hme_nx u a = hme_nx s a" by (simp add: hme_nx_def refreshed_sel [OF u(2)])
    also have "\<dots> = (case rs of [] \<Rightarrow> None | b # _ \<Rightarrow> Some b)" using chain_drop [of "hme_nx s" _ ds a rs] ch as chain_head by fastforce
    finally show "\<exists>u. ?body a t = Inr (None, u) \<and> refreshed ws (event_pages s (ds @ [a])) s u \<and>
        hme_nx u a = (case rs of [] \<Rightarrow> None | b # _ \<Rightarrow> Some b)"
      using u by (intro exI [of _ u]) (simp add: update_range_ws_us1_us2_data_def rs)
  qed
  then show ?thesis using l False by (auto simp: handle_hme_events_def hme_list_def)
qed

text \<open>Replaying the events: when every page the events cover is in the working set, the
  replay ends without an error, and every covered page that has both copies (and does not
  wait for an exec) has the contents of its committed frame in both copies and is marked as
  written by the kernel. The committed frames, the frames of all other pages and the list of events are unchanged.
\<close>

theorem handle_hme_events_refreshes:
  assumes "page_world p root ws s" "hme_list p s as" "event_pages s as \<subseteq> pmb_page s ` set ws"
  shows "\<exists>t. handle_hme_events p s = Inr (OK, t) \<and> hme_list p t as \<and> ws_list p t ws \<and>
    (\<forall>a \<in> set ws. pmb_page s a \<in> event_pages s as \<and> has_all_frames (working_set s a) \<and> \<not> has (pmb_flags (working_set s a)) H_EXEC \<longrightarrow>
       same_frame (mem t) (us1 (working_set s a)) (mem s) (us0 (working_set s a)) \<and>
       same_frame (mem t) (us2 (working_set s a)) (mem s) (us0 (working_set s a)) \<and>
       has (pmb_flags (working_set t a)) IWS_MOD_KERNEL) \<and>
    (\<forall>a. us0 (working_set t a) = us0 (working_set s a) \<and> us1 (working_set t a) = us1 (working_set s a) \<and>
       us2 (working_set t a) = us2 (working_set s a)) \<and>
    (\<forall>f. page_aligned f \<and> (\<forall>a \<in> set ws. pmb_page s a \<in> event_pages s as \<longrightarrow> f \<notin> {us1 (working_set s a), us2 (working_set s a)}) \<longrightarrow>
       same_frame (mem t) f (mem s) f)"
proof -
  obtain t where t: "handle_hme_events p s = Inr (OK, t)" "refreshed ws (event_pages s as) s t"
    using replay_refreshed [OF assms] by blast
  note rs = refreshed_sel [OF t(2)]
  have "hme_list p t as" using assms(2) by (simp add: hme_list_def hme_nx_def [abs_def] hme_free_def rs)
  moreover have "ws_list p t ws" using assms(1) ws_list_refreshed [OF t(2)] by (simp add: page_world_def)
  ultimately show ?thesis using t rs(5-7) unfolding refreshed_def by blast
qed

definition replay_sample :: kstate where
  "replay_sample = sample_state\<lparr>hardening_mem_events := (\<lambda>_. zero_hme)(0 := zero_hme\<lparr>addr_base := 0x3008, npages := 1\<rparr>),
     procs := (procs sample_state)(1 := (procs sample_state 1)\<lparr>p_hardening_mem_events := Some 0, p_nb_hardening_mem_events := 1\<rparr>)\<rparr>"

lemma replay_sample_world: "page_world 1 0x1000 [0] replay_sample" "hme_list 1 replay_sample [0]" "event_pages replay_sample [0] = {0x3000}"
proof -
  have pt: "pde_of 0x1000 replay_sample v = pde_of 0x1000 sample_state v" "pt_of 0x1000 replay_sample v = pt_of 0x1000 sample_state v" for v
    by (simp_all add: replay_sample_def pde_of_def pt_of_def)
  show "page_world 1 0x1000 [0] replay_sample"
    by (simp add: page_world_def ws_list_def layout_def block_ok_def no_faults_def frames_of_def page_aligned_def
        pmb_nx_def pmb_free_def has_def pt) (simp add: replay_sample_def page_aligned_def has_def)
  show "hme_list 1 replay_sample [0]"
    by (simp add: hme_list_def replay_sample_def zero_hme_def hme_nx_def hme_free_def has_def)
  show "event_pages replay_sample [0] = {0x3000}"
    by (simp add: event_pages_def page_range_def replay_sample_def page_base_pfa I386_VM_PFA_def)
qed

theorem handle_hme_events_refreshes_witness:
  "\<exists>t. handle_hme_events 1 replay_sample = Inr (OK, t) \<and> same_frame (mem t) 0x6000 (mem replay_sample) 0x5000"
proof -
  have pg: "pmb_page replay_sample 0 = 0x3000" by (simp add: pmb_page_def replay_sample_def page_base_pfa I386_VM_PFA_def)
  have b: "working_set replay_sample 0 = sample_block" by (simp add: replay_sample_def)
  from handle_hme_events_refreshes [OF replay_sample_world(1,2)] show ?thesis
    by (auto simp: replay_sample_world(3) pg b has_all_frames_def has_def)
qed

text \<open>An event that reaches a page outside the working set crashes the kernel: the replay reads the flags of
  the block that was not found.
\<close>

theorem replay_outside_working_set:
  assumes "ws_list p s ws" "page_base_of v \<notin> pmb_page s ` set ws" "n > 0"
  shows "update_range_ws_us1_us2_data p v n s = Inl NullDeref"
proof -
  have "look_up_pte p (I386_VM_PDE v) (I386_VM_PTE v) s = Inr None"
    using look_up_pte_None [OF assms(1)] assms(2) by simp
  then have "update_ws_us1_us2_data_vaddr p (page_base_of v) s = Inl NullDeref"
    by (simp add: update_ws_us1_us2_data_vaddr_def PDE_base PTE_base)
  moreover have "[0 ..< nat n] = 0 # [1 ..< nat n]" using assms(3) by (simp add: upt_conv_Cons)
  ultimately show ?thesis by (simp add: update_range_ws_us1_us2_data_def)
qed

theorem replay_outside_working_set_witness:
  "update_range_ws_us1_us2_data 1 0x4000 1 one_block = Inl NullDeref"
proof (rule replay_outside_working_set)
  show "ws_list 1 one_block [0]" using ws_world_list [OF one_block_world, of 1] by simp
  show "page_base_of 0x4000 \<notin> pmb_page one_block ` set [0]"
    by (simp add: pmb_page_def one_block_def free_table_def page_base_pfa I386_VM_PFA_def)
qed simp

section \<open>Emptying the list\<close>

lemma free_head:
  assumes "chain (hme_nx t) (p_hardening_mem_events (procs t p)) (a # rs)" "p_nb_hardening_mem_events (procs t p) > 0"
  shows "free_hardening_mem_event p (hme_id (hardening_mem_events t a)) t =
    Inr (p_nb_hardening_mem_events (procs t p) - 1, unlink_hme p None a t)"
proof -
  have "search_prev (hme_nx t) (\<lambda>b. hme_id (hardening_mem_events t b) = hme_id (hardening_mem_events t a))
      (p_hardening_mem_events (procs t p)) = Inr (Some (None, a))"
    using search_prev_chain [OF assms(1)] by simp
  then show ?thesis using assms(2) by (simp add: free_hardening_mem_event_def unlink_hme_def Let_def)
qed

text \<open>Emptying the list of events returns, for a list of any length: its two assertions hold, the
  process has no event left, every slot of the list is free again, and no other slot,
  process or memory changed.
\<close>

theorem free_hardening_mem_events_empties:
  assumes l: "hme_list p s as"
  shows "\<exists>t. free_hardening_mem_events p s = Inr t \<and> hme_list p t [] \<and> p_hardening_mem_events (procs t p) = None \<and>
    (\<forall>a \<in> set as. hme_free t a) \<and> (\<forall>a. a \<notin> set as \<longrightarrow> hardening_mem_events t a = hardening_mem_events s a) \<and>
    (\<forall>q. q \<noteq> p \<longrightarrow> procs t q = procs s q) \<and> mem t = mem s \<and> working_set t = working_set s"
proof (cases "as = []")
  case True
  then show ?thesis using l by (auto simp: free_hardening_mem_events_def hme_list_def)
next
  case False
  have ch: "chain (hme_nx s) (p_hardening_mem_events (procs s p)) as" using l by (simp add: hme_list_def)
  let ?body = "\<lambda>a s. bnd (free_hardening_mem_event p (hme_id (hardening_mem_events s a)) s) (\<lambda>(_, s). Inr (None :: unit option, s))"
  let ?I = "\<lambda>ds rs t. chain (hme_nx t) (p_hardening_mem_events (procs t p)) rs \<and>
     p_nb_hardening_mem_events (procs t p) = int (length rs) \<and> (\<forall>a \<in> set ds. hme_free t a) \<and> only_hme p (set as) s t"
  have "\<exists>t. for_chain hme_nx ?body (p_hardening_mem_events (procs s p)) s = Inr (None, t) \<and> ?I as [] t"
  proof (rule for_chain_inv [where I = ?I])
    show "p_hardening_mem_events (procs s p) = (case as of [] \<Rightarrow> None | a # _ \<Rightarrow> Some a)" using chain_head [OF ch] .
    show "?I [] as s" using l only_hme_refl by (simp add: hme_list_def)
    fix ds a rs t
    assume I: "?I ds (a # rs) t" and as: "as = ds @ a # rs"
    let ?u = "unlink_hme p None a t"
    have d: "a \<notin> set rs" using chain_distinct [of "hme_nx t"] I by fastforce
    have nx: "hme_nx ?u = hme_nx t" by (rule ext) (simp add: unlink_hme_def hme_nx_def clear_hme_def Let_def)
    have "?body a t = Inr (None, ?u)" using free_head [of t p a rs] I by simp
    moreover have "chain (hme_nx ?u) (p_hardening_mem_events (procs ?u p)) rs"
      using I nx by (simp add: unlink_hme_def hme_nx_def clear_hme_def Let_def)
    moreover have "hme_free ?u a" "hme_free ?u b = (hme_free t b \<or> b = a)" for b
      by (auto simp: unlink_hme_def hme_free_def clear_hme_def has_def Let_def)
    moreover have "only_hme p (set as) s ?u"
      unfolding unlink_hme_def Let_def using I as
      by (auto intro!: only_hme_trans [OF _ only_hme_head] only_hme_trans [OF _ only_hme_count] only_hme_trans [OF _ only_hme_upd])
    moreover have "hme_nx ?u a = (case rs of [] \<Rightarrow> None | b # _ \<Rightarrow> Some b)"
      using I chain_head [of "hme_nx t" "hme_nx t a" rs] unfolding nx by simp
    ultimately show "\<exists>u. ?body a t = Inr (None, u) \<and> ?I (ds @ [a]) rs u \<and> hme_nx u a = (case rs of [] \<Rightarrow> None | b # _ \<Rightarrow> Some b)"
      using I by (intro exI [of _ ?u]) (auto simp: unlink_hme_def Let_def)
  qed
  then obtain t where t: "for_chain hme_nx ?body (p_hardening_mem_events (procs s p)) s = Inr (None, t)" "?I as [] t" by blast
  then have "free_hardening_mem_events p s = Inr t" using l False by (simp add: free_hardening_mem_events_def hme_list_def)
  then show ?thesis using t(2) only_hme_sel [of p "set as" s t] by (auto simp: hme_list_def)
qed

definition two_events :: kstate where
  "two_events = event_sample\<lparr>hardening_mem_events := (hardening_mem_events event_sample)
     (0 := zero_hme\<lparr>hme_id := 0, addr_base := 0x3000, npages := 1, next_hme := Some 1\<rparr>,
      1 := zero_hme\<lparr>hme_id := 1, addr_base := 0x8000, npages := 2\<rparr>),
     procs := (procs event_sample)(1 := (procs event_sample 1)\<lparr>p_hardening_mem_events := Some 0, p_nb_hardening_mem_events := 2\<rparr>)\<rparr>"

theorem free_hardening_mem_events_empties_witness:
  "\<exists>t. free_hardening_mem_events 1 two_events = Inr t \<and> p_hardening_mem_events (procs t 1) = None \<and> hme_free t 1"
proof -
  have "hme_list 1 two_events [0, 1]"
    by (simp add: hme_list_def two_events_def event_sample_def zero_hme_def hme_nx_def hme_free_def has_def upt_conv_Cons)
  from free_hardening_mem_events_empties [OF this] show ?thesis by auto
qed

end
