(* ===== verification/Virt_Copy.thy ===== *)
theory Virt_Copy
  imports Event_Laws Ipc_Calls
begin

text \<open>
  Copies between address spaces (\<open>kernel/arch/i386/memory.c\<close>): the kernel's copy routine works
  through windows of four megabytes, a page fault inside it is caught and either returned or
  turned into a request to VM that suspends the caller, and a copy into a hardened process is
  recorded as a memory event. The mapping of a window is not written into the page directory
  of the model: an address of another process is translated through the page directory that
  the window's entry is taken from. The kernel calls built on these routines are
  \<open>do_copy\<close> and \<open>do_memset\<close>.
\<close>

section \<open>Address translation\<close>

abbreviation I386_BIG_PAGE_SIZE :: u32 where "I386_BIG_PAGE_SIZE \<equiv> 0x400000"
abbreviation I386_VM_OFFSET_MASK_4MB :: u32 where "I386_VM_OFFSET_MASK_4MB \<equiv> 0x3FFFFF"
abbreviation I386_VM_ADDR_MASK_4MB :: u32 where "I386_VM_ADDR_MASK_4MB \<equiv> 0xFFC00000"
abbreviation RTS_VMINHIBIT :: u32 where "RTS_VMINHIBIT \<equiv> 0x200"
abbreviation RTS_VMREQUEST :: u32 where "RTS_VMREQUEST \<equiv> 0x800"
abbreviation MF_KCALL_RESUME :: u32 where "MF_KCALL_RESUME \<equiv> 0x008"
abbreviation VMSUSPEND :: int where "VMSUSPEND \<equiv> - 996"
abbreviation VMPTYPE_CHECK :: int where "VMPTYPE_CHECK \<equiv> 1"
abbreviation VMSTYPE_KERNELCALL :: int where "VMSTYPE_KERNELCALL \<equiv> 1"
abbreviation SIGKMEM :: int where "SIGKMEM \<equiv> 27"

definition iskernelp :: "int \<Rightarrow> bool" where
  "iskernelp p \<longleftrightarrow> p < 0"

text \<open>
  The walk of the processor through the tables below \<open>root\<close>: the physical address and whether
  the kernel may write it (write protection is on in kernel mode).
\<close>

definition page_walk :: "u32 \<Rightarrow> kstate \<Rightarrow> u32 \<Rightarrow> (u32 \<times> bool) option" where
  "page_walk root s v =
     (let pde = pde_of root s v; pte = pte_of root s v
      in if \<not> has pde I386_VM_PRESENT then None
         else if has pde I386_VM_BIGPAGE
         then Some ((pde AND I386_VM_ADDR_MASK_4MB) + (v AND I386_VM_OFFSET_MASK_4MB), has pde I386_VM_WRITE)
         else if \<not> has pte I386_VM_PRESENT then None
         else Some (I386_VM_PFA pte + (v AND I386_VM_ADDR_MASK_INV), has pde I386_VM_WRITE \<and> has pte I386_VM_WRITE))"

definition root_of :: "int \<Rightarrow> kstate \<Rightarrow> u32" where
  "root_of p s = (if iskernelp p then cr3 s else p_cr3 (procs s p))"

text \<open>
  An address of a process, or a physical address when there is no process; \<open>None\<close> is a
  page fault.
\<close>

definition access_rd :: "int option \<Rightarrow> kstate \<Rightarrow> u32 \<Rightarrow> u32 option" where
  "access_rd pr s v =
     (case pr of
        None \<Rightarrow> if rd_fault s v then None else Some v
      | Some p \<Rightarrow> (case page_walk (root_of p s) s v of
                     None \<Rightarrow> None
                   | Some (a, _) \<Rightarrow> if rd_fault s a then None else Some a))"

definition access_wr :: "int option \<Rightarrow> kstate \<Rightarrow> u32 \<Rightarrow> u32 option" where
  "access_wr pr s v =
     (case pr of
        None \<Rightarrow> if wr_fault s v then None else Some v
      | Some p \<Rightarrow> (case page_walk (root_of p s) s v of
                     None \<Rightarrow> None
                   | Some (a, w) \<Rightarrow> if \<not> w \<or> wr_fault s a then None else Some a))"

section \<open>The copy routines\<close>

text \<open>
  \<open>createpde\<close>: the linear address at which the kernel reaches the range and how much of the
  range is reached there.
\<close>

definition createpde :: "int option \<Rightarrow> u32 \<Rightarrow> u32 \<Rightarrow> nat \<Rightarrow> kstate \<Rightarrow> u32 \<times> u32" where
  "createpde pr linaddr bytes free_pde_idx s =
     (if (case pr of Some p \<Rightarrow> p = ptproc s \<or> iskernelp p | None \<Rightarrow> False) then (linaddr, bytes)
      else let offset = linaddr AND I386_VM_OFFSET_MASK_4MB
           in (I386_BIG_PAGE_SIZE * freepdes s free_pde_idx + offset, min bytes (I386_BIG_PAGE_SIZE - offset)))"

text \<open>
  \<open>phys_copy\<close> moves single bytes up to a word boundary of the source, words, and the remaining
  bytes. One move reads all its bytes before it writes any; a fault stops the routine at that
  move and \<open>RdFault\<close> or \<open>WrFault\<close> names the offset of the byte.
\<close>

datatype fault = RdFault nat | WrFault nat

definition copy_units :: "u32 \<Rightarrow> nat \<Rightarrow> nat list" where
  "copy_units source n =
     (if n < 10 then replicate n 1
      else let k = unat (- source AND 3)
           in replicate k 1 @ replicate ((n - k) div 4) 4 @ replicate ((n - k) mod 4) 1)"

definition store_bytes :: "(nat \<Rightarrow> u32) \<Rightarrow> u8 list \<Rightarrow> (u32 \<Rightarrow> u8) \<Rightarrow> (u32 \<Rightarrow> u8)" where
  "store_bytes g vs m = fold (\<lambda>i m. m(g i := vs ! i)) [0 ..< length vs] m"

definition movs :: "nat \<Rightarrow> int option \<Rightarrow> u32 \<Rightarrow> int option \<Rightarrow> u32 \<Rightarrow> nat \<Rightarrow> kstate \<Rightarrow> fault + kstate" where
  "movs k srcproc src dstproc dst i s =
     (let f = (\<lambda>j. access_rd srcproc s (src + of_nat (i + j)));
          g = (\<lambda>j. access_wr dstproc s (dst + of_nat (i + j)))
      in case find (\<lambda>j. f j = None) [0 ..< k] of
           Some j \<Rightarrow> Inl (RdFault (i + j))
         | None \<Rightarrow>
             (case find (\<lambda>j. g j = None) [0 ..< k] of
                Some j \<Rightarrow> Inl (WrFault (i + j))
              | None \<Rightarrow> Inr (s\<lparr>mem := store_bytes (\<lambda>j. the (g j)) (map (\<lambda>j. mem s (the (f j))) [0 ..< k]) (mem s)\<rparr>)))"

fun phys_copy :: "nat list \<Rightarrow> int option \<Rightarrow> u32 \<Rightarrow> int option \<Rightarrow> u32 \<Rightarrow> nat \<Rightarrow> kstate \<Rightarrow> fault option \<times> kstate" where
  "phys_copy [] srcproc src dstproc dst i s = (None, s)"
| "phys_copy (k # ks) srcproc src dstproc dst i s =
     (case movs k srcproc src dstproc dst i s of
        Inl f \<Rightarrow> (Some f, s)
      | Inr s' \<Rightarrow> phys_copy ks srcproc src dstproc dst (i + k) s')"

text \<open>
  What \<open>lin_lin_copy\<close> makes of the address the routine returned: zero means no fault, also when
  the fault was at address zero.
\<close>

definition fault_result :: "u32 \<Rightarrow> u32 \<Rightarrow> u32 \<Rightarrow> fault \<Rightarrow> stop + int" where
  "fault_result srcptr dstptr chunk f =
     (let addr = (case f of RdFault i \<Rightarrow> srcptr + of_nat i | WrFault i \<Rightarrow> dstptr + of_nat i)
      in if addr = 0 then Inr OK
         else if srcptr \<le> addr \<and> addr < srcptr + chunk then Inr EFAULT_SRC
         else if dstptr \<le> addr \<and> addr < dstptr + chunk then Inr EFAULT_DST
         else Inl (Panic ''lin_lin_copy fault out of range''))"

lemma createpde_progress: "n \<noteq> 0 \<Longrightarrow> snd (createpde pr a n i s) \<noteq> 0"
proof -
  have "(a AND 0x3FFFFF) \<le> 0x3FFFFF" by (rule word_and_le1)
  then have "0x400000 - (a AND 0x3FFFFF) \<noteq> 0" by auto
  then show "n \<noteq> 0 \<Longrightarrow> snd (createpde pr a n i s) \<noteq> 0" 
    by (auto simp: createpde_def Let_def min_def)
qed

lemma createpde_le: "snd (createpde pr a n i s) \<le> n"
  by (simp add: createpde_def Let_def)

lemma unat_minus_less: "(k :: u32) \<noteq> 0 \<Longrightarrow> k \<le> n \<Longrightarrow> unat (n - k) < unat n"
  by (metis diff_less le_less_trans not_le unat_gt_0 unat_sub word_le_nat_alt)

lemma createpde_less: "n \<noteq> 0 \<Longrightarrow> createpde pr a n i s = (p, k) \<Longrightarrow> unat (n - k) < unat n"
  using createpde_progress [of n pr a i s] createpde_le [of pr a n i s] unat_minus_less by simp

text \<open>The loop over the windows.\<close>

function copy_chunks :: "int option \<Rightarrow> u32 \<Rightarrow> int option \<Rightarrow> u32 \<Rightarrow> u32 \<Rightarrow> kstate \<Rightarrow> stop + (int \<times> kstate)" where
  "copy_chunks srcproc srclin dstproc dstlin bytes s =
     (if bytes = 0 then Inr (OK, s)
      else
        let (srcptr, chunk1) = createpde srcproc srclin bytes 0 s;
            (dstptr, chunk) = createpde dstproc dstlin chunk1 1 s;
            (f, s') = phys_copy (copy_units srcptr (unat chunk)) srcproc srclin dstproc dstlin 0 s
        in bnd (case f of None \<Rightarrow> Inr OK | Some x \<Rightarrow> fault_result srcptr dstptr chunk x) (\<lambda>r.
             if r \<noteq> OK then Inr (r, s')
             else copy_chunks srcproc (srclin + chunk) dstproc (dstlin + chunk) (bytes - chunk) s'))"
  by pat_completeness auto

termination
proof (relation "measure (\<lambda>(_, _, _, _, n, _). unat n)", simp, clarsimp)
  fix srcproc srclin dstproc dstlin s srcptr c1 dstptr chunk and bytes :: u32
  assume "bytes \<noteq> 0" "(srcptr, c1) = createpde srcproc srclin bytes 0 s" "(dstptr, chunk) = createpde dstproc dstlin c1 (Suc 0) s"
  then have "chunk \<noteq> 0" "chunk \<le> bytes"
    by (metis createpde_progress snd_conv, metis createpde_le order_trans snd_conv)
  then show "unat (bytes - chunk) < unat bytes" by (rule unat_minus_less)
qed

declare copy_chunks.simps [simp del]

definition copy_asserts :: "int option \<Rightarrow> int option \<Rightarrow> kstate \<Rightarrow> stop + kstate" where
  "copy_asserts srcproc dstproc s =
     (let free = (\<lambda>p. RTS_ISSET (procs s p) RTS_SLOT_FREE); inhibited = (\<lambda>p. RTS_ISSET (procs s p) RTS_VMINHIBIT);
          on = (\<lambda>P pr. case pr of None \<Rightarrow> False | Some p \<Rightarrow> P p)
      in bnd (kassert (cr3 s = p_cr3 (procs s (ptproc s))) ''read_cr3() == ptproc->p_seg.p_cr3'' s) (\<lambda>s.
         bnd (kassert (0 \<le> p_nr (procs s (ptproc s)) \<and> p_nr (procs s (ptproc s)) < 1024) ''procslot'' s) (\<lambda>s.
         bnd (kassert (\<not> on free srcproc) ''!RTS_ISSET(srcproc, RTS_SLOT_FREE)'' s) (\<lambda>s.
         bnd (kassert (\<not> on free dstproc) ''!RTS_ISSET(dstproc, RTS_SLOT_FREE)'' s) (\<lambda>s.
         bnd (kassert (\<not> free (ptproc s)) ''!RTS_ISSET(ptproc, RTS_SLOT_FREE)'' s) (\<lambda>s.
         bnd (kassert (\<not> on inhibited srcproc) ''!RTS_ISSET(srcproc, RTS_VMINHIBIT)'' s) (\<lambda>s.
         kassert (\<not> on inhibited dstproc) ''!RTS_ISSET(dstproc, RTS_VMINHIBIT)'' s)))))))"

text \<open>The assertions after the loop repeat earlier ones about flags the loop does not touch.\<close>

definition lin_lin_copy_procs :: "int option \<Rightarrow> u32 \<Rightarrow> int option \<Rightarrow> u32 \<Rightarrow> u32 \<Rightarrow> kstate \<Rightarrow> stop + (int \<times> kstate)" where
  "lin_lin_copy_procs srcproc srclin dstproc dstlin bytes s =
     bnd (copy_asserts srcproc dstproc s) (copy_chunks srcproc srclin dstproc dstlin bytes)"

section \<open>Requests to VM\<close>

definition upd_vmreq :: "int \<Rightarrow> (vm_request \<Rightarrow> vm_request) \<Rightarrow> kstate \<Rightarrow> kstate" where
  "upd_vmreq p f = upd_proc p (\<lambda>q. q\<lparr>p_vmrequest := f (p_vmrequest q)\<rparr>)"

definition check_resumed_caller :: "int option \<Rightarrow> kstate \<Rightarrow> stop + int" where
  "check_resumed_caller caller s =
     (case caller of
        Some c \<Rightarrow>
          if misc_is s c MF_KCALL_RESUME
          then bnd (kassert (vmresult (p_vmrequest (procs s c)) \<noteq> VMSUSPEND) ''vmresult != VMSUSPEND'' s)
                 (\<lambda>s. Inr (vmresult (p_vmrequest (procs s c))))
          else Inr OK
      | None \<Rightarrow> Inr OK)"

definition vm_suspend :: "int \<Rightarrow> int \<Rightarrow> u32 \<Rightarrow> u32 \<Rightarrow> int \<Rightarrow> kstate \<Rightarrow> stop + kstate" where
  "vm_suspend caller target linaddr len type s =
     bnd (kassert (\<not> RTS_ISSET (procs s caller) RTS_VMREQUEST) ''!RTS_ISSET(caller, RTS_VMREQUEST)'' s) (\<lambda>s.
     bnd (kassert (\<not> RTS_ISSET (procs s target) RTS_VMREQUEST) ''!RTS_ISSET(target, RTS_VMREQUEST)'' s) (\<lambda>s.
     bnd (RTS_SET caller RTS_VMREQUEST s) (\<lambda>s.
     bnd (kassert (p_endpoint (procs s caller) \<noteq> VM_PROC_NR) ''caller->p_endpoint != VM_PROC_NR'' s) (\<lambda>s.
       let s = upd_vmreq caller (\<lambda>r. r\<lparr>req_type := VMPTYPE_CHECK, vmr_target := p_endpoint (procs s target),
                 check_start := linaddr, check_length := len, check_writeflag := 1, vmr_type := type,
                 nextrequestor := vmrequest s\<rparr>) s
       in bnd (if vmrequest s = None then send_or_panic VM_PROC_NR SIGKMEM s else Inr s)
            (\<lambda>s. Inr (s\<lparr>vmrequest := Some caller\<rparr>))))))"

definition vm_check_range :: "int \<Rightarrow> int \<Rightarrow> u32 \<Rightarrow> u32 \<Rightarrow> kstate \<Rightarrow> stop + (int \<times> kstate)" where
  "vm_check_range caller target vir_addr bytes s =
     (if misc_is s caller MF_KCALL_RESUME \<and> vmresult (p_vmrequest (procs s caller)) \<noteq> OK
      then Inr (vmresult (p_vmrequest (procs s caller)), s)
      else bnd (vm_suspend caller target vir_addr bytes VMSTYPE_KERNELCALL s) (\<lambda>s. Inr (VMSUSPEND, s)))"

section \<open>Copies between processes\<close>

record vir_addr =
  proc_nr_e :: int
  va_offset :: u32

definition vir_proc :: "vir_addr \<Rightarrow> kstate \<Rightarrow> int option option" where
  "vir_proc a s =
     (if proc_nr_e a = NONE then Some None
      else case isokendpt (proc_nr_e a) s of None \<Rightarrow> None | Some p \<Rightarrow> Some (Some p))"

text \<open>A failed copy: the code is returned, or the caller waits until VM has looked at the range.\<close>

definition copy_failed :: "int option \<Rightarrow> bool \<Rightarrow> int \<Rightarrow> int option \<Rightarrow> u32 \<Rightarrow> int option \<Rightarrow> u32 \<Rightarrow> u32 \<Rightarrow> kstate \<Rightarrow>
    stop + (int \<times> kstate)" where
  "copy_failed caller vmcheck r srcproc src dstproc dst bytes s =
     (case (if vmcheck then caller else None) of
        None \<Rightarrow> Inr (r, s)
      | Some c \<Rightarrow>
          (let (lin, target) = (if r = EFAULT_SRC then (src, srcproc) else (dst, dstproc))
           in case target of
                None \<Rightarrow> Inl (AssertFail ''target'')
              | Some t \<Rightarrow> bnd (vm_suspend c t lin bytes VMSTYPE_KERNELCALL s) (\<lambda>s. Inr (VMSUSPEND, s))))"

definition record_copy :: "int option \<Rightarrow> u32 \<Rightarrow> u32 \<Rightarrow> kstate \<Rightarrow> stop + (int \<times> kstate)" where
  "record_copy dstproc dst bytes s =
     (case dstproc of
        Some p \<Rightarrow> if has (p_hflags (procs s p)) PROC_TO_HARD
                  then bnd (add_hme_event p dst bytes s) (\<lambda>(_, s). Inr (OK, s)) else Inr (OK, s)
      | None \<Rightarrow> Inr (OK, s))"

definition virtual_copy_f :: "int option \<Rightarrow> vir_addr \<Rightarrow> vir_addr \<Rightarrow> u32 \<Rightarrow> bool \<Rightarrow> kstate \<Rightarrow> stop + (int \<times> kstate)" where
  "virtual_copy_f caller src_addr dst_addr bytes vmcheck s =
     bnd (kassert (vmcheck = (caller \<noteq> None)) ''(vmcheck && caller) || (!vmcheck && !caller)'' s) (\<lambda>s.
     if bytes = 0 then Inr (EDOM, s)
     else case vir_proc src_addr s of
       None \<Rightarrow> Inr (ESRCH, s)
     | Some srcproc \<Rightarrow>
     case vir_proc dst_addr s of
       None \<Rightarrow> Inr (ESRCH, s)
     | Some dstproc \<Rightarrow>
     bnd (check_resumed_caller caller s) (\<lambda>r.
     if r \<noteq> OK then Inr (r, s)
     else bnd (lin_lin_copy_procs srcproc (va_offset src_addr) dstproc (va_offset dst_addr) bytes s) (\<lambda>(r, s).
     if r \<noteq> OK then copy_failed caller vmcheck r srcproc (va_offset src_addr) dstproc (va_offset dst_addr) bytes s
     else record_copy dstproc (va_offset dst_addr) bytes s)))"

definition data_copy :: "int \<Rightarrow> u32 \<Rightarrow> int \<Rightarrow> u32 \<Rightarrow> u32 \<Rightarrow> kstate \<Rightarrow> stop + (int \<times> kstate)" where
  "data_copy from_proc from_addr to_proc to_addr bytes s =
     bnd (kassert (from_proc \<noteq> NONE) ''src.proc_nr_e != NONE'' s) (\<lambda>s.
     bnd (kassert (to_proc \<noteq> NONE) ''dst.proc_nr_e != NONE'' s)
       (virtual_copy_f None \<lparr>proc_nr_e = from_proc, va_offset = from_addr\<rparr>
          \<lparr>proc_nr_e = to_proc, va_offset = to_addr\<rparr> bytes False))"

definition data_copy_vmcheck :: "int \<Rightarrow> int \<Rightarrow> u32 \<Rightarrow> int \<Rightarrow> u32 \<Rightarrow> u32 \<Rightarrow> kstate \<Rightarrow> stop + (int \<times> kstate)" where
  "data_copy_vmcheck caller from_proc from_addr to_proc to_addr bytes s =
     bnd (kassert (from_proc \<noteq> NONE) ''src.proc_nr_e != NONE'' s) (\<lambda>s.
     bnd (kassert (to_proc \<noteq> NONE) ''dst.proc_nr_e != NONE'' s)
       (virtual_copy_f (Some caller) \<lparr>proc_nr_e = from_proc, va_offset = from_addr\<rparr>
          \<lparr>proc_nr_e = to_proc, va_offset = to_addr\<rparr> bytes True))"

text \<open>\<open>do_copy\<close>; the test for a truncated byte count compares equal 32-bit values.\<close>

definition copy_endpoint :: "int \<Rightarrow> int \<Rightarrow> kstate \<Rightarrow> int option" where
  "copy_endpoint caller e s =
     (let e = (if e = SELF then p_endpoint (procs s caller) else e)
      in if e \<noteq> NONE \<and> isokendpt e s = None then None else Some e)"

definition do_copy :: "int \<Rightarrow> message \<Rightarrow> kstate \<Rightarrow> stop + (int \<times> kstate)" where
  "do_copy caller m s =
     (case copy_endpoint caller (m5_i1 m) s of
        None \<Rightarrow> Inr (EINVAL, s)
      | Some src \<Rightarrow>
          (case copy_endpoint caller (m5_i2 m) s of
             None \<Rightarrow> Inr (EINVAL, s)
           | Some dst \<Rightarrow> virtual_copy_f (Some caller) \<lparr>proc_nr_e = src, va_offset = m5_l1 m\<rparr>
                           \<lparr>proc_nr_e = dst, va_offset = m5_l2 m\<rparr> (m5_l3 m) True s))"

section \<open>Filling memory\<close>

text \<open>
  \<open>phys_memset\<close> stores words, then the remaining bytes; all bytes of the pattern are equal.
  A fault is reported by its address, and address zero means none.
\<close>

definition stos :: "nat \<Rightarrow> int option \<Rightarrow> u32 \<Rightarrow> u8 \<Rightarrow> nat \<Rightarrow> kstate \<Rightarrow> nat + kstate" where
  "stos k pr dst c i s =
     (let g = (\<lambda>j. access_wr pr s (dst + of_nat (i + j)))
      in case find (\<lambda>j. g j = None) [0 ..< k] of
           Some j \<Rightarrow> Inl (i + j)
         | None \<Rightarrow> Inr (s\<lparr>mem := store_bytes (\<lambda>j. the (g j)) (replicate k c) (mem s)\<rparr>))"

fun phys_memset :: "nat list \<Rightarrow> int option \<Rightarrow> u32 \<Rightarrow> u8 \<Rightarrow> nat \<Rightarrow> kstate \<Rightarrow> nat option \<times> kstate" where
  "phys_memset [] pr dst c i s = (None, s)"
| "phys_memset (k # ks) pr dst c i s =
     (case stos k pr dst c i s of
        Inl j \<Rightarrow> (Some j, s)
      | Inr s' \<Rightarrow> phys_memset ks pr dst c (i + k) s')"

definition set_units :: "nat \<Rightarrow> nat list" where
  "set_units n = replicate (n div 4) 4 @ replicate (n mod 4) 1"

text \<open>The loop of \<open>vm_memset\<close>; the result says whether a fault was seen.\<close>

function set_chunks :: "int option \<Rightarrow> u32 \<Rightarrow> u8 \<Rightarrow> u32 \<Rightarrow> kstate \<Rightarrow> bool \<times> kstate" where
  "set_chunks whoptr cur_ph c left s =
     (if left = 0 then (False, s)
      else
        let (ptr, chunk) = createpde whoptr cur_ph left 0 s;
            (f, s') = phys_memset (set_units (unat chunk)) whoptr cur_ph c 0 s
        in if (case f of None \<Rightarrow> False | Some i \<Rightarrow> ptr + of_nat i \<noteq> 0) then (True, s')
           else set_chunks whoptr (cur_ph + chunk) c (left - chunk) s')"
  by pat_completeness auto

termination
  by (relation "measure (\<lambda>(_, _, _, n, _). unat n)") (auto intro: createpde_less dest: sym)

declare set_chunks.simps [simp del]

definition vm_memset :: "int option \<Rightarrow> int \<Rightarrow> u32 \<Rightarrow> u32 \<Rightarrow> u32 \<Rightarrow> kstate \<Rightarrow> stop + (int \<times> kstate)" where
  "vm_memset caller who ph c count s =
     bnd (check_resumed_caller caller s) (\<lambda>r.
     if r \<noteq> OK then Inr (r, s)
     else case vir_proc \<lparr>proc_nr_e = who, va_offset = ph\<rparr> s of
       None \<Rightarrow> Inr (ESRCH, s)
     | Some whoptr \<Rightarrow>
       (case set_chunks whoptr ph (ucast c) count s of
          (False, s) \<Rightarrow> Inr (OK, s)
        | (True, s) \<Rightarrow>
            (case whoptr of
               None \<Rightarrow> Inl (Panic ''vm_memset: pf'')
             | Some w \<Rightarrow>
                 (case caller of
                    None \<Rightarrow> Inl NullDeref
                  | Some c \<Rightarrow> bnd (vm_suspend c w ph count VMSTYPE_KERNELCALL s) (\<lambda>s. Inr (VMSUSPEND, s))))))"

text \<open>\<open>do_memset\<close> drops the result.\<close>

definition do_memset :: "int \<Rightarrow> message \<Rightarrow> kstate \<Rightarrow> stop + (int \<times> kstate)" where
  "do_memset caller m s =
     bnd (vm_memset (Some caller) (m2_i1 m) (m2_p1 m) (m2_l2 m) (m2_l1 m) s) (\<lambda>(_, s). Inr (OK, s))"

end
