(* ===== verification/Kernel_Calls.thy ===== *)
theory Kernel_Calls
  imports Virt_Copy Pick_Proc
begin

text \<open>
  Dispatch of kernel calls (\<open>kernel/system.c\<close>) and the control call of VM
  (\<open>kernel/system/do_vmctl.c\<close>, \<open>kernel/arch/i386/arch_do_vmctl.c\<close>): a call that needs memory VM has to provide
  first is suspended with its request, VM fetches the request, answers it, and the call is
  executed again. The table of handlers and the copy of the message from and to user memory
  are arguments.
\<close>

section \<open>Dispatch\<close>

abbreviation KERNEL_CALL :: int where "KERNEL_CALL \<equiv> 0x600"
abbreviation NR_SYS_CALLS :: int where "NR_SYS_CALLS \<equiv> 62"
abbreviation EBADREQUEST :: int where "EBADREQUEST \<equiv> - 107"
abbreviation EDONTREPLY :: int where "EDONTREPLY \<equiv> - 201"
abbreviation SIGSEGV :: int where "SIGSEGV \<equiv> 11"

type_synonym handler = "int \<Rightarrow> message \<Rightarrow> kstate \<Rightarrow> stop + (int \<times> message \<times> kstate)"

definition kernel_call_dispatch :: "(nat \<Rightarrow> handler option) \<Rightarrow> int \<Rightarrow> message \<Rightarrow> kstate \<Rightarrow> stop + (int \<times> message \<times> kstate)" where
  "kernel_call_dispatch call_vec caller msg s =
     (let call_nr = m_type msg - KERNEL_CALL
      in if call_nr < 0 \<or> NR_SYS_CALLS \<le> call_nr then Inr (EBADREQUEST, msg, s)
         else if \<not> s_k_call_mask (priv_of s caller) (nat call_nr) then Inr (ECALLDENIED, msg, s)
         else (case call_vec (nat call_nr) of
                 Some h \<Rightarrow> h caller msg s
               | None \<Rightarrow> Inr (EBADREQUEST, msg, s)))"

text \<open>The end of a call: save it for later, or put the result into the user's message buffer.\<close>

definition reply_msg :: "(message \<Rightarrow> u32 \<Rightarrow> kstate \<Rightarrow> kstate option) \<Rightarrow> int \<Rightarrow> message \<Rightarrow> kstate \<Rightarrow> stop + kstate" where
  "reply_msg put caller msg s =
     (case put msg (p_delivermsg_vir (p_msgs (procs s caller))) s of
        Some t \<Rightarrow> Inr t
      | None \<Rightarrow> cause_sig (p_nr (procs s caller)) SIGSEGV s)"

definition kernel_call_finish :: "(message \<Rightarrow> u32 \<Rightarrow> kstate \<Rightarrow> kstate option) \<Rightarrow> int \<Rightarrow> message \<Rightarrow> int \<Rightarrow> kstate \<Rightarrow> stop + kstate" where
  "kernel_call_finish put caller msg result s =
     (if result = VMSUSPEND
      then bnd (kassert (RTS_ISSET (procs s caller) RTS_VMREQUEST) ''RTS_ISSET(caller, RTS_VMREQUEST)'' s) (\<lambda>s.
           bnd (kassert (vmr_type (p_vmrequest (procs s caller)) = VMSTYPE_KERNELCALL) ''p_vmrequest.type == VMSTYPE_KERNELCALL'' s) (\<lambda>s.
           Inr (set_misc caller MF_KCALL_RESUME (upd_vmreq caller (\<lambda>r. r\<lparr>reqmsg := msg\<rparr>) s))))
      else let s = upd_vmreq caller (\<lambda>r. r\<lparr>reqmsg := (reqmsg r)\<lparr>m_source := NONE\<rparr>\<rparr>) s
           in if result = EDONTREPLY then Inr s
              else reply_msg put caller (msg\<lparr>m_source := SYSTEM, m_type := result\<rparr>) s)"

definition kernel_call :: "(u32 \<Rightarrow> kstate \<Rightarrow> message option) \<Rightarrow> (message \<Rightarrow> u32 \<Rightarrow> kstate \<Rightarrow> kstate option) \<Rightarrow> (nat \<Rightarrow> handler option) \<Rightarrow>
    u32 \<Rightarrow> int \<Rightarrow> kstate \<Rightarrow> stop + kstate" where
  "kernel_call get put call_vec m_user caller s =
     (let s = upd_msgs caller (\<lambda>m. m\<lparr>p_delivermsg_vir := m_user\<rparr>) s
      in if h_unstable_state s = 1 then Inr s
         else (case get m_user s of
                 None \<Rightarrow> cause_sig (p_nr (procs s caller)) SIGSEGV s
               | Some msg \<Rightarrow>
                   bnd (kernel_call_dispatch call_vec caller (msg\<lparr>m_source := p_endpoint (procs s caller)\<rparr>) s) (\<lambda>(result, msg, s).
                   kernel_call_finish put caller msg result (s\<lparr>kbill_kcall := Some caller\<rparr>))))"

text \<open>
  The call is executed again on the saved message itself: what the handler and the reply write into the
  message stays there.
\<close>

definition resumed_msg :: "int \<Rightarrow> message \<Rightarrow> message" where
  "resumed_msg result msg =
     (if result = VMSUSPEND then msg
      else if result = EDONTREPLY then msg\<lparr>m_source := NONE\<rparr>
      else msg\<lparr>m_source := SYSTEM, m_type := result\<rparr>)"

definition kernel_call_resume :: "(message \<Rightarrow> u32 \<Rightarrow> kstate \<Rightarrow> kstate option) \<Rightarrow> (nat \<Rightarrow> handler option) \<Rightarrow> int \<Rightarrow> kstate \<Rightarrow> stop + kstate" where
  "kernel_call_resume put call_vec caller s =
     bnd (kassert (\<not> RTS_ISSET (procs s caller) RTS_SLOT_FREE) ''!RTS_ISSET(caller, RTS_SLOT_FREE)'' s) (\<lambda>s.
     bnd (kassert (\<not> RTS_ISSET (procs s caller) RTS_VMREQUEST) ''!RTS_ISSET(caller, RTS_VMREQUEST)'' s) (\<lambda>s.
     bnd (kassert (m_source (reqmsg (p_vmrequest (procs s caller))) = p_endpoint (procs s caller)) ''reqmsg.m_source == p_endpoint'' s) (\<lambda>s.
     bnd (kernel_call_dispatch call_vec caller (reqmsg (p_vmrequest (procs s caller))) s) (\<lambda>(result, msg, s).
       let s = clr_misc caller MF_KCALL_RESUME s
       in if result = VMSUSPEND then kernel_call_finish put caller msg result s
          else let s = upd_vmreq caller (\<lambda>r. r\<lparr>reqmsg := resumed_msg result msg\<rparr>) s
               in if result = EDONTREPLY then Inr s else reply_msg put caller (resumed_msg result msg) s))))"

section \<open>The control call of VM\<close>

abbreviation VMCTL_CLEAR_PAGEFAULT :: int where "VMCTL_CLEAR_PAGEFAULT \<equiv> 12"
abbreviation VMCTL_GET_PDBR :: int where "VMCTL_GET_PDBR \<equiv> 13"
abbreviation VMCTL_MEMREQ_GET :: int where "VMCTL_MEMREQ_GET \<equiv> 14"
abbreviation VMCTL_MEMREQ_REPLY :: int where "VMCTL_MEMREQ_REPLY \<equiv> 15"
abbreviation VMCTL_I386_INVLPG :: int where "VMCTL_I386_INVLPG \<equiv> 25"
abbreviation VMCTL_FLUSHTLB :: int where "VMCTL_FLUSHTLB \<equiv> 26"
abbreviation VMCTL_KERN_PHYSMAP :: int where "VMCTL_KERN_PHYSMAP \<equiv> 27"
abbreviation VMCTL_KERN_MAP_REPLY :: int where "VMCTL_KERN_MAP_REPLY \<equiv> 28"
abbreviation VMCTL_SETADDRSPACE :: int where "VMCTL_SETADDRSPACE \<equiv> 29"
abbreviation VMCTL_VMINHIBIT_SET :: int where "VMCTL_VMINHIBIT_SET \<equiv> 30"
abbreviation VMCTL_VMINHIBIT_CLEAR :: int where "VMCTL_VMINHIBIT_CLEAR \<equiv> 31"
abbreviation VMCTL_CLEARMAPCACHE :: int where "VMCTL_CLEARMAPCACHE \<equiv> 32"
abbreviation VMCTL_BOOTINHIBIT_CLEAR :: int where "VMCTL_BOOTINHIBIT_CLEAR \<equiv> 33"
abbreviation RTS_BOOTINHIBIT :: u32 where "RTS_BOOTINHIBIT \<equiv> 0x10000"
abbreviation VMSTYPE_DELIVERMSG :: int where "VMSTYPE_DELIVERMSG \<equiv> 2"
abbreviation VMSTYPE_MAP :: int where "VMSTYPE_MAP \<equiv> 3"

text \<open>
  Hand the request at the head of the queue to VM; the fields of the reply are the
  ones of \<open>SVMCTL_MRG_*\<close>.
\<close>

definition memreq_get :: "message \<Rightarrow> kstate \<Rightarrow> stop + (int \<times> message \<times> kstate)" where
  "memreq_get m s =
     (case vmrequest s of
        None \<Rightarrow> Inr (ESRCH, m, s)
      | Some rp \<Rightarrow>
          let r = p_vmrequest (procs s rp)
          in bnd (kassert (RTS_ISSET (procs s rp) RTS_VMREQUEST) ''RTS_ISSET(rp, RTS_VMREQUEST)'' s) (\<lambda>s.
             bnd (okendpt (vmr_target r) s) (\<lambda>_.
             if req_type r \<noteq> VMPTYPE_CHECK then Inl (Panic ''VMREQUEST wrong type'')
             else Inr (req_type r,
                    m\<lparr>m2_i1 := vmr_target r, m2_i2 := sint (check_start r), m2_i3 := sint (check_length r),
                      m2_s1 := check_writeflag r, m2_p1 := of_int (p_endpoint (procs s rp))\<rparr>,
                    upd_vmreq rp (\<lambda>r. r\<lparr>vmresult := VMSUSPEND\<rparr>) s\<lparr>vmrequest := nextrequestor r\<rparr>))))"

definition memreq_reply :: "int \<Rightarrow> message \<Rightarrow> kstate \<Rightarrow> stop + (int \<times> message \<times> kstate)" where
  "memreq_reply p m s =
     bnd (kassert (RTS_ISSET (procs s p) RTS_VMREQUEST) ''RTS_ISSET(p, RTS_VMREQUEST)'' s) (\<lambda>s.
     bnd (kassert (vmresult (p_vmrequest (procs s p)) = VMSUSPEND) ''p_vmrequest.vmresult == VMSUSPEND'' s) (\<lambda>s.
     bnd (okendpt (vmr_target (p_vmrequest (procs s p))) s) (\<lambda>target.
       let s = upd_vmreq p (\<lambda>r. r\<lparr>vmresult := m1_i3 m\<rparr>) s; ty = vmr_type (p_vmrequest (procs s p))
       in bnd (kassert (m1_i3 m \<noteq> VMSUSPEND) ''p_vmrequest.vmresult != VMSUSPEND'' s) (\<lambda>s.
          bnd (if ty = VMSTYPE_KERNELCALL then Inr (set_misc p MF_KCALL_RESUME s)
               else if ty = VMSTYPE_DELIVERMSG
               then bnd (kassert (misc_is s p MF_DELIVERMSG) ''p_misc_flags & MF_DELIVERMSG'' s)
                      (kassert (p = target) ''p == target'')
               else if ty = VMSTYPE_MAP then Inr s
               else Inl (Panic ''strange request type'')) (\<lambda>s.
          bnd (RTS_UNSET p RTS_VMREQUEST s) (\<lambda>s. Inr (OK, m, s)))))))"

text \<open>
  Load a new page directory; \<open>arch_enable_paging\<close> for VM itself switches to its address space.
\<close>

definition setcr3 :: "int \<Rightarrow> u32 \<Rightarrow> kstate \<Rightarrow> stop + kstate" where
  "setcr3 p v s =
     (let s = upd_proc p (\<lambda>q. q\<lparr>p_cr3 := v\<rparr>) s
      in bnd (kassert (v \<noteq> 0) ''p->p_seg.p_cr3'' s) (\<lambda>s.
           let s = (if p = ptproc s then s\<lparr>cr3 := v\<rparr> else s);
               s = (if p_nr (procs s p) = VM_PROC_NR then s\<lparr>ptproc := p, cr3 := v\<rparr> else s)
           in RTS_UNSET p RTS_VMINHIBIT s))"

definition arch_do_vmctl :: "message \<Rightarrow> int \<Rightarrow> kstate \<Rightarrow> stop + (int \<times> message \<times> kstate)" where
  "arch_do_vmctl m p s =
     (let c = m1_i2 m
      in if c = VMCTL_GET_PDBR then Inr (OK, m\<lparr>m1_i3 := sint (p_cr3 (procs s p))\<rparr>, s)
         else if c = VMCTL_SETADDRSPACE then bnd (setcr3 p (of_int (m1_i3 m)) s) (\<lambda>s. Inr (OK, m, s))
         else if c = VMCTL_FLUSHTLB \<or> c = VMCTL_I386_INVLPG then Inr (OK, m, s)
         else Inr (EINVAL, m, s))"

definition do_vmctl :: "(message \<Rightarrow> kstate \<Rightarrow> stop + (int \<times> message \<times> kstate)) \<Rightarrow>
    (message \<Rightarrow> kstate \<Rightarrow> stop + (int \<times> message \<times> kstate)) \<Rightarrow> handler" where
  "do_vmctl arch_phys_map arch_phys_map_reply caller m s =
     (let ep = (if m1_i1 m = SELF then p_endpoint (procs s caller) else m1_i1 m); c = m1_i2 m
      in case isokendpt ep s of
           None \<Rightarrow> Inr (EINVAL, m, s)
         | Some p \<Rightarrow>
             if c = VMCTL_CLEAR_PAGEFAULT
             then bnd (kassert (RTS_ISSET (procs s p) RTS_PAGEFAULT) ''RTS_ISSET(p,RTS_PAGEFAULT)'' s) (\<lambda>s.
                  bnd (RTS_UNSET p RTS_PAGEFAULT s) (\<lambda>s. Inr (OK, m, s)))
             else if c = VMCTL_MEMREQ_GET then memreq_get m s
             else if c = VMCTL_MEMREQ_REPLY then memreq_reply p m s
             else if c = VMCTL_KERN_PHYSMAP then arch_phys_map m s
             else if c = VMCTL_KERN_MAP_REPLY then arch_phys_map_reply m s
             else if c = VMCTL_VMINHIBIT_SET then bnd (RTS_SET p RTS_VMINHIBIT s) (\<lambda>s. Inr (OK, m, s))
             else if c = VMCTL_VMINHIBIT_CLEAR
             then bnd (kassert (RTS_ISSET (procs s p) RTS_VMINHIBIT) ''RTS_ISSET(p, RTS_VMINHIBIT)'' s) (\<lambda>s.
                  bnd (RTS_UNSET p RTS_VMINHIBIT s) (\<lambda>s. Inr (OK, m, s)))
             else if c = VMCTL_CLEARMAPCACHE then Inr (OK, m, s)
             else if c = VMCTL_BOOTINHIBIT_CLEAR then bnd (RTS_UNSET p RTS_BOOTINHIBIT s) (\<lambda>s. Inr (OK, m, s))
             else arch_do_vmctl m p s)"

end
