(* ===== verification/Kcall_Laws.thy ===== *)
theory Kcall_Laws
  imports Kernel_Calls
begin

text \<open>
  Laws of the suspended kernel calls: a memory request reaches VM and its answer resumes the
  caller, and the call that forgets the suspension.
\<close>

section \<open>A memory request and its answer\<close>

text \<open>The queue of requests and the requests of all processes.\<close>

definition same_req :: "kstate \<Rightarrow> kstate \<Rightarrow> bool" where
  "same_req s t \<longleftrightarrow> vmrequest t = vmrequest s \<and> (\<forall>x. p_vmrequest (procs t x) = p_vmrequest (procs s x))"

lemma same_req_refl [simp]: "same_req s s"
  by (simp add: same_req_def)

lemma same_req_trans: "same_req s t \<Longrightarrow> same_req t u \<Longrightarrow> same_req s u"
  by (simp add: same_req_def)

lemma same_req_writes:
  "same_req s (upd_msgs p f s)" "same_req s (set_misc p m s)" "same_req s (IPC_STATUS_ADD_CALL p m s)"
  "same_req s (upd_priv p g s)" "same_req s (with_flags p h s)" "same_req s (ready_flags p s)" "same_req s (BuildNotifyMessage a b s)"
  by (simp_all add: same_req_def upd_msgs_def set_misc_def IPC_STATUS_ADD_CALL_def IPC_STATUS_ADD_def upd_priv_def with_flags_def
      ready_flags_def upd_proc_def BuildNotifyMessage_def Let_def)

lemma same_req_sched: "sched_only s t \<Longrightarrow> same_req s t"
proof -
  assume so: "sched_only s t"
  then have e: "s = t\<lparr>procs := procs s, run_q_head := run_q_head s, run_q_tail := run_q_tail s, tsc_n := tsc_n s\<rparr>"
    by (simp add: sched_only_def)
  have p: "procs s x = (procs t x)\<lparr>p_sched := p_sched (procs s x)\<rparr>" for x using so by (simp add: sched_only_def)
  show ?thesis using arg_cong [OF e, of vmrequest] arg_cong [OF p, of p_vmrequest] by (simp add: same_req_def)
qed

lemma RTS_UNSET_req:
  assumes "ready_inv s" "cur_ok s" "isokprocn p" "RTS_UNSET p f s = Inr t"
  shows "same_req s t"
proof -
  let ?f = "clrf (p_rts_flags (procs s p)) f" let ?w = "\<not> proc_is_runnable (procs s p) \<and> ?f = 0"
  have so: "sched_only (if ?w then ready_flags p (with_flags p ?f s) else with_flags p ?f s) t"
    using RTS_UNSET_ok [of "ready_list s" s p f] assms by (auto simp: ready_inv_def)
  have "same_req s (if ?w then ready_flags p (with_flags p ?f s) else with_flags p ?f s)"
    using same_req_trans [OF same_req_writes(5,6)] same_req_writes(5) by simp
  then show ?thesis using same_req_trans same_req_sched [OF so] by blast
qed

lemma RTS_SET_req:
  assumes "ready_inv s" "isokprocn p" "f \<noteq> 0" "RTS_SET p f s = Inr t"
  shows "same_req s t"
proof -
  have so: "sched_only (with_flags p (setf (p_rts_flags (procs s p)) f) s) t"
    using RTS_SET_ok [of "ready_list s" s p f] assms by (auto simp: ready_inv_def)
  then show ?thesis by (rule same_req_trans [OF same_req_writes(5) same_req_sched])
qed

text \<open>A notification: the receiver gets it or a bit remembers it.\<close>

lemma notify_frame:
  assumes inv: "ready_inv s" "cur_ok s" and d: "isokendpt e s = Some d" and nd: "\<not> misc_is s d MF_DELIVERMSG"
  obtains t where "mini_notify c e s = Inr (OK, t)" "ready_inv t" "cur_ok t" "same_req s t"
    "\<And>x. x \<noteq> d \<Longrightarrow> p_rts_flags (procs t x) = p_rts_flags (procs s x) \<or>
       x = proc_ptr s \<and> p_rts_flags (procs t x) = setf (p_rts_flags (procs s x)) RTS_PREEMPTED"
    "\<And>x. p_endpoint (procs t x) = p_endpoint (procs s x)" "\<And>x. x \<noteq> d \<Longrightarrow> p_misc_flags (procs t x) = p_misc_flags (procs s x)"
    "p_rts_flags (procs t d) = p_rts_flags (procs s d) \<or> p_rts_flags (procs t d) = clrf (p_rts_flags (procs s d)) RTS_RECEIVING"
    "proc_ptr t = proc_ptr s"
proof (cases "WILLRECEIVE (procs s d) (p_endpoint (procs s c)) \<and> \<not> misc_is s d MF_REPLY_PEND")
  case False
  let ?t = "upd_priv d (\<lambda>v. v\<lparr>s_notify_pending := (s_notify_pending v)(s_id (priv_of s c) := True)\<rparr>) s"
  have "mini_notify c e s = Inr (OK, ?t)" using d False by (auto simp: mini_notify_def)
  moreover have ss: "same_sched s ?t" by (rule same_sched_priv) simp
  ultimately show ?thesis using that [of ?t] inv same_sched_view [OF ss] same_req_writes(4) by (auto simp: upd_priv_def)
next
  case True
  define s1 where "s1 = BuildNotifyMessage (p_nr (procs s c)) d s"
  define s2 where "s2 = upd_msgs d (\<lambda>m. m\<lparr>p_delivermsg := (p_delivermsg m)\<lparr>m_source := p_endpoint (procs s1 c)\<rparr>\<rparr>) s1"
  define s3 where "s3 = IPC_STATUS_ADD_CALL d NOTIFY (set_misc d MF_DELIVERMSG s2)"
  have p: "isokprocn d" using d by (auto simp: isokendpt_def Let_def split: if_splits)
  have ss: "same_sched s s3"
  proof -
    have "same_sched s s1" unfolding s1_def BuildNotifyMessage_def Let_def
      by (auto intro!: same_sched_trans [OF same_sched_trans [OF same_sched_writes(1) same_sched_writes(1)] same_sched_priv] same_sched_writes(1))
    then show ?thesis unfolding s3_def s2_def IPC_STATUS_ADD_CALL_def
      by (rule same_sched_trans [OF _ same_sched_trans [OF same_sched_writes(1) same_sched_trans [OF same_sched_writes(2,4)]]])
  qed
  have rq: "same_req s s3" unfolding s3_def s2_def s1_def
    by (rule same_req_trans [OF same_req_writes(7) same_req_trans [OF same_req_writes(1) same_req_trans [OF same_req_writes(2,3)]]])
  note v = same_sched_view [OF ss]
  obtain t where t: "RTS_UNSET d RTS_RECEIVING s3 = Inr t" "ready_inv t" "cur_ok t"
    "\<And>x. p_msgs (procs t x) = p_msgs (procs s3 x) \<and> p_misc_flags (procs t x) = p_misc_flags (procs s3 x) \<and>
       p_reg (procs t x) = p_reg (procs s3 x) \<and> p_endpoint (procs t x) = p_endpoint (procs s3 x) \<and> p_nr (procs t x) = p_nr (procs s3 x)"
    "p_rts_flags (procs t d) = clrf (p_rts_flags (procs s3 d)) RTS_RECEIVING" "same_ids s3 t"
    "\<And>x. x \<noteq> d \<Longrightarrow> p_rts_flags (procs t x) = p_rts_flags (procs s3 x) \<or>
       x = proc_ptr s3 \<and> p_rts_flags (procs t x) = setf (p_rts_flags (procs s3 x)) RTS_PREEMPTED"
    using RTS_UNSET_frame [of s3 d RTS_RECEIVING] inv p v by metis
  have "mini_notify c e s = Inr (OK, t)" using d True nd t(1)
    by (simp add: mini_notify_def Let_def s3_def s2_def s1_def kassert_def)
  moreover have "same_req s t" using same_req_trans [OF rq RTS_UNSET_req [OF _ _ p t(1)]] inv v by simp
  moreover have "p_endpoint (procs s3 x) = p_endpoint (procs s x)" "x \<noteq> d \<Longrightarrow> p_misc_flags (procs s3 x) = p_misc_flags (procs s x)" for x
    by (simp_all add: s3_def s2_def s1_def IPC_STATUS_ADD_CALL_def IPC_STATUS_ADD_def set_misc_def upd_msgs_def BuildNotifyMessage_def Let_def upd_priv_def)
  ultimately show ?thesis using that [of t] t v by (simp add: same_ids_def)
qed

text \<open>The flags tested here are single bits.\<close>

lemma one_bit: "(x :: u32) AND push_bit n 1 = push_bit n 1 \<longleftrightarrow> has x (push_bit n 1)" if "n < 32"
proof -
  have "bit x n \<longleftrightarrow> x AND push_bit n 1 = push_bit n 1"
  proof
    assume "bit x n"
    then show "x AND push_bit n 1 = push_bit n 1" by (intro bit_word_eqI) (auto simp: bit_simps)
  next
    assume "x AND push_bit n 1 = push_bit n 1"
    then have "bit (x AND push_bit n 1) n = bit (push_bit n 1 :: u32) n" by simp
    then show "bit x n" using that by (simp add: bit_simps)
  qed
  moreover have "bit x n \<longleftrightarrow> x AND push_bit n 1 \<noteq> 0"
  proof
    assume "bit x n"
    then have "bit (x AND push_bit n 1) n" using that by (simp add: bit_simps)
    then show "x AND push_bit n 1 \<noteq> 0" by auto
  next
    assume "x AND push_bit n 1 \<noteq> 0"
    then obtain k where "bit (x AND push_bit n 1) k" by (metis bit_eqI bit_0_eq bot_apply bot_bool_def)
    then show "bit x n" by (auto simp: bit_simps)
  qed
  ultimately show ?thesis by (simp add: has_def)
qed

lemma isset_has:
  "RTS_ISSET q RTS_SLOT_FREE = has (p_rts_flags q) RTS_SLOT_FREE" "RTS_ISSET q RTS_VMREQUEST = has (p_rts_flags q) RTS_VMREQUEST"
  "RTS_ISSET q RTS_PAGEFAULT = has (p_rts_flags q) RTS_PAGEFAULT" "RTS_ISSET q RTS_VMINHIBIT = has (p_rts_flags q) RTS_VMINHIBIT"
  using one_bit [of 0 "p_rts_flags q"] one_bit [of 11 "p_rts_flags q"] one_bit [of 10 "p_rts_flags q"] one_bit [of 9 "p_rts_flags q"]
  by (simp_all add: RTS_ISSET_def push_bit_eq_mult)

definition live :: "kstate \<Rightarrow> int \<Rightarrow> bool" where
  "live s x \<longleftrightarrow> isokprocn x \<and> ENDPOINT_P (p_endpoint (procs s x)) = x \<and> \<not> RTS_ISSET (procs s x) RTS_SLOT_FREE"

lemma live_isokendpt: "live s x \<Longrightarrow> isokendpt (p_endpoint (procs s x)) s = Some x"
  by (auto simp: live_def isokendpt_def isemptyn_def isset_has has_def Let_def)

lemma live_cong:
  "(\<And>x. p_endpoint (procs t x) = p_endpoint (procs s x)) \<Longrightarrow> (\<And>x. RTS_ISSET (procs t x) RTS_SLOT_FREE = RTS_ISSET (procs s x) RTS_SLOT_FREE) \<Longrightarrow>
   live t x = live s x"
  by (simp add: live_def)

lemma upd_vmreq_sel:
  "same_sched s (upd_vmreq p f s)" "p_endpoint (procs (upd_vmreq p f s) x) = p_endpoint (procs s x)"
  "p_misc_flags (procs (upd_vmreq p f s) x) = p_misc_flags (procs s x)" "vmrequest (upd_vmreq p f s) = vmrequest s"
  "p_vmrequest (procs (upd_vmreq p f s) x) = (if x = p then f (p_vmrequest (procs s p)) else p_vmrequest (procs s x))"
  by (simp_all add: upd_vmreq_def same_sched_def priv_of_def upd_proc_def)

lemma clrf_setf: "clrf (setf x m) m = clrf x m"
  by (rule bit_word_eqI) (auto simp: clrf_def setf_def bit_simps)

lemma clrf_setf_other: "k AND m = 0 \<Longrightarrow> clrf (setf x k) m = setf (clrf x m) k"
proof -
  assume "k AND m = 0"
  then have "\<not> (bit k n \<and> bit m n)" for n by (metis bit_0_eq bit_and_iff bot_apply bot_bool_def)
  then show ?thesis by (intro bit_word_eqI) (auto simp: clrf_def setf_def bit_simps)
qed

lemma vm_suspend_ok:
  assumes inv: "ready_inv s" "cur_ok s" and c: "live s c" "\<not> RTS_ISSET (procs s c) RTS_VMREQUEST" "c \<noteq> VM_PROC_NR"
    and tg: "\<not> RTS_ISSET (procs s target) RTS_VMREQUEST"
    and vm: "live s VM_PROC_NR" "p_endpoint (procs s VM_PROC_NR) = VM_PROC_NR" "\<not> misc_is s VM_PROC_NR MF_DELIVERMSG"
  obtains t where "vm_suspend c target start len ty s = Inr t" "ready_inv t" "cur_ok t"
    "p_rts_flags (procs t c) = setf (p_rts_flags (procs s c)) RTS_VMREQUEST \<or>
     p_rts_flags (procs t c) = setf (setf (p_rts_flags (procs s c)) RTS_VMREQUEST) RTS_PREEMPTED"
    "\<And>x. p_endpoint (procs t x) = p_endpoint (procs s x)"
    "\<And>x. RTS_ISSET (procs t x) RTS_SLOT_FREE = RTS_ISSET (procs s x) RTS_SLOT_FREE"
    "vmrequest t = Some c" "p_misc_flags (procs t c) = p_misc_flags (procs s c)"
    "p_vmrequest (procs t c) = (p_vmrequest (procs s c))\<lparr>req_type := VMPTYPE_CHECK, vmr_target := p_endpoint (procs s target),
       check_start := start, check_length := len, check_writeflag := 1, vmr_type := ty, nextrequestor := vmrequest s\<rparr>"
    "\<And>x. x \<noteq> c \<Longrightarrow> p_vmrequest (procs t x) = p_vmrequest (procs s x)"
proof -
  have cp: "isokprocn c" using c(1) by (simp add: live_def)
  have ne: "p_endpoint (procs s c) \<noteq> VM_PROC_NR" using c(1,3) vm(1,2) by (auto simp: live_def)
  obtain s1 where s1: "RTS_SET c RTS_VMREQUEST s = Inr s1" "ready_inv s1" "cur_ok s1"
    "\<And>x. p_misc_flags (procs s1 x) = p_misc_flags (procs s x) \<and> p_endpoint (procs s1 x) = p_endpoint (procs s x)"
    "\<And>x. p_rts_flags (procs s1 x) = (if x = c then setf (p_rts_flags (procs s c)) RTS_VMREQUEST else p_rts_flags (procs s x))"
    by (rule RTS_SET_frame [OF inv cp, of RTS_VMREQUEST]) auto
  have rq1: "same_req s s1" using RTS_SET_req [OF inv(1) cp _ s1(1)] by simp
  define F :: "vm_request \<Rightarrow> vm_request" where "F = (\<lambda>r. r\<lparr>req_type := VMPTYPE_CHECK, vmr_target := p_endpoint (procs s target),
       check_start := start, check_length := len, check_writeflag := 1, vmr_type := ty, nextrequestor := vmrequest s\<rparr>)"
  define s2 where "s2 = upd_vmreq c F s1"
  note u = upd_vmreq_sel [where s = s1 and p = c and f = F, folded s2_def]
  note v2 = same_sched_view [OF u(1)]
  have i2: "ready_inv s2" "cur_ok s2" using s1 v2 by simp_all
  have fl: "p_rts_flags (procs s2 x) = (if x = c then setf (p_rts_flags (procs s c)) RTS_VMREQUEST else p_rts_flags (procs s x))" for x
    using s1(5) v2(7) by simp
  have free2: "RTS_ISSET (procs s2 x) RTS_SLOT_FREE = RTS_ISSET (procs s x) RTS_SLOT_FREE" for x
    by (simp add: isset_has fl has_setf_other)
  have l2: "live s2 VM_PROC_NR" using vm(1) live_cong [of s2 s] free2 s1(4) u(2) by simp
  have run: "vm_suspend c target start len ty s = bnd (if vmrequest s = None then send_or_panic VM_PROC_NR SIGKMEM s2 else Inr s2) (\<lambda>s. Inr (s\<lparr>vmrequest := Some c\<rparr>))"
    using c(2) tg s1(1,4) ne rq1 by (simp add: vm_suspend_def kassert_def Let_def s2_def F_def same_req_def upd_vmreq_sel(4))
  obtain s3 where s3: "(if vmrequest s = None then send_or_panic VM_PROC_NR SIGKMEM s2 else Inr s2) = Inr s3" "ready_inv s3" "cur_ok s3" "same_req s2 s3"
    "\<And>x. x \<noteq> VM_PROC_NR \<Longrightarrow> p_rts_flags (procs s3 x) = p_rts_flags (procs s2 x) \<or> p_rts_flags (procs s3 x) = setf (p_rts_flags (procs s2 x)) RTS_PREEMPTED"
    "\<And>x. p_endpoint (procs s3 x) = p_endpoint (procs s2 x)" "\<And>x. x \<noteq> VM_PROC_NR \<Longrightarrow> p_misc_flags (procs s3 x) = p_misc_flags (procs s2 x)"
    "p_rts_flags (procs s3 VM_PROC_NR) = p_rts_flags (procs s2 VM_PROC_NR) \<or> p_rts_flags (procs s3 VM_PROC_NR) = clrf (p_rts_flags (procs s2 VM_PROC_NR)) RTS_RECEIVING"
  proof (cases "vmrequest s = None")
    case False
    then show ?thesis using that [of s2] i2 by auto
  next
    case True
    let ?s = "upd_priv VM_PROC_NR (\<lambda>v. v\<lparr>s_sig_pending := sigaddset (s_sig_pending v) SIGKMEM\<rparr>) s2"
    have ss: "same_sched s2 ?s" by (rule same_sched_priv) simp
    have i3: "ready_inv ?s" "cur_ok ?s" using i2 same_sched_view [OF ss] by simp_all
    have pe: "p_endpoint (procs s2 VM_PROC_NR) = VM_PROC_NR" using vm(2) s1(4) u(2) by simp
    have ok: "isokendpt VM_PROC_NR s2 = Some VM_PROC_NR" using live_isokendpt [OF l2] pe by simp
    then have ok3: "isokendpt VM_PROC_NR ?s = Some VM_PROC_NR" by (simp add: isokendpt_def isemptyn_def upd_priv_def Let_def)
    have nd: "\<not> misc_is ?s VM_PROC_NR MF_DELIVERMSG" using vm(3) s1(4) u(3) by (simp add: misc_is_def upd_priv_def)
    obtain t where t: "mini_notify SYSTEM VM_PROC_NR ?s = Inr (OK, t)" "ready_inv t" "cur_ok t" "same_req ?s t"
      "\<And>x. x \<noteq> VM_PROC_NR \<Longrightarrow> p_rts_flags (procs t x) = p_rts_flags (procs ?s x) \<or>
         x = proc_ptr ?s \<and> p_rts_flags (procs t x) = setf (p_rts_flags (procs ?s x)) RTS_PREEMPTED"
      "\<And>x. p_endpoint (procs t x) = p_endpoint (procs ?s x)" "\<And>x. x \<noteq> VM_PROC_NR \<Longrightarrow> p_misc_flags (procs t x) = p_misc_flags (procs ?s x)"
      "p_rts_flags (procs t VM_PROC_NR) = p_rts_flags (procs ?s VM_PROC_NR) \<or> p_rts_flags (procs t VM_PROC_NR) = clrf (p_rts_flags (procs ?s VM_PROC_NR)) RTS_RECEIVING"
      by (rule notify_frame [OF i3 ok3 nd, of SYSTEM]) blast
    have run: "send_or_panic VM_PROC_NR SIGKMEM s2 = Inr t" using ok pe t(1) by (simp add: send_or_panic_def send_sig_def)
    have pr: "procs ?s = procs s2" by (simp add: upd_priv_def)
    show ?thesis
    proof (rule that [of t])
      show "(if vmrequest s = None then send_or_panic VM_PROC_NR SIGKMEM s2 else Inr s2) = Inr t" using True run by simp
      show "same_req s2 t" by (rule same_req_trans [OF same_req_writes(4) t(4)])
      show "p_rts_flags (procs t x) = p_rts_flags (procs s2 x) \<or> p_rts_flags (procs t x) = setf (p_rts_flags (procs s2 x)) RTS_PREEMPTED"
        if "x \<noteq> VM_PROC_NR" for x using t(5) [OF that] unfolding pr by blast
    qed (use t(2,3,6-8) in \<open>simp_all only: pr\<close>)
  qed
  let ?t = "s3\<lparr>vmrequest := Some c\<rparr>"
  have ss: "same_sched s3 ?t" by (simp add: same_sched_def priv_of_def)
  note vt = same_sched_view [OF ss]
  have c3: "p_rts_flags (procs s3 c) = p_rts_flags (procs s2 c) \<or> p_rts_flags (procs s3 c) = setf (p_rts_flags (procs s2 c)) RTS_PREEMPTED"
    using s3(5) c(3) by simp
  have free: "RTS_ISSET (procs s3 x) RTS_SLOT_FREE = RTS_ISSET (procs s2 x) RTS_SLOT_FREE" for x
    using s3(5) [of x] s3(8) by (cases "x = VM_PROC_NR") (auto simp: isset_has has_setf_other has_clrf_other)
  have req: "p_vmrequest (procs s3 x) = (if x = c then F (p_vmrequest (procs s c)) else p_vmrequest (procs s x))" for x
    using s3(4) u(5) rq1 by (simp add: same_req_def)
  show thesis
    by (rule that [of ?t])
      (use run s3 vt c3 fl free free2 req u s1(4) c(3) in \<open>auto simp: F_def\<close>)
qed

text \<open>The answer of VM lets the caller go on and tells it to execute its call again.\<close>

lemma memreq_reply_ok:
  assumes inv: "ready_inv u" "cur_ok u" "isokprocn c" and st: "RTS_ISSET (procs u c) RTS_VMREQUEST"
    and tg: "isokendpt (vmr_target (p_vmrequest (procs u c))) u = Some target" and ty: "vmr_type (p_vmrequest (procs u c)) = VMSTYPE_KERNELCALL"
    and vr: "vmresult (p_vmrequest (procs u c)) = VMSUSPEND" "m1_i3 r \<noteq> VMSUSPEND"
  obtains v where "memreq_reply c r u = Inr (OK, r, v)" "ready_inv v" "p_rts_flags (procs v c) = clrf (p_rts_flags (procs u c)) RTS_VMREQUEST"
    "misc_is v c MF_KCALL_RESUME" "vmresult (p_vmrequest (procs v c)) = m1_i3 r"
proof -
  define w where "w = set_misc c MF_KCALL_RESUME (upd_vmreq c (\<lambda>q. q\<lparr>vmresult := m1_i3 r\<rparr>) u)"
  have ws: "same_sched u w" unfolding w_def by (rule same_sched_trans [OF upd_vmreq_sel(1) same_sched_writes(2)])
  note wv = same_sched_view [OF ws]
  have wi: "ready_inv w" "cur_ok w" using wv inv by simp_all
  obtain v where v: "RTS_UNSET c RTS_VMREQUEST w = Inr v" "ready_inv v" "\<And>x. p_misc_flags (procs v x) = p_misc_flags (procs w x)"
    "p_rts_flags (procs v c) = clrf (p_rts_flags (procs w c)) RTS_VMREQUEST"
    by (rule RTS_UNSET_frame [OF wi inv(3), of RTS_VMREQUEST]) blast
  have wf: "vmresult (p_vmrequest (procs w c)) = m1_i3 r" "misc_is w c MF_KCALL_RESUME"
    by (simp_all add: w_def set_misc_def upd_vmreq_def misc_is_def has_setf_same)
  have "memreq_reply c r u = bnd (RTS_UNSET c RTS_VMREQUEST w) (\<lambda>s. Inr (OK, r, s))"
    using assms by (simp add: memreq_reply_def okendpt_def kassert_def Let_def w_def upd_vmreq_sel)
  then have "memreq_reply c r u = Inr (OK, r, v)" using v(1) by simp
  then show thesis
    using that [of v] v wf wv(7) RTS_UNSET_req [OF wi inv(3) v(1)] by (simp add: misc_is_def same_req_def)
qed

text \<open>C15. A kernel call that needs memory of another process is suspended, VM is asked and the call goes on: the
  caller waits at the head of the queue with the range that is needed, VM fetches exactly
  this request (the queue is then as before), and its answer makes the caller as runnable
  as it was (preempted at most), marked so that the call is executed again and finds the answer. Caller (not VM itself), target and VM are live, neither caller nor target
  waits for VM already, and VM has no message on its way to it.
\<close>

theorem memory_request_answered:
  assumes inv: "ready_inv s" "cur_ok s" and c: "live s c" "\<not> RTS_ISSET (procs s c) RTS_VMREQUEST" "c \<noteq> VM_PROC_NR"
    and tg: "live s target" "\<not> RTS_ISSET (procs s target) RTS_VMREQUEST"
    and vm: "live s VM_PROC_NR" "p_endpoint (procs s VM_PROC_NR) = VM_PROC_NR" "\<not> misc_is s VM_PROC_NR MF_DELIVERMSG"
    and g: "m1_i1 g = SELF" "m1_i2 g = VMCTL_MEMREQ_GET"
    and r: "m1_i1 r = p_endpoint (procs s c)" "p_endpoint (procs s c) \<noteq> SELF" "m1_i2 r = VMCTL_MEMREQ_REPLY" "m1_i3 r \<noteq> VMSUSPEND"
  shows "\<exists>t u v a. vm_suspend c target start len VMSTYPE_KERNELCALL s = Inr t \<and>
    RTS_ISSET (procs t c) RTS_VMREQUEST \<and> vmrequest t = Some c \<and>
    do_vmctl pm pr VM_PROC_NR g t = Inr (VMPTYPE_CHECK, a, u) \<and> vmrequest u = vmrequest s \<and>
    m2_i1 a = p_endpoint (procs s target) \<and> of_int (m2_i2 a) = start \<and> of_int (m2_i3 a) = len \<and> m2_p1 a = of_int (p_endpoint (procs s c)) \<and>
    do_vmctl pm pr VM_PROC_NR r u = Inr (OK, r, v) \<and> ready_inv v \<and>
    (p_rts_flags (procs v c) = p_rts_flags (procs s c) \<or> p_rts_flags (procs v c) = setf (p_rts_flags (procs s c)) RTS_PREEMPTED) \<and>
    misc_is v c MF_KCALL_RESUME \<and> check_resumed_caller (Some c) v = Inr (m1_i3 r)"
proof -
  obtain t where t: "vm_suspend c target start len VMSTYPE_KERNELCALL s = Inr t" "ready_inv t" "cur_ok t"
    "p_rts_flags (procs t c) = setf (p_rts_flags (procs s c)) RTS_VMREQUEST \<or>
     p_rts_flags (procs t c) = setf (setf (p_rts_flags (procs s c)) RTS_VMREQUEST) RTS_PREEMPTED"
    "\<And>x. p_endpoint (procs t x) = p_endpoint (procs s x)"
    "\<And>x. RTS_ISSET (procs t x) RTS_SLOT_FREE = RTS_ISSET (procs s x) RTS_SLOT_FREE"
    "vmrequest t = Some c"
    "p_vmrequest (procs t c) = (p_vmrequest (procs s c))\<lparr>req_type := VMPTYPE_CHECK, vmr_target := p_endpoint (procs s target),
       check_start := start, check_length := len, check_writeflag := 1, vmr_type := VMSTYPE_KERNELCALL, nextrequestor := vmrequest s\<rparr>"
    by (rule vm_suspend_ok [OF inv c tg(2) vm, of start len VMSTYPE_KERNELCALL]) blast
  have lv: "live t x = live s x" for x using live_cong [OF t(5,6)] .
  have set: "RTS_ISSET (procs t c) RTS_VMREQUEST" using t(4) by (auto simp: isset_has has_setf_same has_setf_other)
  define u where "u = upd_vmreq c (\<lambda>r. r\<lparr>vmresult := VMSUSPEND\<rparr>) t\<lparr>vmrequest := vmrequest s\<rparr>"
  define a where "a = g\<lparr>m2_i1 := p_endpoint (procs s target), m2_i2 := sint start, m2_i3 := sint len, m2_s1 := 1, m2_p1 := of_int (p_endpoint (procs s c))\<rparr>"
  have vt: "isokendpt VM_PROC_NR t = Some VM_PROC_NR" "isokendpt (p_endpoint (procs s target)) t = Some target"
    "isokendpt (p_endpoint (procs s c)) t = Some c"
    using live_isokendpt [of t] vm(1,2) tg(1) c(1) t(5) lv by metis+
  have get: "do_vmctl pm pr VM_PROC_NR g t = Inr (VMPTYPE_CHECK, a, u)"
    using g vt t(5,7,8) vm(2) set by (simp add: do_vmctl_def memreq_get_def okendpt_def kassert_def Let_def a_def u_def)
  have us: "same_sched t u" by (simp add: u_def upd_vmreq_def same_sched_def priv_of_def upd_proc_def)
  note uv = same_sched_view [OF us]
  have up: "p_endpoint (procs u x) = p_endpoint (procs t x)" "isokendpt e u = isokendpt e t"
    "p_vmrequest (procs u c) = (p_vmrequest (procs t c))\<lparr>vmresult := VMSUSPEND\<rparr>" for x e
    by (simp_all add: u_def upd_vmreq_def isokendpt_def isemptyn_def Let_def)
  have cp: "isokprocn c" using c(1) by (simp add: live_def)
  have ui: "ready_inv u" "cur_ok u" "RTS_ISSET (procs u c) RTS_VMREQUEST" using uv t(2,3) set by (simp_all add: isset_has)
  obtain v where v: "memreq_reply c r u = Inr (OK, r, v)" "ready_inv v" "p_rts_flags (procs v c) = clrf (p_rts_flags (procs u c)) RTS_VMREQUEST"
    "misc_is v c MF_KCALL_RESUME" "vmresult (p_vmrequest (procs v c)) = m1_i3 r"
    by (rule memreq_reply_ok [OF ui(1,2) cp ui(3), of target r]) (use r(4) vt(2) up t(8) in simp_all)
  have rep: "do_vmctl pm pr VM_PROC_NR r u = Inr (OK, r, v)" using r vt up v(1) by (simp add: do_vmctl_def Let_def)
  have fl: "p_rts_flags (procs v c) = p_rts_flags (procs s c) \<or> p_rts_flags (procs v c) = setf (p_rts_flags (procs s c)) RTS_PREEMPTED"
  proof -
    have "clrf (setf x RTS_VMREQUEST) RTS_VMREQUEST = x" "clrf (setf (setf x RTS_VMREQUEST) RTS_PREEMPTED) RTS_VMREQUEST = setf x RTS_PREEMPTED"
      if "\<not> has x RTS_VMREQUEST" for x :: u32
      using that clrf_idem [of x RTS_VMREQUEST] by (simp_all add: clrf_setf clrf_setf_other)
    then show ?thesis using t(4) c(2) v(3) uv(7) by (auto simp: isset_has)
  qed
  have "of_int (sint start) = start" "of_int (sint len) = len" by simp_all
  then show ?thesis using t(1,7) set get rep v(2,4,5) fl r(4)
    by (intro exI [of _ t] exI [of _ u] exI [of _ v] exI [of _ a])
      (simp add: a_def u_def check_resumed_caller_def kassert_def upd_vmreq_sel)
qed

theorem memory_request_answered_witness:
  "\<exists>t u v a. vm_suspend 1 2 0x4000 100 VMSTYPE_KERNELCALL fault_sample = Inr t \<and>
     do_vmctl (\<lambda>_ _. Inl Diverges) (\<lambda>_ _. Inl Diverges) VM_PROC_NR (zero_msg\<lparr>m1_i1 := SELF, m1_i2 := VMCTL_MEMREQ_GET\<rparr>) t = Inr (VMPTYPE_CHECK, a, u) \<and>
     m2_i1 a = 2 \<and>
     do_vmctl (\<lambda>_ _. Inl Diverges) (\<lambda>_ _. Inl Diverges) VM_PROC_NR (zero_msg\<lparr>m1_i1 := 1, m1_i2 := VMCTL_MEMREQ_REPLY\<rparr>) u =
       Inr (OK, zero_msg\<lparr>m1_i1 := 1, m1_i2 := VMCTL_MEMREQ_REPLY\<rparr>, v) \<and> check_resumed_caller (Some 1) v = Inr OK"
proof -
  let ?f = "with_flags VM_PROC_NR RTS_RECEIVING queue_sample"
  have i: "ready_inv ?f" by (rule ready_inv_flags) (simp_all add: queue_sample_inv)
  have ss: "same_sched ?f fault_sample" by (simp add: same_sched_def fault_sample_def priv_of_def with_flags_def upd_proc_def)
  have inv: "ready_inv fault_sample" "cur_ok fault_sample"
    using i same_sched_view(3,4) [OF ss] queue_sample_inv(3) by (auto simp: cur_ok_def)
  have f: "p_rts_flags (procs fault_sample 1) = 0" "p_rts_flags (procs fault_sample 2) = 0" "p_endpoint (procs fault_sample x) = x"
    "p_rts_flags (procs fault_sample VM_PROC_NR) = RTS_RECEIVING" "\<not> misc_is fault_sample VM_PROC_NR MF_DELIVERMSG" for x
    by (simp_all add: fault_sample_def misc_is_def has_def)
  have "live fault_sample 1" "live fault_sample 2" "live fault_sample VM_PROC_NR"
    by (simp_all add: live_def f isset_has has_def isokprocn_def ENDPOINT_P_def c_rem_def)
  moreover have "m1_i3 zero_msg = 0" by (simp add: zero_msg_def)
  ultimately show ?thesis
    using memory_request_answered [OF inv, of 1 2 "zero_msg\<lparr>m1_i1 := SELF, m1_i2 := VMCTL_MEMREQ_GET\<rparr>" "zero_msg\<lparr>m1_i1 := 1, m1_i2 := VMCTL_MEMREQ_REPLY\<rparr>"
        "0x4000" 100 "\<lambda>_ _. Inl Diverges" "\<lambda>_ _. Inl Diverges"] f
    by (simp add: isset_has) metis
qed

text \<open>C32. \<open>do_memset\<close> drops the result of \<open>vm_memset\<close>: when the memory of the target has to be
  provided by VM first, the call is answered with \<open>OK\<close> as if it were done and its message is not saved, so that
  executing it again after the answer of VM fails the assertion on the saved message.
\<close>

theorem memset_suspension_lost:
  assumes s: "vm_memset (Some c) (m2_i1 m) (m2_p1 m) (m2_l2 m) (m2_l1 m) s = Inr (VMSUSPEND, t)"
    and put: "\<And>x a u. \<exists>v. put x a u = Some v \<and> same_req u v"
  shows "\<exists>u. do_memset c m s = Inr (OK, t) \<and> kernel_call_finish put c m OK t = Inr u \<and>
    (\<forall>v. p_vmrequest (procs v c) = (p_vmrequest (procs u c))\<lparr>vmresult := r\<rparr> \<and> p_endpoint (procs v c) \<noteq> NONE \<and>
       \<not> RTS_ISSET (procs v c) RTS_SLOT_FREE \<and> \<not> RTS_ISSET (procs v c) RTS_VMREQUEST \<longrightarrow>
       kernel_call_resume put call_vec c v = Inl (AssertFail ''reqmsg.m_source == p_endpoint''))"
proof -
  let ?t = "upd_vmreq c (\<lambda>r. r\<lparr>reqmsg := (reqmsg r)\<lparr>m_source := NONE\<rparr>\<rparr>) t"
  obtain u where u: "put (m\<lparr>m_source := SYSTEM, m_type := OK\<rparr>) (p_delivermsg_vir (p_msgs (procs ?t c))) ?t = Some u" "same_req ?t u"
    using put by blast
  have "kernel_call_finish put c m OK t = Inr u"
    using u(1) by (simp add: kernel_call_finish_def reply_msg_def Let_def)
  moreover have "m_source (reqmsg (p_vmrequest (procs u c))) = NONE" using u(2) by (simp add: same_req_def upd_vmreq_sel)
  ultimately show ?thesis using s by (auto simp: do_memset_def kernel_call_resume_def kassert_def)
qed

theorem memset_suspension_lost_witness:
  "\<exists>t u. do_memset 1 (zero_msg\<lparr>m2_i1 := 2, m2_p1 := 0x4000, m2_l1 := 4\<rparr>) fault_sample = Inr (OK, t) \<and> RTS_ISSET (procs t 1) RTS_VMREQUEST \<and>
     kernel_call_finish (\<lambda>_ _. Some) 1 (zero_msg\<lparr>m2_i1 := 2, m2_p1 := 0x4000, m2_l1 := 4\<rparr>) OK t = Inr u"
proof -
  let ?m = "zero_msg\<lparr>m2_i1 := 2, m2_p1 := 0x4000, m2_l1 := 4\<rparr>"
  let ?f = "with_flags VM_PROC_NR RTS_RECEIVING queue_sample"
  have i: "ready_inv ?f" by (rule ready_inv_flags) (simp_all add: queue_sample_inv)
  have ss: "same_sched ?f fault_sample" by (simp add: same_sched_def fault_sample_def priv_of_def with_flags_def upd_proc_def)
  have inv: "ready_inv fault_sample" "cur_ok fault_sample"
    using i same_sched_view(3,4) [OF ss] queue_sample_inv(3) by (auto simp: cur_ok_def)
  have f: "p_rts_flags (procs fault_sample 1) = 0" "p_rts_flags (procs fault_sample 2) = 0" "p_endpoint (procs fault_sample x) = x"
    "p_rts_flags (procs fault_sample VM_PROC_NR) = RTS_RECEIVING" "\<not> misc_is fault_sample x mf" for x mf
    by (simp_all add: fault_sample_def misc_is_def has_def)
  have l: "live fault_sample 1" "live fault_sample 2" "live fault_sample VM_PROC_NR"
    by (simp_all add: live_def f isset_has has_def isokprocn_def ENDPOINT_P_def c_rem_def)
  obtain t where t: "vm_suspend 1 2 0x4000 4 VMSTYPE_KERNELCALL fault_sample = Inr t"
    "p_rts_flags (procs t 1) = setf (p_rts_flags (procs fault_sample 1)) RTS_VMREQUEST \<or>
     p_rts_flags (procs t 1) = setf (setf (p_rts_flags (procs fault_sample 1)) RTS_VMREQUEST) RTS_PREEMPTED"
    by (rule vm_suspend_ok [OF inv l(1) _ _ _ l(3), of 2 "0x4000" 4 VMSTYPE_KERNELCALL]) (simp_all add: f isset_has)
  have m: "mem fault_sample = (\<lambda>_. 0)" "cr3 fault_sample = 0" "p_cr3 (procs fault_sample 2) = 0" "ptproc fault_sample = 0" "freepdes fault_sample = (\<lambda>_. 0)"
    by (simp_all add: fault_sample_def queue_sample_def bss_state_def zero_proc_def)
  have w: "access_wr (Some 2) fault_sample v = None" for v
    by (simp add: access_wr_def page_walk_def pde_of_def mem_get32_def root_of_def iskernelp_def m Let_def)
  have sc: "set_chunks (Some 2) 0x4000 0 4 fault_sample = (True, fault_sample)"
    by (subst set_chunks.simps) (simp add: createpde_def Let_def m iskernelp_def min_def set_units_def stos_def w upt_rec)
  have "isokendpt 2 fault_sample = Some 2" using live_isokendpt [OF l(2)] by (simp add: f)
  then have "vm_memset (Some 1) (m2_i1 ?m) (m2_p1 ?m) (m2_l2 ?m) (m2_l1 ?m) fault_sample = Inr (VMSUSPEND, t)"
    using sc t(1) by (simp add: vm_memset_def check_resumed_caller_def f vir_proc_def zero_msg_def)
  from memset_suspension_lost [OF this, of "\<lambda>_ _. Some" OK "\<lambda>_. None"] obtain u where
    "do_memset 1 ?m fault_sample = Inr (OK, t)" "kernel_call_finish (\<lambda>_ _. Some) 1 ?m OK t = Inr u" by auto
  moreover have "RTS_ISSET (procs t 1) RTS_VMREQUEST" using t(2) by (auto simp: isset_has has_setf_same has_setf_other)
  ultimately show ?thesis by blast
qed

end
