(* ===== verification/Grants.thy ===== *)
theory Grants
  imports Kernel_Calls
begin

text \<open>
  Copies under grants (\<open>kernel/system/do_safecopy.c\<close>, \<open>do_setgrant.c\<close>): a process publishes grants in a
  table of its own memory; \<open>verify_grant\<close> follows a chain of indirect grants to the
  entry that names the memory and checks grantee, access and range; \<open>safecopy\<close> then copies.
  The kernel variable a grant entry is fetched into keeps its old bytes where the fetch
  stopped at a fault at address zero (such a fault is taken for success); its contents
  before the call are an argument.
\<close>

section \<open>Grant entries\<close>

abbreviation CPF_READ :: u32 where "CPF_READ \<equiv> 0x000001"
abbreviation CPF_WRITE :: u32 where "CPF_WRITE \<equiv> 0x000002"
abbreviation CPF_USED :: u32 where "CPF_USED \<equiv> 0x000100"
abbreviation CPF_DIRECT :: u32 where "CPF_DIRECT \<equiv> 0x000200"
abbreviation CPF_INDIRECT :: u32 where "CPF_INDIRECT \<equiv> 0x000400"
abbreviation CPF_MAGIC :: u32 where "CPF_MAGIC \<equiv> 0x000800"
abbreviation CPF_VALID :: u32 where "CPF_VALID \<equiv> 0x001000"
abbreviation MAX_INDIRECT_DEPTH :: nat where "MAX_INDIRECT_DEPTH \<equiv> 5"
abbreviation MEM_TOP :: u32 where "MEM_TOP \<equiv> 0xFFFFFFFF"
abbreviation KERNEL :: int where "KERNEL \<equiv> - 1"
abbreviation VFS_PROC_NR :: int where "VFS_PROC_NR \<equiv> 1"
abbreviation ELOOP :: int where "ELOOP \<equiv> - 40"
abbreviation SCPVEC_NR :: nat where "SCPVEC_NR \<equiv> 64"

definition le32 :: "u8 list \<Rightarrow> nat \<Rightarrow> u32" where
  "le32 bs k = ucast (bs ! k) OR push_bit 8 (ucast (bs ! (k + 1))) OR push_bit 16 (ucast (bs ! (k + 2)))
     OR push_bit 24 (ucast (bs ! (k + 3)))"

text \<open>The members of \<open>cp_grant_t\<close>, 36 bytes; the three grant types share the bytes of a union.\<close>

type_synonym cp_grant_t = "u8 list"

definition cp_flags :: "cp_grant_t \<Rightarrow> u32" where "cp_flags g = le32 g 0"
definition cp_direct_who_to :: "cp_grant_t \<Rightarrow> int" where "cp_direct_who_to g = sint (le32 g 4)"
definition cp_direct_start :: "cp_grant_t \<Rightarrow> u32" where "cp_direct_start g = le32 g 8"
definition cp_direct_len :: "cp_grant_t \<Rightarrow> u32" where "cp_direct_len g = le32 g 12"
definition cp_indirect_who_to :: "cp_grant_t \<Rightarrow> int" where "cp_indirect_who_to g = sint (le32 g 4)"
definition cp_indirect_who_from :: "cp_grant_t \<Rightarrow> int" where "cp_indirect_who_from g = sint (le32 g 8)"
definition cp_indirect_grant :: "cp_grant_t \<Rightarrow> int" where "cp_indirect_grant g = sint (le32 g 12)"
definition cp_magic_who_from :: "cp_grant_t \<Rightarrow> int" where "cp_magic_who_from g = sint (le32 g 4)"
definition cp_magic_who_to :: "cp_grant_t \<Rightarrow> int" where "cp_magic_who_to g = sint (le32 g 8)"
definition cp_magic_start :: "cp_grant_t \<Rightarrow> u32" where "cp_magic_start g = le32 g 12"
definition cp_magic_len :: "cp_grant_t \<Rightarrow> u32" where "cp_magic_len g = le32 g 16"

text \<open>
  The copy of \<open>length old\<close> bytes of a process into a kernel variable that holds \<open>old\<close>.
\<close>

definition copy_in :: "int \<Rightarrow> u32 \<Rightarrow> u8 list \<Rightarrow> kstate \<Rightarrow> int \<times> u8 list" where
  "copy_in p addr old s =
     (let get = (\<lambda>j. access_rd (Some p) s (addr + of_nat j)); byte = (\<lambda>j. mem s (the (get j)))
      in case find (\<lambda>j. get j = None) [0 ..< length old] of
           None \<Rightarrow> (OK, map byte [0 ..< length old])
         | Some j \<Rightarrow>
             if (p = ptproc s \<or> iskernelp p) \<and> addr + of_nat j = 0 then (OK, map byte [0 ..< j] @ drop j old)
             else (EFAULT_SRC, old))"

section \<open>Verification of a grant\<close>

text \<open>
  The test for a privilege structure has no counterpart: \<open>p_priv\<close> is the index of one, and a live
  process always has one.
\<close>

definition HASGRANTTABLE :: "int \<Rightarrow> kstate \<Rightarrow> bool" where
  "HASGRANTTABLE gr s \<longleftrightarrow> s_grant_table (priv_of s gr) \<noteq> 0"

definition GRANT_VALID :: "int \<Rightarrow> bool" where
  "GRANT_VALID g \<longleftrightarrow> g > - 1"

definition may_use :: "int \<Rightarrow> int \<Rightarrow> bool" where
  "may_use who_to grantee \<longleftrightarrow> who_to = grantee \<or> grantee = ANY \<or> who_to = ANY"

text \<open>
  The loop along the indirect grants. \<open>left\<close> counts the indirections that may still be followed; the
  result is an error code or the last entry with its granter and grantee.
\<close>

fun follow_grants :: "nat \<Rightarrow> cp_grant_t \<Rightarrow> int \<Rightarrow> int \<Rightarrow> int \<Rightarrow> kstate \<Rightarrow> stop + (int + (cp_grant_t \<times> int \<times> int))" where
  "follow_grants left g granter grantee grant s =
     (case isokendpt granter s of
        None \<Rightarrow> Inr (Inl EINVAL)
      | Some p \<Rightarrow>
          if \<not> GRANT_VALID grant then Inr (Inl EINVAL)
          else if \<not> HASGRANTTABLE p s then Inr (Inl EPERM)
          else if s_grant_entries (priv_of s p) \<le> grant then Inr (Inl EPERM)
          else if isokendpt KERNEL s = None then Inr (Inl EPERM)
          else bnd (copy_asserts (Some p) (Some KERNEL) s) (\<lambda>_.
            case copy_in p (s_grant_table (priv_of s p) + 36 * of_int grant) g s of
              (r, g) \<Rightarrow>
                if r \<noteq> OK then Inr (Inl EPERM)
                else if cp_flags g AND (CPF_USED OR CPF_VALID) \<noteq> CPF_USED OR CPF_VALID then Inr (Inl EPERM)
                else if has (cp_flags g) CPF_INDIRECT
                then (case left of
                        0 \<Rightarrow> Inr (Inl ELOOP)
                      | Suc l \<Rightarrow>
                          if \<not> may_use (cp_indirect_who_to g) grantee then Inr (Inl EPERM)
                          else follow_grants l g (cp_indirect_who_from g) granter (cp_indirect_grant g) s)
                else Inr (Inr (g, granter, grantee))))"

declare follow_grants.simps [simp del]

text \<open>
  \<open>offset_result\<close> and \<open>e_granter\<close>, or an error code. The magic branch compares the grantee field of
  the direct layout with \<open>ANY\<close>, which is the granter field of the magic one.
\<close>

definition check_grant :: "cp_grant_t \<Rightarrow> int \<Rightarrow> int \<Rightarrow> u32 \<Rightarrow> u32 \<Rightarrow> u32 \<Rightarrow> int + (u32 \<times> int)" where
  "check_grant g granter grantee bytes access offset_in =
     (if cp_flags g AND access \<noteq> access then Inl EPERM
      else if has (cp_flags g) CPF_DIRECT
      then (if MEM_TOP - cp_direct_len g + 1 < cp_direct_start g then Inl EPERM
            else if cp_direct_who_to g \<noteq> grantee \<and> grantee \<noteq> ANY \<and> cp_direct_who_to g \<noteq> ANY then Inl EPERM
            else if offset_in + bytes < offset_in \<or> offset_in + bytes > cp_direct_len g then Inl EPERM
            else Inr (cp_direct_start g + offset_in, granter))
      else if has (cp_flags g) CPF_MAGIC
      then (if granter \<noteq> VFS_PROC_NR then Inl EPERM
            else if cp_magic_who_to g \<noteq> grantee \<and> grantee \<noteq> ANY \<and> cp_direct_who_to g \<noteq> ANY then Inl EPERM
            else if offset_in + bytes < offset_in \<or> offset_in + bytes > cp_magic_len g then Inl EPERM
            else Inr (cp_magic_start g + offset_in, cp_magic_who_from g))
      else Inl EPERM)"

definition verify_grant :: "cp_grant_t \<Rightarrow> int \<Rightarrow> int \<Rightarrow> int \<Rightarrow> u32 \<Rightarrow> u32 \<Rightarrow> u32 \<Rightarrow> kstate \<Rightarrow> stop + (int + (u32 \<times> int))" where
  "verify_grant g0 granter grantee grant bytes access offset_in s =
     bnd (follow_grants MAX_INDIRECT_DEPTH g0 granter grantee grant s) (\<lambda>r.
       case r of
         Inl e \<Rightarrow> Inr (Inl e)
       | Inr (g, granter, grantee) \<Rightarrow> Inr (check_grant g granter grantee bytes access offset_in))"

section \<open>Safe copies\<close>

definition safecopy :: "cp_grant_t \<Rightarrow> int \<Rightarrow> int \<Rightarrow> int \<Rightarrow> int \<Rightarrow> u32 \<Rightarrow> u32 \<Rightarrow> u32 \<Rightarrow> u32 \<Rightarrow> kstate \<Rightarrow> stop + (int \<times> kstate)" where
  "safecopy g0 caller granter grantee grantid bytes g_offset addr access s =
     (if granter = NONE \<or> grantee = NONE then Inr (EFAULT, s)
      else case isokendpt granter s of
        None \<Rightarrow> Inr (EINVAL, s)
      | Some granter_p \<Rightarrow>
          if \<not> HASGRANTTABLE granter_p s then Inr (EPERM, s)
          else bnd (verify_grant g0 granter grantee grantid bytes access g_offset s) (\<lambda>r.
            case r of
              Inl e \<Rightarrow> Inr (e, s)
            | Inr (v_offset, new_granter) \<Rightarrow>
                let own = \<lparr>proc_nr_e = grantee, va_offset = addr\<rparr>; granted = \<lparr>proc_nr_e = new_granter, va_offset = v_offset\<rparr>
                in if has access CPF_READ then virtual_copy_f (Some caller) granted own bytes True s
                   else virtual_copy_f (Some caller) own granted bytes True s))"

text \<open>The message fields are those of \<open>SCP_*\<close> and \<open>VSCP_*\<close>.\<close>

definition do_safecopy_to :: "cp_grant_t \<Rightarrow> int \<Rightarrow> message \<Rightarrow> kstate \<Rightarrow> stop + (int \<times> kstate)" where
  "do_safecopy_to g0 caller m s =
     safecopy g0 caller (m2_i1 m) (p_endpoint (procs s caller)) (m2_i3 m) (m2_l2 m) (m2_l1 m) (m2_p1 m) CPF_WRITE s"

definition do_safecopy_from :: "cp_grant_t \<Rightarrow> int \<Rightarrow> message \<Rightarrow> kstate \<Rightarrow> stop + (int \<times> kstate)" where
  "do_safecopy_from g0 caller m s =
     safecopy g0 caller (m2_i1 m) (p_endpoint (procs s caller)) (m2_i3 m) (m2_l2 m) (m2_l1 m) (m2_p1 m) CPF_READ s"

text \<open>
  The vector of copies is fetched into a static array of \<open>SCPVEC_NR\<close> elements of 24 bytes that
  holds \<open>vec\<close>; the number of elements is the caller's.
\<close>

definition fetch_vec :: "u8 list \<Rightarrow> int \<Rightarrow> u32 \<Rightarrow> u32 \<Rightarrow> kstate \<Rightarrow> stop + (int \<times> u8 list \<times> kstate)" where
  "fetch_vec vec caller addr bytes s =
     (if bytes = 0 then Inr (EDOM, vec, s)
      else if isokendpt (p_endpoint (procs s caller)) s = None \<or> isokendpt KERNEL s = None then Inr (ESRCH, vec, s)
      else bnd (check_resumed_caller (Some caller) s) (\<lambda>r.
        if r \<noteq> OK then Inr (r, vec, s)
        else bnd (copy_asserts (Some caller) (Some KERNEL) s) (\<lambda>s.
          let n = min (unat bytes) (24 * SCPVEC_NR)
          in case copy_in caller addr (take n vec) s of
               (r, v) \<Rightarrow>
                 if r = OK \<and> unat bytes \<le> 24 * SCPVEC_NR then Inr (OK, v @ drop n vec, s)
                 else if r = OK \<and> access_rd (Some caller) s (addr + of_nat n) \<noteq> None then Inl OutOfBounds
                 else bnd (vm_suspend caller caller addr bytes VMSTYPE_KERNELCALL s) (\<lambda>s. Inr (VMSUSPEND, vec, s)))))"

fun safecopies :: "cp_grant_t \<Rightarrow> u8 list \<Rightarrow> int \<Rightarrow> nat list \<Rightarrow> kstate \<Rightarrow> stop + (int \<times> kstate)" where
  "safecopies g0 vec caller [] s = Inr (OK, s)"
| "safecopies g0 vec caller (i # is) s =
     (if SCPVEC_NR \<le> i then Inl OutOfBounds
      else
        let from = sint (le32 vec (24 * i)); to = sint (le32 vec (24 * i + 4)); gid = sint (le32 vec (24 * i + 8));
            off = le32 vec (24 * i + 12); addr = le32 vec (24 * i + 16); n = le32 vec (24 * i + 20); self = p_endpoint (procs s caller)
        in if from \<noteq> SELF \<and> to \<noteq> SELF then Inr (EINVAL, s)
           else bnd (if from = SELF then safecopy g0 caller to self gid n off addr CPF_WRITE s
                     else safecopy g0 caller from self gid n off addr CPF_READ s) (\<lambda>(r, s).
             if r \<noteq> OK then Inr (r, s) else safecopies g0 vec caller is s))"

definition do_vsafecopy :: "cp_grant_t \<Rightarrow> u8 list \<Rightarrow> int \<Rightarrow> message \<Rightarrow> kstate \<Rightarrow> stop + (int \<times> kstate)" where
  "do_vsafecopy g0 vec caller m s =
     bnd (kassert (p_endpoint (procs s caller) \<noteq> NONE) ''src.proc_nr_e != NONE'' s) (\<lambda>s.
     bnd (fetch_vec vec caller (m2_p1 m) (24 * m2_l2 m) s) (\<lambda>(r, vec, s).
       if r \<noteq> OK then Inr (r, s)
       else safecopies g0 vec caller [0 ..< nat (sint (m2_l2 m))] s))"

definition do_setgrant :: "int \<Rightarrow> message \<Rightarrow> kstate \<Rightarrow> stop + (int \<times> kstate)" where
  "do_setgrant caller m s =
     (if RTS_ISSET (procs s caller) RTS_NO_PRIV then Inr (EPERM, s)
      else Inr (OK, upd_priv caller (\<lambda>v. v\<lparr>s_grant_table := m2_p1 m, s_grant_entries := m2_i2 m\<rparr>) s))"

end
