(* ===== verification/Copy_Laws.thy ===== *)
theory Copy_Laws
  imports Virt_Copy
begin

text \<open>
  Laws of the copy routines: the loop over windows and moves is a copy of the range byte by
  byte, a copy into a hardened process followed by the replay of its memory events reaches
  all frames of the pages, the page copy of the hardening is an instance of the general
  routine, and a fault at address zero is lost.
\<close>

section \<open>The moves of the copy routine\<close>

text \<open>\<open>copied f g n m m'\<close>: byte \<open>j\<close> of the range moved from \<open>f j\<close> to \<open>g j\<close>, nothing else changed.\<close>

definition copied :: "(nat \<Rightarrow> u32) \<Rightarrow> (nat \<Rightarrow> u32) \<Rightarrow> nat \<Rightarrow> (u32 \<Rightarrow> u8) \<Rightarrow> (u32 \<Rightarrow> u8) \<Rightarrow> bool" where
  "copied f g n m m' \<longleftrightarrow> (\<forall>j < n. m' (g j) = m (f j)) \<and> (\<forall>a. a \<notin> g ` {..<n} \<longrightarrow> m' a = m a)"

text \<open>
  The translation of a range: addresses and their frames, which stay the same while the destination
  is written, and source and destination do not overlap.
\<close>

definition copy_map :: "int option \<Rightarrow> u32 \<Rightarrow> int option \<Rightarrow> u32 \<Rightarrow> nat \<Rightarrow> (nat \<Rightarrow> u32) \<Rightarrow> (nat \<Rightarrow> u32) \<Rightarrow> kstate \<Rightarrow> bool" where
  "copy_map srcproc src dstproc dst n f g s \<longleftrightarrow>
     inj_on g {..<n} \<and> f ` {..<n} \<inter> g ` {..<n} = {} \<and>
     (\<forall>m j. j < n \<and> (\<forall>a. a \<notin> g ` {..<n} \<longrightarrow> m a = mem s a) \<longrightarrow>
        access_rd srcproc (s\<lparr>mem := m\<rparr>) (src + of_nat j) = Some (f j) \<and>
        access_wr dstproc (s\<lparr>mem := m\<rparr>) (dst + of_nat j) = Some (g j))"

lemma copy_mapD:
  assumes "copy_map sp src dp dst n f g s" "j < n" "\<forall>a. a \<notin> g ` {..<n} \<longrightarrow> m a = mem s a"
  shows "access_rd sp (s\<lparr>mem := m\<rparr>) (src + of_nat j) = Some (f j)" "access_wr dp (s\<lparr>mem := m\<rparr>) (dst + of_nat j) = Some (g j)"
  using assms unfolding copy_map_def by simp_all

lemma store_bytes_snoc: "store_bytes g (vs @ [v]) m = (store_bytes g vs m)(g (length vs) := v)"
proof -
  have "fold (\<lambda>i m. m(g i := (vs @ [v]) ! i)) [0 ..< length vs] m = fold (\<lambda>i m. m(g i := vs ! i)) [0 ..< length vs] m"
    by (rule fold_cong) (auto simp: nth_append)
  then show ?thesis by (simp add: store_bytes_def)
qed

lemma store_bytes_other: "a \<notin> g ` {..<length vs} \<Longrightarrow> store_bytes g vs m a = m a"
  by (induction vs rule: rev_induct) (auto simp: store_bytes_snoc store_bytes_def [of _ "[]"] lessThan_Suc)

lemma store_bytes_at: "inj_on g {..<length vs} \<Longrightarrow> j < length vs \<Longrightarrow> store_bytes g vs m (g j) = vs ! j"
proof (induction vs rule: rev_induct)
  case (snoc v vs)
  have "inj_on g {..<length vs}" using snoc.prems(1) by (auto intro: inj_on_subset)
  moreover have "g j \<noteq> g (length vs)" if "j < length vs"
    using inj_onD [OF snoc.prems(1), of j "length vs"] that by auto
  ultimately show ?case using snoc by (cases "j = length vs") (auto simp: store_bytes_snoc nth_append)
qed simp

lemma find_none: "find P xs = None \<longleftrightarrow> (\<forall>x \<in> set xs. \<not> P x)"
  by (auto simp: find_None_iff)

lemma movs_copied:
  assumes cm: "copy_map sp src dp dst n f g s" and i: "i + k \<le> n" and c: "copied f g i (mem s) m"
  shows "\<exists>m'. movs k sp src dp dst i (s\<lparr>mem := m\<rparr>) = Inr (s\<lparr>mem := m'\<rparr>) \<and> copied f g (i + k) (mem s) m'"
proof -
  have sub: "g ` {..<i} \<subseteq> g ` {..<n}" using i by auto
  then have off: "\<forall>a. a \<notin> g ` {..<n} \<longrightarrow> m a = mem s a" using c unfolding copied_def by blast
  have rd: "access_rd sp (s\<lparr>mem := m\<rparr>) (src + of_nat (i + j)) = Some (f (i + j))"
    and wr: "access_wr dp (s\<lparr>mem := m\<rparr>) (dst + of_nat (i + j)) = Some (g (i + j))" if "j < k" for j
    using copy_mapD [OF cm, of "i + j" m] off that i by simp_all
  let ?vs = "map (\<lambda>j. m (f (i + j))) [0 ..< k]"
  let ?m = "store_bytes (\<lambda>j. the (access_wr dp (s\<lparr>mem := m\<rparr>) (dst + of_nat (i + j)))) (map (\<lambda>j. m (the (access_rd sp (s\<lparr>mem := m\<rparr>) (src + of_nat (i + j))))) [0 ..< k]) m"
  have vs: "map (\<lambda>j. m (the (access_rd sp (s\<lparr>mem := m\<rparr>) (src + of_nat (i + j))))) [0 ..< k] = ?vs"
    using rd by (intro map_cong) auto
  have m: "?m = store_bytes (\<lambda>j. g (i + j)) ?vs m"
    unfolding vs unfolding store_bytes_def using wr by (intro fold_cong) auto
  have find: "find (\<lambda>j. access_rd sp (s\<lparr>mem := m\<rparr>) (src + of_nat (i + j)) = None) [0 ..< k] = None"
    "find (\<lambda>j. access_wr dp (s\<lparr>mem := m\<rparr>) (dst + of_nat (i + j)) = None) [0 ..< k] = None"
    using rd wr by (auto simp: find_none)
  have "movs k sp src dp dst i (s\<lparr>mem := m\<rparr>) = Inr (s\<lparr>mem := ?m\<rparr>)"
    unfolding movs_def Let_def find by simp
  moreover have "copied f g (i + k) (mem s) ?m"
    unfolding copied_def
  proof (intro conjI allI impI)
    have inj: "inj_on g {..<n}" using cm by (simp add: copy_map_def)
    have injs: "inj_on (\<lambda>j. g (i + j)) {..<k}"
      using i by (intro inj_onI) (auto dest!: inj_onD [OF inj])
    fix j assume j: "j < i + k"
    show "?m (g j) = mem s (f j)"
    proof (cases "j < i")
      case True
      then have "g j \<notin> (\<lambda>j. g (i + j)) ` {..<k}"
        using i by (auto dest!: inj_onD [OF inj])
      then have "?m (g j) = m (g j)" unfolding m using store_bytes_other [of "g j" "\<lambda>j. g (i + j)" ?vs] by simp
      then show ?thesis using c True by (simp add: copied_def)
    next
      case False
      then obtain j' where j': "j = i + j'" "j' < k" using j by (metis add_less_cancel_left le_add_diff_inverse not_less)
      have "?m (g j) = m (f j)" unfolding m j'(1) using store_bytes_at [of "\<lambda>j. g (i + j)" ?vs j'] injs j'(2) by simp
      moreover have "f j \<notin> g ` {..<n}" using cm j i unfolding copy_map_def by (metis disjoint_iff imageI lessThan_iff order_less_le_trans)
      ultimately show ?thesis using off by simp
    qed
  next
    fix a assume a: "a \<notin> g ` {..<i + k}"
    have "a \<notin> (\<lambda>j. g (i + j)) ` {..<k}"
    proof
      assume "a \<in> (\<lambda>j. g (i + j)) ` {..<k}"
      then obtain j where "a = g (i + j)" "i + j < i + k" by auto
      then show False using a by blast
    qed
    then have "?m a = m a" unfolding m using store_bytes_other [of a "\<lambda>j. g (i + j)" ?vs] by simp
    moreover have "a \<notin> g ` {..<i}" using a by auto
    ultimately show "?m a = mem s a" using c by (simp add: copied_def)
  qed
  ultimately show ?thesis by blast
qed

lemma phys_copy_copied:
  assumes "copy_map sp src dp dst n f g s" "i + sum_list ks \<le> n" "copied f g i (mem s) m"
  shows "\<exists>m'. phys_copy ks sp src dp dst i (s\<lparr>mem := m\<rparr>) = (None, s\<lparr>mem := m'\<rparr>) \<and> copied f g (i + sum_list ks) (mem s) m'"
  using assms(2,3)
proof (induction ks arbitrary: i m)
  case Nil
  then show ?case by auto
next
  case (Cons k ks)
  then obtain m' where m': "movs k sp src dp dst i (s\<lparr>mem := m\<rparr>) = Inr (s\<lparr>mem := m'\<rparr>)" "copied f g (i + k) (mem s) m'"
    using movs_copied [OF assms(1), of i k m] by auto
  then show ?case using Cons.IH [of "i + k" m'] Cons.prems(1) by (simp add: add.assoc)
qed

lemma sum_copy_units: "sum_list (copy_units a n) = n"
proof -
  have "unat (- a AND 3) \<le> 3" using word_and_le1 [of "- a" 3] by (simp add: word_le_nat_alt)
  moreover have "4 * ((n - k) div 4) + (n - k) mod 4 = n - k" for k :: nat by simp
  ultimately show ?thesis by (auto simp: copy_units_def Let_def sum_list_replicate mult.commute)
qed

lemma copied_0 [simp]: "copied f g 0 m m" by (simp add: copied_def)

lemma copied_append:
  assumes "copied f g k m m'" "copied (\<lambda>j. f (k + j)) (\<lambda>j. g (k + j)) l m' m''" 
    and "inj_on g {..<k + l}" "f ` {..<k + l} \<inter> g ` {..<k + l} = {}"
  shows "copied f g (k + l) m m''"
  unfolding copied_def
proof (intro conjI allI impI)
  fix j assume j: "j < k + l"
  show "m'' (g j) = m (f j)"
  proof (cases "j < k")
    case True
    have "g j \<notin> (\<lambda>j. g (k + j)) ` {..<l}" using True by (auto dest!: inj_onD [OF assms(3)])
    then show ?thesis using assms(1,2) True by (auto simp: copied_def)
  next
    case False
    then obtain j' where j': "j = k + j'" "j' < l" using j by (metis add_less_cancel_left le_add_diff_inverse not_less)
    then have "m'' (g j) = m' (f j)" using assms(2) by (simp add: copied_def)
    moreover have "f j \<notin> g ` {..<k + l}" using assms(4) j by blast
    then have "f j \<notin> g ` {..<k}" by auto
    ultimately show ?thesis using assms(1) by (simp add: copied_def)
  qed
next
  fix a assume a: "a \<notin> g ` {..<k + l}"
  then have "a \<notin> g ` {..<k}" "a \<notin> (\<lambda>j. g (k + j)) ` {..<l}" by (auto simp: image_def)
  then show "m'' a = m a" using assms(1,2) by (simp add: copied_def)
qed

lemma copy_map_rest:
  assumes "copy_map sp src dp dst (k + l) f g s" "copied f g k (mem s) m'"
  shows "copy_map sp (src + of_nat k) dp (dst + of_nat k) l (\<lambda>j. f (k + j)) (\<lambda>j. g (k + j)) (s\<lparr>mem := m'\<rparr>)"
proof -
  have inj: "inj_on g {..<k + l}" and dj: "f ` {..<k + l} \<inter> g ` {..<k + l} = {}"
    and tr: "\<And>m j. j < k + l \<Longrightarrow> (\<forall>a. a \<notin> g ` {..<k + l} \<longrightarrow> m a = mem s a) \<Longrightarrow>
        access_rd sp (s\<lparr>mem := m\<rparr>) (src + of_nat j) = Some (f j) \<and>
        access_wr dp (s\<lparr>mem := m\<rparr>) (dst + of_nat j) = Some (g j)"
    using assms(1) unfolding copy_map_def by simp_all
  have sub: "(\<lambda>j. g (k + j)) ` {..<l} \<subseteq> g ` {..<k + l}" "(\<lambda>j. f (k + j)) ` {..<l} \<subseteq> f ` {..<k + l}" "g ` {..<k} \<subseteq> g ` {..<k + l}" by auto
  have "inj_on (\<lambda>j. g (k + j)) {..<l}" by (intro inj_onI) (auto dest!: inj_onD [OF inj])
  moreover have "(\<lambda>j. f (k + j)) ` {..<l} \<inter> (\<lambda>j. g (k + j)) ` {..<l} = {}" using Int_mono [OF sub(2,1)] unfolding dj by simp
  moreover have "access_rd sp (s\<lparr>mem := m\<rparr>) (src + of_nat k + of_nat j) = Some (f (k + j)) \<and>
        access_wr dp (s\<lparr>mem := m\<rparr>) (dst + of_nat k + of_nat j) = Some (g (k + j))"
    if j: "j < l" and m: "\<forall>a. a \<notin> (\<lambda>j. g (k + j)) ` {..<l} \<longrightarrow> m a = m' a" for m j
  proof -
    have "m a = mem s a" if "a \<notin> g ` {..<k + l}" for a
    proof -
      have "a \<notin> (\<lambda>j. g (k + j)) ` {..<l}" "a \<notin> g ` {..<k}" by (rule contra_subsetD [OF sub(1) that], rule contra_subsetD [OF sub(3) that])
      then show ?thesis using m assms(2) by (simp add: copied_def)
    qed
    then have "\<forall>a. a \<notin> g ` {..<k + l} \<longrightarrow> m a = mem s a" by blast
    from tr [OF _ this, of "k + j"] j show ?thesis by (simp add: add.assoc)
  qed
  ultimately show ?thesis unfolding copy_map_def by simp
qed

lemma copy_chunks_copied:
  "copy_map sp src dp dst (unat n) f g s \<Longrightarrow>
   \<exists>m. copy_chunks sp src dp dst n s = Inr (OK, s\<lparr>mem := m\<rparr>) \<and> copied f g (unat n) (mem s) m"
proof (induction sp src dp dst n s arbitrary: f g rule: copy_chunks.induct)
  case (1 sp src dp dst n s)
  show ?case
  proof (cases "n = 0")
    case True
    then show ?thesis by (subst copy_chunks.simps) (auto intro!: exI [of _ "mem s"])
  next
    case False
    obtain p1 c1 where c1: "createpde sp src n 0 s = (p1, c1)" by fastforce
    obtain p2 c where c: "createpde dp dst c1 1 s = (p2, c)" by fastforce
    have le: "c \<le> n" using createpde_le [of sp src n 0 s] createpde_le [of dp dst c1 1 s] c1 c by auto
    have split: "unat n = unat c + unat (n - c)" using le by (simp add: unat_sub word_le_nat_alt)
    let ?ks = "copy_units p1 (unat c)"
    have "unat c \<le> unat n" using le by (simp add: word_le_nat_alt)
    then obtain m where m: "phys_copy ?ks sp src dp dst 0 s = (None, s\<lparr>mem := m\<rparr>)" "copied f g (unat c) (mem s) m"
      using phys_copy_copied [OF 1(2), of 0 ?ks "mem s"] by (auto simp: sum_copy_units)
    have "copy_map sp (src + c) dp (dst + c) (unat (n - c)) (\<lambda>j. f (unat c + j)) (\<lambda>j. g (unat c + j)) (s\<lparr>mem := m\<rparr>)"
      using copy_map_rest [OF 1(2) [unfolded split] m(2)] by simp
    from 1(1) [OF False c1 [symmetric] refl c [symmetric] refl m(1) [symmetric] refl _ _ this]
    obtain m' where m': "copy_chunks sp (src + c) dp (dst + c) (n - c) (s\<lparr>mem := m\<rparr>) = Inr (OK, s\<lparr>mem := m'\<rparr>)"
      "copied (\<lambda>j. f (unat c + j)) (\<lambda>j. g (unat c + j)) (unat (n - c)) m m'" by auto
    have "copied f g (unat n) (mem s) m'"
      using copied_append [OF m(2) m'(2)] 1(2) unfolding split copy_map_def by auto
    moreover have "copy_chunks sp src dp dst n s = Inr (OK, s\<lparr>mem := m'\<rparr>)"
      using False c1 c m(1) m'(1) by (subst copy_chunks.simps) simp
    ultimately show ?thesis by blast
  qed
qed

section \<open>Committed pages\<close>

text \<open>An address of a page of the working set that is mapped, writable, to its committed frame.\<close>

definition committed_at :: "u32 \<Rightarrow> nat list \<Rightarrow> kstate \<Rightarrow> u32 \<Rightarrow> nat \<Rightarrow> bool" where
  "committed_at root ws s v a \<longleftrightarrow>
     a \<in> set ws \<and> pmb_page s a = page_base_of v \<and> us0 (working_set s a) \<noteq> MAP_NONE \<and>
     has (pde_of root s v) I386_VM_PRESENT \<and> \<not> has (pde_of root s v) I386_VM_BIGPAGE \<and> has (pde_of root s v) I386_VM_WRITE \<and>
     has (pte_of root s v) I386_VM_PRESENT \<and> has (pte_of root s v) I386_VM_WRITE \<and>
     I386_VM_PFA (pte_of root s v) = us0 (working_set s a)"

definition committed_byte :: "kstate \<Rightarrow> nat \<Rightarrow> u32 \<Rightarrow> u32" where
  "committed_byte s a v = us0 (working_set s a) + (v AND 0xFFF)"

lemma offset_less: "(v :: u32) AND 0xFFF < 4096"
proof -
  have "v AND 0xFFF \<le> 0xFFF" by (rule word_and_le1)
  then show ?thesis by (simp add: word_less_nat_alt word_le_nat_alt)
qed

lemma page_split: "v = page_base_of v + (v AND 0xFFF)"
proof -
  have "(0xFFFFF000 :: u32) = NOT 0xFFF" by simp
  then have "page_base_of v = v AND NOT 0xFFF" unfolding page_base_pfa I386_VM_PFA_def by (simp only:)
  moreover have "(v AND NOT 0xFFF) + (v AND 0xFFF) = (v AND NOT 0xFFF) OR (v AND 0xFFF)"
    by (rule disjunctive_add_eq_or) (rule bit_word_eqI, auto simp: bit_simps)
  moreover have "(v AND NOT 0xFFF) OR (v AND 0xFFF) = v"
    by (rule bit_word_eqI) (auto simp: bit_simps)
  ultimately show ?thesis by simp
qed

lemma frame_bytes_distinct:
  assumes "page_aligned f" "page_aligned g" "f \<noteq> g" "i < 4096" "j < 4096"
  shows "f + i \<noteq> g + j"
  using other_page [OF assms(1-4)] assms(5) by (metis add_diff_cancel_left')

lemma committed_aligned:
  assumes "layout root ws s" "committed_at root ws s v a"
  shows "page_aligned (us0 (working_set s a))" "us0 (working_set s a) \<noteq> root"
    "c \<in> set ws \<Longrightarrow> us0 (working_set s a) \<noteq> pt_of root s (pmb_vaddr (working_set s c))"
    "c \<in> set ws \<Longrightarrow> c \<noteq> a \<Longrightarrow> us0 (working_set s c) \<noteq> us0 (working_set s a)"
proof -
  have a: "a \<in> set ws" "us0 (working_set s a) \<in> frames_of (working_set s a)"
    using assms(2) by (auto simp: committed_at_def frames_of_def)
  have b: "block_ok root s (working_set s a)" using assms(1) a(1) by (simp add: layout_def)
  show "page_aligned (us0 (working_set s a))" "us0 (working_set s a) \<noteq> root" using b a(2) by (auto simp: block_ok_def)
  show "us0 (working_set s a) \<noteq> pt_of root s (pmb_vaddr (working_set s c))" if "c \<in> set ws"
    using assms(1) a that unfolding layout_def by metis
  show "us0 (working_set s c) \<noteq> us0 (working_set s a)" if "c \<in> set ws" "c \<noteq> a"
  proof
    assume e: "us0 (working_set s c) = us0 (working_set s a)"
    then have "us0 (working_set s a) \<in> frames_of (working_set s c)" using a(2) by (auto simp: frames_of_def)
    moreover have "frames_of (working_set s c) \<inter> frames_of (working_set s a) = {}" using assms(1) a(1) that by (simp add: layout_def)
    ultimately show False using a(2) by blast
  qed
qed

lemma committed_page_table:
  assumes "committed_at root ws s v a"
  shows "pt_of root s v = pt_of root s (pmb_vaddr (working_set s a))"
    "I386_VM_PTE v = I386_VM_PTE (pmb_vaddr (working_set s a))"
proof -
  have "page_base_of v = page_base_of (pmb_vaddr (working_set s a))" using assms by (simp add: committed_at_def pmb_page_def)
  then have e: "I386_VM_PDE v = I386_VM_PDE (pmb_vaddr (working_set s a))" "I386_VM_PTE v = I386_VM_PTE (pmb_vaddr (working_set s a))"
    using page_eq_iff by metis+
  then show "pt_of root s v = pt_of root s (pmb_vaddr (working_set s a))" "I386_VM_PTE v = I386_VM_PTE (pmb_vaddr (working_set s a))"
    by (simp_all add: pt_of_def pde_of_def)
qed

text \<open>Writing the committed frames of a range does not disturb the translation of its addresses.\<close>

lemma committed_walk:
  assumes l: "layout root ws s" and c: "committed_at root ws s v a"
    and m: "\<And>f. page_aligned f \<Longrightarrow> (\<forall>c \<in> set ws. f \<noteq> us0 (working_set s c) \<or> us0 (working_set s c) = MAP_NONE) \<Longrightarrow> same_frame m f (mem s) f"
  shows "page_walk root (s\<lparr>mem := m\<rparr>) v = Some (committed_byte s a v, True)"
proof -
  have al: "page_aligned root" using l by (simp add: layout_def)
  have ne: "root \<noteq> us0 (working_set s c) \<or> us0 (working_set s c) = MAP_NONE" if "c \<in> set ws" for c
  proof -
    have "root \<notin> frames_of (working_set s c)" using l that by (auto simp: layout_def block_ok_def)
    then show ?thesis by (auto simp: frames_of_def)
  qed
  have d: "pde_of root (s\<lparr>mem := m\<rparr>) v = pde_of root s v"
    unfolding pde_of_def using m [OF al] ne get32_frame_cong PDE_less by simp
  have tne: "pt_of root s v \<noteq> us0 (working_set s c) \<or> us0 (working_set s c) = MAP_NONE" if "c \<in> set ws" for c
  proof -
    have "a \<in> set ws" using c by (simp add: committed_at_def)
    then have "pt_of root s v \<notin> frames_of (working_set s c)"
      using l that unfolding layout_def committed_page_table(1) [OF c] by blast
    then show ?thesis by (auto simp: frames_of_def)
  qed
  have t: "pte_of root (s\<lparr>mem := m\<rparr>) v = pte_of root s v"
    unfolding pte_of_def pt_of_def d
    using m [OF pfa_aligned, of "pde_of root s v"] tne get32_frame_cong PTE_less by (simp add: pt_of_def)
  show ?thesis using c by (simp add: page_walk_def d t committed_at_def committed_byte_def)
qed

lemma committed_bytes_distinct:
  assumes l: "layout root ws s" and c: "committed_at root ws s v a" "committed_at root ws s w b" and ne: "v \<noteq> w"
  shows "committed_byte s a v \<noteq> committed_byte s b w"
proof (cases "a = b")
  case True
  then have "page_base_of v = page_base_of w" using c by (simp add: committed_at_def)
  then have "v AND 0xFFF \<noteq> w AND 0xFFF" using ne page_split by metis
  then show ?thesis using True by (simp add: committed_byte_def)
next
  case False
  have "b \<in> set ws" using c(2) by (simp add: committed_at_def)
  then have "us0 (working_set s a) \<noteq> us0 (working_set s b)" using committed_aligned(4) [OF l c(1)] False by metis
  then show ?thesis
    using frame_bytes_distinct [OF committed_aligned(1) [OF l c(1)] committed_aligned(1) [OF l c(2)]] offset_less
    unfolding committed_byte_def by blast
qed

lemma of_nat_offsets_inj: "i < unat (n :: u32) \<Longrightarrow> j < unat n \<Longrightarrow> (a :: u32) + of_nat i = a + of_nat j \<Longrightarrow> i = j"
proof -
  assume h: "i < unat n" "j < unat n" "a + of_nat i = a + of_nat j"
  have "k < unat n \<Longrightarrow> unat (of_nat k :: u32) = k" for k
    using unsigned_less [of n, where ?'a = nat] by (simp add: unsigned_of_nat take_bit_nat_eq_self)
  from this [OF h(1)] this [OF h(2)] h(3) show "i = j" by (metis add_left_cancel)
qed

lemma committed_range_frame:
  assumes l: "layout root ws s" and all: "\<forall>j < n. committed_at root ws s (dst + of_nat j) (blk j)"
    and f: "page_aligned f" "\<forall>c \<in> set ws. f \<noteq> us0 (working_set s c) \<or> us0 (working_set s c) = MAP_NONE" and i: "i < 4096"
  shows "f + i \<notin> (\<lambda>j. committed_byte s (blk j) (dst + of_nat j)) ` {..<n}"
proof
  note dst = all [rule_format]
  assume "f + i \<in> (\<lambda>j. committed_byte s (blk j) (dst + of_nat j)) ` {..<n}"
  then obtain j where j: "j < n" "f + i = committed_byte s (blk j) (dst + of_nat j)" by auto
  have "f \<noteq> us0 (working_set s (blk j))" using dst [OF j(1)] f(2) by (auto simp: committed_at_def)
  then show False using frame_bytes_distinct [OF f(1) committed_aligned(1) [OF l dst [OF j(1)]] _ i offset_less, of "dst + of_nat j"] j(2)
    by (simp add: committed_byte_def)
qed

text \<open>The committed frame of a mapped page is the copy of no page.\<close>

lemma us0_not_copy:
  assumes "layout root ws s" "committed_at root ws s v a" "c \<in> set ws"
  shows "us0 (working_set s a) \<noteq> us1 (working_set s c)" "us0 (working_set s a) \<noteq> us2 (working_set s c)"
proof -
  have a: "a \<in> set ws" "us0 (working_set s a) \<noteq> MAP_NONE" using assms(2) by (simp_all add: committed_at_def)
  have b: "block_ok root s (working_set s a)" using assms(1) a(1) by (simp add: layout_def)
  have dj: "frames_of (working_set s a) \<inter> frames_of (working_set s c) = {}" if "c \<noteq> a"
    using assms(1,3) a(1) that by (simp add: layout_def)
  have "us0 (working_set s a) \<noteq> us1 (working_set s c) \<and> us0 (working_set s a) \<noteq> us2 (working_set s c)"
  proof (cases "c = a")
    case True
    then show ?thesis using b a(2) by (auto simp: block_ok_def)
  next
    case False
    from dj [OF this] show ?thesis using a(2) by (auto simp: frames_of_def)
  qed
  then show "us0 (working_set s a) \<noteq> us1 (working_set s c)" "us0 (working_set s a) \<noteq> us2 (working_set s c)" by auto
qed

text \<open>A source that stays readable while the committed frames of the working set change.\<close>

definition source_at :: "nat list \<Rightarrow> kstate \<Rightarrow> int option \<Rightarrow> u32 \<Rightarrow> nat \<Rightarrow> (nat \<Rightarrow> u32) \<Rightarrow> bool" where
  "source_at ws s srcproc src n f \<longleftrightarrow>
     (\<forall>m j. j < n \<and> (\<forall>g. page_aligned g \<and> (\<forall>c \<in> set ws. g \<noteq> us0 (working_set s c)) \<longrightarrow> same_frame m g (mem s) g) \<longrightarrow>
        access_rd srcproc (s\<lparr>mem := m\<rparr>) (src + of_nat j) = Some (f j)) \<and>
     (\<forall>j < n. \<forall>c \<in> set ws. I386_VM_PFA (f j) \<noteq> us0 (working_set s c))"

lemma committed_copy_map:
  assumes w: "page_world p root ws s" and p: "\<not> iskernelp p" "p_cr3 (procs s p) = root"
    and src: "source_at ws s srcproc src (unat (n :: u32)) f"
    and dst: "\<And>j. j < unat n \<Longrightarrow> committed_at root ws s (dst + of_nat j) (blk j)"
  shows "copy_map srcproc src (Some p) dst (unat n) f (\<lambda>j. committed_byte s (blk j) (dst + of_nat j)) s"
proof -
  let ?g = "\<lambda>j. committed_byte s (blk j) (dst + of_nat j)"
  have l: "layout root ws s" and nf: "no_faults s" using w by (simp_all add: page_world_def)
  have all: "\<forall>j < unat n. committed_at root ws s (dst + of_nat j) (blk j)" using dst by blast
  note fr = committed_range_frame [OF l all]
  have mf: "same_frame m f' (mem s) f'"
    if "\<forall>a. a \<notin> ?g ` {..<unat n} \<longrightarrow> m a = mem s a" "page_aligned f'" "\<forall>c \<in> set ws. f' \<noteq> us0 (working_set s c) \<or> us0 (working_set s c) = MAP_NONE" for m f'
    using that(1) fr [OF that(2,3)] by (simp add: same_frame_def)
  have "inj_on ?g {..<unat n}"
  proof (rule inj_onI)
    fix i j assume ij: "i \<in> {..<unat n}" "j \<in> {..<unat n}" "?g i = ?g j"
    then show "i = j" using committed_bytes_distinct [OF l dst dst, of i j] of_nat_offsets_inj [of i n j dst] by auto
  qed
  moreover have "f ` {..<unat n} \<inter> ?g ` {..<unat n} = {}"
  proof -
    have "f j \<notin> ?g ` {..<unat n}" if "j < unat n" for j
    proof -
      have "f j = I386_VM_PFA (f j) + (f j AND 0xFFF)" using page_split [of "f j"] by (simp add: page_base_pfa)
      then show ?thesis using fr [OF pfa_aligned _ offset_less, of "f j" "f j"] src that by (simp add: source_at_def)
    qed
    then show ?thesis by blast
  qed
  moreover have "access_rd srcproc (s\<lparr>mem := m\<rparr>) (src + of_nat j) = Some (f j) \<and> access_wr (Some p) (s\<lparr>mem := m\<rparr>) (dst + of_nat j) = Some (?g j)"
    if "j < unat n" "\<forall>a. a \<notin> ?g ` {..<unat n} \<longrightarrow> m a = mem s a" for m j
  proof
    show "access_rd srcproc (s\<lparr>mem := m\<rparr>) (src + of_nat j) = Some (f j)"
      using src that(1) mf [OF that(2)] by (simp add: source_at_def)
    have "page_walk root (s\<lparr>mem := m\<rparr>) (dst + of_nat j) = Some (?g j, True)"
      using committed_walk [OF l dst [OF that(1)]] mf [OF that(2)] by blast
    then show "access_wr (Some p) (s\<lparr>mem := m\<rparr>) (dst + of_nat j) = Some (?g j)"
      using nf p by (simp add: access_wr_def root_of_def no_faults_def)
  qed
  ultimately show ?thesis unfolding copy_map_def by blast
qed

section \<open>The pages of a range\<close>

lemma page_base_nat: "page_base_of v = of_nat (unat v div 4096 * 4096)"
proof -
  have "unat v = unat (page_base_of v) + unat (v AND 0xFFF)"
    using page_split [of v] aligned_no_carry [OF pfa_aligned offset_less, of v v] by (simp add: page_base_pfa)
  moreover obtain k where "unat (page_base_of v) = 4096 * k"
    using pfa_aligned [of v] by (auto simp: page_base_pfa aligned_iff)
  moreover have "unat (v AND 0xFFF) < 4096" using offset_less [of v] by (simp add: word_less_nat_alt)
  ultimately have "unat v div 4096 * 4096 = unat (page_base_of v)" by simp
  then show ?thesis by simp
qed

lemma unat_offset: "unat v + j < 2 ^ 32 \<Longrightarrow> unat ((v :: u32) + of_nat j) = unat v + j"
  by (simp add: unat_word_ariths unsigned_of_nat take_bit_nat_eq_self)

lemma sint_small: "unat (w :: u32) < 2 ^ 31 \<Longrightarrow> sint w = int (unat w)"
proof -
  assume l: "unat w < 2 ^ 31"
  then have "int (unat w) < int (2 ^ 31)" by (rule of_nat_less_iff [THEN iffD2])
  then have u: "uint w < 2 ^ 31" by simp
  then have "take_bit 31 (uint w) = uint w" by (simp add: take_bit_int_eq_self_iff)
  moreover have "\<not> bit (uint w) 31"
    using u by (simp add: bit_iff_odd)
  ultimately show "sint w = int (unat w)" by (simp add: sint_uint signed_take_bit_eq_if_positive)
qed

lemma n_pages_nat:
  assumes "n \<noteq> 0" "unat v + unat n \<le> 2 ^ 32"
  shows "n_pages_covered v n = int ((unat v mod 4096 + unat n - 1) div 4096 + 1)"
proof -
  have sub: "v - page_base_of v = v AND 0xFFF" using page_split [of v] by (metis add_diff_cancel_left')
  have off: "unat (v AND 0xFFF) = unat v mod 4096"
    unfolding take12 by (simp only: unsigned_take_bit_eq) (simp add: take_bit_eq_mod)
  have pos: "unat n > 0" using assms(1) by (simp add: unat_gt_0)
  have lim: "unat v mod 4096 + unat n \<le> 2 ^ 32" using assms(2) mod_less_eq_dividend [of "unat v" 4096] by linarith
  have eq: "n + (v AND 0xFFF) - 1 = of_nat (unat v mod 4096 + unat n - 1)"
    unfolding off [symmetric] using pos by (simp add: of_nat_diff add.commute)
  have "unat v mod 4096 + unat n - 1 < 2 ^ 32" using lim pos by linarith
  then have "unat (n + (v AND 0xFFF) - 1) = unat v mod 4096 + unat n - 1"
    unfolding eq by (simp only: unsigned_of_nat) (simp add: take_bit_nat_eq_self)
  then have u: "unat ((n + (v AND 0xFFF) - 1) div 4096 + 1) = (unat v mod 4096 + unat n - 1) div 4096 + 1" (is "unat ?w = ?k")
    using lim by (simp add: unat_word_ariths unat_div)
  have "?k < 2 ^ 31" using lim by simp
  then have "sint ?w = int ?k" using u sint_small by metis
  then show ?thesis unfolding n_pages_covered_def sub by simp
qed

lemma page_range_bytes:
  assumes "n \<noteq> 0" "unat v + unat n \<le> 2 ^ 32"
  shows "page_range v (n_pages_covered v n) = (\<lambda>j. page_base_of (v + of_nat j)) ` {..<unat n}"
proof -
  let ?D = "unat v" let ?N = "unat n"
  have pos: "?N > 0" using assms(1) by (simp add: unat_gt_0)
  have l: "page_base_of v + of_nat i * 4 * 1024 = of_nat ((?D div 4096 + i) * 4096)" for i
    by (simp add: page_base_nat [of v] algebra_simps)
  have r: "page_base_of (v + of_nat j) = of_nat ((?D + j) div 4096 * 4096)" if "j < ?N" for j
    unfolding page_base_nat using unat_offset [of v j] assms(2) that by simp
  let ?K = "(?D mod 4096 + ?N - 1) div 4096 + 1"
  have A: "\<exists>j < ?N. (?D + j) div 4096 = ?D div 4096 + i" if i: "i < (?D mod 4096 + ?N - 1) div 4096 + 1" for i
  proof (cases "i = 0")
    case True
    then show ?thesis using pos by (intro exI [of _ 0]) simp
  next
    case False
    let ?j = "4096 * i - ?D mod 4096"
    have "4096 * i \<le> ?D mod 4096 + ?N - 1" using i less_eq_div_iff_mult_less_eq [of 4096 i "?D mod 4096 + ?N - 1"] by (simp add: mult.commute)
    moreover have "?D mod 4096 < 4096" by simp
    moreover have "4096 \<le> 4096 * i" using False by simp
    ultimately have "?j < ?N" "?D + ?j = 4096 * (?D div 4096 + i)"
      using pos mult_div_mod_eq [of 4096 ?D] distrib_left [of 4096 "?D div 4096" i] by linarith+
    then show ?thesis by (intro exI [of _ ?j]) simp
  qed
  have B: "(?D + j) div 4096 - ?D div 4096 < (?D mod 4096 + ?N - 1) div 4096 + 1" "?D div 4096 \<le> (?D + j) div 4096" if "j < ?N" for j
  proof -
    have "?D + j = (?D mod 4096 + j) + ?D div 4096 * 4096" using mult_div_mod_eq [of 4096 ?D] by linarith
    then have "(?D + j) div 4096 = ((?D mod 4096 + j) + ?D div 4096 * 4096) div 4096" by (rule arg_cong)
    moreover have "(x + q * 4096) div 4096 = q + x div 4096" for x q :: nat by simp
    ultimately have "(?D + j) div 4096 = ?D div 4096 + (?D mod 4096 + j) div 4096" by (simp only:)
    moreover have "(?D mod 4096 + j) div 4096 \<le> (?D mod 4096 + ?N - 1) div 4096" using that by (intro div_le_mono) simp
    ultimately show "(?D + j) div 4096 - ?D div 4096 < (?D mod 4096 + ?N - 1) div 4096 + 1" "?D div 4096 \<le> (?D + j) div 4096" by simp_all
  qed
  have "(\<lambda>i. ?D div 4096 + i) ` {0 ..< ?K} = (\<lambda>j. (?D + j) div 4096) ` {..<?N}"
  proof (intro set_eqI iffI)
    fix x assume "x \<in> (\<lambda>i. ?D div 4096 + i) ` {0 ..< ?K}"
    then obtain i where i: "i \<in> {0 ..< ?K}" "x = ?D div 4096 + i" by (elim imageE)
    then have "i < ?K" by simp
    from A [OF this] i(2) show "x \<in> (\<lambda>j. (?D + j) div 4096) ` {..<?N}" by (metis imageI lessThan_iff)
  next
    fix x assume "x \<in> (\<lambda>j. (?D + j) div 4096) ` {..<?N}"
    then obtain j where j: "j < ?N" "x = (?D + j) div 4096" by auto
    from B [OF j(1)] show "x \<in> (\<lambda>i. ?D div 4096 + i) ` {0 ..< ?K}"
      unfolding j(2) by (intro image_eqI [of _ _ "(?D + j) div 4096 - ?D div 4096"]) simp_all
  qed
  then have "(\<lambda>k. of_nat (k * 4096) :: u32) ` (\<lambda>i. ?D div 4096 + i) ` {0 ..< (?D mod 4096 + ?N - 1) div 4096 + 1} = (\<lambda>k. of_nat (k * 4096)) ` (\<lambda>j. (?D + j) div 4096) ` {..<?N}"
    by simp
  moreover have "nat (n_pages_covered v n) = (?D mod 4096 + ?N - 1) div 4096 + 1" unfolding n_pages_nat [OF assms] by (rule nat_int)
  ultimately show ?thesis unfolding page_range_def l image_image by (simp add: r)
qed

lemma add_hme_only:
  assumes "hme_list p s as" "hme_room s"
  shows "\<exists>r t bs. add_hme_event p v sz s = Inr (r, t) \<and> hme_list p t bs \<and> only_hme p (set bs) s t \<and>
    event_pages t bs = event_pages s as \<union> page_range v (n_pages_covered v sz)"
proof (cases "find (hme_at v s) as")
  case (Some a)
  from add_hme_known [OF assms(1) this, of sz] show ?thesis by blast
next
  case None
  from add_hme_new [OF assms(1) this assms(2), of sz] show ?thesis by fastforce
qed

lemma page_world_committed:
  assumes "page_world p root ws s" and m: "\<And>f. page_aligned f \<Longrightarrow> (\<forall>c \<in> set ws. f \<noteq> us0 (working_set s c) \<or> us0 (working_set s c) = MAP_NONE) \<Longrightarrow> same_frame m f (mem s) f"
  shows "page_world p root ws (s\<lparr>mem := m\<rparr>)"
proof -
  have l: "layout root ws s" using assms(1) by (simp add: page_world_def)
  have ne: "root \<noteq> us0 (working_set s c) \<or> us0 (working_set s c) = MAP_NONE" if "c \<in> set ws" for c
  proof -
    have "root \<notin> frames_of (working_set s c)" using l that by (auto simp: layout_def block_ok_def)
    then show ?thesis by (auto simp: frames_of_def)
  qed
  have "page_aligned root" using l by (simp add: layout_def)
  then have "same_frame m root (mem s) root" using m ne by blast
  then have pt: "pt_of root (s\<lparr>mem := m\<rparr>) = pt_of root s"
    using get32_frame_cong PDE_less by (auto simp: pt_of_def pde_of_def fun_eq_iff)
  have "ws_list p (s\<lparr>mem := m\<rparr>) ws = ws_list p s ws"
    by (simp add: ws_list_def pmb_nx_def [abs_def] pmb_free_def [abs_def] pmb_page_def [abs_def])
  then show ?thesis using assms(1) by (simp add: page_world_def layout_def block_ok_def pt no_faults_def)
qed

lemma page_world_only_hme:
  assumes "only_hme p A s t" "page_world p root ws s"
  shows "page_world p root ws t"
proof -
  obtain E h n where t: "t = s\<lparr>hardening_mem_events := E,
        procs := (procs s)(p := (procs s p)\<lparr>p_hardening_mem_events := h, p_nb_hardening_mem_events := n\<rparr>)\<rparr>"
    using assms(1) unfolding only_hme_def by blast
  have "pt_of root t = pt_of root s" by (rule ext) (simp add: t pt_of_def pde_of_def)
  moreover have "ws_list p t ws = ws_list p s ws"
    by (simp add: t ws_list_def pmb_nx_def [abs_def] pmb_free_def [abs_def] pmb_page_def [abs_def])
  ultimately show ?thesis using assms(2) by (simp add: page_world_def layout_def block_ok_def no_faults_def) (simp add: t)
qed

section \<open>Copies into a hardened process\<close>

text \<open>A replayed page: the committed byte stays and both copies get it.\<close>

lemma replayed_byte:
  assumes l: "layout root ws s" and x: "committed_at root ws s x a" and u: "refreshed ws P t u" and t: "working_set t = working_set s"
    and P: "page_base_of x \<in> P"
  shows "let b = working_set s a; i = x AND 0xFFF
    in mem u (us0 b + i) = mem t (us0 b + i) \<and>
       (has_all_frames b \<and> \<not> has (pmb_flags b) H_EXEC \<longrightarrow> mem u (us1 b + i) = mem t (us0 b + i) \<and> mem u (us2 b + i) = mem t (us0 b + i))"
proof -
  let ?b = "working_set s a"
  have a: "a \<in> set ws" "pmb_page t a \<in> P" using x P by (simp_all add: committed_at_def pmb_page_def t)
  have al: "page_aligned (us0 ?b)" by (rule committed_aligned(1) [OF l x])
  have "same_frame (mem u) (us0 ?b) (mem t) (us0 ?b)"
    using u al us0_not_copy [OF l x] by (simp add: refreshed_def t)
  moreover have "same_frame (mem u) (us1 ?b) (mem t) (us0 ?b) \<and> same_frame (mem u) (us2 ?b) (mem t) (us0 ?b)"
    if "has_all_frames ?b" "\<not> has (pmb_flags ?b) H_EXEC"
    using u a that by (simp add: refreshed_def t)
  ultimately show ?thesis using offset_less [of x] by (simp add: Let_def same_frame_def)
qed

text \<open>C13. A copy of the kernel into a hardened process reaches both copies of its pages: when every byte of the
  range lies in a page of the working set that is mapped, writable, to its committed frame,
  the copy succeeds, puts the bytes of the source into the committed frames and changes
  no other memory; the replay of the recorded events then succeeds, and every page of the range that has
  both copies and is not labelled by exec (\<open>H_EXEC\<close>; the replay skips such pages) holds the same bytes in the committed frame and in the two copies. The source
  is readable and outside the committed frames, the working set is well formed, the events recorded before lie in it, and the event table has room.
\<close>

theorem copy_reaches_both_copies:
  assumes w: "page_world p root ws s" and p: "\<not> iskernelp p" "p_cr3 (procs s p) = root" "has (p_hflags (procs s p)) PROC_TO_HARD"
    and d: "dst_e \<noteq> NONE" "isokendpt dst_e s = Some p" and n: "n \<noteq> 0" "unat dst + unat n \<le> 2 ^ 32"
    and e: "hme_list p s as" "hme_room s" "event_pages s as \<subseteq> pmb_page s ` set ws"
    and c: "vmcheck = (caller \<noteq> None)" "check_resumed_caller caller s = Inr OK" "copy_asserts srcproc (Some p) s = Inr s"
    and src: "vir_proc src s = Some srcproc" "source_at ws s srcproc (va_offset src) (unat n) f"
    and dst: "\<And>j. j < unat n \<Longrightarrow> committed_at root ws s (dst + of_nat j) (blk j)"
  shows "\<exists>t u. virtual_copy_f caller src \<lparr>proc_nr_e = dst_e, va_offset = dst\<rparr> n vmcheck s = Inr (OK, t) \<and>
    (\<forall>x. x \<notin> (\<lambda>j. committed_byte s (blk j) (dst + of_nat j)) ` {..<unat n} \<longrightarrow> mem t x = mem s x) \<and>
    handle_hme_events p t = Inr (OK, u) \<and>
    (\<forall>j < unat n. let b = working_set s (blk j); i = (dst + of_nat j) AND 0xFFF
       in mem t (us0 b + i) = mem s (f j) \<and> mem u (us0 b + i) = mem s (f j) \<and>
          (has_all_frames b \<and> \<not> has (pmb_flags b) H_EXEC \<longrightarrow> mem u (us1 b + i) = mem s (f j) \<and> mem u (us2 b + i) = mem s (f j)))"
proof -
  let ?g = "\<lambda>j. committed_byte s (blk j) (dst + of_nat j)"
  have l: "layout root ws s" using w by (simp add: page_world_def)
  have all: "\<forall>j < unat n. committed_at root ws s (dst + of_nat j) (blk j)" using dst by blast
  note cm = committed_copy_map [OF w p(1,2) src(2) dst]
  obtain m where m: "copy_chunks srcproc (va_offset src) (Some p) dst n s = Inr (OK, s\<lparr>mem := m\<rparr>)" "copied f ?g (unat n) (mem s) m"
    using copy_chunks_copied [OF cm] by blast
  have mf: "same_frame m f' (mem s) f'"
    if "page_aligned f'" "\<forall>c \<in> set ws. f' \<noteq> us0 (working_set s c) \<or> us0 (working_set s c) = MAP_NONE" for f'
    using committed_range_frame [OF l all that] m(2) by (auto simp: copied_def same_frame_def)
  let ?s = "s\<lparr>mem := m\<rparr>"
  have w': "page_world p root ws ?s" by (rule page_world_committed [OF w mf])
  have e': "hme_list p ?s as" "hme_room ?s" "event_pages ?s as = event_pages s as"
    using e(1,2) by (simp_all add: hme_list_def hme_room_def hme_nx_def [abs_def] hme_free_def event_pages_def)
  obtain r t bs where t: "add_hme_event p dst n ?s = Inr (r, t)" "hme_list p t bs" "only_hme p (set bs) ?s t"
    "event_pages t bs = event_pages ?s as \<union> page_range dst (n_pages_covered dst n)"
    using add_hme_only [OF e'(1,2)] by blast
  note oh = only_hme_sel [OF t(3)]
  have tw: "page_world p root ws t" by (rule page_world_only_hme [OF t(3) w'])
  have pg: "pmb_page t = pmb_page s" by (rule ext) (simp add: pmb_page_def oh)
  have cov: "page_base_of (dst + of_nat j) \<in> event_pages t bs" if "j < unat n" for j
    using that by (simp add: t(4) page_range_bytes [OF n])
  have "page_base_of (dst + of_nat j) \<in> pmb_page s ` set ws" if "j < unat n" for j
    using dst [OF that] unfolding committed_at_def by (metis imageI)
  then have "event_pages t bs \<subseteq> pmb_page t ` set ws"
    using e(3) by (auto simp: t(4) e'(3) page_range_bytes [OF n] pg)
  then obtain u where u: "handle_hme_events p t = Inr (OK, u)" "refreshed ws (event_pages t bs) t u"
    using replay_refreshed [OF tw t(2)] by blast
  have run: "virtual_copy_f caller src \<lparr>proc_nr_e = dst_e, va_offset = dst\<rparr> n vmcheck s = Inr (OK, t)"
    using c n(1) src(1) d m(1) t(1) p(3)
    by (simp add: virtual_copy_f_def vir_proc_def [of "\<lparr>proc_nr_e = dst_e, va_offset = dst\<rparr>"] lin_lin_copy_procs_def record_copy_def)
  have bytes: "let b = working_set s (blk j); i = (dst + of_nat j) AND 0xFFF
       in mem t (us0 b + i) = mem s (f j) \<and> mem u (us0 b + i) = mem s (f j) \<and>
          (has_all_frames b \<and> \<not> has (pmb_flags b) H_EXEC \<longrightarrow> mem u (us1 b + i) = mem s (f j) \<and> mem u (us2 b + i) = mem s (f j))"
    if j: "j < unat n" for j
    using replayed_byte [OF l dst [OF j] u(2) _ cov [OF j]] m(2) j by (simp add: copied_def oh committed_byte_def Let_def)
  have "mem t x = mem s x" if "x \<notin> ?g ` {..<unat n}" for x using m(2) that by (simp add: copied_def oh)
  then show ?thesis using run u(1) bytes by blast
qed

text \<open>A byte at the physical address \<open>0x9000\<close> and process 1 with its page mapped to the committed frame.\<close>

definition copy_sample :: kstate where
  "copy_sample = sample_state\<lparr>mem := mem_set32 (mem_set32 (\<lambda>a. if a = 0x9000 then 42 else 0) 0x1000 0x2007) 0x200C 0x5007,
     hardening_mem_events := (\<lambda>_. zero_hme\<lparr>hme_flags := HME_SLOT_FREE\<rparr>), cr3 := 0x1000, ptproc := 1\<rparr>"

lemma copy_sample_tables:
  "pde_of 0x1000 copy_sample 0x3000 = 0x2007" "pt_of 0x1000 copy_sample 0x3000 = 0x2000" "pte_of 0x1000 copy_sample 0x3000 = 0x5007"
  by (simp_all add: pde_of_def pt_of_def pte_of_def entry_addr_def copy_sample_def mem_get32_def mem_set32_def I386_VM_PFA_def)

lemma copy_sample_world: "page_world 1 0x1000 [0] copy_sample"
proof -
  have w: "working_set copy_sample 0 = sample_block" by (simp add: copy_sample_def)
  show ?thesis
    by (simp add: page_world_def ws_list_def layout_def block_ok_def no_faults_def frames_of_def page_aligned_def
      pmb_nx_def pmb_free_def has_def copy_sample_tables w) (simp add: copy_sample_def)
qed

lemma copy_sample_committed: "committed_at 0x1000 [0] copy_sample 0x3000 0"
  by (simp add: committed_at_def copy_sample_tables pmb_page_def has_def I386_VM_PFA_def)
    (simp add: copy_sample_def)

theorem copy_reaches_both_copies_witness:
  "\<exists>t u. virtual_copy_f None \<lparr>proc_nr_e = NONE, va_offset = 0x9000\<rparr> \<lparr>proc_nr_e = 1, va_offset = 0x3000\<rparr> 1 False copy_sample = Inr (OK, t) \<and>
     handle_hme_events 1 t = Inr (OK, u) \<and> mem u 0x5000 = 42 \<and> mem u 0x6000 = 42 \<and> mem u 0x7000 = 42"
proof -
  have b: "working_set copy_sample 0 = sample_block" "mem copy_sample 0x9000 = 42" by (simp_all add: copy_sample_def mem_set32_def)
  have p: "p_cr3 (procs copy_sample 1) = 0x1000" "has (p_hflags (procs copy_sample 1)) PROC_TO_HARD" "isokendpt 1 copy_sample = Some 1"
    by (simp_all add: copy_sample_def has_def isokendpt_def ENDPOINT_P_def c_rem_def isokprocn_def isemptyn_def)
      (simp_all add: sample_state_def zero_proc_def)
  have e: "hme_list 1 copy_sample []" "hme_room copy_sample"
    by (auto simp: hme_list_def hme_room_def hme_free_def copy_sample_def sample_state_def zero_proc_def has_def intro!: exI [of _ 0])
  have c: "copy_asserts None (Some 1) copy_sample = Inr copy_sample"
    by (simp add: copy_asserts_def copy_sample_def RTS_ISSET_def has_def) (simp add: sample_state_def zero_proc_def has_def)
  have s: "source_at [0] copy_sample None 0x9000 (unat (1::u32)) (\<lambda>_. 0x9000)"
    by (simp add: source_at_def access_rd_def b I386_VM_PFA_def) (simp add: copy_sample_def)
  have "page_world 1 0x1000 [0] copy_sample" "\<not> iskernelp 1" by (simp_all add: copy_sample_world iskernelp_def)
  from copy_reaches_both_copies [OF this p(1,2) _ p(3) _ _ e _ _ _ c _ _, of 1 "0x3000" False None "\<lparr>proc_nr_e = NONE, va_offset = 0x9000\<rparr>" "\<lambda>_. 0x9000" "\<lambda>_. 0"]
  show ?thesis using copy_sample_committed s b
    by (simp add: event_pages_def check_resumed_caller_def vir_proc_def Let_def has_all_frames_def has_def) blast
qed

lemma lin_lin_copy_frames:
  assumes "page_aligned src" "page_aligned dst" "src \<noteq> dst" "no_faults s" "copy_asserts None None s = Inr s"
  shows "lin_lin_copy_procs None src None dst I386_PAGE_SIZE s = Inr (lin_lin_copy src dst I386_PAGE_SIZE s)"
proof -
  let ?f = "\<lambda>j. src + of_nat j" let ?g = "\<lambda>j. dst + of_nat j"
  have small: "(of_nat j :: u32) < 4096" if "j < 4096" for j
    using that by (simp add: word_less_nat_alt unsigned_of_nat take_bit_nat_eq_self)
  have "inj_on ?g {..<unat (4096 :: u32)}" by (rule inj_onI) (use of_nat_offsets_inj [of _ 4096] in auto)
  moreover have "?f ` {..<unat (4096 :: u32)} \<inter> ?g ` {..<unat (4096 :: u32)} = {}"
    using frame_bytes_distinct [OF assms(1-3) small small] by auto
  ultimately have "copy_map None src None dst (unat (4096 :: u32)) ?f ?g s"
    using assms(4) by (simp add: copy_map_def access_rd_def access_wr_def no_faults_def)
  from copy_chunks_copied [OF this] obtain m where
    m: "copy_chunks None src None dst 4096 s = Inr (OK, s\<lparr>mem := m\<rparr>)" "copied ?f ?g 4096 (mem s) m" by auto
  have "m a = mem_copy (mem s) src dst 4096 a" for a
  proof (cases "a - dst < 4096")
    case True
    then have "unat (a - dst) < 4096" by (simp add: word_less_nat_alt)
    then have "m (?g (unat (a - dst))) = mem s (?f (unat (a - dst)))" using m(2) unfolding copied_def by blast
    then show ?thesis using True by (simp add: mem_copy_def)
  next
    case False
    then have "a \<notin> ?g ` {..<4096}" using small by auto
    then show ?thesis using m(2) False by (simp add: copied_def mem_copy_def)
  qed
  then have "m = mem_copy (mem s) src dst 4096" by (rule ext)
  then show ?thesis using m(1) assms(4,5) by (simp add: lin_lin_copy_procs_def lin_lin_copy_def no_faults_def)
qed

text \<open>C25. The page copy of the hardening is the general copy routine: for two different frames of
  physical memory, when memory does not fault and the assertions of the routine hold, the loop over the windows and the moves of \<open>phys_copy\<close> has the
  effect that \<open>cpy_frames\<close> and its callers are modelled with.
\<close>

theorem lin_lin_copy_physical:
  assumes "page_aligned src" "page_aligned dst" "src \<noteq> dst" "no_faults s" "copy_asserts None None s = Inr s"
  shows "lin_lin_copy_procs None src None dst I386_PAGE_SIZE s = Inr (lin_lin_copy src dst I386_PAGE_SIZE s)"
  using lin_lin_copy_frames [OF assms] .

theorem lin_lin_copy_physical_witness:
  "lin_lin_copy_procs None 0x5000 None 0x6000 I386_PAGE_SIZE copy_sample = Inr (lin_lin_copy 0x5000 0x6000 I386_PAGE_SIZE copy_sample)"
proof -
  have "copy_asserts None None copy_sample = Inr copy_sample"
    by (simp add: copy_asserts_def copy_sample_def RTS_ISSET_def has_def) (simp add: sample_state_def zero_proc_def has_def)
  moreover have "no_faults copy_sample" using copy_sample_world by (simp add: page_world_def)
  ultimately show ?thesis using lin_lin_copy_physical [of "0x5000" "0x6000" copy_sample] by (simp add: page_aligned_def)
qed

text \<open>A fault at address zero is taken for success: a copy that starts at an unmapped page zero of the running
  process, and that fits one window, moves nothing and still returns \<open>OK\<close>.
\<close>

theorem null_copy_succeeds:
  assumes "srcproc = Some (ptproc s)" "page_walk (root_of (ptproc s) s) s 0 = None" "n \<noteq> 0" "snd (createpde dstproc dst n 1 s) = n"
    "copy_asserts srcproc dstproc s = Inr s"
  shows "lin_lin_copy_procs srcproc 0 dstproc dst n s = Inr (OK, s)"
proof -
  obtain d where d: "createpde dstproc dst n (Suc 0) s = (d, n)" using assms(4) by (cases "createpde dstproc dst n 1 s") simp
  have rd: "access_rd (Some (ptproc s)) s 0 = None" using assms(2) by (simp add: access_rd_def)
  have k: "unat n \<noteq> 0" using assms(3) by (simp add: unat_eq_0)
  have first: "\<exists>k ks. copy_units 0 (unat n) = Suc k # ks"
  proof (cases "unat n < 10")
    case True
    then show ?thesis using k by (cases "unat n") (auto simp: copy_units_def)
  next
    case False
    then have "\<exists>q. unat n div 4 = Suc q" by (intro exI [of _ "unat n div 4 - 1"]) simp
    then show ?thesis using False by (auto simp: copy_units_def)
  qed
  then obtain j ks where u: "copy_units 0 (unat n) = Suc j # ks" by blast
  have "find (\<lambda>i. access_rd (Some (ptproc s)) s (word_of_nat i) = None) [0 ..< Suc j] = Some 0"
    using rd by (simp add: upt_rec del: upt_Suc)
  then have "movs (Suc j) (Some (ptproc s)) 0 dstproc dst 0 s = Inl (RdFault 0)"
    by (simp add: movs_def Let_def del: upt_Suc)
  note mv = this
  have cp: "createpde (Some (ptproc s)) 0 n 0 s = (0, n)" by (simp add: createpde_def)
  have "copy_chunks (Some (ptproc s)) 0 dstproc dst n s = Inr (OK, s)"
    using assms(3) by (subst copy_chunks.simps) (simp add: cp d u mv fault_result_def copy_chunks.simps [of _ _ _ _ 0])
  then show ?thesis using assms(1,5) by (simp add: lin_lin_copy_procs_def)
qed

theorem null_copy_succeeds_witness:
  "page_walk 0x1000 copy_sample 0 = None \<and> lin_lin_copy_procs (Some 1) 0 None 0x8000 4 copy_sample = Inr (OK, copy_sample)"
proof -
  have w: "page_walk 0x1000 copy_sample 0 = None"
    by (simp add: page_walk_def Let_def pde_of_def pte_of_def pt_of_def entry_addr_def copy_sample_def mem_get32_def mem_set32_def
        I386_VM_PFA_def I386_VM_PDE_def I386_VM_PTE_def has_def)
  have c: "copy_asserts (Some 1) None copy_sample = Inr copy_sample" "ptproc copy_sample = 1" "root_of 1 copy_sample = 0x1000"
    by (simp_all add: copy_asserts_def copy_sample_def RTS_ISSET_def has_def root_of_def iskernelp_def) (simp add: sample_state_def zero_proc_def has_def)
  then show ?thesis using null_copy_succeeds [of "Some 1" copy_sample 4 None "0x8000"] w by (simp add: createpde_def Let_def min_def)
qed

end
