(* ===== verification/Grant_Laws.thy ===== *)
theory Grant_Laws
  imports Grants Copy_Laws
begin

text \<open>
  Laws of the grants: what a verified grant allows, that chains of
  grants cannot loop, and the unbounded vector of \<open>do_vsafecopy\<close>.
\<close>

section \<open>Granted memory\<close>

text \<open>
  The specification of the grants: an entry of a table, and the chains of indirect grants that lead
  from the grant a process names to the entry that gives the memory.
\<close>

definition grant_entry :: "kstate \<Rightarrow> int \<Rightarrow> int \<Rightarrow> cp_grant_t \<Rightarrow> bool" where
  "grant_entry s granter grant g \<longleftrightarrow>
     (\<exists>p old. isokendpt granter s = Some p \<and> 0 \<le> grant \<and> grant < s_grant_entries (priv_of s p) \<and> s_grant_table (priv_of s p) \<noteq> 0 \<and>
        copy_in p (s_grant_table (priv_of s p) + 36 * of_int grant) old s = (OK, g)) \<and>
     cp_flags g AND (CPF_USED OR CPF_VALID) = CPF_USED OR CPF_VALID"

inductive grants :: "kstate \<Rightarrow> int \<Rightarrow> int \<Rightarrow> int \<Rightarrow> nat \<Rightarrow> int \<Rightarrow> int \<Rightarrow> cp_grant_t \<Rightarrow> bool" for s where
  own: "grant_entry s granter grant g \<Longrightarrow> \<not> has (cp_flags g) CPF_INDIRECT \<Longrightarrow> grants s granter grantee grant 0 granter grantee g"
| via: "grant_entry s granter grant h \<Longrightarrow> has (cp_flags h) CPF_INDIRECT \<Longrightarrow> may_use (cp_indirect_who_to h) grantee \<Longrightarrow>
    grants s (cp_indirect_who_from h) granter (cp_indirect_grant h) n G E g \<Longrightarrow> grants s granter grantee grant (Suc n) G E g"

lemma follow_grants_sound:
  "follow_grants left g0 granter grantee grant s = Inr (Inr (g, G, E)) \<Longrightarrow> \<exists>n \<le> left. grants s granter grantee grant n G E g"
proof (induction left g0 granter grantee grant s rule: follow_grants.induct)
  case (1 left g0 granter grantee grant s)
  obtain p where p: "isokendpt granter s = Some p" "0 \<le> grant" "s_grant_table (priv_of s p) \<noteq> 0" "grant < s_grant_entries (priv_of s p)"
    "isokendpt KERNEL s \<noteq> None"
    using 1(2) by (subst (asm) follow_grants.simps) (auto simp: GRANT_VALID_def HASGRANTTABLE_def split: option.splits if_splits)
  have ca: "copy_asserts (Some p) (Some KERNEL) s = Inr s"
    using 1(2) p by (subst (asm) follow_grants.simps)
      (auto simp: GRANT_VALID_def HASGRANTTABLE_def bnd_eq_Inr copy_asserts_def kassert_eq_Inr Let_def split: if_splits)
  obtain r h where c: "copy_in p (s_grant_table (priv_of s p) + 36 * of_int grant) g0 s = (r, h)" by fastforce
  note step = 1(2) [unfolded follow_grants.simps [of left g0]]
  have r: "r = OK" "cp_flags h AND (CPF_USED OR CPF_VALID) = CPF_USED OR CPF_VALID"
    using step p ca c by (auto simp: GRANT_VALID_def HASGRANTTABLE_def split: if_splits)
  have e: "grant_entry s granter grant h" using p c r by (auto simp: grant_entry_def)
  show ?case
  proof (cases "has (cp_flags h) CPF_INDIRECT")
    case False
    then have "g = h" "G = granter" "E = grantee"
      using step p ca c r by (auto simp: GRANT_VALID_def HASGRANTTABLE_def)
    then show ?thesis using own [OF e False] by blast
  next
    case True
    then obtain l where l: "left = Suc l" "may_use (cp_indirect_who_to h) grantee"
      "follow_grants l h (cp_indirect_who_from h) granter (cp_indirect_grant h) s = Inr (Inr (g, G, E))"
      using step p ca c r by (auto simp: GRANT_VALID_def HASGRANTTABLE_def split: nat.splits if_splits)
    have "\<not> \<not> GRANT_VALID grant" "\<not> \<not> HASGRANTTABLE p s" "\<not> s_grant_entries (priv_of s p) \<le> grant"
      using p by (simp_all add: GRANT_VALID_def HASGRANTTABLE_def)
    then obtain n where "n \<le> l" "grants s (cp_indirect_who_from h) granter (cp_indirect_grant h) n G E g"
      using 1(1) [OF p(1) _ _ _ p(5) ca c [symmetric] _ _ True l(1) _ l(3)] r l(2) by auto
    then show ?thesis using via [OF e True l(2)] l(1) by (metis Suc_le_mono)
  qed
qed

lemma follow_grants_codes: "follow_grants left g0 granter grantee grant s = Inr (Inl e) \<Longrightarrow> e \<in> {EINVAL, EPERM, ELOOP}"
proof (induction left arbitrary: g0 granter grantee grant)
  case 0
  then show ?case unfolding follow_grants.simps [of 0 g0]
    by (auto simp: bnd_eq_Inr split: option.split_asm if_split_asm prod.split_asm)
next
  case (Suc l)
  note IH = Suc.IH
  show ?case using Suc.prems unfolding follow_grants.simps [of "Suc l" g0]
    by (auto simp: bnd_eq_Inr split: option.split_asm if_split_asm prod.split_asm dest!: IH)
qed

lemma verify_grant_cases:
  assumes "verify_grant g0 granter grantee grant n access off s = Inr v"
  obtains (refused) e where "follow_grants MAX_INDIRECT_DEPTH g0 granter grantee grant s = Inr (Inl e)" "v = Inl e"
    | (entry) g G E where "follow_grants MAX_INDIRECT_DEPTH g0 granter grantee grant s = Inr (Inr (g, G, E))" "v = check_grant g G E n access off"
proof -
  obtain r where r: "follow_grants MAX_INDIRECT_DEPTH g0 granter grantee grant s = Inr r"
    "(case r of Inl e \<Rightarrow> Inr (Inl e) | Inr (g, granter, grantee) \<Rightarrow> Inr (check_grant g granter grantee n access off)) = (Inr v :: stop + _)"
    using assms unfolding verify_grant_def bnd_eq_Inr by (elim exE conjE) blast
  show thesis using r that by (cases r) auto
qed

lemma verify_grant_codes: "verify_grant g0 granter grantee grant n access off s = Inr (Inl e) \<Longrightarrow> e \<in> {EINVAL, EPERM, ELOOP}"
  by (erule verify_grant_cases) (auto simp: check_grant_def dest!: follow_grants_codes split: if_split_asm)

text \<open>What a verified grant allows.\<close>

definition allows :: "cp_grant_t \<Rightarrow> int \<Rightarrow> int \<Rightarrow> u32 \<Rightarrow> u32 \<Rightarrow> int \<Rightarrow> u32 \<Rightarrow> bool" where
  "allows g granter grantee access n e addr \<longleftrightarrow>
     cp_flags g AND access = access \<and>
     (if has (cp_flags g) CPF_DIRECT
      then may_use (cp_direct_who_to g) grantee \<and> e = granter \<and>
           unat (cp_direct_start g) \<le> unat addr \<and> unat addr + unat n \<le> unat (cp_direct_start g) + unat (cp_direct_len g) \<and>
           unat addr + unat n \<le> 2 ^ 32
      else has (cp_flags g) CPF_MAGIC \<and> granter = VFS_PROC_NR \<and> e = cp_magic_who_from g \<and>
           (may_use (cp_magic_who_to g) grantee \<or> e = ANY) \<and>
           unat (addr - cp_magic_start g) + unat n \<le> unat (cp_magic_len g))"

lemma no_overflow: "\<not> (a + b < a) \<Longrightarrow> a + b \<le> c \<Longrightarrow> unat a + unat b \<le> unat (c :: u32)"
proof -
  assume "\<not> a + b < a" "a + b \<le> c"
  then have "unat a \<le> unat (a + b)" "unat (a + b) \<le> unat c" by (simp_all add: word_le_nat_alt not_less)
  moreover have "unat (a + b) = (if unat a + unat b < 2 ^ 32 then unat a + unat b else unat a + unat b - 2 ^ 32)"
    using unsigned_less [of a, where ?'a = nat] unsigned_less [of b, where ?'a = nat] by (simp add: unat_word_ariths mod_if)
  moreover have "unat b < 2 ^ 32" using unsigned_less [of b, where ?'a = nat] by simp
  ultimately show ?thesis by (auto split: if_splits)
qed

lemma unat_neg: "(a :: u32) \<noteq> 0 \<Longrightarrow> unat a + unat (- a) = 2 ^ 32"
proof -
  assume "a \<noteq> 0"
  then have "unat a > 0" by (simp add: unat_gt_0)
  moreover have "(unat a + unat (- a)) mod 2 ^ 32 = 0" using unat_word_ariths(1) [of a "- a"] by simp
  moreover have "unat a < 2 ^ 32" "unat (- a) < 2 ^ 32"
    using unsigned_less [of a, where ?'a = nat] unsigned_less [of "- a", where ?'a = nat] by simp_all
  ultimately show ?thesis by (auto simp: mod_if split: if_splits)
qed

lemma direct_room:
  assumes "\<not> (MEM_TOP - len + 1 < start)" "unat off + unat n \<le> unat (len :: u32)" "n \<noteq> 0"
  shows "unat (start + off) = unat start + unat off" "unat start + unat off + unat n \<le> 2 ^ 32"
proof -
  have e: "MEM_TOP - len + 1 = - len" by simp
  have le: "unat start \<le> unat (- len)" using assms(1) unfolding e by (simp add: word_le_nat_alt not_less)
  have "unat n > 0" using assms(3) by (simp add: unat_gt_0)
  then have "len \<noteq> 0" using assms(2) by auto
  then have "unat len + unat (- len) = 2 ^ 32" by (rule unat_neg)
  then have "unat start + unat len \<le> 2 ^ 32" using le by linarith
  then show "unat start + unat off + unat n \<le> 2 ^ 32" using assms(2) by linarith
  then show "unat (start + off) = unat start + unat off" using \<open>unat n > 0\<close> by (simp add: unat_word_ariths)
qed

lemma check_grant_allows:
  assumes c: "check_grant g G E n access off = Inr (addr, e)" and n: "n \<noteq> 0"
  shows "allows g G E access n e addr"
proof (cases "has (cp_flags g) CPF_DIRECT")
  case True
  then have d: "cp_flags g AND access = access" "\<not> (MEM_TOP - cp_direct_len g + 1 < cp_direct_start g)"
    "may_use (cp_direct_who_to g) E" "\<not> off + n < off" "off + n \<le> cp_direct_len g" "addr = cp_direct_start g + off" "e = G"
    using c by (auto simp: check_grant_def may_use_def split: if_splits)
  note o = no_overflow [OF d(4,5)]
  show ?thesis using True d direct_room [OF d(2) o n] o by (simp add: allows_def)
next
  case False
  then have m: "cp_flags g AND access = access" "has (cp_flags g) CPF_MAGIC" "G = VFS_PROC_NR"
    "may_use (cp_magic_who_to g) E \<or> cp_direct_who_to g = ANY" "\<not> off + n < off" "off + n \<le> cp_magic_len g"
    "addr = cp_magic_start g + off" "e = cp_magic_who_from g"
    using c by (auto simp: check_grant_def may_use_def split: if_splits)
  have "cp_direct_who_to g = cp_magic_who_from g" by (simp add: cp_direct_who_to_def cp_magic_who_from_def)
  then show ?thesis using False m no_overflow [OF m(5,6)] by (simp add: allows_def)
qed

text \<open>C14. A grant is honoured only within its terms: when the verification of a non-empty range
  succeeds, a chain of at most five indirect grants, each of a valid entry of a live granter's table and each usable by
  the process that names it, leads to an entry that allows the access, to that process, and
  the range lies inside the granted memory; for a direct grant it does not wrap around the
  address space either.
\<close>

theorem verify_grant_sound:
  assumes "verify_grant g0 granter grantee grant n access off s = Inr (Inr (addr, e))" "n \<noteq> 0"
  shows "\<exists>k G E g. k \<le> MAX_INDIRECT_DEPTH \<and> grants s granter grantee grant k G E g \<and> allows g G E access n e addr"
proof -
  obtain g G E where f: "follow_grants MAX_INDIRECT_DEPTH g0 granter grantee grant s = Inr (Inr (g, G, E))"
    and c: "check_grant g G E n access off = Inr (addr, e)"
    by (rule verify_grant_cases [OF assms(1)]) auto
  show ?thesis using follow_grants_sound [OF f] check_grant_allows [OF c assms(2)] by blast
qed

section \<open>Refused and overlong requests\<close>

lemma follow_grants_loop:
  assumes p: "isokendpt granter s = Some p" "GRANT_VALID grant" "HASGRANTTABLE p s" "grant < s_grant_entries (priv_of s p)"
    "isokendpt KERNEL s \<noteq> None" "copy_asserts (Some p) (Some KERNEL) s = Inr s"
    and g: "\<And>old. length old = 36 \<Longrightarrow> copy_in p (s_grant_table (priv_of s p) + 36 * of_int grant) old s = (OK, g)" "length g = 36"
    "cp_flags g AND (CPF_USED OR CPF_VALID) = CPF_USED OR CPF_VALID" "has (cp_flags g) CPF_INDIRECT"
    "cp_indirect_who_from g = granter" "cp_indirect_grant g = grant" "may_use (cp_indirect_who_to g) granter"
  shows "length g0 = 36 \<Longrightarrow> may_use (cp_indirect_who_to g) grantee \<Longrightarrow> follow_grants k g0 granter grantee grant s = Inr (Inl ELOOP)"
proof (induction k arbitrary: g0 grantee)
  case 0
  then show ?case using p g by (subst follow_grants.simps) auto
next
  case (Suc k)
  then show ?case using p g Suc.IH [OF g(2,7)] by (subst follow_grants.simps) auto
qed

text \<open>A grant that refers to itself does not keep the kernel in the loop: the verification follows it
  five times and answers \<open>ELOOP\<close>.
\<close>

theorem grant_loop_refused:
  assumes "isokendpt granter s = Some p" "0 \<le> grant" "s_grant_table (priv_of s p) \<noteq> 0" "grant < s_grant_entries (priv_of s p)"
    "isokendpt KERNEL s \<noteq> None" "copy_asserts (Some p) (Some KERNEL) s = Inr s"
    and "\<And>old. length old = 36 \<Longrightarrow> copy_in p (s_grant_table (priv_of s p) + 36 * of_int grant) old s = (OK, g)" "length g = 36"
    "cp_flags g AND (CPF_USED OR CPF_VALID) = CPF_USED OR CPF_VALID" "has (cp_flags g) CPF_INDIRECT"
    "cp_indirect_who_from g = granter" "cp_indirect_grant g = grant" "cp_indirect_who_to g = ANY" and "length g0 = 36"
  shows "verify_grant g0 granter grantee grant n access off s = Inr (Inl ELOOP)"
proof -
  have "follow_grants MAX_INDIRECT_DEPTH g0 granter grantee grant s = Inr (Inl ELOOP)"
    by (rule follow_grants_loop) (use assms in \<open>auto simp: GRANT_VALID_def HASGRANTTABLE_def may_use_def\<close>)
  then show ?thesis by (simp add: verify_grant_def)
qed

text \<open>C37. \<open>do_vsafecopy\<close> does not bound the number of elements: a vector of more than
  \<open>SCPVEC_NR\<close> elements in readable memory overruns the kernel's array.
\<close>

theorem vsafecopy_overflow:
  assumes "p_endpoint (procs s c) \<noteq> NONE" "isokendpt (p_endpoint (procs s c)) s \<noteq> None" "isokendpt KERNEL s \<noteq> None"
    "check_resumed_caller (Some c) s = Inr OK" "copy_asserts (Some c) (Some KERNEL) s = Inr s" "length vec = 24 * SCPVEC_NR"
    "SCPVEC_NR < unat (m2_l2 m)" "24 * unat (m2_l2 m) < 2 ^ 32"
    "\<And>j. j \<le> 24 * SCPVEC_NR \<Longrightarrow> access_rd (Some c) s (m2_p1 m + of_nat j) \<noteq> None"
  shows "do_vsafecopy g0 vec c m s = Inl OutOfBounds"
proof -
  let ?b = "24 * m2_l2 m"
  have b: "unat ?b = 24 * unat (m2_l2 m)" using assms(8) by (simp add: unat_word_ariths)
  have gt: "24 * SCPVEC_NR < unat ?b" using assms(7) unfolding b by simp
  then have nz: "?b \<noteq> 0" by (metis less_nat_zero_code unat_0)
  have mn: "min (unat ?b) (24 * SCPVEC_NR) = 24 * SCPVEC_NR" using gt by simp
  have "find (\<lambda>j. access_rd (Some c) s (m2_p1 m + of_nat j) = None) [0 ..< length vec] = None"
    unfolding find_none assms(6) using assms(9) by auto
  then obtain v where v: "copy_in c (m2_p1 m) vec s = (OK, v)" by (simp add: copy_in_def Let_def)
  have tk: "take (24 * SCPVEC_NR) vec = vec" using assms(6) by simp
  have "access_rd (Some c) s (m2_p1 m + of_nat (24 * SCPVEC_NR)) \<noteq> None" by (rule assms(9)) simp
  then have "fetch_vec vec c (m2_p1 m) ?b s = Inl OutOfBounds"
    unfolding fetch_vec_def Let_def mn tk using nz assms(2-5) gt by (simp add: v)
  then show ?thesis using assms(1) by (simp add: do_vsafecopy_def kassert_def)
qed

section \<open>A process with grants\<close>

text \<open>
  Process 1 has its table at \<open>0x3000\<close>: grant 0 gives process 2 read and write access to sixteen
  bytes at \<open>0x3100\<close>, grant 1 refers to itself. Process 2 has a page of its own at \<open>0x3000\<close>.
\<close>

definition grant_sample :: kstate where
  "grant_sample = copy_sample\<lparr>mem := fold (\<lambda>(a, v) m. mem_set32 m a v)
       [(0x5000, 0x1303), (0x5004, 2), (0x5008, 0x3100), (0x500C, 0x10),
        (0x5024, 0x1500), (0x5028, 0x7ace), (0x502C, 1), (0x5030, 1),
        (0xA000, 0xB007), (0xB00C, 0xC007), (0xC000, 42)] (mem copy_sample),
     procs := (procs copy_sample)(KERNEL := (procs copy_sample KERNEL)\<lparr>p_endpoint := KERNEL\<rparr>,
       2 := (procs copy_sample 1)\<lparr>p_nr := 2, p_endpoint := 2, p_cr3 := 0xA000\<rparr>),
     ppriv_addr := (ppriv_addr copy_sample)(0 := zero_priv\<lparr>s_grant_table := 0x3000, s_grant_entries := 2\<rparr>)\<rparr>"

lemma page_offset:
  assumes "page_aligned f" "x < 4096"
  shows "page_base_of (f + x) = f" "(f + x) AND 0xFFF = x"
proof -
  obtain k where k: "unat f = 4096 * k" using assms(1) by (auto simp: aligned_iff)
  have "unat x < 4096" using assms(2) by (simp add: word_less_nat_alt)
  then have "unat (f + x) div 4096 * 4096 = unat f" using aligned_no_carry [OF assms] k by simp
  then show b: "page_base_of (f + x) = f" by (simp add: page_base_nat)
  have "f + x = f + ((f + x) AND 0xFFF)" using page_split [of "f + x"] unfolding b .
  then show "(f + x) AND 0xFFF = x" by (metis add_left_cancel)
qed

lemma grant_sample_mem:
  "mem_get32 (mem grant_sample) 0x1000 = 0x2007" "mem_get32 (mem grant_sample) 0x200C = 0x5007"
  "mem_get32 (mem grant_sample) 0x5000 = 0x1303" "mem_get32 (mem grant_sample) 0x5004 = 2"
  "mem_get32 (mem grant_sample) 0x5008 = 0x3100" "mem_get32 (mem grant_sample) 0x500C = 0x10"
  "mem_get32 (mem grant_sample) 0x5024 = 0x1500" "mem_get32 (mem grant_sample) 0x5028 = 0x7ace"
  "mem_get32 (mem grant_sample) 0x502C = 1" "mem_get32 (mem grant_sample) 0x5030 = 1"
  by (simp_all add: grant_sample_def copy_sample_def mem_get32_def mem_set32_def)

lemma grant_sample_access: "j < 4096 \<Longrightarrow> access_rd (Some 1) grant_sample (0x3000 + of_nat j) = Some (0x5000 + of_nat j)"
proof -
  assume "j < 4096"
  then have j: "(of_nat j :: u32) < 4096" by (simp add: word_less_nat_alt unsigned_of_nat take_bit_nat_eq_self)
  have al: "page_aligned 0x3000" by (simp add: page_aligned_def)
  note po = page_offset [OF al j]
  have "I386_VM_PDE (0x3000 + of_nat j) = 0" "I386_VM_PTE (0x3000 + of_nat j) = 3"
    using PDE_base [of "0x3000 + of_nat j"] PTE_base [of "0x3000 + of_nat j"] unfolding po(1) by simp_all
  then have t: "pde_of 0x1000 grant_sample (0x3000 + of_nat j) = 0x2007" "pte_of 0x1000 grant_sample (0x3000 + of_nat j) = 0x5007"
    by (simp_all add: pde_of_def pte_of_def pt_of_def entry_addr_def grant_sample_mem I386_VM_PFA_def)
  have "p_cr3 (procs grant_sample 1) = 0x1000" "rd_fault grant_sample = (\<lambda>_. False)" by (simp_all add: grant_sample_def copy_sample_def)
  then show ?thesis by (simp add: access_rd_def root_of_def iskernelp_def page_walk_def t po(2) has_def I386_VM_PFA_def Let_def)
qed

lemma grant_sample_copy_in:
  assumes "k + length old \<le> 4096"
  shows "copy_in 1 (0x3000 + of_nat k) old grant_sample = (OK, map (\<lambda>j. mem grant_sample (0x5000 + of_nat (k + j))) [0 ..< length old])"
proof -
  have a: "access_rd (Some 1) grant_sample (0x3000 + of_nat k + of_nat j) = Some (0x5000 + of_nat (k + j))" if "j < length old" for j
    using grant_sample_access [of "k + j"] assms that by (simp add: add.assoc)
  then have "find (\<lambda>j. access_rd (Some 1) grant_sample (0x3000 + of_nat k + of_nat j) = None) [0 ..< length old] = None"
    by (simp add: find_none)
  then show ?thesis using a by (simp add: copy_in_def Let_def)
qed

lemma le32_map: "k + 3 < n \<Longrightarrow> le32 (map (\<lambda>j. m (a + of_nat (b + j))) [0 ..< n]) k = mem_get32 m (a + of_nat (b + k))"
  by (simp add: le32_def mem_get32_def algebra_simps)

lemma grant_sample_procs:
  "isokendpt 1 grant_sample = Some 1" "isokendpt KERNEL grant_sample \<noteq> None" "copy_asserts (Some 1) (Some KERNEL) grant_sample = Inr grant_sample"
  "priv_of grant_sample 1 = zero_priv\<lparr>s_grant_table := 0x3000, s_grant_entries := 2\<rparr>" "p_endpoint (procs grant_sample 1) = 1"
  "check_resumed_caller (Some 1) grant_sample = Inr OK"
proof -
  have pr: "procs grant_sample 1 = procs sample_state 1" "p_endpoint (procs grant_sample KERNEL) = KERNEL"
    "p_rts_flags (procs grant_sample KERNEL) = p_rts_flags (procs sample_state KERNEL)" "ppriv_addr grant_sample 0 = zero_priv\<lparr>s_grant_table := 0x3000, s_grant_entries := 2\<rparr>"
    "cr3 grant_sample = 0x1000" "ptproc grant_sample = 1"
    by (simp_all add: grant_sample_def copy_sample_def)
  have f: "p_rts_flags (procs sample_state x) = 0" "p_endpoint (procs sample_state 1) = 1"
    "p_priv (procs sample_state 1) = 0" "p_misc_flags (procs sample_state 1) = 0" for x
    by (simp_all add: sample_state_def bss_state_def zero_proc_def)
  show "isokendpt 1 grant_sample = Some 1" "copy_asserts (Some 1) (Some KERNEL) grant_sample = Inr grant_sample"
    "priv_of grant_sample 1 = zero_priv\<lparr>s_grant_table := 0x3000, s_grant_entries := 2\<rparr>" "p_endpoint (procs grant_sample 1) = 1"
    "check_resumed_caller (Some 1) grant_sample = Inr OK"
    by (simp_all add: pr f isokendpt_def ENDPOINT_P_def c_rem_def isokprocn_def isemptyn_def copy_asserts_def RTS_ISSET_def priv_of_def
        check_resumed_caller_def misc_is_def)
  show "isokendpt KERNEL grant_sample \<noteq> None"
    by (simp add: pr f isokendpt_def ENDPOINT_P_def c_rem_def isokprocn_def isemptyn_def)
qed

text \<open>The two entries as they are fetched.\<close>

definition sample_entry :: "nat \<Rightarrow> cp_grant_t" where
  "sample_entry k = map (\<lambda>j. mem grant_sample (0x5000 + of_nat (k + j))) [0 ..< 36]"

lemma grant_sample_entry:
  assumes "length old = 36"
  shows "copy_in 1 0x3000 old grant_sample = (OK, sample_entry 0)" "copy_in 1 0x3024 old grant_sample = (OK, sample_entry 36)"
  using grant_sample_copy_in [of 0 old] grant_sample_copy_in [of 36 old] assms by (simp_all add: sample_entry_def)

lemma sample_entry_fields:
  "cp_flags (sample_entry 0) = 0x1303" "cp_direct_who_to (sample_entry 0) = 2" "cp_direct_start (sample_entry 0) = 0x3100"
  "cp_direct_len (sample_entry 0) = 0x10" "cp_flags (sample_entry 36) = 0x1500" "cp_indirect_who_to (sample_entry 36) = ANY"
  "cp_indirect_who_from (sample_entry 36) = 1" "cp_indirect_grant (sample_entry 36) = 1" "length (sample_entry k) = 36"
  by (simp_all only: sample_entry_def cp_flags_def cp_direct_who_to_def cp_direct_start_def cp_direct_len_def cp_indirect_who_to_def
      cp_indirect_who_from_def cp_indirect_grant_def le32_map) (simp_all add: grant_sample_mem)

lemma grant_sample_follow: "follow_grants MAX_INDIRECT_DEPTH (replicate 36 0) 1 2 0 grant_sample = Inr (Inr (sample_entry 0, 1, 2))"
  using grant_sample_procs grant_sample_entry [of "replicate 36 0"] sample_entry_fields
  by (subst follow_grants.simps) (simp add: GRANT_VALID_def HASGRANTTABLE_def zero_priv_def has_def)

theorem verify_grant_sound_witness:
  "\<exists>k G E g. k \<le> MAX_INDIRECT_DEPTH \<and> grants grant_sample 1 2 0 k G E g \<and> allows g G E CPF_READ 4 1 0x3108"
proof (rule verify_grant_sound)
  show "verify_grant (replicate 36 0) 1 2 0 4 CPF_READ 8 grant_sample = Inr (Inr (0x3108, 1))"
    by (simp add: verify_grant_def grant_sample_follow check_grant_def sample_entry_fields has_def)
qed simp

theorem grant_loop_refused_witness: "verify_grant (replicate 36 0) 1 2 1 4 CPF_READ 8 grant_sample = Inr (Inl ELOOP)"
proof (rule grant_loop_refused [OF grant_sample_procs(1) _ _ _ grant_sample_procs(2,3)])
  show "copy_in 1 (s_grant_table (priv_of grant_sample 1) + 36 * word_of_int 1) old grant_sample = (OK, sample_entry 36)" if "length old = 36" for old
    using grant_sample_entry(2) [OF that] by (simp add: grant_sample_procs)
qed (simp_all add: grant_sample_procs sample_entry_fields zero_priv_def has_def)

theorem vsafecopy_overflow_witness:
  "do_vsafecopy (replicate 36 0) (replicate (24 * SCPVEC_NR) 0) 1 (zero_msg\<lparr>m2_p1 := 0x3000, m2_l2 := 65\<rparr>) grant_sample = Inl OutOfBounds"
  by (rule vsafecopy_overflow) (use grant_sample_procs grant_sample_access in \<open>auto\<close>)

end
