(* ===== verification/Safecopy_Laws.thy ===== *)
theory Safecopy_Laws
  imports Grant_Laws
begin

text \<open>
  Confinement of the copies under grants: what \<open>virtual_copy_f\<close> may change in memory, whatever its outcome,
  and that \<open>safecopy\<close> therefore writes inside the granted range, or reads from it, and nowhere else.
\<close>

section \<open>The bytes of a copy\<close>

text \<open>
  The physical bytes behind a range of a process, and those of the page tables that map it.
\<close>

definition rd_bytes :: "int option \<Rightarrow> u32 \<Rightarrow> nat \<Rightarrow> kstate \<Rightarrow> u32 set" where
  "rd_bytes pr a n s = {x. \<exists>j < n. access_rd pr s (a + of_nat j) = Some x}"

definition wr_bytes :: "int option \<Rightarrow> u32 \<Rightarrow> nat \<Rightarrow> kstate \<Rightarrow> u32 set" where
  "wr_bytes pr a n s = {x. \<exists>j < n. access_wr pr s (a + of_nat j) = Some x}"

definition entry_bytes :: "u32 \<Rightarrow> u32 set" where
  "entry_bytes a = {a, a + 1, a + 2, a + 3}"

definition table_bytes :: "int option \<Rightarrow> u32 \<Rightarrow> nat \<Rightarrow> kstate \<Rightarrow> u32 set" where
  "table_bytes pr a n s =
     (case pr of
        None \<Rightarrow> {}
      | Some p \<Rightarrow> (\<Union>j < n. entry_bytes (entry_addr (root_of p s) (I386_VM_PDE (a + of_nat j))) \<union>
                      entry_bytes (entry_addr (pt_of (root_of p s) s (a + of_nat j)) (I386_VM_PTE (a + of_nat j)))))"

text \<open>The memory after a copy: a byte that changed lies in \<open>D\<close> and was taken from \<open>S\<close>.\<close>

definition flows :: "u32 set \<Rightarrow> u32 set \<Rightarrow> (u32 \<Rightarrow> u8) \<Rightarrow> (u32 \<Rightarrow> u8) \<Rightarrow> bool" where
  "flows S D m m' \<longleftrightarrow> (\<forall>x. m' x = m x \<or> x \<in> D \<and> (\<exists>y \<in> S. m' x = m y))"

lemma flows_refl [simp]: "flows S D m m" by (simp add: flows_def)

lemma get32_cong: "(\<And>x. x \<in> entry_bytes a \<Longrightarrow> m x = m' x) \<Longrightarrow> mem_get32 m a = mem_get32 m' a"
  by (simp add: entry_bytes_def mem_get32_def)

lemma walk_kept:
  assumes "j < n" "\<And>x. x \<in> table_bytes (Some p) a n s \<Longrightarrow> m x = mem s x"
  shows "page_walk (root_of p s) (s\<lparr>mem := m\<rparr>) (a + of_nat j) = page_walk (root_of p s) s (a + of_nat j)"
proof -
  have t: "x \<in> entry_bytes (entry_addr (root_of p s) (I386_VM_PDE (a + of_nat j))) \<or>
      x \<in> entry_bytes (entry_addr (pt_of (root_of p s) s (a + of_nat j)) (I386_VM_PTE (a + of_nat j))) \<Longrightarrow> m x = mem s x" for x
    using assms by (auto simp: table_bytes_def)
  have d: "pde_of (root_of p s) (s\<lparr>mem := m\<rparr>) (a + of_nat j) = pde_of (root_of p s) s (a + of_nat j)"
    unfolding pde_of_def using t by (auto intro: get32_cong)
  then have pt: "pt_of (root_of p s) (s\<lparr>mem := m\<rparr>) (a + of_nat j) = pt_of (root_of p s) s (a + of_nat j)" by (simp add: pt_of_def)
  have "pte_of (root_of p s) (s\<lparr>mem := m\<rparr>) (a + of_nat j) = pte_of (root_of p s) s (a + of_nat j)"
    unfolding pte_of_def pt using t by (auto intro: get32_cong)
  with d show ?thesis by (simp add: page_walk_def Let_def)
qed

lemma access_kept:
  assumes "j < n" "\<And>x. x \<in> table_bytes pr a n s \<Longrightarrow> m x = mem s x"
  shows "access_rd pr (s\<lparr>mem := m\<rparr>) (a + of_nat j) = access_rd pr s (a + of_nat j)"
    "access_wr pr (s\<lparr>mem := m\<rparr>) (a + of_nat j) = access_wr pr s (a + of_nat j)"
proof -
  have r: "root_of p (s\<lparr>mem := m\<rparr>) = root_of p s" for p by (simp add: root_of_def)
  have w: "page_walk (root_of p s) (s\<lparr>mem := m\<rparr>) (a + of_nat j) = page_walk (root_of p s) s (a + of_nat j)" if "pr = Some p" for p
    by (rule walk_kept [OF assms(1)]) (use assms(2) that in blast)
  show "access_rd pr (s\<lparr>mem := m\<rparr>) (a + of_nat j) = access_rd pr s (a + of_nat j)"
    by (cases pr) (simp_all add: access_rd_def r w split: option.split)
  show "access_wr pr (s\<lparr>mem := m\<rparr>) (a + of_nat j) = access_wr pr s (a + of_nat j)"
    by (cases pr) (simp_all add: access_wr_def r w split: option.split)
qed

section \<open>The copy loops\<close>

text \<open>
  A copy whose destination holds none of the page tables in use: every access is translated as
  before the copy, however far the copy got.
\<close>

definition tables_apart :: "int option \<Rightarrow> u32 \<Rightarrow> int option \<Rightarrow> u32 \<Rightarrow> nat \<Rightarrow> kstate \<Rightarrow> bool" where
  "tables_apart sp src dp dst n s \<longleftrightarrow> (table_bytes sp src n s \<union> table_bytes dp dst n s) \<inter> wr_bytes dp dst n s = {}"

lemma store_bytes_cases: "store_bytes g vs m x = m x \<or> (\<exists>j < length vs. x = g j \<and> store_bytes g vs m x = vs ! j)"
proof (induction vs rule: rev_induct)
  case (snoc v vs)
  show ?case
  proof (cases "x = g (length vs)")
    case True
    then show ?thesis by (intro disjI2 exI [of _ "length vs"]) (simp add: store_bytes_snoc)
  next
    case False
    then have e: "store_bytes g (vs @ [v]) m x = store_bytes g vs m x" by (simp add: store_bytes_snoc)
    show ?thesis unfolding e using snoc.IH by (auto simp: nth_append intro: less_SucI)
  qed
qed (simp add: store_bytes_def)

lemma movs_flows:
  fixes sp dp :: "int option" and src dst :: u32 and n :: nat and s :: kstate
  defines "S \<equiv> rd_bytes sp src n s" and "D \<equiv> wr_bytes dp dst n s"
  assumes ap: "tables_apart sp src dp dst n s" and i: "l + i + k \<le> n" and fl: "flows S D (mem s) m"
    and mv: "movs k sp (src + of_nat l) dp (dst + of_nat l) i (s\<lparr>mem := m\<rparr>) = Inr t"
  shows "\<exists>m'. t = s\<lparr>mem := m'\<rparr> \<and> flows S D (mem s) m'"
proof -
  have kept: "x \<in> table_bytes sp src n s \<or> x \<in> table_bytes dp dst n s \<Longrightarrow> m x = mem s x" for x
    using ap fl unfolding tables_apart_def flows_def D_def by blast
  let ?f = "\<lambda>j. access_rd sp s (src + of_nat (l + i + j))" and ?g = "\<lambda>j. access_wr dp s (dst + of_nat (l + i + j))"
  have f: "access_rd sp (s\<lparr>mem := m\<rparr>) (src + of_nat l + of_nat (i + j)) = ?f j" if "j < k" for j
    using access_kept(1) [of "l + i + j" n sp src s m] kept i that by (simp add: add.assoc)
  have g: "access_wr dp (s\<lparr>mem := m\<rparr>) (dst + of_nat l + of_nat (i + j)) = ?g j" if "j < k" for j
    using access_kept(2) [of "l + i + j" n dp dst s m] kept i that by (simp add: add.assoc)
  let ?g' = "\<lambda>j. the (access_wr dp (s\<lparr>mem := m\<rparr>) (dst + of_nat l + of_nat (i + j)))"
  let ?vs = "map (\<lambda>j. m (the (access_rd sp (s\<lparr>mem := m\<rparr>) (src + of_nat l + of_nat (i + j))))) [0 ..< k]"
  have t: "t = s\<lparr>mem := store_bytes ?g' ?vs m\<rparr>"
    and fs: "\<forall>j < k. access_rd sp (s\<lparr>mem := m\<rparr>) (src + of_nat l + of_nat (i + j)) \<noteq> None"
    and gs: "\<forall>j < k. access_wr dp (s\<lparr>mem := m\<rparr>) (dst + of_nat l + of_nat (i + j)) \<noteq> None"
    using mv by (auto simp: movs_def Let_def find_none split: option.split_asm)
  have "flows S D (mem s) (store_bytes ?g' ?vs m)"
    unfolding flows_def
  proof
    fix x
    consider "store_bytes ?g' ?vs m x = m x" | j where "j < k" "x = ?g' j" "store_bytes ?g' ?vs m x = ?vs ! j"
      using store_bytes_cases [of ?g' ?vs m x] by auto
    then show "store_bytes ?g' ?vs m x = mem s x \<or> x \<in> D \<and> (\<exists>y \<in> S. store_bytes ?g' ?vs m x = mem s y)"
    proof cases
      case 1
      then show ?thesis using fl by (simp add: flows_def)
    next
      case 2
      obtain y where y: "?f j = Some y" using fs f 2(1) by fastforce
      obtain z where z: "?g j = Some z" using gs g 2(1) by fastforce
      have "x = z" "store_bytes ?g' ?vs m x = m y" using 2 f g y z by simp_all
      moreover have "z \<in> D" "y \<in> S"
        using y z i 2(1) by (auto simp: D_def S_def wr_bytes_def rd_bytes_def intro!: exI [of _ "l + i + j"])
      ultimately show ?thesis using fl unfolding flows_def by metis
    qed
  qed
  then show ?thesis using t by blast
qed

lemma phys_copy_flows:
  assumes "tables_apart sp src dp dst n s"
  shows "l + i + sum_list ks \<le> n \<Longrightarrow> flows (rd_bytes sp src n s) (wr_bytes dp dst n s) (mem s) m \<Longrightarrow>
    \<exists>m'. snd (phys_copy ks sp (src + of_nat l) dp (dst + of_nat l) i (s\<lparr>mem := m\<rparr>)) = s\<lparr>mem := m'\<rparr> \<and>
      flows (rd_bytes sp src n s) (wr_bytes dp dst n s) (mem s) m'"
proof (induction ks arbitrary: i m)
  case Nil
  then show ?case by auto
next
  case (Cons k ks)
  show ?case
  proof (cases "movs k sp (src + of_nat l) dp (dst + of_nat l) i (s\<lparr>mem := m\<rparr>)")
    case (Inl f)
    then show ?thesis using Cons.prems(2) by auto
  next
    case (Inr t)
    obtain m' where "t = s\<lparr>mem := m'\<rparr>" "flows (rd_bytes sp src n s) (wr_bytes dp dst n s) (mem s) m'"
      using movs_flows [OF assms _ Cons.prems(2) Inr] Cons.prems(1) by auto
    then show ?thesis using Cons.IH [of "i + k" m'] Cons.prems(1) Inr by (simp add: add.assoc)
  qed
qed

lemma copy_chunks_flows:
  assumes "tables_apart sp src dp dst n s"
  shows "l + unat b \<le> n \<Longrightarrow> flows (rd_bytes sp src n s) (wr_bytes dp dst n s) (mem s) m \<Longrightarrow>
    copy_chunks sp (src + of_nat l) dp (dst + of_nat l) b (s\<lparr>mem := m\<rparr>) = Inr (r, t) \<Longrightarrow>
    \<exists>m'. t = s\<lparr>mem := m'\<rparr> \<and> flows (rd_bytes sp src n s) (wr_bytes dp dst n s) (mem s) m'"
proof (induction "unat b" arbitrary: b l m rule: less_induct)
  case less
  show ?case
  proof (cases "b = 0")
    case True
    then show ?thesis using less.prems by (auto simp: copy_chunks.simps)
  next
    case False
    let ?s = "s\<lparr>mem := m\<rparr>"
    obtain sptr c1 where c1: "createpde sp (src + of_nat l) b 0 ?s = (sptr, c1)" by fastforce
    obtain dptr ch where ch: "createpde dp (dst + of_nat l) c1 1 ?s = (dptr, ch)" by fastforce
    have "ch \<noteq> 0" "ch \<le> b"
      using c1 ch False by (metis createpde_progress snd_conv, metis createpde_le order_trans snd_conv)
    then have u: "unat (b - ch) < unat b" "unat (b - ch) = unat b - unat ch" "unat ch \<le> unat b"
      by (rule unat_minus_less, simp_all add: unat_sub word_le_nat_alt)
    obtain f s' where ps: "phys_copy (copy_units sptr (unat ch)) sp (src + of_nat l) dp (dst + of_nat l) 0 ?s = (f, s')" by fastforce
    obtain m' where m': "s' = s\<lparr>mem := m'\<rparr>" "flows (rd_bytes sp src n s) (wr_bytes dp dst n s) (mem s) m'"
      using phys_copy_flows [OF assms, of l 0 "copy_units sptr (unat ch)" m] less.prems(1,2) u(3) ps by (auto simp: sum_copy_units)
    obtain q where q: "(case f of None \<Rightarrow> Inr OK | Some x \<Rightarrow> fault_result sptr dptr ch x) = Inr q"
      "(if q \<noteq> OK then Inr (q, s') else copy_chunks sp (src + of_nat l + ch) dp (dst + of_nat l + ch) (b - ch) s') = Inr (r, t)"
      using less.prems(3) False unfolding copy_chunks.simps [of sp "src + of_nat l" dp "dst + of_nat l" b]
      by (auto simp: c1 ch [unfolded One_nat_def] ps bnd_eq_Inr)
    show ?thesis
    proof (cases "q = OK")
      case True
      have "copy_chunks sp (src + of_nat (l + unat ch)) dp (dst + of_nat (l + unat ch)) (b - ch) (s\<lparr>mem := m'\<rparr>) = Inr (r, t)"
        using q(2) True m'(1) by (simp add: add.assoc)
      then show ?thesis using less.hyps [OF u(1), of "l + unat ch" m'] less.prems(1) m'(2) u(2,3) by simp
    qed (use q(2) m' in auto)
  qed
qed

section \<open>The rest of a copy leaves memory alone\<close>

lemma sched_mem [simp]:
  "mem (upd_proc p f s) = mem s" "mem (upd_sched p g s) = mem s" "mem (set_head q x s) = mem s" "mem (set_tail q x s) = mem s"
  "mem (upd_msgs p h s) = mem s" "mem (upd_priv p k s) = mem s" "mem (set_misc p fl s) = mem s" "mem (upd_hme a e s) = mem s"
  "mem (IPC_STATUS_ADD_CALL p c s) = mem s"
  by (simp_all add: upd_proc_def upd_sched_def set_head_def set_tail_def upd_msgs_def upd_priv_def set_misc_def upd_hme_def
      IPC_STATUS_ADD_CALL_def IPC_STATUS_ADD_def)

lemma queue_mem [simp]:
  "mem (unlink_ready q prev p s) = mem s" "mem (account_dequeue p s) = mem s" "mem (note_enter s) = mem s"
  "mem (BuildNotifyMessage c d s) = mem s"
  by (simp_all add: unlink_ready_def account_dequeue_def note_enter_def BuildNotifyMessage_def read_tsc_64_def Let_def split: option.split)

lemma dequeue_mem: "dequeue p s = Inr t \<Longrightarrow> mem t = mem s"
  unfolding dequeue_def by (auto simp: bnd_eq_Inr kassert_eq_Inr q_index_def split: if_split_asm option.split)

lemma RTS_SET_mem: "RTS_SET p f s = Inr t \<Longrightarrow> mem t = mem s"
  by (auto simp: RTS_SET_def Let_def dest!: dequeue_mem split: if_splits)

lemma link_ready_mem: "link_ready q p s = Inr t \<Longrightarrow> mem t = mem s"
  by (auto simp: link_ready_def split: option.split_asm)

lemma preempt_for_mem: "preempt_for p s = Inr t \<Longrightarrow> mem t = mem s"
  by (auto simp: preempt_for_def dest: RTS_SET_mem split: if_split_asm)

lemma enqueue_mem: "enqueue p s = Inr t \<Longrightarrow> mem t = mem s"
  unfolding enqueue_def
  by (auto simp: bnd_eq_Inr kassert_eq_Inr q_index_def dest!: link_ready_mem preempt_for_mem split: if_split_asm)

lemma RTS_UNSET_keeps_mem: "RTS_UNSET p f s = Inr t \<Longrightarrow> mem t = mem s"
  by (auto simp: RTS_UNSET_def Let_def dest!: enqueue_mem split: if_splits)

lemma mini_notify_mem: "mini_notify c d s = Inr (r, t) \<Longrightarrow> mem t = mem s"
  by (auto simp: mini_notify_def bnd_eq_Inr kassert_eq_Inr Let_def dest!: RTS_UNSET_keeps_mem split: if_splits option.splits)

lemma send_or_panic_mem: "send_or_panic e g s = Inr t \<Longrightarrow> mem t = mem s"
  by (auto simp: send_or_panic_def send_sig_def bnd_eq_Inr dest!: mini_notify_mem split: if_splits option.splits)

lemma vm_suspend_mem: "vm_suspend c p a n ty s = Inr t \<Longrightarrow> mem t = mem s"
  by (auto simp: vm_suspend_def bnd_eq_Inr kassert_eq_Inr Let_def upd_vmreq_def dest!: RTS_SET_mem send_or_panic_mem
      split: if_splits)

lemma add_hme_event_mem: "add_hme_event p a n s = Inr (r, t) \<Longrightarrow> mem t = mem s"
  by (auto simp: add_hme_event_def bnd_eq_Inr Let_def get_hme_def link_hme_def split: if_splits option.splits)

lemma copy_failed_mem: "copy_failed c v r sp a dp b n s = Inr (q, t) \<Longrightarrow> mem t = mem s"
  by (auto simp: copy_failed_def bnd_eq_Inr Let_def dest!: vm_suspend_mem split: if_splits option.splits prod.splits)

lemma record_copy_mem: "record_copy dp b n s = Inr (q, t) \<Longrightarrow> mem t = mem s"
  by (auto simp: record_copy_def bnd_eq_Inr dest!: add_hme_event_mem split: if_splits option.splits)

section \<open>Copies between processes\<close>

text \<open>
  The copy of \<open>n\<close> bytes between two addresses: whatever changed in memory belongs to the
  destination and came from the source.
\<close>

definition confined :: "vir_addr \<Rightarrow> vir_addr \<Rightarrow> nat \<Rightarrow> kstate \<Rightarrow> kstate \<Rightarrow> bool" where
  "confined src dst n s t \<longleftrightarrow>
     (\<exists>sp dp. vir_proc src s = Some sp \<and> vir_proc dst s = Some dp \<and>
        flows (rd_bytes sp (va_offset src) n s) (wr_bytes dp (va_offset dst) n s) (mem s) (mem t))"

lemma virtual_copy_confined:
  assumes v: "virtual_copy_f c src dst n vm s = Inr (r, t)"
    and ap: "\<And>sp dp. vir_proc src s = Some sp \<Longrightarrow> vir_proc dst s = Some dp \<Longrightarrow>
      tables_apart sp (va_offset src) dp (va_offset dst) (unat n) s"
  shows "mem t = mem s \<or> confined src dst (unat n) s t"
proof (cases "n = 0 \<or> vir_proc src s = None \<or> vir_proc dst s = None")
  case True
  then show ?thesis using v by (auto simp: virtual_copy_f_def bnd_eq_Inr kassert_eq_Inr split: option.split_asm if_split_asm)
next
  case False
  then obtain sp dp where p: "vir_proc src s = Some sp" "vir_proc dst s = Some dp" by auto
  obtain k where k: "check_resumed_caller c s = Inr k"
    "(if k \<noteq> OK then Inr (k, s)
      else bnd (lin_lin_copy_procs sp (va_offset src) dp (va_offset dst) n s) (\<lambda>(r, s).
        if r \<noteq> OK then copy_failed c vm r sp (va_offset src) dp (va_offset dst) n s else record_copy dp (va_offset dst) n s)) = Inr (r, t)"
    using v False p by (auto simp: virtual_copy_f_def bnd_eq_Inr kassert_eq_Inr)
  show ?thesis
  proof (cases "k = OK")
    case True
    obtain q u where u: "lin_lin_copy_procs sp (va_offset src) dp (va_offset dst) n s = Inr (q, u)"
      "(if q \<noteq> OK then copy_failed c vm q sp (va_offset src) dp (va_offset dst) n u else record_copy dp (va_offset dst) n u) = Inr (r, t)"
      using k(2) True by (auto simp: bnd_eq_Inr)
    have "copy_chunks sp (va_offset src) dp (va_offset dst) n s = Inr (q, u)"
      using u(1) by (auto simp: lin_lin_copy_procs_def copy_asserts_def Let_def bnd_eq_Inr kassert_eq_Inr)
    then obtain m where m: "u = s\<lparr>mem := m\<rparr>"
      "flows (rd_bytes sp (va_offset src) (unat n) s) (wr_bytes dp (va_offset dst) (unat n) s) (mem s) m"
      using copy_chunks_flows [OF ap [OF p], of 0 n "mem s" q u] by auto
    moreover have "mem t = mem u" using u(2) copy_failed_mem record_copy_mem by (auto split: if_split_asm)
    ultimately show ?thesis using p by (auto simp: confined_def)
  qed (use k(2) in simp)
qed

section \<open>Copies under grants\<close>

text \<open>The two ends of a safe copy, source first.\<close>

definition copy_ends :: "u32 \<Rightarrow> vir_addr \<Rightarrow> vir_addr \<Rightarrow> vir_addr \<times> vir_addr" where
  "copy_ends access own granted = (if has access CPF_READ then (granted, own) else (own, granted))"

lemma safecopy_cases:
  assumes s: "safecopy g0 c granter grantee grantid n off buf access s = Inr (r, t)"
  obtains (refused) "t = s"
    | (copied) addr e where "verify_grant g0 granter grantee grantid n access off s = Inr (Inr (addr, e))"
        "(case copy_ends access \<lparr>proc_nr_e = grantee, va_offset = buf\<rparr> \<lparr>proc_nr_e = e, va_offset = addr\<rparr> of
           (src, dst) \<Rightarrow> virtual_copy_f (Some c) src dst n True s) = Inr (r, t)"
proof (cases "granter = NONE \<or> grantee = NONE \<or> isokendpt granter s = None \<or> \<not> HASGRANTTABLE (the (isokendpt granter s)) s")
  case True
  then have "t = s" using s by (auto simp: safecopy_def split: option.split_asm if_split_asm)
  then show thesis by (rule refused)
next
  case False
  then obtain v where v: "verify_grant g0 granter grantee grantid n access off s = Inr v" using s by (auto simp: safecopy_def bnd_eq_Inr)
  show thesis
  proof (cases v)
    case (Inl e)
    then show thesis using s False v refused by (auto simp: safecopy_def)
  next
    case (Inr ae)
    then show thesis using s False v copied [of "fst ae" "snd ae"]
      by (cases ae) (auto simp: safecopy_def copy_ends_def Let_def split: if_split_asm)
  qed
qed

text \<open>C24. A copy under a grant stays inside it, whatever its outcome (done, refused, stopped by a page
  fault half way, suspended until VM has looked): either no byte of memory changes, or a chain of at most five indirect
  grants leads to an entry that allows the access to the range of the call, and each byte that
  changed belongs to the granted range and was taken from the caller's buffer when the access
  is a write, and the other way round when it is a read. Assumed is that the range written holds none of the page
  tables the two ranges are reached through.
\<close>

theorem safecopy_confined:
  assumes "safecopy g0 c granter grantee grantid n off buf access s = Inr (r, t)"
    and "\<And>addr e src dst sp dp. verify_grant g0 granter grantee grantid n access off s = Inr (Inr (addr, e)) \<Longrightarrow>
      (src, dst) = copy_ends access \<lparr>proc_nr_e = grantee, va_offset = buf\<rparr> \<lparr>proc_nr_e = e, va_offset = addr\<rparr> \<Longrightarrow>
      vir_proc src s = Some sp \<Longrightarrow> vir_proc dst s = Some dp \<Longrightarrow> tables_apart sp (va_offset src) dp (va_offset dst) (unat n) s"
  shows "mem t = mem s \<or>
    (\<exists>addr e k G E g src dst. verify_grant g0 granter grantee grantid n access off s = Inr (Inr (addr, e)) \<and>
       k \<le> MAX_INDIRECT_DEPTH \<and> grants s granter grantee grantid k G E g \<and> allows g G E access n e addr \<and>
       (src, dst) = copy_ends access \<lparr>proc_nr_e = grantee, va_offset = buf\<rparr> \<lparr>proc_nr_e = e, va_offset = addr\<rparr> \<and>
       confined src dst (unat n) s t)"
proof -
  consider "t = s" | addr e where "verify_grant g0 granter grantee grantid n access off s = Inr (Inr (addr, e))"
    "(case copy_ends access \<lparr>proc_nr_e = grantee, va_offset = buf\<rparr> \<lparr>proc_nr_e = e, va_offset = addr\<rparr> of
       (src, dst) \<Rightarrow> virtual_copy_f (Some c) src dst n True s) = Inr (r, t)"
    by (rule safecopy_cases [OF assms(1)])
  then show ?thesis
  proof cases
    case 2
    obtain src dst where sd: "(src, dst) = copy_ends access \<lparr>proc_nr_e = grantee, va_offset = buf\<rparr> \<lparr>proc_nr_e = e, va_offset = addr\<rparr>"
      by (metis surj_pair)
    then have v: "virtual_copy_f (Some c) src dst n True s = Inr (r, t)" using 2(2) by (simp flip: sd)
    note mem = virtual_copy_confined [OF v assms(2) [OF 2(1) sd]]
    obtain g G E where g: "follow_grants MAX_INDIRECT_DEPTH g0 granter grantee grantid s = Inr (Inr (g, G, E))"
      "check_grant g G E n access off = Inr (addr, e)"
      by (rule verify_grant_cases [OF 2(1)]) auto
    show ?thesis
    proof (cases "n = 0")
      case True
      then have "mem t = mem s" using v by (auto simp: virtual_copy_f_def bnd_eq_Inr kassert_eq_Inr)
      then show ?thesis ..
    next
      case False
      show ?thesis using mem check_grant_allows [OF g(2) False] follow_grants_sound [OF g(1)] 2(1) sd by blast
    qed
  qed simp
qed

section \<open>A copy into a granted range\<close>

lemma granted_byte: "access_wr (Some 1) grant_sample 0x3108 = Some 0x5108" "access_rd (Some 2) grant_sample 0x3000 = Some 0xC000"
  "mem grant_sample 0xC000 = 42"
proof -
  have m: "mem_get32 (mem grant_sample) 0xA000 = 0xB007" "mem_get32 (mem grant_sample) 0xB00C = 0xC007"
    by (simp_all add: grant_sample_def copy_sample_def mem_get32_def mem_set32_def)
  have r: "root_of 1 grant_sample = 0x1000" "root_of 2 grant_sample = 0xA000" "wr_fault grant_sample = (\<lambda>_. False)" "rd_fault grant_sample = (\<lambda>_. False)"
    by (simp_all add: root_of_def iskernelp_def grant_sample_def copy_sample_def)
  have i: "I386_VM_PDE 0x3108 = 0" "I386_VM_PTE 0x3108 = 3" by (simp_all add: I386_VM_PDE_def I386_VM_PTE_def)
  show "access_wr (Some 1) grant_sample 0x3108 = Some 0x5108" "access_rd (Some 2) grant_sample 0x3000 = Some 0xC000"
    by (simp_all add: access_wr_def access_rd_def r page_walk_def pde_of_def pte_of_def pt_of_def entry_addr_def i m grant_sample_mem
        has_def I386_VM_PFA_def Let_def)
  show "mem grant_sample 0xC000 = 42" by (simp add: grant_sample_def mem_set32_def)
qed

lemma granted_tables: "tables_apart (Some 2) 0x3000 (Some 1) 0x3108 1 grant_sample" "wr_bytes (Some 1) 0x3108 1 grant_sample = {0x5108}"
proof -
  have m: "mem_get32 (mem grant_sample) 0xA000 = 0xB007"
    by (simp add: grant_sample_def copy_sample_def mem_get32_def mem_set32_def)
  have r: "root_of 1 grant_sample = 0x1000" "root_of 2 grant_sample = 0xA000"
    by (simp_all add: root_of_def iskernelp_def grant_sample_def copy_sample_def)
  have i: "I386_VM_PDE 0x3108 = 0" "I386_VM_PTE 0x3108 = 3" by (simp_all add: I386_VM_PDE_def I386_VM_PTE_def)
  show w: "wr_bytes (Some 1) 0x3108 1 grant_sample = {0x5108}" using granted_byte(1) by (auto simp: wr_bytes_def)
  show "tables_apart (Some 2) 0x3000 (Some 1) 0x3108 1 grant_sample"
    unfolding tables_apart_def w
    by (simp add: table_bytes_def lessThan_Suc entry_bytes_def r pt_of_def pde_of_def entry_addr_def i m grant_sample_mem I386_VM_PFA_def)
qed

lemma granted_copy:
  "verify_grant (replicate 36 0) 1 2 0 1 CPF_WRITE 8 grant_sample = Inr (Inr (0x3108, 1))" "isokendpt 2 grant_sample = Some 2"
  "\<exists>t. safecopy (replicate 36 0) 2 1 2 0 1 8 0x3000 CPF_WRITE grant_sample = Inr (OK, t) \<and> mem t 0x5108 = 42"
proof -
  let ?u = "grant_sample\<lparr>mem := (mem grant_sample)(0x5108 := 42)\<rparr>"
  have pr: "procs grant_sample 2 = (procs sample_state 1)\<lparr>p_nr := 2, p_endpoint := 2, p_cr3 := 0xA000\<rparr>" "procs grant_sample 1 = procs sample_state 1"
    "cr3 grant_sample = 0x1000" "ptproc grant_sample = 1" "p_rts_flags (procs sample_state 1) = 0" "p_misc_flags (procs sample_state 1) = 0"
    by (simp_all add: grant_sample_def copy_sample_def) (simp_all add: sample_state_def zero_proc_def)
  show e2: "isokendpt 2 grant_sample = Some 2"
    by (simp add: isokendpt_def ENDPOINT_P_def c_rem_def isokprocn_def isemptyn_def pr)
  show v: "verify_grant (replicate 36 0) 1 2 0 1 CPF_WRITE 8 grant_sample = Inr (Inr (0x3108, 1))"
    by (simp add: verify_grant_def grant_sample_follow check_grant_def sample_entry_fields has_def)
  have as: "copy_asserts (Some 2) (Some 1) grant_sample = Inr grant_sample"
    by (simp add: copy_asserts_def pr RTS_ISSET_def)
  have cp: "createpde (Some 1) 0x3108 1 1 grant_sample = (0x3108, 1)" "snd (createpde (Some 2) 0x3000 1 0 grant_sample) = 1"
    by (simp_all add: createpde_def pr iskernelp_def)
  have "movs 1 (Some 2) 0x3000 (Some 1) 0x3108 0 grant_sample = Inr ?u"
    by (simp add: movs_def granted_byte store_bytes_def)
  moreover have "copy_units a 1 = [1]" for a by (simp add: copy_units_def)
  ultimately have ch: "copy_chunks (Some 2) 0x3000 (Some 1) 0x3108 1 grant_sample = Inr (OK, ?u)"
    using cp by (subst copy_chunks.simps) (simp add: case_prod_unfold copy_chunks.simps [of _ _ _ _ 0])
  have "hme_list 1 ?u []" "hme_room ?u" "has (p_hflags (procs ?u 1)) PROC_TO_HARD"
    by (auto simp: hme_list_def hme_room_def hme_free_def pr has_def grant_sample_def copy_sample_def sample_state_def zero_proc_def
        intro!: exI [of _ 0])
  then obtain t where rc: "record_copy (Some 1) 0x3108 1 ?u = Inr (OK, t)" "mem t = mem ?u"
    using add_hme_only [of 1 ?u "[]" "0x3108" 1] by (auto simp: record_copy_def dest: only_hme_sel)
  have "check_resumed_caller (Some 2) grant_sample = Inr OK" by (simp add: check_resumed_caller_def misc_is_def pr)
  then have "virtual_copy_f (Some 2) \<lparr>proc_nr_e = 2, va_offset = 0x3000\<rparr> \<lparr>proc_nr_e = 1, va_offset = 0x3108\<rparr> 1 True grant_sample = Inr (OK, t)"
    using as ch rc by (simp add: virtual_copy_f_def vir_proc_def e2 grant_sample_procs lin_lin_copy_procs_def)
  then have "safecopy (replicate 36 0) 2 1 2 0 1 8 0x3000 CPF_WRITE grant_sample = Inr (OK, t)"
    using v by (simp add: safecopy_def grant_sample_procs HASGRANTTABLE_def zero_priv_def has_def)
  with rc(2) show "\<exists>t. safecopy (replicate 36 0) 2 1 2 0 1 8 0x3000 CPF_WRITE grant_sample = Inr (OK, t) \<and> mem t 0x5108 = 42" by simp
qed

theorem safecopy_confined_witness:
  "\<exists>t. safecopy (replicate 36 0) 2 1 2 0 1 8 0x3000 CPF_WRITE grant_sample = Inr (OK, t) \<and> mem t 0x5108 = 42 \<and>
     mem t \<noteq> mem grant_sample \<and> (\<forall>x. x \<noteq> 0x5108 \<longrightarrow> mem t x = mem grant_sample x)"
proof -
  note v = granted_copy(1,2)
  obtain t where t: "safecopy (replicate 36 0) 2 1 2 0 1 8 0x3000 CPF_WRITE grant_sample = Inr (OK, t)" "mem t 0x5108 = 42"
    using granted_copy(3) by blast
  have z: "mem grant_sample 0x5108 = 0" by (simp add: grant_sample_def copy_sample_def mem_set32_def)
  then have ne: "mem t \<noteq> mem grant_sample" using t(2) by auto
  have ends: "copy_ends CPF_WRITE a b = (a, b)" for a b by (simp add: copy_ends_def has_def)
  have p: "vir_proc \<lparr>proc_nr_e = 2, va_offset = 0x3000\<rparr> grant_sample = Some (Some 2)" "vir_proc \<lparr>proc_nr_e = 1, va_offset = 0x3108\<rparr> grant_sample = Some (Some 1)"
    by (simp_all add: vir_proc_def v(2) grant_sample_procs)
  from safecopy_confined [OF t(1)]
  have "confined \<lparr>proc_nr_e = 2, va_offset = 0x3000\<rparr> \<lparr>proc_nr_e = 1, va_offset = 0x3108\<rparr> 1 grant_sample t"
    using ne v(1) granted_tables(1) p by (auto simp: ends)
  then have "flows (rd_bytes (Some 2) 0x3000 1 grant_sample) {0x5108} (mem grant_sample) (mem t)"
    by (auto simp: confined_def p granted_tables(2) [unfolded One_nat_def])
  then show ?thesis using t ne by (auto simp: flows_def)
qed

end
