(* ===== verification/Vm_Alloc.thy ===== *)
theory Vm_Alloc
  imports Kernel_Calls
begin

text \<open>
  The state of the virtual memory server and its allocator of physical pages
  (\<open>servers/vm/alloc.c\<close>, and the blocks a process yielded, \<open>servers/vm/region.c\<close>): a bit per page, a cache of freed
  pages, the position of the last scan. The kernel state is a component of the state of the
  server: its kernel calls act on it. The tree that finds a yielded block by its id is modelled
  by the map it implements.
\<close>

section \<open>State of the server\<close>

abbreviation PAF_CLEAR :: u32 where "PAF_CLEAR \<equiv> 0x01"
abbreviation PAF_CONTIG :: u32 where "PAF_CONTIG \<equiv> 0x02"
abbreviation PAF_ALIGN64K :: u32 where "PAF_ALIGN64K \<equiv> 0x04"
abbreviation PAF_LOWER16MB :: u32 where "PAF_LOWER16MB \<equiv> 0x08"
abbreviation PAF_LOWER1MB :: u32 where "PAF_LOWER1MB \<equiv> 0x10"
abbreviation PAF_ALIGN16K :: u32 where "PAF_ALIGN16K \<equiv> 0x40"
abbreviation NO_MEM :: u32 where "NO_MEM \<equiv> 0xFFFFFFFE"
abbreviation NUMBER_PHYSICAL_PAGES :: int where "NUMBER_PHYSICAL_PAGES \<equiv> 0x100000"
abbreviation PAGE_CACHE_MAX :: nat where "PAGE_CACHE_MAX \<equiv> 10000"
abbreviation VMF_INUSE :: u32 where "VMF_INUSE \<equiv> 0x001"
abbreviation VM_PROC_TO_HARD :: u32 where "VM_PROC_TO_HARD \<equiv> 0x4"
abbreviation EDEADEPT :: int where "EDEADEPT \<equiv> - 302"

text \<open>Regions and their physical blocks (\<open>region.h\<close>, \<open>phys_region.h\<close>), as far as the hardening uses them.\<close>

record phys_region =
  pr_phys :: u32
  pr_offset :: u32

record vir_region =
  vr_vaddr :: u32
  vr_length :: u32
  vr_flags :: u32
  physblocks :: "nat \<Rightarrow> phys_region option"

record vmproc =
  vm_flags :: u32
  vm_endpoint :: int
  vm_regions :: "vir_region list"
  vm_yielded :: int
  vm_lus1_us2 :: "nat option"
  vm_lus1_us2_size :: int
  vm_hflags :: u32

text \<open>The server's blocks (\<open>servers/vm/htype.h\<close>) and the yielded blocks (\<open>yielded.h\<close>).\<close>

record vm_pmb =
  v_id :: int
  v_flags :: u32
  v_vaddr :: u32
  v_us0 :: u32
  v_us1 :: u32
  v_us2 :: u32
  v_next :: "nat option"

type_synonym block_id = "int \<times> u64"

record yielded_t =
  y_id :: block_id
  y_physaddr :: u32
  y_pages :: u32
  y_younger :: "nat option"
  y_older :: "nat option"

record vmstate =
  kern :: kstate
  free_pages_bitmap :: "nat \<Rightarrow> u32"
  free_page_cache :: "nat \<Rightarrow> int"
  free_page_cache_size :: nat
  lastscan :: int
  total_pages :: int
  mem_low :: u32
  mem_high :: u32
  yielded_nodes :: "nat \<Rightarrow> yielded_t"
  vm_yielded_blocks :: "block_id \<Rightarrow> nat option"
  lru_youngest :: "nat option"
  lru_oldest :: "nat option"
  vmprocs :: "int \<Rightarrow> vmproc"
  vm_working_set :: "nat \<Rightarrow> vm_pmb"
  hardening_enabled :: int

definition upd_vmp :: "int \<Rightarrow> (vmproc \<Rightarrow> vmproc) \<Rightarrow> vmstate \<Rightarrow> vmstate" where
  "upd_vmp p f v = v\<lparr>vmprocs := (vmprocs v)(p := f (vmprocs v p))\<rparr>"

definition upd_yb :: "nat \<Rightarrow> (yielded_t \<Rightarrow> yielded_t) \<Rightarrow> vmstate \<Rightarrow> vmstate" where
  "upd_yb n f v = v\<lparr>yielded_nodes := (yielded_nodes v)(n := f (yielded_nodes v n))\<rparr>"

definition vm_isokendpt :: "int \<Rightarrow> vmstate \<Rightarrow> int + int" where
  "vm_isokendpt e v =
     (let p = ENDPOINT_P e
      in if p < 0 \<or> NR_PROCS \<le> p then Inl EINVAL
         else if e \<noteq> vm_endpoint (vmprocs v p) then Inl EDEADEPT
         else if \<not> has (vm_flags (vmprocs v p)) VMF_INUSE then Inl EDEADEPT
         else Inr p)"

section \<open>The bitmap\<close>

definition page_isfree :: "vmstate \<Rightarrow> int \<Rightarrow> bool" where
  "page_isfree v i \<longleftrightarrow> has (free_pages_bitmap v (nat i div 32)) (push_bit (nat i mod 32) 1)"

definition set_bit_page :: "bool \<Rightarrow> int \<Rightarrow> vmstate \<Rightarrow> stop + vmstate" where
  "set_bit_page b i v =
     (if i < 0 \<or> NUMBER_PHYSICAL_PAGES \<le> i then Inl OutOfBounds
      else let c = nat i div 32; m = push_bit (nat i mod 32) 1
           in Inr (v\<lparr>free_pages_bitmap := (free_pages_bitmap v)
                (c := if b then setf (free_pages_bitmap v c) m else clrf (free_pages_bitmap v c) m)\<rparr>))"

fun chunk_down :: "(nat \<Rightarrow> u32) \<Rightarrow> nat \<Rightarrow> nat" where
  "chunk_down bm 0 = 0"
| "chunk_down bm (Suc c) = (if bm (Suc c) = 0 then chunk_down bm c else Suc c)"

lemma chunk_down_le: "chunk_down bm c \<le> c"
  by (induction c) auto

lemma below_chunk: "c < nat i div 32 \<Longrightarrow> 0 \<le> i \<Longrightarrow> int c * 32 + 31 < i"
proof -
  assume c: "c < nat i div 32" and i: "0 \<le> i"
  have "(c + 1) * 32 \<le> nat i div 32 * 32" using c by simp
  also have "\<dots> \<le> nat i" by simp
  finally have "int ((c + 1) * 32) \<le> i" using i by (simp only: nat_le_iff zle_int [symmetric])
  then show ?thesis by simp
qed

text \<open>
  \<open>findbit\<close> scans downwards; a run of free pages is extended at its lower end, and chunks of the
  bitmap that are zero are skipped. Minus two is \<open>NO_MEM\<close> as an int.
\<close>

function findbit_loop :: "vmstate \<Rightarrow> int \<Rightarrow> int \<Rightarrow> int \<Rightarrow> int \<Rightarrow> int \<Rightarrow> stop + int" where
  "findbit_loop v low pages i run_length freerange_start =
     (if i < low \<or> i < 0 then Inr (- 2)
      else if \<not> page_isfree v i
      then let chunk = nat i div 32; c = chunk_down (free_pages_bitmap v) chunk
           in findbit_loop v low pages (if c < chunk then int c * 32 + 31 else i - 1) 0 freerange_start
      else let freerange_start = (if run_length = 0 then i else freerange_start - 1); run_length = (if run_length = 0 then 1 else run_length + 1)
           in if run_length > pages then Inl (AssertFail ''run_length <= pages'')
              else if run_length = pages then Inr freerange_start
              else findbit_loop v low pages (i - 1) run_length freerange_start)"
  by pat_completeness auto

termination
  by (relation "measure (\<lambda>(_, _, _, i, _, _). nat (i + 1))") (auto dest: below_chunk)

declare findbit_loop.simps [simp del]

definition findbit :: "int \<Rightarrow> int \<Rightarrow> int \<Rightarrow> vmstate \<Rightarrow> stop + int" where
  "findbit low startscan pages v = findbit_loop v low pages startscan 0 startscan"

section \<open>Allocation and release\<close>

text \<open>The page cache: pop until a page is found that is still free.\<close>

fun pop_cache :: "nat \<Rightarrow> vmstate \<Rightarrow> int option \<times> nat" where
  "pop_cache 0 v = (None, 0)"
| "pop_cache (Suc n) v = (if page_isfree v (free_page_cache v n) then (Some (free_page_cache v n), n) else pop_cache n v)"

definition sys_memset :: "int \<Rightarrow> u32 \<Rightarrow> u32 \<Rightarrow> u32 \<Rightarrow> vmstate \<Rightarrow> stop + (int \<times> vmstate)" where
  "sys_memset who pattern base bytes v =
     bnd (do_memset VM_PROC_NR (zero_msg\<lparr>m2_i1 := who, m2_p1 := base, m2_l2 := pattern, m2_l1 := bytes\<rparr>) (kern v))
       (\<lambda>(r, k). Inr (r, v\<lparr>kern := k\<rparr>))"

fun set_pages :: "bool \<Rightarrow> int list \<Rightarrow> vmstate \<Rightarrow> stop + vmstate" where
  "set_pages b [] v = Inr v"
| "set_pages b (i # is) v = bnd (set_bit_page b i v) (set_pages b is)"

definition max_page :: "u32 \<Rightarrow> int" where
  "max_page memflags =
     (if has memflags PAF_LOWER16MB then 16 * 1024 * 1024 div 4096 - 1
      else if has memflags PAF_LOWER1MB then 1024 * 1024 div 4096 - 1
      else NUMBER_PHYSICAL_PAGES - 1)"

definition alloc_pages :: "int \<Rightarrow> u32 \<Rightarrow> vmstate \<Rightarrow> stop + (u32 \<times> vmstate)" where
  "alloc_pages pages memflags v =
     (let maxpage = max_page memflags;
          (cached, v) = (if \<not> has memflags PAF_LOWER16MB \<and> \<not> has memflags PAF_LOWER1MB \<and> pages = 1
             then (case pop_cache (free_page_cache_size v) v of (r, n) \<Rightarrow> (r, v\<lparr>free_page_cache_size := n\<rparr>)) else (None, v));
          startscan = (if lastscan v < maxpage \<and> 0 \<le> lastscan v then lastscan v else maxpage)
      in bnd (case cached of Some i \<Rightarrow> Inr i | None \<Rightarrow> findbit 0 startscan pages v) (\<lambda>mem.
         bnd (if mem = - 2 then findbit 0 maxpage pages v else Inr mem) (\<lambda>mem.
         if mem = - 2 then Inr (NO_MEM, v)
         else bnd (set_pages False [mem .. mem + pages - 1] (v\<lparr>lastscan := mem\<rparr>)) (\<lambda>v.
           if has memflags PAF_CLEAR
           then bnd (sys_memset NONE 0 (4096 * of_int mem) (4096 * of_int pages) v) (\<lambda>(r, v).
                  if r \<noteq> OK then Inl (Panic ''alloc_mem: sys_memset failed'') else Inr (of_int mem, v))
           else Inr (of_int mem, v)))))"

fun add_cache :: "int list \<Rightarrow> vmstate \<Rightarrow> stop + vmstate" where
  "add_cache [] v = Inr v"
| "add_cache (i # is) v =
     bnd (set_bit_page True i v) (\<lambda>v. add_cache is
       (if free_page_cache_size v < PAGE_CACHE_MAX
        then v\<lparr>free_page_cache := (free_page_cache v)(free_page_cache_size v := i), free_page_cache_size := free_page_cache_size v + 1\<rparr>
        else v))"

definition free_pages :: "u32 \<Rightarrow> int \<Rightarrow> vmstate \<Rightarrow> stop + vmstate" where
  "free_pages pageno n v = add_cache [sint pageno .. sint (pageno + of_int n - 1)] v"

definition free_mem :: "u32 \<Rightarrow> u32 \<Rightarrow> vmstate \<Rightarrow> stop + vmstate" where
  "free_mem base clicks v = (if clicks = 0 then Inr v else free_pages base (sint clicks) v)"

section \<open>Yielded blocks\<close>

text \<open>
  \<open>freeyieldednode\<close>: take a block off the list by age and out of the tree and give its pages back.
  It reports one page, whatever the size of the block.
\<close>

definition lru_unlink :: "nat \<Rightarrow> vmstate \<Rightarrow> stop + vmstate" where
  "lru_unlink n v =
     (let y = yielded_nodes v n
      in bnd (case y_younger y of
                Some a \<Rightarrow> bnd (kassert (y_older (yielded_nodes v a) = Some n) ''younger->older == node'' v)
                           (\<lambda>v. Inr (upd_yb a (\<lambda>z. z\<lparr>y_older := y_older y\<rparr>) v))
              | None \<Rightarrow> bnd (kassert (lru_youngest v = Some n) ''node == lru_youngest'' v)
                          (\<lambda>v. Inr (v\<lparr>lru_youngest := y_older y\<rparr>))) (\<lambda>v.
         case y_older y of
           Some a \<Rightarrow> bnd (kassert (y_younger (yielded_nodes v a) = Some n) ''older->younger == node'' v)
                      (\<lambda>v. Inr (upd_yb a (\<lambda>z. z\<lparr>y_younger := y_younger y\<rparr>) v))
         | None \<Rightarrow> bnd (kassert (lru_oldest v = Some n) ''node == lru_oldest'' v)
                     (\<lambda>v. Inr (v\<lparr>lru_oldest := y_younger y\<rparr>))))"

definition freeyieldednode :: "nat \<Rightarrow> bool \<Rightarrow> vmstate \<Rightarrow> stop + (u32 \<times> vmstate)" where
  "freeyieldednode n freemem v =
     (let y = yielded_nodes v n
      in bnd (lru_unlink n v) (\<lambda>v.
         case vm_isokendpt (fst (y_id y)) v of
           Inl _ \<Rightarrow> Inl (Panic ''out of date owner of yielded block'')
         | Inr p \<Rightarrow>
             bnd (kassert (vm_yielded_blocks v (y_id y) = Some n) ''removed == node'' v) (\<lambda>v.
               let v = v\<lparr>vm_yielded_blocks := (vm_yielded_blocks v)(y_id y := None)\<rparr>
               in bnd (kassert (vm_yielded (vmprocs v p) > 0) ''vmproc[p].vm_yielded > 0'' v) (\<lambda>v.
                    let v = upd_vmp p (\<lambda>q. q\<lparr>vm_yielded := vm_yielded q - 1\<rparr>) v
                    in bnd (if freemem then free_mem (drop_bit 12 (y_physaddr y)) (y_pages y) v else Inr v) (\<lambda>v. Inr (4096, v))))))"

text \<open>The loop ends after \<open>max_bytes\<close> divided by the page size, rounded up, turns or when no block is left.\<close>

fun free_oldest :: "nat \<Rightarrow> vmstate \<Rightarrow> stop + vmstate" where
  "free_oldest 0 v = Inr v"
| "free_oldest (Suc k) v =
     (case lru_oldest v of
        None \<Rightarrow> Inr v
      | Some n \<Rightarrow> bnd (freeyieldednode n True v) (\<lambda>(_, v). free_oldest k v))"

definition free_yielded :: "u32 \<Rightarrow> vmstate \<Rightarrow> stop + vmstate" where
  "free_yielded max_bytes v = free_oldest ((unat max_bytes + 4095) div 4096) v"

definition align_clicks_of :: "u32 \<Rightarrow> u32" where
  "align_clicks_of memflags = (if has memflags PAF_ALIGN64K then 16 else if has memflags PAF_ALIGN16K then 4 else 0)"

definition alloc_mem :: "u32 \<Rightarrow> u32 \<Rightarrow> vmstate \<Rightarrow> stop + (u32 \<times> vmstate)" where
  "alloc_mem clicks memflags v =
     (let align_clicks = align_clicks_of memflags; clicks = clicks + align_clicks
      in bnd (alloc_pages (sint clicks) memflags v) (\<lambda>(mem, v).
         bnd (if mem = NO_MEM
              then bnd (free_yielded (clicks * 4096) v) (alloc_pages (sint clicks) memflags)
              else Inr (mem, v)) (\<lambda>(mem, v).
         if mem = NO_MEM \<or> align_clicks = 0 \<or> mem mod align_clicks = 0 then Inr (mem, v)
         else let e = align_clicks - mem mod align_clicks
              in bnd (free_mem mem e v) (\<lambda>v. Inr (mem + e, v)))))"

definition mem_add_total_pages :: "int \<Rightarrow> vmstate \<Rightarrow> vmstate" where
  "mem_add_total_pages pages v = v\<lparr>total_pages := total_pages v + pages\<rparr>"

text \<open>\<open>mem_init\<close>; \<open>first\<close> is zero throughout.\<close>

fun mem_init_chunks :: "(u32 \<times> u32) list \<Rightarrow> vmstate \<Rightarrow> stop + vmstate" where
  "mem_init_chunks [] v = Inr v"
| "mem_init_chunks ((base, sz) # cs) v =
     (if sz = 0 then mem_init_chunks cs v
      else let from = push_bit 12 base; to = push_bit 12 (base + sz) - 1;
               v = (if from < mem_low v then v\<lparr>mem_low := from\<rparr> else v);
               v = (if mem_high v < to then v\<lparr>mem_high := to\<rparr> else v)
           in bnd (free_mem base sz v) (\<lambda>v. mem_init_chunks cs (v\<lparr>total_pages := total_pages v + uint sz\<rparr>)))"

definition mem_init :: "(u32 \<times> u32) list \<Rightarrow> vmstate \<Rightarrow> stop + vmstate" where
  "mem_init chunks v = mem_init_chunks (rev chunks) (v\<lparr>total_pages := 0, free_pages_bitmap := (\<lambda>_. 0)\<rparr>)"

end
