(* ===== verification/Vm_Pram.thy ===== *)
theory Vm_Pram
  imports Vm_Alloc Call_Laws
begin

text \<open>
  The part of the virtual memory server that serves the hardening (\<open>servers/vm/vmpram.c\<close>, \<open>vmcow.c\<close>, \<open>hcow.c\<close>): the
  server's own list of blocks per process, which says which frames the copies of a page are, the
  page fault of a run, and the release of copies with a region. Kernel calls are the functions of
  the kernel model on the kernel state of the server.
\<close>

abbreviation VM_FIRST_RUN :: int where "VM_FIRST_RUN \<equiv> 1"
abbreviation VM_SECOND_RUN :: int where "VM_SECOND_RUN \<equiv> 2"
abbreviation VR_WRITABLE :: u32 where "VR_WRITABLE \<equiv> 0x001"
abbreviation VR_PHYS64K :: u32 where "VR_PHYS64K \<equiv> 0x004"
abbreviation VR_LOWER16MB :: u32 where "VR_LOWER16MB \<equiv> 0x008"
abbreviation VR_LOWER1MB :: u32 where "VR_LOWER1MB \<equiv> 0x010"
abbreviation VR_CONTIG :: u32 where "VR_CONTIG \<equiv> 0x020"
abbreviation VR_UNINITIALIZED :: u32 where "VR_UNINITIALIZED \<equiv> 0x080"
abbreviation VM_TELL_VM_H_ENABLE :: int where "VM_TELL_VM_H_ENABLE \<equiv> 0xC51"
abbreviation VM_TELL_VM_H_DISABLE :: int where "VM_TELL_VM_H_DISABLE \<equiv> 0xC52"
abbreviation VM_TELL_VM_H_ENABLE_P :: int where "VM_TELL_VM_H_ENABLE_P \<equiv> 0xC53"
abbreviation VM_TELL_VM_H_DISABLE_P :: int where "VM_TELL_VM_H_DISABLE_P \<equiv> 0xC54"

section \<open>Kernel calls of the server\<close>

definition sys_abscopy :: "u32 \<Rightarrow> u32 \<Rightarrow> u32 \<Rightarrow> vmstate \<Rightarrow> stop + (int \<times> vmstate)" where
  "sys_abscopy src dst n v =
     (if n = 0 then Inr (OK, v)
      else bnd (do_copy VM_PROC_NR (zero_msg\<lparr>m5_i1 := NONE, m5_l1 := src, m5_i2 := NONE, m5_l2 := dst, m5_l3 := n\<rparr>) (kern v))
             (\<lambda>(r, k). Inr (r, v\<lparr>kern := k\<rparr>)))"

definition sys_hmem_map :: "int \<Rightarrow> u32 \<Rightarrow> u32 \<Rightarrow> u32 \<Rightarrow> int \<Rightarrow> vmstate \<Rightarrow> stop + (int \<times> vmstate)" where
  "sys_hmem_map e f1 f2 f3 rid v =
     bnd (do_hmem_map (zero_msg\<lparr>m10_i4 := e, m10_l1 := f1, m10_l2 := f2, m10_l3 := f3, m10_i3 := rid\<rparr>) (kern v))
       (\<lambda>(r, k). Inr (r, v\<lparr>kern := k\<rparr>))"

definition sys_addregionto_ws :: "int \<Rightarrow> u32 \<Rightarrow> int \<Rightarrow> u32 \<Rightarrow> u32 \<Rightarrow> vmstate \<Rightarrow> stop + (int \<times> vmstate)" where
  "sys_addregionto_ws e raddr rlength f1 f2 v =
     bnd (do_addregionto_ws (zero_msg\<lparr>m10_i4 := e, m10_l1 := raddr, m10_i3 := rlength, m10_l2 := f1, m10_l3 := f2\<rparr>) (kern v))
       (\<lambda>(r, k). Inr (r, v\<lparr>kern := k\<rparr>))"

definition sys_free_pmbs :: "int \<Rightarrow> u32 \<Rightarrow> int \<Rightarrow> vmstate \<Rightarrow> stop + (int \<times> vmstate)" where
  "sys_free_pmbs e raddr rlength v =
     bnd (do_free_pmbs (zero_msg\<lparr>m10_i1 := e, m10_l1 := raddr, m10_i2 := rlength\<rparr>) (kern v))
       (\<lambda>(r, k). Inr (r, v\<lparr>kern := k\<rparr>))"

definition sys_vmctl :: "(message \<Rightarrow> kstate \<Rightarrow> stop + (int \<times> message \<times> kstate)) \<Rightarrow>
    (message \<Rightarrow> kstate \<Rightarrow> stop + (int \<times> message \<times> kstate)) \<Rightarrow> int \<Rightarrow> int \<Rightarrow> int \<Rightarrow> vmstate \<Rightarrow> stop + (int \<times> vmstate)" where
  "sys_vmctl pm pr who param val v =
     bnd (do_vmctl pm pr VM_PROC_NR (zero_msg\<lparr>m1_i1 := who, m1_i2 := param, m1_i3 := val\<rparr>) (kern v))
       (\<lambda>(r, _, k). Inr (r, v\<lparr>kern := k\<rparr>))"

section \<open>The list of blocks of a process\<close>

definition upd_vb :: "nat \<Rightarrow> (vm_pmb \<Rightarrow> vm_pmb) \<Rightarrow> vmstate \<Rightarrow> vmstate" where
  "upd_vb a f v = v\<lparr>vm_working_set := (vm_working_set v)(a := f (vm_working_set v a))\<rparr>"

definition vb_nx :: "vmstate \<Rightarrow> nat \<Rightarrow> nat option" where
  "vb_nx v a = v_next (vm_working_set v a)"

definition vb_free :: "vmstate \<Rightarrow> nat \<Rightarrow> bool" where
  "vb_free v a \<longleftrightarrow> has (v_flags (vm_working_set v a)) PRAM_SLOT_FREE"

definition vb_at :: "u32 \<Rightarrow> u32 \<Rightarrow> vmstate \<Rightarrow> nat \<Rightarrow> bool" where
  "vb_at pde pte v a \<longleftrightarrow> I386_VM_PTE (v_vaddr (vm_working_set v a)) = pte \<and> I386_VM_PDE (v_vaddr (vm_working_set v a)) = pde"

definition vm_look_up_pte :: "int \<Rightarrow> u32 \<Rightarrow> u32 \<Rightarrow> vmstate \<Rightarrow> stop + nat option" where
  "vm_look_up_pte p pde pte v =
     (if vm_lus1_us2_size (vmprocs v p) \<le> 0 then Inr None
      else find_chain vb_nx (vb_at pde pte) (vm_lus1_us2 (vmprocs v p)) v)"

definition reset_vb :: "vm_pmb \<Rightarrow> vm_pmb" where
  "reset_vb b = b\<lparr>v_flags := clrf (v_flags b) PRAM_SLOT_FREE, v_us1 := MAP_NONE, v_us2 := MAP_NONE,
     v_us0 := MAP_NONE, v_vaddr := MAP_NONE, v_next := None\<rparr>"

definition vm_get_pmb :: "vmstate \<Rightarrow> stop + (nat \<times> vmstate)" where
  "vm_get_pmb v =
     (case first_free (vb_free v) WORKING_SET_SIZE of
        None \<Rightarrow> Inl (Panic ''Block list is full stop'')
      | Some i \<Rightarrow> Inr (i, upd_vb i reset_vb v))"

definition vm_link_pmb :: "int \<Rightarrow> nat \<Rightarrow> vmstate \<Rightarrow> stop + vmstate" where
  "vm_link_pmb p n v =
     bnd (if vm_lus1_us2_size (vmprocs v p) = 0
          then Inr (upd_vmp p (\<lambda>r. r\<lparr>vm_lus1_us2 := Some n\<rparr>) v)
          else bnd (tail_of (vb_nx v) (vm_lus1_us2 (vmprocs v p)))
                 (\<lambda>t. Inr (upd_vb n (\<lambda>b. b\<lparr>v_next := None\<rparr>) (upd_vb t (\<lambda>b. b\<lparr>v_next := Some n\<rparr>) v))))
       (\<lambda>v. Inr (upd_vmp p (\<lambda>r. r\<lparr>vm_lus1_us2_size := vm_lus1_us2_size r + 1\<rparr>)
                  (upd_vb n (\<lambda>b. b\<lparr>v_id := vm_lus1_us2_size (vmprocs v p)\<rparr>) v)))"

definition vm_add_pmb :: "int \<Rightarrow> u32 \<Rightarrow> u32 \<Rightarrow> u32 \<Rightarrow> u32 \<Rightarrow> vmstate \<Rightarrow> stop + (nat \<times> vmstate)" where
  "vm_add_pmb p vaddr pfa f1 f2 v =
     bnd (vm_get_pmb v) (\<lambda>(n, v).
       bnd (vm_link_pmb p n (upd_vb n (\<lambda>b. b\<lparr>v_us0 := pfa, v_vaddr := vaddr, v_us1 := f1, v_us2 := f2\<rparr>) v))
         (\<lambda>v. Inr (n, v)))"

text \<open>The frames of the copies are given back whether or not there is a copy.\<close>

definition clear_vb :: "vm_pmb \<Rightarrow> vm_pmb" where
  "clear_vb b = b\<lparr>v_flags := PRAM_SLOT_FREE, v_vaddr := MAP_NONE, v_id := 0, v_us1 := MAP_NONE, v_us2 := MAP_NONE, v_us0 := MAP_NONE\<rparr>"

definition unlink_vb :: "int \<Rightarrow> nat option \<Rightarrow> nat \<Rightarrow> vmstate \<Rightarrow> vmstate" where
  "unlink_vb p prev a v =
     (let v = upd_vmp p (\<lambda>r. r\<lparr>vm_lus1_us2_size := vm_lus1_us2_size r - 1\<rparr>) (upd_vb a clear_vb v)
      in case prev of
           Some b \<Rightarrow> upd_vb b (\<lambda>c. c\<lparr>v_next := vb_nx v a\<rparr>) v
         | None \<Rightarrow> upd_vmp p (\<lambda>r. r\<lparr>vm_lus1_us2 := vb_nx v a\<rparr>) v)"

definition vm_free_pram_mem_block :: "int \<Rightarrow> u32 \<Rightarrow> vmstate \<Rightarrow> stop + vmstate" where
  "vm_free_pram_mem_block p vaddr v =
     bnd (kassert (vm_lus1_us2_size (vmprocs v p) > 0) ''vm_lus1_us2_size > 0'' v) (\<lambda>v.
     bnd (search_prev (vb_nx v) (vb_at (I386_VM_PDE vaddr) (I386_VM_PTE vaddr) v) (vm_lus1_us2 (vmprocs v p))) (\<lambda>found.
       case found of
         None \<Rightarrow> Inr v
       | Some (prev, a) \<Rightarrow>
           bnd (free_mem (drop_bit 12 (v_us1 (vm_working_set v a))) 1 v) (\<lambda>v.
           bnd (free_mem (drop_bit 12 (v_us2 (vm_working_set v a))) 1 v) (\<lambda>v.
           Inr (unlink_vb p prev a v)))))"

definition vm_free_pram_mem_blocks :: "int \<Rightarrow> vmstate \<Rightarrow> stop + vmstate" where
  "vm_free_pram_mem_blocks p v =
     (if vm_lus1_us2_size (vmprocs v p) \<le> 0 then Inr v
      else bnd (for_chain vb_nx
                  (\<lambda>a v. bnd (vm_free_pram_mem_block p (v_vaddr (vm_working_set v a)) v) (\<lambda>v. Inr (None :: unit option, v)))
                  (vm_lus1_us2 (vmprocs v p)) v)
        (\<lambda>(_, v). bnd (kassert (vm_lus1_us2_size (vmprocs v p) = 0) ''vm_lus1_us2_size == 0'' v)
                    (kassert (vm_lus1_us2 (vmprocs v p) = None) ''vm_lus1_us2 == NULL'')))"

definition free_region_pmbs :: "int \<Rightarrow> u32 \<Rightarrow> u32 \<Rightarrow> vmstate \<Rightarrow> stop + (int \<times> vmstate)" where
  "free_region_pmbs p raddr len v =
     (if vm_lus1_us2_size (vmprocs v p) \<le> 0 then Inr (OK, v)
      else bnd (for_each
             (\<lambda>i v. let vaddr = page_base_of raddr + of_nat i * 4 * 1024
                in bnd (vm_look_up_pte p (I386_VM_PDE vaddr) (I386_VM_PTE vaddr) v) (\<lambda>r.
                     case r of None \<Rightarrow> Inr v | Some a \<Rightarrow> vm_free_pram_mem_block p (v_vaddr (vm_working_set v a)) v))
             [0 ..< nat (n_pages_covered raddr len)] v) (\<lambda>v.
           bnd (sys_free_pmbs (vm_endpoint (vmprocs v p)) raddr (sint len) v) (\<lambda>(_, v). Inr (OK, v))))"

text \<open>Both copies for every page of a new range of memory, announced to the kernel.\<close>

fun tell_pages :: "nat \<Rightarrow> int \<Rightarrow> u32 \<Rightarrow> u32 \<Rightarrow> vmstate \<Rightarrow> stop + (int \<times> vmstate)" where
  "tell_pages 0 p vaddr physaddr v = Inr (OK, v)"
| "tell_pages (Suc k) p vaddr physaddr v =
     bnd (bnd (vm_look_up_pte p (I386_VM_PDE vaddr) (I386_VM_PTE vaddr) v) (\<lambda>r.
            case r of
              Some a \<Rightarrow> Inr (a, upd_vb a (\<lambda>b. b\<lparr>v_us0 := physaddr\<rparr>) v)
            | None \<Rightarrow>
                bnd (alloc_mem 1 PAF_CLEAR v) (\<lambda>(c1, v).
                if c1 = NO_MEM then Inl (Panic ''tell_kernel_for_us1_us2'')
                else bnd (alloc_mem 1 PAF_CLEAR v) (\<lambda>(c2, v).
                if c2 = NO_MEM then Inl (Panic ''tell_kernel_for_us1_us2'')
                else vm_add_pmb p vaddr physaddr (push_bit 12 c1) (push_bit 12 c2) v)))) (\<lambda>(a, v).
     bnd (sys_addregionto_ws (vm_endpoint (vmprocs v p)) vaddr 1 (v_us1 (vm_working_set v a)) (v_us2 (vm_working_set v a)) v) (\<lambda>(r, v).
     if r \<noteq> OK then Inr (EFAULT, v)
     else tell_pages k p (vaddr + 4096) (physaddr + 4096) v))"

definition tell_kernel_for_us1_us2 :: "int \<Rightarrow> u32 \<Rightarrow> u32 \<Rightarrow> u32 \<Rightarrow> vmstate \<Rightarrow> stop + (int \<times> vmstate)" where
  "tell_kernel_for_us1_us2 p vaddr physaddr bytes v = tell_pages (unat (bytes div 4096)) p vaddr physaddr v"

section \<open>Regions\<close>

text \<open>
  The regions of a process are kept in a search tree; here they are the list of its nodes from the lowest
  address to the highest, and the search for the highest start not above an address takes
  the last of them.
\<close>

definition region_search :: "vir_region list \<Rightarrow> u32 \<Rightarrow> vir_region option" where
  "region_search rs offset = find (\<lambda>r. vr_vaddr r \<le> offset) (rev rs)"

definition map_lookup :: "int \<Rightarrow> u32 \<Rightarrow> vmstate \<Rightarrow> vir_region option" where
  "map_lookup p offset v =
     (case region_search (vm_regions (vmprocs v p)) offset of
        None \<Rightarrow> None
      | Some r \<Rightarrow> if vr_vaddr r \<le> offset \<and> offset < vr_vaddr r + vr_length r then Some r else None)"

definition physblock_get :: "vir_region \<Rightarrow> u32 \<Rightarrow> vmstate \<Rightarrow> stop + phys_region option" where
  "physblock_get region offset v =
     bnd (kassert (offset mod 4096 = 0) ''!(offset % VM_PAGE_SIZE)'' v) (\<lambda>v.
     bnd (kassert (offset < vr_length region) ''offset < region->length'' v) (\<lambda>v.
     case physblocks region (unat (offset div 4096)) of
       None \<Rightarrow> Inr None
     | Some f \<Rightarrow> bnd (kassert (pr_offset f = offset) ''foundregion->offset == offset'' v) (\<lambda>_. Inr (Some f))))"

definition vrallocflags :: "u32 \<Rightarrow> u32" where
  "vrallocflags flags =
     (if has flags VR_PHYS64K then PAF_ALIGN64K else 0) OR (if has flags VR_LOWER16MB then PAF_LOWER16MB else 0) OR
     (if has flags VR_LOWER1MB then PAF_LOWER1MB else 0) OR (if has flags VR_CONTIG then PAF_CONTIG else 0) OR
     (if \<not> has flags VR_UNINITIALIZED then PAF_CLEAR else 0)"

section \<open>Page faults of a run\<close>

definition alloc_or_panic :: "u32 \<Rightarrow> vmstate \<Rightarrow> stop + (u32 \<times> vmstate)" where
  "alloc_or_panic allocflags v =
     bnd (alloc_mem 1 (allocflags OR PAF_CLEAR) v) (\<lambda>(c, v).
       if c = NO_MEM then Inl (Panic ''allocate_mem_4_hardening'') else Inr (push_bit 12 c, v))"

definition copy_or_panic :: "u32 \<Rightarrow> u32 \<Rightarrow> vmstate \<Rightarrow> stop + vmstate" where
  "copy_or_panic src dst v =
     bnd (sys_abscopy src dst 4096 v) (\<lambda>(r, v). if r \<noteq> OK then Inl (Panic ''VM: abscopy failed'') else Inr v)"

definition tell_or_panic :: "int \<Rightarrow> u32 \<Rightarrow> u32 \<Rightarrow> vmstate \<Rightarrow> stop + vmstate" where
  "tell_or_panic p f1 f2 v =
     bnd (sys_hmem_map (vm_endpoint (vmprocs v p)) f1 f2 (- 2) 0 v) (\<lambda>(r, v).
       if r \<noteq> OK then Inl (Panic ''VM: sys_hmem_map failed'') else Inr v)"

text \<open>A page that has no block yet.\<close>

definition first_copy :: "int \<Rightarrow> u32 \<Rightarrow> u32 \<Rightarrow> u32 \<Rightarrow> int \<Rightarrow> vmstate \<Rightarrow> stop + vmstate" where
  "first_copy p vaddr phys allocflags what v =
     bnd (vm_get_pmb v) (\<lambda>(n, v).
     bnd (alloc_or_panic allocflags v) (\<lambda>(new, v).
     bnd (copy_or_panic phys new v) (\<lambda>v.
     bnd (vm_link_pmb p n (upd_vb n (\<lambda>b. b\<lparr>v_us0 := phys, v_vaddr := vaddr,
            v_us1 := if what = VM_FIRST_RUN then new else v_us1 b, v_us2 := if what = VM_SECOND_RUN then new else v_us2 b\<rparr>) v)) (\<lambda>v.
     bnd (if what = VM_FIRST_RUN then tell_or_panic p new (- 2) v else Inr v) (\<lambda>v.
     if what = VM_SECOND_RUN then tell_or_panic p (- 2) new v else Inr v)))))"

text \<open>A page that has one: a frame is allocated when either copy is missing, and used when that of this run is.\<close>

definition other_copy :: "int \<Rightarrow> nat \<Rightarrow> u32 \<Rightarrow> u32 \<Rightarrow> int \<Rightarrow> vmstate \<Rightarrow> stop + vmstate" where
  "other_copy p a phys allocflags what v =
     (let b = vm_working_set v a;
          v = (if v_us1 b \<noteq> MAP_NONE \<and> v_us2 b \<noteq> MAP_NONE then upd_vb a (\<lambda>b. b\<lparr>v_us0 := phys\<rparr>) v else v)
      in bnd (if v_us1 b = MAP_NONE \<or> v_us2 b = MAP_NONE then alloc_or_panic allocflags v else Inr (0, v)) (\<lambda>(new, v).
         if what = VM_FIRST_RUN
         then let v = (if v_us1 b = MAP_NONE then upd_vb a (\<lambda>b. b\<lparr>v_us1 := new\<rparr>) v else v)
              in bnd (copy_or_panic phys (v_us1 (vm_working_set v a)) v) (\<lambda>v. tell_or_panic p (v_us1 (vm_working_set v a)) (- 2) v)
         else if what = VM_SECOND_RUN
         then let v = (if v_us2 b = MAP_NONE then upd_vb a (\<lambda>b. b\<lparr>v_us2 := new\<rparr>) v else v)
              in bnd (copy_or_panic phys (v_us2 (vm_working_set v a)) v) (\<lambda>v. tell_or_panic p (- 2) (v_us2 (vm_working_set v a)) v)
         else Inl (Panic ''Unkown value for what in hmap_pf'')))"

definition allocate_mem_4_hardening :: "int \<Rightarrow> vir_region \<Rightarrow> phys_region \<Rightarrow> int \<Rightarrow> vmstate \<Rightarrow> stop + vmstate" where
  "allocate_mem_4_hardening p region ph what v =
     (let vaddr = vr_vaddr region + pr_offset ph; allocflags = vrallocflags (vr_flags region);
          v = upd_vmp p (\<lambda>q. q\<lparr>vm_hflags := setf (vm_hflags q) VM_PROC_TO_HARD\<rparr>) v
      in bnd (vm_look_up_pte p (I386_VM_PDE vaddr) (I386_VM_PTE vaddr) v) (\<lambda>r.
           case r of
             None \<Rightarrow> first_copy p vaddr (pr_phys ph) allocflags what v
           | Some a \<Rightarrow> other_copy p a (pr_phys ph) allocflags what v))"

definition hmap_pf :: "int \<Rightarrow> vir_region \<Rightarrow> u32 \<Rightarrow> bool \<Rightarrow> int \<Rightarrow> vmstate \<Rightarrow> stop + (int \<times> vmstate)" where
  "hmap_pf p region offset write what v =
     (let offset = offset - offset mod 4096
      in bnd (kassert (offset < vr_length region) ''offset < region->length'' v) (\<lambda>v.
         bnd (kassert (vr_vaddr region mod 4096 = 0) ''!(region->vaddr % VM_PAGE_SIZE)'' v) (\<lambda>v.
         bnd (kassert (\<not> (write \<and> \<not> has (vr_flags region) VR_WRITABLE)) ''!(write && !(region->flags & VR_WRITABLE))'' v) (\<lambda>v.
         bnd (physblock_get region offset v) (\<lambda>ph.
         case ph of
           None \<Rightarrow> Inl (AssertFail ''ph'')
         | Some ph \<Rightarrow> bnd (allocate_mem_4_hardening p region ph what v) (\<lambda>v. Inr (OK, v)))))))"

text \<open>
  \<open>hmap_pf\<close> has no other result than \<open>OK\<close>, so the signal to the process is never sent.
\<close>

definition do_hpagefaults :: "(message \<Rightarrow> kstate \<Rightarrow> stop + (int \<times> message \<times> kstate)) \<Rightarrow>
    (message \<Rightarrow> kstate \<Rightarrow> stop + (int \<times> message \<times> kstate)) \<Rightarrow> message \<Rightarrow> vmstate \<Rightarrow> stop + vmstate" where
  "do_hpagefaults pm pr m v =
     (let ep = m_source m; addr = VPF_ADDR m; wr = has (VPF_FLAGS m) 2;
          what = (if m_type m = VM_HR2PAGEFAULT then VM_SECOND_RUN else if m_type m = VM_HR1PAGEFAULT then VM_FIRST_RUN else 0)
      in case vm_isokendpt ep v of
           Inl _ \<Rightarrow> Inl (Panic ''do_pagefaults: endpoint wrong'')
         | Inr p \<Rightarrow>
             bnd (kassert (has (vm_flags (vmprocs v p)) VMF_INUSE) ''vmp->vm_flags & VMF_INUSE'' v) (\<lambda>v.
             case map_lookup p addr v of
               None \<Rightarrow> Inl (Panic ''region null'')
             | Some region \<Rightarrow>
                 bnd (kassert (vr_vaddr region \<le> addr) ''addr >= region->vaddr'' v) (\<lambda>v.
                 bnd (hmap_pf p region (addr - vr_vaddr region) wr what v) (\<lambda>(_, v).
                 bnd (sys_vmctl pm pr ep VMCTL_CLEAR_PAGEFAULT 0 v) (\<lambda>(s, v).
                 if s \<noteq> OK then Inl (Panic ''do_pagefaults: sys_vmctl failed'') else Inr v)))))"

definition do_memconf :: "message \<Rightarrow> vmstate \<Rightarrow> stop + (int \<times> vmstate)" where
  "do_memconf m v =
     (case vm_isokendpt (m_source m) v of
        Inl _ \<Rightarrow> Inl (Panic ''do_pagefaults: endpoint wrong'')
      | Inr p \<Rightarrow> bnd (vm_free_pram_mem_blocks p v) (\<lambda>v. Inr (OK, v)))"

definition vm_do_hardening :: "message \<Rightarrow> vmstate \<Rightarrow> stop + vmstate" where
  "vm_do_hardening m v =
     (case vm_isokendpt (m_source m) v of
        Inl _ \<Rightarrow> Inl (Panic ''do_hardening: endpoint wrong'')
      | Inr p \<Rightarrow>
          bnd (kassert (has (vm_flags (vmprocs v p)) VMF_INUSE) ''vmp->vm_flags & VMF_INUSE'' v) (\<lambda>v.
          let r = m_type m
          in Inr (if r = VM_TELL_VM_H_ENABLE then v\<lparr>hardening_enabled := 1\<rparr>
                  else if r = VM_TELL_VM_H_DISABLE then v\<lparr>hardening_enabled := 0\<rparr>
                  else if r = VM_TELL_VM_H_ENABLE_P then upd_vmp p (\<lambda>q. q\<lparr>vm_hflags := setf (vm_hflags q) VM_PROC_TO_HARD\<rparr>) v
                  else if r = VM_TELL_VM_H_DISABLE_P then upd_vmp p (\<lambda>q. q\<lparr>vm_hflags := clrf (vm_hflags q) VM_PROC_TO_HARD\<rparr>) v
                  else v)))"

text \<open>
  The part of the server's main loop that the hardening added. The result \<open>None\<close> is a message the stock code handles.
  Nothing here looks at who sent the message.
\<close>

definition vm_hardening_message :: "(message \<Rightarrow> kstate \<Rightarrow> stop + (int \<times> message \<times> kstate)) \<Rightarrow>
    (message \<Rightarrow> kstate \<Rightarrow> stop + (int \<times> message \<times> kstate)) \<Rightarrow> message \<Rightarrow> vmstate \<Rightarrow> stop + vmstate option" where
  "vm_hardening_message pm pr m v =
     (case vm_isokendpt (m_source m) v of
        Inl _ \<Rightarrow> Inl (Panic ''invalid caller'')
      | Inr _ \<Rightarrow>
          if m_type m = VM_HR1PAGEFAULT \<or> m_type m = VM_HR2PAGEFAULT
          then bnd (do_hpagefaults pm pr m v) (\<lambda>v. Inr (Some v))
          else if m_type m \<in> {VM_TELL_VM_H_ENABLE, VM_TELL_VM_H_DISABLE, VM_TELL_VM_H_ENABLE_P, VM_TELL_VM_H_DISABLE_P}
          then bnd (vm_do_hardening m v) (\<lambda>v. Inr (Some v))
          else Inr None)"

end
