(* ===== verification/Vm_Alloc_Laws.thy ===== *)
theory Vm_Alloc_Laws
  imports Vm_Alloc Copy_Laws
begin

text \<open>
  The allocator of physical pages (\<open>Vm_Alloc\<close>): the scan for free pages finds the highest fit, an
  allocation takes exactly the pages it returns and clears them on request, and giving
  them back restores the map of free pages; aligned requests lose pages.
\<close>

section \<open>The scan finds the highest fit\<close>

definition fits :: "vmstate \<Rightarrow> int \<Rightarrow> int \<Rightarrow> int \<Rightarrow> bool" where
  "fits v pages hi f \<longleftrightarrow> 0 \<le> f \<and> f + pages - 1 \<le> hi \<and> (\<forall>j. f \<le> j \<and> j < f + pages \<longrightarrow> page_isfree v j)"

lemma chunk_zero: "c < k \<Longrightarrow> k \<le> n \<Longrightarrow> c = chunk_down bm n \<Longrightarrow> bm k = 0"
  by (induction n arbitrary: c) (auto simp: le_Suc_eq split: if_splits)

lemma skipped_not_free:
  assumes "0 \<le> i" "c = chunk_down (free_pages_bitmap v) (nat i div 32)" "int c * 32 + 31 < j" "j \<le> i"
  shows "\<not> page_isfree v j"
proof -
  have j: "0 \<le> j" using assms(3) by linarith
  have "c < nat j div 32" 
  proof -
    have "c * 32 + 31 < nat j" using assms(3) j by linarith
    then show ?thesis by linarith
  qed
  moreover have "nat j div 32 \<le> nat i div 32" using assms(4) j by (intro div_le_mono) simp
  ultimately have "free_pages_bitmap v (nat j div 32) = 0" using chunk_zero assms(2) by blast
  then show ?thesis by (simp add: page_isfree_def)
qed

lemma findbit_loop_highest:
  assumes "pages > 0" "0 \<le> rl" "rl < pages" "i + rl \<le> hi" "rl > 0 \<Longrightarrow> fs = i + 1"
    "\<And>j. i < j \<Longrightarrow> j \<le> i + rl \<Longrightarrow> page_isfree v j" "i + rl = hi \<or> \<not> page_isfree v (i + rl + 1)"
    "\<And>f. fits v pages hi f \<Longrightarrow> f \<le> i"
  shows "\<exists>f. findbit_loop v 0 pages i rl fs = Inr f \<and>
    (f = - 2 \<and> (\<forall>g. \<not> fits v pages hi g) \<or> fits v pages hi f \<and> (\<forall>g. fits v pages hi g \<longrightarrow> g \<le> f))"
  using assms
proof (induction v "0 :: int" pages i rl fs rule: findbit_loop.induct)
  case (1 v pages i rl fs)
  note IHn = 1(1) and IHf = 1(2) and pos = 1(3) and rl = 1(4,5) and hi = 1(6) and fs = 1(7) and run = 1(8) and top = 1(9) and ub = 1(10)
  show ?case
  proof (cases "i < 0")
    case True
    have "\<not> fits v pages hi g" for g using ub [of g] True by (auto simp: fits_def)
    then show ?thesis using True by (subst findbit_loop.simps) auto
  next
    case i: False
    show ?thesis
    proof (cases "page_isfree v i")
      case free: True
      let ?fs = "if rl = 0 then i else fs - 1" let ?rl = "if rl = 0 then 1 else rl + 1"
      have e: "?fs = i" "?rl = rl + 1" using rl fs by auto
      have run': "page_isfree v j" if "i \<le> j" "j \<le> i + rl" for j using run [of j] free that by (cases "j = i") auto
      show ?thesis
      proof (cases "rl + 1 = pages")
        case True
        have "fits v pages hi i" using run' True i hi by (auto simp: fits_def)
        moreover have "findbit_loop v 0 pages i rl fs = Inr i"
          using i free e True by (subst findbit_loop.simps) (simp add: Let_def)
        ultimately show ?thesis using ub by blast
      next
        case more: False
        have nofit: "f \<le> i - 1" if "fits v pages hi f" for f
        proof (rule ccontr)
          assume "\<not> f \<le> i - 1"
          then have "f = i" using ub [OF that] by linarith
          moreover have "i + rl + 1 < i + pages" using rl more by linarith
          ultimately have "page_isfree v (i + rl + 1)" "i + rl + 1 \<le> hi" using that rl by (auto simp: fits_def)
          then show False using top by auto
        qed
        have "\<exists>f. findbit_loop v 0 pages (i - 1) ?rl ?fs = Inr f \<and>
          (f = - 2 \<and> (\<forall>g. \<not> fits v pages hi g) \<or> fits v pages hi f \<and> (\<forall>g. fits v pages hi g \<longrightarrow> g \<le> f))"
        proof (rule IHf [of ?fs ?rl])
          show "\<not> (i < 0 \<or> i < 0)" "\<not> \<not> page_isfree v i" using i free by auto
          show "\<not> pages < ?rl" "?rl \<noteq> pages" using rl more e by auto
          show "page_isfree v j" if "i - 1 < j" "j \<le> i - 1 + ?rl" for j using run' [of j] that e(2) by auto
          show "i - 1 + ?rl = hi \<or> \<not> page_isfree v (i - 1 + ?rl + 1)" using top e(2) by (simp add: add.commute add.left_commute)
        qed (use pos rl more hi e nofit in auto)
        moreover have "findbit_loop v 0 pages i rl fs = findbit_loop v 0 pages (i - 1) ?rl ?fs"
          using i free more rl e by (subst findbit_loop.simps) (simp add: Let_def)
        ultimately show ?thesis by simp
      qed
    next
      case used: False
      let ?ch = "nat i div 32" let ?c = "chunk_down (free_pages_bitmap v) ?ch"
      let ?i = "if ?c < ?ch then int ?c * 32 + 31 else i - 1"
      have le: "?i < i" using below_chunk [of ?c i] i by auto
      have gone: "\<not> page_isfree v j" if "?i < j" "j \<le> i" for j
        using that used skipped_not_free [of i ?c v j] i by (cases "j = i") (auto split: if_splits)
      have nofit: "f \<le> ?i" if "fits v pages hi f" for f
        using ub [OF that] gone [of f] that pos by (force simp: fits_def)
      have "\<exists>f. findbit_loop v 0 pages ?i 0 fs = Inr f \<and>
          (f = - 2 \<and> (\<forall>g. \<not> fits v pages hi g) \<or> fits v pages hi f \<and> (\<forall>g. fits v pages hi g \<longrightarrow> g \<le> f))"
      proof (rule IHn [of ?ch ?c])
        show "?i + 0 \<le> hi" using le hi rl by linarith
        show "?i + 0 = hi \<or> \<not> page_isfree v (?i + 0 + 1)" using gone [of "?i + 1"] le by simp
      qed (use i used pos nofit in auto)
      moreover have "findbit_loop v 0 pages i rl fs = findbit_loop v 0 pages ?i 0 fs"
        using i used by (subst findbit_loop.simps) (simp add: Let_def)
      ultimately show ?thesis by simp
    qed
  qed
qed

section \<open>Filling physical memory\<close>

definition fill :: "u32 \<Rightarrow> nat \<Rightarrow> u8 \<Rightarrow> (u32 \<Rightarrow> u8) \<Rightarrow> u32 \<Rightarrow> u8" where
  "fill a n c m = (\<lambda>x. if unat (x - a) < n then c else m x)"

lemma fill_0 [simp]: "fill a 0 c m = m"
  by (simp add: fill_def)

lemma stos_fill:
  assumes "no_faults s" "i + k \<le> 2 ^ 32"
  shows "stos k None a c i (s\<lparr>mem := fill a i c m\<rparr>) = Inr (s\<lparr>mem := fill a (i + k) c m\<rparr>)"
proof -
  let ?g = "\<lambda>j. a + of_nat (i + j)"
  have un: "unat (?g j - a) = i + j" if "j < k" for j
    using that assms(2) by (simp add: unsigned_of_nat take_bit_nat_eq_self del: of_nat_add)
  have inj: "inj_on ?g {..<length (replicate k c)}"
  proof (rule inj_onI)
    fix x y assume "x \<in> {..<length (replicate k c)}" "y \<in> {..<length (replicate k c)}" "?g x = ?g y"
    then show "x = y" using un [of x] un [of y] by auto
  qed
  have "store_bytes ?g (replicate k c) (fill a i c m) x = fill a (i + k) c m x" for x
  proof (cases "x \<in> ?g ` {..<k}")
    case True
    then obtain j where j: "j < k" "x = ?g j" by auto
    then show ?thesis using store_bytes_at [OF inj, of j] un [OF j(1)] by (simp add: fill_def)
  next
    case False
    have "unat (x - a) < i \<longleftrightarrow> unat (x - a) < i + k"
    proof (rule ccontr)
      assume "\<not> ?thesis"
      then have "i \<le> unat (x - a)" "unat (x - a) < i + k" by auto
      then have "x = ?g (unat (x - a) - i)" "unat (x - a) - i < k" by auto
      then show False using False by blast
    qed
    then show ?thesis using False store_bytes_other [of x ?g "replicate k c"] by (simp add: fill_def)
  qed
  then have "store_bytes ?g (replicate k c) (fill a i c m) = fill a (i + k) c m" by blast
  moreover have "find (\<lambda>j. False) [0 ..< k] = None" by (simp add: find_none)
  ultimately show ?thesis using assms(1) by (simp add: stos_def access_wr_def no_faults_def)
qed

lemma phys_memset_fill:
  "no_faults s \<Longrightarrow> i + sum_list ks \<le> 2 ^ 32 \<Longrightarrow>
    phys_memset ks None a c i (s\<lparr>mem := fill a i c m\<rparr>) = (None, s\<lparr>mem := fill a (i + sum_list ks) c m\<rparr>)"
proof (induction ks arbitrary: i)
  case (Cons k ks)
  then show ?case using stos_fill [of s i k a c m] by (simp add: add.assoc)
qed simp

lemma sum_set_units: "sum_list (set_units n) = n"
  by (simp add: set_units_def sum_list_replicate)

lemma fill_fill:
  assumes "k \<le> (n :: u32)"
  shows "fill (a + k) (unat (n - k)) c (fill a (unat k) c m) = fill a (unat n) c m"
proof
  fix x
  have e: "x - (a + k) = (x - a) - k" by simp
  have "(x - a) - k < n - k \<longleftrightarrow> k \<le> x - a \<and> x - a < n" if "\<not> x - a < k"
  proof -
    have "k \<le> x - a" using that by simp
    then have "unat ((x - a) - k) = unat (x - a) - unat k" "unat (n - k) = unat n - unat k"
      using assms by (simp_all add: unat_sub)
    then show ?thesis using \<open>k \<le> x - a\<close> by (simp add: word_less_nat_alt word_le_nat_alt) linarith
  qed
  then show "fill (a + k) (unat (n - k)) c (fill a (unat k) c m) x = fill a (unat n) c m x"
    unfolding fill_def word_less_nat_alt [symmetric] e using assms by (cases "x - a < k") auto
qed

lemma set_chunks_fill:
  "no_faults s \<Longrightarrow> set_chunks None a c n (s\<lparr>mem := m\<rparr>) = (False, s\<lparr>mem := fill a (unat n) c m\<rparr>)"
proof (induction "unat n" arbitrary: n a m rule: less_induct)
  case less
  show ?case
  proof (cases "n = 0")
    case True
    then show ?thesis by (subst set_chunks.simps) simp
  next
    case False
    obtain p k where p: "createpde None a n 0 (s\<lparr>mem := m\<rparr>) = (p, k)" by fastforce
    then have k: "k \<le> n" "unat (n - k) < unat n"
      using createpde_le [of None a n 0 "s\<lparr>mem := m\<rparr>"] createpde_less [OF False p] by simp_all
    have "phys_memset (set_units (unat k)) None a c 0 (s\<lparr>mem := m\<rparr>) = (None, s\<lparr>mem := fill a (unat k) c m\<rparr>)"
      using phys_memset_fill [OF less.prems, of 0 "set_units (unat k)" a c m] unsigned_less [of k, where ?'a = nat]
      by (simp add: sum_set_units)
    then show ?thesis
      using False p less.hyps [OF k(2) less.prems] by (subst set_chunks.simps) (simp add: fill_fill [OF k(1)])
  qed
qed

lemma sys_memset_physical:
  assumes "no_faults (kern v)" "check_resumed_caller (Some VM_PROC_NR) (kern v) = Inr OK"
  shows "sys_memset NONE 0 a n v = Inr (OK, v\<lparr>kern := (kern v)\<lparr>mem := fill a (unat n) 0 (mem (kern v))\<rparr>\<rparr>)"
  using set_chunks_fill [OF assms(1), of a 0 n "mem (kern v)"] assms(2)
  by (simp add: sys_memset_def do_memset_def vm_memset_def vir_proc_def)

section \<open>Marking pages\<close>

lemma has_push_bit: "has (w :: u32) (push_bit k 1) \<longleftrightarrow> bit w k"
  by (simp only: has_def bit_iff_and_push_bit_not_eq_0)

lemma page_isfree_bit: "page_isfree v i \<longleftrightarrow> bit (free_pages_bitmap v (nat i div 32)) (nat i mod 32)"
  unfolding page_isfree_def has_push_bit ..

lemma page_isfree_cong [simp]:
  "page_isfree (v\<lparr>free_page_cache_size := n\<rparr>) = page_isfree v" "page_isfree (v\<lparr>lastscan := i\<rparr>) = page_isfree v"
  "page_isfree (v\<lparr>kern := k\<rparr>) = page_isfree v" "page_isfree (v\<lparr>free_page_cache := c\<rparr>) = page_isfree v"
  by (auto simp: page_isfree_def fun_eq_iff)

lemma set_bit_page_isfree:
  assumes "set_bit_page b i v = Inr t" "0 \<le> j"
  shows "page_isfree t j \<longleftrightarrow> (if j = i then b else page_isfree v j)"
proof -
  have i: "0 \<le> i" and t: "t = v\<lparr>free_pages_bitmap := (free_pages_bitmap v)(nat i div 32 :=
      if b then setf (free_pages_bitmap v (nat i div 32)) (push_bit (nat i mod 32) 1)
      else clrf (free_pages_bitmap v (nat i div 32)) (push_bit (nat i mod 32) 1))\<rparr>"
    using assms(1) by (auto simp: set_bit_page_def Let_def split: if_splits)
  have m: "nat j mod 32 < 32" by simp
  show ?thesis
  proof (cases "nat j div 32 = nat i div 32")
    case True
    then have "nat j mod 32 = nat i mod 32 \<longleftrightarrow> j = i" using i assms(2) by (metis div_mult_mod_eq nat_eq_iff2)
    then show ?thesis using True m by (auto simp: t page_isfree_bit setf_def clrf_def bit_simps)
  next
    case False
    then show ?thesis by (auto simp: t page_isfree_bit)
  qed
qed

lemma set_bit_page_ok:
  assumes "0 \<le> i" "i < NUMBER_PHYSICAL_PAGES"
  shows "\<exists>bm. set_bit_page b i v = Inr (v\<lparr>free_pages_bitmap := bm\<rparr>)"
  using assms by (auto simp: set_bit_page_def Let_def)

lemma set_pages_ok:
  "\<forall>i \<in> set is. 0 \<le> i \<and> i < NUMBER_PHYSICAL_PAGES \<Longrightarrow>
    \<exists>bm. set_pages b is v = Inr (v\<lparr>free_pages_bitmap := bm\<rparr>) \<and>
      (\<forall>j \<ge> 0. page_isfree (v\<lparr>free_pages_bitmap := bm\<rparr>) j \<longleftrightarrow> (if j \<in> set is then b else page_isfree v j))"
proof (induction "is" arbitrary: v)
  case Nil
  then show ?case by (intro exI [of _ "free_pages_bitmap v"]) simp
next
  case (Cons i "is")
  obtain bm where b: "set_bit_page b i v = Inr (v\<lparr>free_pages_bitmap := bm\<rparr>)"
    using set_bit_page_ok [of i b v] Cons.prems by auto
  obtain bm' where b': "set_pages b is (v\<lparr>free_pages_bitmap := bm\<rparr>) = Inr (v\<lparr>free_pages_bitmap := bm\<rparr>\<lparr>free_pages_bitmap := bm'\<rparr>)"
    "\<forall>j \<ge> 0. page_isfree (v\<lparr>free_pages_bitmap := bm\<rparr>\<lparr>free_pages_bitmap := bm'\<rparr>) j \<longleftrightarrow>
       (if j \<in> set is then b else page_isfree (v\<lparr>free_pages_bitmap := bm\<rparr>) j)"
    using Cons.IH [of "v\<lparr>free_pages_bitmap := bm\<rparr>"] Cons.prems by auto
  show ?case using b b' set_bit_page_isfree [OF b] by (intro exI [of _ bm']) auto
qed

text \<open>The well-formed states of the allocator: the cache is within bounds and holds page numbers.\<close>

definition alloc_ok :: "vmstate \<Rightarrow> bool" where
  "alloc_ok v \<longleftrightarrow> free_page_cache_size v \<le> PAGE_CACHE_MAX \<and>
     (\<forall>k < free_page_cache_size v. 0 \<le> free_page_cache v k \<and> free_page_cache v k < NUMBER_PHYSICAL_PAGES)"

lemma add_cache_ok:
  "\<forall>i \<in> set is. 0 \<le> i \<and> i < NUMBER_PHYSICAL_PAGES \<Longrightarrow> alloc_ok v \<Longrightarrow>
    \<exists>bm ca n. let t = v\<lparr>free_pages_bitmap := bm, free_page_cache := ca, free_page_cache_size := n\<rparr>
      in add_cache is v = Inr t \<and> alloc_ok t \<and> (\<forall>j \<ge> 0. page_isfree t j \<longleftrightarrow> j \<in> set is \<or> page_isfree v j)"
proof (induction "is" arbitrary: v)
  case Nil
  then show ?case
    by (intro exI [of _ "free_pages_bitmap v"] exI [of _ "free_page_cache v"] exI [of _ "free_page_cache_size v"]) simp
next
  case (Cons i "is")
  obtain bm where b: "set_bit_page True i v = Inr (v\<lparr>free_pages_bitmap := bm\<rparr>)"
    using set_bit_page_ok [of i True v] Cons.prems by auto
  define u where "u = (let v = v\<lparr>free_pages_bitmap := bm\<rparr> in if free_page_cache_size v < PAGE_CACHE_MAX
        then v\<lparr>free_page_cache := (free_page_cache v)(free_page_cache_size v := i), free_page_cache_size := free_page_cache_size v + 1\<rparr>
        else v)"
  have "alloc_ok u" using Cons.prems by (auto simp: u_def Let_def alloc_ok_def less_Suc_eq)
  then obtain bm' ca n where t: "add_cache is u = Inr (u\<lparr>free_pages_bitmap := bm', free_page_cache := ca, free_page_cache_size := n\<rparr>)"
    "alloc_ok (u\<lparr>free_pages_bitmap := bm', free_page_cache := ca, free_page_cache_size := n\<rparr>)"
    "\<And>j. 0 \<le> j \<Longrightarrow> page_isfree (u\<lparr>free_pages_bitmap := bm', free_page_cache := ca, free_page_cache_size := n\<rparr>) j \<longleftrightarrow> j \<in> set is \<or> page_isfree u j"
    using Cons.IH [of u] Cons.prems by (auto simp: Let_def)
  have e: "u\<lparr>free_pages_bitmap := bm', free_page_cache := ca, free_page_cache_size := n\<rparr> =
      v\<lparr>free_pages_bitmap := bm', free_page_cache := ca, free_page_cache_size := n\<rparr>"
    by (simp add: u_def Let_def)
  have f: "page_isfree u = page_isfree (v\<lparr>free_pages_bitmap := bm\<rparr>)"
    by (auto simp: u_def Let_def page_isfree_def fun_eq_iff)
  have "add_cache (i # is) v = add_cache is u" using b by (simp add: u_def Let_def)
  then show ?case
    using t set_bit_page_isfree [OF b] unfolding Let_def e f by (intro exI [of _ bm'] exI [of _ ca] exI [of _ n]) auto
qed

section \<open>Allocation\<close>

text \<open>An operation of the allocator touches its own variables and memory only.\<close>

definition alloc_frame :: "vmstate \<Rightarrow> vmstate \<Rightarrow> bool" where
  "alloc_frame v t \<longleftrightarrow> total_pages t = total_pages v \<and> mem_low t = mem_low v \<and> mem_high t = mem_high v \<and>
     yielded_nodes t = yielded_nodes v \<and> vm_yielded_blocks t = vm_yielded_blocks v \<and> lru_youngest t = lru_youngest v \<and>
     lru_oldest t = lru_oldest v \<and> vmprocs t = vmprocs v \<and> vm_working_set t = vm_working_set v \<and>
     hardening_enabled t = hardening_enabled v"

lemma alloc_frame_trans: "alloc_frame v t \<Longrightarrow> alloc_frame t u \<Longrightarrow> alloc_frame v u"
  by (simp add: alloc_frame_def)

lemma pop_cache_le: "snd (pop_cache n v) \<le> n"
  by (induction n) auto

lemma pop_cache_free:
  "pop_cache n v = (Some i, k) \<Longrightarrow> page_isfree v i \<and> k < n \<and> i = free_page_cache v k"
  by (induction n) (auto split: if_splits)

lemma max_page_range: "0 \<le> max_page fl" "max_page fl < NUMBER_PHYSICAL_PAGES"
  by (simp_all add: max_page_def)

lemma findbit_highest_fit:
  assumes "pages > 0"
  shows "\<exists>f. findbit 0 hi pages v = Inr f \<and>
    (f = - 2 \<and> (\<forall>g. \<not> fits v pages hi g) \<or> fits v pages hi f \<and> (\<forall>g. fits v pages hi g \<longrightarrow> g \<le> f))"
  unfolding findbit_def
  by (rule findbit_loop_highest) (use assms in \<open>auto simp: fits_def\<close>)

definition allocated :: "int \<Rightarrow> u32 \<Rightarrow> int \<Rightarrow> vmstate \<Rightarrow> vmstate \<Rightarrow> bool" where
  "allocated pages memflags f v t \<longleftrightarrow>
     fits v pages (max_page memflags) f \<and> (\<forall>j \<ge> 0. page_isfree t j \<longleftrightarrow> page_isfree v j \<and> \<not> (f \<le> j \<and> j < f + pages)) \<and>
     kern t = (if has memflags PAF_CLEAR
       then (kern v)\<lparr>mem := fill (4096 * of_int f) (4096 * nat pages) 0 (mem (kern v))\<rparr> else kern v)"

lemma fits_cong: "page_isfree v = page_isfree w \<Longrightarrow> fits v = fits w"
  by (simp add: fits_def fun_eq_iff)

lemma fits_mono: "fits v p hi f \<Longrightarrow> hi \<le> hi' \<Longrightarrow> fits v p hi' f"
  by (auto simp: fits_def)

text \<open>The page the two scans and the cache settle on.\<close>

lemma chosen_page:
  assumes "alloc_ok v" "pages > 0" and hi_def: "hi = max_page memflags"
  shows "\<exists>n f. n \<le> free_page_cache_size v \<and> (f = - 2 \<and> (\<forall>g. \<not> fits v pages hi g) \<or> fits v pages hi f) \<and>
    alloc_pages pages memflags v =
      (if f = - 2 then Inr (NO_MEM, v\<lparr>free_page_cache_size := n\<rparr>)
       else bnd (set_pages False [f .. f + pages - 1] (v\<lparr>free_page_cache_size := n, lastscan := f\<rparr>)) (\<lambda>v.
           if has memflags PAF_CLEAR
           then bnd (sys_memset NONE 0 (4096 * of_int f) (4096 * of_int pages) v) (\<lambda>(r, v).
                  if r \<noteq> OK then Inl (Panic ''alloc_mem: sys_memset failed'') else Inr (of_int f, v))
           else Inr (of_int f, v)))"
proof -
  define c where "c = (\<not> has memflags PAF_LOWER16MB \<and> \<not> has memflags PAF_LOWER1MB \<and> pages = 1)"
  obtain r n where pc: "pop_cache (free_page_cache_size v) v = (r, n)" by fastforce
  define w where "w = (if c then v\<lparr>free_page_cache_size := n\<rparr> else v)"
  have w: "w = v\<lparr>free_page_cache_size := free_page_cache_size w\<rparr>" "free_page_cache_size w \<le> free_page_cache_size v"
    using pop_cache_le [of "free_page_cache_size v" v] pc by (simp_all add: w_def)
  have fit: "fits w = fits v" by (rule fits_cong) (simp add: w_def)
  define st where "st = (if lastscan w < hi \<and> 0 \<le> lastscan w then lastscan w else hi)"
  have st: "st \<le> hi" by (simp add: st_def)
  show ?thesis
  proof (cases "\<exists>i. c \<and> r = Some i")
    case True
    then obtain i where i: "c" "r = Some i" by blast
    then have p: "page_isfree v i" "n < free_page_cache_size v" "i = free_page_cache v n" using pop_cache_free pc by blast+
    then have r: "0 \<le> i" "i < NUMBER_PHYSICAL_PAGES" using assms(1) by (auto simp: alloc_ok_def)
    have h: "hi = NUMBER_PHYSICAL_PAGES - 1" "pages = 1" using i(1) by (simp_all add: c_def hi_def max_page_def)
    have "page_isfree v j" if "i \<le> j" "j < i + 1" for j
    proof -
      have "j = i" using that by linarith
      then show ?thesis using p(1) by simp
    qed
    then have "fits v pages hi i" using r by (auto simp: fits_def h)
    then show ?thesis using i p(2) r pc unfolding h
      by (intro exI [of _ n] exI [of _ i]) (simp add: alloc_pages_def c_def Let_def)
  next
    case False
    obtain f1 where f1: "findbit 0 st pages w = Inr f1" "f1 = - 2 \<and> (\<forall>g. \<not> fits w pages st g) \<or> fits w pages st f1"
      using findbit_highest_fit [OF assms(2)] by blast
    obtain f2 where f2: "findbit 0 hi pages w = Inr f2" "f2 = - 2 \<and> (\<forall>g. \<not> fits w pages hi g) \<or> fits w pages hi f2"
      using findbit_highest_fit [OF assms(2)] by blast
    define f where "f = (if f1 = - 2 then f2 else f1)"
    have "f = - 2 \<and> (\<forall>g. \<not> fits v pages hi g) \<or> fits v pages hi f"
      using f1(2) f2(2) fits_mono [OF _ st] by (auto simp: f_def fit)
    moreover have "alloc_pages pages memflags v =
      (if f = - 2 then Inr (NO_MEM, w)
       else bnd (set_pages False [f .. f + pages - 1] (w\<lparr>lastscan := f\<rparr>)) (\<lambda>v.
           if has memflags PAF_CLEAR
           then bnd (sys_memset NONE 0 (4096 * of_int f) (4096 * of_int pages) v) (\<lambda>(r, v).
                  if r \<noteq> OK then Inl (Panic ''alloc_mem: sys_memset failed'') else Inr (of_int f, v))
           else Inr (of_int f, v)))"
    proof -
      have "(if c then (case pop_cache (free_page_cache_size v) v of (r, n) \<Rightarrow> (r, v\<lparr>free_page_cache_size := n\<rparr>)) else (None, v)) = (None, w)"
        using False pc by (auto simp: w_def)
      then show ?thesis using f1(1) f2(1) unfolding f_def
        by (cases "f1 = - 2") (simp_all add: alloc_pages_def c_def [symmetric] hi_def [symmetric] st_def [symmetric] Let_def)
    qed
    ultimately show ?thesis using w by (intro exI [of _ "free_page_cache_size w"] exI [of _ f]) auto
  qed
qed

lemma alloc_pages_spec:
  assumes ok: "alloc_ok v" and p: "0 < pages" "pages < NUMBER_PHYSICAL_PAGES"
    and k: "no_faults (kern v)" "check_resumed_caller (Some VM_PROC_NR) (kern v) = Inr OK"
  shows "\<exists>m t. alloc_pages pages memflags v = Inr (m, t) \<and> alloc_ok t \<and> alloc_frame v t \<and>
    (if \<exists>g. fits v pages (max_page memflags) g then \<exists>f. m = of_int f \<and> allocated pages memflags f v t
     else m = NO_MEM \<and> page_isfree t = page_isfree v \<and> kern t = kern v)"
proof -
  let ?hi = "max_page memflags"
  obtain n f where n: "n \<le> free_page_cache_size v" and f: "f = - 2 \<and> (\<forall>g. \<not> fits v pages ?hi g) \<or> fits v pages ?hi f"
    and a: "alloc_pages pages memflags v =
      (if f = - 2 then Inr (NO_MEM, v\<lparr>free_page_cache_size := n\<rparr>)
       else bnd (set_pages False [f .. f + pages - 1] (v\<lparr>free_page_cache_size := n, lastscan := f\<rparr>)) (\<lambda>v.
           if has memflags PAF_CLEAR
           then bnd (sys_memset NONE 0 (4096 * of_int f) (4096 * of_int pages) v) (\<lambda>(r, v).
                  if r \<noteq> OK then Inl (Panic ''alloc_mem: sys_memset failed'') else Inr (of_int f, v))
           else Inr (of_int f, v)))"
    using chosen_page [OF ok p(1) refl, of memflags] by blast
  show ?thesis
  proof (cases "f = - 2")
    case True
    then have "\<not> (\<exists>g. fits v pages ?hi g)" using f by (auto simp: fits_def)
    then show ?thesis using True a ok n by (auto simp: alloc_ok_def alloc_frame_def)
  next
    case False
    then have ft: "fits v pages ?hi f" using f by blast
    let ?w = "v\<lparr>free_page_cache_size := n, lastscan := f\<rparr>"
    obtain bm where bm: "set_pages False [f .. f + pages - 1] ?w = Inr (?w\<lparr>free_pages_bitmap := bm\<rparr>)"
      "\<forall>j \<ge> 0. page_isfree (?w\<lparr>free_pages_bitmap := bm\<rparr>) j \<longleftrightarrow> (if j \<in> set [f .. f + pages - 1] then False else page_isfree ?w j)"
      using set_pages_ok [of "[f .. f + pages - 1]" False ?w] ft max_page_range(2) [of memflags] by (auto simp: fits_def)
    let ?u = "?w\<lparr>free_pages_bitmap := bm\<rparr>"
    have un: "unat (4096 * of_int pages :: u32) = 4096 * nat pages"
    proof -
      have "(4096 * of_int pages :: u32) = of_nat (4096 * nat pages)" using p by simp
      then show ?thesis using p by (simp only: unsigned_of_nat) (simp add: take_bit_nat_eq_self)
    qed
    let ?t = "?u\<lparr>kern := if has memflags PAF_CLEAR
      then (kern v)\<lparr>mem := fill (4096 * of_int f) (4096 * nat pages) 0 (mem (kern v))\<rparr> else kern v\<rparr>"
    have "alloc_pages pages memflags v = Inr (of_int f, ?t)"
      using False a bm(1) sys_memset_physical [of ?u] k by (simp add: un)
    moreover have "allocated pages memflags f v ?t" using ft bm(2) by (auto simp: allocated_def)
    moreover have "alloc_ok ?t" "alloc_frame v ?t" using ok n by (auto simp: alloc_ok_def alloc_frame_def)
    ultimately show ?thesis using ft by auto
  qed
qed

lemma sint_uint_small: "unat (w :: u32) < 2 ^ 31 \<Longrightarrow> sint w = uint w"
  by (simp add: sint_small)

lemma unat_pages:
  "0 < unat (c :: u32) \<longleftrightarrow> 0 < uint c" "unat c < 0x100000 \<longleftrightarrow> uint c < 0x100000"
  "unat (b :: u32) + unat c \<le> 0x100000 \<longleftrightarrow> uint b + uint c \<le> 0x100000"
proof -
  have "int (unat b + unat c) \<le> int 0x100000 \<longleftrightarrow> unat b + unat c \<le> 0x100000" by (rule of_nat_le_iff)
  then show "unat b + unat c \<le> 0x100000 \<longleftrightarrow> uint b + uint c \<le> 0x100000" by simp
  have "int (unat c) < int 0x100000 \<longleftrightarrow> unat c < 0x100000" by (rule of_nat_less_iff)
  then show "unat c < 0x100000 \<longleftrightarrow> uint c < 0x100000" by simp
  have "int 0 < int (unat c) \<longleftrightarrow> 0 < unat c" by (rule of_nat_less_iff)
  then show "0 < unat c \<longleftrightarrow> 0 < uint c" by simp
qed

lemma free_mem_ok:
  assumes "alloc_ok v" "clicks \<noteq> 0" "unat base + unat clicks \<le> 0x100000"
  shows "\<exists>t. free_mem base clicks v = Inr t \<and> alloc_ok t \<and> alloc_frame v t \<and> kern t = kern v \<and>
    (\<forall>j \<ge> 0. page_isfree t j \<longleftrightarrow> uint base \<le> j \<and> j < uint base + uint clicks \<or> page_isfree v j)"
proof -
  have s: "sint base = uint base" "sint clicks = uint clicks"
    using assms(3) by (simp_all add: sint_uint_small)
  have c: "0 < unat clicks" using assms(2) by (simp add: unat_gt_0)
  have "base + clicks - 1 = of_nat (unat base + unat clicks - 1)" using c by (simp add: of_nat_diff)
  then have un: "unat (base + clicks - 1) = unat base + unat clicks - 1"
    using assms(3) by (simp only: unsigned_of_nat) (simp add: take_bit_nat_eq_self)
  then have "sint (base + clicks - 1) = int (unat base + unat clicks - 1)"
    using assms(3) sint_small [of "base + clicks - 1"] by simp
  then have e: "sint (base + of_int (sint clicks) - 1) = uint base + uint clicks - 1"
    using c by (simp add: s(2) of_nat_diff)
  let ?is = "[uint base .. uint base + uint clicks - 1]"
  have "\<forall>i \<in> set ?is. 0 \<le> i \<and> i < NUMBER_PHYSICAL_PAGES" using assms(3) by (auto simp: unat_pages intro: order_trans [OF unsigned_greater_eq])
  from add_cache_ok [OF this assms(1)] obtain bm ca n where
    t: "add_cache ?is v = Inr (v\<lparr>free_pages_bitmap := bm, free_page_cache := ca, free_page_cache_size := n\<rparr>)"
      "alloc_ok (v\<lparr>free_pages_bitmap := bm, free_page_cache := ca, free_page_cache_size := n\<rparr>)"
      "\<forall>j \<ge> 0. page_isfree (v\<lparr>free_pages_bitmap := bm, free_page_cache := ca, free_page_cache_size := n\<rparr>) j \<longleftrightarrow> j \<in> set ?is \<or> page_isfree v j"
    unfolding Let_def by blast
  then show ?thesis using assms(2) e by (auto simp: free_mem_def free_pages_def s(1) alloc_frame_def)
qed

lemma allocated_range:
  "allocated pages fl f v t \<Longrightarrow> 0 \<le> f \<and> f + pages \<le> 0x100000 \<and> (\<forall>j. f \<le> j \<and> j < f + pages \<longrightarrow> page_isfree v j)"
  using max_page_range(2) [of fl] by (auto simp: allocated_def fits_def)

lemma page_word: "0 \<le> f \<Longrightarrow> f < 0x100000 \<Longrightarrow> uint (of_int f :: u32) = f \<and> (of_int f :: u32) \<noteq> NO_MEM"
proof -
  assume f: "0 \<le> f" "f < 0x100000"
  then have u: "uint (of_int f :: u32) = f" by (simp add: unsigned_of_int take_bit_int_eq_self)
  moreover have "uint (NO_MEM :: u32) = 4294967294" by simp
  ultimately show ?thesis using f by force
qed

lemma alloc_mem_plain:
  assumes ok: "alloc_ok v" and c: "0 < unat clicks" "unat clicks < 0x100000"
    and k: "no_faults (kern v)" "check_resumed_caller (Some VM_PROC_NR) (kern v) = Inr OK"
    and al: "align_clicks_of fl = 0" and y: "lru_oldest v = None"
  shows "\<exists>m t. alloc_mem clicks fl v = Inr (m, t) \<and> alloc_ok t \<and> alloc_frame v t \<and>
    (if \<exists>g. fits v (uint clicks) (max_page fl) g then \<exists>f. m = of_int f \<and> allocated (uint clicks) fl f v t
     else m = NO_MEM \<and> page_isfree t = page_isfree v \<and> kern t = kern v)"
proof -
  have p: "sint clicks = uint clicks" "0 < uint clicks" "uint clicks < NUMBER_PHYSICAL_PAGES"
    using c sint_uint_small [of clicks] by (simp_all add: unat_pages [symmetric])
  obtain m t where t: "alloc_pages (uint clicks) fl v = Inr (m, t)" "alloc_ok t" "alloc_frame v t"
    "if \<exists>g. fits v (uint clicks) (max_page fl) g then \<exists>f. m = of_int f \<and> allocated (uint clicks) fl f v t
     else m = NO_MEM \<and> page_isfree t = page_isfree v \<and> kern t = kern v"
    using alloc_pages_spec [OF ok p(2,3) k] by blast
  show ?thesis
  proof (cases "\<exists>g. fits v (uint clicks) (max_page fl) g")
    case True
    then obtain f where f: "m = of_int f" "allocated (uint clicks) fl f v t" using t(4) by auto
    then have "m \<noteq> NO_MEM" using page_word [of f] allocated_range [OF f(2)] p(2) by auto
    then show ?thesis using t True al p(1) f by (auto simp: alloc_mem_def)
  next
    case False
    then have m: "m = NO_MEM" "page_isfree t = page_isfree v" "kern t = kern v" using t(4) by simp_all
    have fy: "free_yielded x t = Inr t" for x
      using y t(3) by (cases "(unat x + 4095) div 4096") (auto simp: free_yielded_def alloc_frame_def)
    obtain m' u where u: "alloc_pages (uint clicks) fl t = Inr (m', u)" "alloc_ok u" "alloc_frame t u"
      "if \<exists>g. fits t (uint clicks) (max_page fl) g then \<exists>f. m' = of_int f \<and> allocated (uint clicks) fl f t u
       else m' = NO_MEM \<and> page_isfree u = page_isfree t \<and> kern u = kern t"
      using alloc_pages_spec [OF t(2) p(2,3), of fl] k m(3) by auto
    have "fits t = fits v" by (rule fits_cong) (rule m(2))
    then have "m' = NO_MEM" "page_isfree u = page_isfree v" "kern u = kern v" using u(4) False m by auto
    then show ?thesis using t(1) u(1) m(1) fy False al p(1) u(2) alloc_frame_trans [OF t(3) u(3)]
      by (auto simp: alloc_mem_def)
  qed
qed

section \<open>Requests and returns\<close>

text \<open>C23. The scan for free pages is the search for the highest place: it returns, and its answer is the
  highest run of the wanted number of free pages at or below the starting page, or minus
  two when there is none; the jumps over empty words of the bitmap miss nothing.
\<close>

theorem findbit_highest:
  assumes "pages > 0"
  shows "\<exists>f. findbit 0 startscan pages v = Inr f \<and>
    (f = - 2 \<and> (\<forall>g. \<not> fits v pages startscan g) \<or> fits v pages startscan f \<and> (\<forall>g. fits v pages startscan g \<longrightarrow> g \<le> f))"
  using findbit_highest_fit [OF assms] .

text \<open>An allocation without alignment succeeds exactly when somewhere below the limit of the request enough
  consecutive pages are free: the pages it returns were free and are taken, every other page
  is as before, and with \<open>PAF_CLEAR\<close> the memory of exactly these pages is zero. Giving them back
  makes the same pages free as before the allocation.
\<close>

theorem alloc_free_roundtrip:
  assumes "alloc_ok v" "0 < unat clicks" "unat clicks < 0x100000" "no_faults (kern v)"
    "check_resumed_caller (Some VM_PROC_NR) (kern v) = Inr OK" "align_clicks_of memflags = 0" "lru_oldest v = None"
  shows "if \<exists>g. fits v (uint clicks) (max_page memflags) g
    then \<exists>f t u. alloc_mem clicks memflags v = Inr (of_int f, t) \<and> allocated (uint clicks) memflags f v t \<and> alloc_frame v t \<and>
           free_mem (of_int f) clicks t = Inr u \<and> alloc_ok u \<and> (\<forall>j \<ge> 0. page_isfree u j \<longleftrightarrow> page_isfree v j)
    else \<exists>t. alloc_mem clicks memflags v = Inr (NO_MEM, t) \<and> page_isfree t = page_isfree v \<and> kern t = kern v"
proof -
  from alloc_mem_plain [OF assms] obtain m t where t: "alloc_mem clicks memflags v = Inr (m, t)" "alloc_ok t" "alloc_frame v t"
    "if \<exists>g. fits v (uint clicks) (max_page memflags) g then \<exists>f. m = of_int f \<and> allocated (uint clicks) memflags f v t
     else m = NO_MEM \<and> page_isfree t = page_isfree v \<and> kern t = kern v" by blast
  show ?thesis
  proof (cases "\<exists>g. fits v (uint clicks) (max_page memflags) g")
    case True
    then obtain f where f: "m = of_int f" "allocated (uint clicks) memflags f v t" using t(4) by auto
    have c: "0 < uint clicks" "clicks \<noteq> 0" using assms(2) by (auto simp: unat_pages)
    have r: "uint (of_int f :: u32) = f" using page_word [of f] allocated_range [OF f(2)] c(1) by auto
    obtain u where u: "free_mem (of_int f) clicks t = Inr u" "alloc_ok u"
      "\<forall>j \<ge> 0. page_isfree u j \<longleftrightarrow> f \<le> j \<and> j < f + uint clicks \<or> page_isfree t j"
      using free_mem_ok [OF t(2) c(2), of "of_int f"] allocated_range [OF f(2)] by (auto simp: r unat_pages)
    have "\<forall>j \<ge> 0. page_isfree u j \<longleftrightarrow> page_isfree v j"
      using u(3) f(2) allocated_range [OF f(2)] by (auto simp: allocated_def)
    then show ?thesis using True t f u by auto
  next
    case False
    then show ?thesis using t by auto
  qed
qed

text \<open>What \<open>alloc_mem\<close> skips in front of a block to align it to 16 pages.\<close>

definition align_gap :: "int \<Rightarrow> int" where
  "align_gap f = (if f mod 16 = 0 then 0 else 16 - f mod 16)"

lemma align_gap: "0 \<le> align_gap f" "align_gap f < 16" "16 dvd f + align_gap f"
proof -
  have m16: "0 \<le> f mod 16" "f mod 16 < 16" "f = f div 16 * 16 + f mod 16" by simp_all
  show "0 \<le> align_gap f" "align_gap f < 16" using m16(1,2) by (auto simp: align_gap_def)
  have "f + align_gap f = 16 * (f div 16 + (if f mod 16 = 0 then 0 else 1))"
    using m16(3) unfolding align_gap_def by (cases "f mod 16 = 0") (simp_all add: algebra_simps)
  then show "16 dvd f + align_gap f" by simp
qed

lemma word_mod16:
  assumes "uint (of_int f :: u32) = f"
  shows "(of_int f :: u32) mod 16 = of_int (f mod 16)" "(of_int f :: u32) mod 16 = 0 \<longleftrightarrow> f mod 16 = 0"
proof -
  have r: "0 \<le> f mod 16" "f mod 16 < 16" by simp_all
  have u: "uint (of_int (f mod 16) :: u32) = f mod 16" using page_word [of "f mod 16"] r by simp
  show md: "(of_int f :: u32) mod 16 = of_int (f mod 16)"
    by (rule word_uint_eqI) (simp add: uint_mod assms u del: uint_word_of_int_eq unsigned_of_int)
  show "(of_int f :: u32) mod 16 = 0 \<longleftrightarrow> f mod 16 = 0" using u unfolding md by (metis uint_0_iff of_int_0)
qed

lemma alloc_mem_aligned:
  assumes "alloc_ok v" "0 < unat clicks" "unat clicks + 16 < 0x100000" "no_faults (kern v)"
    "check_resumed_caller (Some VM_PROC_NR) (kern v) = Inr OK" "has memflags PAF_ALIGN64K"
    "fits v (uint clicks + 16) (max_page memflags) g"
  obtains f t0 t where "allocated (uint clicks + 16) memflags f v t0" "alloc_mem clicks memflags v = Inr (of_int (f + align_gap f), t)" "alloc_ok t"
    "\<forall>j \<ge> 0. page_isfree t j \<longleftrightarrow> f \<le> j \<and> j < f + align_gap f \<or> page_isfree t0 j"
proof -
  have c: "unat (clicks + 16) = unat clicks + 16" using assms(3) by (simp add: unat_word_ariths)
  have al: "align_clicks_of memflags = 16" using assms(6) by (simp add: align_clicks_of_def)
  have u16: "uint (clicks + 16) = uint clicks + 16" using arg_cong [OF c, of int] by simp
  have s: "sint (clicks + 16) = uint clicks + 16" using sint_uint_small [of "clicks + 16"] c u16 assms(3) by simp
  have p: "0 < uint clicks + 16" "uint clicks + 16 < NUMBER_PHYSICAL_PAGES"
    using assms(2,3) c u16 unat_pages [of "clicks + 16"] by auto
  obtain f t0 where t0: "alloc_pages (uint clicks + 16) memflags v = Inr (of_int f, t0)" "alloc_ok t0"
    and f: "allocated (uint clicks + 16) memflags f v t0"
    using alloc_pages_spec [OF assms(1) p assms(4,5), of memflags] assms(7) by (auto split: if_splits)
  note rg = allocated_range [OF f]
  have w: "uint (of_int f :: u32) = f" "(of_int f :: u32) \<noteq> NO_MEM" using page_word [of f] rg p assms(2) by (auto simp: unat_pages)
  note md = word_mod16 [OF w(1)] and e = align_gap [of f]
  show thesis
  proof (cases "f mod 16 = 0")
    case True
    then have g: "align_gap f = 0" by (simp add: align_gap_def)
    have "alloc_mem clicks memflags v = Inr (of_int (f + align_gap f), t0)" using True t0 w(2) md by (simp add: alloc_mem_def al s g)
    then show ?thesis by (rule that [OF f _ t0(2)]) (auto simp: g)
  next
    case False
    have we: "uint (of_int (align_gap f) :: u32) = align_gap f" using e by (simp add: unsigned_of_int take_bit_int_eq_self)
    moreover have "0 < align_gap f" using False pos_mod_bound [of 16 f] by (auto simp: align_gap_def)
    ultimately have nz: "(of_int (align_gap f) :: u32) \<noteq> 0" by (metis less_irrefl uint_0_iff)
    have fits: "f + align_gap f \<le> 0x100000" using rg e(2) uint_ge_0 [of clicks] by linarith
    have ew: "16 - (of_int f :: u32) mod 16 = of_int (align_gap f)" using False by (simp add: md(1) align_gap_def)
    obtain t where "free_mem (of_int f) (of_int (align_gap f)) t0 = Inr t" "alloc_ok t"
      "\<forall>j \<ge> 0. page_isfree t j \<longleftrightarrow> f \<le> j \<and> j < f + align_gap f \<or> page_isfree t0 j"
      using free_mem_ok [OF t0(2) nz, of "of_int f"] fits by (auto simp: unat_pages we w(1))
    then show ?thesis using that [OF f, of t] t0 w(2) md(2) False ew by (simp add: alloc_mem_def al s Let_def)
  qed
qed

text \<open>C34. An aligned allocation loses pages: it takes as many extra pages as the alignment has, returns an aligned
  page, and gives back only the pages before it. When the caller returns what it got, up to
  sixteen pages that were free before, and at least one, stay taken for ever.
\<close>

theorem aligned_alloc_leaks:
  assumes "alloc_ok v" "0 < unat clicks" "unat clicks + 16 < 0x100000" "no_faults (kern v)"
    "check_resumed_caller (Some VM_PROC_NR) (kern v) = Inr OK" "has memflags PAF_ALIGN64K"
    "fits v (uint clicks + 16) (max_page memflags) g"
  shows "\<exists>f n t u. alloc_mem clicks memflags v = Inr (of_int f, t) \<and> 16 dvd f \<and> 0 \<le> f \<and>
    free_mem (of_int f) clicks t = Inr u \<and> 0 < n \<and> n \<le> 16 \<and>
    (\<forall>j. f + uint clicks \<le> j \<and> j < f + uint clicks + n \<longrightarrow> page_isfree v j) \<and>
    (\<forall>j \<ge> 0. page_isfree u j \<longleftrightarrow> page_isfree v j \<and> \<not> (f + uint clicks \<le> j \<and> j < f + uint clicks + n))"
proof -
  obtain f0 t0 t where f0: "allocated (uint clicks + 16) memflags f0 v t0"
    and t: "alloc_mem clicks memflags v = Inr (of_int (f0 + align_gap f0), t)" "alloc_ok t"
      "\<forall>j \<ge> 0. page_isfree t j \<longleftrightarrow> f0 \<le> j \<and> j < f0 + align_gap f0 \<or> page_isfree t0 j"
    by (rule alloc_mem_aligned [OF assms])
  note rg = allocated_range [OF f0]
  define e where "e = align_gap f0"
  note e = align_gap [of f0, folded e_def] and t = t [folded e_def]
  define f where f: "f = f0 + e"
  have c0: "clicks \<noteq> 0" "0 < uint clicks" using assms(2) by (auto simp: unat_pages)
  have wf: "uint (of_int f :: u32) = f" using page_word [of f] rg e c0(2) by (simp add: f)
  obtain u where u: "free_mem (of_int f) clicks t = Inr u"
    "\<forall>j \<ge> 0. page_isfree u j \<longleftrightarrow> f \<le> j \<and> j < f + uint clicks \<or> page_isfree t j"
    using free_mem_ok [OF t(2) c0(1), of "of_int f"] rg e by (auto simp: unat_pages wf) (auto simp: f)
  have "page_isfree u j \<longleftrightarrow> page_isfree v j \<and> \<not> (f + uint clicks \<le> j \<and> j < f + uint clicks + (16 - e))" if "0 \<le> j" for j
  proof -
    have b: "page_isfree u j \<longleftrightarrow> f \<le> j \<and> j < f + uint clicks \<or> page_isfree t j"
      "page_isfree t j \<longleftrightarrow> f0 \<le> j \<and> j < f0 + e \<or> page_isfree t0 j"
      "page_isfree t0 j \<longleftrightarrow> page_isfree v j \<and> \<not> (f0 \<le> j \<and> j < f0 + (uint clicks + 16))"
      "f0 \<le> j \<and> j < f0 + (uint clicks + 16) \<longrightarrow> page_isfree v j"
      using u(2) t(3) f0 rg that by (simp_all add: allocated_def)
    show ?thesis using b(4) e(1,2) c0(2) unfolding b(1-3) f by linarith
  qed
  moreover have "\<forall>j. f + uint clicks \<le> j \<and> j < f + uint clicks + (16 - e) \<longrightarrow> page_isfree v j" using rg e c0(2) by (auto simp: f)
  ultimately show ?thesis
    using t(1) u(1) e rg unfolding f by (intro exI [of _ "f0 + e"] exI [of _ "16 - e"] exI [of _ t] exI [of _ u]) auto
qed

text \<open>A small machine: the pages 32 to 63 are free.\<close>

definition alloc_sample :: vmstate where
  "alloc_sample = \<lparr>kern = bss_state, free_pages_bitmap = (\<lambda>c. if c = 1 then 0xFFFFFFFF else 0), free_page_cache = (\<lambda>_. 0),
     free_page_cache_size = 0, lastscan = - 1, total_pages = 32, mem_low = 0, mem_high = 0,
     yielded_nodes = (\<lambda>_. \<lparr>y_id = (0, 0), y_physaddr = 0, y_pages = 0, y_younger = None, y_older = None\<rparr>),
     vm_yielded_blocks = (\<lambda>_. None), lru_youngest = None, lru_oldest = None,
     vmprocs = (\<lambda>_. \<lparr>vm_flags = 0, vm_endpoint = 0, vm_regions = [], vm_yielded = 0, vm_lus1_us2 = None,
       vm_lus1_us2_size = 0, vm_hflags = 0\<rparr>),
     vm_working_set = (\<lambda>_. \<lparr>v_id = 0, v_flags = 0, v_vaddr = 0, v_us0 = 0, v_us1 = 0, v_us2 = 0, v_next = None\<rparr>),
     hardening_enabled = 0\<rparr>"

lemma alloc_sample_ok:
  "alloc_ok alloc_sample" "no_faults (kern alloc_sample)" "check_resumed_caller (Some VM_PROC_NR) (kern alloc_sample) = Inr OK"
  "lru_oldest alloc_sample = None"
  by (simp_all add: alloc_ok_def alloc_sample_def no_faults_def bss_state_def check_resumed_caller_def zero_proc_def misc_is_def has_def)

lemma alloc_sample_free: "32 \<le> j \<Longrightarrow> j \<le> 63 \<Longrightarrow> page_isfree alloc_sample j"
proof -
  assume "32 \<le> j" "j \<le> 63"
  then have "nat j div 32 = 1" by linarith
  moreover have "bit (0xFFFFFFFF :: u32) (nat j mod 32)"
  proof -
    have "(0xFFFFFFFF :: u32) = - 1" by simp
    then show ?thesis by (simp only:) simp
  qed
  ultimately show ?thesis by (simp add: page_isfree_bit alloc_sample_def)
qed

theorem findbit_highest_witness: "findbit 0 63 2 alloc_sample = Inr 62"
proof -
  have "fits alloc_sample 2 63 62" using alloc_sample_free by (simp add: fits_def)
  moreover have "f \<le> 62" if "fits alloc_sample 2 63 f" for f using that by (simp add: fits_def)
  moreover obtain f where "findbit 0 63 2 alloc_sample = Inr f"
    "f = - 2 \<and> (\<forall>g. \<not> fits alloc_sample 2 63 g) \<or> fits alloc_sample 2 63 f \<and> (\<forall>g. fits alloc_sample 2 63 g \<longrightarrow> g \<le> f)"
    using findbit_highest [of 2 63 alloc_sample] by auto
  ultimately show ?thesis by (metis antisym)
qed

theorem alloc_free_roundtrip_witness:
  "\<exists>f t. alloc_mem 2 PAF_CLEAR alloc_sample = Inr (of_int f, t) \<and> page_isfree alloc_sample f \<and> \<not> page_isfree t f"
proof -
  have "fits alloc_sample 2 (max_page PAF_CLEAR) 40" using alloc_sample_free by (simp add: fits_def max_page_def has_def)
  then have "\<exists>g. fits alloc_sample (uint (2 :: u32)) (max_page PAF_CLEAR) g" by auto
  then obtain f t where r: "alloc_mem 2 PAF_CLEAR alloc_sample = Inr (of_int f, t)" "allocated (uint (2 :: u32)) PAF_CLEAR f alloc_sample t"
    using alloc_free_roundtrip [OF alloc_sample_ok(1) _ _ alloc_sample_ok(2,3) _ alloc_sample_ok(4), of 2 PAF_CLEAR]
    by (auto simp: align_clicks_of_def has_def)
  then show ?thesis by (auto simp: allocated_def fits_def)
qed

theorem aligned_alloc_leaks_witness:
  "\<exists>f n t u. alloc_mem 1 PAF_ALIGN64K alloc_sample = Inr (of_int f, t) \<and> free_mem (of_int f) 1 t = Inr u \<and>
     (0 :: int) < n \<and> (\<forall>j. f + 1 \<le> j \<and> j < f + 1 + n \<longrightarrow> page_isfree alloc_sample j \<and> \<not> page_isfree u j)"
proof -
  have "fits alloc_sample 17 (max_page PAF_ALIGN64K) 40" using alloc_sample_free by (simp add: fits_def max_page_def has_def)
  then obtain f n t u where r: "alloc_mem 1 PAF_ALIGN64K alloc_sample = Inr (of_int f, t)" "0 \<le> f" "free_mem (of_int f) 1 t = Inr u"
    "0 < n" "\<forall>j. f + 1 \<le> j \<and> j < f + 1 + n \<longrightarrow> page_isfree alloc_sample j"
    "\<forall>j \<ge> 0. page_isfree u j \<longleftrightarrow> page_isfree alloc_sample j \<and> \<not> (f + 1 \<le> j \<and> j < f + 1 + n)"
    using aligned_alloc_leaks [OF alloc_sample_ok(1) _ _ alloc_sample_ok(2,3), of 1 PAF_ALIGN64K 40] by (auto simp: has_def)
  then have "\<forall>j. f + 1 \<le> j \<and> j < f + 1 + n \<longrightarrow> page_isfree alloc_sample j \<and> \<not> page_isfree u j" by auto
  then show ?thesis using r(1,3,4) by blast
qed

section \<open>Sequences of requests\<close>

text \<open>
  Clients ask for pages and return what they got: the state of the allocator with the list of the
  blocks that are out. \<open>Put k\<close> returns the block at position \<open>k\<close>.
\<close>

datatype vm_op = Get u32 u32 | Put nat

type_synonym clients = "vmstate \<times> (int \<times> int) list"

fun vm_step :: "vm_op \<Rightarrow> clients \<Rightarrow> stop + clients" where
  "vm_step (Get clicks memflags) (v, own) =
     bnd (alloc_mem clicks memflags v) (\<lambda>(m, v). Inr (v, if m = NO_MEM then own else own @ [(uint m, uint clicks)]))"
| "vm_step (Put k) (v, own) =
     (if k < length own
      then bnd (free_mem (of_int (fst (own ! k))) (of_int (snd (own ! k))) v) (\<lambda>v. Inr (v, take k own @ drop (Suc k) own))
      else Inr (v, own))"

fun vm_op_ok :: "vm_op \<Rightarrow> bool" where
  "vm_op_ok (Get clicks memflags) \<longleftrightarrow> 0 < unat clicks \<and> unat clicks < 0x100000 \<and> align_clicks_of memflags = 0"
| "vm_op_ok (Put k) \<longleftrightarrow> True"

fun block_pages :: "int \<times> int \<Rightarrow> int list" where
  "block_pages (b, c) = [b .. b + c - 1]"

definition taken :: "(int \<times> int) list \<Rightarrow> int list" where
  "taken own = concat (map block_pages own)"

text \<open>No page is in two blocks, none of a block is free, and the pages of the machine are those.\<close>

definition clients_inv :: "int set \<Rightarrow> clients \<Rightarrow> bool" where
  "clients_inv M c \<longleftrightarrow> (case c of (v, own) \<Rightarrow>
     alloc_ok v \<and> no_faults (kern v) \<and> check_resumed_caller (Some VM_PROC_NR) (kern v) = Inr OK \<and> lru_oldest v = None \<and>
     (\<forall>(b, n) \<in> set own. 0 \<le> b \<and> 0 < n \<and> b + n \<le> 0x100000) \<and>
     distinct (taken own) \<and> (\<forall>j \<ge> 0. page_isfree v j \<longrightarrow> j \<notin> set (taken own)) \<and>
     (\<forall>j \<ge> 0. j \<in> M \<longleftrightarrow> page_isfree v j \<or> j \<in> set (taken own)))"

lemma taken_append [simp]: "taken (xs @ ys) = taken xs @ taken ys"
  by (simp add: taken_def)

lemma check_resumed_mem [simp]: "check_resumed_caller c (k\<lparr>mem := m\<rparr>) = check_resumed_caller c k"
  by (auto simp: check_resumed_caller_def kassert_def misc_is_def split: option.split)

lemma no_faults_mem [simp]: "no_faults (k\<lparr>mem := m\<rparr>) = no_faults k"
  by (simp add: no_faults_def)

lemma get_step:
  assumes inv: "clients_inv M (v, own)" and ok: "vm_op_ok (Get clicks fl)"
  shows "\<exists>t. vm_step (Get clicks fl) (v, own) = Inr t \<and> clients_inv M t"
proof -
  have i: "alloc_ok v" "no_faults (kern v)" "check_resumed_caller (Some VM_PROC_NR) (kern v) = Inr OK" "lru_oldest v = None"
    "\<forall>(b, n) \<in> set own. 0 \<le> b \<and> 0 < n \<and> b + n \<le> 0x100000" "distinct (taken own)"
    "\<forall>j \<ge> 0. page_isfree v j \<longrightarrow> j \<notin> set (taken own)" "\<forall>j \<ge> 0. j \<in> M \<longleftrightarrow> page_isfree v j \<or> j \<in> set (taken own)"
    using inv by (auto simp: clients_inv_def)
  have o: "0 < unat clicks" "unat clicks < 0x100000" "align_clicks_of fl = 0" using ok by auto
  obtain m t where t: "alloc_mem clicks fl v = Inr (m, t)" "alloc_ok t" "alloc_frame v t"
    "if \<exists>g. fits v (uint clicks) (max_page fl) g then \<exists>f. m = of_int f \<and> allocated (uint clicks) fl f v t
     else m = NO_MEM \<and> page_isfree t = page_isfree v \<and> kern t = kern v"
    using alloc_mem_plain [OF i(1) o(1,2) i(2,3) o(3) i(4)] by blast
  have lru: "lru_oldest t = None" using t(3) i(4) by (simp add: alloc_frame_def)
  show ?thesis
  proof (cases "\<exists>g. fits v (uint clicks) (max_page fl) g")
    case False
    then show ?thesis using t i lru by (auto simp: clients_inv_def)
  next
    case True
    then obtain f where f: "m = of_int f" "allocated (uint clicks) fl f v t" using t(4) by auto
    note rg = allocated_range [OF f(2)]
    have c: "0 < uint clicks" using o(1) by (simp add: unat_pages)
    have w: "uint (of_int f :: u32) = f" "(of_int f :: u32) \<noteq> NO_MEM" using page_word [of f] rg c by auto
    have st: "vm_step (Get clicks fl) (v, own) = Inr (t, own @ [(f, uint clicks)])" using t(1) f(1) w by simp
    have fr: "\<And>j. 0 \<le> j \<Longrightarrow> page_isfree t j \<longleftrightarrow> page_isfree v j \<and> \<not> (f \<le> j \<and> j < f + uint clicks)"
      and k: "no_faults (kern t)" "check_resumed_caller (Some VM_PROC_NR) (kern t) = Inr OK"
      using f(2) i(2,3) by (auto simp: allocated_def)
    have new: "set (taken [(f, uint clicks)]) = {j. f \<le> j \<and> j < f + uint clicks}" "distinct (taken [(f, uint clicks)])"
      by (auto simp: taken_def)
    have "clients_inv M (t, own @ [(f, uint clicks)])"
      unfolding clients_inv_def using t(2) k lru i rg c new fr by auto
    then show ?thesis using st by blast
  qed
qed

lemma put_step:
  assumes inv: "clients_inv M (v, own)"
  shows "\<exists>t. vm_step (Put k) (v, own) = Inr t \<and> clients_inv M t"
proof (cases "k < length own")
  case False
  then show ?thesis using inv by simp
next
  case True
  have i: "alloc_ok v" "no_faults (kern v)" "check_resumed_caller (Some VM_PROC_NR) (kern v) = Inr OK" "lru_oldest v = None"
    "\<forall>(b, n) \<in> set own. 0 \<le> b \<and> 0 < n \<and> b + n \<le> 0x100000" "distinct (taken own)"
    "\<forall>j \<ge> 0. page_isfree v j \<longrightarrow> j \<notin> set (taken own)" "\<forall>j \<ge> 0. j \<in> M \<longleftrightarrow> page_isfree v j \<or> j \<in> set (taken own)"
    using inv by (auto simp: clients_inv_def)
  obtain b n where bn: "own ! k = (b, n)" by fastforce
  define xs ys where "xs = take k own" and "ys = drop (Suc k) own"
  have own: "own = xs @ (b, n) # ys" using id_take_nth_drop [OF True] by (simp add: xs_def ys_def bn)
  then have r: "0 \<le> b" "0 < n" "b + n \<le> 0x100000" using i(5) by auto
  have w: "uint (of_int b :: u32) = b" "uint (of_int n :: u32) = n"
    using r by (simp_all add: unsigned_of_int take_bit_int_eq_self)
  have nz: "(of_int n :: u32) \<noteq> 0"
  proof
    assume "(of_int n :: u32) = 0"
    then have "uint (of_int n :: u32) = uint (0 :: u32)" by (rule arg_cong)
    then show False unfolding w(2) using r(2) by simp
  qed
  obtain t where t: "free_mem (of_int b) (of_int n) v = Inr t" "alloc_ok t" "alloc_frame v t" "kern t = kern v"
    "\<forall>j \<ge> 0. page_isfree t j \<longleftrightarrow> b \<le> j \<and> j < b + n \<or> page_isfree v j"
    using free_mem_ok [OF i(1) nz, of "of_int b"] r w by (auto simp: unat_pages)
  have tk: "taken own = taken xs @ [b .. b + n - 1] @ taken ys" by (simp add: own taken_def)
  have d: "distinct (taken (xs @ ys))" "j \<in> set (taken own) \<longleftrightarrow> j \<in> set (taken (xs @ ys)) \<or> b \<le> j \<and> j < b + n"
    "b \<le> j \<and> j < b + n \<Longrightarrow> j \<notin> set (taken (xs @ ys))" for j
    using i(6) unfolding tk by auto
  have "\<forall>(b, n) \<in> set (xs @ ys). 0 \<le> b \<and> 0 < n \<and> b + n \<le> 0x100000" using i(5) unfolding own by auto
  moreover have "j \<notin> set (taken (xs @ ys))" if "0 \<le> j" "page_isfree t j" for j
    using that t(5) i(7) d(2,3) [of j] by blast
  moreover have "j \<in> M \<longleftrightarrow> page_isfree t j \<or> j \<in> set (taken (xs @ ys))" if "0 \<le> j" for j
    using that t(5) i(8) d(2) [of j] by blast
  moreover have "lru_oldest t = None" using t(3) i(4) by (simp add: alloc_frame_def)
  ultimately have "clients_inv M (t, xs @ ys)"
    unfolding clients_inv_def using t(2,4) i(2,3) d(1) by (simp del: taken_append)
  moreover have "vm_step (Put k) (v, own) = Inr (t, xs @ ys)" using True t(1) bn by (simp add: xs_def ys_def)
  ultimately show ?thesis by blast
qed

interpretation pages: safe_steps "clients_inv M" vm_op_ok vm_step
proof
  fix s a
  assume "clients_inv M s" "vm_op_ok a"
  then show "\<exists>t. vm_step a s = Inr t \<and> clients_inv M t"
    using get_step put_step by (cases s; cases a) auto
qed

text \<open>C9. No page is given out twice: whatever sequence of requests (without alignment) and returns of whole blocks
  runs from a state with nothing handed out and no yielded blocks in the cache, every call returns, and at the end the blocks that are out do not
  overlap, none of their pages is free, and blocks and free pages together are exactly the pages that were
  free at the start. Physical memory does not fault, and no kernel call of the server is being resumed with an error.
\<close>

theorem pages_given_once:
  assumes "alloc_ok v" "no_faults (kern v)" "check_resumed_caller (Some VM_PROC_NR) (kern v) = Inr OK" "lru_oldest v = None"
    "\<forall>a \<in> set as. vm_op_ok a"
  shows "\<exists>t own. run_steps vm_step as (v, []) = Inr (t, own) \<and> alloc_ok t \<and> distinct (taken own) \<and>
    (\<forall>j \<ge> 0. page_isfree t j \<longrightarrow> j \<notin> set (taken own)) \<and>
    (\<forall>j \<ge> 0. page_isfree v j \<longleftrightarrow> page_isfree t j \<or> j \<in> set (taken own))"
proof -
  have "clients_inv {j. page_isfree v j} (v, [])" using assms by (simp add: clients_inv_def taken_def)
  from pages.run_safe [OF this assms(5)] show ?thesis by (fastforce simp: clients_inv_def)
qed

theorem pages_given_once_witness:
  "\<exists>t own. run_steps vm_step [Get 3 0, Get 2 PAF_CLEAR, Put 0, Get 1 0] (alloc_sample, []) = Inr (t, own) \<and> distinct (taken own)"
proof -
  have "\<forall>a \<in> set [Get 3 0, Get 2 PAF_CLEAR, Put 0, Get 1 0]. vm_op_ok a" by (simp add: align_clicks_of_def has_def)
  from pages_given_once [OF alloc_sample_ok this] show ?thesis by blast
qed

end
