(* ===== verification/Vm_Pram_Laws.thy ===== *)
theory Vm_Pram_Laws
  imports Vm_Pram Vm_Alloc_Laws Kcall_Laws
begin

text \<open>
  What the hardening part of the memory server guarantees: its list of blocks of a process is a linked list through
  the block table, a page fault that the kernel raised for a run is served -- a frame is allocated, filled with the
  contents of the committed one, recorded in the server and installed by the kernel, which lets the process run --
  and what happens to the frames when copies are given back.
\<close>

section \<open>The list of blocks\<close>

interpretation vbs: slot_table vm_working_set upd_vb v_next "\<lambda>q b. b\<lparr>v_next := q\<rparr>"
  by unfold_locales (simp_all add: upd_vb_def)

lemma upd_vb_sel [simp]:
  "vm_working_set (upd_vb a f v) b = (if b = a then f (vm_working_set v a) else vm_working_set v b)"
  "vmprocs (upd_vb a f v) = vmprocs v" "kern (upd_vb a f v) = kern v" "lru_oldest (upd_vb a f v) = lru_oldest v"
  "vmprocs (upd_vmp p g v) q = (if q = p then g (vmprocs v p) else vmprocs v q)" "vm_working_set (upd_vmp p g v) = vm_working_set v"
  "kern (upd_vmp p g v) = kern v" "lru_oldest (upd_vmp p g v) = lru_oldest v"
  by (simp_all add: upd_vb_def upd_vmp_def)

lemma upd_alloc [simp]:
  "page_isfree (upd_vb a f v) = page_isfree v" "page_isfree (upd_vmp p g v) = page_isfree v"
  "alloc_ok (upd_vb a f v) = alloc_ok v" "alloc_ok (upd_vmp p g v) = alloc_ok v"
  by (auto simp: upd_vb_def upd_vmp_def page_isfree_def alloc_ok_def fun_eq_iff)

definition vb_page :: "vmstate \<Rightarrow> nat \<Rightarrow> u32" where
  "vb_page v a = page_base_of (v_vaddr (vm_working_set v a))"

definition vb_list :: "int \<Rightarrow> vmstate \<Rightarrow> nat list \<Rightarrow> bool" where
  "vb_list p v as \<longleftrightarrow> chain (vb_nx v) (vm_lus1_us2 (vmprocs v p)) as \<and> vm_lus1_us2_size (vmprocs v p) = int (length as) \<and>
     (\<forall>a \<in> set as. a < WORKING_SET_SIZE \<and> \<not> vb_free v a) \<and> distinct (map (vb_page v) as)"

lemma vb_at_page: "vb_at (I386_VM_PDE x) (I386_VM_PTE x) v = (\<lambda>a. vb_page v a = page_base_of x)"
  using page_eq_iff [of _ x] by (auto simp: vb_at_def vb_page_def fun_eq_iff)

lemma vm_look_up_find:
  assumes "vb_list p v as"
  shows "vm_look_up_pte p (I386_VM_PDE x) (I386_VM_PTE x) v = Inr (find (\<lambda>a. vb_page v a = page_base_of x) as)"
proof -
  have "chain (vb_nx v) (vm_lus1_us2 (vmprocs v p)) as" using assms by (simp add: vb_list_def)
  from find_chain_find [of vb_nx v, OF this] assms show ?thesis
    by (cases as) (auto simp: vm_look_up_pte_def vb_list_def vb_at_page)
qed

lemma vb_list_cong:
  assumes "vm_lus1_us2 (vmprocs t p) = vm_lus1_us2 (vmprocs v p)" "vm_lus1_us2_size (vmprocs t p) = vm_lus1_us2_size (vmprocs v p)"
    "\<And>a. a \<in> set as \<Longrightarrow> vm_working_set t a = vm_working_set v a"
  shows "vb_list p t as = vb_list p v as"
proof -
  have "chain (vb_nx t) q as = chain (vb_nx v) q as" for q by (rule chain_cong_set) (simp add: vb_nx_def assms(3))
  moreover have "map (vb_page t) as = map (vb_page v) as" by (rule map_cong) (simp_all add: vb_page_def assms(3))
  moreover have "vb_free t a = vb_free v a" if "a \<in> set as" for a using assms(3) [OF that] by (simp add: vb_free_def)
  ultimately show ?thesis using assms(1,2) unfolding vb_list_def by metis
qed

definition vb_room :: "vmstate \<Rightarrow> bool" where
  "vb_room v \<longleftrightarrow> (\<exists>i < WORKING_SET_SIZE - 1. vb_free v i)"

lemma vm_get_pmb_room:
  assumes "vb_room v"
  shows "\<exists>n. vm_get_pmb v = Inr (n, upd_vb n reset_vb v) \<and> n < WORKING_SET_SIZE \<and> vb_free v n"
proof -
  obtain k where "k < WORKING_SET_SIZE - 1" "vb_free v k" using assms by (auto simp: vb_room_def)
  from first_free_room [of k WORKING_SET_SIZE "vb_free v", OF this] show ?thesis by (auto simp: vm_get_pmb_def)
qed

lemma vm_link_ok:
  assumes l: "vb_list p v as" and n: "n \<notin> set as" "n < WORKING_SET_SIZE" "\<not> vb_free v n"
    and nx: "vb_nx v n = None" and pg: "vb_page v n \<notin> vb_page v ` set as"
  shows "\<exists>t. vm_link_pmb p n v = Inr t \<and> vb_list p t (as @ [n]) \<and> kern t = kern v \<and> page_isfree t = page_isfree v \<and> alloc_ok t = alloc_ok v \<and>
    vm_endpoint (vmprocs t p) = vm_endpoint (vmprocs v p) \<and>
    (\<forall>a. (vm_working_set t a)\<lparr>v_next := v_next (vm_working_set v a), v_id := v_id (vm_working_set v a)\<rparr> = vm_working_set v a)"
proof (cases "as = []")
  case True
  let ?t = "upd_vmp p (\<lambda>r. r\<lparr>vm_lus1_us2_size := vm_lus1_us2_size r + 1\<rparr>)
      (upd_vb n (\<lambda>b. b\<lparr>v_id := 0\<rparr>) (upd_vmp p (\<lambda>r. r\<lparr>vm_lus1_us2 := Some n\<rparr>) v))"
  have "vm_link_pmb p n v = Inr ?t" using l True by (simp add: vm_link_pmb_def vb_list_def)
  moreover have "vb_list p ?t (as @ [n])" using True l n nx by (simp add: vb_list_def vb_nx_def vb_free_def vb_page_def)
  ultimately show ?thesis by simp
next
  case False
  have c: "chain (vb_nx v) (vm_lus1_us2 (vmprocs v p)) as" using l by (simp add: vb_list_def)
  let ?u = "upd_vb n (\<lambda>b. b\<lparr>v_next := None\<rparr>) (upd_vb (last as) (\<lambda>b. b\<lparr>v_next := Some n\<rparr>) v)"
  let ?t = "upd_vmp p (\<lambda>r. r\<lparr>vm_lus1_us2_size := vm_lus1_us2_size r + 1\<rparr>)
      (upd_vb n (\<lambda>b. b\<lparr>v_id := int (length as)\<rparr>) ?u)"
  have t: "tail_of (vb_nx v) (vm_lus1_us2 (vmprocs v p)) = Inr (last as)" using c False by (rule tail_of_chain)
  then have lk: "vm_link_pmb p n v = Inr ?t" using l False by (simp add: vm_link_pmb_def vb_list_def)
  have eq: "vb_nx ?t = vb_nx ?u" "vb_page ?t = vb_page v" "vb_free ?t = vb_free v"
    by (rule ext, simp add: vb_nx_def vb_page_def vb_free_def)+
  have "chain (vb_nx ?u) (vm_lus1_us2 (vmprocs v p)) (as @ [n])"
    using vbs.link_tail [of v, folded vb_nx_def, OF c False n(1)] .
  then have "vb_list p ?t (as @ [n])" using l n pg False unfolding vb_list_def eq by auto
  then show ?thesis using lk n(1) False nx by (intro exI [of _ ?t]) (auto simp: vb_nx_def)
qed

section \<open>A new frame with the contents of the old one\<close>

lemma page_world_mem:
  assumes "page_world p root ws s" "same_frame m root (mem s) root"
  shows "page_world p root ws (s\<lparr>mem := m\<rparr>)"
proof -
  have pt: "pt_of root (s\<lparr>mem := m\<rparr>) x = pt_of root s x" for x
    using get32_frame_cong [OF assms(2) PDE_less] by (simp add: pt_of_def pde_of_def)
  have nx: "pmb_nx (s\<lparr>mem := m\<rparr>) = pmb_nx s" "pmb_free (s\<lparr>mem := m\<rparr>) = pmb_free s" "pmb_page (s\<lparr>mem := m\<rparr>) = pmb_page s"
    by (rule ext, simp add: pmb_nx_def pmb_free_def pmb_page_def)+
  show ?thesis using assms(1) by (simp add: page_world_def ws_list_def layout_def block_ok_def no_faults_def pt nx)
qed

lemma frame_addr: "page_aligned (push_bit 12 c)"
proof -
  have "(0xFFF :: u32) = mask 12" by (simp add: mask_eq_exp_minus_1)
  moreover have "take_bit 12 (push_bit 12 c) = 0" by (simp add: take_bit_push_bit)
  ultimately show ?thesis unfolding page_aligned_def by (simp only: take_bit_eq_mask [symmetric])
qed

lemma fill_frame:
  assumes "page_aligned g" "page_aligned n" "g \<noteq> n"
  shows "same_frame (fill n 4096 c m) g m g"
proof -
  have "\<not> unat ((g + i) - n) < 4096" if i: "i < 4096" for i
  proof
    assume u: "unat ((g + i) - n) < 4096"
    have "(g + i) - n < 4096" using u by (simp add: word_less_nat_alt)
    moreover have "g + i = n + ((g + i) - n)" by simp
    ultimately show False using frame_bytes_distinct [OF assms(1,2,3) i] by metis
  qed
  then show ?thesis by (simp add: same_frame_def fill_def)
qed

lemma copy_or_panic_physical:
  assumes "page_aligned src" "page_aligned dst" "src \<noteq> dst" "no_faults (kern v)" "copy_asserts None None (kern v) = Inr (kern v)"
    "check_resumed_caller (Some VM_PROC_NR) (kern v) = Inr OK"
  shows "copy_or_panic src dst v = Inr (v\<lparr>kern := (kern v)\<lparr>mem := mem_copy (mem (kern v)) src dst 4096\<rparr>\<rparr>)"
proof -
  have "lin_lin_copy_procs None src None dst 4096 (kern v) = Inr (OK, (kern v)\<lparr>mem := mem_copy (mem (kern v)) src dst 4096\<rparr>)"
    using lin_lin_copy_frames [OF assms(1-5)] assms(4) by (simp add: lin_lin_copy_def no_faults_def)
  then show ?thesis using assms(6)
    by (simp add: copy_or_panic_def sys_abscopy_def do_copy_def copy_endpoint_def virtual_copy_f_def vir_proc_def record_copy_def Let_def)
qed

lemma RTS_UNSET_mem:
  assumes "ready_inv s" "cur_ok s" "isokprocn p" "RTS_UNSET p f s = Inr t"
  shows "mem t = mem s" "working_set t = working_set s"
proof -
  let ?f = "clrf (p_rts_flags (procs s p)) f" let ?w = "\<not> proc_is_runnable (procs s p) \<and> ?f = 0"
  let ?S = "if ?w then ready_flags p (with_flags p ?f s) else with_flags p ?f s"
  have so: "sched_only ?S t" using RTS_UNSET_ok [of "ready_list s" s p f] assms by (auto simp: ready_inv_def)
  moreover have "mem ?S = mem s" "working_set ?S = working_set s"
    by (simp_all add: ready_flags_def with_flags_def upd_proc_def)
  ultimately show "mem t = mem s" "working_set t = working_set s" using sched_only_sel [OF so] by simp_all
qed

section \<open>Serving a page fault of a run\<close>

text \<open>
  The kernel waits for the copy of a page: the process \<open>q\<close> is stopped by a page fault, and the block \<open>a\<close> of its
  working set carries the mark of the last fault.
\<close>

definition awaits :: "int \<Rightarrow> u32 \<Rightarrow> nat list \<Rightarrow> nat \<Rightarrow> nat list \<Rightarrow> int \<Rightarrow> kstate \<Rightarrow> bool" where
  "awaits q root bs a cs ep s \<longleftrightarrow> page_world q root (bs @ a # cs) s \<and> p_cr3 (procs s q) = root \<and>
     pmb_is a PRAM_LAST_PF s \<and> (\<forall>b \<in> set bs. \<not> pmb_is b PRAM_LAST_PF s) \<and>
     isokendpt ep s = Some q \<and> ep \<noteq> SELF \<and> RTS_ISSET (procs s q) RTS_PAGEFAULT \<and> ready_inv s \<and> cur_ok s \<and>
     copy_asserts None None s = Inr s \<and> check_resumed_caller (Some VM_PROC_NR) s = Inr OK"

text \<open>The copy of a run is the frame \<open>n\<close>, holds what \<open>phys\<close> held, and the page maps it; nothing else changed.\<close>

definition installed :: "bool \<Rightarrow> u32 \<Rightarrow> nat \<Rightarrow> u32 \<Rightarrow> u32 \<Rightarrow> kstate \<Rightarrow> kstate \<Rightarrow> bool" where
  "installed first root a phys n s t \<longleftrightarrow>
     (let va = pmb_vaddr (working_set s a); b = working_set s a; c = working_set t a
      in us0 c = us0 b \<and> us1 c = (if first then n else us1 b) \<and> us2 c = (if first then us2 b else n) \<and>
         \<not> pmb_is a PRAM_LAST_PF t \<and> I386_VM_PFA (pte_of root t va) = n \<and> has (pte_of root t va) I386_VM_WRITE \<and>
         same_frame (mem t) n (mem s) phys \<and>
         (\<forall>g. page_aligned g \<and> g \<noteq> n \<and> g \<noteq> pt_of root s va \<longrightarrow> same_frame (mem t) g (mem s) g))"

lemma awaits_mem:
  assumes "awaits q root bs a cs ep s" "same_frame m root (mem s) root"
  shows "awaits q root bs a cs ep (s\<lparr>mem := m\<rparr>)"
proof -
  have "same_sched s (s\<lparr>mem := m\<rparr>)" by (simp add: same_sched_def priv_of_def)
  note v = same_sched_view [OF this]
  have "copy_asserts None None (s\<lparr>mem := m\<rparr>) = Inr (s\<lparr>mem := m\<rparr>)"
    using assms(1) by (simp add: awaits_def copy_asserts_def Let_def kres_simps)
  moreover have "isokendpt ep (s\<lparr>mem := m\<rparr>) = isokendpt ep s" by (simp add: isokendpt_def isemptyn_def Let_def)
  ultimately show ?thesis using assms page_world_mem [OF _ assms(2)] v(3,4)
    by (simp add: awaits_def pmb_is_def)
qed

lemma tell_ok:
  assumes aw: "awaits q root bs a cs ep (kern v)" and e: "vm_endpoint (vmprocs v p) = ep" and f: "page_aligned f"
    "f \<noteq> pt_of root (kern v) (pmb_vaddr (working_set (kern v) a))"
  shows "\<exists>k. tell_or_panic p (if first then f else - 2) (if first then - 2 else f) v = Inr (v\<lparr>kern := k\<rparr>) \<and>
    k = (kern v)\<lparr>working_set := working_set k, mem := mem k\<rparr> \<and> installed first root a f f (kern v) k"
proof -
  let ?m = "zero_msg\<lparr>m10_i4 := ep, m10_l1 := if first then f else - 2, m10_l2 := if first then - 2 else f, m10_l3 := - 2, m10_i3 := 0\<rparr>"
  have w: "page_world q root (bs @ a # cs) (kern v)" and ie: "isokendpt (m10_i4 ?m) (kern v) = Some q"
    and r: "p_cr3 (procs (kern v) q) = root" and lp: "pmb_is a PRAM_LAST_PF (kern v)" "\<forall>b \<in> set bs. \<not> pmb_is b PRAM_LAST_PF (kern v)"
    and m: "m10_l3 ?m = - 2" "if first then m10_l1 ?m = f \<and> m10_l2 ?m = - 2 else m10_l1 ?m = - 2 \<and> m10_l2 ?m = f"
    using aw by (simp_all add: awaits_def)
  have l: "layout root (bs @ a # cs) (kern v)" using w by (simp add: page_world_def)
  obtain k where k: "do_hmem_map ?m (kern v) = Inr (OK, k)" "k = (kern v)\<lparr>working_set := working_set k, mem := mem k\<rparr>"
    "\<not> pmb_is a PRAM_LAST_PF k" "us0 (working_set k a) = us0 (working_set (kern v) a)"
    "us1 (working_set k a) = (if first then f else us1 (working_set (kern v) a))"
    "us2 (working_set k a) = (if first then us2 (working_set (kern v) a) else f)"
    "I386_VM_PFA (pte_of root k (pmb_vaddr (working_set (kern v) a))) = f"
    "has (pte_of root k (pmb_vaddr (working_set (kern v) a))) I386_VM_WRITE"
    "\<forall>g. page_aligned g \<and> g \<noteq> pt_of root (kern v) (pmb_vaddr (working_set (kern v) a)) \<longrightarrow> same_frame (mem k) g (mem (kern v)) g"
    using hmem_map_effect [OF ie w r lp m f(1)] by blast
  have "tell_or_panic p (if first then f else - 2) (if first then - 2 else f) v = Inr (v\<lparr>kern := k\<rparr>)"
    using k(1) e by (simp add: tell_or_panic_def sys_hmem_map_def)
  then show ?thesis using k f by (intro exI [of _ k]) (simp add: installed_def Let_def)
qed

definition got_page :: "int \<Rightarrow> vmstate \<Rightarrow> vmstate \<Rightarrow> bool" where
  "got_page f v t \<longleftrightarrow> 0 \<le> f \<and> f < 0x100000 \<and> page_isfree v f \<and> (\<forall>j \<ge> 0. page_isfree t j \<longleftrightarrow> page_isfree v j \<and> j \<noteq> f)"

definition has_memory :: "u32 \<Rightarrow> vmstate \<Rightarrow> bool" where
  "has_memory fl v \<longleftrightarrow> alloc_ok v \<and> lru_oldest v = None \<and> align_clicks_of (fl OR PAF_CLEAR) = 0 \<and>
     (\<exists>g. fits v 1 (max_page (fl OR PAF_CLEAR)) g)"

lemma alloc_or_panic_ok:
  assumes h: "has_memory fl v" and k: "no_faults (kern v)" "check_resumed_caller (Some VM_PROC_NR) (kern v) = Inr OK"
  shows "\<exists>f w. alloc_or_panic fl v = Inr (push_bit 12 (of_int f), w) \<and> alloc_frame v w \<and> alloc_ok w \<and> got_page f v w \<and>
    kern w = (kern v)\<lparr>mem := fill (push_bit 12 (of_int f)) 4096 0 (mem (kern v))\<rparr>"
proof -
  let ?fl = "fl OR PAF_CLEAR"
  have hc: "has ?fl PAF_CLEAR" using has_setf_same [of PAF_CLEAR fl] by (simp add: setf_def)
  have h': "alloc_ok v" "lru_oldest v = None" "align_clicks_of ?fl = 0" "\<exists>g. fits v (uint (1 :: u32)) (max_page ?fl) g"
    using h by (auto simp: has_memory_def)
  obtain m w where w: "alloc_mem 1 ?fl v = Inr (m, w)" "alloc_ok w" "alloc_frame v w"
    "if \<exists>g. fits v (uint (1 :: u32)) (max_page ?fl) g then \<exists>f. m = of_int f \<and> allocated (uint (1 :: u32)) ?fl f v w
     else m = NO_MEM \<and> page_isfree w = page_isfree v \<and> kern w = kern v"
    using alloc_mem_plain [OF h'(1) _ _ k h'(3,2), of 1] by auto
  then obtain f where f: "m = of_int f" "allocated 1 ?fl f v w" using h'(4) by auto
  note rg = allocated_range [OF f(2)]
  have p: "(of_int f :: u32) \<noteq> NO_MEM" using page_word [of f] rg by auto
  have e: "(4096 * of_int f :: u32) = push_bit 12 (of_int f)" by (simp add: push_bit_eq_mult)
  have "got_page f v w" using f(2) rg by (auto simp: got_page_def allocated_def)
  moreover have "kern w = (kern v)\<lparr>mem := fill (push_bit 12 (of_int f)) 4096 0 (mem (kern v))\<rparr>"
    using f(2) hc e by (simp add: allocated_def)
  ultimately show ?thesis using w(1-3) f(1) p by (auto simp: alloc_or_panic_def)
qed

definition copied_frame :: "u32 \<Rightarrow> u32 \<Rightarrow> kstate \<Rightarrow> kstate" where
  "copied_frame phys n k = k\<lparr>mem := mem_copy (fill n 4096 0 (mem k)) phys n 4096\<rparr>"

lemma copied_frame_same:
  assumes "page_aligned phys" "page_aligned n" "phys \<noteq> n"
  shows "same_frame (mem (copied_frame phys n k)) n (mem k) phys"
    "page_aligned g \<Longrightarrow> g \<noteq> n \<Longrightarrow> same_frame (mem (copied_frame phys n k)) g (mem k) g"
proof -
  let ?m = "fill n 4096 0 (mem k)"
  have c: "mem (copied_frame phys n k) = mem_copy ?m phys n 4096" by (simp add: copied_frame_def)
  show "same_frame (mem (copied_frame phys n k)) n (mem k) phys"
    unfolding c by (rule same_frame_trans [OF copy_same [OF assms(1,2)] fill_frame [OF assms]])
  assume g: "page_aligned g" "g \<noteq> n"
  show "same_frame (mem (copied_frame phys n k)) g (mem k) g"
    unfolding c by (rule same_frame_trans [OF copy_other [OF g(1) assms(2) g(2)] fill_frame [OF g(1) assms(2) g(2)]])
qed

lemma installed_copied:
  assumes i: "installed first root a n n (copied_frame phys n s) t"
    and al: "page_aligned phys" "page_aligned n" "page_aligned root" and d: "phys \<noteq> n" "root \<noteq> n"
    and pt: "n \<noteq> pt_of root s (pmb_vaddr (working_set s a))"
  shows "installed first root a phys n s t"
proof -
  note sf = copied_frame_same [OF al(1,2) d(1), where k = s]
  have pe: "pt_of root (copied_frame phys n s) x = pt_of root s x" for x
    using get32_frame_cong [OF sf(2) [OF al(3) d(2)] PDE_less] by (simp add: pt_of_def pde_of_def)
  have we: "working_set (copied_frame phys n s) = working_set s" by (simp add: copied_frame_def)
  note i = i [unfolded installed_def Let_def pe we]
  have "same_frame (mem t) n (mem s) phys" using same_frame_trans [OF _ sf(1)] i by blast
  moreover have "same_frame (mem t) g (mem s) g" if "page_aligned g" "g \<noteq> n" "g \<noteq> pt_of root s (pmb_vaddr (working_set s a))" for g
    using same_frame_trans [OF _ sf(2) [OF that(1,2)]] i that by blast
  ultimately show ?thesis using i unfolding installed_def Let_def by blast
qed

text \<open>The pages VM may hand out are in no use of the kernel for this process.\<close>

definition unused :: "u32 \<Rightarrow> u32 \<Rightarrow> nat \<Rightarrow> vmstate \<Rightarrow> bool" where
  "unused root phys a v \<longleftrightarrow> (\<forall>j \<ge> 0. page_isfree v j \<longrightarrow>
     push_bit 12 (of_int j) \<notin> {root, phys, pt_of root (kern v) (pmb_vaddr (working_set (kern v) a))})"

text \<open>Copy and announcement, once the frame is there and the block is in place.\<close>

lemma copy_and_tell:
  assumes aw: "awaits q root bs a cs ep k" and al: "page_aligned phys" "page_aligned n"
    and d: "n \<noteq> phys" "n \<noteq> root" "n \<noteq> pt_of root k (pmb_vaddr (working_set k a))"
    and u: "kern u = k\<lparr>mem := fill n 4096 0 (mem k)\<rparr>" and w: "kern w = copied_frame phys n k" "vm_endpoint (vmprocs w p) = ep"
  shows "copy_or_panic phys n u = Inr (u\<lparr>kern := copied_frame phys n k\<rparr>)"
    "\<exists>t. tell_or_panic p (if first then n else - 2) (if first then - 2 else n) w = Inr (w\<lparr>kern := t\<rparr>) \<and>
       t = k\<lparr>working_set := working_set t, mem := mem t\<rparr> \<and> installed first root a phys n k t"
proof -
  have pw: "page_world q root (bs @ a # cs) k" using aw by (simp add: awaits_def)
  then have root: "page_aligned root" "no_faults k" by (auto simp: page_world_def layout_def)
  have a1: "awaits q root bs a cs ep (kern u)"
    unfolding u by (rule awaits_mem [OF aw fill_frame]) (use root al d in auto)
  then show "copy_or_panic phys n u = Inr (u\<lparr>kern := copied_frame phys n k\<rparr>)"
    using copy_or_panic_physical [OF al, of u] d root(2) by (simp add: awaits_def copied_frame_def u)
  note sf = copied_frame_same [OF al d(1) [symmetric], where k = k]
  have a2: "awaits q root bs a cs ep (kern w)"
    using awaits_mem [OF aw, of "mem (copied_frame phys n k)"] sf(2) [OF root(1)] d(2) by (simp add: w(1) copied_frame_def)
  have "pt_of root (copied_frame phys n k) x = pt_of root k x" for x
    using get32_frame_cong [OF sf(2) [OF root(1)] PDE_less] d(2) by (simp add: pt_of_def pde_of_def)
  then have "n \<noteq> pt_of root (kern w) (pmb_vaddr (working_set (kern w) a))" using d(3) by (simp add: w(1)) (simp add: copied_frame_def)
  from tell_ok [OF a2 w(2) al(2) this, of first] obtain t where
    t: "tell_or_panic p (if first then n else - 2) (if first then - 2 else n) w = Inr (w\<lparr>kern := t\<rparr>)"
      "t = (kern w)\<lparr>working_set := working_set t, mem := mem t\<rparr>" "installed first root a n n (kern w) t" by blast
  have "installed first root a phys n k t"
    using installed_copied [OF t(3) [unfolded w(1)]] al root d by auto
  moreover have "t = k\<lparr>working_set := working_set t, mem := mem t\<rparr>" using t(2) unfolding w(1) copied_frame_def by simp
  ultimately show "\<exists>t. tell_or_panic p (if first then n else - 2) (if first then - 2 else n) w = Inr (w\<lparr>kern := t\<rparr>) \<and>
       t = k\<lparr>working_set := working_set t, mem := mem t\<rparr> \<and> installed first root a phys n k t"
    using t(1) by blast
qed

lemma alloc_ok_kern [simp]: "alloc_ok (v\<lparr>kern := k\<rparr>) = alloc_ok v"
  by (simp add: alloc_ok_def)

text \<open>What the server knows afterwards: the block of the page names the frame.\<close>

definition recorded :: "bool \<Rightarrow> int \<Rightarrow> u32 \<Rightarrow> u32 \<Rightarrow> u32 \<Rightarrow> nat list \<Rightarrow> vmstate \<Rightarrow> bool" where
  "recorded first p vaddr phys n as t \<longleftrightarrow> vb_list p t as \<and> (\<exists>c \<in> set as. vb_page t c = page_base_of vaddr \<and>
     v_us0 (vm_working_set t c) = phys \<and> (if first then v_us1 (vm_working_set t c) else v_us2 (vm_working_set t c)) = n)"

definition copy_made :: "bool \<Rightarrow> int \<Rightarrow> u32 \<Rightarrow> nat \<Rightarrow> u32 \<Rightarrow> u32 \<Rightarrow> vmstate \<Rightarrow> vmstate \<Rightarrow> bool" where
  "copy_made first p root a vaddr phys v t \<longleftrightarrow> (\<exists>f as. got_page f v t \<and> alloc_ok t \<and>
     recorded first p vaddr phys (push_bit 12 (of_int f)) as t \<and>
     installed first root a phys (push_bit 12 (of_int f)) (kern v) (kern t) \<and>
     kern t = (kern v)\<lparr>working_set := working_set (kern t), mem := mem (kern t)\<rparr>)"

lemma first_copy_made:
  assumes l: "vb_list p v as" "page_base_of vaddr \<notin> vb_page v ` set as" "vb_room v" and h: "has_memory fl v"
    and aw: "awaits q root bs a cs ep (kern v)" and e: "vm_endpoint (vmprocs v p) = ep"
    and al: "page_aligned phys" and un: "unused root phys a v" and what: "what = (if first then VM_FIRST_RUN else VM_SECOND_RUN)"
  shows "\<exists>t. first_copy p vaddr phys fl what v = Inr t \<and> copy_made first p root a vaddr phys v t"
proof -
  obtain n where n: "vm_get_pmb v = Inr (n, upd_vb n reset_vb v)" "n < WORKING_SET_SIZE" "vb_free v n"
    using vm_get_pmb_room [OF l(3)] by blast
  let ?v1 = "upd_vb n reset_vb v"
  have nin: "n \<notin> set as" using l(1) n(3) by (auto simp: vb_list_def)
  have fe: "fits ?v1 = fits v" by (rule fits_cong) simp
  have h1: "has_memory fl ?v1" using h by (simp add: has_memory_def fe)
  have kk: "no_faults (kern ?v1)" "check_resumed_caller (Some VM_PROC_NR) (kern ?v1) = Inr OK"
    using aw by (auto simp: awaits_def page_world_def)
  obtain f w where w: "alloc_or_panic fl ?v1 = Inr (push_bit 12 (of_int f), w)" "alloc_frame ?v1 w" "alloc_ok w" "got_page f ?v1 w"
    "kern w = (kern v)\<lparr>mem := fill (push_bit 12 (of_int f)) 4096 0 (mem (kern v))\<rparr>"
    using alloc_or_panic_ok [OF h1 kk] by auto
  define N :: u32 where "N = push_bit 12 (of_int f)"
  have gp: "got_page f v w" using w(4) by (simp add: got_page_def)
  have N: "page_aligned N" "N \<noteq> phys" "N \<noteq> root" "N \<noteq> pt_of root (kern v) (pmb_vaddr (working_set (kern v) a))"
    using un gp frame_addr by (auto simp: unused_def got_page_def N_def)
  let ?w2 = "w\<lparr>kern := copied_frame phys N (kern v)\<rparr>"
  let ?g = "\<lambda>b. b\<lparr>v_us0 := phys, v_vaddr := vaddr, v_us1 := if what = VM_FIRST_RUN then N else v_us1 b,
     v_us2 := if what = VM_SECOND_RUN then N else v_us2 b\<rparr>"
  define w3 where "w3 = upd_vb n ?g ?w2"
  have ww: "vm_working_set w = vm_working_set ?v1" "vmprocs w = vmprocs v" using w(2) by (simp_all add: alloc_frame_def)
  have l3: "vb_list p w3 as" using l(1) nin ww by (subst vb_list_cong [of _ _ v]) (auto simp: w3_def)
  have "\<exists>t. vm_link_pmb p n w3 = Inr t \<and> vb_list p t (as @ [n]) \<and> kern t = kern w3 \<and> page_isfree t = page_isfree w3 \<and> alloc_ok t = alloc_ok w3 \<and>
    vm_endpoint (vmprocs t p) = vm_endpoint (vmprocs w3 p) \<and>
    (\<forall>a. (vm_working_set t a)\<lparr>v_next := v_next (vm_working_set w3 a), v_id := v_id (vm_working_set w3 a)\<rparr> = vm_working_set w3 a)"
  proof (rule vm_link_ok [OF l3 nin n(2)])
    show "\<not> vb_free w3 n" "vb_nx w3 n = None" by (simp_all add: vb_free_def vb_nx_def ww reset_vb_def w3_def)
    have "vb_page w3 c = vb_page v c" if "c \<in> set as" for c using that nin by (auto simp: vb_page_def ww w3_def)
    moreover have "vb_page w3 n = page_base_of vaddr" by (simp add: vb_page_def w3_def)
    ultimately show "vb_page w3 n \<notin> vb_page w3 ` set as" using l(2) by auto
  qed
  moreover have "kern w3 = copied_frame phys N (kern v)" "page_isfree w3 = page_isfree w" "alloc_ok w3" "vm_endpoint (vmprocs w3 p) = ep"
    using w(3) e ww by (simp_all add: w3_def)
  ultimately obtain t where t: "vm_link_pmb p n w3 = Inr t" "vb_list p t (as @ [n])" "kern t = copied_frame phys N (kern v)"
    "page_isfree t = page_isfree w" "alloc_ok t" "vm_endpoint (vmprocs t p) = ep"
    "(vm_working_set t n)\<lparr>v_next := v_next (vm_working_set w3 n), v_id := v_id (vm_working_set w3 n)\<rparr> = vm_working_set w3 n"
    by auto
  have cp: "copy_or_panic phys N w = Inr ?w2"
    using copy_and_tell(1) [OF aw al N(1-4) w(5) [folded N_def] t(3,6)] .
  obtain k where k: "tell_or_panic p (if first then N else - 2) (if first then - 2 else N) t = Inr (t\<lparr>kern := k\<rparr>)"
    "k = (kern v)\<lparr>working_set := working_set k, mem := mem k\<rparr>" "installed first root a phys N (kern v) k"
    using copy_and_tell(2) [OF aw al N(1-4) w(5) [folded N_def] t(3,6)] by blast
  have run: "first_copy p vaddr phys fl what v = Inr (t\<lparr>kern := k\<rparr>)"
    using n(1) w(1) cp t(1) k(1) by (cases first) (simp_all add: first_copy_def what N_def [symmetric] w3_def)
  have sel: "v_us0 (vm_working_set t n) = phys" "v_vaddr (vm_working_set t n) = vaddr"
    "(if first then v_us1 (vm_working_set t n) else v_us2 (vm_working_set t n)) = N"
    using arg_cong [OF t(7), of v_us0] arg_cong [OF t(7), of v_vaddr] arg_cong [OF t(7), of v_us1] arg_cong [OF t(7), of v_us2]
    by (auto simp: what w3_def)
  have "vb_list p (t\<lparr>kern := k\<rparr>) (as @ [n])" using t(2) by (subst vb_list_cong [of _ _ t]) auto
  then have "recorded first p vaddr phys N (as @ [n]) (t\<lparr>kern := k\<rparr>)" using sel by (auto simp: recorded_def vb_page_def)
  moreover have "got_page f v (t\<lparr>kern := k\<rparr>)" using gp t(4) by (simp add: got_page_def)
  moreover have "alloc_ok (t\<lparr>kern := k\<rparr>)" using t(5) by simp
  ultimately have "copy_made first p root a vaddr phys v (t\<lparr>kern := k\<rparr>)"
    using k(2,3) unfolding copy_made_def N_def by (intro exI [of _ f] exI [of _ "as @ [n]"]) simp
  then show ?thesis using run by blast
qed

lemma other_copy_made:
  assumes l: "vb_list p v as" "c \<in> set as" "vb_page v c = page_base_of vaddr" "v_us0 (vm_working_set v c) = phys"
    and mis: "(if first then v_us1 (vm_working_set v c) else v_us2 (vm_working_set v c)) = MAP_NONE" and h: "has_memory fl v"
    and aw: "awaits q root bs a cs ep (kern v)" and e: "vm_endpoint (vmprocs v p) = ep"
    and al: "page_aligned phys" and un: "unused root phys a v" and what: "what = (if first then VM_FIRST_RUN else VM_SECOND_RUN)"
  shows "\<exists>t. other_copy p c phys fl what v = Inr t \<and> copy_made first p root a vaddr phys v t"
proof -
  have kk: "no_faults (kern v)" "check_resumed_caller (Some VM_PROC_NR) (kern v) = Inr OK"
    using aw by (auto simp: awaits_def page_world_def)
  obtain f w where w: "alloc_or_panic fl v = Inr (push_bit 12 (of_int f), w)" "alloc_frame v w" "alloc_ok w" "got_page f v w"
    "kern w = (kern v)\<lparr>mem := fill (push_bit 12 (of_int f)) 4096 0 (mem (kern v))\<rparr>"
    using alloc_or_panic_ok [OF h kk] by auto
  define N :: u32 where "N = push_bit 12 (of_int f)"
  have N: "page_aligned N" "N \<noteq> phys" "N \<noteq> root" "N \<noteq> pt_of root (kern v) (pmb_vaddr (working_set (kern v) a))"
    using un w(4) frame_addr by (auto simp: unused_def got_page_def N_def)
  define w2 where "w2 = upd_vb c (\<lambda>b. if first then b\<lparr>v_us1 := N\<rparr> else b\<lparr>v_us2 := N\<rparr>) w"
  have ww: "vm_working_set w = vm_working_set v" "vmprocs w = vmprocs v" using w(2) by (simp_all add: alloc_frame_def)
  have k2: "kern w2 = (kern v)\<lparr>mem := fill N 4096 0 (mem (kern v))\<rparr>" "vm_endpoint (vmprocs w2 p) = ep"
    using w(5) e ww by (simp_all add: w2_def N_def)
  let ?w3 = "w2\<lparr>kern := copied_frame phys N (kern v)\<rparr>"
  have k3: "kern ?w3 = copied_frame phys N (kern v)" "vm_endpoint (vmprocs ?w3 p) = ep" using k2(2) by simp_all
  note ct = copy_and_tell [OF aw al N k2(1) k3]
  obtain k where k: "tell_or_panic p (if first then N else - 2) (if first then - 2 else N) ?w3 = Inr (?w3\<lparr>kern := k\<rparr>)"
    "k = (kern v)\<lparr>working_set := working_set k, mem := mem k\<rparr>" "installed first root a phys N (kern v) k"
    using ct(2) [of first] by blast
  define t where "t = ?w3\<lparr>kern := k\<rparr>"
  have run: "other_copy p c phys fl what v = Inr t"
    using w(1) ct(1) k(1) mis by (cases first) (auto simp: other_copy_def what N_def [symmetric] w2_def t_def Let_def)
  have cl: "vm_working_set t b = (if b = c then (if first then (vm_working_set v c)\<lparr>v_us1 := N\<rparr> else (vm_working_set v c)\<lparr>v_us2 := N\<rparr>) else vm_working_set v b)" for b
    by (simp add: t_def w2_def ww)
  have eq: "vb_nx t = vb_nx v" "vb_page t = vb_page v" "vb_free t = vb_free v" "vmprocs t = vmprocs v"
    by (simp_all add: fun_eq_iff vb_nx_def vb_page_def vb_free_def cl) (simp add: t_def w2_def ww)
  have "vb_list p t as" using l(1) by (simp add: vb_list_def eq)
  then have "recorded first p vaddr phys N as t" using l(2-4) by (auto simp: recorded_def eq cl intro!: bexI [of _ c])
  moreover have "page_isfree t = page_isfree w" by (simp add: t_def w2_def)
  then have "got_page f v t" using w(4) by (simp add: got_page_def)
  moreover have "alloc_ok t" using w(3) by (simp add: t_def w2_def)
  moreover have "kern t = k" by (simp add: t_def)
  ultimately have "copy_made first p root a vaddr phys v t"
    using k(2,3) unfolding copy_made_def N_def by (intro exI [of _ f] exI [of _ as]) simp
  then show ?thesis using run by blast
qed

text \<open>The two situations of a fault: no block yet, or a block that lacks the copy of this run.\<close>

definition lacks_copy :: "bool \<Rightarrow> int \<Rightarrow> u32 \<Rightarrow> u32 \<Rightarrow> vmstate \<Rightarrow> bool" where
  "lacks_copy first p vaddr phys v \<longleftrightarrow> (\<exists>as. vb_list p v as \<and>
     (page_base_of vaddr \<notin> vb_page v ` set as \<and> vb_room v \<or>
      (\<exists>c \<in> set as. vb_page v c = page_base_of vaddr \<and> v_us0 (vm_working_set v c) = phys \<and>
         (if first then v_us1 (vm_working_set v c) else v_us2 (vm_working_set v c)) = MAP_NONE)))"

lemma allocate_made:
  assumes lk: "lacks_copy first p (vr_vaddr region + pr_offset ph) (pr_phys ph) v" and h: "has_memory (vrallocflags (vr_flags region)) v"
    and aw: "awaits q root bs a cs ep (kern v)" and e: "vm_endpoint (vmprocs v p) = ep"
    and al: "page_aligned (pr_phys ph)" and un: "unused root (pr_phys ph) a v" and what: "what = (if first then VM_FIRST_RUN else VM_SECOND_RUN)"
  shows "\<exists>t. allocate_mem_4_hardening p region ph what v = Inr t \<and> copy_made first p root a (vr_vaddr region + pr_offset ph) (pr_phys ph) v t"
proof -
  let ?x = "vr_vaddr region + pr_offset ph"
  define w where "w = upd_vmp p (\<lambda>q. q\<lparr>vm_hflags := setf (vm_hflags q) VM_PROC_TO_HARD\<rparr>) v"
  obtain as where as: "vb_list p v as" and cs: "page_base_of ?x \<notin> vb_page v ` set as \<and> vb_room v \<or>
      (\<exists>c \<in> set as. vb_page v c = page_base_of ?x \<and> v_us0 (vm_working_set v c) = pr_phys ph \<and>
         (if first then v_us1 (vm_working_set v c) else v_us2 (vm_working_set v c)) = MAP_NONE)"
    using lk by (auto simp: lacks_copy_def)
  have l: "vb_list p w as" using as by (subst vb_list_cong [of _ _ v]) (auto simp: w_def)
  have wv: "vm_working_set w = vm_working_set v" "kern w = kern v" "page_isfree w = page_isfree v" "vm_endpoint (vmprocs w p) = ep"
    "vb_page w = vb_page v" "vb_free w = vb_free v" "lru_oldest w = lru_oldest v" "alloc_ok w = alloc_ok v"
    using e by (simp_all add: w_def vb_page_def vb_free_def fun_eq_iff)
  have fe: "fits w = fits v" by (rule fits_cong) (rule wv(3))
  have h': "has_memory (vrallocflags (vr_flags region)) w" using h by (simp add: has_memory_def wv fe)
  have aw': "awaits q root bs a cs ep (kern w)" and un': "unused root (pr_phys ph) a w" using aw un by (simp_all add: wv unused_def)
  have look: "allocate_mem_4_hardening p region ph what v =
     (case find (\<lambda>a. vb_page w a = page_base_of ?x) as of
        None \<Rightarrow> first_copy p ?x (pr_phys ph) (vrallocflags (vr_flags region)) what w
      | Some a \<Rightarrow> other_copy p a (pr_phys ph) (vrallocflags (vr_flags region)) what w)"
    using vm_look_up_find [OF l, of ?x] by (simp add: allocate_mem_4_hardening_def w_def [symmetric] Let_def)
  have bk: "copy_made first p root a ?x (pr_phys ph) w t = copy_made first p root a ?x (pr_phys ph) v t" for t
    by (simp add: copy_made_def got_page_def wv)
  show ?thesis
  proof (cases "find (\<lambda>a. vb_page w a = page_base_of ?x) as")
    case None
    then have "page_base_of ?x \<notin> vb_page v ` set as" "vb_room v" using cs by (auto simp: find_None_iff wv)
    then show ?thesis
      using None look first_copy_made [OF l _ _ h' aw' wv(4) al un' what, of ?x] by (auto simp: wv vb_room_def bk)
  next
    case (Some c)
    then have c: "c \<in> set as" "vb_page w c = page_base_of ?x" by (auto simp: find_Some_iff)
    have "distinct (map (vb_page v) as)" using as by (simp add: vb_list_def)
    then have one: "d = c" if "d \<in> set as" "vb_page v d = page_base_of ?x" for d
      using inj_onD [of "vb_page v" "set as" d c] that c by (simp add: distinct_map wv(5))
    have "page_base_of ?x \<in> vb_page v ` set as" using c unfolding wv(5) by (metis image_eqI)
    then obtain d where d: "d \<in> set as" "vb_page v d = page_base_of ?x" "v_us0 (vm_working_set v d) = pr_phys ph"
      "(if first then v_us1 (vm_working_set v d) else v_us2 (vm_working_set v d)) = MAP_NONE" using cs by blast
    then have "v_us0 (vm_working_set w c) = pr_phys ph" "(if first then v_us1 (vm_working_set w c) else v_us2 (vm_working_set w c)) = MAP_NONE"
      unfolding wv(1) one [OF d(1,2), symmetric] by blast+
    then show ?thesis
      using Some look other_copy_made [OF l c _ _ h' aw' wv(4) al un' what] by (auto simp: bk)
  qed
qed

lemma word_offset_less: "(a :: u32) \<le> x \<Longrightarrow> x < a + n \<Longrightarrow> x - a < n"
proof -
  assume a: "a \<le> x" "x < a + n"
  have "unat (a + n) \<le> unat a + unat n" by (simp add: unat_word_ariths)
  then have "unat x < unat a + unat n" using a(2) unfolding word_less_nat_alt by linarith
  moreover have "unat (x - a) = unat x - unat a" using a(1) by (simp add: unat_sub)
  ultimately show ?thesis using a(1) unfolding word_less_nat_alt word_le_nat_alt by linarith
qed

lemma page_floor: "((x :: u32) - x mod 4096) mod 4096 = 0" "x - x mod 4096 \<le> x"
proof -
  have le: "x mod 4096 \<le> x" by (simp add: word_le_nat_alt unat_mod)
  have u: "unat (x - x mod 4096) = unat x div 4096 * 4096"
    by (simp only: unat_sub [OF le] unat_mod) (simp add: minus_mod_eq_div_mult)
  have "unat ((x - x mod 4096) mod 4096) = 0" by (simp add: unat_mod u)
  then show "(x - x mod 4096) mod 4096 = 0" by (simp add: unat_eq_zero)
  show "x - x mod 4096 \<le> x" unfolding word_le_nat_alt u by simp
qed

lemma map_lookup_range: "map_lookup p x v = Some r \<Longrightarrow> vr_vaddr r \<le> x \<and> x - vr_vaddr r < vr_length r"
  by (auto simp: map_lookup_def word_offset_less split: option.split_asm if_splits)

lemma vm_isokendpt_sel: "vm_isokendpt e v = Inr p \<Longrightarrow> vm_endpoint (vmprocs v p) = e \<and> has (vm_flags (vmprocs v p)) VMF_INUSE"
  by (auto simp: vm_isokendpt_def Let_def split: if_splits)

lemma hmap_pf_made:
  fixes off :: u32
  assumes r: "offset < vr_length region" "vr_vaddr region mod 4096 = 0" "wr \<longrightarrow> has (vr_flags region) VR_WRITABLE"
    and off: "off = offset - offset mod 4096" and ph: "physblocks region (unat (off div 4096)) = Some ph" "pr_offset ph = off"
    and al: "\<exists>t. allocate_mem_4_hardening p region ph what v = Inr t \<and> Q t"
  shows "\<exists>t. hmap_pf p region offset wr what v = Inr (OK, t) \<and> Q t"
proof -
  have o: "off mod 4096 = 0" "off < vr_length region" using page_floor [of offset] r(1) unfolding off by auto
  show ?thesis using al ph o r(2,3) unfolding off by (auto simp: hmap_pf_def physblock_get_def Let_def)
qed

text \<open>C5. A page fault of a run is served: when VM gets the message of a fault on a page of a region that it may access, which
  has a frame and lacks the copy of this run, it takes a page that was free, fills it with the contents of the committed frame,
  remembers it in its block of the page, has the kernel put it into the block of the working set and map
  the page to it, writable, and lets the process go on. No other page is taken, and no frame
  changes but the new one and the page table. The server is supposed to have a free page (and a free block, if the page has none), the
  region to ask for no alignment, no cached pages to be given back first, and the kernel to wait for this copy, without faults on physical memory.
\<close>

theorem hpagefault_served:
  assumes m: "m_type m = (if first then VM_HR1PAGEFAULT else VM_HR2PAGEFAULT)" "vm_isokendpt (m_source m) v = Inr p"
    and r: "map_lookup p (VPF_ADDR m) v = Some region" "vr_vaddr region mod 4096 = 0" "has (VPF_FLAGS m) 2 \<longrightarrow> has (vr_flags region) VR_WRITABLE"
    and ph: "off = (VPF_ADDR m - vr_vaddr region) - (VPF_ADDR m - vr_vaddr region) mod 4096"
      "physblocks region (unat (off div 4096)) = Some ph" "pr_offset ph = off" "page_aligned (pr_phys ph)"
    and lk: "lacks_copy first p (vr_vaddr region + off) (pr_phys ph) v" and h: "has_memory (vrallocflags (vr_flags region)) v"
    and aw: "awaits q root bs a cs (m_source m) (kern v)" and un: "unused root (pr_phys ph) a v"
  shows "\<exists>t f as. do_hpagefaults pm pr m v = Inr t \<and> got_page f v t \<and>
    recorded first p (vr_vaddr region + off) (pr_phys ph) (push_bit 12 (of_int f)) as t \<and>
    installed first root a (pr_phys ph) (push_bit 12 (of_int f)) (kern v) (kern t) \<and>
    \<not> RTS_ISSET (procs (kern t) q) RTS_PAGEFAULT \<and> ready_inv (kern t)"
proof -
  note e = vm_isokendpt_sel [OF m(2)] map_lookup_range [OF r(1)]
  define what where "what = (if first then VM_FIRST_RUN else VM_SECOND_RUN)"
  have ex: "\<exists>u. allocate_mem_4_hardening p region ph what v = Inr u \<and> copy_made first p root a (vr_vaddr region + off) (pr_phys ph) v u"
    using allocate_made [OF lk [folded ph(3)] h aw _ ph(4) un what_def] e(1) unfolding ph(3) by blast
  obtain u where u: "hmap_pf p region (VPF_ADDR m - vr_vaddr region) (has (VPF_FLAGS m) 2) what v = Inr (OK, u)"
    "copy_made first p root a (vr_vaddr region + off) (pr_phys ph) v u"
    using hmap_pf_made [OF _ r(2,3) ph(1-3) ex] e(2) by blast
  obtain f as where f: "got_page f v u" "recorded first p (vr_vaddr region + off) (pr_phys ph) (push_bit 12 (of_int f)) as u"
    "installed first root a (pr_phys ph) (push_bit 12 (of_int f)) (kern v) (kern u)"
    "kern u = (kern v)\<lparr>working_set := working_set (kern u), mem := mem (kern u)\<rparr>"
    using u(2) by (auto simp: copy_made_def)
  have k: "procs (kern u) = procs (kern v)" "same_sched (kern v) (kern u)" "isokendpt (m_source m) (kern u) = isokendpt (m_source m) (kern v)"
    by (subst f(4), simp add: same_sched_def priv_of_def isokendpt_def isemptyn_def Let_def)+
  note v = same_sched_view [OF k(2)]
  have q: "isokendpt (m_source m) (kern u) = Some q" "RTS_ISSET (procs (kern u) q) RTS_PAGEFAULT" "ready_inv (kern u)" "cur_ok (kern u)" "m_source m \<noteq> SELF"
    using aw v k by (simp_all add: awaits_def)
  have qp: "isokprocn q" using q(1) by (auto simp: isokendpt_def Let_def split: if_splits)
  obtain s where s: "RTS_UNSET q RTS_PAGEFAULT (kern u) = Inr s" "ready_inv s" "p_rts_flags (procs s q) = clrf (p_rts_flags (procs (kern u) q)) RTS_PAGEFAULT"
    by (rule RTS_UNSET_frame [OF q(3,4) qp, of RTS_PAGEFAULT]) blast
  have sm: "mem s = mem (kern u)" "working_set s = working_set (kern u)" using RTS_UNSET_mem [OF q(3,4) qp s(1)] by simp_all
  let ?t = "u\<lparr>kern := s\<rparr>"
  have "sys_vmctl pm pr (m_source m) VMCTL_CLEAR_PAGEFAULT 0 u = Inr (OK, ?t)"
    using q s(1) by (simp add: sys_vmctl_def do_vmctl_def Let_def)
  then have "do_hpagefaults pm pr m v = Inr ?t"
    using m r(1) e u(1) by (cases first) (simp_all add: do_hpagefaults_def what_def Let_def)
  moreover have "installed first root a (pr_phys ph) (push_bit 12 (of_int f)) (kern v) s"
    using f(3) by (simp add: installed_def Let_def sm pmb_is_def pte_of_def pt_of_def pde_of_def)
  moreover have "vb_list p ?t as = vb_list p u as" "vb_page ?t = vb_page u" by (subst vb_list_cong [of _ _ u]) (auto simp: vb_page_def)
  then have "recorded first p (vr_vaddr region + off) (pr_phys ph) (push_bit 12 (of_int f)) as ?t"
    using f(2) unfolding recorded_def by (cases first) auto
  moreover have "got_page f v ?t" using f(1) by (simp add: got_page_def)
  moreover have "\<not> RTS_ISSET (procs s q) RTS_PAGEFAULT" using s(3) by (simp add: isset_has)
  ultimately show ?thesis using s(2) by (intro exI [of _ ?t] exI [of _ f] exI [of _ as]) simp
qed

section \<open>Giving copies back\<close>

lemma frame_page: "0 \<le> f \<Longrightarrow> f < 0x100000 \<Longrightarrow> drop_bit 12 (push_bit 12 (of_int f) :: u32) = of_int f"
proof (rule word_uint_eqI)
  assume f: "0 \<le> f" "f < 0x100000"
  have "(push_bit 12 (of_int f) :: u32) = of_int (4096 * f)" by (simp add: push_bit_eq_mult)
  moreover have "uint (of_int (4096 * f) :: u32) = 4096 * f" using f by (simp only: unsigned_of_int) (simp add: take_bit_int_eq_self)
  ultimately have "uint (push_bit 12 (of_int f) :: u32) = 4096 * f" by simp
  then have "uint (drop_bit 12 (push_bit 12 (of_int f) :: u32)) = 4096 * f div 4096"
    by (simp only: unsigned_drop_bit_eq) (use f in \<open>simp add: take_bit_int_eq_self drop_bit_eq_div\<close>)
  then show "uint (drop_bit 12 (push_bit 12 (of_int f) :: u32)) = uint (of_int f :: u32)" using page_word [OF f] by simp
qed

lemma free_one_top:
  assumes "free_page_cache_size v < PAGE_CACHE_MAX" "0 \<le> f" "f < 0x100000"
  shows "\<exists>t. free_mem (of_int f) 1 v = Inr t \<and> page_isfree t f \<and> free_page_cache_size t = free_page_cache_size v + 1 \<and>
    free_page_cache t (free_page_cache_size v) = f \<and> vm_working_set t = vm_working_set v \<and> vmprocs t = vmprocs v"
proof -
  have u: "unat (of_int f :: u32) < 2 ^ 31"
    using unat_pages(2) [of "of_int f"] page_word [OF assms(2,3)] assms(3) by auto
  have s: "sint (of_int f :: u32) = f" using sint_uint_small [OF u] page_word [OF assms(2,3)] by auto
  obtain bm where b: "set_bit_page True f v = Inr (v\<lparr>free_pages_bitmap := bm\<rparr>)" using set_bit_page_ok [of f True v] assms by auto
  have "page_isfree (v\<lparr>free_pages_bitmap := bm\<rparr>) f" using set_bit_page_isfree [OF b assms(2)] by simp
  then show ?thesis using assms(1) b s
    by (auto simp: free_mem_def free_pages_def page_isfree_def)
qed

lemma search_block:
  assumes "vb_list p v (as @ c # cs)" "vb_page v c = page_base_of x"
  shows "\<exists>prev. search_prev (vb_nx v) (vb_at (I386_VM_PDE x) (I386_VM_PTE x) v) (vm_lus1_us2 (vmprocs v p)) = Inr (Some (prev, c))"
proof -
  have "chain (vb_nx v) (vm_lus1_us2 (vmprocs v p)) (as @ c # cs)" and ne: "\<forall>y \<in> set as. \<not> vb_page v y = page_base_of x"
    using assms by (auto simp: vb_list_def image_iff)
  from search_prev_chain [OF this(1)] show ?thesis by (simp add: vb_at_page prev_in_split [OF ne assms(2)])
qed

lemma unlink_vb_alloc:
  "page_isfree (unlink_vb p prev a v) = page_isfree v" "free_page_cache (unlink_vb p prev a v) = free_page_cache v"
  "free_page_cache_size (unlink_vb p prev a v) = free_page_cache_size v"
  by (auto simp: unlink_vb_def Let_def split: option.split) (simp_all add: upd_vb_def upd_vmp_def)

text \<open>C33. Releasing the block of a page that has only the copy of the first run also releases the frame \<open>MAP_NONE\<close> names:
  the last page of the address space, which VM never got, becomes free, and the next
  request for one page is answered with it.
\<close>

theorem absent_copy_freed:
  assumes l: "vb_list p v (as @ c # cs)" "vb_page v c = page_base_of vaddr"
    and c: "v_us1 (vm_working_set v c) = push_bit 12 (of_int f)" "0 \<le> f" "f < 0x100000" "v_us2 (vm_working_set v c) = MAP_NONE"
    and sz: "free_page_cache_size v + 1 < PAGE_CACHE_MAX"
  shows "\<exists>t u. vm_free_pram_mem_block p vaddr v = Inr t \<and> page_isfree t 0xFFFFF \<and> alloc_mem 1 0 t = Inr (0xFFFFF, u)"
proof -
  have d: "drop_bit 12 (push_bit 12 (of_int f) :: u32) = of_int f" "(drop_bit 12 MAP_NONE :: u32) = of_int 0xFFFFF"
    using frame_page [OF c(2,3)] by simp_all
  obtain w where w: "free_mem (of_int f) 1 v = Inr w" "free_page_cache_size w = free_page_cache_size v + 1"
    "vm_working_set w = vm_working_set v" "vmprocs w = vmprocs v"
    using free_one_top [of v f] c(2,3) sz by auto
  obtain x where x: "free_mem (of_int 0xFFFFF) 1 w = Inr x" "page_isfree x 0xFFFFF" "free_page_cache_size x = free_page_cache_size v + 2"
    "free_page_cache x (free_page_cache_size v + 1) = 0xFFFFF"
    using free_one_top [of w "0xFFFFF"] sz w(2) by auto
  obtain prev where pv: "search_prev (vb_nx v) (vb_at (I386_VM_PDE vaddr) (I386_VM_PTE vaddr) v) (vm_lus1_us2 (vmprocs v p)) = Inr (Some (prev, c))"
    using search_block [OF l] by blast
  let ?t = "unlink_vb p prev c x"
  have "vm_lus1_us2_size (vmprocs v p) > 0" using l(1) by (simp add: vb_list_def)
  then have run: "vm_free_pram_mem_block p vaddr v = Inr ?t"
    using pv w x(1) d c by (simp add: vm_free_pram_mem_block_def)
  have pc: "pop_cache (free_page_cache_size ?t) ?t = (Some 0xFFFFF, free_page_cache_size v + 1)"
    using x by (simp add: unlink_vb_alloc numeral_2_eq_2)
  obtain bm where "set_bit_page False 0xFFFFF (?t\<lparr>free_page_cache_size := free_page_cache_size v + 1, lastscan := 0xFFFFF\<rparr>) =
      Inr (?t\<lparr>free_page_cache_size := free_page_cache_size v + 1, lastscan := 0xFFFFF\<rparr>\<lparr>free_pages_bitmap := bm\<rparr>)"
    using set_bit_page_ok [of "0xFFFFF" False "?t\<lparr>free_page_cache_size := free_page_cache_size v + 1, lastscan := 0xFFFFF\<rparr>"] by auto
  then have "\<exists>u. alloc_pages 1 0 ?t = Inr (0xFFFFF, u)"
    using pc by (simp add: alloc_pages_def has_def Let_def)
  then show ?thesis using run x(2) by (auto simp: unlink_vb_alloc alloc_mem_def align_clicks_of_def has_def)
qed

section \<open>A sample\<close>

text \<open>Process 1 faulted in its first run on the page \<open>0x3000\<close>, whose committed frame is \<open>0x5000\<close>; pages 32 to 63 are free.\<close>

definition wait_sample :: kstate where
  "wait_sample = answer_sample\<lparr>ptproc := 1, cr3 := 0x1000, ppriv_addr := (\<lambda>_. zero_priv\<lparr>s_stack_guard := STACK_GUARD\<rparr>),
     procs := (\<lambda>n. if n = 1 then (procs answer_sample 1)\<lparr>p_magic := PMAGIC, p_rts_flags := RTS_PAGEFAULT\<rparr>
                   else zero_proc\<lparr>p_nr := n, p_magic := PMAGIC, p_rts_flags := 1\<rparr>)\<rparr>"

definition sample_region :: vir_region where
  "sample_region = \<lparr>vr_vaddr = 0x3000, vr_length = 0x1000, vr_flags = VR_WRITABLE,
     physblocks = (\<lambda>i. if i = 0 then Some \<lparr>pr_phys = 0x5000, pr_offset = 0\<rparr> else None)\<rparr>"

definition vm_sample :: vmstate where
  "vm_sample = alloc_sample\<lparr>kern := wait_sample,
     vmprocs := (\<lambda>n. if n = 1 then (vmprocs alloc_sample n)\<lparr>vm_flags := VMF_INUSE, vm_endpoint := 1, vm_regions := [sample_region]\<rparr> else vmprocs alloc_sample n),
     vm_working_set := (\<lambda>_. \<lparr>v_id = 0, v_flags = PRAM_SLOT_FREE, v_vaddr = 0, v_us0 = 0, v_us1 = 0, v_us2 = 0, v_next = None\<rparr>)\<rparr>"

lemma wait_sample_sel:
  "mem wait_sample = sample_mem" "rd_fault wait_sample = (\<lambda>_. False)" "wr_fault wait_sample = (\<lambda>_. False)"
  "working_set wait_sample 0 = sample_block\<lparr>us1 := MAP_NONE, pmb_flags := HGET_PF OR PRAM_LAST_PF\<rparr>"
  "p_lus1_us2 (procs wait_sample 1) = Some 0" "p_lus1_us2_size (procs wait_sample 1) = 1" "p_cr3 (procs wait_sample 1) = 0x1000"
  "p_endpoint (procs wait_sample 1) = 1" "p_nr (procs wait_sample 1) = 1" "p_rts_flags (procs wait_sample 1) = RTS_PAGEFAULT"
  by (simp_all add: wait_sample_def answer_sample_def upd_pmb_def) (simp_all add: sample_state_def)

lemma wait_sample_ready: "ready_inv wait_sample" "cur_ok wait_sample"
proof -
  have p: "prio wait_sample x = 0" "p_magic (procs wait_sample x) = PMAGIC" "s_stack_guard (priv_of wait_sample x) = STACK_GUARD"
    "\<not> proc_is_runnable (procs wait_sample x)" "run_q_head wait_sample x = None" "run_q_tail wait_sample x = None" for x
    by (simp_all add: wait_sample_def answer_sample_def prio_def priv_of_def proc_is_runnable_def sample_state_def bss_state_def
        zero_proc_def zero_sched_def upd_pmb_def)
  have "rq_inv (\<lambda>_. []) wait_sample" by (simp add: rq_inv_def rq_lists_def sched_ok_def proc_ptr_ok_def p)
  then show "ready_inv wait_sample" using ready_invI by blast
  show "cur_ok wait_sample" using p(1) by (simp add: cur_ok_def)
qed

lemma wait_sample_tables:
  "pde_of 0x1000 wait_sample x = pde_of 0x1000 sample_state x" "pt_of 0x1000 wait_sample x = pt_of 0x1000 sample_state x"
  by (simp_all add: pde_of_def pt_of_def wait_sample_sel)

lemma wait_sample_awaits: "awaits 1 0x1000 [] 0 [] 1 wait_sample"
proof -
  have "page_world 1 0x1000 ([] @ 0 # []) wait_sample"
    by (auto simp: page_world_def ws_list_def layout_def block_ok_def no_faults_def frames_of_def page_aligned_def
        pmb_nx_def pmb_free_def has_def wait_sample_sel wait_sample_tables)
  moreover have "isokendpt 1 wait_sample = Some 1"
    by (simp add: isokendpt_def ENDPOINT_P_def c_rem_def Let_def isokprocn_def isemptyn_def wait_sample_sel)
  moreover have "copy_asserts None None wait_sample = Inr wait_sample"
  proof -
    have "cr3 wait_sample = 0x1000" "ptproc wait_sample = 1" by (simp_all add: wait_sample_def)
    then show ?thesis by (simp add: copy_asserts_def Let_def wait_sample_sel isset_has has_def)
  qed
  moreover have "check_resumed_caller (Some VM_PROC_NR) wait_sample = Inr OK"
    by (simp add: check_resumed_caller_def misc_is_def wait_sample_def zero_proc_def has_def)
  ultimately show ?thesis using wait_sample_ready by (simp add: awaits_def pmb_is_def wait_sample_sel isset_has has_def)
qed

lemma vm_sample_free: "0 \<le> j \<Longrightarrow> page_isfree vm_sample j \<longleftrightarrow> 32 \<le> j \<and> j \<le> 63"
proof -
  assume j: "0 \<le> j"
  have e: "page_isfree vm_sample j = page_isfree alloc_sample j" by (simp add: vm_sample_def page_isfree_def)
  have "32 \<le> j \<and> j \<le> 63" if "page_isfree alloc_sample j"
  proof -
    have "nat j div 32 = 1" using that by (auto simp: page_isfree_bit alloc_sample_def split: if_splits)
    then show ?thesis using j by linarith
  qed
  then show ?thesis using alloc_sample_free e by blast
qed

lemma vm_sample_sel:
  "kern vm_sample = wait_sample" "vm_isokendpt 1 vm_sample = Inr 1" "map_lookup 1 0x3004 vm_sample = Some sample_region"
  "vm_lus1_us2 (vmprocs vm_sample p) = None" "vm_lus1_us2_size (vmprocs vm_sample p) = 0" "lru_oldest vm_sample = None"
  "alloc_ok vm_sample" "vb_free vm_sample i"
  by (simp_all add: vm_sample_def vm_isokendpt_def ENDPOINT_P_def c_rem_def Let_def has_def map_lookup_def region_search_def
      sample_region_def vb_free_def alloc_ok_def) (simp_all add: alloc_sample_def)

lemma vm_sample_ready:
  "lacks_copy True 1 0x3000 0x5000 vm_sample" "has_memory (vrallocflags VR_WRITABLE) vm_sample" "unused 0x1000 0x5000 0 vm_sample"
proof -
  have "vb_list 1 vm_sample []" "vb_room vm_sample" by (auto simp: vb_list_def vb_room_def vm_sample_sel intro: exI [of _ 0])
  then show "lacks_copy True 1 0x3000 0x5000 vm_sample" by (auto simp: lacks_copy_def)
  have "fits vm_sample 1 (max_page (vrallocflags VR_WRITABLE OR PAF_CLEAR)) 40"
    using vm_sample_free by (auto simp: fits_def max_page_def vrallocflags_def has_def)
  then show "has_memory (vrallocflags VR_WRITABLE) vm_sample"
    by (auto simp: has_memory_def vm_sample_sel align_clicks_of_def vrallocflags_def has_def)
  have pt: "pt_of 0x1000 wait_sample 0x3000 = 0x2000" by (simp add: wait_sample_tables)
  show "unused 0x1000 0x5000 0 vm_sample"
    unfolding unused_def
  proof (intro allI impI)
    fix j :: int
    assume j: "0 \<le> j" "page_isfree vm_sample j"
    then have r: "32 \<le> j" "j < 0x100000" using vm_sample_free by auto
    have "(push_bit 12 (of_int j) :: u32) \<noteq> x" if "drop_bit 12 x = of_int k" "0 \<le> k" "k < 32" for x k
    proof
      assume "(push_bit 12 (of_int j) :: u32) = x"
      then have "(of_int j :: u32) = of_int k" using that(1) frame_page [OF j(1) r(2)] by simp
      then have "uint (of_int j :: u32) = uint (of_int k :: u32)" by simp
      then show False using page_word [OF j(1) r(2)] page_word [of k] that(2,3) r(1) by simp
    qed
    note n = this
    show "push_bit 12 (of_int j) \<notin> {0x1000, 0x5000, pt_of 0x1000 (kern vm_sample) (pmb_vaddr (working_set (kern vm_sample) 0))}"
      using n [of "0x1000" 1] n [of "0x5000" 5] n [of "0x2000" 2] by (simp add: vm_sample_sel wait_sample_sel pt sample_block_def)
  qed
qed

theorem hpagefault_served_witness:
  "\<exists>t f. do_hpagefaults (\<lambda>_ _. Inl Diverges) (\<lambda>_ _. Inl Diverges)
       (zero_msg\<lparr>m_source := 1, m_type := VM_HR1PAGEFAULT, VPF_ADDR := 0x3004, VPF_FLAGS := 7\<rparr>) vm_sample = Inr t \<and>
     us1 (working_set (kern t) 0) = push_bit 12 (of_int f) \<and> page_isfree vm_sample f \<and> \<not> page_isfree t f"
proof -
  let ?m = "zero_msg\<lparr>m_source := 1, m_type := VM_HR1PAGEFAULT, VPF_ADDR := 0x3004, VPF_FLAGS := 7\<rparr>"
  let ?ph = "\<lparr>pr_phys = 0x5000, pr_offset = 0\<rparr>"
  obtain t f as where t: "do_hpagefaults (\<lambda>_ _. Inl Diverges) (\<lambda>_ _. Inl Diverges) ?m vm_sample = Inr t" "got_page f vm_sample t"
    "installed True 0x1000 0 0x5000 (push_bit 12 (of_int f)) wait_sample (kern t)"
    using hpagefault_served [of ?m True vm_sample 1 sample_region 0 ?ph 1 "0x1000" "[]" 0 "[]" "\<lambda>_ _. Inl Diverges" "\<lambda>_ _. Inl Diverges"]
      vm_sample_sel vm_sample_ready wait_sample_awaits
    by (auto simp: sample_region_def page_aligned_def has_def)
  then show ?thesis by (auto simp: installed_def got_page_def Let_def)
qed

theorem absent_copy_freed_witness:
  "\<exists>t u. vm_free_pram_mem_block 1 0x3000 (upd_vb 0 (\<lambda>b. b\<lparr>v_flags := 0, v_vaddr := 0x3000, v_us0 := 0x5000, v_us1 := 0x20000, v_us2 := MAP_NONE\<rparr>)
       (upd_vmp 1 (\<lambda>q. q\<lparr>vm_lus1_us2 := Some 0, vm_lus1_us2_size := 1\<rparr>) vm_sample)) = Inr t \<and> alloc_mem 1 0 t = Inr (0xFFFFF, u)"
proof -
  let ?v = "upd_vb 0 (\<lambda>b. b\<lparr>v_flags := 0, v_vaddr := 0x3000, v_us0 := 0x5000, v_us1 := 0x20000, v_us2 := MAP_NONE\<rparr>)
       (upd_vmp 1 (\<lambda>q. q\<lparr>vm_lus1_us2 := Some 0, vm_lus1_us2_size := 1\<rparr>) vm_sample)"
  have "vb_list 1 ?v ([] @ 0 # [])" by (simp add: vb_list_def vb_nx_def vb_free_def has_def) (simp add: vm_sample_def)
  moreover have "vb_page ?v 0 = page_base_of 0x3000" "v_us1 (vm_working_set ?v 0) = push_bit 12 (of_int 32)"
    "v_us2 (vm_working_set ?v 0) = MAP_NONE" "free_page_cache_size ?v + 1 < PAGE_CACHE_MAX"
    by (simp_all add: vb_page_def) (simp add: upd_vb_def upd_vmp_def vm_sample_def alloc_sample_def)
  ultimately show ?thesis using absent_copy_freed [of 1 ?v "[]" 0 "[]" "0x3000" 32] by auto
qed

end
