(* ===== verification/Timers.thy ===== *)
theory Timers
  imports HPrelude
begin

text \<open>
  The library of watchdog timers (\<open>lib/libtimers\<close>): the queue of active timers is a linked list through the timer
  structures themselves, the timer that expires first in front. A time is a \<open>clock_t\<close>, a signed 32 bit number. The
  library calls a watchdog through a function pointer, so the loop that runs the expired timers takes the function
  that a pointer stands for as an argument; a watchdog may set timers again, and then the loop need not end.

  The reference is a list of timers sorted by time: setting a timer is the stable sort of the list with the timer put
  at its end, and running the expired ones takes the longest prefix that has expired.
\<close>

section \<open>Timers and queues\<close>

datatype watchdog = Cause_alarm | Minix_shutdown

text \<open>The timers of the kernel: the alarm timer of each privilege structure, and the one of \<open>prepare_shutdown\<close>.\<close>

datatype timer_ref = S_alarm_timer nat | Shutdown_timer

record timer =
  tmr_next :: "timer_ref option"
  tmr_exp_time :: u32
  tmr_func :: "watchdog option"
  ta_int :: int

record timerq =
  timers :: "timer_ref \<Rightarrow> timer"
  tmrs :: "timer_ref option"

abbreviation TMR_NEVER :: u32 where "TMR_NEVER \<equiv> 0x7FFFFFFF"

definition upd_tmr :: "timer_ref \<Rightarrow> (timer \<Rightarrow> timer) \<Rightarrow> 'a timerq_scheme \<Rightarrow> 'a timerq_scheme" where
  "upd_tmr a f s = s\<lparr>timers := (timers s)(a := f (timers s a))\<rparr>"

definition tnext :: "'a timerq_scheme \<Rightarrow> timer_ref \<Rightarrow> timer_ref option" where
  "tnext s a = tmr_next (timers s a)"

definition expiry :: "'a timerq_scheme \<Rightarrow> timer_ref \<Rightarrow> int" where
  "expiry s a = sint (tmr_exp_time (timers s a))"

definition tmr_inittimer :: "timer_ref \<Rightarrow> 'a timerq_scheme \<Rightarrow> 'a timerq_scheme" where
  "tmr_inittimer tp = upd_tmr tp (\<lambda>t. t\<lparr>tmr_exp_time := TMR_NEVER, tmr_next := None\<rparr>)"

text \<open>The expiration time in front, 0 for the empty queue.\<close>

definition head_time :: "'a timerq_scheme \<Rightarrow> u32" where
  "head_time s = (case tmrs s of None \<Rightarrow> 0 | Some h \<Rightarrow> tmr_exp_time (timers s h))"

section \<open>Walking with a pointer to a link\<close>

text \<open>
  \<open>for (atp = tmrs; *atp != NULL; atp = &(*atp)->tmr_next) if (P *atp) break;\<close> gives the place of a link -- the head
  (\<open>None\<close>) or the link of a timer -- and what is stored there.
\<close>

definition find_link ::
  "('k \<Rightarrow> 'k option) \<Rightarrow> ('k \<Rightarrow> bool) \<Rightarrow> 'k option \<Rightarrow> stop + ('k option \<times> 'k option)" where
  "find_link nx P q =
     bnd (for_chain (\<lambda>_. nx) (\<lambda>a prev. Inr (if P a then (Some a, prev) else (None, Some a))) q None)
       (\<lambda>(r, prev). Inr (prev, r))"

definition write_link :: "timer_ref option \<Rightarrow> timer_ref option \<Rightarrow> 'a timerq_scheme \<Rightarrow> 'a timerq_scheme" where
  "write_link atp v s =
     (case atp of None \<Rightarrow> s\<lparr>tmrs := v\<rparr> | Some b \<Rightarrow> upd_tmr b (\<lambda>t. t\<lparr>tmr_next := v\<rparr>) s)"

section \<open>The operations\<close>

text \<open>The results are the time that was in front and, where the caller asks for it, the time in front now.\<close>

definition tmrs_clrtimer :: "timer_ref \<Rightarrow> 'a timerq_scheme \<Rightarrow> stop + (u32 \<times> u32 \<times> 'a timerq_scheme)" where
  "tmrs_clrtimer tp s =
     (let prev_time = head_time s;
          s = upd_tmr tp (\<lambda>t. t\<lparr>tmr_exp_time := TMR_NEVER\<rparr>) s
      in bnd (find_link (tnext s) (\<lambda>a. a = tp) (tmrs s)) (\<lambda>(atp, r).
           let s = (if r = None then s else write_link atp (tnext s tp) s)
           in Inr (prev_time, head_time s, s)))"

definition tmrs_settimer ::
  "timer_ref \<Rightarrow> u32 \<Rightarrow> watchdog option \<Rightarrow> 'a timerq_scheme \<Rightarrow> stop + (u32 \<times> u32 \<times> 'a timerq_scheme)" where
  "tmrs_settimer tp exp_time watchdog s =
     (let old_head = head_time s
      in bnd (tmrs_clrtimer tp s) (\<lambda>(_, _, s).
           let s = upd_tmr tp (\<lambda>t. t\<lparr>tmr_exp_time := exp_time, tmr_func := watchdog\<rparr>) s
           in bnd (find_link (tnext s) (\<lambda>a. sint exp_time < expiry s a) (tmrs s)) (\<lambda>(atp, r).
                let s = write_link atp (Some tp) (upd_tmr tp (\<lambda>t. t\<lparr>tmr_next := r\<rparr>) s)
                in Inr (old_head, head_time s, s))))"

definition take_timer :: "timer_ref \<Rightarrow> 'a timerq_scheme \<Rightarrow> 'a timerq_scheme" where
  "take_timer tp s = upd_tmr tp (\<lambda>t. t\<lparr>tmr_exp_time := TMR_NEVER\<rparr>) (s\<lparr>tmrs := tnext s tp\<rparr>)"

text \<open>\<open>call w tp\<close> is the call \<open>( *tp->tmr_func)(tp)\<close> of the function \<open>w\<close>; a null pointer traps.\<close>

definition call_func ::
  "(watchdog \<Rightarrow> timer_ref \<Rightarrow> 'a timerq_scheme \<Rightarrow> stop + 'a timerq_scheme) \<Rightarrow> timer_ref \<Rightarrow>
   'a timerq_scheme \<Rightarrow> stop + 'a timerq_scheme" where
  "call_func call tp s = (case tmr_func (timers s tp) of None \<Rightarrow> Inl NullDeref | Some w \<Rightarrow> call w tp s)"

partial_function (option) exptimers_loop ::
  "(watchdog \<Rightarrow> timer_ref \<Rightarrow> 'a timerq_scheme \<Rightarrow> stop + 'a timerq_scheme) \<Rightarrow> u32 \<Rightarrow>
   'a timerq_scheme \<Rightarrow> (stop + 'a timerq_scheme) option" where
  "exptimers_loop call now s =
     (case tmrs s of
        None \<Rightarrow> Some (Inr s)
      | Some tp \<Rightarrow>
          (if sint now < expiry s tp then Some (Inr s)
           else (case call_func call tp (take_timer tp s) of
                   Inl e \<Rightarrow> Some (Inl e)
                 | Inr s' \<Rightarrow> exptimers_loop call now s')))"

definition tmrs_exptimers ::
  "(watchdog \<Rightarrow> timer_ref \<Rightarrow> 'a timerq_scheme \<Rightarrow> stop + 'a timerq_scheme) \<Rightarrow> u32 \<Rightarrow>
   'a timerq_scheme \<Rightarrow> stop + (u32 \<times> 'a timerq_scheme)" where
  "tmrs_exptimers call now s =
     (case exptimers_loop call now s of
        None \<Rightarrow> Inl Diverges
      | Some r \<Rightarrow> bnd r (\<lambda>s. Inr (head_time s, s)))"

end
