(* ===== verification/Clock.thy ===== *)
theory Clock
  imports Timers Ipc_Calls
begin

text \<open>
  The clock of the kernel (\<open>kernel/clock.c\<close>), the kernel calls \<open>SYS_SETALARM\<close>, \<open>SYS_VTIMER\<close> and \<open>SYS_TIMES\<close>
  (\<open>kernel/system\<close>) and the timer part of the shutdown (\<open>main.c\<close>). The state is the queue of timers, the next
  timeout, the accounting times of the processes, the load history and the kernel state, whose \<open>uptime\<close> is
  \<open>realtime\<close>. One processor: the boot processor takes every tick.
\<close>

record proc_times =
  p_user_time :: u32
  p_sys_time :: u32
  p_virt_left :: u32
  p_prof_left :: u32

record clkstate = timerq +
  next_timeout :: u32
  p_times :: "int \<Rightarrow> proc_times"
  proc_load_history :: "nat \<Rightarrow> u16"
  proc_last_slot :: u16
  last_clock :: u32
  system_hz :: u32
  boottime :: u32
  id_last_inject_pe :: int
  ck :: kstate

abbreviation CLOCK :: int where "CLOCK \<equiv> - 3"
abbreviation MF_VIRT_TIMER :: u32 where "MF_VIRT_TIMER \<equiv> 0x002"
abbreviation MF_PROF_TIMER :: u32 where "MF_PROF_TIMER \<equiv> 0x004"
abbreviation SIGVTALRM :: int where "SIGVTALRM \<equiv> 24"
abbreviation SIGPROF :: int where "SIGPROF \<equiv> 25"
abbreviation VT_VIRTUAL :: int where "VT_VIRTUAL \<equiv> 1"
abbreviation VT_PROF :: int where "VT_PROF \<equiv> 2"
abbreviation LOAD_UNIT_SECS :: int where "LOAD_UNIT_SECS \<equiv> 6"
abbreviation LOAD_HISTORY :: int where "LOAD_HISTORY \<equiv> 150"
abbreviation H_PERIOD_TO_INJECT :: int where "H_PERIOD_TO_INJECT \<equiv> 10"
abbreviation H_THRESHOLD_PE :: int where "H_THRESHOLD_PE \<equiv> 65300"

definition upd_times :: "int \<Rightarrow> (proc_times \<Rightarrow> proc_times) \<Rightarrow> clkstate \<Rightarrow> clkstate" where
  "upd_times p f c = c\<lparr>p_times := (p_times c)(p := f (p_times c p))\<rparr>"

text \<open>An operation on the kernel state alone.\<close>

definition in_kernel :: "(kstate \<Rightarrow> stop + kstate) \<Rightarrow> clkstate \<Rightarrow> stop + clkstate" where
  "in_kernel f c = bnd (f (ck c)) (\<lambda>s. Inr (c\<lparr>ck := s\<rparr>))"

section \<open>The queue of the clock\<close>

definition get_uptime :: "clkstate \<Rightarrow> u32" where
  "get_uptime c = uptime (ck c)"

text \<open>The time in front, or never; \<open>set_timer\<close> reads it without the test, its queue is not empty.\<close>

definition front_or_never :: "clkstate \<Rightarrow> u32" where
  "front_or_never c = (case tmrs c of None \<Rightarrow> TMR_NEVER | Some h \<Rightarrow> tmr_exp_time (timers c h))"

definition set_timer :: "timer_ref \<Rightarrow> u32 \<Rightarrow> watchdog option \<Rightarrow> clkstate \<Rightarrow> stop + clkstate" where
  "set_timer tp exp_time watchdog c =
     bnd (tmrs_settimer tp exp_time watchdog c) (\<lambda>(_, _, c).
       case tmrs c of None \<Rightarrow> Inl NullDeref
       | Some h \<Rightarrow> Inr (c\<lparr>next_timeout := tmr_exp_time (timers c h)\<rparr>))"

definition reset_timer :: "timer_ref \<Rightarrow> clkstate \<Rightarrow> stop + clkstate" where
  "reset_timer tp c = bnd (tmrs_clrtimer tp c) (\<lambda>(_, _, c). Inr (c\<lparr>next_timeout := front_or_never c\<rparr>))"

text \<open>\<open>system_init\<close> initialises the alarm timers of all privilege structures.\<close>

definition init_alarm_timers :: "clkstate \<Rightarrow> clkstate" where
  "init_alarm_timers c = fold (\<lambda>i. tmr_inittimer (S_alarm_timer i)) [0 ..< NR_SYS_PROCS] c"

section \<open>Alarms and shutdown\<close>

definition cause_alarm :: "timer_ref \<Rightarrow> clkstate \<Rightarrow> stop + clkstate" where
  "cause_alarm tp c =
     in_kernel (\<lambda>s. bnd (mini_notify CLOCK (ta_int (timers c tp)) s) (\<lambda>(_, s). Inr s)) c"

text \<open>\<open>minix_shutdown\<close> ends in \<open>arch_shutdown\<close>, which halts or resets the machine.\<close>

definition minix_shutdown :: "timer_ref \<Rightarrow> clkstate \<Rightarrow> stop + clkstate" where
  "minix_shutdown tp c = Inl (Panic ''arch_shutdown'')"

definition run_watchdog :: "watchdog \<Rightarrow> timer_ref \<Rightarrow> clkstate \<Rightarrow> stop + clkstate" where
  "run_watchdog w tp c = (case w of Cause_alarm \<Rightarrow> cause_alarm tp c | Minix_shutdown \<Rightarrow> minix_shutdown tp c)"

definition prepare_shutdown :: "int \<Rightarrow> clkstate \<Rightarrow> stop + clkstate" where
  "prepare_shutdown how c =
     set_timer Shutdown_timer (get_uptime c + system_hz c) (Some Minix_shutdown)
       (upd_tmr Shutdown_timer (\<lambda>t. t\<lparr>ta_int := how\<rparr>) c)"

definition do_setalarm :: "int \<Rightarrow> message \<Rightarrow> clkstate \<Rightarrow> stop + (int \<times> message \<times> clkstate)" where
  "do_setalarm caller m c =
     (let exp_time = m2_l1 m;
          tp = S_alarm_timer (p_priv (procs (ck c) caller))
      in if \<not> has (s_flags (priv_of (ck c) caller)) SYS_PROC then Inr (EPERM, m, c)
         else
           let c = upd_tmr tp (\<lambda>t. t\<lparr>ta_int := p_endpoint (procs (ck c) caller), tmr_func := Some Cause_alarm\<rparr>) c;
               now = get_uptime c;
               old = tmr_exp_time (timers c tp);
               m = m\<lparr>m2_l1 := (if old \<noteq> TMR_NEVER \<and> sint now < sint old then old - now else 0)\<rparr>
           in bnd (if exp_time = 0 then reset_timer tp c
                   else let e = (if m2_i2 m \<noteq> 0 then exp_time else exp_time + get_uptime c);
                            c = upd_tmr tp (\<lambda>t. t\<lparr>tmr_exp_time := e\<rparr>) c
                        in set_timer tp e (tmr_func (timers c tp)) c)
                (\<lambda>c. Inr (OK, m, c)))"

section \<open>Virtual timers\<close>

definition vt_flag :: "int \<Rightarrow> u32" where
  "vt_flag which = (if which = VT_VIRTUAL then MF_VIRT_TIMER else MF_PROF_TIMER)"

definition vt_left :: "int \<Rightarrow> proc_times \<Rightarrow> u32" where
  "vt_left which t = (if which = VT_VIRTUAL then p_virt_left t else p_prof_left t)"

definition set_vt_left :: "int \<Rightarrow> u32 \<Rightarrow> proc_times \<Rightarrow> proc_times" where
  "set_vt_left which v t = (if which = VT_VIRTUAL then t\<lparr>p_virt_left := v\<rparr> else t\<lparr>p_prof_left := v\<rparr>)"

definition do_vtimer :: "int \<Rightarrow> message \<Rightarrow> clkstate \<Rightarrow> int \<times> message \<times> clkstate" where
  "do_vtimer caller m c =
     (if \<not> has (s_flags (priv_of (ck c) caller)) SYS_PROC then (EPERM, m, c)
      else if m2_i1 m \<noteq> VT_VIRTUAL \<and> m2_i1 m \<noteq> VT_PROF then (EINVAL, m, c)
      else (case isokendpt (if sint (m2_l2 m) = SELF then p_endpoint (procs (ck c) caller) else sint (m2_l2 m)) (ck c) of
              None \<Rightarrow> (EINVAL, m, c)
            | Some rp \<Rightarrow>
                let flag = vt_flag (m2_i1 m);
                    old = (if misc_is (ck c) rp flag \<and> 0 \<le> sint (vt_left (m2_i1 m) (p_times c rp))
                           then vt_left (m2_i1 m) (p_times c rp) else 0);
                    c = (if m2_i2 m = 0 then c
                         else let c = c\<lparr>ck := clr_misc rp flag (ck c)\<rparr>
                              in if 0 < sint (m2_l1 m)
                                 then (upd_times rp (set_vt_left (m2_i1 m) (m2_l1 m)) c)\<lparr>ck := set_misc rp flag (ck c)\<rparr>
                                 else upd_times rp (set_vt_left (m2_i1 m) 0) c)
                in (OK, m\<lparr>m2_l1 := old\<rparr>, c)))"

text \<open>One of the two timers of a process has run out: a process in the middle of an element gets its signal later.\<close>

definition vt_expired :: "int \<Rightarrow> int \<Rightarrow> int \<Rightarrow> clkstate \<Rightarrow> stop + clkstate" where
  "vt_expired which sig rp c =
     (if misc_is (ck c) rp (vt_flag which) \<and> sint (vt_left which (p_times c rp)) \<le> 0
      then let c = upd_times rp (set_vt_left which 0) (c\<lparr>ck := clr_misc rp (vt_flag which) (ck c)\<rparr>)
           in if h_enable (ck c) \<noteq> 0 \<and> h_proc_nr (ck c) = p_nr (procs (ck c) rp)
              then Inr (c\<lparr>ck := upd_proc rp (\<lambda>q. q\<lparr>p_sig_delay := sig\<rparr>) (ck c)\<rparr>)
              else in_kernel (cause_sig (p_nr (procs (ck c) rp)) sig) c
      else Inr c)"

definition vtimer_check :: "int \<Rightarrow> clkstate \<Rightarrow> stop + clkstate" where
  "vtimer_check rp c = bnd (vt_expired VT_VIRTUAL SIGVTALRM rp c) (vt_expired VT_PROF SIGPROF rp)"

section \<open>The clock interrupt\<close>

definition count_ready :: "kstate \<Rightarrow> stop + nat" where
  "count_ready s =
     for_each (\<lambda>q n. bnd (for_chain (\<lambda>_ p. p_nextready (p_sched (procs s p)))
                            (\<lambda>p n. Inr (None :: unit option, Suc n)) (run_q_head s q) n) (\<lambda>(_, n). Inr n))
       [0 .. NR_SCHED_QUEUES - 1] 0"

definition load_slot :: "clkstate \<Rightarrow> nat" where
  "load_slot c = nat ((uint (get_uptime c) div uint (system_hz c) div LOAD_UNIT_SECS) mod LOAD_HISTORY)"

definition load_update :: "clkstate \<Rightarrow> stop + clkstate" where
  "load_update c =
     (let slot = load_slot c;
          c = (if of_nat slot \<noteq> proc_last_slot c
               then c\<lparr>proc_load_history := (proc_load_history c)(slot := 0), proc_last_slot := of_nat slot\<rparr> else c)
      in bnd (count_ready (ck c)) (\<lambda>enqueued.
           Inr (c\<lparr>proc_load_history := (proc_load_history c)(slot := proc_load_history c slot + of_nat enqueued),
                  last_clock := get_uptime c\<rparr>)))"

text \<open>The hardening's part of the tick: when a fault may be injected again.\<close>

definition allow_injection :: "clkstate \<Rightarrow> clkstate" where
  "allow_injection c =
     (if h_inject_fault (ck c) \<noteq> 0 \<and> could_inject (ck c) = H_NO
      then let c = (if H_PERIOD_TO_INJECT \<le> id_current_pe (ck c) - id_last_inject_pe c
                    then c\<lparr>ck := (ck c)\<lparr>could_inject := H_YES\<rparr>, id_last_inject_pe := id_current_pe (ck c)\<rparr> else c)
           in if H_THRESHOLD_PE \<le> id_current_pe (ck c)
              then c\<lparr>ck := (ck c)\<lparr>id_current_pe := 0\<rparr>, id_last_inject_pe := 0\<rparr> else c
      else c)"

definition charge :: "int \<Rightarrow> int option \<Rightarrow> clkstate \<Rightarrow> stop + clkstate" where
  "charge p billp c =
     (let billable = has (s_flags (priv_of (ck c) p)) BILLABLE;
          c = upd_times p (\<lambda>t. t\<lparr>p_user_time := p_user_time t + 1\<rparr>)
                (c\<lparr>ck := upd_proc p (\<lambda>q. q\<lparr>p_stats := (p_stats q)\<lparr>p_ticks := p_ticks (p_stats q) + 1\<rparr>\<rparr>) (ck c)\<rparr>)
      in bnd (if billable then Inr c
              else case billp of None \<Rightarrow> Inl NullDeref
                   | Some b \<Rightarrow> Inr (upd_times b (\<lambda>t. t\<lparr>p_sys_time := p_sys_time t + 1\<rparr>) c)) (\<lambda>c.
           let c = (if misc_is (ck c) p MF_VIRT_TIMER then upd_times p (\<lambda>t. t\<lparr>p_virt_left := p_virt_left t - 1\<rparr>) c else c);
               c = (if misc_is (ck c) p MF_PROF_TIMER then upd_times p (\<lambda>t. t\<lparr>p_prof_left := p_prof_left t - 1\<rparr>) c else c)
           in if billable then Inr c
              else case billp of None \<Rightarrow> Inl NullDeref
                   | Some b \<Rightarrow> Inr (if misc_is (ck c) b MF_PROF_TIMER
                                   then upd_times b (\<lambda>t. t\<lparr>p_prof_left := p_prof_left t - 1\<rparr>) c else c)))"

definition run_timers :: "clkstate \<Rightarrow> stop + clkstate" where
  "run_timers c =
     (if sint (next_timeout c) \<le> sint (get_uptime c)
      then bnd (tmrs_exptimers run_watchdog (get_uptime c) c) (\<lambda>(_, c). Inr (c\<lparr>next_timeout := front_or_never c\<rparr>))
      else Inr c)"

definition timer_int_handler :: "clkstate \<Rightarrow> stop + clkstate" where
  "timer_int_handler c =
     (let c = c\<lparr>ck := (ck c)\<lparr>uptime := uptime (ck c) + 1\<rparr>\<rparr>;
          p = proc_ptr (ck c);
          billp = bill_ptr (ck c)
      in bnd (charge p billp c) (\<lambda>c.
         bnd (vtimer_check p c) (\<lambda>c.
         bnd (if billp = Some p then Inr c
              else case billp of None \<Rightarrow> Inl NullDeref | Some b \<Rightarrow> vtimer_check b c) (\<lambda>c.
         bnd (load_update c) (\<lambda>c.
         bnd (run_timers c) (\<lambda>c. Inr (allow_injection c)))))))"

section \<open>Accounting\<close>

text \<open>The fields of the message of \<open>SYS_TIMES\<close>.\<close>

record times_msg =
  m4_l1 :: u32
  m4_l2 :: u32
  m4_l3 :: u32
  m4_l5 :: u32

definition do_times :: "int \<Rightarrow> times_msg \<Rightarrow> clkstate \<Rightarrow> int \<times> times_msg" where
  "do_times caller m c =
     (let e = (if sint (m4_l1 m) = SELF then p_endpoint (procs (ck c) caller) else sint (m4_l1 m));
          m = (case (if e = NONE then None else isokendpt e (ck c)) of
                 None \<Rightarrow> m
               | Some p \<Rightarrow> m\<lparr>m4_l1 := p_user_time (p_times c p), m4_l2 := p_sys_time (p_times c p)\<rparr>)
      in (OK, m\<lparr>m4_l5 := get_uptime c, m4_l3 := boottime c\<rparr>))"

end
