(* ===== verification/Timer_Laws.thy ===== *)
theory Timer_Laws
  imports Timers "HOL-Library.Multiset"
begin

text \<open>
  What the timer library guarantees: each operation on the linked queue is the corresponding operation on the list of
  active timers, and the list stays sorted.
\<close>

section \<open>Links\<close>

interpretation tq: slot_table timers upd_tmr tmr_next "\<lambda>q t. t\<lparr>tmr_next := q\<rparr>"
  by unfold_locales (simp_all add: upd_tmr_def)

lemma find_link_chain:
  assumes "chain nx q as"
  shows "find_link nx P q =
    Inr (let ds = takeWhile (\<lambda>a. \<not> P a) as in (if ds = [] then None else Some (last ds)),
         case dropWhile (\<lambda>a. \<not> P a) as of [] \<Rightarrow> None | a # _ \<Rightarrow> Some a)"
proof -
  let ?f = "\<lambda>a prev. Inr (if P a then (Some a, prev) else (None, Some a)) :: stop + (_ option \<times> _)"
  have "for_chain (\<lambda>_. nx) ?f q prev =
    Inr (case dropWhile (\<lambda>a. \<not> P a) as of [] \<Rightarrow> None | a # _ \<Rightarrow> Some a,
         let ds = takeWhile (\<lambda>a. \<not> P a) as in if ds = [] then prev else Some (last ds))" for prev
    using assms by (induction as arbitrary: q prev) (auto simp: for_chain_Some Let_def)
  then show ?thesis by (simp add: find_link_def Let_def)
qed

lemma chain_rest: "chain nx p (ds @ es) \<Longrightarrow> chain nx (case es of [] \<Rightarrow> None | e # _ \<Rightarrow> Some e) es"
  by (induction ds arbitrary: p) (auto split: list.splits)

text \<open>Writing the link behind \<open>ds\<close> puts another list there.\<close>

lemma chain_splice:
  assumes "chain nx p (ds @ es)" "chain nx q zs" "distinct (ds @ zs)" "ds \<noteq> []"
  shows "chain (nx(last ds := q)) p (ds @ zs)"
  using assms
proof (induction ds arbitrary: p)
  case Nil
  then show ?case by simp
next
  case (Cons a ds)
  show ?case
  proof (cases "ds = []")
    case True
    with Cons.prems show ?thesis by (simp del: fun_upd_apply add: fun_upd_same)
  next
    case False
    then have "last ds \<noteq> a" using Cons.prems(3) last_in_set by fastforce
    then show ?thesis using Cons.IH [of "nx a"] Cons.prems False by (simp del: fun_upd_apply add: fun_upd_other)
  qed
qed

section \<open>The list of a queue\<close>

text \<open>\<open>holds s as\<close>: following the links from the head visits exactly the timers \<open>as\<close>.\<close>

definition holds :: "'a timerq_scheme \<Rightarrow> timer_ref list \<Rightarrow> bool" where
  "holds s as \<longleftrightarrow> chain (tnext s) (tmrs s) as"

definition in_order :: "'a timerq_scheme \<Rightarrow> timer_ref list \<Rightarrow> bool" where
  "in_order s as \<longleftrightarrow> sorted (map (expiry s) as)"

text \<open>Two states that differ in the links of their timers only.\<close>

definition same_timers :: "timer_ref set \<Rightarrow> 'a timerq_scheme \<Rightarrow> 'a timerq_scheme \<Rightarrow> bool" where
  "same_timers A s t \<longleftrightarrow> timerq.more t = timerq.more s \<and>
     (\<forall>a. a \<notin> A \<longrightarrow> tmr_exp_time (timers t a) = tmr_exp_time (timers s a) \<and>
        tmr_func (timers t a) = tmr_func (timers s a) \<and> ta_int (timers t a) = ta_int (timers s a))"

lemma same_timers_trans: "same_timers A s t \<Longrightarrow> same_timers A t u \<Longrightarrow> same_timers A s u"
  by (simp add: same_timers_def)

lemma same_timers_expiry: "same_timers A s t \<Longrightarrow> a \<notin> A \<Longrightarrow> expiry t a = expiry s a"
  by (simp add: same_timers_def expiry_def)

lemma tnext_writes:
  "tnext (write_link atp v s) = (case atp of None \<Rightarrow> tnext s | Some b \<Rightarrow> (tnext s)(b := v))"
  "tmrs (write_link atp v s) = (case atp of None \<Rightarrow> v | Some b \<Rightarrow> tmrs s)"
  "tmrs (upd_tmr a f s) = tmrs s"
  "tnext (upd_tmr a (\<lambda>t. t\<lparr>tmr_next := r\<rparr>) s) = (tnext s)(a := r)"
  by (auto simp: write_link_def tnext_def upd_tmr_def fun_eq_iff split: option.splits)

lemma tnext_keep: "(\<And>t. tmr_next (f t) = tmr_next t) \<Longrightarrow> tnext (upd_tmr a f s) = tnext s"
  by (auto simp: tnext_def upd_tmr_def fun_eq_iff)

lemma same_timers_writes:
  "same_timers A s (write_link atp v s)" "same_timers A s (upd_tmr b (\<lambda>t. t\<lparr>tmr_next := r\<rparr>) s)"
  "a \<in> A \<Longrightarrow> same_timers A s (upd_tmr a f s)"
  by (auto simp: same_timers_def write_link_def upd_tmr_def split: option.splits)

lemma holds_write:
  assumes "holds s (ds @ es)" "chain (tnext s) q zs" "distinct (ds @ zs)"
  shows "holds (write_link (if ds = [] then None else Some (last ds)) q s) (ds @ zs)"
  using assms chain_splice [of "tnext s" "tmrs s" ds es q zs] by (auto simp: holds_def tnext_writes)

lemma holds_distinct: "holds s as \<Longrightarrow> distinct as"
  unfolding holds_def by (rule chain_distinct)

lemma head_time_holds: "holds s as \<Longrightarrow> head_time s = (case as of [] \<Rightarrow> 0 | a # _ \<Rightarrow> tmr_exp_time (timers s a))"
  by (cases as) (auto simp: holds_def head_time_def)

lemma takeWhile_other: "a \<notin> set xs \<Longrightarrow> takeWhile (\<lambda>x. x \<noteq> a) (xs @ a # ys) = xs"
  by (induction xs) auto

lemma dropWhile_other: "a \<notin> set xs \<Longrightarrow> dropWhile (\<lambda>x. x \<noteq> a) (xs @ a # ys) = a # ys"
  by (induction xs) auto

section \<open>Removing a timer\<close>

lemma clrtimer_list:
  assumes h: "holds s as"
  obtains t where "tmrs_clrtimer tp s = Inr (head_time s, head_time t, t)" "holds t (filter (\<lambda>a. a \<noteq> tp) as)"
    "same_timers {tp} s t" "tmr_exp_time (timers t tp) = TMR_NEVER" "tmr_func (timers t tp) = tmr_func (timers s tp)"
    "ta_int (timers t tp) = ta_int (timers s tp)"
proof -
  let ?s = "upd_tmr tp (\<lambda>t. t\<lparr>tmr_exp_time := TMR_NEVER\<rparr>) s"
  have n: "tnext ?s = tnext s" by (rule tnext_keep) simp
  have c: "chain (tnext ?s) (tmrs ?s) as" using h n by (simp add: holds_def tnext_writes)
  have e: "tmr_exp_time (timers ?s tp) = TMR_NEVER" "tmr_func (timers ?s tp) = tmr_func (timers s tp)"
    "ta_int (timers ?s tp) = ta_int (timers s tp)" "same_timers {tp} s ?s"
    using same_timers_writes(3) by (auto simp: upd_tmr_def)
  show thesis
  proof (cases "tp \<in> set as")
    case False
    then have d: "dropWhile (\<lambda>a. \<not> a = tp) as = []" "filter (\<lambda>a. a \<noteq> tp) as = as"
      by (auto simp: dropWhile_eq_Nil_conv intro!: filter_True)
    obtain atp where "find_link (tnext ?s) (\<lambda>a. a = tp) (tmrs ?s) = Inr (atp, None)"
      using find_link_chain [OF c, of "\<lambda>a. a = tp"] by (simp only: d(1) list.case)
    then show thesis using that [of ?s] c e d(2) by (simp add: tmrs_clrtimer_def holds_def Let_def)
  next
    case True
    then obtain ds es where as: "as = ds @ tp # es" by (meson split_list)
    have d: "distinct as" using c by (rule chain_distinct)
    let ?t = "write_link (if ds = [] then None else Some (last ds)) (tnext ?s tp) ?s"
    have f: "filter (\<lambda>a. a \<noteq> tp) as = ds @ es" using d as filter_True [of ds "\<lambda>a. a \<noteq> tp"] filter_True [of es "\<lambda>a. a \<noteq> tp"] by fastforce
    have "chain (tnext ?s) (Some tp) (tp # es)" using chain_drop [of _ _ ds tp es] c as by simp
    then have "chain (tnext ?s) (tnext ?s tp) es" by simp
    then have "holds ?t (ds @ es)" using holds_write [of ?s ds "tp # es"] c as d by (simp add: holds_def)
    moreover have "same_timers {tp} s ?t" using e(4) same_timers_writes(1) by (rule same_timers_trans)
    moreover have "tmrs_clrtimer tp s = Inr (head_time s, head_time ?t, ?t)"
      using find_link_chain [OF c, of "\<lambda>a. a = tp"] d as
      by (simp add: tmrs_clrtimer_def Let_def takeWhile_other dropWhile_other)
    moreover have "same_timers {} ?s ?t" by (rule same_timers_writes)
    ultimately show thesis using that [of ?t] e f by (simp add: same_timers_def)
  qed
qed

section \<open>Setting a timer\<close>

lemma expiry_upd: "expiry (upd_tmr a f s) b = (if b = a then sint (tmr_exp_time (f (timers s a))) else expiry s b)"
  by (simp add: expiry_def upd_tmr_def)

text \<open>In a sorted list, the place behind everything not later is the place of a stable sort.\<close>

lemma sort_key_snoc:
  assumes "sorted (map f xs)"
  shows "sort_key f (xs @ [x]) = takeWhile (\<lambda>a. f a \<le> f x) xs @ x # dropWhile (\<lambda>a. f a \<le> f x) xs"
proof -
  let ?P = "\<lambda>a. f a \<le> f x"
  have s: "sorted (map f (takeWhile ?P xs) @ map f (dropWhile ?P xs))"
    using assms by (metis map_append takeWhile_dropWhile_id)
  have l: "f x < f a" if "a \<in> set (dropWhile ?P xs)" for a
  proof -
    obtain d ds where dw: "dropWhile ?P xs = d # ds" using \<open>a \<in> set (dropWhile ?P xs)\<close> by (cases "dropWhile ?P xs") auto
    then have "\<not> ?P d" by (metis hd_dropWhile list.distinct(1) list.sel(1))
    moreover have "f d \<le> f a" using s that dw by (auto simp: sorted_append)
    ultimately show ?thesis by simp
  qed
  have m: "takeWhile ?P xs @ dropWhile ?P xs = xs" by simp
  show ?thesis
  proof (rule properties_for_sort_key)
    show "mset (takeWhile ?P xs @ x # dropWhile ?P xs) = mset (xs @ [x])"
      using arg_cong [OF m, of mset] by (simp del: takeWhile_dropWhile_id)
    show "filter (\<lambda>y. f k = f y) (takeWhile ?P xs @ x # dropWhile ?P xs) = filter (\<lambda>y. f k = f y) (xs @ [x])" for k
    proof (cases "f k = f x")
      case True
      then have "filter (\<lambda>y. f k = f y) (dropWhile ?P xs) = []" using l by (force simp: filter_empty_conv)
      then show ?thesis using True arg_cong [OF m, of "filter (\<lambda>y. f k = f y)"] by (simp del: takeWhile_dropWhile_id)
    next
      case False
      then show ?thesis using arg_cong [OF m, of "filter (\<lambda>y. f k = f y)"] by (simp del: takeWhile_dropWhile_id)
    qed
    show "sorted (map f (takeWhile ?P xs @ x # dropWhile ?P xs))"
      using s l by (auto simp: sorted_append less_imp_le dest: set_takeWhileD)
  qed
qed

text \<open>The list of active timers after \<open>tp\<close> is set to the time \<open>e\<close>, in terms of the times \<open>f\<close> then valid.\<close>

definition set_spec :: "(timer_ref \<Rightarrow> int) \<Rightarrow> timer_ref \<Rightarrow> timer_ref list \<Rightarrow> timer_ref list" where
  "set_spec f tp as = sort_key f (filter (\<lambda>a. a \<noteq> tp) as @ [tp])"

lemma settimer_list:
  assumes h: "holds s as" and o: "in_order s (filter (\<lambda>a. a \<noteq> tp) as)"
  obtains t where "tmrs_settimer tp e w s = Inr (head_time s, head_time t, t)"
    "holds t (set_spec (expiry t) tp as)" "same_timers {tp} s t"
    "tmr_exp_time (timers t tp) = e" "tmr_func (timers t tp) = w" "ta_int (timers t tp) = ta_int (timers s tp)"
proof -
  let ?as = "filter (\<lambda>a. a \<noteq> tp) as"
  obtain t where t: "tmrs_clrtimer tp s = Inr (head_time s, head_time t, t)" "holds t ?as" "same_timers {tp} s t"
    "ta_int (timers t tp) = ta_int (timers s tp)" using clrtimer_list [OF h] by metis
  let ?u = "upd_tmr tp (\<lambda>t. t\<lparr>tmr_exp_time := e, tmr_func := w\<rparr>) t"
  have n: "tnext ?u = tnext t" by (rule tnext_keep) simp
  have c: "chain (tnext ?u) (tmrs ?u) ?as" using t(2) n by (simp add: holds_def tnext_writes)
  have d: "distinct ?as" using c by (rule chain_distinct)
  let ?P = "\<lambda>a. \<not> sint e < expiry ?u a"
  define ds es where "ds = takeWhile ?P ?as" and "es = dropWhile ?P ?as"
  have as: "?as = ds @ es" by (simp add: ds_def es_def)
  define r where "r = (case es of [] \<Rightarrow> None | a # _ \<Rightarrow> Some a)"
  define atp where "atp = (if ds = [] then None else Some (last ds))"
  have fl: "find_link (tnext ?u) (\<lambda>a. sint e < expiry ?u a) (tmrs ?u) = Inr (atp, r)"
    using find_link_chain [OF c, of "\<lambda>a. sint e < expiry ?u a"]
    by (simp only: atp_def r_def flip: ds_def es_def) (simp add: Let_def)
  let ?v = "upd_tmr tp (\<lambda>t. t\<lparr>tmr_next := r\<rparr>) ?u"
  let ?w = "write_link atp (Some tp) ?v"
  have tp: "tp \<notin> set ds" "tp \<notin> set es" using arg_cong [OF as, of set] by auto
  have vn: "tnext ?v = (tnext ?u)(tp := r)" by (rule tnext_writes)
  have "chain (tnext ?u) r es" unfolding r_def by (rule chain_rest) (use c as in simp)
  then have z: "chain (tnext ?v) (Some tp) (tp # es)" using tp vn by (simp del: fun_upd_apply add: fun_upd_same)
  have "holds ?v (ds @ es)" using c as tp vn by (simp add: holds_def tnext_writes)
  then have hw: "holds ?w (ds @ tp # es)"
    unfolding atp_def by (rule holds_write [OF _ z]) (use d tp in \<open>simp add: as\<close>)
  have sw: "same_timers {} ?u ?w" by (rule same_timers_trans [OF same_timers_writes(2,1)])
  have ew: "expiry ?w a = expiry ?u a" for a using same_timers_expiry [OF sw] by simp
  have eu: "expiry ?u tp = sint e" by (simp add: expiry_upd)
  have es_s: "expiry ?u a = expiry s a" if "a \<noteq> tp" for a
    using that same_timers_expiry [OF t(3)] by (simp add: expiry_upd)
  have "sorted (map (expiry s) ?as)" using o by (simp add: in_order_def)
  moreover have "map (expiry ?w) ?as = map (expiry s) ?as" using ew es_s by simp
  ultimately have "set_spec (expiry ?w) tp as = takeWhile (\<lambda>a. expiry ?w a \<le> expiry ?w tp) ?as @ tp # dropWhile (\<lambda>a. expiry ?w a \<le> expiry ?w tp) ?as"
    unfolding set_spec_def by (intro sort_key_snoc) (simp only:)
  then have sp: "set_spec (expiry ?w) tp as = ds @ tp # es"
    by (simp add: ew eu ds_def es_def linorder_not_less)
  have su: "same_timers {tp} s ?u" using t(3) same_timers_writes(3) [of tp "{tp}"] same_timers_trans by blast
  have sw': "same_timers {tp} s ?w" using su sw by (simp add: same_timers_def)
  have "tmrs_settimer tp e w s = Inr (head_time s, head_time ?w, ?w)"
    using t(1) fl by (simp add: tmrs_settimer_def Let_def)
  moreover have "tmr_exp_time (timers ?w tp) = e" "tmr_func (timers ?w tp) = w" "ta_int (timers ?w tp) = ta_int (timers s tp)"
    using sw t(4) by (auto simp: same_timers_def upd_tmr_def)
  ultimately show thesis using that [of ?w] hw sp sw' by simp
qed

lemma set_spec_order: "sorted (map f (set_spec f tp as))"
  by (simp add: set_spec_def)

lemma set_spec_set [simp]: "set (set_spec f tp as) = insert tp (set as)"
  by (auto simp: set_spec_def)

text \<open>C22. Setting a timer is a stable sort. Whatever state the timer is in, the links afterwards reach exactly the list
  that sorting gives after the timer was taken out and put at the end with its new time -- so timers of equal time
  expire in the order in which they were set -- and no other timer, nor anything outside the queue, has changed.
\<close>

theorem settimer_is_stable_sort:
  assumes "holds s as" "in_order s as"
  shows "\<exists>t. tmrs_settimer tp e w s = Inr (head_time s, head_time t, t) \<and>
    holds t (sort_key (expiry t) (filter (\<lambda>a. a \<noteq> tp) as @ [tp])) \<and>
    tmr_exp_time (timers t tp) = e \<and> tmr_func (timers t tp) = w \<and>
    (\<forall>a. a \<noteq> tp \<longrightarrow> tmr_exp_time (timers t a) = tmr_exp_time (timers s a) \<and> tmr_func (timers t a) = tmr_func (timers s a) \<and>
       ta_int (timers t a) = ta_int (timers s a)) \<and> timerq.more t = timerq.more s"
proof -
  have "in_order s (filter (\<lambda>a. a \<noteq> tp) as)" using assms(2) sorted_filter by (auto simp: in_order_def)
  then obtain t where "tmrs_settimer tp e w s = Inr (head_time s, head_time t, t)"
    "holds t (set_spec (expiry t) tp as)" "same_timers {tp} s t" "tmr_exp_time (timers t tp) = e" "tmr_func (timers t tp) = w"
    using settimer_list [OF assms(1)] by blast
  then show ?thesis by (auto simp: set_spec_def same_timers_def)
qed

text \<open>Two alarms at 10 and 20; the first is set again, to 20.\<close>

definition two_timers :: timerq where
  "two_timers = \<lparr>timers = (\<lambda>a. \<lparr>tmr_next = (if a = S_alarm_timer 1 then Some (S_alarm_timer 2) else None),
       tmr_exp_time = (if a = S_alarm_timer 1 then 10 else 20), tmr_func = Some Cause_alarm, ta_int = 0\<rparr>), tmrs = Some (S_alarm_timer 1)\<rparr>"

theorem settimer_is_stable_sort_witness:
  "\<exists>t. tmrs_settimer (S_alarm_timer 1) 20 (Some Cause_alarm) two_timers = Inr (10, head_time t, t) \<and>
     holds t [S_alarm_timer 2, S_alarm_timer 1]"
proof -
  have h: "holds two_timers [S_alarm_timer 1, S_alarm_timer 2]" "in_order two_timers [S_alarm_timer 1, S_alarm_timer 2]"
    "head_time two_timers = 10" "tmr_exp_time (timers two_timers (S_alarm_timer 2)) = 20"
    by (simp_all add: two_timers_def holds_def tnext_def in_order_def expiry_def head_time_def)
  obtain t where t: "tmrs_settimer (S_alarm_timer 1) 20 (Some Cause_alarm) two_timers = Inr (10, head_time t, t)"
    "holds t (sort_key (expiry t) [S_alarm_timer 2, S_alarm_timer 1])" "tmr_exp_time (timers t (S_alarm_timer 1)) = 20"
    "tmr_exp_time (timers t (S_alarm_timer 2)) = 20"
    using settimer_is_stable_sort [OF h(1,2), of "S_alarm_timer 1" 20 "Some Cause_alarm"] h(3,4) by auto
  then have "sort_key (expiry t) [S_alarm_timer 2, S_alarm_timer 1] = [S_alarm_timer 2, S_alarm_timer 1]" by (simp add: expiry_def)
  then show ?thesis using t by auto
qed

section \<open>Running the expired timers\<close>

text \<open>Watchdogs that leave the queue alone, as those of the kernel do.\<close>

locale quiet_watchdogs =
  fixes call :: "watchdog \<Rightarrow> timer_ref \<Rightarrow> 'a timerq_scheme \<Rightarrow> stop + 'a timerq_scheme"
  assumes quiet: "call w tp s = Inr t \<Longrightarrow> timers t = timers s \<and> tmrs t = tmrs s"
begin

lemma call_quiet: "call_func call tp s = Inr t \<Longrightarrow> timers t = timers s \<and> tmrs t = tmrs s"
  using quiet by (auto simp: call_func_def split: option.splits)

lemma take_holds: "holds s (a # as) \<Longrightarrow> call_func call a (take_timer a s) = Inr t \<Longrightarrow> holds t as"
  using call_quiet [of a "take_timer a s" t]
  by (auto simp: holds_def take_timer_def tnext_def upd_tmr_def elim!: iffD1 [OF chain_cong_set, rotated])

lemma take_expiry:
  "call_func call a (take_timer a s) = Inr t \<Longrightarrow> b \<noteq> a \<Longrightarrow> timers t b = timers s b"
  using call_quiet [of a "take_timer a s" t] by (simp add: take_timer_def upd_tmr_def)

lemma take_self:
  "call_func call a (take_timer a s) = Inr t \<Longrightarrow> timers t a = (timers s a)\<lparr>tmr_exp_time := TMR_NEVER\<rparr>"
  using call_quiet [of a "take_timer a s" t] by (simp add: take_timer_def upd_tmr_def)

text \<open>The loop ends, and runs the watchdogs of the longest expired prefix of the list, in order.\<close>

lemma exptimers_prefix:
  assumes "holds s as"
  shows "tmrs_exptimers call now s =
    bnd (for_each (\<lambda>tp s. call_func call tp (take_timer tp s)) (takeWhile (\<lambda>a. expiry s a \<le> sint now) as) s)
      (\<lambda>t. Inr (head_time t, t))"
proof -
  have "exptimers_loop call now s =
    Some (for_each (\<lambda>tp s. call_func call tp (take_timer tp s)) (takeWhile (\<lambda>a. expiry s a \<le> sint now) as) s)"
    using assms
  proof (induction as arbitrary: s)
    case Nil
    then show ?case by (subst exptimers_loop.simps) (simp add: holds_def)
  next
    case (Cons a as)
    then have h: "tmrs s = Some a" by (simp add: holds_def)
    have d: "a \<notin> set as" using holds_distinct [OF Cons.prems] by simp
    show ?case
    proof (cases "expiry s a \<le> sint now")
      case False
      then show ?thesis using h by (subst exptimers_loop.simps) simp
    next
      case True
      show ?thesis
      proof (cases "call_func call a (take_timer a s)")
        case (Inl e)
        then show ?thesis using h True by (subst exptimers_loop.simps) simp
      next
        case (Inr t)
        have e: "expiry t b = expiry s b" if "b \<in> set as" for b
          using take_expiry [OF Inr, of b] that d unfolding expiry_def by metis
        have "takeWhile (\<lambda>a. expiry t a \<le> sint now) as = takeWhile (\<lambda>a. expiry s a \<le> sint now) as"
          by (rule takeWhile_cong) (use e in auto)
        then show ?thesis using Cons.IH [OF take_holds [OF Cons.prems Inr]] h True Inr
          by (subst exptimers_loop.simps) simp
      qed
    qed
  qed
  then show ?thesis by (simp add: tmrs_exptimers_def)
qed

text \<open>A round of watchdogs that return takes exactly these timers from the queue.\<close>

lemma round_takes:
  assumes "holds s (as @ bs)" "for_each (\<lambda>tp s. call_func call tp (take_timer tp s)) as s = Inr t"
  shows "holds t bs \<and> (\<forall>a. timers t a = (if a \<in> set as then (timers s a)\<lparr>tmr_exp_time := TMR_NEVER\<rparr> else timers s a))"
  using assms
proof (induction as arbitrary: s)
  case Nil
  then show ?case by simp
next
  case (Cons a as)
  then obtain u where u: "call_func call a (take_timer a s) = Inr u" "for_each (\<lambda>tp s. call_func call tp (take_timer tp s)) as u = Inr t"
    by (auto simp: bnd_eq_Inr)
  have "holds u (as @ bs)" using take_holds [OF _ u(1)] Cons.prems by simp
  then have "holds t bs \<and> (\<forall>a. timers t a = (if a \<in> set as then (timers u a)\<lparr>tmr_exp_time := TMR_NEVER\<rparr> else timers u a))"
    using Cons.IH u(2) by blast
  moreover have "a \<notin> set as" using holds_distinct [OF Cons.prems(1)] by simp
  ultimately show ?case using take_expiry [OF u(1)] take_self [OF u(1)] by (metis list.set_intros(1) set_ConsD list.set_intros(2))
qed

end

end
