(* ===== verification/Clock_Laws.thy ===== *)
theory Clock_Laws
  imports Clock Timer_Laws Kcall_Laws
begin

text \<open>
  What the clock guarantees: the queue of alarms stays a sorted list whose first entry is the next timeout, whatever
  the sequence of alarm calls and ticks; each alarm that is due reaches its process in the tick in which it falls due;
  and what the hardening does to the signals of virtual timers.
\<close>

section \<open>The notification of an alarm\<close>

text \<open>
  The state of the kernel in which a notification cannot fail: the ready lists are in order, a process that waits for
  a message has none ready to be copied out, and no virtual timer runs.
\<close>

definition deliver_ok :: "kstate \<Rightarrow> bool" where
  "deliver_ok s \<longleftrightarrow> (\<forall>d. RTS_ISSET (procs s d) RTS_RECEIVING \<longrightarrow> \<not> misc_is s d MF_DELIVERMSG)"

definition no_vtimers :: "kstate \<Rightarrow> bool" where
  "no_vtimers s \<longleftrightarrow> (\<forall>p. \<not> misc_is s p MF_VIRT_TIMER \<and> \<not> misc_is s p MF_PROF_TIMER)"

definition tick_ok :: "kstate \<Rightarrow> bool" where
  "tick_ok s \<longleftrightarrow> ready_inv s \<and> cur_ok s \<and> deliver_ok s \<and> no_vtimers s \<and> p_nr (procs s CLOCK) = CLOCK \<and>
     bill_ptr s \<noteq> None"

text \<open>The process has the notification of the clock: in its message, or as a pending bit.\<close>

definition told :: "kstate \<Rightarrow> int \<Rightarrow> bool" where
  "told s d \<longleftrightarrow>
     misc_is s d MF_DELIVERMSG \<and> m_type (p_delivermsg (p_msgs (procs s d))) = NOTIFY_MESSAGE \<and>
       m_source (p_delivermsg (p_msgs (procs s d))) = p_endpoint (procs s CLOCK) \<or>
     s_notify_pending (priv_of s d) (s_id (priv_of s CLOCK))"

text \<open>What a notification leaves alone.\<close>

definition same_clock :: "kstate \<Rightarrow> kstate \<Rightarrow> bool" where
  "same_clock s t \<longleftrightarrow> uptime t = uptime s \<and> bill_ptr t = bill_ptr s"

lemma same_clock_sched: "sched_only s t \<Longrightarrow> same_clock s t"
proof -
  assume "sched_only s t"
  then have e: "t\<lparr>procs := procs s, run_q_head := run_q_head s, run_q_tail := run_q_tail s, tsc_n := tsc_n s\<rparr> = s"
    by (simp add: sched_only_def)
  show ?thesis using arg_cong [OF e, of uptime] arg_cong [OF e, of bill_ptr]
    by (simp add: same_clock_def)
qed

lemma same_clock_unset:
  assumes "ready_inv s" "cur_ok s" "isokprocn p" "RTS_UNSET p f s = Inr t"
  shows "same_clock s t"
proof -
  let ?f = "clrf (p_rts_flags (procs s p)) f" let ?w = "\<not> proc_is_runnable (procs s p) \<and> ?f = 0"
  have "sched_only (if ?w then ready_flags p (with_flags p ?f s) else with_flags p ?f s) t"
    using RTS_UNSET_ok [of "ready_list s" s p f] assms by (auto simp: ready_inv_def)
  from same_clock_sched [OF this] show ?thesis
    by (auto simp: same_clock_def with_flags_def ready_flags_def upd_proc_def split: if_splits)
qed

lemma setf_preempted: "setf (f :: u32) RTS_PREEMPTED \<noteq> RTS_SLOT_FREE"
proof
  assume "setf f RTS_PREEMPTED = RTS_SLOT_FREE"
  then have "has (RTS_SLOT_FREE :: u32) RTS_PREEMPTED" using has_setf_same [of RTS_PREEMPTED f] by simp
  then show False by (simp add: has_def)
qed

lemma isokendpt_keep:
  assumes "isokendpt e s = Some d" "\<And>x. p_endpoint (procs t x) = p_endpoint (procs s x)"
    "p_rts_flags (procs t d) = p_rts_flags (procs s d) \<or> p_rts_flags (procs t d) = setf (p_rts_flags (procs s d)) RTS_PREEMPTED"
  shows "isokendpt e t = Some d"
  using assms setf_preempted by (auto simp: isokendpt_def Let_def isemptyn_def split: if_splits)

lemma receiving_preempted: "setf (f :: u32) RTS_PREEMPTED AND RTS_RECEIVING = f AND RTS_RECEIVING"
  by (simp add: setf_def bit.conj_disj_distrib2)

lemma receiving_cleared: "clrf (f :: u32) RTS_RECEIVING AND RTS_RECEIVING \<noteq> RTS_RECEIVING"
  using has_clrf_same [of f RTS_RECEIVING] by (auto simp: has_def)

text \<open>What the notifications of the endpoints \<open>E\<close> by the clock give.\<close>

definition notified :: "int set \<Rightarrow> kstate \<Rightarrow> kstate \<Rightarrow> bool" where
  "notified E s t \<longleftrightarrow> tick_ok t \<and> same_clock s t \<and> (\<forall>e \<in> E. \<forall>d. isokendpt e s = Some d \<longrightarrow> told t d) \<and>
     (\<forall>d. told s d \<longrightarrow> told t d) \<and> (\<forall>x d. isokendpt x s = Some d \<longrightarrow> isokendpt x t = Some d \<or> told t d)"

lemma notified_pending:
  assumes "tick_ok s" "isokendpt e s = Some d"
  shows "notified {e} s (upd_priv d (\<lambda>v. v\<lparr>s_notify_pending := (s_notify_pending v)(s_id (priv_of s CLOCK) := True)\<rparr>) s)"
    (is "notified {e} s ?t")
proof -
  have p: "procs ?t = procs s" by (simp add: upd_priv_def)
  have id: "s_id (priv_of ?t x) = s_id (priv_of s x)" for x by (auto simp: upd_priv_def priv_of_def)
  have nd: "s_notify_pending (priv_of s x) k \<Longrightarrow> s_notify_pending (priv_of ?t x) k"
    "s_notify_pending (priv_of ?t d) (s_id (priv_of s CLOCK))" for x k
    by (auto simp: upd_priv_def priv_of_def)
  have "same_sched s ?t" by (rule same_sched_priv) simp
  note v = same_sched_view [OF this]
  have "tick_ok ?t" using assms(1) v p by (simp add: tick_ok_def deliver_ok_def no_vtimers_def misc_is_def) (simp add: upd_priv_def)
  moreover have "same_clock s ?t" by (simp add: same_clock_def upd_priv_def)
  moreover have "isokendpt x ?t = isokendpt x s" for x by (simp add: isokendpt_def isemptyn_def p)
  moreover have "told ?t d" "told s x \<Longrightarrow> told ?t x" for x using nd p id by (auto simp: told_def misc_is_def)
  ultimately show ?thesis using assms(2) by (simp add: notified_def)
qed

lemma notified_delivered:
  assumes inv: "tick_ok s" and d: "isokendpt e s = Some d" and w: "WILLRECEIVE (procs s d) (p_endpoint (procs s CLOCK))"
    "\<not> misc_is s d MF_REPLY_PEND"
  shows "\<exists>t. mini_notify CLOCK e s = Inr (OK, t) \<and> notified {e} s t"
proof -
  have nd: "\<not> misc_is s d MF_DELIVERMSG" using inv w(1) by (auto simp: tick_ok_def deliver_ok_def WILLRECEIVE_def)
  have src: "p_nr (procs s CLOCK) = CLOCK" and inv': "ready_inv s" "cur_ok s" using inv by (simp_all add: tick_ok_def)
  define s1 where "s1 = BuildNotifyMessage (p_nr (procs s CLOCK)) d s"
  define s2 where "s2 = upd_msgs d (\<lambda>m. m\<lparr>p_delivermsg := (p_delivermsg m)\<lparr>m_source := p_endpoint (procs s1 CLOCK)\<rparr>\<rparr>) s1"
  define s3 where "s3 = IPC_STATUS_ADD_CALL d NOTIFY (set_misc d MF_DELIVERMSG s2)"
  have s1: "s1 = upd_msgs d (\<lambda>m. m\<lparr>p_delivermsg := (p_delivermsg m)\<lparr>m_type := NOTIFY_MESSAGE, NOTIFY_TIMESTAMP := uptime s\<rparr>\<rparr>) s"
    by (simp add: s1_def BuildNotifyMessage_def src Let_def)
  have ss: "same_sched s s3"
    unfolding s3_def s2_def s1 IPC_STATUS_ADD_CALL_def
    by (rule same_sched_trans [OF same_sched_writes(1) same_sched_trans [OF same_sched_writes(1) same_sched_trans [OF same_sched_writes(2,4)]]])
  note v = same_sched_view [OF ss]
  have p: "isokprocn d" using d by (auto simp: isokendpt_def Let_def split: if_splits)
  obtain t where t: "RTS_UNSET d RTS_RECEIVING s3 = Inr t" "ready_inv t" "cur_ok t"
    "\<And>x. p_msgs (procs t x) = p_msgs (procs s3 x) \<and> p_misc_flags (procs t x) = p_misc_flags (procs s3 x) \<and>
       p_reg (procs t x) = p_reg (procs s3 x) \<and> p_endpoint (procs t x) = p_endpoint (procs s3 x) \<and> p_nr (procs t x) = p_nr (procs s3 x)"
    "p_rts_flags (procs t d) = clrf (p_rts_flags (procs s3 d)) RTS_RECEIVING" "same_ids s3 t"
    "\<And>x. x \<noteq> d \<Longrightarrow> p_rts_flags (procs t x) = p_rts_flags (procs s3 x) \<or>
       x = proc_ptr s3 \<and> p_rts_flags (procs t x) = setf (p_rts_flags (procs s3 x)) RTS_PREEMPTED"
    using RTS_UNSET_frame [of s3 d RTS_RECEIVING] inv' p v by metis
  have r: "mini_notify CLOCK e s = Inr (OK, t)" using d w nd t(1)
    by (simp add: mini_notify_def Let_def s3_def s2_def s1_def kassert_def)
  have ids: "same_ids s s3" unfolding s3_def s2_def s1 IPC_STATUS_ADD_CALL_def
    by (rule same_ids_trans [OF same_ids_writes(1) same_ids_trans [OF same_ids_writes(1) same_ids_trans [OF same_ids_writes(2,4)]]])
  have pr: "priv_of t = priv_of s" using same_ids_priv [OF same_ids_trans [OF ids t(6)]] by blast
  have ep: "p_endpoint (procs t x) = p_endpoint (procs s x)" "p_nr (procs t x) = p_nr (procs s x)" for x
    using same_ids_trans [OF ids t(6)] by (auto simp: same_ids_def)
  have mf: "p_misc_flags (procs t x) = (if x = d then setf (p_misc_flags (procs s d)) MF_DELIVERMSG else p_misc_flags (procs s x))" for x
    using t(4) [of x] by (simp add: s3_def s2_def s1 IPC_STATUS_ADD_CALL_def IPC_STATUS_ADD_def set_misc_def upd_msgs_def)
  have ms: "x \<noteq> d \<Longrightarrow> p_msgs (procs t x) = p_msgs (procs s x)" "m_type (p_delivermsg (p_msgs (procs t d))) = NOTIFY_MESSAGE"
    "m_source (p_delivermsg (p_msgs (procs t d))) = p_endpoint (procs s CLOCK)" for x
    using t(4) [of x] t(4) [of d]
    by (simp_all add: s3_def s2_def s1 IPC_STATUS_ADD_CALL_def IPC_STATUS_ADD_def set_misc_def upd_msgs_def upd_proc_def)
  have rf: "x \<noteq> d \<Longrightarrow> p_rts_flags (procs t x) = p_rts_flags (procs s x) \<or> p_rts_flags (procs t x) = setf (p_rts_flags (procs s x)) RTS_PREEMPTED" for x
    using t(7) [of x] v(7) by auto
  have mi: "misc_is t x m \<longleftrightarrow> misc_is s x m" if "x = d \<longrightarrow> MF_DELIVERMSG AND m = 0" for x m
    using that mf [of x] has_setf_other by (auto simp: misc_is_def)
  have td: "told t d" using mf [of d] ms(2,3) ep by (simp add: told_def misc_is_def has_setf_same)
  have to: "told t x" if "told s x" for x
    using that td ms(1) [of x] mi [of x MF_DELIVERMSG] pr ep by (cases "x = d") (auto simp: told_def)
  have ie: "isokendpt x t = Some y \<or> told t y" if "isokendpt x s = Some y" for x y
    using isokendpt_keep [OF that ep(1) rf] td by blast
  have dl: "deliver_ok t"
    unfolding deliver_ok_def
  proof (intro allI impI)
    fix x assume x: "RTS_ISSET (procs t x) RTS_RECEIVING"
    then have "x \<noteq> d" using t(5) receiving_cleared by (auto simp: RTS_ISSET_def)
    moreover from this have "RTS_ISSET (procs s x) RTS_RECEIVING" using x rf [of x] receiving_preempted by (auto simp: RTS_ISSET_def)
    ultimately show "\<not> misc_is t x MF_DELIVERMSG" using inv mi [of x] by (simp add: tick_ok_def deliver_ok_def)
  qed
  have sc: "same_clock s t"
  proof -
    have "same_clock s3 t" by (rule same_clock_unset [OF _ _ p t(1)]) (use v inv' in simp_all)
    then show ?thesis by (simp add: same_clock_def s3_def s2_def s1 IPC_STATUS_ADD_CALL_def IPC_STATUS_ADD_def set_misc_def upd_msgs_def upd_proc_def)
  qed
  have "no_vtimers t" using inv mi by (simp add: tick_ok_def no_vtimers_def)
  then have "tick_ok t" using t(2,3) dl inv ep sc by (simp add: tick_ok_def same_clock_def)
  then show ?thesis using r td to ie sc d by (auto simp: notified_def)
qed

lemma notify_clock:
  assumes "tick_ok s"
  shows "\<exists>r t. mini_notify CLOCK e s = Inr (r, t) \<and> notified {e} s t"
proof (cases "isokendpt e s")
  case None
  then have "mini_notify CLOCK e s = Inr (EDEADSRCDST, s)" by (simp add: mini_notify_def)
  moreover have "notified {e} s s" using assms None by (simp add: notified_def same_clock_def)
  ultimately show ?thesis by blast
next
  case (Some d)
  show ?thesis
  proof (cases "WILLRECEIVE (procs s d) (p_endpoint (procs s CLOCK)) \<and> \<not> misc_is s d MF_REPLY_PEND")
    case True
    then show ?thesis using notified_delivered [OF assms Some] by blast
  next
    case False
    then show ?thesis using notified_pending [OF assms Some] Some by (auto simp: mini_notify_def)
  qed
qed

lemma notified_trans: "notified E s t \<Longrightarrow> notified F t u \<Longrightarrow> notified (E \<union> F) s u"
  unfolding notified_def same_clock_def by (metis Un_iff)

lemma notified_refl: "tick_ok s \<Longrightarrow> notified {} s s"
  by (simp add: notified_def same_clock_def)

section \<open>The round of the watchdogs\<close>

interpretation kw: quiet_watchdogs run_watchdog
proof
  fix w tp s t
  assume "run_watchdog w tp s = Inr t"
  then show "timers t = timers s \<and> tmrs t = tmrs s"
    by (cases w) (auto simp: run_watchdog_def cause_alarm_def minix_shutdown_def in_kernel_def bnd_eq_Inr)
qed

abbreviation watchdog_round :: "timer_ref list \<Rightarrow> clkstate \<Rightarrow> stop + clkstate" where
  "watchdog_round \<equiv> for_each (\<lambda>tp s. call_func run_watchdog tp (take_timer tp s))"

text \<open>The fields of the clock that no watchdog writes.\<close>

definition same_rest :: "clkstate \<Rightarrow> clkstate \<Rightarrow> bool" where
  "same_rest c d \<longleftrightarrow> next_timeout d = next_timeout c \<and> p_times d = p_times c \<and> proc_load_history d = proc_load_history c \<and>
     system_hz d = system_hz c"

lemma alarm_call:
  assumes "tick_ok (ck c)" "tmr_func (timers c a) = Some Cause_alarm"
  shows "\<exists>d. call_func run_watchdog a (take_timer a c) = Inr d \<and> notified {ta_int (timers c a)} (ck c) (ck d) \<and> same_rest c d"
proof -
  obtain r t where t: "mini_notify CLOCK (ta_int (timers c a)) (ck c) = Inr (r, t)" "notified {ta_int (timers c a)} (ck c) t"
    using notify_clock [OF assms(1)] by blast
  have "call_func run_watchdog a (take_timer a c) = Inr ((take_timer a c)\<lparr>ck := t\<rparr>)"
    using assms(2) t(1) by (simp add: call_func_def run_watchdog_def cause_alarm_def in_kernel_def take_timer_def upd_tmr_def)
  then show ?thesis using t(2) by (auto simp: same_rest_def take_timer_def upd_tmr_def)
qed

lemma round_notifies:
  assumes "tick_ok (ck c)" "\<forall>a \<in> set as. tmr_func (timers c a) = Some Cause_alarm" "distinct as"
  shows "\<exists>d. watchdog_round as c = Inr d \<and> notified ((\<lambda>a. ta_int (timers c a)) ` set as) (ck c) (ck d) \<and> same_rest c d"
  using assms
proof (induction as arbitrary: c)
  case Nil
  then show ?case by (simp add: notified_refl same_rest_def)
next
  case (Cons a as)
  then obtain d where d: "call_func run_watchdog a (take_timer a c) = Inr d" "notified {ta_int (timers c a)} (ck c) (ck d)" "same_rest c d"
    using alarm_call [of c a] by auto
  have same: "timers d b = timers c b" if "b \<in> set as" for b
    using kw.take_expiry [OF d(1)] that Cons.prems(3) by (metis distinct.simps(2))
  have "tick_ok (ck d)" using d(2) by (simp add: notified_def)
  then obtain f where f: "watchdog_round as d = Inr f" "notified ((\<lambda>a. ta_int (timers d a)) ` set as) (ck d) (ck f)" "same_rest d f"
    using Cons.IH [of d] Cons.prems same by auto
  have "(\<lambda>a. ta_int (timers d a)) ` set as = (\<lambda>a. ta_int (timers c a)) ` set as" using same by simp
  then have "notified ((\<lambda>a. ta_int (timers c a)) ` set (a # as)) (ck c) (ck f)"
    using notified_trans [OF d(2) f(2)] by simp
  then show ?case using d f by (auto simp: same_rest_def)
qed

section \<open>The queue of the clock\<close>

lemma tnext_timeout [simp]: "tnext (c\<lparr>next_timeout := n\<rparr>) = tnext c" "expiry (c\<lparr>next_timeout := n\<rparr>) = expiry c"
  by (simp_all add: tnext_def expiry_def fun_eq_iff)

definition alarm_queue :: "clkstate \<Rightarrow> timer_ref list" where
  "alarm_queue c = slots_of (tnext c) (tmrs c)"

text \<open>
  The queue is a sorted list of alarm timers, the next timeout is its first time, and an alarm timer that is not in it
  says so in its own time.
\<close>

definition clock_inv :: "clkstate \<Rightarrow> bool" where
  "clock_inv c \<longleftrightarrow> (let as = alarm_queue c in holds c as \<and> in_order c as \<and>
     (as \<noteq> [] \<longrightarrow> next_timeout c = tmr_exp_time (timers c (hd as))) \<and>
     (\<forall>a \<in> set as. a \<noteq> Shutdown_timer \<and> tmr_func (timers c a) = Some Cause_alarm) \<and>
     (\<forall>i < NR_SYS_PROCS. S_alarm_timer i \<notin> set as \<longrightarrow> tmr_exp_time (timers c (S_alarm_timer i)) = TMR_NEVER))"

lemma alarm_queue_holds: "holds c as \<Longrightarrow> alarm_queue c = as"
  by (simp add: alarm_queue_def holds_def slots_of_chain)

lemma clock_invI:
  assumes "holds c as" "in_order c as" "as \<noteq> [] \<Longrightarrow> next_timeout c = tmr_exp_time (timers c (hd as))"
    "\<And>a. a \<in> set as \<Longrightarrow> a \<noteq> Shutdown_timer \<and> tmr_func (timers c a) = Some Cause_alarm"
    "\<And>i. i < NR_SYS_PROCS \<Longrightarrow> S_alarm_timer i \<notin> set as \<Longrightarrow> tmr_exp_time (timers c (S_alarm_timer i)) = TMR_NEVER"
  shows "clock_inv c"
  using assms by (simp add: clock_inv_def alarm_queue_holds)

lemma clock_invD:
  assumes "clock_inv c"
  shows "holds c (alarm_queue c)" "in_order c (alarm_queue c)"
    "alarm_queue c \<noteq> [] \<Longrightarrow> next_timeout c = tmr_exp_time (timers c (hd (alarm_queue c)))"
    "a \<in> set (alarm_queue c) \<Longrightarrow> a \<noteq> Shutdown_timer" "a \<in> set (alarm_queue c) \<Longrightarrow> tmr_func (timers c a) = Some Cause_alarm"
    "i < NR_SYS_PROCS \<Longrightarrow> S_alarm_timer i \<notin> set (alarm_queue c) \<Longrightarrow> tmr_exp_time (timers c (S_alarm_timer i)) = TMR_NEVER"
  using assms by (auto simp: clock_inv_def Let_def)

text \<open>Only the queue, its timers and the next timeout matter.\<close>

lemma clock_inv_cong:
  assumes "timers d = timers c" "tmrs d = tmrs c" "next_timeout d = next_timeout c"
  shows "clock_inv d = clock_inv c" "alarm_queue d = alarm_queue c"
proof -
  have "tnext d = tnext c" "expiry d = expiry c" using assms(1) by (auto simp: tnext_def expiry_def)
  then show "clock_inv d = clock_inv c" "alarm_queue d = alarm_queue c"
    using assms by (simp_all add: clock_inv_def alarm_queue_def holds_def in_order_def)
qed

lemma takeWhile_sorted:
  assumes "sorted (map f as)"
  shows "takeWhile (\<lambda>a. f a \<le> x) as = filter (\<lambda>a. f a \<le> x) as" "dropWhile (\<lambda>a. f a \<le> x) as = filter (\<lambda>a. x < f a) as"
proof -
  have "takeWhile (\<lambda>a. f a \<le> x) as = filter (\<lambda>a. f a \<le> x) as \<and> dropWhile (\<lambda>a. f a \<le> x) as = filter (\<lambda>a. x < f a) as"
    using assms
  proof (induction as)
    case Nil
    then show ?case by simp
  next
    case (Cons a as)
    show ?case
    proof (cases "f a \<le> x")
      case True
      then show ?thesis using Cons by simp
    next
      case False
      then have "\<forall>b \<in> set as. x < f b" using Cons.prems by fastforce
      then have "filter (\<lambda>a. f a \<le> x) as = []" "filter (\<lambda>a. x < f a) as = as"
        by (auto simp: filter_empty_conv filter_id_conv not_le)
      then show ?thesis using False by auto
    qed
  qed
  then show "takeWhile (\<lambda>a. f a \<le> x) as = filter (\<lambda>a. f a \<le> x) as" "dropWhile (\<lambda>a. f a \<le> x) as = filter (\<lambda>a. x < f a) as"
    by simp_all
qed

text \<open>The timer part of a tick.\<close>

lemma run_timers_effect:
  assumes inv: "clock_inv c" and k: "tick_ok (ck c)"
  defines "due \<equiv> \<lambda>a. expiry c a \<le> sint (uptime (ck c))"
  obtains d where "run_timers c = Inr d" "clock_inv d" "alarm_queue d = filter (\<lambda>a. \<not> due a) (alarm_queue c)"
    "notified ((\<lambda>a. ta_int (timers c a)) ` {a \<in> set (alarm_queue c). due a}) (ck c) (ck d)"
    "\<And>a. a \<in> set (alarm_queue c) \<Longrightarrow> due a \<Longrightarrow> tmr_exp_time (timers d a) = TMR_NEVER"
    "\<And>a. a \<notin> set (alarm_queue c) \<or> \<not> due a \<Longrightarrow> timers d a = timers c a"
proof -
  let ?as = "alarm_queue c" let ?n = "sint (uptime (ck c))"
  note i = clock_invD [OF inv]
  have so: "sorted (map (expiry c) ?as)" using i(2) by (simp add: in_order_def)
  let ?es = "takeWhile due ?as" and ?bs = "dropWhile due ?as"
  have es: "?es = filter due ?as" "?bs = filter (\<lambda>a. \<not> due a) ?as"
    using takeWhile_sorted [OF so, of ?n] by (simp_all add: due_def not_le)
  have di: "distinct ?as" using holds_distinct [OF i(1)] .
  show thesis
  proof (cases "sint (next_timeout c) \<le> ?n")
    case False
    have nd: "\<not> due a" if x: "a \<in> set ?as" for a
    proof -
      obtain h hs where h: "?as = h # hs" using x by (cases ?as) auto
      then have "expiry c h \<le> expiry c a" using so that by auto
      then show ?thesis using i(3) h False by (auto simp: due_def expiry_def)
    qed
    have "run_timers c = Inr c" using False by (simp add: run_timers_def get_uptime_def)
    moreover have f: "filter (\<lambda>a. \<not> due a) ?as = ?as" and e: "{a \<in> set ?as. due a} = {}" using nd by (auto simp: filter_id_conv)
    ultimately show thesis using that [of c] inv nd notified_refl [OF k] unfolding f e by simp
  next
    case True
    obtain d where d: "watchdog_round ?es c = Inr d" "notified ((\<lambda>a. ta_int (timers c a)) ` set ?es) (ck c) (ck d)" "same_rest c d"
      using round_notifies [OF k, of ?es] i(5) di es(1) by auto
    have t: "holds d ?bs" "timers d a = (if a \<in> set ?es then (timers c a)\<lparr>tmr_exp_time := TMR_NEVER\<rparr> else timers c a)" for a
      using kw.round_takes [of c ?es ?bs d] d(1) i(1) by simp_all
    let ?d = "d\<lparr>next_timeout := front_or_never d\<rparr>"
    have r: "run_timers c = Inr ?d"
      using kw.exptimers_prefix [OF i(1), of "uptime (ck c)"] d(1) True by (simp add: run_timers_def get_uptime_def due_def)
    have hd: "holds ?d ?bs" using t(1) by (simp add: holds_def)
    have ne: "a \<in> set ?bs \<Longrightarrow> a \<notin> set ?es" for a using es by auto
    have ex: "map (expiry ?d) ?bs = map (expiry c) ?bs" using ne t(2) by (auto simp: expiry_def)
    have "clock_inv ?d"
    proof (rule clock_invI [OF hd])
      have "sorted (map (expiry c) ?bs)" using so es(2) sorted_filter by metis
      then show "in_order ?d ?bs" unfolding in_order_def ex .
      show "next_timeout ?d = tmr_exp_time (timers ?d (hd ?bs))" if "?bs \<noteq> []"
        using that t(1) by (cases ?bs) (auto simp: front_or_never_def holds_def)
      show "a \<noteq> Shutdown_timer \<and> tmr_func (timers ?d a) = Some Cause_alarm" if "a \<in> set ?bs" for a
        using that es(2) i(4,5) t(2) by auto
      show "tmr_exp_time (timers ?d (S_alarm_timer j)) = TMR_NEVER" if "j < NR_SYS_PROCS" "S_alarm_timer j \<notin> set ?bs" for j
        using that es t(2) [of "S_alarm_timer j"] i(6) [of j] by auto
    qed
    moreover have "alarm_queue ?d = filter (\<lambda>a. \<not> due a) ?as" using alarm_queue_holds [OF hd] es(2) by simp
    moreover have "set ?es = {a \<in> set ?as. due a}" using es(1) by auto
    ultimately show thesis using d(2) t(2) by (intro that [OF r]) auto
  qed
qed

section \<open>Setting and cancelling\<close>

lemma timerq_rest: "same_timers A c d \<Longrightarrow> ck d = ck c \<and> same_rest c d"
  by (cases c; cases d) (simp add: same_timers_def same_rest_def clkstate.defs)

text \<open>
  The state in which a timer is set: the queue is in order but for the timer itself, whose time may be written already.
\<close>

lemma set_timer_effect:
  assumes h: "holds c as" and o: "in_order c (filter (\<lambda>a. a \<noteq> tp) as)" and tp: "tp \<noteq> Shutdown_timer"
    and g: "\<And>a. a \<in> set as \<Longrightarrow> a \<noteq> tp \<Longrightarrow> a \<noteq> Shutdown_timer \<and> tmr_func (timers c a) = Some Cause_alarm"
    and n: "\<And>i. i < NR_SYS_PROCS \<Longrightarrow> S_alarm_timer i \<notin> set as \<Longrightarrow> S_alarm_timer i \<noteq> tp \<Longrightarrow> tmr_exp_time (timers c (S_alarm_timer i)) = TMR_NEVER"
  obtains d where "set_timer tp e (Some Cause_alarm) c = Inr d" "clock_inv d" "alarm_queue d = set_spec (expiry d) tp as"
    "ck d = ck c" "tmr_exp_time (timers d tp) = e" "ta_int (timers d tp) = ta_int (timers c tp)"
    "\<And>a. a \<noteq> tp \<Longrightarrow> tmr_exp_time (timers d a) = tmr_exp_time (timers c a)"
proof -
  obtain t where t: "tmrs_settimer tp e (Some Cause_alarm) c = Inr (head_time c, head_time t, t)"
    "holds t (set_spec (expiry t) tp as)" "same_timers {tp} c t"
    "tmr_exp_time (timers t tp) = e" "tmr_func (timers t tp) = Some Cause_alarm" "ta_int (timers t tp) = ta_int (timers c tp)"
    using settimer_list [OF h o] by blast
  let ?q = "set_spec (expiry t) tp as"
  have "?q \<noteq> []" using set_spec_set [of "expiry t" tp as] by fastforce
  then obtain b bs where q: "?q = b # bs" by (cases ?q) auto
  then have hd: "tmrs t = Some b" using t(2) by (simp add: holds_def)
  let ?d = "t\<lparr>next_timeout := tmr_exp_time (timers t b)\<rparr>"
  have r: "set_timer tp e (Some Cause_alarm) c = Inr ?d" using t(1) hd by (simp add: set_timer_def)
  have hq: "holds ?d ?q" using t(2) by (simp add: holds_def)
  have st: "tmr_func (timers t a) = tmr_func (timers c a)" "tmr_exp_time (timers t a) = tmr_exp_time (timers c a)" if "a \<noteq> tp" for a
    using t(3) that by (simp_all add: same_timers_def)
  have "clock_inv ?d"
  proof (rule clock_invI [OF hq])
    show "in_order ?d ?q" using set_spec_order by (simp add: in_order_def)
    show "next_timeout ?d = tmr_exp_time (timers ?d (hd ?q))" using q by simp
    show "a \<noteq> Shutdown_timer \<and> tmr_func (timers ?d a) = Some Cause_alarm" if "a \<in> set ?q" for a
      using that g [of a] t(5) tp st(1) [of a] by (cases "a = tp") auto
    show "tmr_exp_time (timers ?d (S_alarm_timer i)) = TMR_NEVER" if "i < NR_SYS_PROCS" "S_alarm_timer i \<notin> set ?q" for i
      using that n [of i] st(2) [of "S_alarm_timer i"] by auto
  qed
  then show thesis
    using that [OF r] alarm_queue_holds [OF hq] t(4,6) st(2) timerq_rest [OF t(3)] by simp
qed

lemma reset_timer_effect:
  assumes inv: "clock_inv c"
  obtains d where "reset_timer tp c = Inr d" "clock_inv d" "alarm_queue d = filter (\<lambda>a. a \<noteq> tp) (alarm_queue c)" "ck d = ck c"
    "tmr_exp_time (timers d tp) = TMR_NEVER" "\<And>a. a \<noteq> tp \<Longrightarrow> tmr_exp_time (timers d a) = tmr_exp_time (timers c a)"
proof -
  let ?as = "alarm_queue c" let ?bs = "filter (\<lambda>a. a \<noteq> tp) ?as"
  note i = clock_invD [OF inv]
  obtain t where t: "tmrs_clrtimer tp c = Inr (head_time c, head_time t, t)" "holds t ?bs" "same_timers {tp} c t"
    "tmr_exp_time (timers t tp) = TMR_NEVER" using clrtimer_list [OF i(1)] by metis
  let ?d = "t\<lparr>next_timeout := front_or_never t\<rparr>"
  have r: "reset_timer tp c = Inr ?d" using t(1) by (simp add: reset_timer_def)
  have hq: "holds ?d ?bs" using t(2) by (simp add: holds_def)
  have st: "tmr_func (timers t a) = tmr_func (timers c a)" "tmr_exp_time (timers t a) = tmr_exp_time (timers c a)" if "a \<noteq> tp" for a
    using t(3) that by (simp_all add: same_timers_def)
  have ex: "map (expiry ?d) ?bs = map (expiry c) ?bs" using st(2) by (auto simp: expiry_def)
  have "clock_inv ?d"
  proof (rule clock_invI [OF hq])
    have "sorted (map (expiry c) ?bs)" using i(2) sorted_filter by (auto simp: in_order_def)
    then show "in_order ?d ?bs" unfolding in_order_def ex .
    show "next_timeout ?d = tmr_exp_time (timers ?d (hd ?bs))" if "?bs \<noteq> []"
      using that t(2) by (cases ?bs) (auto simp: front_or_never_def holds_def)
    show "a \<noteq> Shutdown_timer \<and> tmr_func (timers ?d a) = Some Cause_alarm" if "a \<in> set ?bs" for a
      using that i(4,5) st(1) by auto
    show "tmr_exp_time (timers ?d (S_alarm_timer j)) = TMR_NEVER" if "j < NR_SYS_PROCS" "S_alarm_timer j \<notin> set ?bs" for j
      using that i(6) [of j] t(4) st(2) [of "S_alarm_timer j"] by (cases "S_alarm_timer j = tp") auto
  qed
  then show thesis
    using that [OF r] alarm_queue_holds [OF hq] t(4) st(2) timerq_rest [OF t(3)] by simp
qed

section \<open>The call\<close>

text \<open>The time an alarm call asks for.\<close>

definition alarm_time :: "message \<Rightarrow> clkstate \<Rightarrow> u32" where
  "alarm_time m c = (if m2_i2 m \<noteq> 0 then m2_l1 m else m2_l1 m + get_uptime c)"

definition time_left :: "timer_ref \<Rightarrow> clkstate \<Rightarrow> u32" where
  "time_left tp c =
     (if tmr_exp_time (timers c tp) \<noteq> TMR_NEVER \<and> sint (get_uptime c) < expiry c tp then tmr_exp_time (timers c tp) - get_uptime c else 0)"

lemma setalarm_effect:
  assumes inv: "clock_inv c" and p: "has (s_flags (priv_of (ck c) p)) SYS_PROC"
  defines "tp \<equiv> S_alarm_timer (p_priv (procs (ck c) p))"
  obtains d where "do_setalarm p m c = Inr (OK, m\<lparr>m2_l1 := time_left tp c\<rparr>, d)" "clock_inv d" "ck d = ck c"
    "alarm_queue d = (if m2_l1 m = 0 then filter (\<lambda>a. a \<noteq> tp) (alarm_queue c) else set_spec (expiry d) tp (alarm_queue c))"
    "tmr_exp_time (timers d tp) = (if m2_l1 m = 0 then TMR_NEVER else alarm_time m c)"
    "m2_l1 m \<noteq> 0 \<Longrightarrow> ta_int (timers d tp) = p_endpoint (procs (ck c) p)"
    "\<And>a. a \<noteq> tp \<Longrightarrow> tmr_exp_time (timers d a) = tmr_exp_time (timers c a)"
proof -
  let ?f = "\<lambda>t. t\<lparr>ta_int := p_endpoint (procs (ck c) p), tmr_func := Some Cause_alarm\<rparr>"
  let ?c = "upd_tmr tp ?f c"
  let ?e = "alarm_time m c"
  let ?g = "upd_tmr tp (\<lambda>t. t\<lparr>tmr_exp_time := ?e\<rparr>) ?c"
  note i = clock_invD [OF inv]
  have n: "tnext ?c = tnext c" "tnext ?g = tnext c"
    using tnext_keep [of ?f tp c] tnext_keep [of "\<lambda>t. t\<lparr>tmr_exp_time := ?e\<rparr>" tp ?c] by simp_all
  have h: "holds ?c (alarm_queue c)" "holds ?g (alarm_queue c)" using i(1) n by (simp_all add: holds_def tnext_writes)
  have ex: "expiry ?c = expiry c" "tmr_exp_time (timers ?c a) = tmr_exp_time (timers c a)" for a
    by (auto simp: expiry_def upd_tmr_def)
  have eg: "a \<noteq> tp \<Longrightarrow> timers ?g a = timers c a" for a by (simp add: upd_tmr_def)
  have kc: "ck ?c = ck c" "ck ?g = ck c" "get_uptime ?c = get_uptime c" "tmr_func (timers ?g tp) = Some Cause_alarm"
    by (simp_all add: upd_tmr_def get_uptime_def)
  have tl: "time_left tp ?c = time_left tp c" using ex kc by (simp add: time_left_def)
  have ds: "do_setalarm p m c = bnd (if m2_l1 m = 0 then reset_timer tp ?c else set_timer tp ?e (Some Cause_alarm) ?g)
      (\<lambda>d. Inr (OK, m\<lparr>m2_l1 := time_left tp c\<rparr>, d))"
    unfolding tl [symmetric] using p kc
    by (simp add: do_setalarm_def Let_def tp_def alarm_time_def time_left_def expiry_def split del: if_split cong: if_cong)
  show thesis
  proof (cases "m2_l1 m = 0")
    case True
    have "clock_inv ?c"
      by (rule clock_invI [OF h(1)]) (use i ex in \<open>auto simp: in_order_def upd_tmr_def\<close>)
    then obtain d where d: "reset_timer tp ?c = Inr d" "clock_inv d" "alarm_queue d = filter (\<lambda>a. a \<noteq> tp) (alarm_queue ?c)" "ck d = ck ?c"
      "tmr_exp_time (timers d tp) = TMR_NEVER" "\<And>a. a \<noteq> tp \<Longrightarrow> tmr_exp_time (timers d a) = tmr_exp_time (timers ?c a)"
      using reset_timer_effect [where tp = tp] by blast
    show thesis by (rule that [of d]) (use d ds True ex kc alarm_queue_holds [OF h(1)] in simp_all)
  next
    case False
    have o: "in_order ?g (filter (\<lambda>a. a \<noteq> tp) (alarm_queue c))"
    proof -
      have "map (expiry ?g) (filter (\<lambda>a. a \<noteq> tp) (alarm_queue c)) = map (expiry c) (filter (\<lambda>a. a \<noteq> tp) (alarm_queue c))"
        using eg by (auto simp: expiry_def)
      moreover have "sorted (map (expiry c) (filter (\<lambda>a. a \<noteq> tp) (alarm_queue c)))" using i(2) sorted_filter by (auto simp: in_order_def)
      ultimately show ?thesis by (simp only: in_order_def)
    qed
    obtain d where d: "set_timer tp ?e (Some Cause_alarm) ?g = Inr d" "clock_inv d" "alarm_queue d = set_spec (expiry d) tp (alarm_queue c)"
      "ck d = ck ?g" "tmr_exp_time (timers d tp) = ?e" "ta_int (timers d tp) = ta_int (timers ?g tp)"
      "\<And>a. a \<noteq> tp \<Longrightarrow> tmr_exp_time (timers d a) = tmr_exp_time (timers ?g a)"
      by (rule set_timer_effect [OF h(2) o, of ?e]) (use i(4-6) eg in \<open>auto simp: tp_def\<close>)
    have "ta_int (timers ?g tp) = p_endpoint (procs (ck c) p)" by (simp add: upd_tmr_def)
    then show thesis using that [of d] d ds False eg kc by simp
  qed
qed

section \<open>The tick\<close>

text \<open>Writes to the kernel state that no part of \<open>tick_ok\<close> reads.\<close>

lemma tick_ok_cong:
  assumes "same_sched s t" "\<And>x. p_misc_flags (procs t x) = p_misc_flags (procs s x)" "\<And>x. p_nr (procs t x) = p_nr (procs s x)"
    "bill_ptr t = bill_ptr s"
  shows "tick_ok t = tick_ok s"
  using assms(2-4) same_sched_view [OF assms(1)] by (simp add: tick_ok_def deliver_ok_def no_vtimers_def misc_is_def RTS_ISSET_def)

lemma upd_times_sel [simp]:
  "ck (upd_times p f c) = ck c" "timers (upd_times p f c) = timers c" "tmrs (upd_times p f c) = tmrs c"
  "next_timeout (upd_times p f c) = next_timeout c"
  by (simp_all add: upd_times_def)

lemma tick_ok_writes [simp]:
  "tick_ok (s\<lparr>could_inject := x\<rparr>) = tick_ok s" "tick_ok (s\<lparr>id_current_pe := y\<rparr>) = tick_ok s" "tick_ok (s\<lparr>uptime := u\<rparr>) = tick_ok s"
  by (rule tick_ok_cong; simp add: same_sched_def priv_of_def)+

lemma told_writes [simp]:
  "told (s\<lparr>could_inject := x\<rparr>) = told s" "told (s\<lparr>id_current_pe := y\<rparr>) = told s" "told (s\<lparr>uptime := u\<rparr>) = told s"
  by (simp_all add: told_def misc_is_def priv_of_def fun_eq_iff)

lemma isokendpt_writes [simp]:
  "isokendpt e (s\<lparr>could_inject := x\<rparr>) = isokendpt e s" "isokendpt e (s\<lparr>id_current_pe := y\<rparr>) = isokendpt e s"
  "isokendpt e (s\<lparr>uptime := u\<rparr>) = isokendpt e s"
  by (simp_all add: isokendpt_def isemptyn_def)

lemma charge_effect:
  assumes k: "tick_ok (ck c)" and b: "bill_ptr (ck c) = Some b"
  obtains d where "charge p (Some b) c = Inr d" "timers d = timers c" "tmrs d = tmrs c" "next_timeout d = next_timeout c"
    "tick_ok (ck d)" "uptime (ck d) = uptime (ck c)" "bill_ptr (ck d) = Some b" "\<And>e. isokendpt e (ck d) = isokendpt e (ck c)"
    "told (ck d) = told (ck c)"
proof -
  let ?k = "upd_proc p (\<lambda>q. q\<lparr>p_stats := (p_stats q)\<lparr>p_ticks := p_ticks (p_stats q) + 1\<rparr>\<rparr>) (ck c)"
  have ss: "same_sched (ck c) ?k" by (simp add: same_sched_def priv_of_def upd_proc_def)
  have tk: "tick_ok ?k" using tick_ok_cong [OF ss] k by (simp add: upd_proc_def)
  then have nv: "\<not> misc_is ?k x MF_VIRT_TIMER" "\<not> misc_is ?k x MF_PROF_TIMER" for x by (simp_all add: tick_ok_def no_vtimers_def)
  let ?u = "upd_times p (\<lambda>t. t\<lparr>p_user_time := p_user_time t + 1\<rparr>) (c\<lparr>ck := ?k\<rparr>)"
  have "charge p (Some b) c = Inr (if has (s_flags (priv_of (ck c) p)) BILLABLE then ?u
      else upd_times b (\<lambda>t. t\<lparr>p_sys_time := p_sys_time t + 1\<rparr>) ?u)"
    using nv by (simp add: charge_def)
  then obtain d where d: "charge p (Some b) c = Inr d" "timers d = timers c" "tmrs d = tmrs c" "next_timeout d = next_timeout c" "ck d = ?k"
    by simp
  have "isokendpt e ?k = isokendpt e (ck c)" for e by (auto simp: isokendpt_def isemptyn_def upd_proc_def Let_def)
  moreover have "told ?k = told (ck c)" by (auto simp: told_def misc_is_def priv_of_def upd_proc_def fun_eq_iff)
  ultimately show thesis using that [OF d(1)] d tk b by (simp add: upd_proc_def)
qed

lemma vtimer_check_idle: "tick_ok (ck c) \<Longrightarrow> vtimer_check p c = Inr c"
  by (simp add: vtimer_check_def vt_expired_def vt_flag_def tick_ok_def no_vtimers_def)

text \<open>The load: every ready process is counted.\<close>

lemma count_list:
  assumes "chain nx q as"
  shows "for_chain (\<lambda>_. nx) (\<lambda>p n. Inr (None :: unit option, Suc n)) q n = Inr (None, n + length as)"
  using assms by (induction as arbitrary: q n) (auto simp: for_chain_Some)

lemma count_ready_total:
  assumes "ready_inv s"
  shows "count_ready s = Inr (sum_list (map (\<lambda>q. length (ready_list s q)) [0 .. NR_SCHED_QUEUES - 1]))"
proof -
  let ?b = "\<lambda>q n. bnd (for_chain (\<lambda>_ p. p_nextready (p_sched (procs s p))) (\<lambda>p n. Inr (None :: unit option, Suc n)) (run_q_head s q) n)
                 (\<lambda>(_, n). Inr n)"
  have "for_each ?b qs n = Inr (n + sum_list (map (\<lambda>q. length (ready_list s q)) qs))"
    if "\<forall>q \<in> set qs. 0 \<le> q \<and> q < NR_SCHED_QUEUES" for qs n
    using that
  proof (induction qs arbitrary: n)
    case Nil
    then show ?case by simp
  next
    case (Cons q qs)
    have "chain (nextready s) (run_q_head s q) (ready_list s q)"
      using rq_at(1) [of "ready_list s" s q] assms Cons.prems by (simp add: ready_inv_def rq_inv_def)
    from count_list [OF this, of n] have "?b q n = Inr (n + length (ready_list s q))" by (simp add: nextready_def [abs_def])
    then show ?case using Cons by simp
  qed
  then show ?thesis by (simp add: count_ready_def)
qed

lemma load_update_effect:
  assumes "tick_ok (ck c)"
  obtains d where "load_update c = Inr d" "timers d = timers c" "tmrs d = tmrs c" "next_timeout d = next_timeout c" "ck d = ck c"
proof -
  define b where "b = (if of_nat (load_slot c) \<noteq> proc_last_slot c
    then c\<lparr>proc_load_history := (proc_load_history c)(load_slot c := 0), proc_last_slot := of_nat (load_slot c)\<rparr> else c)"
  have s: "timers b = timers c" "tmrs b = tmrs c" "next_timeout b = next_timeout c" "ck b = ck c" by (simp_all add: b_def)
  obtain n where "count_ready (ck c) = Inr n" using count_ready_total [of "ck c"] assms by (auto simp: tick_ok_def)
  then have l: "load_update c = Inr (b\<lparr>proc_load_history := (proc_load_history b)(load_slot c := proc_load_history b (load_slot c) + of_nat n),
      last_clock := get_uptime b\<rparr>)"
    by (simp add: load_update_def Let_def s(4) flip: b_def)
  show thesis by (rule that [OF l]) (simp_all add: s)
qed

lemma allow_injection_effect:
  "timers (allow_injection c) = timers c" "tmrs (allow_injection c) = tmrs c" "next_timeout (allow_injection c) = next_timeout c"
  "tick_ok (ck (allow_injection c)) = tick_ok (ck c)" "uptime (ck (allow_injection c)) = uptime (ck c)"
  "told (ck (allow_injection c)) = told (ck c)" "isokendpt e (ck (allow_injection c)) = isokendpt e (ck c)"
  by (simp_all add: allow_injection_def Let_def)

lemma tick_effect:
  assumes inv: "clock_inv c" and k: "tick_ok (ck c)"
  defines "now \<equiv> uptime (ck c) + 1"
  obtains d where "timer_int_handler c = Inr d" "clock_inv d" "tick_ok (ck d)" "get_uptime d = now"
    "alarm_queue d = filter (\<lambda>a. sint now < expiry c a) (alarm_queue c)"
    "\<And>a p. a \<in> set (alarm_queue c) \<Longrightarrow> expiry c a \<le> sint now \<Longrightarrow> isokendpt (ta_int (timers c a)) (ck c) = Some p \<Longrightarrow> told (ck d) p"
    "\<And>a. a \<in> set (alarm_queue c) \<Longrightarrow> expiry c a \<le> sint now \<Longrightarrow> tmr_exp_time (timers d a) = TMR_NEVER"
    "\<And>a. a \<notin> set (alarm_queue c) \<or> sint now < expiry c a \<Longrightarrow> timers d a = timers c a"
    "\<And>p. told (ck c) p \<Longrightarrow> told (ck d) p" "\<And>e p. isokendpt e (ck c) = Some p \<Longrightarrow> isokendpt e (ck d) = Some p \<or> told (ck d) p"
proof -
  obtain b where b: "bill_ptr (ck c) = Some b" using k by (auto simp: tick_ok_def)
  let ?c = "c\<lparr>ck := (ck c)\<lparr>uptime := now\<rparr>\<rparr>"
  have k0: "tick_ok (ck ?c)" "bill_ptr (ck ?c) = Some b" using k b by simp_all
  have i0: "clock_inv ?c" "alarm_queue ?c = alarm_queue c" using clock_inv_cong [of ?c c] inv by simp_all
  have e0: "isokendpt e (ck ?c) = isokendpt e (ck c)" for e by (simp add: isokendpt_def isemptyn_def)
  obtain c1 where c1: "charge (proc_ptr (ck ?c)) (Some b) ?c = Inr c1" "timers c1 = timers ?c" "tmrs c1 = tmrs ?c" "next_timeout c1 = next_timeout ?c"
    "tick_ok (ck c1)" "uptime (ck c1) = uptime (ck ?c)" "\<And>e. isokendpt e (ck c1) = isokendpt e (ck ?c)" "told (ck c1) = told (ck ?c)"
    by (rule charge_effect [OF k0]) blast
  obtain c2 where c2: "load_update c1 = Inr c2" "timers c2 = timers c1" "tmrs c2 = tmrs c1" "next_timeout c2 = next_timeout c1" "ck c2 = ck c1"
    using load_update_effect [OF c1(5)] by blast
  have q: "clock_inv c2" "alarm_queue c2 = alarm_queue c"
    using clock_inv_cong [of c1 ?c] clock_inv_cong [of c2 c1] c1(2-4) c2(2-4) i0 by simp_all
  have x: "timers c2 = timers c" "expiry c2 = expiry c" "uptime (ck c2) = now"
    using c1(2,6) c2(2,5) by (simp_all add: expiry_def fun_eq_iff)
  have k2: "tick_ok (ck c2)" using c1(5) c2(5) by simp
  obtain d where d: "run_timers c2 = Inr d" "clock_inv d" "alarm_queue d = filter (\<lambda>a. \<not> expiry c2 a \<le> sint (uptime (ck c2))) (alarm_queue c2)"
    "notified ((\<lambda>a. ta_int (timers c2 a)) ` {a \<in> set (alarm_queue c2). expiry c2 a \<le> sint (uptime (ck c2))}) (ck c2) (ck d)"
    "\<And>a. a \<in> set (alarm_queue c2) \<Longrightarrow> expiry c2 a \<le> sint (uptime (ck c2)) \<Longrightarrow> tmr_exp_time (timers d a) = TMR_NEVER"
    "\<And>a. a \<notin> set (alarm_queue c2) \<or> \<not> expiry c2 a \<le> sint (uptime (ck c2)) \<Longrightarrow> timers d a = timers c2 a"
    by (rule run_timers_effect [OF q(1) k2]) blast
  let ?d = "allow_injection d"
  note ai = allow_injection_effect [where c = d]
  have r: "timer_int_handler c = Inr ?d"
    using c1(1) c2(1) d(1) vtimer_check_idle [OF c1(5)] b by (simp add: timer_int_handler_def Let_def now_def)
  have ii: "clock_inv ?d" "alarm_queue ?d = alarm_queue d" using clock_inv_cong [of ?d d] ai d(2) by simp_all
  have nt: "tick_ok (ck d)" "uptime (ck d) = now" using d(4) x by (simp_all add: notified_def same_clock_def)
  have td: "told (ck d) p" if "a \<in> set (alarm_queue c)" "expiry c a \<le> sint now" "isokendpt (ta_int (timers c a)) (ck c) = Some p" for a p
    using d(4) that x q(2) e0 c1(7) c2(5) by (auto simp: notified_def)
  have tm: "told (ck c) p \<Longrightarrow> told (ck d) p" "isokendpt e (ck c) = Some p \<Longrightarrow> isokendpt e (ck d) = Some p \<or> told (ck d) p" for e p
    using d(4) e0 c1(7,8) c2(5) by (auto simp: notified_def)
  show thesis
    by (rule that [OF r ii(1)]) (use nt td tm d x q ai ii in \<open>auto simp: get_uptime_def not_le\<close>)
qed

section \<open>Alarm calls and ticks in any order\<close>

datatype clock_op = Set_alarm int message | Cancel timer_ref | Tick

definition clock_step :: "clock_op \<Rightarrow> clkstate \<Rightarrow> stop + clkstate" where
  "clock_step x c = (case x of
     Set_alarm p m \<Rightarrow> bnd (do_setalarm p m c) (\<lambda>(_, _, c). Inr c)
   | Cancel tp \<Rightarrow> reset_timer tp c
   | Tick \<Rightarrow> timer_int_handler c)"

lemma clock_step_safe:
  assumes "clock_inv c" "tick_ok (ck c)"
  shows "\<exists>d. clock_step x c = Inr d \<and> clock_inv d \<and> tick_ok (ck d)"
proof (cases x)
  case (Set_alarm p m)
  show ?thesis
  proof (cases "has (s_flags (priv_of (ck c) p)) SYS_PROC")
    case False
    then show ?thesis using Set_alarm assms by (simp add: clock_step_def do_setalarm_def)
  next
    case True
    obtain r n d where d: "do_setalarm p m c = Inr (r, n, d)" "clock_inv d" "ck d = ck c"
      by (rule setalarm_effect [OF assms(1) True, of m]) blast
    then show ?thesis using Set_alarm assms(2) by (simp add: clock_step_def)
  qed
next
  case (Cancel tp)
  obtain d where "reset_timer tp c = Inr d" "clock_inv d" "ck d = ck c"
    by (rule reset_timer_effect [OF assms(1), of tp]) blast
  then show ?thesis using Cancel assms(2) by (simp add: clock_step_def)
next
  case Tick
  obtain d where "timer_int_handler c = Inr d" "clock_inv d" "tick_ok (ck d)"
    by (rule tick_effect [OF assms]) blast
  then show ?thesis using Tick by (simp add: clock_step_def)
qed

interpretation clk: safe_steps "\<lambda>c. clock_inv c \<and> tick_ok (ck c)" "\<lambda>_. True" clock_step
  by unfold_locales (use clock_step_safe in blast)

text \<open>C10. Whatever sequence of alarm calls, cancellations and clock ticks the kernel performs, no step stops the machine
  and the queue of alarms stays well formed: the links reach exactly the timers of a list sorted by expiration time,
  the next timeout is the time in front of it, every timer in it calls \<open>cause_alarm\<close>, and an alarm timer outside it
  has the time \<open>TMR_NEVER\<close>. The start is such a queue in a kernel (\<open>tick_ok\<close>) whose ready lists are in order, in which no virtual or profile timer runs,
  no process waits for a message while one is on its way to it, and some process is billed.
\<close>

theorem clock_queue_well_formed:
  assumes "clock_inv c" "tick_ok (ck c)"
  shows "\<exists>d. run_steps clock_step xs c = Inr d \<and> clock_inv d \<and> tick_ok (ck d)"
  using clk.run_safe [of c xs] assms by simp

text \<open>The state at boot: no alarm is set. Process 1 runs, process 3 is a system process that waits for a message.\<close>

definition boot_sample :: clkstate where
  "boot_sample =
     \<lparr>timers = (\<lambda>_. \<lparr>tmr_next = None, tmr_exp_time = 0, tmr_func = None, ta_int = 0\<rparr>), tmrs = None,
      next_timeout = 0, p_times = (\<lambda>_. \<lparr>p_user_time = 0, p_sys_time = 0, p_virt_left = 0, p_prof_left = 0\<rparr>),
      proc_load_history = (\<lambda>_. 0), proc_last_slot = 0, last_clock = 0, system_hz = 60, boottime = 0, id_last_inject_pe = 0,
      ck = recv_sample\<lparr>bill_ptr := Some 1, uptime := 100,
             ppriv_addr := (\<lambda>_. zero_priv\<lparr>s_stack_guard := STACK_GUARD, s_flags := PREEMPTIBLE OR SYS_PROC\<rparr>)\<rparr>\<rparr>"

definition alarm_sample :: clkstate where
  "alarm_sample = init_alarm_timers boot_sample"

lemma init_timers_sel:
  fixes c :: clkstate
  defines "init n \<equiv> fold (\<lambda>i. tmr_inittimer (S_alarm_timer i)) [0 ..< n] c"
  shows "ck (init n) = ck c" "tmrs (init n) = tmrs c" "p_times (init n) = p_times c"
    "i < n \<Longrightarrow> tmr_exp_time (timers (init n) (S_alarm_timer i)) = TMR_NEVER"
  by (induction n) (auto simp: init_def tmr_inittimer_def upd_tmr_def less_Suc_eq)

lemma alarm_sample_sel:
  "ck alarm_sample = ck boot_sample" "tmrs alarm_sample = tmrs boot_sample" "p_times alarm_sample = p_times boot_sample"
  by (simp_all add: alarm_sample_def init_alarm_timers_def init_timers_sel)

lemma clock_inv_boot: "tmrs c = None \<Longrightarrow> clock_inv (init_alarm_timers c)"
  by (rule clock_invI [of _ "[]"]) (simp_all add: holds_def in_order_def init_alarm_timers_def init_timers_sel)

lemma recv_sample_procs:
  "procs recv_sample n = zero_proc\<lparr>p_nr := n, p_endpoint := n, p_magic := PMAGIC,
     p_rts_flags := (if n = 3 then RTS_RECEIVING else if n = 1 \<or> n = 2 then 0 else 1), p_cpu_time_left := 1000,
     p_getfrom_e := (if n = 3 then ANY else p_getfrom_e zero_proc),
     p_sched := zero_sched\<lparr>p_priority := (if n = 3 then 5 else 7), p_nextready := (if n = 1 then Some 2 else None)\<rparr>\<rparr>"
  by (auto simp: recv_sample_def with_flags_def upd_proc_def queue_sample_def zero_proc_def)

lemma alarm_sample_ok: "clock_inv alarm_sample" "tick_ok (ck alarm_sample)" "alarm_queue alarm_sample = []"
proof -
  have b: "tmrs boot_sample = None" by (simp add: boot_sample_def)
  then have h: "holds alarm_sample []" by (simp add: holds_def alarm_sample_sel)
  show q: "alarm_queue alarm_sample = []" using alarm_queue_holds [OF h] .
  show "clock_inv alarm_sample" unfolding alarm_sample_def by (rule clock_inv_boot [OF b])
  have p: "procs (ck alarm_sample) = procs recv_sample" "s_stack_guard (priv_of (ck alarm_sample) x) = STACK_GUARD" for x
    by (simp_all add: alarm_sample_sel boot_sample_def priv_of_def zero_priv_def)
  have rq: "run_q_head (ck alarm_sample) = run_q_head queue_sample" "run_q_tail (ck alarm_sample) = run_q_tail queue_sample"
    "proc_ptr (ck alarm_sample) = 1"
    by (simp_all add: alarm_sample_sel boot_sample_def recv_sample_def with_flags_def upd_proc_def)
  have "rq_inv ((\<lambda>_. [])(7 := [1, 2])) (ck alarm_sample)"
    by (auto simp: rq_inv_def rq_lists_def sched_ok_def proc_ptr_ok_def isokprocn_def p rq recv_sample_procs nextready_def prio_def proc_is_runnable_def)
  then have "ready_inv (ck alarm_sample)" using ready_invI by auto
  moreover have "cur_ok (ck alarm_sample)" using rq(3) by (simp add: cur_ok_def isokprocn_def)
  moreover have "deliver_ok (ck alarm_sample)" "no_vtimers (ck alarm_sample)" "p_nr (procs (ck alarm_sample) CLOCK) = CLOCK"
    by (simp_all add: deliver_ok_def no_vtimers_def misc_is_def p recv_sample_procs zero_proc_def)
  moreover have "bill_ptr (ck alarm_sample) = Some 1" by (simp add: alarm_sample_sel boot_sample_def)
  ultimately show "tick_ok (ck alarm_sample)" by (simp add: tick_ok_def)
qed

theorem clock_queue_well_formed_witness:
  "\<exists>d. run_steps clock_step [Set_alarm 3 (zero_msg\<lparr>m2_l1 := 5\<rparr>), Tick, Set_alarm 1 zero_msg, Cancel (S_alarm_timer 0), Tick] alarm_sample = Inr d \<and>
     clock_inv d"
  using clock_queue_well_formed [OF alarm_sample_ok(1,2)] by blast

section \<open>An alarm from the call to the notification\<close>

lemma sint_plus: "- (2 ^ 31) \<le> sint a + sint b \<Longrightarrow> sint a + sint b < 2 ^ 31 \<Longrightarrow> sint ((a :: u32) + b) = sint a + sint b"
  by (simp add: sint_word_ariths signed_take_bit_int_eq_self)

lemma sint_range32: "- (2 ^ 31) \<le> sint (a :: u32)" "sint (a :: u32) < 2 ^ 31"
  using sint_greater_eq [of a] sint_less [of a] by simp_all

lemma sint_plus_1: "sint a < 2 ^ 31 - 1 \<Longrightarrow> sint ((a :: u32) + 1) = sint a + 1"
  using sint_plus [of a 1] sint_range32(1) [of a] by simp

lemma sint_wraps:
  assumes "2 ^ 31 \<le> sint (a :: u32) + sint b" shows "sint (a + b) = sint a + sint b - 2 ^ 32"
proof -
  let ?x = "sint a + sint b"
  have x: "?x < 2 ^ 32" using sint_range32(2) [of a] sint_range32(2) [of b] by simp
  have "sint (a + b) = take_bit 32 (?x + 2 ^ 31) - 2 ^ 31" by (simp add: sint_word_ariths signed_take_bit_eq_take_bit_shift)
  moreover have "take_bit 32 (?x + 2 ^ 31) = ?x + 2 ^ 31 - 2 ^ 32"
    unfolding take_bit_eq_mod using x assms mod_pos_pos_trivial [of "?x + 2 ^ 31 - 2 ^ 32" "2 ^ 32"]
      minus_mod_self2 [of "?x + 2 ^ 31" "2 ^ 32"] by simp
  ultimately show ?thesis by simp
qed

lemma clock_step_Tick [simp]: "clock_step Tick c = timer_int_handler c"
  by (simp add: clock_step_def)

text \<open>A timer that is set for later stays in the queue.\<close>

lemma alarm_waits:
  assumes "clock_inv c" "tick_ok (ck c)" "tp \<in> set (alarm_queue c)" "sint (get_uptime c) + int k < expiry c tp"
    "isokendpt e (ck c) = Some p \<or> told (ck c) p"
  shows "\<exists>d. run_steps clock_step (replicate k Tick) c = Inr d \<and> clock_inv d \<and> tick_ok (ck d) \<and> tp \<in> set (alarm_queue d) \<and>
    timers d tp = timers c tp \<and> sint (get_uptime d) = sint (get_uptime c) + int k \<and> (isokendpt e (ck d) = Some p \<or> told (ck d) p)"
  using assms
proof (induction k arbitrary: c)
  case 0
  then show ?case by simp
next
  case (Suc k)
  have "expiry c tp < 2 ^ 31" using sint_range32(2) by (simp add: expiry_def)
  then have u: "sint (uptime (ck c) + 1) = sint (uptime (ck c)) + 1" using Suc.prems(4) by (intro sint_plus_1) (simp add: get_uptime_def)
  then have later: "sint (uptime (ck c) + 1) < expiry c tp" using Suc.prems(4) by (simp add: get_uptime_def)
  obtain d where d: "timer_int_handler c = Inr d" "clock_inv d" "tick_ok (ck d)" "get_uptime d = uptime (ck c) + 1"
    "alarm_queue d = filter (\<lambda>a. sint (uptime (ck c) + 1) < expiry c a) (alarm_queue c)"
    "\<And>a. a \<notin> set (alarm_queue c) \<or> sint (uptime (ck c) + 1) < expiry c a \<Longrightarrow> timers d a = timers c a"
    "\<And>p. told (ck c) p \<Longrightarrow> told (ck d) p" "\<And>e p. isokendpt e (ck c) = Some p \<Longrightarrow> isokendpt e (ck d) = Some p \<or> told (ck d) p"
    by (rule tick_effect [OF Suc.prems(1,2)]) blast
  have t: "timers d tp = timers c tp" using d(6) later by blast
  have "\<exists>f. run_steps clock_step (replicate k Tick) d = Inr f \<and> clock_inv f \<and> tick_ok (ck f) \<and> tp \<in> set (alarm_queue f) \<and>
    timers f tp = timers d tp \<and> sint (get_uptime f) = sint (get_uptime d) + int k \<and> (isokendpt e (ck f) = Some p \<or> told (ck f) p)"
  proof (rule Suc.IH [OF d(2,3)])
    show "tp \<in> set (alarm_queue d)" using d(5) Suc.prems(3) later by simp
    show "sint (get_uptime d) + int k < expiry d tp" using Suc.prems(4) t d(4) u by (simp add: expiry_def get_uptime_def)
    show "isokendpt e (ck d) = Some p \<or> told (ck d) p" using Suc.prems(5) d(7,8) by blast
  qed
  then show ?case using d(1,4) t u by (auto simp: get_uptime_def)
qed

lemma run_steps_append: "run_steps step (as @ bs) s = bnd (run_steps step as s) (run_steps step bs)"
  by (induction as arbitrary: s) (auto simp: bnd_def split: sum.splits)

text \<open>The next tick tells the process of a timer that is due by then.\<close>

lemma alarm_fires:
  assumes "clock_inv c" "tick_ok (ck c)" "tp \<in> set (alarm_queue c)" "expiry c tp \<le> sint (uptime (ck c) + 1)"
    "isokendpt (ta_int (timers c tp)) (ck c) = Some p \<or> told (ck c) p"
  shows "\<exists>d. timer_int_handler c = Inr d \<and> tp \<notin> set (alarm_queue d) \<and> told (ck d) p"
proof -
  obtain d where d: "timer_int_handler c = Inr d"
    "alarm_queue d = filter (\<lambda>a. sint (uptime (ck c) + 1) < expiry c a) (alarm_queue c)"
    "\<And>a p. a \<in> set (alarm_queue c) \<Longrightarrow> expiry c a \<le> sint (uptime (ck c) + 1) \<Longrightarrow> isokendpt (ta_int (timers c a)) (ck c) = Some p \<Longrightarrow> told (ck d) p"
    "\<And>p. told (ck c) p \<Longrightarrow> told (ck d) p"
    by (rule tick_effect [OF assms(1,2)]) blast
  then show ?thesis using assms(3-5) by auto
qed

text \<open>C11. An alarm goes off when it should. A live system process that asks for an alarm in \<open>n\<close> ticks stays in the queue for
  the next \<open>n - 1\<close> ticks, and the tick after them takes it out of the queue and tells the process: the notification of
  the clock is in its message or recorded as pending. The sum of \<open>n\<close> and the clock does not overflow, the queue is well formed, and the kernel is as
  a tick needs it (\<open>tick_ok\<close>: ready lists in order, no virtual or profile timer runs, no process waits for a message while one is on its way
  to it, some process is billed).
\<close>

theorem alarm_goes_off:
  assumes inv: "clock_inv c" "tick_ok (ck c)" and p: "has (s_flags (priv_of (ck c) p)) SYS_PROC"
    "isokendpt (p_endpoint (procs (ck c) p)) (ck c) = Some p"
    and m: "m2_i2 m = 0" "m2_l1 m = of_nat n" "0 < n" "sint (get_uptime c) + int n < 2 ^ 31" "int n < 2 ^ 31"
  defines "tp \<equiv> S_alarm_timer (p_priv (procs (ck c) p))"
  shows "\<exists>left a d f. do_setalarm p m c = Inr (OK, m\<lparr>m2_l1 := left\<rparr>, a) \<and>
    run_steps clock_step (replicate (n - 1) Tick) a = Inr d \<and> tp \<in> set (alarm_queue d) \<and>
    run_steps clock_step (replicate n Tick) a = Inr f \<and> tp \<notin> set (alarm_queue f) \<and> told (ck f) p"
proof -
  have sn: "sint (m2_l1 m) = int n" using m by (simp add: signed_of_nat signed_take_bit_int_eq_self)
  then have nz: "m2_l1 m \<noteq> 0" using m(3) by auto
  obtain a where a: "do_setalarm p m c = Inr (OK, m\<lparr>m2_l1 := time_left tp c\<rparr>, a)" "clock_inv a" "ck a = ck c"
    "alarm_queue a = set_spec (expiry a) tp (alarm_queue c)" "tmr_exp_time (timers a tp) = alarm_time m c"
    "ta_int (timers a tp) = p_endpoint (procs (ck c) p)"
    using setalarm_effect [OF inv(1) p(1), of m, folded tp_def] nz by (metis (no_types, lifting))
  have e: "expiry a tp = sint (get_uptime c) + int n"
    using sint_plus [of "m2_l1 m" "get_uptime c"] sn m sint_range32(1) [of "get_uptime c"] a(5) by (simp add: expiry_def alarm_time_def)
  have ua: "get_uptime a = get_uptime c" using a(3) by (simp add: get_uptime_def)
  obtain d where d: "run_steps clock_step (replicate (n - 1) Tick) a = Inr d" "clock_inv d" "tick_ok (ck d)" "tp \<in> set (alarm_queue d)"
    "timers d tp = timers a tp" "sint (get_uptime d) = sint (get_uptime a) + int (n - 1)"
    "isokendpt (p_endpoint (procs (ck c) p)) (ck d) = Some p \<or> told (ck d) p"
    using alarm_waits [OF a(2), of tp "n - 1" "p_endpoint (procs (ck c) p)" p] inv a e m(3) p(2) ua by auto
  have "sint (uptime (ck d) + 1) = sint (uptime (ck d)) + 1" by (rule sint_plus_1) (use d(6) ua m in \<open>simp add: get_uptime_def\<close>)
  then have "expiry d tp \<le> sint (uptime (ck d) + 1)" using d(5,6) e ua m(3) by (simp add: expiry_def get_uptime_def)
  then obtain f where f: "timer_int_handler d = Inr f" "tp \<notin> set (alarm_queue f)" "told (ck f) p"
    using alarm_fires [OF d(2,3,4)] d(5,7) a(6) by auto
  have "replicate n Tick = replicate (n - 1) Tick @ [Tick]" using m(3) by (cases n) (simp_all add: replicate_append_same)
  then have "run_steps clock_step (replicate n Tick) a = Inr f" using d(1) f(1) by (simp add: run_steps_append)
  then show ?thesis using a(1) d(1,4) f by blast
qed

text \<open>An alarm that is cancelled leaves no trace: the call that cancels it returns the number of ticks it was set for,
  and the queue is what it was before, without any earlier alarm of the process.
\<close>

theorem alarm_set_and_cancelled:
  assumes inv: "clock_inv c" and p: "has (s_flags (priv_of (ck c) p)) SYS_PROC"
    and m: "m2_i2 m = 0" "0 < sint (m2_l1 m)" "sint (get_uptime c) + sint (m2_l1 m) < 2 ^ 31 - 1" and z: "m2_l1 z = 0"
  defines "tp \<equiv> S_alarm_timer (p_priv (procs (ck c) p))"
  shows "\<exists>left d e. do_setalarm p m c = Inr (OK, m\<lparr>m2_l1 := left\<rparr>, d) \<and>
    do_setalarm p z d = Inr (OK, z\<lparr>m2_l1 := m2_l1 m\<rparr>, e) \<and> ck e = ck c \<and>
    alarm_queue e = filter (\<lambda>a. a \<noteq> tp) (alarm_queue c) \<and>
    (\<forall>a. a \<noteq> tp \<longrightarrow> tmr_exp_time (timers e a) = tmr_exp_time (timers c a))"
proof -
  have nz: "m2_l1 m \<noteq> 0" using m(2) by auto
  obtain d where d: "do_setalarm p m c = Inr (OK, m\<lparr>m2_l1 := time_left tp c\<rparr>, d)" "clock_inv d" "ck d = ck c"
    "alarm_queue d = set_spec (expiry d) tp (alarm_queue c)" "tmr_exp_time (timers d tp) = alarm_time m c"
    "\<And>a. a \<noteq> tp \<Longrightarrow> tmr_exp_time (timers d a) = tmr_exp_time (timers c a)"
    using setalarm_effect [OF inv p, of m, folded tp_def] nz by (metis (no_types, lifting))
  have tp: "tp = S_alarm_timer (p_priv (procs (ck d) p))" and u: "get_uptime d = get_uptime c" using d(3) by (simp_all add: tp_def get_uptime_def)
  have e: "expiry d tp = sint (m2_l1 m) + sint (get_uptime c)"
    using sint_plus [of "m2_l1 m" "get_uptime c"] m sint_range32(1) [of "get_uptime c"] d(5) by (simp add: expiry_def alarm_time_def)
  have tl: "time_left tp d = m2_l1 m"
  proof -
    have "sint (tmr_exp_time (timers d tp)) \<noteq> sint TMR_NEVER" using e m(3) by (simp add: expiry_def)
    then show ?thesis using e m d(5) u by (auto simp: time_left_def alarm_time_def)
  qed
  have p': "has (s_flags (priv_of (ck d) p)) SYS_PROC" using p d(3) by simp
  obtain f where f: "do_setalarm p z d = Inr (OK, z\<lparr>m2_l1 := m2_l1 m\<rparr>, f)" "ck f = ck d"
    "alarm_queue f = filter (\<lambda>a. a \<noteq> tp) (alarm_queue d)" "\<And>a. a \<noteq> tp \<Longrightarrow> tmr_exp_time (timers f a) = tmr_exp_time (timers d a)"
    by (rule setalarm_effect [OF d(2) p', of z, folded tp]) (use z tl in simp)
  let ?as = "filter (\<lambda>a. a \<noteq> tp) (alarm_queue c)"
  have "map (expiry d) ?as = map (expiry c) ?as" using d(6) by (auto simp: expiry_def)
  moreover have "sorted (map (expiry c) ?as)" using clock_invD(2) [OF inv] sorted_filter by (auto simp: in_order_def)
  ultimately have "sort_key (expiry d) ?as = ?as" by (metis sort_key_id_if_sorted)
  then have "filter (\<lambda>a. a \<noteq> tp) (alarm_queue d) = ?as" by (simp add: d(4) set_spec_def filter_sort)
  then show ?thesis using d f by auto
qed

text \<open>C39. The sum of the clock and the ticks asked for is not checked. A relative alarm so far in the future that the sum
  passes the largest \<open>clock_t\<close> gets a negative expiration time: it is due at once, and the next tick tells the process. The kernel is as a
  tick needs it (\<open>tick_ok\<close>; in particular no virtual timer runs).
\<close>

theorem far_alarm_fires_at_once:
  assumes inv: "clock_inv c" "tick_ok (ck c)" and p: "has (s_flags (priv_of (ck c) p)) SYS_PROC"
    "isokendpt (p_endpoint (procs (ck c) p)) (ck c) = Some p"
    and m: "m2_i2 m = 0" "2 ^ 31 \<le> sint (get_uptime c) + sint (m2_l1 m)" "0 \<le> sint (get_uptime c + 1)"
  shows "\<exists>left a d. do_setalarm p m c = Inr (OK, m\<lparr>m2_l1 := left\<rparr>, a) \<and> timer_int_handler a = Inr d \<and> told (ck d) p"
proof -
  let ?tp = "S_alarm_timer (p_priv (procs (ck c) p))"
  have nz: "m2_l1 m \<noteq> 0" using m(2) sint_range32(2) [of "get_uptime c"] by auto
  obtain a where a: "do_setalarm p m c = Inr (OK, m\<lparr>m2_l1 := time_left ?tp c\<rparr>, a)" "clock_inv a" "ck a = ck c"
    "alarm_queue a = set_spec (expiry a) ?tp (alarm_queue c)" "tmr_exp_time (timers a ?tp) = alarm_time m c"
    "ta_int (timers a ?tp) = p_endpoint (procs (ck c) p)"
    using setalarm_effect [OF inv(1) p(1), of m] nz by (metis (no_types, lifting))
  have "sint (m2_l1 m + get_uptime c) < 0"
    using sint_wraps [of "m2_l1 m" "get_uptime c"] m(2) sint_range32(2) [of "m2_l1 m"] sint_range32(2) [of "get_uptime c"] by simp
  then have "expiry a ?tp \<le> sint (uptime (ck a) + 1)" using a(3,5) m by (simp add: expiry_def alarm_time_def get_uptime_def)
  then show ?thesis using alarm_fires [OF a(2), of ?tp p] a inv(2) p(2) by auto
qed

section \<open>Signals of virtual timers\<close>

text \<open>C35. The hardening puts off the signal of a virtual timer that runs out during an element in the single field
  \<open>p_sig_delay\<close>. When the virtual and the profile timer of the process run out in the same tick, both are switched off
  and only \<open>SIGPROF\<close> is remembered: \<open>SIGVTALRM\<close> is lost, as is any signal put off before.
\<close>

theorem virtual_alarm_lost:
  assumes "misc_is (ck c) p MF_VIRT_TIMER" "misc_is (ck c) p MF_PROF_TIMER" "sint (p_virt_left (p_times c p)) \<le> 0"
    "sint (p_prof_left (p_times c p)) \<le> 0" "h_enable (ck c) \<noteq> 0" "h_proc_nr (ck c) = p_nr (procs (ck c) p)"
  shows "\<exists>d. vtimer_check p c = Inr d \<and> p_sig_delay (procs (ck d) p) = SIGPROF \<and>
    \<not> misc_is (ck d) p MF_VIRT_TIMER \<and> \<not> misc_is (ck d) p MF_PROF_TIMER \<and>
    p_pending (procs (ck d) p) = p_pending (procs (ck c) p) \<and> p_times d p = (p_times c p)\<lparr>p_virt_left := 0, p_prof_left := 0\<rparr>"
proof -
  let ?c = "upd_times p (set_vt_left VT_VIRTUAL 0) (c\<lparr>ck := upd_proc p (\<lambda>q. q\<lparr>p_sig_delay := SIGVTALRM\<rparr>) (clr_misc p MF_VIRT_TIMER (ck c))\<rparr>)"
  have v: "vt_expired VT_VIRTUAL SIGVTALRM p c = Inr ?c"
    using assms by (simp add: vt_expired_def vt_flag_def vt_left_def upd_times_def clr_misc_def upd_proc_def)
  have k: "misc_is (ck ?c) p MF_PROF_TIMER" using assms(2) by (simp add: misc_is_def clr_misc_def has_clrf_other)
  have t: "p_times ?c p = (p_times c p)\<lparr>p_virt_left := 0\<rparr>" by (simp add: upd_times_def set_vt_left_def)
  let ?d = "upd_times p (set_vt_left VT_PROF 0) (?c\<lparr>ck := upd_proc p (\<lambda>q. q\<lparr>p_sig_delay := SIGPROF\<rparr>) (clr_misc p MF_PROF_TIMER (ck ?c))\<rparr>)"
  have "vt_expired VT_PROF SIGPROF p ?c = Inr ?d"
    using assms k t by (simp add: vt_expired_def vt_flag_def vt_left_def upd_times_def clr_misc_def upd_proc_def)
  then have "vtimer_check p c = Inr ?d" using v by (simp add: vtimer_check_def)
  moreover have "\<not> misc_is (ck ?d) p MF_VIRT_TIMER" "\<not> misc_is (ck ?d) p MF_PROF_TIMER"
    by (simp_all add: misc_is_def clr_misc_def has_clrf_other)
  moreover have "p_times ?d p = (p_times c p)\<lparr>p_virt_left := 0, p_prof_left := 0\<rparr>" by (simp add: upd_times_def set_vt_left_def)
  moreover have "p_sig_delay (procs (ck ?d) p) = SIGPROF" "p_pending (procs (ck ?d) p) = p_pending (procs (ck c) p)"
    by (simp_all add: clr_misc_def)
  ultimately show ?thesis by blast
qed

section \<open>Samples\<close>

text \<open>Process 3 is a system process whose endpoint is in use.\<close>

lemma alarm_sample_proc:
  "has (s_flags (priv_of (ck alarm_sample) 3)) SYS_PROC" "isokendpt (p_endpoint (procs (ck alarm_sample) 3)) (ck alarm_sample) = Some 3"
  "get_uptime alarm_sample = 100"
proof -
  have p: "procs (ck alarm_sample) = procs recv_sample" by (simp add: alarm_sample_sel boot_sample_def)
  show "isokendpt (p_endpoint (procs (ck alarm_sample) 3)) (ck alarm_sample) = Some 3"
    by (simp add: p recv_sample_procs isokendpt_def ENDPOINT_P_def c_rem_def isokprocn_def isemptyn_def Let_def)
qed (simp_all add: alarm_sample_sel boot_sample_def priv_of_def has_def get_uptime_def)

theorem alarm_goes_off_witness:
  "\<exists>left a f. do_setalarm 3 (zero_msg\<lparr>m2_l1 := 2\<rparr>) alarm_sample = Inr (OK, zero_msg\<lparr>m2_l1 := left\<rparr>, a) \<and>
     run_steps clock_step [Tick, Tick] a = Inr f \<and> told (ck f) 3"
proof -
  have r: "replicate 2 Tick = [Tick, Tick]" by (simp add: eval_nat_numeral)
  show ?thesis
    using alarm_goes_off [OF alarm_sample_ok(1,2) alarm_sample_proc(1,2), of "zero_msg\<lparr>m2_l1 := 2\<rparr>" 2] alarm_sample_proc(3)
    unfolding r by (auto simp: zero_msg_def)
qed

theorem alarm_set_and_cancelled_witness:
  "\<exists>left d e. do_setalarm 3 (zero_msg\<lparr>m2_l1 := 7\<rparr>) alarm_sample = Inr (OK, zero_msg\<lparr>m2_l1 := left\<rparr>, d) \<and>
     do_setalarm 3 zero_msg d = Inr (OK, zero_msg\<lparr>m2_l1 := 7\<rparr>, e) \<and> alarm_queue e = []"
  using alarm_set_and_cancelled [OF alarm_sample_ok(1) alarm_sample_proc(1), of "zero_msg\<lparr>m2_l1 := 7\<rparr>" zero_msg]
    alarm_sample_proc(3) alarm_sample_ok(3)
  by (auto simp: zero_msg_def)

theorem far_alarm_fires_at_once_witness:
  "\<exists>left a d. do_setalarm 3 (zero_msg\<lparr>m2_l1 := 0x7FFFFFF0\<rparr>) alarm_sample = Inr (OK, zero_msg\<lparr>m2_l1 := left\<rparr>, a) \<and>
     timer_int_handler a = Inr d \<and> told (ck d) 3"
  using far_alarm_fires_at_once [OF alarm_sample_ok(1,2) alarm_sample_proc(1,2), of "zero_msg\<lparr>m2_l1 := 0x7FFFFFF0\<rparr>"] alarm_sample_proc(3)
  by (auto simp: zero_msg_def)

text \<open>Process 1 is in an element and both its timers have run out.\<close>

definition vtimer_sample :: clkstate where
  "vtimer_sample = alarm_sample\<lparr>ck := upd_proc 1 (\<lambda>q. q\<lparr>p_misc_flags := MF_VIRT_TIMER OR MF_PROF_TIMER\<rparr>)
     ((ck alarm_sample)\<lparr>h_enable := 1, h_proc_nr := 1\<rparr>)\<rparr>"

theorem virtual_alarm_lost_witness:
  "\<exists>d. vtimer_check 1 vtimer_sample = Inr d \<and> p_sig_delay (procs (ck d) 1) = SIGPROF \<and> \<not> misc_is (ck d) 1 MF_VIRT_TIMER"
proof -
  have "misc_is (ck vtimer_sample) 1 MF_VIRT_TIMER" "misc_is (ck vtimer_sample) 1 MF_PROF_TIMER"
    "sint (p_virt_left (p_times vtimer_sample 1)) \<le> 0" "sint (p_prof_left (p_times vtimer_sample 1)) \<le> 0"
    "h_enable (ck vtimer_sample) \<noteq> 0" "h_proc_nr (ck vtimer_sample) = p_nr (procs (ck vtimer_sample) 1)"
    by (simp_all add: vtimer_sample_def alarm_sample_sel boot_sample_def misc_is_def has_def upd_proc_def recv_sample_procs)
  from virtual_alarm_lost [OF this] show ?thesis by blast
qed

end
