(* ===== verification/Sched_Calls.thy ===== *)
theory Sched_Calls
  imports Ipc_Calls
begin

text \<open>
  The kernel calls with which the servers control processes: those of a scheduler (\<open>do_schedule.c\<close>, \<open>do_schedctl.c\<close>),
  of a signal manager (\<open>do_kill.c\<close>, \<open>do_getksig.c\<close>, \<open>do_endksig.c\<close>) and of the process manager (\<open>do_runctl.c\<close>).
\<close>

abbreviation SCHEDCTL_FLAG_KERNEL :: u32 where "SCHEDCTL_FLAG_KERNEL \<equiv> 1"
abbreviation NSIG :: int where "NSIG \<equiv> 26"
abbreviation RTS_PROC_STOP :: u32 where "RTS_PROC_STOP \<equiv> 0x02"
abbreviation RC_STOP :: int where "RC_STOP \<equiv> 0"
abbreviation RC_RESUME :: int where "RC_RESUME \<equiv> 1"
abbreviation EBUSY :: int where "EBUSY \<equiv> - 16"

section \<open>Scheduling\<close>

text \<open>Only the scheduler of a process may schedule it.\<close>

definition do_schedule :: "int \<Rightarrow> message \<Rightarrow> kstate \<Rightarrow> stop + (int \<times> kstate)" where
  "do_schedule caller m s =
     (case isokendpt (sint (m9_l1 m)) s of
        None \<Rightarrow> Inr (EINVAL, s)
      | Some p \<Rightarrow>
          if p_scheduler (p_sched (procs s p)) \<noteq> Some caller then Inr (EPERM, s)
          else sched_proc p (sint (m9_s1 m)) (sint (m9_l2 m)) s)"

text \<open>\<open>r = sched_proc(\<dots>) != OK\<close> assigns the comparison: a failure is reported as 1.\<close>

definition do_schedctl :: "int \<Rightarrow> message \<Rightarrow> kstate \<Rightarrow> stop + (int \<times> kstate)" where
  "do_schedctl caller m s =
     (if m9_l1 m AND NOT SCHEDCTL_FLAG_KERNEL \<noteq> 0 then Inr (EINVAL, s)
      else case isokendpt (sint (m9_l2 m)) s of
        None \<Rightarrow> Inr (EINVAL, s)
      | Some p \<Rightarrow>
          if has (m9_l1 m) SCHEDCTL_FLAG_KERNEL
          then bnd (sched_proc p (sint (m9_s4 m)) (sint (m9_l3 m)) s) (\<lambda>(r, s).
                 if r \<noteq> OK then Inr (1, s) else Inr (OK, upd_sched p (\<lambda>n. n\<lparr>p_scheduler := None\<rparr>) s))
          else Inr (OK, upd_sched p (\<lambda>n. n\<lparr>p_scheduler := Some caller\<rparr>) s))"

section \<open>Signals\<close>

definition do_kill :: "message \<Rightarrow> kstate \<Rightarrow> stop + (int \<times> kstate)" where
  "do_kill m s =
     (case isokendpt (m2_i1 m) s of
        None \<Rightarrow> Inr (EINVAL, s)
      | Some p \<Rightarrow>
          if NSIG \<le> m2_i2 m then Inr (EINVAL, s)
          else if p < 0 then Inr (EPERM, s)
          else bnd (cause_sig p (m2_i2 m) s) (\<lambda>s. Inr (OK, s)))"

text \<open>The first user process with a new signal whose signal manager is the caller.\<close>

definition getksig_find :: "int \<Rightarrow> kstate \<Rightarrow> int option" where
  "getksig_find caller s =
     find (\<lambda>p. RTS_ISSET (procs s p) RTS_SIGNALED \<and> p_endpoint (procs s caller) = s_sig_mgr (priv_of s p)) [0 .. NR_PROCS - 1]"

definition do_getksig :: "int \<Rightarrow> message \<Rightarrow> kstate \<Rightarrow> stop + (int \<times> message \<times> kstate)" where
  "do_getksig caller m s =
     (case getksig_find caller s of
        None \<Rightarrow> Inr (OK, m\<lparr>m2_i1 := NONE\<rparr>, s)
      | Some p \<Rightarrow>
          let m = m\<lparr>m2_i1 := p_endpoint (procs s p), m2_l1 := p_pending (procs s p)\<rparr>
          in bnd (RTS_UNSET p RTS_SIGNALED (upd_proc p (\<lambda>q. q\<lparr>p_pending := 0\<rparr>) s)) (\<lambda>s. Inr (OK, m, s)))"

definition do_endksig :: "int \<Rightarrow> message \<Rightarrow> kstate \<Rightarrow> stop + (int \<times> kstate)" where
  "do_endksig caller m s =
     (case isokendpt (m2_i1 m) s of
        None \<Rightarrow> Inr (EINVAL, s)
      | Some p \<Rightarrow>
          if p_endpoint (procs s caller) \<noteq> s_sig_mgr (priv_of s p) then Inr (EPERM, s)
          else if \<not> RTS_ISSET (procs s p) RTS_SIG_PENDING then Inr (EINVAL, s)
          else if RTS_ISSET (procs s p) RTS_SIGNALED then Inr (OK, s)
          else bnd (RTS_UNSET p RTS_SIG_PENDING s) (\<lambda>s. Inr (OK, s)))"

section \<open>Stopping a process\<close>

definition do_runctl :: "message \<Rightarrow> kstate \<Rightarrow> stop + (int \<times> kstate)" where
  "do_runctl m s =
     (case isokendpt (m1_i1 m) s of
        None \<Rightarrow> Inr (EINVAL, s)
      | Some p \<Rightarrow>
          if p < 0 then Inr (EPERM, s)
          else
            let delay = (m1_i2 m = RC_STOP \<and> m1_i3 m mod 2 = 1);
                s = (if delay \<and> (RTS_ISSET (procs s p) RTS_SENDING \<or> misc_is s p MF_SC_DEFER) then set_misc p MF_SIG_DELAY s else s)
            in if delay \<and> misc_is s p MF_SIG_DELAY then Inr (EBUSY, s)
               else if m1_i2 m = RC_STOP then bnd (RTS_SET p RTS_PROC_STOP s) (\<lambda>s. Inr (OK, s))
               else if m1_i2 m = RC_RESUME
               then bnd (kassert (RTS_ISSET (procs s p) RTS_PROC_STOP) ''RTS_ISSET(rp, RTS_PROC_STOP)'' s) (\<lambda>s.
                    bnd (RTS_UNSET p RTS_PROC_STOP s) (\<lambda>s. Inr (OK, s)))
               else Inr (EINVAL, s))"

end
