(* ===== verification/Sched_Server.thy ===== *)
theory Sched_Server
  imports Sched_Calls
begin

text \<open>
  The scheduling server (\<open>servers/sched\<close>): a table with the priority and time slice of each process it schedules,
  the requests of the process manager, the message of a process that ran out of quantum, and the periodic
  balancing of the queues. The state contains the kernel state, on which its two kernel calls act. One processor.
  The timer that calls \<open>balance_queues\<close> is not part of the state: balancing may happen at any time.
\<close>

section \<open>State\<close>

abbreviation IN_USE :: u32 where "IN_USE \<equiv> 1"
abbreviation SCHED_PROC_NR :: int where "SCHED_PROC_NR \<equiv> 10"
abbreviation PM_PROC_NR :: int where "PM_PROC_NR \<equiv> 0"
abbreviation RS_PROC_NR :: int where "RS_PROC_NR \<equiv> 2"
abbreviation MIN_USER_Q :: u32 where "MIN_USER_Q \<equiv> 15"
abbreviation USER_Q :: u32 where "USER_Q \<equiv> 7"
abbreviation DEFAULT_USER_TIME_SLICE :: u32 where "DEFAULT_USER_TIME_SLICE \<equiv> 200"
abbreviation EBADEPT :: int where "EBADEPT \<equiv> - 301"
abbreviation EDEADEPT :: int where "EDEADEPT \<equiv> - 302"
abbreviation EBADCPU :: int where "EBADCPU \<equiv> - 303"
abbreviation ENOSYS :: int where "ENOSYS \<equiv> - 38"
abbreviation SCHEDULING_START :: int where "SCHEDULING_START \<equiv> 0xF02"
abbreviation SCHEDULING_STOP :: int where "SCHEDULING_STOP \<equiv> 0xF03"
abbreviation SCHEDULING_SET_NICE :: int where "SCHEDULING_SET_NICE \<equiv> 0xF04"
abbreviation SCHEDULING_INHERIT :: int where "SCHEDULING_INHERIT \<equiv> 0xF05"
abbreviation SCHEDULE_CHANGE_PRIO :: u32 where "SCHEDULE_CHANGE_PRIO \<equiv> 1"
abbreviation SCHEDULE_CHANGE_QUANTUM :: u32 where "SCHEDULE_CHANGE_QUANTUM \<equiv> 2"
abbreviation SCHEDULE_CHANGE_ALL :: u32 where "SCHEDULE_CHANGE_ALL \<equiv> 7"

record schedproc =
  sp_endpoint :: int
  sp_parent :: int
  sp_flags :: u32
  max_priority :: u32
  priority :: u32
  time_slice :: u32
  sp_cpu :: nat

record schedstate =
  sk :: kstate
  schedprocs :: "int \<Rightarrow> schedproc"
  cpu_proc :: "nat \<Rightarrow> u32"

definition upd_sp :: "int \<Rightarrow> (schedproc \<Rightarrow> schedproc) \<Rightarrow> schedstate \<Rightarrow> schedstate" where
  "upd_sp p f v = v\<lparr>schedprocs := (schedprocs v)(p := f (schedprocs v p))\<rparr>"

section \<open>Checks\<close>

definition sched_isokendpt :: "int \<Rightarrow> schedstate \<Rightarrow> int + int" where
  "sched_isokendpt e v =
     (let p = ENDPOINT_P e
      in if p < 0 then Inl EBADEPT
         else if NR_PROCS \<le> p then Inl EINVAL
         else if e \<noteq> sp_endpoint (schedprocs v p) then Inl EDEADEPT
         else if \<not> has (sp_flags (schedprocs v p)) IN_USE then Inl EDEADEPT
         else Inr p)"

definition sched_isemtyendpt :: "int \<Rightarrow> schedstate \<Rightarrow> int + int" where
  "sched_isemtyendpt e v =
     (let p = ENDPOINT_P e
      in if p < 0 then Inl EBADEPT
         else if NR_PROCS \<le> p then Inl EINVAL
         else if has (sp_flags (schedprocs v p)) IN_USE then Inl EDEADEPT
         else Inr p)"

definition accept_message :: "message \<Rightarrow> bool" where
  "accept_message m \<longleftrightarrow> m_source m = PM_PROC_NR \<or> m_source m = RS_PROC_NR"

section \<open>Kernel calls\<close>

definition sys_schedule :: "int \<Rightarrow> int \<Rightarrow> int \<Rightarrow> schedstate \<Rightarrow> stop + (int \<times> schedstate)" where
  "sys_schedule e new_prio quantum v =
     bnd (do_schedule SCHED_PROC_NR (zero_msg\<lparr>m9_l1 := of_int e, m9_s1 := of_int new_prio, m9_l2 := of_int quantum\<rparr>) (sk v))
       (\<lambda>(r, k). Inr (r, v\<lparr>sk := k\<rparr>))"

definition sys_schedctl :: "u32 \<Rightarrow> int \<Rightarrow> int \<Rightarrow> int \<Rightarrow> schedstate \<Rightarrow> stop + (int \<times> schedstate)" where
  "sys_schedctl flags e new_prio quantum v =
     bnd (do_schedctl SCHED_PROC_NR (zero_msg\<lparr>m9_l1 := flags, m9_l2 := of_int e, m9_s4 := of_int new_prio, m9_l3 := of_int quantum\<rparr>) (sk v))
       (\<lambda>(r, k). Inr (r, v\<lparr>sk := k\<rparr>))"

section \<open>Scheduling a process\<close>

definition pick_cpu :: "int \<Rightarrow> schedstate \<Rightarrow> schedstate" where
  "pick_cpu p = upd_sp p (\<lambda>r. r\<lparr>sp_cpu := 0\<rparr>)"

definition schedule_process :: "int \<Rightarrow> u32 \<Rightarrow> schedstate \<Rightarrow> stop + (int \<times> schedstate)" where
  "schedule_process p flags v =
     (let v = pick_cpu p v; r = schedprocs v p;
          new_prio = (if has flags SCHEDULE_CHANGE_PRIO then sint (priority r) else - 1);
          new_quantum = (if has flags SCHEDULE_CHANGE_QUANTUM then sint (time_slice r) else - 1)
      in sys_schedule (sp_endpoint r) new_prio new_quantum v)"

definition schedule_process_local :: "int \<Rightarrow> schedstate \<Rightarrow> stop + (int \<times> schedstate)" where
  "schedule_process_local p = schedule_process p (SCHEDULE_CHANGE_PRIO OR SCHEDULE_CHANGE_QUANTUM)"

section \<open>Requests\<close>

definition do_noquantum :: "message \<Rightarrow> schedstate \<Rightarrow> stop + (int \<times> schedstate)" where
  "do_noquantum m v =
     (case sched_isokendpt (m_source m) v of
        Inl _ \<Rightarrow> Inr (EBADEPT, v)
      | Inr p \<Rightarrow>
          schedule_process_local p
            (if priority (schedprocs v p) < MIN_USER_Q then upd_sp p (\<lambda>r. r\<lparr>priority := priority r + 1\<rparr>) v else v))"

definition do_stop_scheduling :: "message \<Rightarrow> schedstate \<Rightarrow> stop + (int \<times> schedstate)" where
  "do_stop_scheduling m v =
     (if \<not> accept_message m then Inr (EPERM, v)
      else case sched_isokendpt (sint (m9_l1 m)) v of
        Inl _ \<Rightarrow> Inr (EBADEPT, v)
      | Inr p \<Rightarrow> Inr (OK, upd_sp p (\<lambda>r. r\<lparr>sp_flags := 0\<rparr>) v))"

text \<open>A processor the kernel refuses is marked and another one picked; with one processor the kernel refuses none.\<close>

partial_function (option) start_loop :: "int \<Rightarrow> schedstate \<Rightarrow> (stop + (int \<times> schedstate)) option" where
  "start_loop p v =
     (case schedule_process p SCHEDULE_CHANGE_ALL v of
        Inl e \<Rightarrow> Some (Inl e)
      | Inr (rv, v) \<Rightarrow>
          (if rv = EBADCPU
           then start_loop p (pick_cpu p (v\<lparr>cpu_proc := (cpu_proc v)(sp_cpu (schedprocs v p) := - 1)\<rparr>))
           else Some (Inr (rv, v))))"

text \<open>The slot is filled in before the request is checked in full; it counts only once \<open>IN_USE\<close> is set.\<close>

definition start_slot :: "int \<Rightarrow> message \<Rightarrow> schedstate \<Rightarrow> schedstate" where
  "start_slot p m = upd_sp p (\<lambda>r.
     let r = r\<lparr>sp_endpoint := sint (m9_l1 m), sp_parent := sint (m9_l3 m), max_priority := m9_l4 m\<rparr>
     in if m9_l4 m < of_int NR_SCHED_QUEUES \<and> sp_endpoint r = sp_parent r
        then r\<lparr>priority := USER_Q, time_slice := DEFAULT_USER_TIME_SLICE\<rparr> else r)"

definition start_values :: "int \<Rightarrow> message \<Rightarrow> schedstate \<Rightarrow> int + schedstate" where
  "start_values p m v =
     (if m_type m = SCHEDULING_START
      then Inr (upd_sp p (\<lambda>r. r\<lparr>priority := max_priority r, time_slice := m9_l2 m\<rparr>) v)
      else case sched_isokendpt (sint (m9_l3 m)) v of
        Inl rv \<Rightarrow> Inl rv
      | Inr parent \<Rightarrow>
          Inr (upd_sp p (\<lambda>r. r\<lparr>priority := priority (schedprocs v parent), time_slice := time_slice (schedprocs v parent)\<rparr>) v))"

definition do_start_scheduling :: "message \<Rightarrow> schedstate \<Rightarrow> stop + (int \<times> message \<times> schedstate)" where
  "do_start_scheduling m v =
     bnd (kassert (m_type m = SCHEDULING_START \<or> m_type m = SCHEDULING_INHERIT) ''m_type'' v) (\<lambda>v.
     if \<not> accept_message m then Inr (EPERM, m, v)
     else case sched_isemtyendpt (sint (m9_l1 m)) v of
       Inl rv \<Rightarrow> Inr (rv, m, v)
     | Inr p \<Rightarrow>
         let v = start_slot p m v
         in if of_int NR_SCHED_QUEUES \<le> m9_l4 m then Inr (EINVAL, m, v)
            else case start_values p m v of
              Inl rv \<Rightarrow> Inr (rv, m, v)
            | Inr v \<Rightarrow>
                bnd (sys_schedctl 0 (sp_endpoint (schedprocs v p)) 0 0 v) (\<lambda>(rv, v).
                if rv \<noteq> OK then Inr (rv, m, v)
                else case start_loop p (pick_cpu p (upd_sp p (\<lambda>r. r\<lparr>sp_flags := IN_USE\<rparr>) v)) of
                  None \<Rightarrow> Inl Diverges
                | Some r \<Rightarrow> bnd r (\<lambda>(rv, v).
                    if rv \<noteq> OK then Inr (rv, m, v) else Inr (OK, m\<lparr>m9_l1 := of_int SCHED_PROC_NR\<rparr>, v))))"

definition do_nice :: "message \<Rightarrow> schedstate \<Rightarrow> stop + (int \<times> schedstate)" where
  "do_nice m v =
     (if \<not> accept_message m then Inr (EPERM, v)
      else case sched_isokendpt (sint (m9_l1 m)) v of
        Inl _ \<Rightarrow> Inr (EBADEPT, v)
      | Inr p \<Rightarrow>
          if of_int NR_SCHED_QUEUES \<le> m9_l4 m then Inr (EINVAL, v)
          else
            let old_q = priority (schedprocs v p); old_max_q = max_priority (schedprocs v p)
            in bnd (schedule_process_local p (upd_sp p (\<lambda>r. r\<lparr>max_priority := m9_l4 m, priority := m9_l4 m\<rparr>) v)) (\<lambda>(rv, v).
                 Inr (rv, if rv \<noteq> OK then upd_sp p (\<lambda>r. r\<lparr>priority := old_q, max_priority := old_max_q\<rparr>) v else v)))"

definition balance_one :: "int \<Rightarrow> schedstate \<Rightarrow> stop + schedstate" where
  "balance_one p v =
     (let r = schedprocs v p
      in if has (sp_flags r) IN_USE \<and> max_priority r < priority r
         then bnd (schedule_process_local p (upd_sp p (\<lambda>r. r\<lparr>priority := priority r - 1\<rparr>) v)) (\<lambda>(_, v). Inr v)
         else Inr v)"

definition balance_queues :: "schedstate \<Rightarrow> stop + schedstate" where
  "balance_queues = for_each balance_one [0 .. NR_PROCS - 1]"

section \<open>The main loop\<close>

text \<open>
  One request: \<open>from_kernel\<close> says whether the kernel marked the message. The result is the reply, or \<open>None\<close> when
  none is sent.
\<close>

definition sched_request :: "bool \<Rightarrow> message \<Rightarrow> schedstate \<Rightarrow> stop + (int option \<times> message \<times> schedstate)" where
  "sched_request from_kernel m v =
     (if m_type m = SCHEDULING_INHERIT \<or> m_type m = SCHEDULING_START
      then bnd (do_start_scheduling m v) (\<lambda>(r, m, v). Inr (Some r, m, v))
      else if m_type m = SCHEDULING_STOP then bnd (do_stop_scheduling m v) (\<lambda>(r, v). Inr (Some r, m, v))
      else if m_type m = SCHEDULING_SET_NICE then bnd (do_nice m v) (\<lambda>(r, v). Inr (Some r, m, v))
      else if m_type m = SCHEDULING_NO_QUANTUM
      then (if from_kernel then bnd (do_noquantum m v) (\<lambda>(_, v). Inr (None, m, v)) else Inr (Some EPERM, m, v))
      else Inr (Some ENOSYS, m, v))"

end
