(* ===== verification/Sched_Laws.thy ===== *)
theory Sched_Laws
  imports Sched_Server Kcall_Laws
begin

text \<open>
  Laws of the scheduling server. Every request and every balancing keeps the ready lists of the kernel and the table of the
  server in order; a process out of quantum is moved down one queue and balancing brings it back; what a refused
  start request leaves behind.
\<close>

section \<open>Frames of the ready list operations\<close>

text \<open>Whatever holds between states that differ in flags or in scheduling data only, holds across the operations.\<close>

lemma RTS_UNSET_frame_rule:
  assumes s: "ready_inv s" "cur_ok s" "isokprocn p" "RTS_UNSET p f s = Inr t"
    and R: "\<And>a b. sched_only a b \<Longrightarrow> R a b" "\<And>a q g. R a (with_flags q g a)" "\<And>a b c. R a b \<Longrightarrow> R b c \<Longrightarrow> R a c"
  shows "R s t"
proof -
  let ?f = "clrf (p_rts_flags (procs s p)) f" let ?w = "\<not> proc_is_runnable (procs s p) \<and> ?f = 0"
  let ?S = "if ?w then ready_flags p (with_flags p ?f s) else with_flags p ?f s"
  have so: "sched_only ?S t" using RTS_UNSET_ok [of "ready_list s" s p f] s by (auto simp: ready_inv_def)
  have rf: "R a (ready_flags p a)" for a using R(1) [OF sched_only_refl] R(2) by (simp add: ready_flags_def)
  have "R s (ready_flags p (with_flags p ?f s))" by (rule R(3) [OF R(2) rf])
  then have "R s ?S" using R(2) [of s p ?f] by (intro if_split [of "R s", THEN iffD2]) blast
  then show ?thesis by (rule R(3) [OF _ R(1) [OF so]])
qed

lemma RTS_SET_frame_rule:
  assumes s: "ready_inv s" "isokprocn p" "f \<noteq> 0" "RTS_SET p f s = Inr t"
    and R: "\<And>a b. sched_only a b \<Longrightarrow> R a b" "\<And>a q g. R a (with_flags q g a)" "\<And>a b c. R a b \<Longrightarrow> R b c \<Longrightarrow> R a c"
  shows "R s t"
proof -
  have "sched_only (with_flags p (setf (p_rts_flags (procs s p)) f) s) t"
    using RTS_SET_ok [of "ready_list s" s p f] s by (auto simp: ready_inv_def)
  then show ?thesis by (rule R(3) [OF R(2) R(1)])
qed

text \<open>What the servers read of a process, but for its flags and its priority.\<close>

definition same_ctl :: "kstate \<Rightarrow> kstate \<Rightarrow> bool" where
  "same_ctl s t \<longleftrightarrow> ppriv_addr t = ppriv_addr s \<and> proc_ptr t = proc_ptr s \<and> h_unstable_state t = h_unstable_state s \<and>
     (\<forall>x. p_endpoint (procs t x) = p_endpoint (procs s x) \<and> p_priv (procs t x) = p_priv (procs s x) \<and>
        p_pending (procs t x) = p_pending (procs s x) \<and> p_nr (procs t x) = p_nr (procs s x) \<and>
        p_scheduler (p_sched (procs t x)) = p_scheduler (p_sched (procs s x)) \<and>
        p_misc_flags (procs t x) = p_misc_flags (procs s x))"

definition same_quantum :: "kstate \<Rightarrow> kstate \<Rightarrow> bool" where
  "same_quantum s t \<longleftrightarrow> (\<forall>x. p_quantum_size_ms (procs t x) = p_quantum_size_ms (procs s x))"

lemma same_ctl_refl [simp]: "same_ctl s s"
  by (simp add: same_ctl_def)

lemma same_ctl_trans: "same_ctl s t \<Longrightarrow> same_ctl t u \<Longrightarrow> same_ctl s u"
  by (simp add: same_ctl_def)

lemma same_ctl_sched: "sched_only s t \<Longrightarrow> same_ctl s t"
proof -
  assume so: "sched_only s t"
  have "p_scheduler (p_sched (procs t x)) = p_scheduler (p_sched (procs s x))" for x using so by (simp only: sched_only_def)
  then show ?thesis unfolding same_ctl_def using sched_only_proc [OF so] sched_only_sel [OF so] by simp
qed

lemma same_ctl_flags: "same_ctl s (with_flags p f s)"
  by (simp add: same_ctl_def with_flags_def upd_proc_def)

lemma same_quantum_sched: "sched_only s t \<Longrightarrow> same_quantum s t"
proof -
  assume "sched_only s t"
  then have "(procs t x)\<lparr>p_sched := p_sched (procs s x)\<rparr> = procs s x" for x by (simp add: sched_only_def)
  from arg_cong [OF this, of p_quantum_size_ms] show ?thesis by (simp add: same_quantum_def)
qed

lemma RTS_frames:
  assumes "ready_inv s" "cur_ok s" "isokprocn p"
  shows "RTS_UNSET p f s = Inr t \<Longrightarrow> same_ctl s t \<and> same_quantum s t"
    "f \<noteq> 0 \<Longrightarrow> RTS_SET p f s = Inr t \<Longrightarrow> same_ctl s t"
proof -
  have q: "same_quantum a (with_flags x g a)" "same_quantum a b \<Longrightarrow> same_quantum b c \<Longrightarrow> same_quantum a c" for a b c x g
    by (simp_all add: same_quantum_def with_flags_def upd_proc_def)
  show "RTS_UNSET p f s = Inr t \<Longrightarrow> same_ctl s t \<and> same_quantum s t"
    using RTS_UNSET_frame_rule [where R = same_ctl, OF assms _ same_ctl_sched same_ctl_flags same_ctl_trans]
      RTS_UNSET_frame_rule [where R = same_quantum, OF assms _ same_quantum_sched q] by simp
  show "f \<noteq> 0 \<Longrightarrow> RTS_SET p f s = Inr t \<Longrightarrow> same_ctl s t"
    using RTS_SET_frame_rule [where R = same_ctl, OF assms(1,3) _ _ same_ctl_sched same_ctl_flags same_ctl_trans] by simp
qed

section \<open>Scheduling\<close>

lemma ready_inv_quantum:
  "ready_inv (upd_proc p (\<lambda>q. q\<lparr>p_quantum_size_ms := a, p_cpu_time_left := b\<rparr>) s) = ready_inv s" (is "ready_inv ?t = _")
proof -
  have "same_sched s ?t" by (simp add: same_sched_def priv_of_def upd_proc_def)
  then show ?thesis by (rule same_sched_view(3))
qed

text \<open>What a successful \<open>sched_proc\<close> does: the process gets the priority and the quantum and loses the flag.\<close>

lemma sched_proc_effect:
  assumes inv: "ready_inv s" "cur_ok s" and p: "isokprocn p" and n: "0 \<le> n" "n < NR_SCHED_QUEUES" and q: "1 \<le> q"
  obtains t where "sched_proc p n q s = Inr (OK, t)" "ready_inv t" "cur_ok t" "prio t = (prio s)(p := n)" "same_ctl s t"
    "p_rts_flags (procs t p) = clrf (p_rts_flags (procs s p)) RTS_NO_QUANTUM" "p_quantum_size_ms (procs t p) = of_int q"
proof -
  let ?r = "proc_is_runnable (procs s p)"
  obtain a where a: "(if ?r then RTS_SET p RTS_NO_QUANTUM s else Inr s) = Inr a" "ready_inv a" "cur_ok a" "prio a = prio s" "same_ctl s a"
    "p_rts_flags (procs a p) = (if ?r then RTS_NO_QUANTUM else p_rts_flags (procs s p))"
  proof (cases ?r)
    case True
    obtain a where "RTS_SET p RTS_NO_QUANTUM s = Inr a" "ready_inv a" "cur_ok a" "prio a = prio s"
      "p_rts_flags (procs a p) = setf (p_rts_flags (procs s p)) RTS_NO_QUANTUM"
      by (rule RTS_SET_frame [OF inv p, of RTS_NO_QUANTUM]) auto
    moreover from this have "same_ctl s a" using RTS_frames(2) [OF inv p, of RTS_NO_QUANTUM a] by simp
    ultimately show thesis using that [of a] True by (simp add: proc_is_runnable_def setf_def)
  next
    case False
    then show thesis using that [of s] inv by simp
  qed
  have nr: "\<not> proc_is_runnable (procs a p)" using a(6) by (auto simp: proc_is_runnable_def)
  let ?u = "upd_sched p (\<lambda>x. x\<lparr>p_priority := n\<rparr>) a"
  let ?v = "upd_proc p (\<lambda>x. x\<lparr>p_quantum_size_ms := of_int q, p_cpu_time_left := ms_2_cpu_time (of_int q) ?u\<rparr>) ?u"
  have "rq_inv (ready_list a) ?u" using rq_inv_reprioritise [OF _ nr n] a(2) by (simp add: ready_inv_def)
  then have "ready_inv ?u" using ready_invI by blast
  then have iv: "ready_inv ?v" by (simp only: ready_inv_quantum)
  have pv: "prio ?v = (prio s)(p := n)" "proc_ptr ?v = proc_ptr a" "p_rts_flags (procs ?v p) = p_rts_flags (procs a p)"
    using a(4) by (auto simp: prio_def upd_sched_def upd_proc_def fun_eq_iff)
  have cv: "cur_ok ?v" using a(3) a(4) pv p by (auto simp: cur_ok_def)
  have sv: "same_ctl a ?v" by (simp add: same_ctl_def upd_sched_def upd_proc_def)
  obtain t where t: "RTS_UNSET p RTS_NO_QUANTUM ?v = Inr t" "ready_inv t" "cur_ok t"
    "p_rts_flags (procs t p) = clrf (p_rts_flags (procs ?v p)) RTS_NO_QUANTUM" "prio t = prio ?v"
    by (rule RTS_UNSET_frame [OF iv cv p]) blast
  have fr: "same_ctl ?v t" "same_quantum ?v t" using RTS_frames(1) [OF iv cv p t(1)] by simp_all
  have "sched_proc p n q s = Inr (OK, t)" using a(1) nr n q t(1) by (simp add: sched_proc_def Let_def)
  moreover have "same_ctl s t" using a(5) sv fr(1) same_ctl_trans by blast
  moreover have "p_rts_flags (procs t p) = clrf (p_rts_flags (procs s p)) RTS_NO_QUANTUM"
    using t(4) pv(3) a(6) by (auto simp: proc_is_runnable_def clrf_def)
  moreover have "p_quantum_size_ms (procs t p) = of_int q" using fr(2) by (simp add: same_quantum_def)
  ultimately show thesis using that t(2,3,5) pv(1) by simp
qed

lemma sched_proc_result: "sched_proc p n q s = Inr (r, t) \<Longrightarrow> r = OK \<or> r = EINVAL"
  by (auto simp: sched_proc_def bnd_eq_Inr Let_def split: if_splits)

lemma sched_proc_safe:
  assumes "ready_inv s" "cur_ok s" "isokprocn p" "n \<noteq> NR_SCHED_QUEUES"
  shows "\<exists>r t. sched_proc p n q s = Inr (r, t) \<and> ready_inv t \<and> cur_ok t \<and> (r = OK \<or> r = EINVAL)"
proof -
  obtain t where "sched_step (Schedule p n q) s = Inr t" "ready_inv t" "cur_ok t"
    using sched.step_safe [of s "Schedule p n q"] assms by auto
  then show ?thesis using sched_proc_result [of p n q s] by (auto simp: bnd_eq_Inr)
qed

lemma isokendpt_range: "isokendpt e s = Some p \<Longrightarrow> isokprocn p"
  by (auto simp: isokendpt_def Let_def split: if_splits)

lemma do_schedule_safe:
  assumes "ready_inv s" "cur_ok s" "sint (m9_s1 m) \<noteq> NR_SCHED_QUEUES"
  shows "\<exists>r t. do_schedule c m s = Inr (r, t) \<and> ready_inv t \<and> cur_ok t \<and> r \<noteq> EBADCPU"
proof (cases "isokendpt (sint (m9_l1 m)) s")
  case None
  then show ?thesis using assms by (simp add: do_schedule_def)
next
  case (Some p)
  then show ?thesis using sched_proc_safe [OF assms(1,2) isokendpt_range [OF Some] assms(3), of "sint (m9_l2 m)"] assms
    by (auto simp: do_schedule_def)
qed

text \<open>Taking over a process touches only the name of its scheduler.\<close>

lemma ready_inv_scheduler: "ready_inv (upd_sched p (\<lambda>n. n\<lparr>p_scheduler := x\<rparr>) s) = ready_inv s"
  "cur_ok (upd_sched p (\<lambda>n. n\<lparr>p_scheduler := x\<rparr>) s) = cur_ok s"
proof -
  let ?t = "upd_sched p (\<lambda>n. n\<lparr>p_scheduler := x\<rparr>) s"
  have e: "nextready ?t = nextready s" "prio ?t = prio s" "sched_ok ?t = sched_ok s" "run_q_head ?t = run_q_head s"
    "run_q_tail ?t = run_q_tail s" "proc_ptr ?t = proc_ptr s" "proc_is_runnable (procs ?t y) = proc_is_runnable (procs s y)" for y
    by (auto simp: nextready_def prio_def sched_ok_def proc_ptr_ok_def priv_of_def proc_is_runnable_def fun_eq_iff upd_sched_def upd_proc_def)
  show "ready_inv ?t = ready_inv s" 
  proof -
    have "ready_list ?t = ready_list s" using e(1,4) by (intro ext) (simp add: ready_list_def)
    then show ?thesis using e by (simp add: ready_inv_def rq_inv_def rq_lists_def)
  qed
  show "cur_ok ?t = cur_ok s" using e by (simp add: cur_ok_def)
qed

lemma take_over_safe:
  assumes "ready_inv s" "cur_ok s" "m9_l1 m = 0"
  shows "\<exists>r t. do_schedctl c m s = Inr (r, t) \<and> ready_inv t \<and> cur_ok t"
  using assms by (cases "isokendpt (sint (m9_l2 m)) s") (simp_all add: do_schedctl_def ready_inv_scheduler)

section \<open>The server\<close>

lemma upd_sp_sel [simp]: "sk (upd_sp p f v) = sk v" "cpu_proc (upd_sp p f v) = cpu_proc v"
  "schedprocs (upd_sp p f v) = (schedprocs v)(p := f (schedprocs v p))"
  by (simp_all add: upd_sp_def)

lemma pick_cpu_sel [simp]: "sk (pick_cpu p v) = sk v" "cpu_proc (pick_cpu p v) = cpu_proc v"
  "schedprocs (pick_cpu p v) = (schedprocs v)(p := (schedprocs v p)\<lparr>sp_cpu := 0\<rparr>)"
  by (simp_all add: pick_cpu_def)

text \<open>The kernel's ready lists are intact, and every slot in use names queues that exist.\<close>

definition slot_ok :: "schedproc \<Rightarrow> bool" where
  "slot_ok r \<longleftrightarrow> (has (sp_flags r) IN_USE \<longrightarrow> priority r < 16 \<and> max_priority r < 16)"

definition srv_ok :: "schedstate \<Rightarrow> bool" where
  "srv_ok v \<longleftrightarrow> ready_inv (sk v) \<and> cur_ok (sk v) \<and> (\<forall>p. slot_ok (schedprocs v p))"

lemma small_prio:
  assumes "(w :: u32) < 16"
  shows "sint w = int (unat w)" "sint (of_int (sint w) :: u16) = int (unat w)" "int (unat w) < 16"
proof -
  have u: "0 \<le> uint w" "uint w < 16" using assms by (simp_all add: word_less_def)
  have t: "signed_take_bit n (uint w) = uint w" if "4 \<le> n" for n
  proof (rule signed_take_bit_int_eq_self)
    show "- (2 ^ n) \<le> uint w" using u(1) by (metis neg_le_0_iff_le order_trans zero_le_numeral zero_le_power)
    have "(2 :: int) ^ 4 \<le> 2 ^ n" using that by (intro power_increasing) auto
    then show "uint w < 2 ^ n" using u(2) by simp
  qed
  show s: "sint w = int (unat w)" by (simp add: sint_uint t)
  show "sint (of_int (sint w) :: u16) = int (unat w)" unfolding s by (simp only: uint_nat [symmetric] signed_of_int) (simp add: t)
  show "int (unat w) < 16" using u by simp
qed

lemma schedule_process_safe:
  assumes "ready_inv (sk v)" "cur_ok (sk v)" "priority (schedprocs v p) < 16"
  obtains r k where "schedule_process p flags v = Inr (r, (pick_cpu p v)\<lparr>sk := k\<rparr>)" "ready_inv k" "cur_ok k" "r \<noteq> EBADCPU"
proof -
  let ?m = "zero_msg\<lparr>m9_l1 := of_int (sp_endpoint (schedprocs v p)),
      m9_s1 := of_int (if has flags SCHEDULE_CHANGE_PRIO then sint (priority (schedprocs v p)) else - 1),
      m9_l2 := of_int (if has flags SCHEDULE_CHANGE_QUANTUM then sint (time_slice (schedprocs v p)) else - 1)\<rparr>"
  have "sint (m9_s1 ?m) \<noteq> NR_SCHED_QUEUES" using small_prio [OF assms(3)] by (cases "has flags SCHEDULE_CHANGE_PRIO") simp_all
  then obtain r k where "do_schedule SCHED_PROC_NR ?m (sk v) = Inr (r, k)" "ready_inv k" "cur_ok k" "r \<noteq> EBADCPU"
    using do_schedule_safe [OF assms(1,2)] by blast
  then show thesis using that [of r k] by (simp add: schedule_process_def Let_def sys_schedule_def cong: if_cong)
qed

text \<open>With one processor the kernel never refuses it, so the loop of \<open>do_start_scheduling\<close> runs once.\<close>

lemma start_loop_once:
  assumes "ready_inv (sk v)" "cur_ok (sk v)" "priority (schedprocs v p) < 16"
  shows "start_loop p v = Some (schedule_process p SCHEDULE_CHANGE_ALL v)"
proof -
  obtain r k where "schedule_process p SCHEDULE_CHANGE_ALL v = Inr (r, (pick_cpu p v)\<lparr>sk := k\<rparr>)" "r \<noteq> EBADCPU"
    by (rule schedule_process_safe [OF assms])
  then show ?thesis by (subst start_loop.simps) simp
qed

lemma srv_ok_kernel: "ready_inv k \<Longrightarrow> cur_ok k \<Longrightarrow> srv_ok v \<Longrightarrow> srv_ok (v\<lparr>sk := k\<rparr>)"
  by (simp add: srv_ok_def)

lemma srv_ok_slot: "srv_ok v \<Longrightarrow> (slot_ok (schedprocs v p) \<Longrightarrow> slot_ok (f (schedprocs v p))) \<Longrightarrow> srv_ok (upd_sp p f v)"
  by (simp add: srv_ok_def)

lemma srv_ok_pick: "srv_ok v \<Longrightarrow> srv_ok (pick_cpu p v)"
  unfolding pick_cpu_def by (rule srv_ok_slot) (simp_all add: slot_ok_def)

lemma srv_schedule:
  assumes "srv_ok v" "priority (schedprocs v p) < 16"
  obtains r k where "schedule_process p flags v = Inr (r, (pick_cpu p v)\<lparr>sk := k\<rparr>)" "srv_ok ((pick_cpu p v)\<lparr>sk := k\<rparr>)"
  using assms srv_ok_kernel srv_ok_pick schedule_process_safe [of v p flags] by (metis srv_ok_def)

lemma sched_isokendpt_slot: "sched_isokendpt e v = Inr p \<Longrightarrow> srv_ok v \<Longrightarrow>
    has (sp_flags (schedprocs v p)) IN_USE \<and> priority (schedprocs v p) < 16 \<and> max_priority (schedprocs v p) < 16"
  by (auto simp: sched_isokendpt_def srv_ok_def slot_ok_def Let_def split: if_splits)

section \<open>Every request keeps the table within the queues\<close>

lemma do_noquantum_safe:
  assumes v: "srv_ok v"
  shows "\<exists>r t. do_noquantum m v = Inr (r, t) \<and> srv_ok t"
proof (cases "sched_isokendpt (m_source m) v")
  case (Inl e)
  then show ?thesis using v by (simp add: do_noquantum_def)
next
  case (Inr p)
  let ?w = "if priority (schedprocs v p) < MIN_USER_Q then upd_sp p (\<lambda>r. r\<lparr>priority := priority r + 1\<rparr>) v else v"
  have b: "x < 15 \<Longrightarrow> x + 1 < (16 :: u32)" for x by unat_arith
  have p: "priority (schedprocs ?w p) < 16" using sched_isokendpt_slot [OF Inr v] b by simp
  have "srv_ok ?w" using v p by (auto simp: srv_ok_def slot_ok_def)
  then obtain r k where "schedule_process p (SCHEDULE_CHANGE_PRIO OR SCHEDULE_CHANGE_QUANTUM) ?w = Inr (r, (pick_cpu p ?w)\<lparr>sk := k\<rparr>)"
    "srv_ok ((pick_cpu p ?w)\<lparr>sk := k\<rparr>)" using srv_schedule [OF _ p] by blast
  then show ?thesis using Inr by (simp only: do_noquantum_def sum.case schedule_process_local_def) blast
qed

lemma do_stop_scheduling_safe:
  assumes "srv_ok v"
  shows "\<exists>r t. do_stop_scheduling m v = Inr (r, t) \<and> srv_ok t"
  using assms by (auto simp: do_stop_scheduling_def split: sum.split intro!: srv_ok_slot) (simp add: slot_ok_def has_def)

lemma do_nice_safe:
  assumes v: "srv_ok v"
  shows "\<exists>r t. do_nice m v = Inr (r, t) \<and> srv_ok t"
proof (cases "accept_message m \<and> \<not> of_int NR_SCHED_QUEUES \<le> m9_l4 m")
  case False
  then show ?thesis using v by (auto simp: do_nice_def split: sum.split)
next
  case q: True
  show ?thesis
  proof (cases "sched_isokendpt (sint (m9_l1 m)) v")
    case (Inl e)
    then show ?thesis using v by (simp add: do_nice_def)
  next
    case (Inr p)
    let ?w = "upd_sp p (\<lambda>r. r\<lparr>max_priority := m9_l4 m, priority := m9_l4 m\<rparr>) v"
    note o = sched_isokendpt_slot [OF Inr v]
    have w: "srv_ok ?w" by (rule srv_ok_slot [OF v]) (use q in \<open>simp add: slot_ok_def not_le\<close>)
    have "priority (schedprocs ?w p) < 16" using q by (simp add: not_le)
    then obtain r k where k: "schedule_process p (SCHEDULE_CHANGE_PRIO OR SCHEDULE_CHANGE_QUANTUM) ?w = Inr (r, (pick_cpu p ?w)\<lparr>sk := k\<rparr>)"
      "srv_ok ((pick_cpu p ?w)\<lparr>sk := k\<rparr>)" using srv_schedule [OF w] by blast
    have "srv_ok (upd_sp p (\<lambda>r. r\<lparr>priority := priority (schedprocs v p), max_priority := max_priority (schedprocs v p)\<rparr>) ((pick_cpu p ?w)\<lparr>sk := k\<rparr>))"
      by (rule srv_ok_slot [OF k(2)]) (use o in \<open>simp add: slot_ok_def\<close>)
    then show ?thesis using Inr q k by (auto simp: do_nice_def schedule_process_local_def Let_def)
  qed
qed

lemma balance_one_safe:
  assumes v: "srv_ok v"
  shows "\<exists>t. balance_one p v = Inr t \<and> srv_ok t"
proof (cases "has (sp_flags (schedprocs v p)) IN_USE \<and> max_priority (schedprocs v p) < priority (schedprocs v p)")
  case False
  then show ?thesis using v by (auto simp: balance_one_def)
next
  case True
  let ?w = "upd_sp p (\<lambda>r. r\<lparr>priority := priority r - 1\<rparr>) v"
  have b: "y < x \<Longrightarrow> x < 16 \<Longrightarrow> x - 1 < (16 :: u32)" for x y by unat_arith
  have p: "priority (schedprocs ?w p) < 16" using True v b by (auto simp: srv_ok_def slot_ok_def)
  have "srv_ok ?w" using v p by (auto simp: srv_ok_def slot_ok_def)
  then obtain r k where "schedule_process p (SCHEDULE_CHANGE_PRIO OR SCHEDULE_CHANGE_QUANTUM) ?w = Inr (r, (pick_cpu p ?w)\<lparr>sk := k\<rparr>)"
    "srv_ok ((pick_cpu p ?w)\<lparr>sk := k\<rparr>)" using srv_schedule [OF _ p] by blast
  then show ?thesis using True by (simp add: balance_one_def Let_def schedule_process_local_def)
qed

lemma balance_queues_safe: "srv_ok v \<Longrightarrow> \<exists>t. balance_queues v = Inr t \<and> srv_ok t"
  unfolding balance_queues_def by (rule for_each_inv) (simp_all add: balance_one_safe)

lemma start_slot_ok:
  assumes "srv_ok v" "\<not> has (sp_flags (schedprocs v p)) IN_USE"
  shows "srv_ok (start_slot p m v)" "\<not> has (sp_flags (schedprocs (start_slot p m v) p)) IN_USE" "max_priority (schedprocs (start_slot p m v) p) = m9_l4 m"
proof -
  show "srv_ok (start_slot p m v)" unfolding start_slot_def
    by (rule srv_ok_slot [OF assms(1)]) (use assms(2) in \<open>simp add: slot_ok_def Let_def\<close>)
qed (use assms(2) in \<open>simp_all add: start_slot_def Let_def\<close>)

lemma start_values_ok:
  assumes v: "srv_ok v" "\<not> has (sp_flags (schedprocs v p)) IN_USE" "max_priority (schedprocs v p) < 16" and w: "start_values p m v = Inr w"
  shows "srv_ok w" "\<not> has (sp_flags (schedprocs w p)) IN_USE" "priority (schedprocs w p) < 16" "max_priority (schedprocs w p) < 16"
proof -
  have "srv_ok w \<and> \<not> has (sp_flags (schedprocs w p)) IN_USE \<and> priority (schedprocs w p) < 16 \<and> max_priority (schedprocs w p) < 16"
  proof (cases "m_type m = SCHEDULING_START")
    case True
    then show ?thesis using v w by (auto simp: start_values_def slot_ok_def intro!: srv_ok_slot)
  next
    case False
    then obtain q where q: "sched_isokendpt (sint (m9_l3 m)) v = Inr q" using w by (auto simp: start_values_def split: sum.splits)
    then show ?thesis using False v w sched_isokendpt_slot [OF q v(1)] by (auto simp: start_values_def slot_ok_def intro!: srv_ok_slot)
  qed
  then show "srv_ok w" "\<not> has (sp_flags (schedprocs w p)) IN_USE" "priority (schedprocs w p) < 16" "max_priority (schedprocs w p) < 16"
    by simp_all
qed

text \<open>The end of \<open>do_start_scheduling\<close>, from the moment the slot has its values.\<close>

lemma start_rest_safe:
  assumes v: "srv_ok v" "priority (schedprocs v p) < 16" "max_priority (schedprocs v p) < 16"
  shows "\<exists>r m' t. bnd (sys_schedctl 0 (sp_endpoint (schedprocs v p)) 0 0 v) (\<lambda>(rv, v).
      if rv \<noteq> OK then Inr (rv, m, v)
      else case start_loop p (pick_cpu p (upd_sp p (\<lambda>r. r\<lparr>sp_flags := IN_USE\<rparr>) v)) of
        None \<Rightarrow> Inl Diverges
      | Some r \<Rightarrow> bnd r (\<lambda>(rv, v). if rv \<noteq> OK then Inr (rv, m, v) else Inr (OK, m\<lparr>m9_l1 := of_int SCHED_PROC_NR\<rparr>, v)))
    = Inr (r, m', t) \<and> srv_ok t"
proof -
  let ?m = "zero_msg\<lparr>m9_l1 := 0, m9_l2 := of_int (sp_endpoint (schedprocs v p)), m9_s4 := of_int 0, m9_l3 := of_int 0\<rparr>"
  obtain rv k where k: "do_schedctl SCHED_PROC_NR ?m (sk v) = Inr (rv, k)" "ready_inv k" "cur_ok k"
    using take_over_safe [of "sk v" ?m SCHED_PROC_NR] v by (auto simp: srv_ok_def)
  let ?w = "pick_cpu p (upd_sp p (\<lambda>r. r\<lparr>sp_flags := IN_USE\<rparr>) (v\<lparr>sk := k\<rparr>))"
  have kv: "srv_ok (v\<lparr>sk := k\<rparr>)" using srv_ok_kernel [OF k(2,3) v(1)] .
  have w: "srv_ok ?w" by (intro srv_ok_pick srv_ok_slot [OF kv]) (use v in \<open>simp add: slot_ok_def\<close>)
  have pw: "priority (schedprocs ?w p) < 16" using v by simp
  obtain r l where l: "schedule_process p SCHEDULE_CHANGE_ALL ?w = Inr (r, (pick_cpu p ?w)\<lparr>sk := l\<rparr>)" "srv_ok ((pick_cpu p ?w)\<lparr>sk := l\<rparr>)"
    by (rule srv_schedule [OF w pw])
  have sl: "start_loop p ?w = Some (schedule_process p SCHEDULE_CHANGE_ALL ?w)"
    using start_loop_once [of ?w p] w pw by (simp add: srv_ok_def)
  have sc: "sys_schedctl 0 (sp_endpoint (schedprocs v p)) 0 0 v = Inr (rv, v\<lparr>sk := k\<rparr>)" using k(1) by (simp add: sys_schedctl_def)
  show ?thesis
    using kv l(2) by (cases "rv = OK"; cases "r = OK")
      ((simp only: sc sl l(1) bnd_Inr prod.case option.case if_True if_False simp_thms)?, blast)+
qed

lemma do_start_scheduling_safe:
  assumes v: "srv_ok v" and m: "m_type m = SCHEDULING_START \<or> m_type m = SCHEDULING_INHERIT"
  shows "\<exists>r m' t. do_start_scheduling m v = Inr (r, m', t) \<and> srv_ok t"
proof (cases "\<not> accept_message m")
  case True
  then show ?thesis using v m by (simp add: do_start_scheduling_def)
next
  case a: False
  show ?thesis
  proof (cases "sched_isemtyendpt (sint (m9_l1 m)) v")
    case (Inl e)
    then show ?thesis using a v m by (simp add: do_start_scheduling_def)
  next
    case (Inr p)
    then have nu: "\<not> has (sp_flags (schedprocs v p)) IN_USE" by (auto simp: sched_isemtyendpt_def Let_def split: if_splits)
    let ?w = "start_slot p m v"
    note w = start_slot_ok [OF v nu, of m]
    show ?thesis
    proof (cases "16 \<le> m9_l4 m")
      case True
      then show ?thesis using a m Inr w by (simp add: do_start_scheduling_def Let_def)
    next
      case q: False
      show ?thesis
      proof (cases "start_values p m ?w")
        case (Inl e)
        then show ?thesis using a m \<open>sched_isemtyendpt _ _ = _\<close> w q by (simp add: do_start_scheduling_def Let_def)
      next
        case x: (Inr x)
        note sv = start_values_ok [OF w(1,2) _ x]
        have mq: "max_priority (schedprocs ?w p) < 16" using w(3) q by simp
        have "do_start_scheduling m v = bnd (sys_schedctl 0 (sp_endpoint (schedprocs x p)) 0 0 x) (\<lambda>(rv, v).
            if rv \<noteq> OK then Inr (rv, m, v)
            else case start_loop p (pick_cpu p (upd_sp p (\<lambda>r. r\<lparr>sp_flags := IN_USE\<rparr>) v)) of
              None \<Rightarrow> Inl Diverges
            | Some r \<Rightarrow> bnd r (\<lambda>(rv, v). if rv \<noteq> OK then Inr (rv, m, v) else Inr (OK, m\<lparr>m9_l1 := of_int SCHED_PROC_NR\<rparr>, v)))"
          using a m Inr q x by (simp only: do_start_scheduling_def Let_def kassert_True bnd_Inr sum.case if_False of_int_numeral refl simp_thms)
        then show ?thesis using start_rest_safe [OF sv(1,3,4) [OF mq], of m] by (simp only:)
      qed
    qed
  qed
qed

section \<open>The main loop\<close>

datatype sched_event = Request bool message | Balance

fun sched_event_step :: "sched_event \<Rightarrow> schedstate \<Rightarrow> stop + schedstate" where
  "sched_event_step (Request k m) v = bnd (sched_request k m v) (\<lambda>(_, _, v). Inr v)"
| "sched_event_step Balance v = balance_queues v"

lemma sched_event_safe: "srv_ok v \<Longrightarrow> \<exists>t. sched_event_step e v = Inr t \<and> srv_ok t"
proof (cases e)
  case (Request k m)
  moreover assume v: "srv_ok v"
  ultimately show ?thesis
    using do_start_scheduling_safe [OF v, of m] do_stop_scheduling_safe [OF v, of m] do_nice_safe [OF v, of m] do_noquantum_safe [OF v, of m]
    by (auto simp: sched_request_def)
qed (simp add: balance_queues_safe)

interpretation srv: safe_steps srv_ok "\<lambda>_. True" sched_event_step
  by unfold_locales (use sched_event_safe in blast)

text \<open>C17. Whatever requests the scheduling server receives, from whom, and whenever it balances its queues: no request
  makes the kernel stop, the kernel's ready lists stay intact, and the table of the server keeps naming
  queues that exist.\<close>

theorem scheduler_within_queues:
  assumes "ready_inv (sk v)" "cur_ok (sk v)" "\<forall>p. has (sp_flags (schedprocs v p)) IN_USE \<longrightarrow> priority (schedprocs v p) < 16 \<and> max_priority (schedprocs v p) < 16"
  shows "\<exists>t. run_steps sched_event_step es v = Inr t \<and> ready_inv (sk t) \<and> cur_ok (sk t) \<and>
    (\<forall>p. has (sp_flags (schedprocs t p)) IN_USE \<longrightarrow> priority (schedprocs t p) < 16 \<and> max_priority (schedprocs t p) < 16)"
  using srv.run_safe [of v es] assms by (simp add: srv_ok_def slot_ok_def)

section \<open>Balancing\<close>

text \<open>One balancing moves a slot in use that is below its best priority one queue up.\<close>

definition aged :: "schedproc \<Rightarrow> schedproc" where
  "aged r = (if has (sp_flags r) IN_USE \<and> max_priority r < priority r then r\<lparr>priority := priority r - 1, sp_cpu := 0\<rparr> else r)"

lemma balance_one_table: "balance_one p v = Inr t \<Longrightarrow> schedprocs t = (schedprocs v)(p := aged (schedprocs v p))"
  by (auto simp: balance_one_def aged_def Let_def schedule_process_local_def schedule_process_def sys_schedule_def bnd_eq_Inr split: if_splits)

lemma for_each_balance:
  "for_each balance_one ps v = Inr t \<Longrightarrow> distinct ps \<Longrightarrow> schedprocs t = (\<lambda>p. if p \<in> set ps then aged (schedprocs v p) else schedprocs v p)"
proof (induction ps arbitrary: v)
  case (Cons p ps)
  then obtain w where w: "balance_one p v = Inr w" "for_each balance_one ps w = Inr t" by (auto simp: bnd_eq_Inr)
  then show ?case using Cons.IH [OF w(2)] Cons.prems(2) balance_one_table [OF w(1)] by (auto simp: fun_eq_iff)
qed simp

lemma balance_queues_table:
  assumes "balance_queues v = Inr t" "0 \<le> p" "p < NR_PROCS"
  shows "schedprocs t p = aged (schedprocs v p)"
  using for_each_balance [OF assms(1) [unfolded balance_queues_def]] assms(2,3) by simp

lemma aged_slot: "sp_flags (aged r) = sp_flags r" "max_priority (aged r) = max_priority r"
  by (simp_all add: aged_def)

lemma aged_priority:
  assumes "has (sp_flags r) IN_USE"
  shows "unat (priority (aged r)) = (if unat (max_priority r) < unat (priority r) then unat (priority r) - 1 else unat (priority r))"
proof -
  have "(m :: u32) < x \<Longrightarrow> unat (x - 1) = unat x - 1" for m x by unat_arith
  then show ?thesis using assms by (auto simp: aged_def word_less_nat_alt)
qed

lemma balance_rounds:
  assumes "srv_ok v" "0 \<le> p" "p < NR_PROCS" "has (sp_flags (schedprocs v p)) IN_USE"
  shows "\<exists>t. run_steps sched_event_step (replicate n Balance) v = Inr t \<and> srv_ok t \<and>
    sp_flags (schedprocs t p) = sp_flags (schedprocs v p) \<and> max_priority (schedprocs t p) = max_priority (schedprocs v p) \<and>
    unat (priority (schedprocs t p)) =
      (if unat (max_priority (schedprocs v p)) < unat (priority (schedprocs v p))
       then max (unat (max_priority (schedprocs v p))) (unat (priority (schedprocs v p)) - n) else unat (priority (schedprocs v p)))"
  using assms
proof (induction n arbitrary: v)
  case (Suc n)
  obtain w where w: "balance_queues v = Inr w" "srv_ok w" using balance_queues_safe [OF Suc.prems(1)] by blast
  note wp = balance_queues_table [OF w(1) Suc.prems(2,3)] aged_slot aged_priority [OF Suc.prems(4)]
  obtain t where t: "run_steps sched_event_step (replicate n Balance) w = Inr t \<and> srv_ok t \<and>
    sp_flags (schedprocs t p) = sp_flags (schedprocs w p) \<and> max_priority (schedprocs t p) = max_priority (schedprocs w p) \<and>
    unat (priority (schedprocs t p)) =
      (if unat (max_priority (schedprocs w p)) < unat (priority (schedprocs w p))
       then max (unat (max_priority (schedprocs w p))) (unat (priority (schedprocs w p)) - n) else unat (priority (schedprocs w p)))"
    using Suc.IH [OF w(2) Suc.prems(2,3)] Suc.prems(4) wp by auto
  then show ?case using w(1) wp by (intro exI [of _ t]) auto
qed auto

text \<open>C20. Balancing undoes every demotion in the table of the server: after fifteen balancings in a row the priority the table has for each process in use is its best
  priority, unless it already was better off, whatever priority it had been moved down to.\<close>

theorem balancing_restores_priority:
  assumes "srv_ok v" "0 \<le> p" "p < NR_PROCS" "has (sp_flags (schedprocs v p)) IN_USE"
  shows "\<exists>t. run_steps sched_event_step (replicate 15 Balance) v = Inr t \<and>
    priority (schedprocs t p) = min (priority (schedprocs v p)) (max_priority (schedprocs v p))"
proof -
  have b: "unat (priority (schedprocs v p)) < 16" using assms(1,4) by (auto simp: srv_ok_def slot_ok_def word_less_nat_alt)
  obtain t where "run_steps sched_event_step (replicate 15 Balance) v = Inr t"
    "unat (priority (schedprocs t p)) = min (unat (priority (schedprocs v p))) (unat (max_priority (schedprocs v p)))"
    using balance_rounds [OF assms, of 15] b by auto
  then show ?thesis by (metis min_def word_le_nat_alt word_unat_eq_iff)
qed

section \<open>A process that used up its quantum\<close>

lemma endpoint_word: "- (2 ^ 31) \<le> e \<Longrightarrow> e < 2 ^ 31 \<Longrightarrow> sint (of_int e :: u32) = e"
  using signed_take_bit_int_eq_self [of 31 e] by (simp only: signed_of_int) simp

lemma sched_isokendpt_range: "sched_isokendpt e v = Inr p \<Longrightarrow> p = ENDPOINT_P e \<and> 0 \<le> p \<and> p < NR_PROCS \<and> e = sp_endpoint (schedprocs v p)"
  by (auto simp: sched_isokendpt_def Let_def split: if_splits)

text \<open>What \<open>schedule_process_local\<close> does for a process that the server schedules.\<close>

lemma schedule_local_effect:
  assumes v: "ready_inv (sk v)" "cur_ok (sk v)" and e: "isokendpt (sp_endpoint (schedprocs v p)) (sk v) = Some p"
    and er: "- (2 ^ 31) \<le> sp_endpoint (schedprocs v p)" "sp_endpoint (schedprocs v p) < 2 ^ 31"
    and sch: "p_scheduler (p_sched (procs (sk v) p)) = Some SCHED_PROC_NR"
    and q: "1 \<le> sint (time_slice (schedprocs v p))" and pr: "priority (schedprocs v p) < 16"
  obtains k where "schedule_process_local p v = Inr (OK, (pick_cpu p v)\<lparr>sk := k\<rparr>)" "ready_inv k" "cur_ok k"
    "prio k = (prio (sk v))(p := int (unat (priority (schedprocs v p))))" "same_ctl (sk v) k"
    "p_rts_flags (procs k p) = clrf (p_rts_flags (procs (sk v) p)) RTS_NO_QUANTUM"
    "p_quantum_size_ms (procs k p) = time_slice (schedprocs v p)"
proof -
  let ?r = "schedprocs v p"
  note n = small_prio [OF pr]
  obtain k where k: "sched_proc p (int (unat (priority ?r))) (sint (time_slice ?r)) (sk v) = Inr (OK, k)" "ready_inv k" "cur_ok k"
    "prio k = (prio (sk v))(p := int (unat (priority ?r)))" "same_ctl (sk v) k"
    "p_rts_flags (procs k p) = clrf (p_rts_flags (procs (sk v) p)) RTS_NO_QUANTUM" "p_quantum_size_ms (procs k p) = of_int (sint (time_slice ?r))"
    using sched_proc_effect [OF v isokendpt_range [OF e] _ n(3) q] by (metis of_nat_0_le_iff)
  have "do_schedule SCHED_PROC_NR (zero_msg\<lparr>m9_l1 := of_int (sp_endpoint ?r), m9_s1 := of_int (sint (priority ?r)),
      m9_l2 := of_int (sint (time_slice ?r))\<rparr>) (sk v) = Inr (OK, k)"
    using e sch k(1) n(2) endpoint_word [OF er] by (simp add: do_schedule_def)
  then have "schedule_process_local p v = Inr (OK, (pick_cpu p v)\<lparr>sk := k\<rparr>)"
    by (simp add: schedule_process_local_def schedule_process_def Let_def sys_schedule_def has_def cong: if_cong)
  then show thesis using that k by simp
qed

lemma next_prio:
  fixes x :: u32 assumes "x < 16"
  shows "(if x < 15 then x + 1 else x) < 16" "unat (if x < 15 then x + 1 else x) = min 15 (unat x + 1)"
proof -
  have u: "unat x < 16" using assms by (simp add: word_less_nat_alt)
  then have "unat (x + 1) = unat x + 1" using unat_add_lem [of x 1] by simp
  then show "(if x < 15 then x + 1 else x) < 16" "unat (if x < 15 then x + 1 else x) = min 15 (unat x + 1)"
    using u by (simp_all add: word_less_nat_alt)
qed

text \<open>C19. A process out of quantum gets a new one, one queue further down: when the kernel reports a process that the
  server schedules, with a positive time slice in the table, and that only lacks a quantum, the server sends no reply, and afterwards the process is runnable
  again, on the ready list below the one it had (or on the lowest), with the time slice of the table, and the
  table and the kernel agree on its priority.\<close>

theorem noquantum_demotes:
  assumes "srv_ok v" "m_type m = SCHEDULING_NO_QUANTUM" "sched_isokendpt (m_source m) v = Inr p" "isokendpt (m_source m) (sk v) = Some p"
    "- (2 ^ 31) \<le> m_source m" "m_source m < 2 ^ 31" "p_scheduler (p_sched (procs (sk v) p)) = Some SCHED_PROC_NR"
    "p_rts_flags (procs (sk v) p) = RTS_NO_QUANTUM" "1 \<le> sint (time_slice (schedprocs v p))"
  shows "\<exists>t. sched_request True m v = Inr (None, m, t) \<and> srv_ok t \<and>
    unat (priority (schedprocs t p)) = min 15 (unat (priority (schedprocs v p)) + 1) \<and>
    p \<in> set (ready_list (sk t) (int (unat (priority (schedprocs t p))))) \<and>
    p_quantum_size_ms (procs (sk t) p) = time_slice (schedprocs v p)"
proof -
  let ?w = "if priority (schedprocs v p) < MIN_USER_Q then upd_sp p (\<lambda>r. r\<lparr>priority := priority r + 1\<rparr>) v else v"
  note sl = sched_isokendpt_slot [OF assms(3,1)]
  have e: "sp_endpoint (schedprocs v p) = m_source m" using sched_isokendpt_range [OF assms(3)] by (elim conjE) (rule sym)
  have w: "sk ?w = sk v" "sp_endpoint (schedprocs ?w p) = m_source m" "time_slice (schedprocs ?w p) = time_slice (schedprocs v p)"
    "priority (schedprocs ?w p) = (if priority (schedprocs v p) < 15 then priority (schedprocs v p) + 1 else priority (schedprocs v p))"
    using e by simp_all
  have pw: "priority (schedprocs ?w p) < 16" "unat (priority (schedprocs ?w p)) = min 15 (unat (priority (schedprocs v p)) + 1)"
    using w(4) sl next_prio by simp_all
  have i: "ready_inv (sk ?w)" "cur_ok (sk ?w)" using assms(1) w(1) by (simp_all add: srv_ok_def)
  obtain k where k: "schedule_process_local p ?w = Inr (OK, (pick_cpu p ?w)\<lparr>sk := k\<rparr>)" "ready_inv k" "cur_ok k"
    "prio k = (prio (sk ?w))(p := int (unat (priority (schedprocs ?w p))))"
    "p_rts_flags (procs k p) = clrf (p_rts_flags (procs (sk ?w) p)) RTS_NO_QUANTUM"
    "p_quantum_size_ms (procs k p) = time_slice (schedprocs ?w p)"
    by (rule schedule_local_effect [OF i, of p]) (use assms w pw in simp_all)
  let ?t = "(pick_cpu p ?w)\<lparr>sk := k\<rparr>"
  have "sched_request True m v = Inr (None, m, ?t)" using assms(2,3) k(1) by (simp add: sched_request_def do_noquantum_def cong: if_cong)
  moreover have "srv_ok ?t"
    using do_noquantum_safe [OF assms(1), of m] assms(3) k(1) by (simp add: do_noquantum_def cong: if_cong)
  moreover have tp: "priority (schedprocs ?t p) = priority (schedprocs ?w p)" by simp
  moreover have "p \<in> set (ready_list k (int (unat (priority (schedprocs ?w p)))))"
    using k(2,4,5) assms(8) w(1) isokendpt_range [OF assms(4)] by (simp add: ready_member proc_is_runnable_def clrf_def)
  ultimately show ?thesis using pw(2) k(6) w(3) by (intro exI [of _ ?t]) simp
qed

text \<open>Process 3 ran out of quantum; it has been moved two queues down from its best priority.\<close>

definition srv_sample :: schedstate where
  "srv_sample = \<lparr>sk = upd_sched 3 (\<lambda>n. n\<lparr>p_scheduler := Some SCHED_PROC_NR\<rparr>) (with_flags 3 RTS_NO_QUANTUM queue_sample),
     schedprocs = (\<lambda>p. \<lparr>sp_endpoint = p, sp_parent = 0, sp_flags = (if p = 3 then IN_USE else 0), max_priority = 7, priority = 9,
                     time_slice = 200, sp_cpu = 0\<rparr>), cpu_proc = (\<lambda>_. 0)\<rparr>"

lemma srv_sample_sel [simp]:
  "procs (sk srv_sample) x = (procs (with_flags 3 RTS_NO_QUANTUM queue_sample) x)
     \<lparr>p_sched := (if x = 3 then (p_sched (procs queue_sample 3))\<lparr>p_scheduler := Some SCHED_PROC_NR\<rparr> else p_sched (procs queue_sample x))\<rparr>"
  "schedprocs srv_sample p = \<lparr>sp_endpoint = p, sp_parent = 0, sp_flags = (if p = 3 then IN_USE else 0), max_priority = 7, priority = 9,
                     time_slice = 200, sp_cpu = 0\<rparr>"
  by (simp_all add: srv_sample_def upd_sched_def upd_proc_def with_flags_def)

lemma srv_sample_ok: "srv_ok srv_sample"
proof -
  have "rq_inv (ready_list queue_sample) (with_flags 3 RTS_NO_QUANTUM queue_sample)" by (rule flagged_sample_inv) simp
  moreover have "cur_ok (with_flags 3 RTS_NO_QUANTUM queue_sample)" by (simp add: cur_ok_def isokprocn_def)
  ultimately show ?thesis using ready_invI by (simp add: srv_ok_def slot_ok_def) (simp add: srv_sample_def ready_inv_scheduler)
qed

lemma srv_sample_endpoint: "sched_isokendpt 3 srv_sample = Inr 3" "isokendpt 3 (sk srv_sample) = Some 3"
  by (simp_all add: sched_isokendpt_def isokendpt_def isemptyn_def ENDPOINT_P_def c_rem_def has_def isokprocn_def with_flags_def upd_proc_def
      queue_sample_def zero_proc_def Let_def)

theorem scheduler_within_queues_witness:
  "\<exists>t. run_steps sched_event_step [Request True (zero_msg\<lparr>m_type := SCHEDULING_NO_QUANTUM, m_source := 3\<rparr>), Balance,
      Request False (zero_msg\<lparr>m_type := SCHEDULING_STOP, m9_l1 := 3\<rparr>)] srv_sample = Inr t \<and> ready_inv (sk t)"
proof -
  have "has (sp_flags (schedprocs srv_sample p)) IN_USE \<longrightarrow> priority (schedprocs srv_sample p) < 16 \<and> max_priority (schedprocs srv_sample p) < 16" for p
    by simp
  then show ?thesis
    using scheduler_within_queues [of srv_sample "[Request True (zero_msg\<lparr>m_type := SCHEDULING_NO_QUANTUM, m_source := 3\<rparr>), Balance,
      Request False (zero_msg\<lparr>m_type := SCHEDULING_STOP, m9_l1 := 3\<rparr>)]"] srv_sample_ok by (auto simp only: srv_ok_def)
qed

theorem balancing_restores_priority_witness:
  "\<exists>t. run_steps sched_event_step (replicate 15 Balance) srv_sample = Inr t \<and> priority (schedprocs t 3) = 7"
  using balancing_restores_priority [OF srv_sample_ok, of 3] by (simp add: has_def min_def)

theorem noquantum_demotes_witness:
  "\<exists>t. sched_request True (zero_msg\<lparr>m_type := SCHEDULING_NO_QUANTUM, m_source := 3\<rparr>) srv_sample =
      Inr (None, zero_msg\<lparr>m_type := SCHEDULING_NO_QUANTUM, m_source := 3\<rparr>, t) \<and> 3 \<in> set (ready_list (sk t) 10)"
proof -
  let ?m = "zero_msg\<lparr>m_type := SCHEDULING_NO_QUANTUM, m_source := 3\<rparr>"
  have s: "p_scheduler (p_sched (procs (sk srv_sample) 3)) = Some SCHED_PROC_NR" "p_rts_flags (procs (sk srv_sample) 3) = RTS_NO_QUANTUM"
    by (simp_all add: with_flags_def upd_proc_def)
  have m: "m_type ?m = SCHEDULING_NO_QUANTUM" "m_source ?m = 3" by simp_all
  obtain t where "sched_request True ?m srv_sample = Inr (None, ?m, t)"
    "unat (priority (schedprocs t 3)) = 10" "3 \<in> set (ready_list (sk t) (int (unat (priority (schedprocs t 3)))))"
    using noquantum_demotes [OF srv_sample_ok m(1), of 3, unfolded m(2)] srv_sample_endpoint s by (auto simp del: of_nat_unat)
  then show ?thesis by (auto simp del: of_nat_unat)
qed

section \<open>A request the kernel refuses\<close>

lemma start_slot_kernel [simp]: "sk (start_slot p m v) = sk v"
  by (simp add: start_slot_def)

lemma sk_self: "sk y = k \<Longrightarrow> y\<lparr>sk := k\<rparr> = y"
  by simp

text \<open>C36. A start request that the kernel refuses leaves the slot taken: when PM or RS asks to start a process with an empty time slice, the
  kernel refuses to schedule the process and the requester gets \<open>EINVAL\<close>, but the slot stays in use and every later
  request of theirs to start the same process is refused with \<open>EDEADEPT\<close>.\<close>

theorem failed_start_keeps_slot:
  assumes "m_type m = SCHEDULING_START" "accept_message m" "sched_isemtyendpt (sint (m9_l1 m)) v = Inr p" "m9_l4 m < 16" "m9_l2 m = 0"
    "isokendpt (sint (m9_l1 m)) (sk v) = Some p"
  shows "\<exists>t. do_start_scheduling m v = Inr (EINVAL, m, t) \<and>
    (\<forall>m'. m_type m' \<in> {SCHEDULING_START, SCHEDULING_INHERIT} \<longrightarrow> accept_message m' \<longrightarrow> m9_l1 m' = m9_l1 m \<longrightarrow>
       do_start_scheduling m' t = Inr (EDEADEPT, m', t))"
proof -
  let ?w = "upd_sp p (\<lambda>r. r\<lparr>priority := max_priority r, time_slice := m9_l2 m\<rparr>) (start_slot p m v)"
  let ?k = "upd_sched p (\<lambda>n. n\<lparr>p_scheduler := Some SCHED_PROC_NR\<rparr>) (sk v)"
  let ?x = "pick_cpu p (upd_sp p (\<lambda>r. r\<lparr>sp_flags := IN_USE\<rparr>) (?w\<lparr>sk := ?k\<rparr>))"
  have w: "sk ?w = sk v" "sp_endpoint (schedprocs ?w p) = sint (m9_l1 m)" "priority (schedprocs ?w p) = m9_l4 m" "time_slice (schedprocs ?w p) = 0"
    using assms(5) by (simp_all add: start_slot_def Let_def)
  have c: "sys_schedctl 0 (sp_endpoint (schedprocs ?w p)) 0 0 ?w = Inr (OK, ?w\<lparr>sk := ?k\<rparr>)"
    using assms(6) unfolding w(2) by (simp add: sys_schedctl_def do_schedctl_def w(1) has_def)
  have ek: "isokendpt (sint (m9_l1 m)) ?k = Some p" "p_scheduler (p_sched (procs ?k p)) = Some SCHED_PROC_NR"
    using assms(6) by (auto simp: isokendpt_def isemptyn_def upd_sched_def upd_proc_def Let_def split: if_splits)
  have x: "sk ?x = ?k" "sp_endpoint (schedprocs ?x p) = sint (m9_l1 m)" "priority (schedprocs ?x p) = m9_l4 m" "time_slice (schedprocs ?x p) = 0"
    "has (sp_flags (schedprocs ?x p)) IN_USE" using w by (simp_all add: has_def)
  have sp: "schedule_process p SCHEDULE_CHANGE_ALL ?x = Inr (EINVAL, pick_cpu p ?x)"
  proof -
    have "sys_schedule (sint (m9_l1 m)) (sint (m9_l4 m)) 0 (pick_cpu p ?x) = Inr (EINVAL, (pick_cpu p ?x)\<lparr>sk := ?k\<rparr>)"
      using ek small_prio [OF assms(4)] x(1) by (simp add: sys_schedule_def do_schedule_def sched_proc_def)
    moreover have "(pick_cpu p ?x)\<lparr>sk := ?k\<rparr> = pick_cpu p ?x" by (rule sk_self) simp
    ultimately show ?thesis using x by (simp add: schedule_process_def Let_def has_def)
  qed
  let ?t = "pick_cpu p ?x"
  have sl: "start_loop p ?x = Some (Inr (EINVAL, ?t))" by (subst start_loop.simps) (simp only: sp, simp)
  have "start_values p m (start_slot p m v) = Inr ?w" using assms(1) by (simp add: start_values_def)
  then have "do_start_scheduling m v = Inr (EINVAL, m, ?t)"
    using assms(1-4) c sl by (simp add: do_start_scheduling_def Let_def not_le)
  moreover have "sched_isemtyendpt (sint (m9_l1 m)) ?t = Inl EDEADEPT"
    using assms(3) x(5) by (auto simp: sched_isemtyendpt_def Let_def split: if_splits)
  then have "do_start_scheduling m' ?t = Inr (EDEADEPT, m', ?t)"
    if "m_type m' \<in> {SCHEDULING_START, SCHEDULING_INHERIT}" "accept_message m'" "m9_l1 m' = m9_l1 m" for m'
    using that by (auto simp: do_start_scheduling_def)
  ultimately show ?thesis by blast
qed

theorem failed_start_keeps_slot_witness:
  "\<exists>t. do_start_scheduling (zero_msg\<lparr>m_type := SCHEDULING_START, m9_l1 := 1\<rparr>) srv_sample =
       Inr (EINVAL, zero_msg\<lparr>m_type := SCHEDULING_START, m9_l1 := 1\<rparr>, t) \<and>
     do_start_scheduling (zero_msg\<lparr>m_type := SCHEDULING_START, m9_l1 := 1, m9_l2 := 200\<rparr>) t =
       Inr (EDEADEPT, zero_msg\<lparr>m_type := SCHEDULING_START, m9_l1 := 1, m9_l2 := 200\<rparr>, t)"
proof -
  have e: "sched_isemtyendpt 1 srv_sample = Inr 1" "isokendpt 1 (sk srv_sample) = Some 1"
    by (simp_all add: sched_isemtyendpt_def isokendpt_def isemptyn_def ENDPOINT_P_def c_rem_def has_def isokprocn_def with_flags_def upd_proc_def
        queue_sample_def zero_proc_def Let_def)
  then show ?thesis
    using failed_start_keeps_slot [of "zero_msg\<lparr>m_type := SCHEDULING_START, m9_l1 := 1\<rparr>" srv_sample 1]
    by (auto simp: accept_message_def zero_msg_def)
qed

end
