(* ===== verification/Signal_Laws.thy ===== *)
theory Signal_Laws
  imports Sched_Laws
begin

text \<open>
  Laws of the signal and stop calls: a signal reaches its manager exactly once, and a process that is signalled or stopped
  gets its flags back.
\<close>

section \<open>Signals\<close>

text \<open>What the signal calls read of a process besides its flags.\<close>

definition sig_view :: "kstate \<Rightarrow> kstate \<Rightarrow> bool" where
  "sig_view s t \<longleftrightarrow> h_unstable_state t = h_unstable_state s \<and>
     (\<forall>x. p_endpoint (procs t x) = p_endpoint (procs s x) \<and> p_pending (procs t x) = p_pending (procs s x) \<and>
        s_sig_mgr (priv_of t x) = s_sig_mgr (priv_of s x))"

lemma sig_view_trans: "sig_view s t \<Longrightarrow> sig_view t u \<Longrightarrow> sig_view s u"
  by (simp add: sig_view_def)

lemma sig_view_ctl: "same_ctl s t \<Longrightarrow> sig_view s t"
  by (simp add: sig_view_def same_ctl_def priv_of_def)

lemma sig_view_priv:
  assumes "\<And>v. s_sig_mgr (f v) = s_sig_mgr v" shows "sig_view s (upd_priv p f s)"
proof -
  have "s_sig_mgr (priv_of (upd_priv p f s) x) = s_sig_mgr (priv_of s x)" for x using assms by (auto simp: priv_of_def upd_priv_def)
  then show ?thesis by (simp add: sig_view_def) (simp add: upd_priv_def)
qed

lemma sig_view_writes: "sig_view s (upd_msgs p f s)" "sig_view s (set_misc p k s)" "sig_view s (IPC_STATUS_ADD_CALL p k s)"
  by (simp_all add: sig_view_def priv_of_def upd_msgs_def set_misc_def IPC_STATUS_ADD_CALL_def IPC_STATUS_ADD_def upd_proc_def)

lemma sig_view_build: "sig_view s (BuildNotifyMessage a d s)"
  unfolding BuildNotifyMessage_def Let_def
  by (auto intro!: sig_view_trans [OF sig_view_trans [OF sig_view_writes(1) sig_view_writes(1)] sig_view_priv] sig_view_writes(1))

lemma notify_sig_view:
  assumes inv: "ready_inv s" "cur_ok s" and t: "mini_notify c e s = Inr (r, t)"
  shows "sig_view s t"
proof (cases "isokendpt e s")
  case None
  then show ?thesis using t by (simp add: mini_notify_def sig_view_def)
next
  case (Some d)
  note ok = isokendpt_range [OF Some]
  show ?thesis
  proof (cases "WILLRECEIVE (procs s d) (p_endpoint (procs s c)) \<and> \<not> misc_is s d MF_REPLY_PEND")
    case False
    then have "t = upd_priv d (\<lambda>v. v\<lparr>s_notify_pending := (s_notify_pending v)(s_id (priv_of s c) := True)\<rparr>) s"
      using t Some by (auto simp: mini_notify_def)
    then show ?thesis using sig_view_priv by simp
  next
    case True
    define s1 where "s1 = BuildNotifyMessage (p_nr (procs s c)) d s"
    define s2 where "s2 = upd_msgs d (\<lambda>m. m\<lparr>p_delivermsg := (p_delivermsg m)\<lparr>m_source := p_endpoint (procs s1 c)\<rparr>\<rparr>) s1"
    define s3 where "s3 = IPC_STATUS_ADD_CALL d NOTIFY (set_misc d MF_DELIVERMSG s2)"
    have ss: "same_sched s s3"
    proof -
      have "same_sched s s1" unfolding s1_def BuildNotifyMessage_def Let_def
        by (auto intro!: same_sched_trans [OF same_sched_trans [OF same_sched_writes(1) same_sched_writes(1)] same_sched_priv] same_sched_writes(1))
      then show ?thesis unfolding s3_def s2_def IPC_STATUS_ADD_CALL_def
        by (rule same_sched_trans [OF _ same_sched_trans [OF same_sched_writes(1) same_sched_trans [OF same_sched_writes(2,4)]]])
    qed
    have "RTS_UNSET d RTS_RECEIVING s3 = Inr t"
      using t Some True by (auto simp: mini_notify_def Let_def s3_def s2_def s1_def kassert_def bnd_eq_Inr split: if_splits)
    then have "same_ctl s3 t" using RTS_frames(1) [of s3 d] same_sched_view [OF ss] inv ok by simp
    moreover have "sig_view s s3" unfolding s3_def s2_def s1_def
      by (rule sig_view_trans [OF sig_view_build sig_view_trans [OF sig_view_writes(1) sig_view_trans [OF sig_view_writes(2,3)]]])
    ultimately show ?thesis using sig_view_trans sig_view_ctl by blast
  qed
qed

text \<open>Flags that differ at most in what a wake-up of somebody else may change.\<close>

definition near :: "u32 \<Rightarrow> u32 \<Rightarrow> bool" where
  "near f g \<longleftrightarrow> g = f \<or> g = setf f RTS_PREEMPTED"

lemma sig_isset: "RTS_ISSET q RTS_SIGNALED = has (p_rts_flags q) RTS_SIGNALED" "RTS_ISSET q RTS_SIG_PENDING = has (p_rts_flags q) RTS_SIG_PENDING"
  using one_bit [of 4 "p_rts_flags q"] one_bit [of 5 "p_rts_flags q"] by (simp_all add: RTS_ISSET_def push_bit_eq_mult)

lemma near_has: "near f g \<Longrightarrow> has g RTS_SIGNALED = has f RTS_SIGNALED" "near f g \<Longrightarrow> has g RTS_SIG_PENDING = has f RTS_SIG_PENDING"
  by (auto simp: near_def has_setf_other)

lemma has_live: "has f RTS_SIG_PENDING \<Longrightarrow> f \<noteq> RTS_SLOT_FREE \<and> f \<noteq> 0"
  by (auto simp: has_def)

lemma sig_unset_frame:
  assumes "ready_inv s" "cur_ok s" "isokprocn p"
  obtains t where "RTS_UNSET p f s = Inr t" "ready_inv t" "cur_ok t" "sig_view s t" "p_rts_flags (procs t p) = clrf (p_rts_flags (procs s p)) f"
    "\<And>x. x \<noteq> p \<Longrightarrow> near (p_rts_flags (procs s x)) (p_rts_flags (procs t x))"
proof -
  obtain t where t: "RTS_UNSET p f s = Inr t" "ready_inv t" "cur_ok t" "p_rts_flags (procs t p) = clrf (p_rts_flags (procs s p)) f"
    "\<And>x. x \<noteq> p \<Longrightarrow> p_rts_flags (procs t x) = p_rts_flags (procs s x) \<or>
       x = proc_ptr s \<and> p_rts_flags (procs t x) = setf (p_rts_flags (procs s x)) RTS_PREEMPTED"
    by (rule RTS_UNSET_frame [OF assms]) blast
  then show thesis using that [of t] sig_view_ctl RTS_frames(1) [OF assms t(1)] by (auto simp: near_def)
qed

lemma send_sig_frame:
  assumes inv: "ready_inv s" "cur_ok s" and c: "isokendpt e s = Some c" "\<not> misc_is s c MF_DELIVERMSG"
  obtains t where "send_or_panic e n s = Inr t" "ready_inv t" "cur_ok t" "sig_view s t"
    "\<And>x. x \<noteq> c \<Longrightarrow> near (p_rts_flags (procs s x)) (p_rts_flags (procs t x))"
    "has (p_rts_flags (procs t c)) RTS_SIGNALED = has (p_rts_flags (procs s c)) RTS_SIGNALED"
proof -
  let ?s = "upd_priv c (\<lambda>v. v\<lparr>s_sig_pending := sigaddset (s_sig_pending v) n\<rparr>) s"
  have i: "ready_inv ?s" "cur_ok ?s" using inv same_sched_view [OF same_sched_priv] by simp_all
  have p: "procs ?s = procs s" by (simp add: upd_priv_def)
  have e: "p_endpoint (procs s c) = e" using c(1) by (auto simp: isokendpt_def Let_def split: if_splits)
  have ok: "isokendpt e ?s = Some c" using c(1) by (simp add: isokendpt_def isemptyn_def p)
  have nd: "\<not> misc_is ?s c MF_DELIVERMSG" using c(2) by (simp add: misc_is_def p)
  obtain t where t: "mini_notify SYSTEM e ?s = Inr (OK, t)" "ready_inv t" "cur_ok t"
    "\<And>x. x \<noteq> c \<Longrightarrow> p_rts_flags (procs t x) = p_rts_flags (procs ?s x) \<or>
       x = proc_ptr ?s \<and> p_rts_flags (procs t x) = setf (p_rts_flags (procs ?s x)) RTS_PREEMPTED"
    "p_rts_flags (procs t c) = p_rts_flags (procs ?s c) \<or> p_rts_flags (procs t c) = clrf (p_rts_flags (procs ?s c)) RTS_RECEIVING"
    by (rule notify_frame [OF i ok nd, of SYSTEM]) blast
  have v: "sig_view s t" by (rule sig_view_trans [OF sig_view_priv notify_sig_view [OF i t(1)]]) simp
  have run: "send_or_panic e n s = Inr t" using c(1) t(1) e by (simp add: send_or_panic_def send_sig_def)
  show thesis by (rule that [OF run t(2,3) v]) (use t(4,5) in \<open>auto simp: p near_def has_clrf_other\<close>)
qed

text \<open>Raising a signal: the process stops and its manager is told.\<close>

lemma kill_effect:
  assumes inv: "ready_inv s" "cur_ok s" and e: "isokendpt e s = Some p" "0 \<le> p" and n: "n < NSIG"
    and c: "isokendpt (s_sig_mgr (priv_of s p)) s = Some c" "c \<noteq> p" "\<not> misc_is s c MF_DELIVERMSG" "s_sig_mgr (priv_of s p) \<noteq> SELF"
    and st: "h_unstable_state s \<noteq> 1" "\<not> RTS_ISSET (procs s p) RTS_SIGNALED" "p_pending (procs s p) = 0"
  obtains t where "do_kill (zero_msg\<lparr>m2_i1 := e, m2_i2 := n\<rparr>) s = Inr (OK, t)" "ready_inv t" "cur_ok t"
    "near (setf (p_rts_flags (procs s p)) (RTS_SIGNALED OR RTS_SIG_PENDING)) (p_rts_flags (procs t p))"
    "\<And>x. x \<noteq> p \<Longrightarrow> has (p_rts_flags (procs t x)) RTS_SIGNALED = has (p_rts_flags (procs s x)) RTS_SIGNALED"
    "p_pending (procs t p) = sigmask n" "\<And>x. p_endpoint (procs t x) = p_endpoint (procs s x)"
    "\<And>x. s_sig_mgr (priv_of t x) = s_sig_mgr (priv_of s x)"
proof -
  let ?g = "s_sig_mgr (priv_of s p)"
  have p: "isokprocn p" and ep: "p_endpoint (procs s p) = e" "p_endpoint (procs s c) = ?g" "ENDPOINT_P ?g = c" "ENDPOINT_P e = p"
    using e c by (auto simp: isokendpt_def Let_def split: if_splits)
  have ne: "e \<noteq> ?g" using ep c(2) by auto
  let ?u = "upd_proc p (\<lambda>q. q\<lparr>p_pending := sigaddset (p_pending q) n\<rparr>) s"
  have ss: "same_sched s ?u" by (simp add: same_sched_def priv_of_def upd_proc_def)
  have iu: "ready_inv ?u" "cur_ok ?u" using inv same_sched_view [OF ss] by simp_all
  have fu: "p_rts_flags (procs ?u x) = p_rts_flags (procs s x)" "p_endpoint (procs ?u x) = p_endpoint (procs s x)"
    "p_misc_flags (procs ?u x) = p_misc_flags (procs s x)" "s_sig_mgr (priv_of ?u x) = s_sig_mgr (priv_of s x)" for x
    by (simp_all add: upd_proc_def priv_of_def)
  obtain w where w: "RTS_SET p (RTS_SIGNALED OR RTS_SIG_PENDING) ?u = Inr w" "ready_inv w" "cur_ok w"
    "\<And>x. p_misc_flags (procs w x) = p_misc_flags (procs ?u x)"
    "\<And>x. p_rts_flags (procs w x) = (if x = p then setf (p_rts_flags (procs ?u p)) (RTS_SIGNALED OR RTS_SIG_PENDING) else p_rts_flags (procs ?u x))"
    by (rule RTS_SET_frame [OF iu p, of "RTS_SIGNALED OR RTS_SIG_PENDING"]) auto
  have vw: "sig_view ?u w" using sig_view_ctl RTS_frames(2) [OF iu p _ w(1)] by simp
  have cw: "isokendpt ?g w = Some c" using c(1,2) vw w(5) fu by (auto simp: isokendpt_def isemptyn_def sig_view_def Let_def split: if_splits)
  have dw: "\<not> misc_is w c MF_DELIVERMSG" using c(3) w(4) fu by (simp add: misc_is_def)
  obtain t where t: "send_or_panic ?g SIGKSIG w = Inr t" "ready_inv t" "cur_ok t" "sig_view w t"
    "\<And>x. x \<noteq> c \<Longrightarrow> near (p_rts_flags (procs w x)) (p_rts_flags (procs t x))"
    "has (p_rts_flags (procs t c)) RTS_SIGNALED = has (p_rts_flags (procs w c)) RTS_SIGNALED"
    by (rule send_sig_frame [OF w(2,3) cw dw]) blast
  have sm: "\<not> sigismember (p_pending (procs s p)) n" using st(3) by (simp add: sigismember_def has_def)
  have nsu: "\<not> RTS_ISSET (procs ?u p) RTS_SIGNALED" using st(2) fu by (simp add: RTS_ISSET_def)
  have "cause_sig p n s = Inr t"
    using c(4) ep ne st(1) sm nsu w(1) t(1) by (simp add: cause_sig_def cause_sig_with_def Let_def)
  then have k: "do_kill (zero_msg\<lparr>m2_i1 := e, m2_i2 := n\<rparr>) s = Inr (OK, t)" using e n by (simp add: do_kill_def)
  have vt: "sig_view ?u t" by (rule sig_view_trans [OF vw t(4)])
  show thesis
  proof (rule that [OF k t(2,3)])
    show "near (setf (p_rts_flags (procs s p)) (RTS_SIGNALED OR RTS_SIG_PENDING)) (p_rts_flags (procs t p))"
      using t(5) [of p] c(2) w(5) fu by simp
    show "has (p_rts_flags (procs t x)) RTS_SIGNALED = has (p_rts_flags (procs s x)) RTS_SIGNALED" if "x \<noteq> p" for x
    proof (cases "x = c")
      case True
      then show ?thesis using t(6) w(5) [of c] fu(1) [of c] c(2) by simp
    next
      case False
      then show ?thesis using near_has(1) [OF t(5)] w(5) [of x] fu(1) [of x] that by simp
    qed
    show "p_pending (procs t p) = sigmask n"
      using vt st(3) by (simp add: sig_view_def upd_proc_def sigaddset_def setf_def)
  qed (use vt fu in \<open>simp_all add: sig_view_def\<close>)
qed

text \<open>The manager asks for signals and gets the first process that has some.\<close>

lemma getksig_effect:
  assumes inv: "ready_inv s" "cur_ok s" and f: "getksig_find c s = Some p"
  obtains t where "do_getksig c m s = Inr (OK, m\<lparr>m2_i1 := p_endpoint (procs s p), m2_l1 := p_pending (procs s p)\<rparr>, t)" "ready_inv t" "cur_ok t"
    "p_rts_flags (procs t p) = clrf (p_rts_flags (procs s p)) RTS_SIGNALED" "p_pending (procs t p) = 0"
    "\<And>x. x \<noteq> p \<Longrightarrow> near (p_rts_flags (procs s x)) (p_rts_flags (procs t x))"
    "\<And>x. p_endpoint (procs t x) = p_endpoint (procs s x)" "\<And>x. s_sig_mgr (priv_of t x) = s_sig_mgr (priv_of s x)"
proof -
  have "p \<in> set [0 .. NR_PROCS - 1]" using f unfolding getksig_find_def by (metis (lifting) find_Some_iff nth_mem)
  then have p: "isokprocn p" by (auto simp: isokprocn_def)
  let ?u = "upd_proc p (\<lambda>q. q\<lparr>p_pending := 0\<rparr>) s"
  have ss: "same_sched s ?u" by (simp add: same_sched_def priv_of_def upd_proc_def)
  have iu: "ready_inv ?u" "cur_ok ?u" using inv same_sched_view [OF ss] by simp_all
  obtain t where t: "RTS_UNSET p RTS_SIGNALED ?u = Inr t" "ready_inv t" "cur_ok t" "sig_view ?u t"
    "p_rts_flags (procs t p) = clrf (p_rts_flags (procs ?u p)) RTS_SIGNALED"
    "\<And>x. x \<noteq> p \<Longrightarrow> near (p_rts_flags (procs ?u x)) (p_rts_flags (procs t x))"
    by (rule sig_unset_frame [OF iu p]) blast
  have "do_getksig c m s = Inr (OK, m\<lparr>m2_i1 := p_endpoint (procs s p), m2_l1 := p_pending (procs s p)\<rparr>, t)"
    using f t(1) by (simp add: do_getksig_def Let_def)
  then show thesis using that [of t] t by (simp add: sig_view_def upd_proc_def priv_of_def)
qed

lemma getksig_find_only:
  assumes "0 \<le> p" "p < NR_PROCS" "RTS_ISSET (procs s p) RTS_SIGNALED" "p_endpoint (procs s c) = s_sig_mgr (priv_of s p)"
    "\<And>x. x \<noteq> p \<Longrightarrow> \<not> RTS_ISSET (procs s x) RTS_SIGNALED"
  shows "getksig_find c s = Some p"
proof -
  have "find P xs = Some p" if "p \<in> set xs" "\<And>x. P x \<longleftrightarrow> x = p" for P xs using that by (induction xs) auto
  then show ?thesis unfolding getksig_find_def using assms by (metis (mono_tags, lifting) atLeastAtMost_iff set_upto zle_diff1_eq)
qed

lemma signal_bits:
  assumes "0 \<le> n" "n < 32" "0 \<le> k" "k < 32"
  shows "sigismember (sigmask n) k \<longleftrightarrow> k = n"
proof -
  have "has (push_bit (nat n) 1 :: u32) (push_bit (nat k) 1) \<longleftrightarrow> bit (push_bit (nat n) 1 :: u32) (nat k)"
    using assms by (simp add: has_def push_bit_eq_mult [where n = "nat k"] and_exp_eq_0_iff_not_bit)
  also have "\<dots> \<longleftrightarrow> nat k = nat n" using assms by (auto simp: bit_simps)
  finally show ?thesis using assms by (auto simp: sigismember_def sigmask_def)
qed

lemma not_has_bits: "\<not> has (x :: u32) m \<Longrightarrow> \<not> (bit x i \<and> bit m i)"
  by (auto simp: has_def) (metis bit_0_eq bit_and_iff bot_apply bot_bool_def)

lemma raise_clear:
  fixes x :: u32 assumes "\<not> has x a" "\<not> has x b"
  shows "clrf (clrf (setf x (a OR b)) a) b = x"
proof (rule bit_word_eqI)
  fix i assume "i < LENGTH(32)"
  then show "bit (clrf (clrf (setf x (a OR b)) a) b) i = bit x i"
    using not_has_bits [OF assms(1), of i] not_has_bits [OF assms(2), of i] by (auto simp: clrf_def setf_def bit_simps)
qed

lemma flags_back:
  assumes "\<not> has x RTS_SIGNALED" "\<not> has x RTS_SIG_PENDING"
  shows "clrf (clrf (setf x (RTS_SIGNALED OR RTS_SIG_PENDING)) RTS_SIGNALED) RTS_SIG_PENDING = x"
    "clrf (clrf (setf (setf x (RTS_SIGNALED OR RTS_SIG_PENDING)) RTS_PREEMPTED) RTS_SIGNALED) RTS_SIG_PENDING = setf x RTS_PREEMPTED"
proof -
  show "clrf (clrf (setf x (RTS_SIGNALED OR RTS_SIG_PENDING)) RTS_SIGNALED) RTS_SIG_PENDING = x" by (rule raise_clear [OF assms])
  have "setf (setf x (RTS_SIGNALED OR RTS_SIG_PENDING)) RTS_PREEMPTED = setf (setf x RTS_PREEMPTED) (RTS_SIGNALED OR RTS_SIG_PENDING)"
    by (simp only: setf_def or.assoc or.commute or.left_commute)
  then show "clrf (clrf (setf (setf x (RTS_SIGNALED OR RTS_SIG_PENDING)) RTS_PREEMPTED) RTS_SIGNALED) RTS_SIG_PENDING = setf x RTS_PREEMPTED"
    using raise_clear [of "setf x RTS_PREEMPTED" RTS_SIGNALED RTS_SIG_PENDING] assms by (simp only:) (simp add: has_setf_other)
qed

lemma flags_raised: "has (setf x (RTS_SIGNALED OR RTS_SIG_PENDING)) RTS_SIGNALED" "has (setf x (RTS_SIGNALED OR RTS_SIG_PENDING)) RTS_SIG_PENDING"
proof -
  have e: "setf (setf x RTS_SIG_PENDING) RTS_SIGNALED = setf x (RTS_SIGNALED OR RTS_SIG_PENDING)"
    "setf (setf x RTS_SIGNALED) RTS_SIG_PENDING = setf x (RTS_SIGNALED OR RTS_SIG_PENDING)"
    by (simp_all add: setf_def or.assoc or.commute or.left_commute)
  show "has (setf x (RTS_SIGNALED OR RTS_SIG_PENDING)) RTS_SIGNALED" "has (setf x (RTS_SIGNALED OR RTS_SIG_PENDING)) RTS_SIG_PENDING"
    using has_setf_same [of RTS_SIGNALED "setf x RTS_SIG_PENDING"] has_setf_same [of RTS_SIG_PENDING "setf x RTS_SIGNALED"] unfolding e by simp_all
qed

text \<open>C18. A signal is handed over exactly once and costs the process nothing but time: when a process is killed with a
  signal, it stops; its manager then gets this process and exactly this signal from the kernel, and asking again gets
  nothing; the process stays stopped until the manager reports that it is done, and then has no pending signal and
  the flags it had before the signal (or was preempted meanwhile). This is the case of a first signal: no process is signalled at the start, nothing is pending for this
  one, its manager is another live process with no message on its way to it (a process that manages itself is
  not stopped), and the kernel is not in the unstable state, in which signals are dropped.\<close>

theorem signal_roundtrip:
  assumes inv: "ready_inv s" "cur_ok s" and e: "isokendpt e s = Some p" "0 \<le> p" and n: "0 \<le> n" "n < NSIG"
    and c: "isokendpt (s_sig_mgr (priv_of s p)) s = Some c" "c \<noteq> p" "\<not> misc_is s c MF_DELIVERMSG" "s_sig_mgr (priv_of s p) \<noteq> SELF"
    and st: "h_unstable_state s \<noteq> 1" "\<forall>x. \<not> RTS_ISSET (procs s x) RTS_SIGNALED" "\<not> RTS_ISSET (procs s p) RTS_SIG_PENDING"
      "p_pending (procs s p) = 0"
  shows "\<exists>s1 s2 s3 m. do_kill (zero_msg\<lparr>m2_i1 := e, m2_i2 := n\<rparr>) s = Inr (OK, s1) \<and> \<not> proc_is_runnable (procs s1 p) \<and>
    do_getksig c zero_msg s1 = Inr (OK, m, s2) \<and> m2_i1 m = e \<and> (\<forall>k \<in> {0 ..< NSIG}. sigismember (m2_l1 m) k \<longleftrightarrow> k = n) \<and>
    \<not> proc_is_runnable (procs s2 p) \<and> getksig_find c s2 = None \<and>
    do_endksig c m s2 = Inr (OK, s3) \<and> ready_inv s3 \<and> p_pending (procs s3 p) = 0 \<and>
    (p_rts_flags (procs s3 p) = p_rts_flags (procs s p) \<or> p_rts_flags (procs s3 p) = setf (p_rts_flags (procs s p)) RTS_PREEMPTED)"
proof -
  let ?F = "p_rts_flags (procs s p)" let ?g = "s_sig_mgr (priv_of s p)"
  have p: "isokprocn p" "p < NR_PROCS" "p_endpoint (procs s p) = e" "ENDPOINT_P e = p" "p_endpoint (procs s c) = ?g"
    using e c(1) by (auto simp: isokendpt_def isokprocn_def Let_def split: if_splits)
  have ns: "\<not> has (p_rts_flags (procs s x)) RTS_SIGNALED" "\<not> has ?F RTS_SIG_PENDING" for x using st(2,3) by (simp_all add: sig_isset)
  obtain s1 where s1: "do_kill (zero_msg\<lparr>m2_i1 := e, m2_i2 := n\<rparr>) s = Inr (OK, s1)" "ready_inv s1" "cur_ok s1"
    "near (setf ?F (RTS_SIGNALED OR RTS_SIG_PENDING)) (p_rts_flags (procs s1 p))"
    "\<And>x. x \<noteq> p \<Longrightarrow> has (p_rts_flags (procs s1 x)) RTS_SIGNALED = has (p_rts_flags (procs s x)) RTS_SIGNALED"
    "p_pending (procs s1 p) = sigmask n" "\<And>x. p_endpoint (procs s1 x) = p_endpoint (procs s x)"
    "\<And>x. s_sig_mgr (priv_of s1 x) = s_sig_mgr (priv_of s x)"
    by (rule kill_effect [OF inv e n(2) c st(1) _ st(4)]) (use st(2) in blast)+
  have h1: "has (p_rts_flags (procs s1 p)) RTS_SIGNALED" "has (p_rts_flags (procs s1 p)) RTS_SIG_PENDING" using near_has [OF s1(4)] flags_raised by simp_all
  have f1: "getksig_find c s1 = Some p"
    by (rule getksig_find_only) (use e(2) p(2,5) h1 s1(5,7,8) ns in \<open>simp_all add: sig_isset\<close>)
  obtain s2 where s2: "do_getksig c zero_msg s1 = Inr (OK, zero_msg\<lparr>m2_i1 := p_endpoint (procs s1 p), m2_l1 := p_pending (procs s1 p)\<rparr>, s2)"
    "ready_inv s2" "cur_ok s2" "p_rts_flags (procs s2 p) = clrf (p_rts_flags (procs s1 p)) RTS_SIGNALED"
    "\<And>x. x \<noteq> p \<Longrightarrow> near (p_rts_flags (procs s1 x)) (p_rts_flags (procs s2 x))"
    "\<And>x. p_endpoint (procs s2 x) = p_endpoint (procs s1 x)" "\<And>x. s_sig_mgr (priv_of s2 x) = s_sig_mgr (priv_of s1 x)" "p_pending (procs s2 p) = 0"
    by (rule getksig_effect [OF s1(2,3) f1]) blast
  let ?m = "zero_msg\<lparr>m2_i1 := p_endpoint (procs s1 p), m2_l1 := p_pending (procs s1 p)\<rparr>"
  have h2: "has (p_rts_flags (procs s2 p)) RTS_SIG_PENDING" using h1(2) s2(4) by (simp add: has_clrf_other)
  have n2: "\<not> RTS_ISSET (procs s2 x) RTS_SIGNALED" for x
    using s2(4) near_has(1) [OF s2(5)] s1(5) ns by (cases "x = p") (simp_all add: sig_isset)
  obtain s3 where s3: "RTS_UNSET p RTS_SIG_PENDING s2 = Inr s3" "ready_inv s3" "p_rts_flags (procs s3 p) = clrf (p_rts_flags (procs s2 p)) RTS_SIG_PENDING"
    "sig_view s2 s3"
    by (rule sig_unset_frame [OF s2(2,3) p(1)]) blast
  have "isokendpt e s2 = Some p" using p has_live [OF h2] s2(6) s1(7) by (simp add: isokendpt_def isemptyn_def)
  then have "do_endksig c ?m s2 = Inr (OK, s3)"
    using s3(1) p(3,5) s1(7,8) s2(6,7) h2 n2 by (simp add: do_endksig_def sig_isset)
  moreover have "near ?F (p_rts_flags (procs s3 p))"
    using s1(4) s2(4) s3(3) ns flags_back by (auto simp: near_def)
  moreover have "getksig_find c s2 = None" using n2 by (auto simp: getksig_find_def find_None_iff)
  moreover have "\<not> proc_is_runnable (procs s1 p)" "\<not> proc_is_runnable (procs s2 p)"
    using has_live [OF h1(2)] has_live [OF h2] by (simp_all add: proc_is_runnable_def)
  moreover have "p_pending (procs s3 p) = 0" using s2(8) s3(4) by (simp add: sig_view_def)
  ultimately show ?thesis using s1(1,6,7) s2(1) s3(2) p(3) signal_bits n by (auto simp: near_def intro!: exI [of _ ?m])
qed

text \<open>Process 3 waits for messages and manages the signals; process 1 runs.\<close>

definition sig_sample :: kstate where
  "sig_sample = upd_priv 1 (\<lambda>v. v\<lparr>s_sig_mgr := 3\<rparr>) recv_sample"

theorem signal_roundtrip_witness:
  "\<exists>s1 s2 s3 m. do_kill (zero_msg\<lparr>m2_i1 := 1, m2_i2 := 15\<rparr>) sig_sample = Inr (OK, s1) \<and> \<not> proc_is_runnable (procs s1 1) \<and>
    do_getksig 3 zero_msg s1 = Inr (OK, m, s2) \<and> sigismember (m2_l1 m) 15 \<and> \<not> sigismember (m2_l1 m) 9 \<and>
    do_endksig 3 m s2 = Inr (OK, s3)"
proof -
  have ss: "same_sched recv_sample sig_sample" unfolding sig_sample_def by (rule same_sched_priv) simp
  have inv: "ready_inv sig_sample" "cur_ok sig_sample" using recv_sample_inv same_sched_view [OF ss] by simp_all
  have p: "p_rts_flags (procs sig_sample x) = (if x = 3 then RTS_RECEIVING else if x = 1 \<or> x = 2 then 0 else 1)" "p_endpoint (procs sig_sample x) = x"
    "p_misc_flags (procs sig_sample x) = 0" "p_pending (procs sig_sample x) = 0" "s_sig_mgr (priv_of sig_sample 1) = 3"
    "h_unstable_state sig_sample = 0" for x
    by (simp_all add: sig_sample_def upd_priv_def priv_of_def recv_sample_def with_flags_def upd_proc_def queue_sample_def zero_proc_def bss_state_def)
  have ok: "isokendpt 1 sig_sample = Some 1" "isokendpt (s_sig_mgr (priv_of sig_sample 1)) sig_sample = Some 3"
    using p by (simp_all add: isokendpt_def isemptyn_def ENDPOINT_P_def c_rem_def isokprocn_def)
  have st: "\<forall>x. \<not> RTS_ISSET (procs sig_sample x) RTS_SIGNALED" "\<not> RTS_ISSET (procs sig_sample 1) RTS_SIG_PENDING" "\<not> misc_is sig_sample 3 MF_DELIVERMSG"
    using p by (simp_all add: RTS_ISSET_def misc_is_def has_def)
  obtain s1 s2 s3 m where r: "do_kill (zero_msg\<lparr>m2_i1 := 1, m2_i2 := 15\<rparr>) sig_sample = Inr (OK, s1) \<and> \<not> proc_is_runnable (procs s1 1) \<and>
    do_getksig 3 zero_msg s1 = Inr (OK, m, s2) \<and> m2_i1 m = 1 \<and> (\<forall>k \<in> {0 ..< NSIG}. sigismember (m2_l1 m) k \<longleftrightarrow> k = 15) \<and>
    do_endksig 3 m s2 = Inr (OK, s3)"
    using signal_roundtrip [OF inv ok(1) _ _ _ ok(2) _ st(3) _ _ st(1,2) p(4), of 15] p(5,6) by auto
  then have "sigismember (m2_l1 m) 15" "\<not> sigismember (m2_l1 m) 9" by simp_all
  with r show ?thesis by blast
qed

section \<open>Stopping a process\<close>

lemma stop_isset: "RTS_ISSET q RTS_PROC_STOP = has (p_rts_flags q) RTS_PROC_STOP"
  using one_bit [of 1 "p_rts_flags q"] by (simp add: RTS_ISSET_def push_bit_eq_mult)

text \<open>Stopping a process and resuming it gives the process the flags it had; between the two it does not run.\<close>

theorem stop_resume:
  assumes inv: "ready_inv s" "cur_ok s" and e: "isokendpt e s = Some p" "0 \<le> p" and n: "\<not> RTS_ISSET (procs s p) RTS_PROC_STOP"
  shows "\<exists>t u. do_runctl (zero_msg\<lparr>m1_i1 := e, m1_i2 := RC_STOP, m1_i3 := 0\<rparr>) s = Inr (OK, t) \<and> \<not> proc_is_runnable (procs t p) \<and>
    do_runctl (zero_msg\<lparr>m1_i1 := e, m1_i2 := RC_RESUME\<rparr>) t = Inr (OK, u) \<and> p_rts_flags (procs u p) = p_rts_flags (procs s p)"
proof -
  have p: "isokprocn p" "p_endpoint (procs s p) = e" "ENDPOINT_P e = p" using e(1) by (auto simp: isokendpt_def Let_def split: if_splits)
  obtain t where t: "RTS_SET p RTS_PROC_STOP s = Inr t" "ready_inv t" "cur_ok t" "\<And>x. p_endpoint (procs t x) = p_endpoint (procs s x)"
    "p_rts_flags (procs t p) = setf (p_rts_flags (procs s p)) RTS_PROC_STOP"
    by (rule RTS_SET_frame [OF inv p(1), of RTS_PROC_STOP]) auto
  have h: "has (p_rts_flags (procs t p)) RTS_PROC_STOP" using t(5) has_setf_same [of RTS_PROC_STOP] by simp
  obtain u where u: "RTS_UNSET p RTS_PROC_STOP t = Inr u" "p_rts_flags (procs u p) = clrf (p_rts_flags (procs t p)) RTS_PROC_STOP"
    by (rule sig_unset_frame [OF t(2,3) p(1)]) blast
  have "p_rts_flags (procs t p) \<noteq> RTS_SLOT_FREE" "p_rts_flags (procs t p) \<noteq> 0" using h by (auto simp: has_def)
  then have et: "isokendpt e t = Some p" "\<not> proc_is_runnable (procs t p)"
    using p t(4) by (simp_all add: isokendpt_def isemptyn_def proc_is_runnable_def)
  have "clrf (setf (p_rts_flags (procs s p)) RTS_PROC_STOP) RTS_PROC_STOP = p_rts_flags (procs s p)"
    using raise_clear [of "p_rts_flags (procs s p)" RTS_PROC_STOP RTS_PROC_STOP] n by (simp add: stop_isset clrf_def and.assoc)
  then show ?thesis using t(1,5) e et h u by (simp add: do_runctl_def kassert_def stop_isset)
qed

end
