(* ===== verification/Spec2Isabelle.thy ===== *)
theory Spec2Isabelle
  imports Call_Laws Kcall_Laws Safecopy_Laws Vm_Pram_Laws Clock_Laws Signal_Laws
begin

text \<open>
  The fault tolerance layer of the hardened Minix kernel.

  The kernel executes every stretch of user code of a hardened process -- a \<^emph>\<open>processing
  element\<close>, from one entry into user mode to the next kernel entry -- twice, compares the
  two executions and commits the result only if they agree.  While an element is in
  progress the pages of the process are mapped copy on write: each page has a committed
  frame \<open>us0\<close> and two private copies, \<open>us1\<close> for the first and \<open>us2\<close> for the second run.

  \<^bold>\<open>Parts of the program and the theories that model them\<close> (paths under \<^verbatim>\<open>src/\<close>)

  \<^item> \<open>HPrelude\<close>: the error monad (\<open>stop\<close>: panics, failed assertions, null dereferences and
    divergence are values), bounded loops, walks along linked lists, the locale \<open>slot_table\<close>
    of linked lists threaded through a static table (interpreted by the four tables of the hardening, the
    queues of blocked senders, the blocks of the memory server and the timers) and the locale
    \<open>safe_steps\<close> of operations that keep an invariant and cannot fail (interpreted by the operations on the
    ready lists, the page requests to the memory server, the alarm calls and clock ticks and the requests to
    the scheduling server).
  \<^item> \<open>HTypes\<close>: the state.  The static tables of \<^verbatim>\<open>kernel/arch/i386/htype.h\<close> are functions from
    slot numbers, the process table is a function from process numbers, pointers are slot
    options; the global variables of \<^verbatim>\<open>kernel/glo.h\<close> are fields of the kernel state.
  \<^item> \<open>Machine\<close>: physical memory by bytes, the 32-bit accesses, frame copy and frame
    comparison of \<^verbatim>\<open>memory.c\<close>, the paging macros, 64-bit comparison and cycle conversions.
  \<^item> \<open>Ws_List\<close>: the list of page blocks of a process (\<^verbatim>\<open>pram.c\<close>: \<open>add_pmb\<close>, \<open>look_up_pte\<close>,
    \<open>free_pram_mem_block\<close>, labels).
  \<^item> \<open>Us0_Update\<close>, \<open>Mem_Events\<close>, \<open>Shared_Mem\<close>: \<^verbatim>\<open>us0h.c\<close>, \<^verbatim>\<open>sch.c\<close>, \<^verbatim>\<open>smh.c\<close>.
  \<^item> \<open>Pram_Cow\<close>: the copy-on-write layer of \<^verbatim>\<open>pram.c\<close> (page fault check, start of a run, the
    ends of a run).
  \<^item> \<open>Page_Views\<close>, \<open>Run_Start\<close>, \<open>Isolation\<close>: the abstract specification of that layer.  The
    \<open>view\<close> of a page is its block, its page table entry and the contents of its three frames;
    the locale \<open>page_step\<close> says that an operation acts on every page of the list
    by a function on views and on nothing else, and is interpreted by the five ends of
    a run and the two starts of a run.
  \<^item> \<open>Ins_Counter\<close>, \<open>Fault_Inject\<close>: \<^verbatim>\<open>irh.c\<close> and the injection part of \<^verbatim>\<open>hcow.c\<close>.
  \<^item> \<open>Dwc\<close>: \<^verbatim>\<open>dwc.c\<close> and \<^verbatim>\<open>ssh.c\<close>: start, comparison, commit, recovery and abort of an element.
  \<^item> \<open>Run_Queue\<close>: the ready lists, one per priority (\<^verbatim>\<open>kernel/proc.c\<close>: \<open>enqueue\<close>, \<open>enqueue_head\<close>,
    \<open>dequeue\<close>; \<^verbatim>\<open>proc.h\<close>: \<open>RTS_SET\<close>, \<open>RTS_UNSET\<close>; \<^verbatim>\<open>system.c\<close>: \<open>sched_proc\<close>) on the links of the
    process table; \<open>Ready_Lists\<close>: their abstraction as sequences and the refinement.
  \<^item> \<open>Endpoints\<close>: endpoints and the deadlock check of \<^verbatim>\<open>proc.c\<close> and \<^verbatim>\<open>hcow.c\<close>.
  \<^item> \<open>Ipc\<close>, \<open>Ipc_Calls\<close>: message passing (\<^verbatim>\<open>proc.c\<close>): sending, receiving, notifications, tables of
    asynchronous messages, the traps, the message of a process out of quantum; signals and the
    clean-up after an endpoint (\<^verbatim>\<open>system.c\<close>).  The memory of user processes is an argument:
    \<open>usr\<close> reads a message, \<open>retr\<close> and \<open>insrt\<close> read and write an entry of an asynchronous
    table, and each may fail.  \<open>Ipc_Laws\<close>: the lemmas about them.
  \<^item> \<open>Exc_Handler\<close>, \<open>Hard_Init\<close>, \<open>Hard_Calls\<close>: \<^verbatim>\<open>heh.c\<close>, \<^verbatim>\<open>mca.c\<close>, \<^verbatim>\<open>exception.c\<close>,
    \<^verbatim>\<open>hm.c\<close>, and the kernel calls under \<^verbatim>\<open>kernel/system\<close>; \<open>Call_Laws\<close>: VM's answer to a page fault.
  \<^item> \<open>Pick_Proc\<close>: the choice of the next process (\<^verbatim>\<open>proc.c\<close>: \<open>hpick_proc\<close>, \<open>pick_proc\<close> and the
    part of \<open>switch_to_user\<close> that leads to it), where the hardening meets the scheduler.
  \<^item> \<open>Element\<close>, \<open>Element_Steps\<close>: the invariant of a running element and the step relation of
    user code, page faults, counter interrupts, resumptions and ends of runs.
  \<^item> \<open>Event_Laws\<close>: the lemmas about the memory events of \<open>Mem_Events\<close> and their replay.
  \<^item> \<open>Virt_Copy\<close>: copies between address spaces (\<^verbatim>\<open>memory.c\<close>: \<open>createpde\<close>, \<open>lin_lin_copy\<close>, \<open>virtual_copy_f\<close>,
    \<open>vm_memset\<close>; \<^verbatim>\<open>klib.S\<close>: \<open>phys_copy\<close>; the calls \<open>do_copy\<close> and \<open>do_memset\<close>), with the memory event that a copy into
    a hardened process leaves behind; \<open>Copy_Laws\<close>: the lemmas about them.
  \<^item> \<open>Kernel_Calls\<close>: the way of a kernel call from the trap to its reply, its suspension until VM has
    provided memory and its resumption (\<^verbatim>\<open>system.c\<close>, \<^verbatim>\<open>do_vmctl.c\<close>); \<open>Kcall_Laws\<close>.
  \<^item> \<open>Grants\<close>: \<^verbatim>\<open>do_safecopy.c\<close> and \<^verbatim>\<open>do_setgrant.c\<close>, the grants read byte by byte from the memory of the
    granter; \<open>Grant_Laws\<close>, \<open>Safecopy_Laws\<close>.  The pointer to the privilege structure of a process is an index
    into their table, so that the null pointer tested by \<open>HASGRANTTABLE\<close> has no counterpart.
  \<^item> \<open>Vm_Alloc\<close>: the page allocator of the memory server (\<^verbatim>\<open>servers/vm/alloc.c\<close>, the yielded blocks of
    \<^verbatim>\<open>region.c\<close>); \<open>Vm_Pram\<close>: its hardening part (\<^verbatim>\<open>vmpram.c\<close>, \<^verbatim>\<open>vmcow.c\<close>, \<^verbatim>\<open>hcow.c\<close>).  The state of the
    server contains the kernel state, and its kernel calls are the calls of the model; \<open>Vm_Alloc_Laws\<close>,
    \<open>Vm_Pram_Laws\<close>.
  \<^item> \<open>Timers\<close>: the timer library (\<^verbatim>\<open>lib/libtimers\<close>); \<open>Clock\<close>: \<^verbatim>\<open>clock.c\<close>, alarms, virtual timers and
    accounting.  The state of the clock contains the kernel state; \<open>Timer_Laws\<close> with the locale
    \<open>quiet_watchdogs\<close> of watchdogs that leave the queue alone (interpreted by those of the kernel),
    \<open>Clock_Laws\<close>.
  \<^item> \<open>Sched_Calls\<close>: the kernel calls of schedulers and signal managers (\<^verbatim>\<open>do_schedule.c\<close>, \<^verbatim>\<open>do_schedctl.c\<close>,
    \<^verbatim>\<open>do_kill.c\<close>, \<^verbatim>\<open>do_getksig.c\<close>, \<^verbatim>\<open>do_endksig.c\<close>, \<^verbatim>\<open>do_runctl.c\<close>); \<open>Sched_Server\<close>: the scheduling server
    (\<^verbatim>\<open>servers/sched\<close>), whose state contains the kernel state; \<open>Sched_Laws\<close>, \<open>Signal_Laws\<close>.
  \<^item> \<open>Samples\<close>: concrete states for the witnesses.

  \<^bold>\<open>What the theorems show.\<close>  This theory: an element is started, executed twice, compared, and
  either committed or rolled back, and committed memory does not change in between.
  \<open>Run_Start\<close>: what each start and end of a run and each page fault does to the frames.
  \<open>Pick_Proc\<close>, \<open>Call_Laws\<close>: during an element only its process and VM run, a page fault goes to VM and
  comes back to the interrupted run with the copy installed, and an element out of quantum is
  rolled back.  \<open>Ws_List\<close>: insertion, removal and clean-up of the working set lists.  \<open>Ready_Lists\<close>:
  the ready lists hold exactly the runnable processes, whatever sequence of operations runs.
  \<open>Ipc_Laws\<close>: a message or notification arrives once and unchanged, queues are first come first
  served, calls respect the masks, and when the deadlock check overruns its array.  \<open>Machine\<close>,
  \<open>Ins_Counter\<close>, \<open>Fault_Inject\<close>: frame copies, the instruction budget, single bit flips.
  \<open>Event_Laws\<close>, \<open>Copy_Laws\<close>: what the kernel writes into a hardened process reaches the committed frame
  at once and both copies when the events are replayed.  \<open>Kcall_Laws\<close>: a suspended kernel call is handed to
  VM and executed again after the answer.  \<open>Grant_Laws\<close>: a grant is honoured only within its terms.
  \<open>Safecopy_Laws\<close>: a copy under a grant changes no byte outside the range it may write and takes none from
  outside the range it may read.
  \<open>Vm_Alloc_Laws\<close>: the scan of the bitmap finds the highest fitting run of pages, and no page is given out
  twice.  \<open>Vm_Pram_Laws\<close>: a page fault of a run is served, from the message to the process that runs
  again on a copy of the committed frame.  \<open>Timer_Laws\<close>, \<open>Clock_Laws\<close>: the timer queue is a stable sort,
  it stays well formed under every sequence of calls and ticks, and an alarm reaches its process in
  exactly the tick it was set for.  \<open>Sched_Laws\<close>: no request to the scheduling server and no balancing stops the
  kernel or leaves the queues, a process out of quantum moves down one queue and balancing brings it
  back.  \<open>Signal_Laws\<close>: a signal is handed over exactly once and its process gets its flags back.

  Several theorems state where the code departs from its purpose: a page that only the second run wrote is
  committed uncompared, a page with one copy escapes the first run, the table of blocks overflows
  into its last slot, one priority too many is accepted, the deadlock check overruns its array on a cycle of waiting processes, a link is left behind by \<open>clear_ipc\<close>, a copy
  from an unmapped page zero succeeds, \<open>do_memset\<close> loses a suspension, a vector of grants overruns its
  array, an aligned allocation leaks pages, a copy that never was is given back, a signal is overwritten by
  another, a far alarm goes off at once, and a refused start request keeps a slot of the scheduling server.

  \<^bold>\<open>Choices.\<close>  The build has \<open>H_DEBUG\<close> off and \<open>CHECK_DEBUG\<close> undefined; the architectural
  performance counter is used.  Walks along lists are \<open>partial_function (option)\<close>, with
  divergence as the value \<open>Diverges\<close>, so that a theorem with an \<open>Inr\<close> result includes
  termination.  No fuel is used there.  The deadlock check is a total function: it ends at the latest when the
  number of processes it entered reaches the length of its array (\<open>DEBUG_ENABLE_IPC_WARNINGS\<close> is 1).

  \<^bold>\<open>Assumptions about an element.\<close>  The theorems on elements start from \<open>pe_running\<close> or from what establishes it:
  the working set list is well formed, its frames are aligned, disjoint and no page tables, physical memory does
  not fault, the process shares no memory, no memory event waits to be replayed, and faults are not injected.
  They exclude the run whose end goes to single stepping (\<open>stepping_due\<close>: it was ended by the counter with
  another number of instructions than the first run and with different registers); that branch of \<open>hardening_task\<close>
  is modelled, but no theorem is stated about it.  Isolation also needs that no page is half marked, since such a page is
  mapped to its committed frame (\<open>run_entry_escape\<close>).

  The watchdogs of the timer library are an argument, and running the expired timers is
  \<open>partial_function (option)\<close> as well, since a watchdog may set timers.  The shutdown watchdog ends the model
  with a stop, as it ends the machine.  Machine integers are words; a \<open>clock_t\<close> is read as signed.

  \<^bold>\<open>Not modelled.\<close>  The loop of \<open>switch_to_user\<close> around the choice of a process (copying a
  delivered message to the user, FPU switching, the idle state), boot and the set-up of interrupt
  controllers and hardware timers, which are device programming, the timer that triggers the balancing of the scheduling server (balancing is an
  event that may come at any time), the kernel calls not named above, more than
  one processor, the rest of the memory server (regions, page tables, fork and exec), the other servers,
  drivers, libraries and commands, which are stock Minix or third-party code, and the display routines,
  which only print.
\<close>

text \<open>C1. Detection and recovery: at the end of the second run, if the registers of the two
  runs differ or a page that has both copies and is marked as written by the first run differs between them, the element
  starts over: the kernel returns to the process in a new first run, with the registers
  saved at the start of the element, every committed frame unchanged, both copies equal
  to it, and the failure counted. Left out is a run that was ended by the instruction counter with another
  number of instructions than the first run and different registers: that one is not compared but single-stepped
  (\<open>stepping_due\<close>). Not compared either, and so not part of the claim, is a page written by the first run for which the
  second run made no copy. The state is that of a running element (\<open>pe_running\<close>): well-formed working set with frames of its own for every page, no faults on
  physical memory, a process that shares no memory and has no recorded memory events, fault injection off.\<close>

theorem hardening_task_recovers:
  assumes "pe_running p root as s" "proc_ptr s = p" "h_step s = SECOND_RUN" "\<not> stepping_due p s"
    "\<not> cmp_reg (save_context p s) \<or> (\<exists>a \<in> set as. \<not> page_agrees s a)"
  shows "\<exists>t. hardening_task s = Inr (ToUser p, t) \<and> pe_running p root as t \<and> h_step t = FIRST_RUN \<and> h_restore t = 0 \<and>
      p_reg (procs t p) = move_regs (z_reg (copy_0 s)) (p_reg (procs s p)) \<and> nbpe_f t = nbpe_f s + 1 \<and> nbpe t = nbpe s \<and>
      (\<forall>a \<in> set as. same_frame (mem t) (us0 (working_set s a)) (mem s) (us0 (working_set s a)) \<and>
         (us1 (working_set s a) \<noteq> MAP_NONE \<longrightarrow> same_frame (mem t) (us1 (working_set s a)) (mem s) (us0 (working_set s a))) \<and>
         (us2 (working_set s a) \<noteq> MAP_NONE \<longrightarrow> same_frame (mem t) (us2 (working_set s a)) (mem s) (us0 (working_set s a))))"
  using task_recovers [OF assms] by blast

theorem hardening_task_recovers_witness:
  "\<exists>t. hardening_task run_state = Inr (ToUser 1, t) \<and> h_step t = FIRST_RUN \<and> same_frame (mem t) 0x7000 (mem run_state) 0x5000"
proof -
  have "\<not> same_frame sample_mem 0x7000 sample_mem 0x6000"
    by (rule same_frame_byte) (simp add: sample_mem_def mem_set32_def)
  then have "\<not> page_agrees run_state 0" by (simp add: page_agrees_def pmb_is_def has_def run_state_def)
  then have "\<exists>a \<in> set [0]. \<not> page_agrees run_state a" by simp
  from hardening_task_recovers [OF run_state_running _ _ no_stepping(1) disjI2 [OF this]] show ?thesis
    by (auto simp: run_state_def sample_state_def)
qed

text \<open>C2. Commit: at the end of the second run, if the registers agree, every compared page (both copies, marked
  as written by the first run) agrees, no page is shared and no signal was put off, the element is over: \<open>hardening_task\<close> returns with the
  hardening switched off and the element counted, the process keeps the registers of the
  second run, and for every page with a copy of the second run: if it was written its committed frame has the second run's contents --
  which are those of the first run if the page was compared -- otherwise its committed
  frame is as before, and the page maps its committed frame. The claim is about a comparison that takes place (single stepping is not due),
  and says nothing of pages without a copy of the second run. The state is that of a running element (\<open>pe_running\<close>): well-formed working set with frames of its own for every page, no faults on
  physical memory, a process that shares no memory and has no recorded memory events, fault injection off.\<close>

theorem hardening_task_commits:
  assumes "pe_running p root as s" "proc_ptr s = p" "h_step s = SECOND_RUN" "\<not> stepping_due p s"
    "cmp_reg (save_context p s)" "\<And>a. a \<in> set as \<Longrightarrow> page_agrees s a" "\<And>a. a \<in> set as \<Longrightarrow> \<not> pmb_is a WS_SHARED s"
    "p_sig_delay (procs s p) = - 1"
  shows "\<exists>t. hardening_task s = Inr (Back, t) \<and> h_enable t = H_DISABLE \<and> h_step t = NO_HARD_RUN \<and> nbpe t = nbpe s + 1 \<and>
      nbpe_f t = nbpe_f s \<and> p_reg (procs t p) = p_reg (procs s p) \<and>
      (\<forall>a \<in> set as. us2 (working_set s a) \<noteq> MAP_NONE \<longrightarrow>
         same_frame (mem t) (us0 (working_set s a)) (mem s) (if written root s a then us2 (working_set s a) else us0 (working_set s a)) \<and>
         (written root s a \<and> pmb_is a FWS s \<and> us1 (working_set s a) \<noteq> MAP_NONE \<longrightarrow>
            same_frame (mem t) (us0 (working_set s a)) (mem s) (us1 (working_set s a))) \<and>
         I386_VM_PFA (pte_of root t (pmb_vaddr (working_set s a))) = us0 (working_set s a) \<and>
         has (pte_of root t (pmb_vaddr (working_set s a))) I386_VM_WRITE)"
  by (rule task_commits [OF assms])

theorem hardening_task_commits_witness:
  "\<exists>t. hardening_task agree_state = Inr (Back, t) \<and> h_enable t = H_DISABLE"
  using hardening_task_commits [OF agree_running _ _ no_stepping(2) same_registers(1)] agree_pages
  by (auto simp: pmb_is_def has_def state_defs sample_state_def)

text \<open>C6. The end of the first run: the kernel returns to the process in the second run, from
  the registers saved at the start of the element; no committed frame changed, and no copy
  unless a region was announced meanwhile; the registers the first run ended with are kept
  for the comparison, and every page that the first run wrote and that has a first copy is marked as part of the final
  working set. The comment at this place of \<open>dwc.c\<close> says that \<open>us0\<close> is overwritten; it is not. The state is that of a running element (\<open>pe_running\<close>): well-formed working set with frames of its own for every page, no faults on
  physical memory, a process that shares no memory and has no recorded memory events, fault injection off.\<close>

theorem hardening_task_second_run:
  assumes "pe_running p root as s" "proc_ptr s = p" "h_step s = FIRST_RUN" "h_restore s = 0"
  shows "\<exists>t. hardening_task s = Inr (ToUser p, t) \<and> pe_running p root as t \<and> h_step t = SECOND_RUN \<and> h_restore t = 0 \<and>
      p_reg (procs t p) = move_regs (z_reg (copy_0 s)) (p_reg (procs s p)) \<and>
      copy_1 t = copy_1 (save_copy_1 p s) \<and>
      (\<forall>a \<in> set as. same_frame (mem t) (us0 (working_set s a)) (mem s) (us0 (working_set s a)) \<and>
         (\<not> pmb_is a H_TO_UPDATE s \<longrightarrow> (\<forall>f \<in> frames_of (working_set s a). same_frame (mem t) f (mem s) f)) \<and>
         (written root s a \<and> us1 (working_set s a) \<noteq> MAP_NONE \<longrightarrow> pmb_is a FWS t))"
  using task_second_run [OF assms] by blast

lemma first_running: "pe_running 1 0x1000 [0] (run_state\<lparr>h_step := FIRST_RUN\<rparr>)"
  using run_state_running by (subst pe_running_cong [of _ run_state]) simp_all

theorem hardening_task_second_run_witness:
  "\<exists>t. hardening_task (run_state\<lparr>h_step := FIRST_RUN\<rparr>) = Inr (ToUser 1, t) \<and> h_step t = SECOND_RUN"
  using hardening_task_second_run [OF first_running] by (auto simp: run_state_def sample_state_def bss_state_def)

text \<open>C7. The start of an element: when the scheduler chose a hardened, runnable process that
  came into the kernel by a known trap, no element is in progress and none waits for VM, \<open>restore_user_context\<close> resumes the process in its first run,
  with its registers unchanged and saved, every committed frame unchanged, and the
  invariant of a running element established. Assumed is that its working set is well formed with frames of its own for every page, that
  physical memory does not fault, that the process shares no memory and has no recorded memory events, and that fault
  injection is off.\<close>

theorem start_of_element:
  assumes "page_world p root as s" "\<And>a. a \<in> set as \<Longrightarrow> backed root s a" "pe_proc p root s"
    "h_enable s = H_DISABLE" "h_wait_vm_reply s = H_NO" "h_step s = NO_HARD_RUN" "has (p_hflags (procs s p)) PROC_TO_HARD"
    "p_rts_flags (procs s p) = 0" "trap_known (p_kern_trap_style (procs s p))" "h_restore s = 0"
  shows "\<exists>t. restore_user_context p s = Inr (ToUser p, t) \<and> pe_running p root as t \<and> h_step t = FIRST_RUN \<and> h_restore t = 0 \<and>
     p_reg (procs t p) = p_reg (procs s p) \<and> move_regs (z_reg (copy_0 t)) (p_reg (procs s p)) = p_reg (procs s p) \<and>
     (\<forall>a \<in> set as. same_frame (mem t) (us0 (working_set s a)) (mem s) (us0 (working_set s a)))"
  using element_starts [OF assms] by blast

theorem start_of_element_witness:
  "\<exists>t. restore_user_context 1 idle_state = Inr (ToUser 1, t) \<and> h_step t = FIRST_RUN"
  using start_of_element [OF idle_state_world _ idle_proc] idle_backed
  by (auto simp: idle_state_def run_state_def sample_state_def bss_state_def zero_proc_def trap_known_def has_def)

text \<open>C3. Committed memory is immutable during an element: from the moment the process is
  resumed in its first run, in every state reached by its user code, by page faults the
  kernel handles, by the counter interrupt, by returns to user mode and by ends of runs,
  in any order, every committed frame has the contents it had before the element, the
  saved start of the element is the same, and a page the process may write is never its
  committed frame. Two things are assumed of each page at the start (\<open>iso_pre\<close>): it is not half marked, that is, a page with a first copy but no second one has neither
  the mark of a write fault of the first run nor that of a change by the kernel (such a page is mapped to its committed frame,
  writable: \<open>run_entry_escape\<close>), and its page table entry is present, a user page, not global and not big,
  under a page directory entry that is in order too (and writable).
  The working set is well formed, memory does not fault, the process shares no memory and has no recorded memory
  events, and fault injection is off, as for the start of an element. User code is taken to write only pages of the working set that are mapped writable,
  and the ends of runs do not include those that go to single stepping.\<close>

theorem element_isolated:
  assumes "page_world p root as s" "\<And>a. a \<in> set as \<Longrightarrow> backed root s a" "pe_proc p root s"
    "h_enable s = H_DISABLE" "h_wait_vm_reply s = H_NO" "h_step s = NO_HARD_RUN" "has (p_hflags (procs s p)) PROC_TO_HARD"
    "p_rts_flags (procs s p) = 0" "trap_known (p_kern_trap_style (procs s p))" "h_restore s = 0"
    "\<And>a. a \<in> set as \<Longrightarrow> iso_pre (view root s a)"
  shows "\<exists>t0. restore_user_context p s = Inr (ToUser p, t0) \<and>
     (\<forall>t. pe_reach p root as t0 t \<longrightarrow> copy_0 t = copy_0 t0 \<and>
        (\<forall>a \<in> set as. same_frame (mem t) (us0 (working_set s a)) (mem s) (us0 (working_set s a)) \<and>
           (has (pte_of root t (pmb_vaddr (working_set s a))) I386_VM_WRITE \<longrightarrow>
              I386_VM_PFA (pte_of root t (pmb_vaddr (working_set s a))) \<noteq> us0 (working_set s a))))"
proof -
  obtain t0 where t0: "restore_user_context p s = Inr (ToUser p, t0)" "pe_running p root as t0" "h_step t0 = FIRST_RUN" "h_restore t0 = 0"
    "\<forall>a \<in> set as. same_frame (mem t0) (us0 (working_set s a)) (mem s) (us0 (working_set s a))"
    "\<forall>a. (working_set t0 a)\<lparr>pmb_flags := pmb_flags (working_set s a)\<rparr> = working_set s a"
    "\<forall>a \<in> set as. iso_view FIRST_RUN (view root t0 a)"
    using element_starts [OF assms(1-10)] assms(11) by blast
  have i0: "el_inv p root as t0 t0" using t0 by (simp add: el_inv_def)
  have "copy_0 t = copy_0 t0 \<and> (\<forall>a \<in> set as. same_frame (mem t) (us0 (working_set s a)) (mem s) (us0 (working_set s a)) \<and>
      (has (pte_of root t (pmb_vaddr (working_set s a))) I386_VM_WRITE \<longrightarrow>
         I386_VM_PFA (pte_of root t (pmb_vaddr (working_set s a))) \<noteq> us0 (working_set s a)))"
    if "pe_reach p root as t0 t" for t
  proof -
    have i: "el_inv p root as t0 t" using reach_inv [OF that i0] .
    have "(working_set t a)\<lparr>pmb_flags := pmb_flags (working_set s a)\<rparr> = working_set s a" for a
      using i t0(6) by (auto simp: el_inv_def intro: same_flags_trans)
    note b = same_block [OF this] same_block [OF t0(6) [rule_format]]
    show ?thesis using i t0(5) by (auto simp: el_inv_def iso_view_def view_sel b intro: same_frame_trans)
  qed
  then show ?thesis using t0(1) by blast
qed

theorem element_isolated_witness:
  "\<exists>t0. restore_user_context 1 idle_state = Inr (ToUser 1, t0) \<and>
     (\<forall>t. pe_reach 1 0x1000 [0] t0 t \<longrightarrow> same_frame (mem t) 0x5000 (mem idle_state) 0x5000)"
proof -
  have v: "view 0x1000 idle_state 0 = view 0x1000 sample_state 0" by (rule view_cong) (simp_all add: state_defs)
  have "iso_pre (view 0x1000 idle_state 0)"
    unfolding v by (simp add: iso_pre_def view_sel no_half_marked_def tame_def check_pt_entry_def has_def)
  then show ?thesis
    using element_isolated [OF idle_state_world _ idle_proc] idle_backed
    by (force simp: idle_state_def run_state_def sample_state_def bss_state_def zero_proc_def trap_known_def has_def)
qed

text \<open>Non-interference: while an element is in progress only its process or VM may run;
  the kernel stops rather than resume any other process.\<close>

theorem start_dwc_excludes:
  assumes "h_enable s = H_ENABLE" "h_restore s = 0" "p_nr (procs s p) \<noteq> h_proc_nr s" "p_nr (procs s p) \<noteq> VM_PROC_NR"
  shows "restore_user_context p s = Inl (Panic ''Interference in the hardening task'')"
  using assms by (simp add: restore_user_context_def start_dwc_def start_pe_def restart_pe_def guard_pe_def)

theorem start_dwc_excludes_witness:
  "restore_user_context 2 run_state = Inl (Panic ''Interference in the hardening task'')"
  using start_dwc_excludes [of run_state 2] by (simp add: run_state_def sample_state_def bss_state_def)

text \<open>C31. The comparison has a gap: when the first run marked no page, a page with both copies that only the second run
  wrote is committed without having been compared, although its two copies differ. Registers agree, no page is shared, no
  signal was put off and single stepping is not due, so that this is an ordinary commit.\<close>

theorem hardening_task_commits_uncompared:
  assumes r: "pe_running p root as s" "proc_ptr s = p" "h_step s = SECOND_RUN" "\<not> stepping_due p s"
    and c: "cmp_reg (save_context p s)" and sd: "p_sig_delay (procs s p) = - 1" and ns: "\<And>a. a \<in> set as \<Longrightarrow> \<not> pmb_is a WS_SHARED s \<and> \<not> pmb_is a FWS s"
    and a: "a \<in> set as" "us1 (working_set s a) \<noteq> MAP_NONE" "us2 (working_set s a) \<noteq> MAP_NONE" "pmb_is a HGET_PF s"
    and df: "\<not> same_frame (mem s) (us2 (working_set s a)) (mem s) (us1 (working_set s a))"
  shows "\<exists>t. hardening_task s = Inr (Back, t) \<and> h_enable t = H_DISABLE \<and>
     same_frame (mem t) (us0 (working_set s a)) (mem s) (us2 (working_set s a)) \<and>
     \<not> same_frame (mem t) (us0 (working_set s a)) (mem s) (us1 (working_set s a))"
proof -
  have ag: "page_agrees s c" if "c \<in> set as" for c using ns [OF that] by (simp add: page_agrees_def Let_def)
  have "written root s a" using a(4) by (simp add: written_def)
  then obtain t where t: "hardening_task s = Inr (Back, t)" "h_enable t = H_DISABLE"
    "same_frame (mem t) (us0 (working_set s a)) (mem s) (us2 (working_set s a))"
    using task_commits [OF r c ag _ sd] ns a by auto
  moreover have "\<not> same_frame (mem t) (us0 (working_set s a)) (mem s) (us1 (working_set s a))"
    using t(3) df same_frame_sym same_frame_trans by blast
  ultimately show ?thesis by blast
qed

theorem hardening_task_commits_uncompared_witness:
  "\<exists>t. hardening_task unmarked_state = Inr (Back, t) \<and> same_frame (mem t) 0x5000 (mem unmarked_state) 0x7000"
proof -
  have w: "working_set unmarked_state 0 = sample_block\<lparr>pmb_flags := HGET_PF OR IWS_PF_SECOND\<rparr>" "mem unmarked_state = sample_mem"
    by (simp_all add: state_defs)
  have "\<not> same_frame sample_mem 0x7000 sample_mem 0x6000"
    by (rule same_frame_byte) (simp add: sample_mem_def mem_set32_def)
  then show ?thesis
    using hardening_task_commits_uncompared [OF unmarked_running _ _ no_stepping(3) same_registers(2) _, of 0]
    by (auto simp: w pmb_is_def has_def) (auto simp: state_defs sample_state_def upd_pmb_def)
qed

end
